(* ===== verification/Prelude.thy ===== *)
theory Prelude
  imports Main
begin

text \<open>
  What every theory of the development shares: the result type of code that raises (a sum, the
  error on the left), the sequencing of such results, and the string operations of Python that the
  modelled modules use (\<open>str.isdigit\<close>, \<open>str.lower\<close>, \<open>str.strip\<close>, \<open>str.split\<close>, \<open>str.find\<close>, slices by
  prefix).

  A Python \<open>str\<close> is a \<open>string\<close> of HOL, a list of characters with code points 0 to 255, so the
  model covers the texts of Latin-1. On them the character classes below are those of Python's
  \<open>str\<close> methods and of the classes \<open>\d\<close>, \<open>\s\<close> and \<open>\w\<close> of its \<open>re\<close> module.
\<close>

named_theorems res_simps \<open>sequencing of results\<close>
named_theorems char_simps \<open>the character classes, unfolded\<close>

section \<open>Results\<close>

type_synonym ('e, 'a) res = "'e + 'a"

definition rbind :: "'e + 'a \<Rightarrow> ('a \<Rightarrow> 'e + 'b) \<Rightarrow> 'e + 'b" where
  "rbind m f = (case m of Inl e \<Rightarrow> Inl e | Inr x \<Rightarrow> f x)"

lemma rbind_simps [simp]:
  "rbind (Inl e) f = Inl e"
  "rbind (Inr x) f = f x"
  by (simp_all add: rbind_def)

lemma rbind_cong [fundef_cong]:
  "m = m' \<Longrightarrow> (\<And>x. m' = Inr x \<Longrightarrow> f x = f' x) \<Longrightarrow> rbind m f = rbind m' f'"
  by (cases m') simp_all

lemma rbind_Inr_iff [res_simps]: "rbind m f = Inr y \<longleftrightarrow> (\<exists>x. m = Inr x \<and> f x = Inr y)"
  by (cases m) simp_all

lemma Inr_rbind_iff [res_simps]: "Inr y = rbind m f \<longleftrightarrow> (\<exists>x. m = Inr x \<and> f x = Inr y)"
  by (cases m) auto

lemma rbind_Inl_iff: "rbind m f = Inl e \<longleftrightarrow> m = Inl e \<or> (\<exists>x. m = Inr x \<and> f x = Inl e)"
  by (cases m) simp_all

lemma rbind_assoc: "rbind (rbind m f) g = rbind m (\<lambda>x. rbind (f x) g)"
  by (cases m) simp_all

lemma rbind_Inr_right [simp]: "rbind m Inr = m"
  by (cases m) simp_all

text \<open>The value of a result that is one, whatever the error was.\<close>

definition res_val :: "'e + 'a \<Rightarrow> 'a option" where
  "res_val m = (case m of Inl _ \<Rightarrow> None | Inr x \<Rightarrow> Some x)"

lemma res_val_simps [simp]:
  "res_val (Inl e) = None"
  "res_val (Inr x) = Some x"
  by (simp_all add: res_val_def)

lemma res_val_Some [simp]: "res_val m = Some x \<longleftrightarrow> m = Inr x"
  by (cases m) simp_all

text \<open>A list comprehension whose body may raise: left to right, the first error stops it.\<close>

fun rmap :: "('a \<Rightarrow> 'e + 'b) \<Rightarrow> 'a list \<Rightarrow> 'e + 'b list" where
  "rmap f [] = Inr []"
| "rmap f (x # xs) = rbind (f x) (\<lambda>y. rbind (rmap f xs) (\<lambda>ys. Inr (y # ys)))"

lemma rmap_cong [fundef_cong]:
  "xs = ys \<Longrightarrow> (\<And>x. x \<in> set ys \<Longrightarrow> f x = g x) \<Longrightarrow> rmap f xs = rmap g ys"
  by (induction ys arbitrary: xs) auto

lemma rmap_Inr_iff: "rmap f xs = Inr ys \<longleftrightarrow> list_all2 (\<lambda>x y. f x = Inr y) xs ys"
proof (induction xs arbitrary: ys)
  case Nil
  then show ?case by auto
next
  case (Cons x xs)
  then show ?case by (cases ys) (auto simp: res_simps)
qed

lemma rmap_length: "rmap f xs = Inr ys \<Longrightarrow> length ys = length xs"
  by (auto simp: rmap_Inr_iff dest: list_all2_lengthD)

lemma rmap_all_Inr: "(\<And>x. x \<in> set xs \<Longrightarrow> f x = Inr (g x)) \<Longrightarrow> rmap f xs = Inr (map g xs)"
  by (induction xs) auto

lemma rmap_total: "(\<And>x. x \<in> set xs \<Longrightarrow> \<exists>y. f x = Inr y) \<Longrightarrow> \<exists>ys. rmap f xs = Inr ys"
proof (induction xs)
  case (Cons x xs)
  then obtain y ys where "f x = Inr y" "rmap f xs = Inr ys" by (meson list.set_intros)
  then show ?case by simp
qed simp

section \<open>Character classes\<close>

definition code_in :: "nat \<Rightarrow> nat \<Rightarrow> char \<Rightarrow> bool" where
  "code_in lo hi c \<longleftrightarrow> lo \<le> of_char c \<and> of_char c \<le> (hi :: nat)"

text \<open>The classes of a regular expression: \<open>\d\<close>, \<open>[A-Za-z]\<close> and \<open>[A-Za-z0-9]\<close>, \<open>\s\<close>.\<close>

definition re_digit :: "char \<Rightarrow> bool" where
  "re_digit c \<longleftrightarrow> code_in 48 57 c"

definition ascii_letter :: "char \<Rightarrow> bool" where
  "ascii_letter c \<longleftrightarrow> code_in 65 90 c \<or> code_in 97 122 c"

definition re_space :: "char \<Rightarrow> bool" where
  "re_space c \<longleftrightarrow> code_in 9 13 c \<or> code_in 28 32 c \<or> of_char c \<in> {133, 160 :: nat}"

definition name_start :: "char \<Rightarrow> bool" where
  "name_start c \<longleftrightarrow> ascii_letter c \<or> c = CHR ''_''"

definition name_char :: "char \<Rightarrow> bool" where
  "name_char c \<longleftrightarrow> ascii_letter c \<or> re_digit c \<or> c = CHR ''_''"

text \<open>
  \<open>str.isdigit\<close> and \<open>str.isalpha\<close> of one character. They accept characters beyond ASCII: the
  superscripts two, three and one are digits, and the accented letters are letters.
\<close>

definition py_isdigit :: "char \<Rightarrow> bool" where
  "py_isdigit c \<longleftrightarrow> re_digit c \<or> of_char c \<in> {178, 179, 185 :: nat}"

definition py_isalpha :: "char \<Rightarrow> bool" where
  "py_isalpha c \<longleftrightarrow> ascii_letter c \<or> of_char c \<in> {170, 181, 186 :: nat} \<or> code_in 192 214 c \<or>
     code_in 216 246 c \<or> code_in 248 255 c"

abbreviation py_isspace :: "char \<Rightarrow> bool" where
  "py_isspace \<equiv> re_space"

lemmas char_defs [char_simps] = re_digit_def ascii_letter_def re_space_def name_start_def
  name_char_def py_isdigit_def py_isalpha_def code_in_def

definition lower_char :: "char \<Rightarrow> char" where
  "lower_char c = (if code_in 65 90 c \<or> (code_in 192 222 c \<and> of_char c \<noteq> (215 :: nat))
                   then char_of (of_char c + 32 :: nat) else c)"

text \<open>
  \<open>str.upper\<close> of a text: the German sharp s becomes two letters. (The micro sign and y with
  diaeresis leave Latin-1, and stay as they are here.)
\<close>

definition upper_char :: "char \<Rightarrow> string" where
  "upper_char c = (if code_in 97 122 c \<or> (code_in 224 254 c \<and> of_char c \<noteq> (247 :: nat))
                   then [char_of (of_char c - 32 :: nat)]
                   else if of_char c = (223 :: nat) then ''SS'' else [c])"

definition py_lower :: "string \<Rightarrow> string" where
  "py_lower s = map lower_char s"

definition py_upper :: "string \<Rightarrow> string" where
  "py_upper s = concat (map upper_char s)"

lemma of_char_lower_char:
  "(of_char (lower_char c) :: nat) =
     (if code_in 65 90 c \<or> (code_in 192 222 c \<and> of_char c \<noteq> (215 :: nat))
      then of_char c + 32 else of_char c)"
  by (auto simp: lower_char_def code_in_def)

lemma lower_char_idem [simp]: "lower_char (lower_char c) = lower_char c"
proof -
  have "\<not> (code_in 65 90 (lower_char c) \<or>
      (code_in 192 222 (lower_char c) \<and> of_char (lower_char c) \<noteq> (215 :: nat)))"
    unfolding code_in_def of_char_lower_char by auto
  then show ?thesis unfolding lower_char_def [of "lower_char c"] by (simp only: if_False)
qed

lemma py_lower_idem [simp]: "py_lower (py_lower s) = py_lower s"
  by (simp add: py_lower_def)

lemma py_lower_simps [simp]:
  "py_lower [] = []"
  "py_lower (c # s) = lower_char c # py_lower s"
  "py_lower (s @ t) = py_lower s @ py_lower t"
  by (simp_all add: py_lower_def)

lemma length_py_lower [simp]: "length (py_lower s) = length s"
  by (simp add: py_lower_def)

section \<open>Strings\<close>

fun py_startswith :: "string \<Rightarrow> string \<Rightarrow> bool" where
  "py_startswith s [] = True"
| "py_startswith [] (p # ps) = False"
| "py_startswith (c # s) (p # ps) = (c = p \<and> py_startswith s ps)"

lemma py_startswith_iff: "py_startswith s p \<longleftrightarrow> (\<exists>t. s = p @ t)"
  by (induction s p rule: py_startswith.induct) auto

lemma py_startswith_append [simp]: "py_startswith (p @ t) p"
  by (simp add: py_startswith_iff)

lemma py_startswith_drop: "py_startswith s p \<Longrightarrow> s = p @ drop (length p) s"
  by (auto simp: py_startswith_iff)

definition py_strip :: "string \<Rightarrow> string" where
  "py_strip s = rev (dropWhile py_isspace (rev (dropWhile py_isspace s)))"

text \<open>\<open>s.split(c)\<close> with a one-character separator: always at least one part.\<close>

fun py_split :: "char \<Rightarrow> string \<Rightarrow> string list" where
  "py_split sep [] = [[]]"
| "py_split sep (c # s) =
     (if c = sep then [] # py_split sep s
      else (case py_split sep s of [] \<Rightarrow> [[c]] | p # ps \<Rightarrow> (c # p) # ps))"

definition py_join :: "string \<Rightarrow> string list \<Rightarrow> string" where
  "py_join sep ps = (case ps of [] \<Rightarrow> [] | p # qs \<Rightarrow> p @ concat (map (\<lambda>q. sep @ q) qs))"

lemma py_join_simps [simp]:
  "py_join sep [] = []"
  "py_join sep [p] = p"
  "py_join sep (p # q # qs) = p @ sep @ py_join sep (q # qs)"
  by (simp_all add: py_join_def)

lemma py_split_not_Nil [simp]: "py_split sep s \<noteq> []"
  by (cases s) (auto split: list.split)

lemma py_join_split: "py_join [sep] (py_split sep s) = s"
proof (induction s)
  case Nil
  then show ?case by simp
next
  case (Cons c s)
  obtain p ps where ps: "py_split sep s = p # ps"
    by (cases "py_split sep s") auto
  show ?case
    using Cons.IH ps by (cases ps) auto
qed

lemma py_split_no_sep: "sep \<notin> set s \<Longrightarrow> py_split sep s = [s]"
  by (induction s) auto

lemma py_split_append: "sep \<notin> set s \<Longrightarrow> py_split sep (s @ sep # t) = s # py_split sep t"
  by (induction s) auto

lemma py_split_parts: "p \<in> set (py_split sep s) \<Longrightarrow> sep \<notin> set p"
  by (induction s arbitrary: p) (auto split: if_splits list.splits)

text \<open>\<open>s.find(c)\<close> for one character: the index of the first occurrence.\<close>

fun find_char :: "char \<Rightarrow> string \<Rightarrow> nat option" where
  "find_char x [] = None"
| "find_char x (c # s) = (if c = x then Some 0 else map_option Suc (find_char x s))"

lemma find_char_None [simp]: "find_char x s = None \<longleftrightarrow> x \<notin> set s"
  by (induction s) auto

lemma find_char_Some: "find_char x s = Some k \<Longrightarrow> k < length s \<and> s = take k s @ x # drop (Suc k) s"
  by (induction s arbitrary: k) (auto split: if_splits)

lemma find_char_append: "x \<notin> set s \<Longrightarrow> find_char x (s @ x # t) = Some (length s)"
  by (induction s) auto

text \<open>The longest prefix of one class, as \<open>[...]*\<close> matches it, and the rest.\<close>

definition py_span :: "(char \<Rightarrow> bool) \<Rightarrow> string \<Rightarrow> string \<times> string" where
  "py_span P s = (takeWhile P s, dropWhile P s)"

lemma py_span_append:
  "\<forall>c \<in> set s. P c \<Longrightarrow> (t = [] \<or> \<not> P (hd t)) \<Longrightarrow> py_span P (s @ t) = (s, t)"
  by (cases t) (auto simp: py_span_def)

lemma py_span_length: "py_span P s = (a, b) \<Longrightarrow> length a + length b = length s"
  by (metis fst_conv length_append py_span_def snd_conv takeWhile_dropWhile_id)

text \<open>\<open>s.split()\<close> and \<open>s.splitlines()\<close>.\<close>

function py_words :: "string \<Rightarrow> string list" where
  "py_words s = (let t = dropWhile py_isspace s in
     if t = [] then [] else takeWhile (\<lambda>c. \<not> py_isspace c) t # py_words (dropWhile (\<lambda>c. \<not> py_isspace c) t))"
  by pat_completeness auto
termination
proof (relation "measure length", goal_cases)
  case (2 s t)
  obtain c r where t: "t = c # r" using 2(2) by (meson neq_Nil_conv)
  have "\<not> py_isspace c" using 2 t hd_dropWhile [of py_isspace s] by (metis list.distinct(1) list.sel(1))
  then have "length (dropWhile (\<lambda>c. \<not> py_isspace c) t) \<le> length r"
    using t by (simp add: length_dropWhile_le)
  moreover have "length t \<le> length s" using 2 by (simp add: length_dropWhile_le)
  ultimately show ?case using t by simp
qed simp

declare py_words.simps [simp del]

definition line_end :: "char \<Rightarrow> bool" where
  "line_end c \<longleftrightarrow> code_in 10 13 c \<or> code_in 28 30 c \<or> of_char c = (133 :: nat)"

fun split_lines :: "string \<Rightarrow> string list" where
  "split_lines [] = []"
| "split_lines (c # r) =
     (if line_end c then
        [] # split_lines (if c = CHR 0x0D \<and> r \<noteq> [] \<and> hd r = CHR ''\<newline>'' then tl r else r)
      else (case split_lines r of [] \<Rightarrow> [[c]] | l # ls \<Rightarrow> if r = [] then [[c]] else (c # l) # ls))"

text \<open>A dictionary lookup over a literal association list.\<close>

definition alist_get :: "('k \<times> 'v) list \<Rightarrow> 'k \<Rightarrow> 'v option" where
  "alist_get xs k = map_of xs k"

section \<open>Dictionaries\<close>

text \<open>A dictionary in insertion order: the first occurrence of a key has the place, the last the value.\<close>

fun dict_set :: "'k \<Rightarrow> 'v \<Rightarrow> ('k \<times> 'v) list \<Rightarrow> ('k \<times> 'v) list" where
  "dict_set k v [] = [(k, v)]"
| "dict_set k v ((x, w) # d) = (if x = k then (x, v) # d else (x, w) # dict_set k v d)"

lemma map_of_dict_set [simp]: "map_of (dict_set k v d) = (map_of d)(k \<mapsto> v)"
  by (induction d) (auto simp: fun_upd_twist)

lemma dict_set_keys [simp]: "fst ` set (dict_set k v d) = insert k (fst ` set d)"
proof (induction d)
  case (Cons p d)
  then show ?case by (cases p; cases "fst p = k") (simp_all add: insert_commute)
qed simp

lemma dict_set_distinct: "distinct (map fst d) \<Longrightarrow> distinct (map fst (dict_set k v d))"
proof (induction d)
  case (Cons p d)
  then show ?case using dict_set_keys [of k v d] by (cases p) (auto simp flip: set_map)
qed simp

end
