(* ===== verification/PyFloat.thy ===== *)
theory PyFloat
  imports Prelude Complex_Main
begin

text \<open>
  Python's \<open>float\<close>, the IEEE 754 double the expression code computes with, as an executable type:
  not a number, the two infinities, and a sign with a rational magnitude (so that 0.0 and -0.0 are
  two values). \<open>rmag\<close> rounds a magnitude to the nearest double, ties to even, with gradual
  underflow; every operation rounds once. The theory also has the reading of a decimal literal and
  \<open>repr\<close>, the shortest decimal text that reads back as the same double (FloatText has the proof
  that it does). The functions of the \<open>math\<close> module (the C library behind sin, pow, ...) are not
  defined here: the evaluator takes them as an argument.
\<close>

section \<open>Magnitudes\<close>

function ndigits :: "int \<Rightarrow> int \<Rightarrow> nat" where
  "ndigits b n = (if n \<le> 0 \<or> b < 2 then 0 else Suc (ndigits b (n div b)))"
  by pat_completeness auto
termination
proof (relation "measure (\<lambda>(b, n). nat n)")
  fix b n :: int
  assume "\<not> (n \<le> 0 \<or> b < 2)"
  then have "n div b < n" by (intro int_div_less_self) auto
  then show "((b, n div b), b, n) \<in> measure (\<lambda>(b, n). nat n)"
    using \<open>\<not> (n \<le> 0 \<or> b < 2)\<close> by auto
qed simp

declare ndigits.simps [simp del]

text \<open>The largest \<open>k\<close> with \<open>b ^ k \<le> q\<close>, for a positive rational \<open>q\<close>.\<close>

definition ilog :: "int \<Rightarrow> rat \<Rightarrow> int" where
  "ilog b q = (let (n, d) = quotient_of q; k = int (ndigits b n) - int (ndigits b d)
               in if of_int b powi k \<le> q then k else k - 1)"

lemma ndigits_bounds:
  assumes "b \<ge> 2" "n > 0"
  shows "ndigits b n > 0 \<and> b ^ (ndigits b n - 1) \<le> n \<and> n < b ^ ndigits b n"
  using assms
proof (induction b n rule: ndigits.induct)
  case (1 b n)
  have step: "ndigits b n = Suc (ndigits b (n div b))"
    using 1(2,3) by (simp add: ndigits.simps [of b n])
  show ?case
  proof (cases "n div b = 0")
    case True
    have "n < b" using True 1(2,3) by (simp add: zdiv_eq_0_iff)
    moreover have "ndigits b 0 = 0" by (subst ndigits.simps) simp
    then have "ndigits b n = Suc 0" unfolding step True by (rule arg_cong)
    ultimately show ?thesis using 1(3) by (simp only: diff_Suc_1) auto
  next
    case False
    then have pos: "n div b > 0" using 1(2,3) by (simp add: less_le pos_imp_zdiv_nonneg_iff)
    have "\<not> (n \<le> 0 \<or> b < 2)" using 1(2,3) by simp
    note IHs = 1(1) [OF this 1(2) pos]
    have IH: "ndigits b (n div b) > 0" "b ^ (ndigits b (n div b) - 1) \<le> n div b"
        "n div b < b ^ ndigits b (n div b)"
      using IHs by blast+
    have eq: "n = b * (n div b) + n mod b" by simp
    have md: "0 \<le> n mod b" "n mod b < b" using 1(2) by auto
    have "b * b ^ (ndigits b (n div b) - 1) \<le> b * (n div b)"
      using IH 1(2) by (intro mult_left_mono) auto
    also have "\<dots> \<le> n" using eq md by linarith
    finally have lo: "b ^ ndigits b (n div b) \<le> n"
      using IH by (simp flip: power_Suc)
    have "n < b * (n div b) + b" using eq md by linarith
    also have "\<dots> = b * (n div b + 1)" by (simp add: algebra_simps)
    also have "\<dots> \<le> b * b ^ ndigits b (n div b)"
      using IH 1(2) by (intro mult_left_mono) auto
    finally have hi: "n < b ^ Suc (ndigits b (n div b))" by simp
    from lo hi step show ?thesis by simp
  qed
qed

lemma ilog_bounds:
  assumes b: "b \<ge> 2" and q: "q > 0"
  shows "of_int b powi ilog b q \<le> q \<and> q < of_int b powi (ilog b q + 1)"
proof -
  obtain n d where nd: "quotient_of q = (n, d)" by (cases "quotient_of q")
  have d0: "d > 0" using quotient_of_denom_pos [OF nd] .
  have qeq: "q = of_int n / of_int d" using quotient_of_div [OF nd] .
  with q d0 have n0: "n > 0" by (simp add: zero_less_divide_iff)
  let ?B = "of_int b :: rat"
  let ?x = "ndigits b n" and ?y = "ndigits b d"
  define k where "k = int ?x - int ?y"
  have B: "?B > 1" using b by simp
  have N: "?x > 0" "b ^ (?x - 1) \<le> n" "n < b ^ ?x"
    using ndigits_bounds [OF b n0] by auto
  have D: "?y > 0" "b ^ (?y - 1) \<le> d" "d < b ^ ?y"
    using ndigits_bounds [OF b d0] by auto
  have N': "?B ^ (?x - 1) \<le> of_int n" "of_int n < ?B ^ ?x"
    using N(2,3) by (simp_all flip: of_int_power)
  have D': "?B ^ (?y - 1) \<le> of_int d" "of_int d < ?B ^ ?y"
    using D(2,3) by (simp_all flip: of_int_power)
  have d0': "(0::rat) < of_int d" using d0 by simp
  have Bk: "?B powi k = ?B ^ ?x / ?B ^ ?y"
    using B by (simp add: k_def power_int_diff)
  have up: "q < ?B powi (k + 1)"
  proof -
    have "q * ?B ^ (?y - 1) \<le> q * of_int d"
      using D'(1) q by (intro mult_left_mono) auto
    also have "\<dots> = of_int n" using qeq d0' by simp
    also have "\<dots> < ?B ^ ?x" by (rule N'(2))
    finally have "q * (?B ^ ?y / ?B) < ?B ^ ?x"
      using D(1) B by (simp add: power_diff)
    then have "q < ?B ^ ?x / ?B ^ ?y * ?B"
      using B by (simp add: field_simps)
    then show ?thesis using Bk B by (simp add: power_int_add)
  qed
  have lo: "?B powi (k - 1) \<le> q"
  proof -
    have "?B ^ ?x / ?B \<le> of_int n" using N'(1) N(1) B by (simp add: power_diff)
    also have "\<dots> = q * of_int d" using qeq d0' by simp
    also have "\<dots> \<le> q * ?B ^ ?y" using D'(2) q by (intro mult_left_mono) auto
    finally have "?B ^ ?x / ?B ^ ?y / ?B \<le> q"
      using B by (simp add: field_simps)
    then show ?thesis using Bk B by (simp add: power_int_diff)
  qed
  have il: "ilog b q = (if ?B powi k \<le> q then k else k - 1)"
    by (simp add: ilog_def nd k_def Let_def)
  show ?thesis
  proof (cases "?B powi k \<le> q")
    case True
    with up show ?thesis by (simp add: il)
  next
    case False
    with lo show ?thesis by (simp add: il)
  qed
qed

lemma powi_le_cancel: "(1::rat) < B \<Longrightarrow> B powi m \<le> B powi n \<longleftrightarrow> m \<le> n"
  by (metis less_le_not_le linorder_le_cases order.antisym order.strict_implies_order
      power_int_increasing power_int_strict_increasing)

lemma powi_less_cancel: "(1::rat) < B \<Longrightarrow> B powi m < B powi n \<longleftrightarrow> m < n"
  by (meson linorder_not_le powi_le_cancel)

lemma ilog_unique:
  assumes "b \<ge> 2" and "of_int b powi k \<le> q" and "q < of_int b powi (k + 1)"
  shows "ilog b q = k"
proof -
  have B: "(1::rat) < of_int b" using assms(1) by simp
  have "(0::rat) < of_int b powi k" using B by (intro zero_less_power_int) simp
  then have q: "q > 0" using assms(2) by simp
  note bd = ilog_bounds [OF assms(1) q]
  have "of_int b powi ilog b q < (of_int b powi (k + 1) :: rat)" using bd assms(3) by simp
  moreover have "of_int b powi k < (of_int b powi (ilog b q + 1) :: rat)" using bd assms(2) by simp
  ultimately show ?thesis using B by (simp add: powi_less_cancel)
qed

text \<open>Rounding to the nearest integer, ties to even.\<close>

definition rne :: "rat \<Rightarrow> int" where
  "rne x = (let f = \<lfloor>x\<rfloor>; d = x - of_int f
            in if d < 1/2 then f else if d > 1/2 then f + 1 else if even f then f else f + 1)"

lemma rne_of_int [simp]: "rne (of_int n) = n"
  by (simp add: rne_def)

lemma rne_unique: "\<bar>x - of_int n\<bar> < 1/2 \<Longrightarrow> rne x = n"
proof -
  assume a: "\<bar>x - of_int n\<bar> < 1/2"
  show ?thesis
  proof (cases "of_int n \<le> x")
    case True
    with a have "\<lfloor>x\<rfloor> = n" by (intro floor_unique) (auto simp: abs_if split: if_splits)
    with a True show ?thesis by (simp add: rne_def)
  next
    case False
    with a have "\<lfloor>x\<rfloor> = n - 1" by (intro floor_unique) (auto simp: abs_if split: if_splits)
    with a False show ?thesis by (auto simp: rne_def Let_def abs_if split: if_splits)
  qed
qed

lemma rne_error: "\<bar>x - of_int (rne x)\<bar> \<le> 1/2"
proof -
  have lo: "\<not> x < of_int \<lfloor>x\<rfloor>" and up: "x < of_int \<lfloor>x\<rfloor> + 1"
    by (simp_all only: not_less of_int_floor_le) linarith
  show ?thesis using up by (auto simp: rne_def Let_def abs_if not_less) (use lo in blast)
qed

lemma rne_mono_bounds:
  assumes "of_int a \<le> x" and "x \<le> of_int b"
  shows "a \<le> rne x \<and> rne x \<le> b"
proof -
  have f: "a \<le> \<lfloor>x\<rfloor>" using assms(1) by (simp add: le_floor_iff)
  have "\<lfloor>x\<rfloor> \<le> b" using assms(2) by (simp add: floor_le_iff)
  show ?thesis
  proof (cases "\<lfloor>x\<rfloor> = b")
    case True
    then have "x = of_int b" using assms(2) by (metis floor_le_iff linorder_not_less of_int_floor_le
        order_antisym)
    then show ?thesis using f True by simp
  next
    case False
    then show ?thesis using f \<open>\<lfloor>x\<rfloor> \<le> b\<close> by (auto simp: rne_def Let_def)
  qed
qed

text \<open>The exponent of the smallest normal double.\<close>

definition emin :: int where
  "emin = -1022"

text \<open>The spacing of the doubles around a magnitude, and the nearest double's magnitude.\<close>

definition ulp :: "rat \<Rightarrow> rat" where
  "ulp q = 2 powi (max (ilog 2 q) emin - 52)"

definition rmag :: "rat \<Rightarrow> rat" where
  "rmag q = (if q \<le> 0 then 0 else of_int (rne (q / ulp q)) * ulp q)"

lemma ulp_pos [simp]: "ulp q > 0"
  by (simp add: ulp_def zero_less_power_int)

lemma rmag_nonneg [simp]: "rmag q \<ge> 0"
proof (cases "q \<le> 0")
  case False
  then have "0 \<le> rne (q / ulp q)"
    using rne_mono_bounds [of 0 "q / ulp q" "\<lceil>q / ulp q\<rceil>"] by (simp add: less_imp_le)
  with False show ?thesis by (simp add: rmag_def less_imp_le)
qed (simp add: rmag_def)

lemma rmag_0 [simp]: "rmag 0 = 0"
  by (simp add: rmag_def)

lemma rmag_error: "q \<ge> 0 \<Longrightarrow> \<bar>q - rmag q\<bar> \<le> ulp q / 2"
proof (cases "q = 0")
  case False
  assume "q \<ge> 0"
  have "q - rmag q = (q / ulp q - of_int (rne (q / ulp q))) * ulp q"
    using False \<open>q \<ge> 0\<close> ulp_pos [of q] by (simp add: rmag_def left_diff_distrib less_imp_neq [symmetric])
  then have "\<bar>q - rmag q\<bar> = \<bar>q / ulp q - of_int (rne (q / ulp q))\<bar> * ulp q"
    by (simp only: abs_mult abs_of_pos [OF ulp_pos])
  also have "\<dots> \<le> 1/2 * ulp q"
    by (intro mult_right_mono rne_error) (simp add: less_imp_le)
  finally show ?thesis by simp
qed (simp add: less_imp_le)

text \<open>A magnitude that is an integral number of spacings is a double: it rounds to itself.\<close>

lemma rmag_fixed:
  assumes "q > 0" and "q = of_int n * ulp q"
  shows "rmag q = q"
proof -
  have "q / ulp q = of_int n"
    using assms(2) ulp_pos [of q] by (metis less_irrefl nonzero_mult_div_cancel_right)
  then show ?thesis using assms by (simp add: rmag_def)
qed

lemma ilog2_bounds: "q > 0 \<Longrightarrow> 2 powi ilog 2 q \<le> q \<and> q < 2 powi (ilog 2 q + 1)"
  using ilog_bounds [of 2 q] by simp

lemma ilog2_unique: "2 powi k \<le> q \<Longrightarrow> q < 2 powi (k + 1) \<Longrightarrow> ilog 2 q = k"
  using ilog_unique [of 2 k q] by simp

lemma two_powi_le [simp]: "(2::rat) powi m \<le> 2 powi n \<longleftrightarrow> m \<le> n"
  by (rule powi_le_cancel) simp

lemma two_powi_less [simp]: "(2::rat) powi m < 2 powi n \<longleftrightarrow> m < n"
  by (rule powi_less_cancel) simp

lemma two_powi_pos [simp]: "(0::rat) < 2 powi m"
  by (simp add: zero_less_power_int)

lemma two_powi_split: "m \<ge> n \<Longrightarrow> (2::rat) powi m = of_int (2 ^ nat (m - n)) * 2 powi n"
proof -
  assume "m \<ge> n"
  then have "m = int (nat (m - n)) + n" by simp
  then have "(2::rat) powi m = 2 powi (int (nat (m - n)) + n)" by (rule arg_cong)
  also have "\<dots> = 2 powi int (nat (m - n)) * 2 powi n" by (rule power_int_add) simp
  finally show ?thesis by (simp only: power_int_of_nat of_int_power of_int_numeral)
qed

text \<open>Rounding gives a double: rounding it again changes nothing.\<close>

lemma rmag_idem [simp]: "rmag (rmag q) = rmag q"
proof (cases "rmag q = 0 \<or> q \<le> 0")
  case True
  then show ?thesis by (auto simp: rmag_def)
next
  case False
  then have q: "q > 0" and r0: "rmag q > 0" using rmag_nonneg [of q] by (auto simp: less_le)
  define n where "n = rne (q / ulp q)"
  have r: "rmag q = of_int n * ulp q" using q by (simp add: rmag_def n_def)
  then have n0: "n > 0" using r0 ulp_pos [of q] by (simp add: zero_less_mult_iff)
  define e where "e = max (ilog 2 q) emin"
  have u: "ulp q = 2 powi (e - 52)" by (simp add: ulp_def e_def)
  have "2 powi (ilog 2 q + 1) \<le> (2::rat) powi (e + 1)" by (subst two_powi_le) (simp add: e_def)
  then have "q < 2 powi (e + 1)" using ilog2_bounds [OF q] by linarith
  then have "q / ulp q \<le> 2 powi (e + 1) / 2 powi (e - 52)"
    unfolding u by (intro divide_right_mono) (auto simp: less_imp_le)
  also have "\<dots> = of_int (2 ^ 53)"
    by (simp flip: power_int_diff)
  finally have hi: "n \<le> 2 ^ 53"
    using rne_mono_bounds [of "\<lfloor>q / ulp q\<rfloor>" "q / ulp q" "2 ^ 53"] by (simp add: n_def)
  have upper: "rmag q \<le> 2 powi (e + 1)"
  proof -
    have "rmag q \<le> of_int (2 ^ 53) * 2 powi (e - 52)"
      unfolding r u using hi by (intro mult_right_mono) (auto simp: less_imp_le simp del: of_int_power)
    also have "\<dots> = 2 powi (e + 1)" using two_powi_split [of "e - 52" "e + 1"] by simp
    finally show ?thesis .
  qed
  have k: "ilog 2 (rmag q) \<le> e + 1"
  proof -
    have "(2::rat) powi ilog 2 (rmag q) \<le> 2 powi (e + 1)"
      using ilog2_bounds [OF r0] upper by linarith
    then show ?thesis by (simp only: two_powi_le)
  qed
  show ?thesis
  proof (cases "ilog 2 (rmag q) \<le> e")
    case True
    show ?thesis
    proof (rule rmag_fixed [OF r0])
      have le: "max (ilog 2 (rmag q)) emin - 52 \<le> e - 52" using True by (auto simp: e_def)
      show "rmag q = of_int (n * 2 ^ nat (e - 52 - (max (ilog 2 (rmag q)) emin - 52))) * ulp (rmag q)"
        unfolding of_int_mult mult.assoc ulp_def [of "rmag q"] two_powi_split [OF le, symmetric]
        by (simp only: r u)
    qed
  next
    case False
    with k have k1: "ilog 2 (rmag q) = e + 1" by simp
    then have eq: "rmag q = 2 powi (e + 1)" using ilog2_bounds [OF r0] upper by simp
    show ?thesis
    proof (rule rmag_fixed [OF r0])
      have "ulp (rmag q) = 2 powi (e + 1 - 52)" by (simp add: ulp_def k1 e_def)
      then show "rmag q = of_int (2 ^ 52) * ulp (rmag q)"
        using two_powi_split [of "e + 1 - 52" "e + 1"] eq by simp
    qed
  qed
qed

section \<open>Floats\<close>

text \<open>\<open>Fin s q\<close> is the finite value with sign \<open>s\<close> (True: negative) and magnitude \<open>q\<close>.\<close>

datatype pyfloat = NaN | Inf bool | Fin bool rat

definition dbl_mag :: "rat \<Rightarrow> bool" where
  "dbl_mag q \<longleftrightarrow> q \<ge> 0 \<and> rmag q = q \<and> (q = 0 \<or> ilog 2 q < 1024)"

fun is_double :: "pyfloat \<Rightarrow> bool" where
  "is_double (Fin s q) = dbl_mag q"
| "is_double _ = True"

text \<open>The double nearest to a signed magnitude: infinite from \<open>2 ^ 1024\<close> on.\<close>

definition mkfloat :: "bool \<Rightarrow> rat \<Rightarrow> pyfloat" where
  "mkfloat s q = (let r = rmag q in if r \<noteq> 0 \<and> ilog 2 r \<ge> 1024 then Inf s else Fin s r)"

lemma mkfloat_double [simp]: "is_double (mkfloat s q)"
  by (auto simp: mkfloat_def Let_def dbl_mag_def)

lemma mkfloat_fixed: "dbl_mag q \<Longrightarrow> mkfloat s q = Fin s q"
  by (auto simp: mkfloat_def Let_def dbl_mag_def)

definition fval :: "bool \<Rightarrow> rat \<Rightarrow> rat" where
  "fval s q = (if s then - q else q)"

fun finite_float :: "pyfloat \<Rightarrow> bool" where
  "finite_float (Fin s q) = True"
| "finite_float _ = False"

fun fneg :: "pyfloat \<Rightarrow> pyfloat" where
  "fneg NaN = NaN"
| "fneg (Inf s) = Inf (\<not> s)"
| "fneg (Fin s q) = Fin (\<not> s) q"

fun fabs :: "pyfloat \<Rightarrow> pyfloat" where
  "fabs NaN = NaN"
| "fabs (Inf s) = Inf False"
| "fabs (Fin s q) = Fin False q"

fun fadd :: "pyfloat \<Rightarrow> pyfloat \<Rightarrow> pyfloat" where
  "fadd (Fin s a) (Fin t b) =
     (let v = fval s a + fval t b in if v = 0 then Fin (s \<and> t) 0 else mkfloat (v < 0) \<bar>v\<bar>)"
| "fadd (Inf s) (Inf t) = (if s = t then Inf s else NaN)"
| "fadd (Inf s) (Fin t b) = Inf s"
| "fadd (Fin s a) (Inf t) = Inf t"
| "fadd _ _ = NaN"

definition fsub :: "pyfloat \<Rightarrow> pyfloat \<Rightarrow> pyfloat" where
  "fsub x y = fadd x (fneg y)"

fun fmul :: "pyfloat \<Rightarrow> pyfloat \<Rightarrow> pyfloat" where
  "fmul (Fin s a) (Fin t b) = mkfloat (s \<noteq> t) (a * b)"
| "fmul (Inf s) (Inf t) = Inf (s \<noteq> t)"
| "fmul (Inf s) (Fin t b) = (if b = 0 then NaN else Inf (s \<noteq> t))"
| "fmul (Fin s a) (Inf t) = (if a = 0 then NaN else Inf (s \<noteq> t))"
| "fmul _ _ = NaN"

text \<open>Division by a zero raises in Python: the callers test the divisor before they divide.\<close>

fun fdiv :: "pyfloat \<Rightarrow> pyfloat \<Rightarrow> pyfloat" where
  "fdiv (Fin s a) (Fin t b) = mkfloat (s \<noteq> t) (a / b)"
| "fdiv (Inf s) (Fin t b) = Inf (s \<noteq> t)"
| "fdiv (Fin s a) (Inf t) = Fin (s \<noteq> t) 0"
| "fdiv _ _ = NaN"

fun flt :: "pyfloat \<Rightarrow> pyfloat \<Rightarrow> bool" where
  "flt (Fin s a) (Fin t b) = (fval s a < fval t b)"
| "flt (Inf s) (Inf t) = (s \<and> \<not> t)"
| "flt (Inf s) (Fin t b) = s"
| "flt (Fin s a) (Inf t) = (\<not> t)"
| "flt _ _ = False"

fun feq :: "pyfloat \<Rightarrow> pyfloat \<Rightarrow> bool" where
  "feq (Fin s a) (Fin t b) = (fval s a = fval t b)"
| "feq (Inf s) (Inf t) = (s = t)"
| "feq _ _ = False"

definition fle :: "pyfloat \<Rightarrow> pyfloat \<Rightarrow> bool" where
  "fle x y \<longleftrightarrow> flt x y \<or> feq x y"

definition f0 :: pyfloat where "f0 = Fin False 0"
definition f1 :: pyfloat where "f1 = Fin False 1"

text \<open>\<open>bool(x)\<close>: every value but the two zeros, not a number included.\<close>

definition fnonzero :: "pyfloat \<Rightarrow> bool" where
  "fnonzero x \<longleftrightarrow> \<not> feq x f0"

text \<open>\<open>float(i)\<close> of an integer (the modelled code converts only integers below \<open>2 ^ 1024\<close>).\<close>

definition float_of_int :: "int \<Rightarrow> pyfloat" where
  "float_of_int i = mkfloat (i < 0) (of_int \<bar>i\<bar>)"

text \<open>
  The exceptions of the \<open>math\<close> module, with their text; \<open>math.floor\<close>, \<open>math.ceil\<close> and
  \<open>math.trunc\<close> give integers and raise for the values that have none.
\<close>

datatype math_exc = ValueErr string | OverflowErr string | ZeroDivErr string

fun fint_by :: "(rat \<Rightarrow> int) \<Rightarrow> pyfloat \<Rightarrow> math_exc + int" where
  "fint_by f (Fin s q) = Inr (f (fval s q))"
| "fint_by f (Inf s) = Inl (OverflowErr ''cannot convert float infinity to integer'')"
| "fint_by f NaN = Inl (ValueErr ''cannot convert float NaN to integer'')"

definition math_floor :: "pyfloat \<Rightarrow> math_exc + int" where
  "math_floor = fint_by floor"

definition math_ceil :: "pyfloat \<Rightarrow> math_exc + int" where
  "math_ceil = fint_by ceiling"

definition math_trunc :: "pyfloat \<Rightarrow> math_exc + int" where
  "math_trunc = fint_by (\<lambda>x. if x < 0 then \<lceil>x\<rceil> else \<lfloor>x\<rfloor>)"

lemma finite_float_iff: "finite_float x \<longleftrightarrow> (\<exists>s q. x = Fin s q)"
  by (cases x) auto

text \<open>Every integral multiple of a power of two in range, of at most 53 bits, is a double.\<close>

lemma dbl_magI:
  assumes "0 \<le> n" and "n < 2 ^ 53" and "emin - 52 \<le> e" and "e \<le> 971"
  shows "dbl_mag (of_int n * 2 powi e)"
proof (cases "n = 0")
  case True
  then show ?thesis by (simp add: dbl_mag_def)
next
  case False
  let ?q = "of_int n * 2 powi e :: rat"
  have q: "?q > 0" using False assms(1) by simp
  have "(of_int n :: rat) < of_int (2 ^ 53)" using assms(2) by (subst of_int_less_iff)
  then have "?q < of_int (2 ^ 53) * 2 powi e" by (rule mult_strict_right_mono) simp
  also have "\<dots> = 2 powi (e + 53)" using two_powi_split [of e "e + 53"] by simp
  finally have "2 powi ilog 2 ?q < (2 :: rat) powi (e + 53)"
    using ilog2_bounds [OF q] by linarith
  then have k: "ilog 2 ?q < e + 53" by (subst (asm) two_powi_less)
  have le: "max (ilog 2 ?q) emin - 52 \<le> e" using k assms(3) by simp
  have "?q = of_int (n * 2 ^ nat (e - (max (ilog 2 ?q) emin - 52))) * ulp ?q"
    unfolding of_int_mult mult.assoc ulp_def [of ?q] two_powi_split [OF le, symmetric] ..
  then have "rmag ?q = ?q" by (rule rmag_fixed [OF q])
  then show ?thesis using q k assms(4) by (simp add: dbl_mag_def)
qed

lemma dbl_mag_int: "0 \<le> n \<Longrightarrow> n < 2 ^ 53 \<Longrightarrow> dbl_mag (of_int n)"
  using dbl_magI [of n 0] by (simp add: emin_def)

lemma dbl_mag_numeral [simp]: "numeral k < (2 ^ 53 :: int) \<Longrightarrow> dbl_mag (numeral k)"
  using dbl_mag_int [of "numeral k"] by simp

lemma dbl_mag_01 [simp]: "dbl_mag 0" "dbl_mag 1"
  using dbl_mag_int [of 0] dbl_mag_int [of 1] by simp_all

lemma fneg_fneg [simp]: "fneg (fneg x) = x"
  by (cases x) auto

lemma fneg_double [simp]: "is_double (fneg x) = is_double x"
  by (cases x) auto

lemma finite_fneg [simp]: "finite_float (fneg x) = finite_float x"
  by (cases x) auto

lemma f0_simps [simp]: "finite_float f0" "is_double f0" "\<not> fnonzero f0"
  by (simp_all add: f0_def dbl_mag_def fnonzero_def)

lemma ilog2_one [simp]: "ilog 2 1 = 0"
  by (rule ilog2_unique) simp_all

lemma rmag_one [simp]: "rmag 1 = 1"
proof (rule rmag_fixed)
  have "(2::rat) powi 0 = of_int (2 ^ nat (0 - (-52))) * 2 powi (-52)"
    by (rule two_powi_split) simp
  then show "1 = of_int (2 ^ 52) * ulp (1 :: rat)" by (simp add: ulp_def emin_def)
qed simp

lemma f1_simps [simp]: "finite_float f1" "is_double f1" "fnonzero f1"
  by (simp_all add: f1_def f0_def dbl_mag_def fnonzero_def fval_def)

section \<open>Decimal text\<close>

definition digit_val :: "char \<Rightarrow> int" where
  "digit_val c = of_char c - 48"

definition digit_char :: "int \<Rightarrow> char" where
  "digit_char d = char_of (48 + d)"

definition int_of_digits :: "string \<Rightarrow> int" where
  "int_of_digits s = foldl (\<lambda>n c. 10 * n + digit_val c) 0 s"

text \<open>The digits of a number that is not negative.\<close>

fun show_digits :: "int \<Rightarrow> string" where
  "show_digits n = (if n < 10 then [digit_char n] else show_digits (n div 10) @ [digit_char (n mod 10)])"

declare show_digits.simps [simp del]

lemma show_digits_not_Nil [simp]: "show_digits n \<noteq> []"
  using show_digits.simps [of n] by (cases "n < 10") simp_all

lemma of_char_digit: "0 \<le> d \<Longrightarrow> d < 10 \<Longrightarrow> digit_val (digit_char d) = d"
proof -
  assume d: "0 \<le> d" "d < 10"
  have "(of_char (char_of (48 + d)) :: int) = (48 + d) mod 256" by (rule of_char_of)
  then show ?thesis using d by (simp add: digit_val_def digit_char_def)
qed

lemma int_of_digits_snoc: "int_of_digits (s @ [c]) = 10 * int_of_digits s + digit_val c"
  by (simp add: int_of_digits_def)

lemma int_of_show_digits: "0 \<le> n \<Longrightarrow> int_of_digits (show_digits n) = n"
proof (induction n rule: show_digits.induct)
  case (1 n)
  show ?case
  proof (cases "n < 10")
    case True
    then show ?thesis
      using 1 of_char_digit [of n] by (simp add: show_digits.simps [of n] int_of_digits_def)
  next
    case False
    then show ?thesis
      using 1 of_char_digit [of "n mod 10"]
      by (simp add: show_digits.simps [of n] int_of_digits_snoc)
  qed
qed

text \<open>\<open>int(s)\<close> for the texts \<open>[+-]?\d+\<close>, and \<open>'%d'\<close> of an integer.\<close>

definition split_sign :: "string \<Rightarrow> bool \<times> string" where
  "split_sign s = (case s of
     [] \<Rightarrow> (False, [])
   | c # r \<Rightarrow> if c = CHR ''-'' then (True, r) else if c = CHR ''+'' then (False, r) else (False, s))"

definition int_of_text :: "string \<Rightarrow> int" where
  "int_of_text s = (case split_sign s of (neg, r) \<Rightarrow>
     if neg then - int_of_digits r else int_of_digits r)"

definition show_int :: "int \<Rightarrow> string" where
  "show_int i = (if i < 0 then CHR ''-'' # show_digits (- i) else show_digits i)"

text \<open>
  The magnitude of a mantissa \<open>ddd\<close>, \<open>ddd.\<close>, \<open>ddd.ddd\<close> or \<open>.ddd\<close>, and
  \<open>float('%se%d' % (mant, exp))\<close> of a signed one, which the number readers build.
\<close>

definition mant_val :: "string \<Rightarrow> rat" where
  "mant_val m = (let ip = takeWhile re_digit m; fp = tl (dropWhile re_digit m)
                 in of_int (int_of_digits (ip @ fp)) / 10 ^ length fp)"

definition float_dec :: "string \<Rightarrow> int \<Rightarrow> pyfloat" where
  "float_dec mant ex = (case split_sign mant of (neg, m) \<Rightarrow> mkfloat neg (mant_val m * 10 powi ex))"

lemma float_dec_double [simp]: "is_double (float_dec m e)"
  by (simp add: float_dec_def split: prod.split)

text \<open>
  \<open>repr\<close>: the shortest decimal that reads back as the same double, the nearest of them. With
  \<open>n\<close> digits, only the two decimals around the value can be it; 17 digits are always enough.
\<close>

definition dec_candidates :: "rat \<Rightarrow> nat \<Rightarrow> (int \<times> int) list" where
  "dec_candidates q n =
     (let j = ilog 10 q - int n + 1; x = q / 10 powi j; near = rne x;
          other = (if of_int near \<le> x then near + 1 else near - 1)
      in [(near, j), (other, j)])"

definition shortest_dec :: "rat \<Rightarrow> (int \<times> int) option" where
  "shortest_dec q = find (\<lambda>(m, j). rmag (of_int m * 10 powi j) = q)
                         (concat (map (dec_candidates q) [1..<18]))"

fun strip_zeros :: "int \<Rightarrow> int \<Rightarrow> int \<times> int" where
  "strip_zeros m j = (if m > 0 \<and> m mod 10 = 0 then strip_zeros (m div 10) (j + 1) else (m, j))"

declare strip_zeros.simps [simp del]

definition pad2 :: "string \<Rightarrow> string" where
  "pad2 s = (if length s < 2 then CHR ''0'' # s else s)"

definition layout_dec :: "int \<Rightarrow> int \<Rightarrow> string" where
  "layout_dec m j = (let ds = show_digits m; n = length ds; decpt = int n + j in
     if -4 < decpt \<and> decpt \<le> 16 then
       (if decpt \<le> 0 then ''0.'' @ replicate (nat (- decpt)) CHR ''0'' @ ds
        else if int n \<le> decpt then ds @ replicate (nat decpt - n) CHR ''0'' @ ''.0''
        else take (nat decpt) ds @ ''.'' @ drop (nat decpt) ds)
     else hd ds # (if n = 1 then [] else CHR ''.'' # tl ds) @ ''e'' @
          (if decpt - 1 < 0 then ''-'' else ''+'') @ pad2 (show_digits \<bar>decpt - 1\<bar>))"

definition repr_mag :: "rat \<Rightarrow> string" where
  "repr_mag q = (if q = 0 then ''0.0'' else
     (case shortest_dec q of None \<Rightarrow> [] | Some (m, j) \<Rightarrow> case_prod layout_dec (strip_zeros m j)))"

fun float_repr :: "pyfloat \<Rightarrow> string" where
  "float_repr NaN = ''nan''"
| "float_repr (Inf s) = (if s then ''-inf'' else ''inf'')"
| "float_repr (Fin s q) = (if s then ''-'' else []) @ repr_mag q"

end
