(* ===== verification/Numbers.thy ===== *)
theory Numbers
  imports PyFloat
begin

text \<open>
  SPICE and Spectre number literals: \<open>vamos/netlist/numbers.py\<close> (\<open>parse_number\<close>, \<open>is_number\<close>,
  \<open>fmt\<close>) and the readers of \<open>vamos/netlist/expr.py\<close> (\<open>number\<close> and its Spectre-mode and
  SPICE-mode forms). The regular expressions have one way to match at most, so they are read left
  to right: white space, mantissa, exponent, tail, white space.

  What \<open>warn(severity, message)\<close> receives is a value of \<open>num_note\<close>, in the order of the calls; an
  error carries the texts its message prints.
\<close>

section \<open>The shape of a literal\<close>

text \<open>\<open>[+-]?(?:\d+\.?\d*|\.\d+)\<close>: the mantissa and the rest.\<close>

definition read_mag :: "string \<Rightarrow> (string \<times> string) option" where
  "read_mag s = (let (ip, r) = py_span re_digit s in
     if ip \<noteq> [] then
       (case r of
          c # r' \<Rightarrow> if c = CHR ''.'' then (let (fp, r2) = py_span re_digit r' in Some (ip @ c # fp, r2))
                    else Some (ip, r)
        | [] \<Rightarrow> Some (ip, r))
     else
       (case r of
          c # r' \<Rightarrow> (let (fp, r2) = py_span re_digit r' in
                      if c = CHR ''.'' \<and> fp \<noteq> [] then Some (c # fp, r2) else None)
        | [] \<Rightarrow> None))"

definition read_mant :: "string \<Rightarrow> (string \<times> string) option" where
  "read_mant s = (case s of
     c # r \<Rightarrow> if c = CHR ''+'' \<or> c = CHR ''-''
              then map_option (\<lambda>(m, t). (c # m, t)) (read_mag r) else read_mag s
   | [] \<Rightarrow> None)"

text \<open>\<open>(?:[eE]([+-]?\d+))?\<close>, over the marks given.\<close>

definition read_exp :: "string \<Rightarrow> string \<Rightarrow> string option \<times> string" where
  "read_exp marks s = (case s of
     c # r \<Rightarrow>
       if c \<in> set marks then
         (let (sg, r1) = (case r of d # r' \<Rightarrow> if d = CHR ''+'' \<or> d = CHR ''-'' then ([d], r') else ([], r)
                                  | [] \<Rightarrow> ([], r));
              (ds, r2) = py_span re_digit r1
          in if ds \<noteq> [] then (Some (sg @ ds), r2) else (None, s))
       else (None, s)
   | [] \<Rightarrow> (None, s))"

text \<open>The tail: one character of the first class, then letters and underscores.\<close>

definition read_tail :: "(char \<Rightarrow> bool) \<Rightarrow> string \<Rightarrow> string \<times> string" where
  "read_tail first s = (case s of
     c # r \<Rightarrow> if first c then (let (t, r2) = py_span name_start r in (c # t, r2)) else ([], s)
   | [] \<Rightarrow> ([], s))"

definition match_number :: "string \<Rightarrow> (char \<Rightarrow> bool) \<Rightarrow> string \<Rightarrow> (string \<times> string option \<times> string) option"
where
  "match_number marks first s = (case read_mant (dropWhile re_space s) of
     None \<Rightarrow> None
   | Some (mant, r) \<Rightarrow>
       (let (ex, r1) = read_exp marks r; (tail, r2) = read_tail first r1
        in if list_all re_space r2 then Some (mant, ex, tail) else None))"

definition exp_value :: "string option \<Rightarrow> int" where
  "exp_value ex = (case ex of None \<Rightarrow> 0 | Some t \<Rightarrow> int_of_text t)"

section \<open>numbers.py\<close>

datatype num_err =
    NotANumber string
  | NotSpectreNumber string
  | UnitsWithoutScale string string string
  | NotSpiceNumber string
  | CannotPrint pyfloat

text \<open>The scale suffixes, longest first; \<open>None\<close> is MIL, which is a product.\<close>

definition SCALES :: "(string \<times> int option) list" where
  "SCALES = [(''meg'', Some 6), (''mil'', None), (''t'', Some 12), (''g'', Some 9), (''x'', Some 6),
             (''k'', Some 3), (''m'', Some (-3)), (''u'', Some (-6)), (''n'', Some (-9)),
             (''p'', Some (-12)), (''f'', Some (-15)), (''a'', Some (-18))]"

fun find_scale :: "(string \<times> int option) list \<Rightarrow> string \<Rightarrow> (string \<times> int option) option" where
  "find_scale [] tail = None"
| "find_scale ((name, k) # scs) tail =
     (if py_startswith tail name then Some (name, k) else find_scale scs tail)"

definition mil :: pyfloat where
  "mil = float_dec ''25.4'' (-6)"

definition scaled :: "string \<Rightarrow> int \<Rightarrow> string \<Rightarrow> pyfloat" where
  "scaled mant ex tail = (case find_scale SCALES tail of
     Some (_, None) \<Rightarrow> fmul (float_dec mant ex) mil
   | Some (_, Some k) \<Rightarrow> float_dec mant (ex + k)
   | None \<Rightarrow> float_dec mant ex)"

definition parse_number :: "string \<Rightarrow> num_err + pyfloat" where
  "parse_number s = (case match_number ''eE'' name_start s of
     None \<Rightarrow> Inl (NotANumber s)
   | Some (mant, ex, tail) \<Rightarrow> Inr (scaled mant (exp_value ex) (py_lower tail)))"

definition is_number :: "string \<Rightarrow> bool" where
  "is_number s = (case parse_number s of Inl _ \<Rightarrow> False | Inr _ \<Rightarrow> True)"

definition fmt :: "pyfloat \<Rightarrow> num_err + string" where
  "fmt x = (if \<not> finite_float x then Inl (CannotPrint x)
            else (let r = float_repr x in Inr (if r = ''-0.0'' then ''0.0'' else r)))"

section \<open>The readers of expr.py\<close>

datatype num_note =
    ScaleIgnored string string string string
  | MilliWarning string string string
  | UnitsWarning string string string char

definition number_hspice :: "string \<Rightarrow> num_err + pyfloat" where
  "number_hspice s = (case match_number ''eEdD'' name_start s of
     None \<Rightarrow> parse_number s
   | Some (mant, ex, tail) \<Rightarrow> Inr (scaled mant (exp_value ex) (py_lower tail)))"

definition SPECTRE_SCALE :: "(char \<times> int) list" where
  "SPECTRE_SCALE = [(CHR ''T'', 12), (CHR ''G'', 9), (CHR ''M'', 6), (CHR ''K'', 3), (CHR ''k'', 3),
     (CHR ''_'', 0), (CHR ''%'', -2), (CHR ''c'', -2), (CHR ''m'', -3), (CHR ''u'', -6),
     (CHR ''n'', -9), (CHR ''p'', -12), (CHR ''f'', -15), (CHR ''a'', -18)]"

definition number_spectre :: "string \<Rightarrow> num_err + (pyfloat \<times> num_note list)" where
  "number_spectre s = (case match_number ''eE'' (\<lambda>c. name_start c \<or> c = CHR ''%'') s of
     None \<Rightarrow> Inl (NotSpectreNumber s)
   | Some (mant, ex, tail) \<Rightarrow>
       (case tail of
          [] \<Rightarrow> Inr (float_dec mant (exp_value ex), [])
        | t # ts \<Rightarrow>
            (case map_of SPECTRE_SCALE t of
               None \<Rightarrow> Inl (UnitsWithoutScale s mant tail)
             | Some k \<Rightarrow>
                 (case ex of
                    Some e \<Rightarrow> Inr (float_dec mant (int_of_text e),
                                   [ScaleIgnored (py_strip s) [t] mant e])
                  | None \<Rightarrow> Inr (float_dec mant k,
                      if t = CHR ''m'' \<and> (py_lower ts = ''eg'' \<or> py_lower ts = ''il'')
                      then [MilliWarning (py_strip s) mant tail] else [])))))"

definition SPICE_SCALE :: "(string \<times> int option) list" where
  "SPICE_SCALE = [(''meg'', Some 6), (''mil'', None), (''t'', Some 12), (''g'', Some 9),
     (''k'', Some 3), (''m'', Some (-3)), (''u'', Some (-6)), (''n'', Some (-9)),
     (''p'', Some (-12)), (''f'', Some (-15))]"

definition number_spice :: "string \<Rightarrow> num_err + (pyfloat \<times> num_note list)" where
  "number_spice s = (case match_number ''eE'' name_start s of
     None \<Rightarrow> Inl (NotSpiceNumber s)
   | Some (mant, ex, tail) \<Rightarrow>
       (case py_lower tail of
          [] \<Rightarrow> Inr (float_dec mant (exp_value ex), [])
        | c # cs \<Rightarrow>
            (case find_scale SPICE_SCALE (c # cs) of
               Some (name, k) \<Rightarrow>
                 (case ex of
                    Some e \<Rightarrow> Inr (float_dec mant (int_of_text e),
                                   [ScaleIgnored (py_strip s) (take (length name) tail) mant e])
                  | None \<Rightarrow>
                      (case k of
                         None \<Rightarrow> Inr (fmul (float_dec mant 0) mil, [])
                       | Some k' \<Rightarrow> Inr (float_dec mant k', [])))
             | None \<Rightarrow> Inr (float_dec mant (exp_value ex),
                 if c = CHR ''x'' \<or> c = CHR ''a''
                 then [UnitsWarning (py_strip s) tail mant c] else []))))"

datatype dialect = Hspice | Spectre | SpectreSpice

definition number :: "string \<Rightarrow> dialect \<Rightarrow> num_err + (pyfloat \<times> num_note list)" where
  "number s d = (case d of
     Spectre \<Rightarrow> number_spectre s
   | SpectreSpice \<Rightarrow> number_spice s
   | Hspice \<Rightarrow> rbind (number_hspice s) (\<lambda>x. Inr (x, [])))"

end
