(* ===== verification/ExprAst.thy ===== *)
theory ExprAst
  imports PyFloat
begin

text \<open>
  The expression syntax tree (\<open>vamos/netlist/expr_ast.py\<close>) and the routines of
  \<open>vamos/netlist/expr.py\<close> that inspect and rewrite it: \<open>walk\<close> and what is read off it
  (\<open>names\<close>, \<open>node_calls\<close>, \<open>is_constant\<close>, \<open>is_node_dependent\<close>), \<open>transform\<close> and its clients
  \<open>substitute\<close>, \<open>map_nodes\<close> and \<open>inline\<close>.

  \<open>transform\<close> of the code keeps the old node object where the rebuilt one compares equal; the
  model always rebuilds, which is the same expression under Python's \<open>==\<close>. A rewriting function
  that may raise is passed to \<open>transform_r\<close>, one that cannot to \<open>transform\<close>.
\<close>

section \<open>The tree\<close>

datatype expr =
    Num pyfloat
  | Name string
  | Str string
  | Call string "expr list"
  | Unary string expr
  | Binary string expr expr
  | Ternary expr expr expr

definition RESERVED :: "string list" where
  "RESERVED = [''time'', ''temper'', ''hertz'', ''$tnom'']"

text \<open>
  The names of the node-access calls, \<open>_NODE_FUNC\<close>. Its \<open>$\<close> also matches before a final newline.
\<close>

definition node_func_word :: "string \<Rightarrow> bool" where
  "node_func_word s \<longleftrightarrow>
     s \<in> set [''v'', ''vr'', ''vi'', ''vm'', ''vp'', ''vdb'', ''vt'',
              ''i'', ''ir'', ''ii'', ''im'', ''ip'', ''idb'', ''it''] \<or>
     (case s of
        [c, d] \<Rightarrow> c = CHR ''i'' \<and> code_in 49 57 d
      | _ \<Rightarrow> False) \<or>
     (case s of
        c # d # r \<Rightarrow> c = CHR ''l'' \<and> (d = CHR ''v'' \<or> d = CHR ''x'') \<and> r \<noteq> [] \<and> list_all re_digit r
      | _ \<Rightarrow> False)"

definition node_func :: "string \<Rightarrow> bool" where
  "node_func s \<longleftrightarrow> node_func_word s \<or>
     (s \<noteq> [] \<and> last s = CHR ''\<newline>'' \<and> node_func_word (butlast s))"

fun is_node_call :: "expr \<Rightarrow> bool" where
  "is_node_call (Call f args) = node_func f"
| "is_node_call _ = False"

section \<open>Walking\<close>

text \<open>What \<open>walk\<close> pushes for a node, the first to be popped first.\<close>

fun walk_push :: "expr \<Rightarrow> expr list" where
  "walk_push (Call f args) = (if node_func f then [] else args)"
| "walk_push (Unary op a) = [a]"
| "walk_push (Binary op l r) = [l, r]"
| "walk_push (Ternary c a b) = [c, a, b]"
| "walk_push _ = []"

lemma walk_push_size: "sum_list (map (\<lambda>x. Suc (3 * size x)) (walk_push e)) < Suc (3 * size e)"
proof (cases e)
  case (Call f args)
  have "sum_list (map (\<lambda>x. Suc (3 * size x)) args) \<le> 3 * size_list size args"
    by (induction args) auto
  then show ?thesis using Call by simp
qed auto

function walk_loop :: "expr list \<Rightarrow> expr list" where
  "walk_loop [] = []"
| "walk_loop (e # stack) = e # walk_loop (walk_push e @ stack)"
  by pat_completeness auto
termination
  by (relation "measure (\<lambda>st. sum_list (map (\<lambda>x. Suc (3 * size x)) st))")
    (use walk_push_size in \<open>auto simp: add_mono_thms_linordered_field\<close>)

definition walk :: "expr \<Rightarrow> expr list" where
  "walk ast = walk_loop [ast]"

text \<open>The reference: the pre-order list of the nodes.\<close>

fun preorder :: "expr \<Rightarrow> expr list" where
  "preorder (Call f args) = Call f args # (if node_func f then [] else concat (map preorder args))"
| "preorder (Unary op a) = Unary op a # preorder a"
| "preorder (Binary op l r) = Binary op l r # preorder l @ preorder r"
| "preorder (Ternary c a b) = Ternary c a b # preorder c @ preorder a @ preorder b"
| "preorder e = [e]"

lemma preorder_push: "preorder e = e # concat (map preorder (walk_push e))"
  by (cases e) auto

lemma walk_loop_preorder: "walk_loop st = concat (map preorder st)"
proof (induction st rule: walk_loop.induct)
  case (2 e stack)
  then show ?case by (simp add: preorder_push [of e])
qed simp

lemma walk_preorder: "walk e = preorder e"
  by (simp add: walk_def walk_loop_preorder)

definition names :: "expr \<Rightarrow> string set" where
  "names ast = set (concat (map (\<lambda>e. case e of Name n \<Rightarrow> if n \<in> set RESERVED then [] else [n] | _ \<Rightarrow> [])
                                (walk ast)))"

definition node_calls :: "expr \<Rightarrow> expr list" where
  "node_calls ast =
     foldl (\<lambda>out e. if is_node_call e \<and> e \<notin> set out then out @ [e] else out) [] (walk ast)"

definition is_constant :: "expr \<Rightarrow> bool" where
  "is_constant ast =
     list_all (\<lambda>e. \<not> (case e of Name _ \<Rightarrow> True | Str _ \<Rightarrow> True | _ \<Rightarrow> is_node_call e)) (walk ast)"

definition is_node_dependent :: "expr \<Rightarrow> bool" where
  "is_node_dependent ast =
     list_ex (\<lambda>e. is_node_call e \<or> e = Name ''time'' \<or> e = Name ''hertz'') (walk ast)"

section \<open>Rewriting\<close>

fun transform :: "(expr \<Rightarrow> expr) \<Rightarrow> expr \<Rightarrow> expr" where
  "transform fn (Call f args) =
     fn (Call f (if node_func f then args else map (transform fn) args))"
| "transform fn (Unary op a) = fn (Unary op (transform fn a))"
| "transform fn (Binary op l r) = fn (Binary op (transform fn l) (transform fn r))"
| "transform fn (Ternary c a b) =
     fn (Ternary (transform fn c) (transform fn a) (transform fn b))"
| "transform fn e = fn e"

fun transform_r :: "(expr \<Rightarrow> 'e + expr) \<Rightarrow> expr \<Rightarrow> 'e + expr" where
  "transform_r fn (Call f args) =
     (if node_func f then fn (Call f args)
      else rbind (rmap (transform_r fn) args) (\<lambda>as. fn (Call f as)))"
| "transform_r fn (Unary op a) = rbind (transform_r fn a) (\<lambda>a'. fn (Unary op a'))"
| "transform_r fn (Binary op l r) =
     rbind (transform_r fn l) (\<lambda>l'. rbind (transform_r fn r) (\<lambda>r'. fn (Binary op l' r')))"
| "transform_r fn (Ternary c a b) =
     rbind (transform_r fn c) (\<lambda>c'. rbind (transform_r fn a) (\<lambda>a'.
       rbind (transform_r fn b) (\<lambda>b'. fn (Ternary c' a' b'))))"
| "transform_r fn e = fn e"

lemma transform_r_total: "transform_r (\<lambda>e. Inr (fn e)) e = Inr (transform fn e)"
proof (induction e)
  case (Call f args)
  then show ?case by (simp add: rmap_all_Inr [where g = "transform fn"])
qed simp_all

definition substitute :: "expr \<Rightarrow> (string \<rightharpoonup> expr) \<Rightarrow> expr" where
  "substitute ast mapping =
     transform (\<lambda>e. case e of Name n \<Rightarrow> (case mapping n of Some x \<Rightarrow> x | None \<Rightarrow> e) | _ \<Rightarrow> e) ast"

text \<open>\<open>a.name\<close> of an argument that is not a \<open>Name\<close> would be an \<open>AttributeError\<close>.\<close>

datatype attr_error = AttributeError

fun name_of :: "expr \<Rightarrow> attr_error + string" where
  "name_of (Name n) = Inr n"
| "name_of _ = Inl AttributeError"

definition map_nodes :: "expr \<Rightarrow> (string \<Rightarrow> string) \<Rightarrow> attr_error + expr" where
  "map_nodes ast fn = transform_r (\<lambda>e. case e of
       Call f args \<Rightarrow>
         if node_func f
         then rbind (rmap (\<lambda>a. rbind (name_of a) (\<lambda>n. Inr (Name (fn n)))) args) (\<lambda>as. Inr (Call f as))
         else Inr e
     | _ \<Rightarrow> Inr e) ast"

text \<open>User functions, name to parameters and body; \<open>dict(zip(params, args))\<close>.\<close>

type_synonym fdefs = "(string \<times> string list \<times> expr) list"

definition dict_zip :: "string list \<Rightarrow> expr list \<Rightarrow> string \<rightharpoonup> expr" where
  "dict_zip params args = map_of (rev (zip params args))"

datatype inline_error = RecursiveFunction string | ArgCount string nat nat

function expand :: "fdefs \<Rightarrow> expr \<Rightarrow> string list \<Rightarrow> inline_error + expr" where
  "expand funcs e active = transform_r (\<lambda>x. case x of
       Call f args \<Rightarrow>
         (case map_of funcs f of
            None \<Rightarrow> Inr x
          | Some (params, body) \<Rightarrow>
              if node_func f then Inr x
              else if f \<in> set active then Inl (RecursiveFunction f)
              else if length params \<noteq> length args then Inl (ArgCount f (length params) (length args))
              else rbind (expand funcs body (active @ [f]))
                     (\<lambda>b. Inr (substitute b (dict_zip params args))))
     | _ \<Rightarrow> Inr x) e"
  by pat_completeness auto
termination
proof (relation "measure (\<lambda>(funcs, e, active). card (fst ` set funcs - set active))")
  fix funcs :: fdefs and e active x f and args :: "expr list" and y params body
  assume a: "map_of funcs f = Some y" "f \<notin> set active"
  have "f \<in> fst ` set funcs" using a(1) by (metis map_of_eq_None_iff option.distinct(1))
  then have "fst ` set funcs - set (active @ [f]) \<subset> fst ` set funcs - set active"
    using a(2) by auto
  then show "((funcs, body, active @ [f]), funcs, e, active)
      \<in> measure (\<lambda>(funcs, e, active). card (fst ` set funcs - set active))"
    by (auto intro: psubset_card_mono)
qed simp

declare expand.simps [simp del]

definition inline_funcs :: "expr \<Rightarrow> fdefs \<Rightarrow> inline_error + expr" where
  "inline_funcs ast funcs = expand funcs ast []"

fun children :: "expr \<Rightarrow> expr list" where
  "children (Call f args) = args"
| "children (Unary op a) = [a]"
| "children (Binary op l r) = [l, r]"
| "children (Ternary c a b) = [c, a, b]"
| "children _ = []"

end
