(* ===== verification/ExprLex.thy ===== *)
theory ExprLex
  imports Numbers ExprAst
begin

text \<open>
  The two lexers of \<open>vamos/netlist/expr.py\<close>, \<open>_lex\<close> (HSPICE) and \<open>_lex_spectre\<close>. One pass of
  their \<open>while\<close> loop is \<open>lex_step\<close>: from the open groups, the position and the text that is
  left, it gives the tokens appended (none or one), the open groups and the text left after it.
  \<open>lex_loop\<close> repeats it to the end of the text. Every pass takes at least one character, which is
  the loop's termination.

  Every raise is a value: an \<open>ExprError\<close> of the code is one of the constructors below, with what
  its message prints and its position. \<open>AttributeErr\<close> is Python's error for \<open>m.group(0)\<close> where the
  regular expression did not match: a letter or a digit beyond ASCII starts a word or a number for
  \<open>str.isalpha\<close> and \<open>str.isdigit\<close>, but not for the regular expressions.
\<close>

section \<open>Tokens and errors\<close>

datatype tkind =
    TNUM pyfloat
  | TNAME string
  | TSTR string
  | TNODE string "string list"
  | TOP string
  | TOPEN char
  | TCLOSE char
  | TEOF

type_synonym tok = "tkind \<times> nat"

datatype lex_err =
    UnterminatedString nat
  | UnterminatedNode string nat
  | EmptyNodeName string nat
  | BadNodeChar char string nat
  | Unbalanced char nat
  | Unclosed char nat
  | NoSuchOperator string nat
  | VectorExpression nat
  | UnexpectedChar char nat
  | BadNumber num_err nat
  | AttributeErr nat

type_synonym groups = "(char \<times> nat) list"

definition blank :: "char \<Rightarrow> bool" where
  "blank c \<longleftrightarrow> c = CHR '' '' \<or> c = CHR 0x09"

definition lex_space :: "char \<Rightarrow> bool" where
  "lex_space c \<longleftrightarrow> blank c \<or> c = CHR 0x0D \<or> c = CHR ''\<newline>''"

definition RAW_BAD :: string where
  "RAW_BAD = [CHR '' '', CHR 0x09, CHR 0x0D, CHR ''\<newline>'', CHR '','', CHR ''('', CHR '')'',
              CHR 0x27, CHR 0x22, CHR ''{'', CHR ''}'', CHR ''='']"

definition OPS :: "string list" where
  "OPS = [''**'', ''=='', ''!='', ''<='', ''>='', ''&&'', ''||'', ''+'', ''-'', ''*'', ''/'', ''^'',
          ''<'', ''>'', ''!'', ''?'', '':'', '','']"

definition OPS_SPECTRE :: "string list" where
  "OPS_SPECTRE = [''**'', ''=='', ''!='', ''<='', ''>='', ''&&'', ''||'', ''<<'', ''>>'', ''~^'', ''^~'',
          ''+'', ''-'', ''*'', ''/'', ''<'', ''>'', ''!'', ''?'', '':'', '','', ''&'', ''|'']"

section \<open>Pieces of a pass\<close>

text \<open>\<open>_NUM_RE.match(text, i)\<close>: the matched text and what follows it.\<close>

definition num_token :: "(char \<Rightarrow> bool) \<Rightarrow> string \<Rightarrow> (string \<times> string) option" where
  "num_token first s = (case read_mag s of
     None \<Rightarrow> None
   | Some (m, r) \<Rightarrow>
       (let (ex, r1) = read_exp ''eEdD'' r; (tail, r2) = read_tail first r1
        in Some (take (length s - length r2) s, r2)))"

text \<open>\<open>_raw_names\<close>: the names between the parentheses, from the position after the first.\<close>

fun raw_name_list :: "string \<Rightarrow> nat \<Rightarrow> string list \<Rightarrow> lex_err + string list" where
  "raw_name_list func pos [] = Inr []"
| "raw_name_list func pos (part # parts) =
     (let name = py_strip part in
      if name = [] then Inl (EmptyNodeName func pos)
      else (case dropWhile (\<lambda>ch. ch \<notin> set RAW_BAD) name of
              ch # _ \<Rightarrow> Inl (BadNodeChar ch func
                  (pos + length (takeWhile py_isspace part) + length (takeWhile (\<lambda>ch. ch \<notin> set RAW_BAD) name)))
            | [] \<Rightarrow> rbind (raw_name_list func (pos + length part + 1) parts) (\<lambda>ns. Inr (name # ns))))"

text \<open>\<open>text\<close> starts at the opening parenthesis, at position \<open>lparen\<close>.\<close>

definition raw_names :: "string \<Rightarrow> string \<Rightarrow> nat \<Rightarrow> lex_err + (string list \<times> string)" where
  "raw_names func s lparen = (case find_char CHR '')'' s of
     None \<Rightarrow> Inl (UnterminatedNode func lparen)
   | Some k \<Rightarrow> rbind (raw_name_list func (lparen + 1) (py_split CHR '','' (drop 1 (take k s))))
                (\<lambda>ns. Inr (ns, drop (Suc k) s)))"

definition open_quote :: "groups \<Rightarrow> bool" where
  "open_quote groups = (case groups of (g, _) # _ \<Rightarrow> g = CHR 0x27 | [] \<Rightarrow> False)"

definition opener :: "char \<Rightarrow> char" where
  "opener c = (if c = CHR '')'' then CHR ''('' else if c = CHR ''}'' then CHR ''{'' else CHR 0x27)"

text \<open>The groups are a stack with the innermost first.\<close>

definition close_group :: "groups \<Rightarrow> char \<Rightarrow> nat \<Rightarrow> lex_err + groups" where
  "close_group groups c i = (case groups of
     (g, _) # rest \<Rightarrow> if g = opener c then Inr rest else Inl (Unbalanced c i)
   | [] \<Rightarrow> Inl (Unbalanced c i))"

definition string_token :: "nat \<Rightarrow> string \<Rightarrow> lex_err + (tok \<times> string)" where
  "string_token i r = (case find_char CHR 0x22 r of
     None \<Rightarrow> Inl (UnterminatedString i)
   | Some k \<Rightarrow> Inr ((TSTR (take k r), i), drop (Suc k) r))"

definition find_op :: "string list \<Rightarrow> string \<Rightarrow> string option" where
  "find_op ops s = find (py_startswith s) ops"

type_synonym step_out = "tok list \<times> num_note list \<times> groups \<times> string"

section \<open>One pass\<close>

text \<open>The branches of the pass for a number, a word and an operator; \<open>s\<close> starts at the position.\<close>

definition number_step :: "dialect \<Rightarrow> groups \<Rightarrow> nat \<Rightarrow> string \<Rightarrow> lex_err + step_out" where
  "number_step d groups i s =
     (case num_token (\<lambda>x. name_start x \<or> (d \<noteq> Hspice \<and> x = CHR ''%'')) s of
        None \<Rightarrow> Inl (AttributeErr i)
      | Some (w, rest) \<Rightarrow>
          (case number w d of
             Inl e \<Rightarrow> Inl (BadNumber e i)
           | Inr (x, ns) \<Rightarrow> Inr ([(TNUM x, i)], ns, groups, rest)))"

definition word_hspice :: "groups \<Rightarrow> nat \<Rightarrow> string \<Rightarrow> lex_err + step_out" where
  "word_hspice groups i s =
     (let (word, rest) = py_span name_char s; after = dropWhile blank rest; low = py_lower word in
      if after \<noteq> [] \<and> hd after = CHR ''('' \<and> node_func low then
        rbind (raw_names low after (i + (length s - length after)))
          (\<lambda>(ns, rest'). Inr ([(TNODE low ns, i)], [], groups, rest'))
      else Inr ([(TNAME word, i)], [], groups, rest))"

definition word_spectre :: "bool \<Rightarrow> groups \<Rightarrow> nat \<Rightarrow> string \<Rightarrow> lex_err + step_out" where
  "word_spectre spice groups i s =
     (let (word, rest) = py_span name_char s; after = dropWhile blank rest in
      if spice \<and> py_lower word = ''par'' \<and> after \<noteq> [] \<and> hd after = CHR 0x27
      then Inr ([], [], groups, after)
      else Inr ([(TNAME word, i)], [], groups, rest))"

definition op_hspice :: "groups \<Rightarrow> nat \<Rightarrow> char \<Rightarrow> string \<Rightarrow> lex_err + step_out" where
  "op_hspice groups i c s =
     (if py_startswith s ''<>'' then Inl (NoSuchOperator ''<>'' i)
      else
        (case find_op OPS s of
           Some op \<Rightarrow> Inr ([(TOP (if op = ''^'' then ''**'' else op), i)], [], groups, drop (length op) s)
         | None \<Rightarrow> if c \<in> set ''&|~%='' then Inl (NoSuchOperator [c] i) else Inl (UnexpectedChar c i)))"

definition op_spectre :: "groups \<Rightarrow> nat \<Rightarrow> char \<Rightarrow> string \<Rightarrow> lex_err + step_out" where
  "op_spectre groups i c s =
     (if py_startswith s ''<>'' then Inl (NoSuchOperator ''<>'' i)
      else
        (case find_op OPS_SPECTRE s of
           Some op \<Rightarrow> Inr ([(TOP (if op = ''^~'' then ''~^'' else op), i)], [], groups, drop (length op) s)
         | None \<Rightarrow>
             if c \<in> set ''^~%'' then Inl (NoSuchOperator [c] i)
             else if c \<in> set ''[]'' then Inl (VectorExpression i)
             else Inl (UnexpectedChar c i)))"

definition starts_number :: "char \<Rightarrow> string \<Rightarrow> bool" where
  "starts_number c r \<longleftrightarrow> py_isdigit c \<or> (c = CHR ''.'' \<and> r \<noteq> [] \<and> py_isdigit (hd r))"

definition lex_hspice :: "groups \<Rightarrow> nat \<Rightarrow> char \<Rightarrow> string \<Rightarrow> lex_err + step_out" where
  "lex_hspice groups i c r =
     (if lex_space c then Inr ([], [], groups, r)
      else if starts_number c r then number_step Hspice groups i (c # r)
      else if py_isalpha c \<or> c = CHR ''_'' then
        (if name_start c then word_hspice groups i (c # r) else Inl (AttributeErr i))
      else if c = CHR 0x22 then
        rbind (string_token i r) (\<lambda>(t, rest). Inr ([t], [], groups, rest))
      else if c = CHR ''('' \<or> c = CHR ''{'' \<or> (c = CHR 0x27 \<and> \<not> open_quote groups) then
        Inr ([(TOPEN c, i)], [], (c, i) # groups, r)
      else if c = CHR '')'' \<or> c = CHR ''}'' \<or> c = CHR 0x27 then
        rbind (close_group groups c i) (\<lambda>g. Inr ([(TCLOSE c, i)], [], g, r))
      else op_hspice groups i c (c # r))"

definition lex_spectre :: "dialect \<Rightarrow> groups \<Rightarrow> nat \<Rightarrow> char \<Rightarrow> string \<Rightarrow> lex_err + step_out" where
  "lex_spectre d groups i c r = (let spice = (d = SpectreSpice) in
     if lex_space c then Inr ([], [], groups, r)
     else if starts_number c r then number_step d groups i (c # r)
     else if py_isalpha c \<or> c = CHR ''_'' then
       (if name_start c then word_spectre spice groups i (c # r) else Inl (AttributeErr i))
     else if c = CHR 0x22 then
       rbind (string_token i r) (\<lambda>(t, rest). Inr ([t], [], groups, rest))
     else if c = CHR ''('' \<or> (spice \<and> (c = CHR ''{'' \<or> (c = CHR 0x27 \<and> \<not> open_quote groups))) then
       Inr ([(TOPEN c, i)], [], (c, i) # groups, r)
     else if c = CHR '')'' \<or> (spice \<and> (c = CHR ''}'' \<or> c = CHR 0x27)) then
       rbind (close_group groups c i) (\<lambda>g. Inr ([(TCLOSE c, i)], [], g, r))
     else op_spectre groups i c (c # r))"

definition lex_step :: "dialect \<Rightarrow> groups \<Rightarrow> nat \<Rightarrow> char \<Rightarrow> string \<Rightarrow> lex_err + step_out" where
  "lex_step d = (if d = Hspice then lex_hspice else lex_spectre d)"

section \<open>Every pass takes text\<close>

lemma read_mag_length: "read_mag s = Some (m, r) \<Longrightarrow> length r < length s"
proof -
  assume a: "read_mag s = Some (m, r)"
  have "length (dropWhile re_digit x) \<le> length x" for x by (rule length_dropWhile_le)
  note d = this
  obtain ip r0 where ir: "py_span re_digit s = (ip, r0)" by (cases "py_span re_digit s")
  then have l: "length ip + length r0 = length s" by (rule py_span_length)
  have sp: "py_span re_digit x = (u, v) \<Longrightarrow> length v \<le> length x" for x u v
    using py_span_length [of re_digit x u v] by simp
  show ?thesis
    using a ir l unfolding read_mag_def
    by (cases ip) (auto split: if_splits list.splits prod.splits dest!: sp)
qed

lemma read_exp_length: "length (snd (read_exp marks s)) \<le> length s"
proof -
  have sp: "py_span re_digit x = (u, v) \<Longrightarrow> length v \<le> length x" for x u v
    using py_span_length [of re_digit x u v] by simp
  show ?thesis
    unfolding read_exp_def
    by (auto split: if_splits list.splits prod.splits dest!: sp)
qed

lemma read_tail_length: "length (snd (read_tail first s)) \<le> length s"
  using length_dropWhile_le [of name_start]
  by (auto simp: read_tail_def py_span_def le_SucI split: list.split)

lemma num_token_length: "num_token first s = Some (w, rest) \<Longrightarrow> length rest < length s"
proof -
  assume a: "num_token first s = Some (w, rest)"
  then obtain m r where m: "read_mag s = Some (m, r)"
      and e: "rest = snd (read_tail first (snd (read_exp ''eEdD'' r)))"
    by (auto simp: num_token_def split: option.splits prod.splits)
  have "length rest \<le> length (snd (read_exp ''eEdD'' r))" unfolding e by (rule read_tail_length)
  also have "\<dots> \<le> length r" by (rule read_exp_length)
  also have "\<dots> < length s" using m by (rule read_mag_length)
  finally show ?thesis .
qed

lemma find_op_Some:
  "find_op ops s = Some op \<Longrightarrow> op \<in> set ops \<and> s = op @ drop (length op) s"
  unfolding find_op_def by (auto simp: find_Some_iff py_startswith_drop)

lemma find_op_length: "[] \<notin> set ops \<Longrightarrow> find_op ops (c # r) = Some op \<Longrightarrow> length (drop (length op) (c # r)) \<le> length r"
  by (drule find_op_Some) (cases op, auto)

lemma raw_names_length: "raw_names f s p = Inr (ns, rest) \<Longrightarrow> length rest < length s"
  by (auto simp: raw_names_def res_simps split: option.splits dest!: find_char_Some)

lemma string_token_length: "string_token i r = Inr (t, rest) \<Longrightarrow> length rest \<le> length r"
  by (auto simp: string_token_def split: option.splits)

lemma word_rest_length:
  "name_start c \<Longrightarrow> py_span name_char (c # r) = (word, rest) \<Longrightarrow> length rest \<le> length r"
  using length_dropWhile_le [of name_char r]
  by (auto simp: py_span_def name_start_def name_char_def)

lemma number_step_length:
  "number_step d groups i (c # r) = Inr (ts, ns, g, rest) \<Longrightarrow> length rest \<le> length r"
  by (auto simp: number_step_def split: option.splits sum.splits dest!: num_token_length)

lemma word_hspice_length:
  assumes "name_start c" and "word_hspice groups i (c # r) = Inr (ts, ns, g, rest)"
  shows "length rest \<le> length r"
proof -
  obtain word rest0 where w: "py_span name_char (c # r) = (word, rest0)"
    by (cases "py_span name_char (c # r)")
  then show ?thesis
    using assms(2) word_rest_length [OF assms(1) w] length_dropWhile_le [of blank rest0]
    by (auto simp: word_hspice_def Let_def res_simps split: if_splits dest!: raw_names_length)
qed

lemma word_spectre_length:
  assumes "name_start c" and "word_spectre spice groups i (c # r) = Inr (ts, ns, g, rest)"
  shows "length rest \<le> length r"
proof -
  obtain word rest0 where w: "py_span name_char (c # r) = (word, rest0)"
    by (cases "py_span name_char (c # r)")
  then show ?thesis
    using assms(2) word_rest_length [OF assms(1) w] length_dropWhile_le [of blank rest0]
    by (auto simp: word_spectre_def Let_def split: if_splits)
qed

lemma ops_not_empty: "[] \<notin> set OPS" "[] \<notin> set OPS_SPECTRE"
  by (simp_all add: OPS_def OPS_SPECTRE_def)

lemma op_hspice_length:
  assumes "op_hspice groups i c (c # r) = Inr (ts, ns, g, rest)"
  shows "length rest \<le> length r"
proof -
  obtain op where "find_op OPS (c # r) = Some op" and "rest = drop (length op) (c # r)"
    using assms by (auto simp only: op_hspice_def split: if_splits option.splits)
  then show ?thesis using find_op_length [OF ops_not_empty(1)] by blast
qed

lemma op_spectre_length:
  assumes "op_spectre groups i c (c # r) = Inr (ts, ns, g, rest)"
  shows "length rest \<le> length r"
proof -
  obtain op where "find_op OPS_SPECTRE (c # r) = Some op" and "rest = drop (length op) (c # r)"
    using assms by (auto simp only: op_spectre_def split: if_splits option.splits)
  then show ?thesis using find_op_length [OF ops_not_empty(2)] by blast
qed

lemma rbind_group_length:
  "rbind (close_group groups c i) (\<lambda>g. Inr (t, n, g, r)) = Inr (ts, ns, g, rest) \<Longrightarrow> length rest \<le> length r"
  by (auto simp: res_simps)

lemma rbind_string_length:
  "rbind (string_token i r) (\<lambda>(t, rest). Inr ([t], n, groups, rest)) = Inr (ts, ns, g, rest) \<Longrightarrow>
   length rest \<le> length r"
  by (auto simp: res_simps dest: string_token_length)

lemmas step_lengths = number_step_length word_hspice_length word_spectre_length op_hspice_length
  op_spectre_length rbind_group_length rbind_string_length

lemma lex_hspice_length: "lex_hspice groups i c r = Inr (ts, ns, g, rest) \<Longrightarrow> length rest \<le> length r"
  unfolding lex_hspice_def
  by (simp only: split: if_split_asm) (blast intro: step_lengths | simp)+

lemma lex_spectre_length:
  "lex_spectre d groups i c r = Inr (ts, ns, g, rest) \<Longrightarrow> length rest \<le> length r"
  unfolding lex_spectre_def Let_def
  by (simp only: split: if_split_asm) (blast intro: step_lengths | simp)+

lemma lex_step_length: "lex_step d groups i c r = Inr (ts, ns, g, rest) \<Longrightarrow> length rest \<le> length r"
  by (auto simp: lex_step_def split: if_splits dest: lex_hspice_length lex_spectre_length)

section \<open>The loop\<close>

text \<open>The notes given so far reach the caller even when a later pass raises.\<close>

function lex_loop :: "dialect \<Rightarrow> groups \<Rightarrow> nat \<Rightarrow> string \<Rightarrow> num_note list \<times> (lex_err + tok list)" where
  "lex_loop d groups i [] =
     ([], case groups of (c, pos) # _ \<Rightarrow> Inl (Unclosed c pos) | [] \<Rightarrow> Inr [(TEOF, i)])"
| "lex_loop d groups i (c # r) =
     (case lex_step d groups i c r of
        Inl e \<Rightarrow> ([], Inl e)
      | Inr (ts, ns, g, rest) \<Rightarrow>
          (let (ns', out) = lex_loop d g (i + (Suc (length r) - length rest)) rest
           in (ns @ ns', rbind out (\<lambda>ts'. Inr (ts @ ts')))))"
  by pat_completeness auto
termination
  by (relation "measure (\<lambda>(d, g, i, s). length s)") (auto dest!: lex_step_length [OF sym] lex_step_length)

definition lex :: "string \<Rightarrow> dialect \<Rightarrow> num_note list \<times> (lex_err + tok list)" where
  "lex text d = lex_loop d [] 0 text"

end
