(* ===== verification/ExprParse.thy ===== *)
theory ExprParse
  imports ExprLex
begin

text \<open>
  The Pratt parser of \<open>vamos/netlist/expr.py\<close>, class \<open>_Parser\<close>: \<open>expr\<close> (here \<open>p_expr\<close> and its
  loop \<open>p_loop\<close>), \<open>nud\<close>, \<open>led\<close>, \<open>call\<close> and \<open>close\<close>, in the HSPICE dialect and the two of Spectre.
  The index \<open>self.k\<close> into the tokens is the list of the tokens still to be read; \<open>IndexErr\<close> is the
  read past its end, which a token list that ends in \<open>TEOF\<close> never meets.

  \<open>expr\<close> calls itself through \<open>nud\<close>, \<open>led\<close> and \<open>call\<close>; the model passes it to them as an argument,
  and \<open>p_expr\<close> ties the knot with a fuel that bounds the depth of the calls and the passes of the
  loops. One unit more than there are tokens is always enough: \<open>OutOfFuel\<close> is never a result.
\<close>

section \<open>Tables\<close>

definition LBP :: "(string \<times> nat) list" where
  "LBP = [(''?'', 1), (''||'', 2), (''&&'', 3), (''=='', 4), (''!='', 4), (''<'', 5), (''<='', 5),
          (''>'', 5), (''>='', 5), (''+'', 6), (''-'', 6), (''*'', 7), (''/'', 7), (''**'', 10)]"

definition UNARY_RBP :: nat where "UNARY_RBP = 8"

definition SPECTRE_LBP :: "(string \<times> nat) list" where
  "SPECTRE_LBP = [(''?'', 10), (''||'', 20), (''&&'', 30), (''|'', 40), (''~^'', 50), (''&'', 60),
     (''=='', 70), (''!='', 70), (''<'', 80), (''<='', 80), (''>'', 80), (''>='', 80), (''<<'', 90),
     (''>>'', 90), (''+'', 100), (''-'', 100), (''*'', 110), (''/'', 110), (''**'', 120)]"

definition SPECTRE_UNARY_RBP :: nat where "SPECTRE_UNARY_RBP = 130"

definition SPECTRE_FUNCS :: "(string \<times> nat \<times> nat) list" where
  "SPECTRE_FUNCS =
     map (\<lambda>f. (f, 1, 1)) [''log'', ''ln'', ''log10'', ''exp'', ''sqrt'', ''abs'', ''int'', ''floor'',
       ''ceil'', ''sgn'', ''sin'', ''cos'', ''tan'', ''asin'', ''acos'', ''atan'', ''sinh'', ''cosh'',
       ''tanh'', ''asinh'', ''acosh'', ''atanh''] @
     map (\<lambda>f. (f, 2, 2)) [''min'', ''max'', ''pow'', ''fmod'', ''hypot'', ''atan2'', ''sign'']"

definition EXTRA_FUNCS :: "(string \<times> nat \<times> nat option) list" where
  "EXTRA_FUNCS = [(''cpow'', 2, Some 2), (''hypot'', 2, Some 2), (''fmod'', 2, Some 2)]"

text \<open>
  The functions of the \<open>math\<close> module, by name: the C library, an argument of the model.
\<close>

type_synonym libm = "string \<Rightarrow> pyfloat list \<Rightarrow> math_exc + pyfloat"

definition libm_val :: "libm \<Rightarrow> string \<Rightarrow> pyfloat \<Rightarrow> pyfloat" where
  "libm_val lm f x = (case lm f [x] of Inr y \<Rightarrow> y | Inl _ \<Rightarrow> NaN)"

definition math_pi :: pyfloat where "math_pi = float_dec ''3.141592653589793'' 0"
definition math_e :: pyfloat where "math_e = float_dec ''2.718281828459045'' 0"

definition flit :: "int \<Rightarrow> pyfloat" where
  "flit n = float_of_int n"

definition SPECTRE_CONSTANTS :: "libm \<Rightarrow> (string \<times> pyfloat) list" where
  "SPECTRE_CONSTANTS lm =
     [(''M_E'', math_e), (''M_LOG2E'', fdiv f1 (libm_val lm ''log'' (flit 2))),
      (''M_LOG10E'', fdiv f1 (libm_val lm ''log'' (flit 10))),
      (''M_LN2'', libm_val lm ''log'' (flit 2)), (''M_LN10'', libm_val lm ''log'' (flit 10)),
      (''M_PI'', math_pi), (''M_TWO_PI'', fmul (flit 2) math_pi), (''M_PI_2'', fdiv math_pi (flit 2)),
      (''M_PI_4'', fdiv math_pi (flit 4)), (''M_1_PI'', fdiv f1 math_pi),
      (''M_2_PI'', fdiv (flit 2) math_pi),
      (''M_2_SQRTPI'', fdiv (flit 2) (libm_val lm ''sqrt'' math_pi)),
      (''M_SQRT2'', libm_val lm ''sqrt'' (flit 2)),
      (''M_SQRT1_2'', fdiv f1 (libm_val lm ''sqrt'' (flit 2))),
      (''M_DEGPERRAD'', fdiv (flit 180) math_pi),
      (''P_Q'', float_dec ''1.6021918'' (-19)), (''P_C'', float_dec ''2.997924562'' 8),
      (''P_K'', float_dec ''1.3806226'' (-23)), (''P_H'', float_dec ''6.6260755'' (-34)),
      (''P_EPS0'', float_dec ''8.85418792394420013968'' (-12)),
      (''P_U0'', fmul (float_dec ''4.0'' (-7)) math_pi), (''P_CELSIUS0'', float_dec ''273.15'' 0)]"

section \<open>The parser's settings and errors\<close>

datatype case_mode = Lower | Upper | Sensitive

record pset =
  p_case :: case_mode
  p_dialect :: dialect
  p_funcs :: fdefs
  p_libm :: libm

definition spectre_mode :: "pset \<Rightarrow> bool" where
  "spectre_mode P \<longleftrightarrow> p_dialect P \<noteq> Hspice"

definition lbp_of :: "pset \<Rightarrow> string \<Rightarrow> nat option" where
  "lbp_of P op = map_of (if spectre_mode P then SPECTRE_LBP else LBP) op"

definition unary_of :: "pset \<Rightarrow> nat" where
  "unary_of P = (if spectre_mode P then SPECTRE_UNARY_RBP else UNARY_RBP)"

datatype parse_err =
    LexError lex_err
  | EmptyExpression nat
  | UnexpectedToken tkind nat
  | ExpectedOperand tkind nat
  | ExpectedClose tkind nat
  | ExpectedColon tkind nat
  | EmptyParentheses nat
  | NeedsArguments string nat
  | HspiceExtraFunction string nat
  | BehavioralName string nat
  | TemperInSpectre nat
  | UserArgCount string nat nat nat
  | BehavioralCall string nat
  | UnknownFunc string nat
  | FuncArgCount string nat nat nat nat
  | FuncsInHspice
  | IndexErr
  | OutOfFuel

section \<open>Names and calls\<close>

definition fold_name :: "pset \<Rightarrow> string \<Rightarrow> string" where
  "fold_name P name = (case p_case P of
     Lower \<Rightarrow> py_lower name | Upper \<Rightarrow> py_upper name | Sensitive \<Rightarrow> name)"

text \<open>\<open>ident_spectre\<close> raises without a position; \<open>nud\<close> adds the token's.\<close>

definition ident_spectre :: "pset \<Rightarrow> string \<Rightarrow> (nat \<Rightarrow> parse_err) + string" where
  "ident_spectre P name = (let folded = fold_name P name in
     if folded = ''temp'' then Inr ''temper''
     else if folded = ''tnom'' then Inr ''$tnom''
     else if folded = ''time'' \<or> folded = ''hertz'' then Inl (BehavioralName name)
     else if folded = ''temper'' then
       (if p_dialect P = Spectre then Inl TemperInSpectre else Inr ''temper'')
     else Inr folded)"

definition ident_hspice :: "pset \<Rightarrow> string \<Rightarrow> string" where
  "ident_hspice P name = (let low = py_lower name in
     if low \<in> set RESERVED \<or> p_case P = Lower then low
     else if p_case P = Upper then py_upper name else name)"

definition ident :: "pset \<Rightarrow> string \<Rightarrow> (nat \<Rightarrow> parse_err) + string" where
  "ident P name = (if spectre_mode P then ident_spectre P name else Inr (ident_hspice P name))"

definition spectre_constant :: "pset \<Rightarrow> string \<Rightarrow> pyfloat option" where
  "spectre_constant P name =
     (if p_dialect P = Spectre then map_of (SPECTRE_CONSTANTS (p_libm P)) name
      else map_of (rev (map (\<lambda>(k, v). (py_lower k, v)) (SPECTRE_CONSTANTS (p_libm P)))) (py_lower name))"

definition call_spectre :: "pset \<Rightarrow> string \<Rightarrow> expr list \<Rightarrow> nat \<Rightarrow> parse_err + expr" where
  "call_spectre P func args pos = (case map_of (p_funcs P) func of
     Some (params, body) \<Rightarrow>
       if length params \<noteq> length args then Inl (UserArgCount func (length params) (length args) pos)
       else Inr (substitute body (dict_zip params args))
   | None \<Rightarrow>
       if node_func (py_lower func) then Inl (BehavioralCall func pos)
       else (case map_of SPECTRE_FUNCS func of
               None \<Rightarrow> Inl (UnknownFunc func pos)
             | Some (lo, hi) \<Rightarrow>
                 if \<not> (lo \<le> length args \<and> length args \<le> hi)
                 then Inl (FuncArgCount func lo hi (length args) pos)
                 else if func = ''pow'' then Inr (Call ''cpow'' args)
                 else Inr (Call func args)))"

text \<open>\<open>led\<close> after its operands: the node it builds.\<close>

definition led_binary :: "pset \<Rightarrow> string \<Rightarrow> expr \<Rightarrow> expr \<Rightarrow> expr" where
  "led_binary P op l r =
     (if op = ''**'' \<and> spectre_mode P then Call ''cpow'' [l, r] else Binary op l r)"

fun nud_unary :: "string \<Rightarrow> expr \<Rightarrow> expr" where
  "nud_unary op arg =
     (if op = ''+'' then arg
      else if op = ''-'' then (case arg of Num v \<Rightarrow> Num (fneg v) | _ \<Rightarrow> Unary op arg)
      else Unary op arg)"

section \<open>The functions\<close>

definition p_close :: "tok list \<Rightarrow> parse_err + tok list" where
  "p_close ts = (case ts of
     [] \<Rightarrow> Inl IndexErr
   | (k, pos) # rest \<Rightarrow> (case k of TCLOSE _ \<Rightarrow> Inr rest | _ \<Rightarrow> Inl (ExpectedClose k pos)))"

definition p_colon :: "tok list \<Rightarrow> parse_err + tok list" where
  "p_colon ts = (case ts of
     [] \<Rightarrow> Inl IndexErr
   | (k, pos) # rest \<Rightarrow> if k = TOP '':'' then Inr rest else Inl (ExpectedColon k pos))"

definition is_close :: "tkind \<Rightarrow> bool" where
  "is_close k = (case k of TCLOSE _ \<Rightarrow> True | _ \<Rightarrow> False)"

definition no_params :: "(string list \<times> expr) option \<Rightarrow> bool" where
  "no_params d = (case d of Some (params, _) \<Rightarrow> params = [] | None \<Rightarrow> False)"

text \<open>The function \<open>expr\<close> as its callees see it: a binding power and the tokens to read.\<close>

type_synonym sub = "nat \<Rightarrow> tok list \<Rightarrow> parse_err + (expr \<times> tok list)"

text \<open>\<open>led\<close>, after \<open>self.next()\<close> has taken the operator \<open>op\<close> of binding power \<open>b\<close>.\<close>

definition p_led :: "sub \<Rightarrow> pset \<Rightarrow> nat \<Rightarrow> expr \<Rightarrow> string \<Rightarrow> tok list \<Rightarrow> parse_err + (expr \<times> tok list)"
where
  "p_led E P b left op ts =
     (if op = ''?'' then
        rbind (E 0 ts) (\<lambda>(mid, ts1).
          rbind (p_colon ts1) (\<lambda>ts2.
            rbind (E (if spectre_mode P then b - 1 else 0) ts2) (\<lambda>(right, ts3).
              Inr (Ternary left mid right, ts3))))
      else rbind (E (if op = ''**'' then b - 1 else b) ts) (\<lambda>(right, ts').
             Inr (led_binary P op left right, ts')))"

text \<open>The \<open>while\<close> loop of \<open>expr\<close>.\<close>

primrec p_loop :: "nat \<Rightarrow> sub \<Rightarrow> pset \<Rightarrow> nat \<Rightarrow> expr \<Rightarrow> tok list \<Rightarrow> parse_err + (expr \<times> tok list)"
where
  "p_loop 0 E P rbp left ts = Inl OutOfFuel"
| "p_loop (Suc n) E P rbp left ts = (case ts of
     [] \<Rightarrow> Inl IndexErr
   | (k, pos) # rest \<Rightarrow>
       (case k of
          TOP op \<Rightarrow>
            (case lbp_of P op of
               None \<Rightarrow> Inr (left, ts)
             | Some b \<Rightarrow>
                 if b \<le> rbp then Inr (left, ts)
                 else rbind (p_led E P b left op rest) (\<lambda>(left', ts'). p_loop n E P rbp left' ts'))
        | _ \<Rightarrow> Inr (left, ts)))"

text \<open>The arguments of a call, separated by commas.\<close>

primrec p_args :: "nat \<Rightarrow> sub \<Rightarrow> tok list \<Rightarrow> parse_err + (expr list \<times> tok list)" where
  "p_args 0 E ts = Inl OutOfFuel"
| "p_args (Suc n) E ts = rbind (E 0 ts) (\<lambda>(e, ts'). case ts' of
       [] \<Rightarrow> Inl IndexErr
     | (k, pos) # rest \<Rightarrow>
         if k = TOP '','' then rbind (p_args n E rest) (\<lambda>(es, ts''). Inr (e # es, ts''))
         else Inr ([e], ts'))"

text \<open>\<open>call\<close>, after the name (at \<open>pos\<close>) and the opening parenthesis.\<close>

definition p_call :: "nat \<Rightarrow> sub \<Rightarrow> pset \<Rightarrow> string \<Rightarrow> nat \<Rightarrow> tok list \<Rightarrow> parse_err + (expr \<times> tok list)"
where
  "p_call n E P name pos ts =
     (let func = (if spectre_mode P then fold_name P name else py_lower name) in
      if \<not> spectre_mode P \<and> map_of EXTRA_FUNCS func \<noteq> None then Inl (HspiceExtraFunction func pos)
      else (case ts of
              [] \<Rightarrow> Inl IndexErr
            | (k, pos') # rest \<Rightarrow>
                if is_close k then
                  (if spectre_mode P \<and> no_params (map_of (p_funcs P) func)
                   then rbind (call_spectre P func [] pos) (\<lambda>e. Inr (e, rest))
                   else Inl (NeedsArguments func pos'))
                else rbind (p_args n E ts) (\<lambda>(args, ts').
                       rbind (p_close ts') (\<lambda>ts''.
                         if spectre_mode P
                         then rbind (call_spectre P func args pos) (\<lambda>e. Inr (e, ts''))
                         else Inr (Call func args, ts'')))))"

text \<open>A word that is not called: a constant of the Spectre dialects, else a name.\<close>

definition nud_name :: "pset \<Rightarrow> string \<Rightarrow> nat \<Rightarrow> parse_err + expr" where
  "nud_name P name pos =
     (case (if spectre_mode P then spectre_constant P name else None) of
        Some c \<Rightarrow> Inr (Num c)
      | None \<Rightarrow> (case ident P name of Inl e \<Rightarrow> Inl (e pos) | Inr i \<Rightarrow> Inr (Name i)))"

definition nud_node :: "pset \<Rightarrow> string \<Rightarrow> string list \<Rightarrow> nat \<Rightarrow> parse_err + expr" where
  "nud_node P f nms pos =
     (case rmap (ident P) nms of Inl e \<Rightarrow> Inl (e pos) | Inr as \<Rightarrow> Inr (Call f (map Name as)))"

definition p_nud :: "nat \<Rightarrow> sub \<Rightarrow> pset \<Rightarrow> tok list \<Rightarrow> parse_err + (expr \<times> tok list)" where
  "p_nud n E P ts = (case ts of
     [] \<Rightarrow> Inl IndexErr
   | (k, pos) # rest \<Rightarrow>
       (case k of
          TNUM v \<Rightarrow> Inr (Num v, rest)
        | TSTR s \<Rightarrow> Inr (Str s, rest)
        | TNODE f nms \<Rightarrow> rbind (nud_node P f nms pos) (\<lambda>e. Inr (e, rest))
        | TNAME name \<Rightarrow>
            (case rest of
               [] \<Rightarrow> Inl IndexErr
             | (k', pos') # rest' \<Rightarrow>
                 if k' = TOPEN CHR ''('' then p_call n E P name pos rest'
                 else rbind (nud_name P name pos) (\<lambda>e. Inr (e, rest)))
        | TOPEN _ \<Rightarrow>
            (case rest of
               [] \<Rightarrow> Inl IndexErr
             | (k', pos') # _ \<Rightarrow>
                 if is_close k' then Inl (EmptyParentheses pos')
                 else rbind (E 0 rest) (\<lambda>(e, ts'). rbind (p_close ts') (\<lambda>ts''. Inr (e, ts''))))
        | TOP op \<Rightarrow>
            if op \<in> {''-'', ''+'', ''!''}
            then rbind (E (unary_of P) rest) (\<lambda>(arg, ts'). Inr (nud_unary op arg, ts'))
            else Inl (ExpectedOperand k pos)
        | _ \<Rightarrow> Inl (ExpectedOperand k pos)))"

primrec p_expr :: "nat \<Rightarrow> pset \<Rightarrow> sub" where
  "p_expr 0 P = (\<lambda>rbp ts. Inl OutOfFuel)"
| "p_expr (Suc n) P = (\<lambda>rbp ts.
     rbind (p_nud n (p_expr n P) P ts) (\<lambda>(left, ts'). p_loop n (p_expr n P) P rbp left ts'))"

definition fuel_for :: "tok list \<Rightarrow> nat" where
  "fuel_for ts = Suc (length ts)"

definition parse_toks :: "pset \<Rightarrow> tok list \<Rightarrow> parse_err + expr" where
  "parse_toks P ts = (case ts of
     [] \<Rightarrow> Inl IndexErr
   | (k, pos) # _ \<Rightarrow>
       if k = TEOF then Inl (EmptyExpression pos)
       else rbind (p_expr (fuel_for ts) P 0 ts) (\<lambda>(e, ts'). case ts' of
         [] \<Rightarrow> Inl IndexErr
       | (k', pos') # _ \<Rightarrow> if k' = TEOF then Inr e else Inl (UnexpectedToken k' pos')))"

definition lift_lex :: "lex_err + 'a \<Rightarrow> parse_err + 'a" where
  "lift_lex m = (case m of Inl e \<Rightarrow> Inl (LexError e) | Inr x \<Rightarrow> Inr x)"

text \<open>
  \<open>parse\<close>: the notes its \<open>warn\<close> receives, and the expression. \<open>funcs\<close> is \<open>None\<close> when not given.
\<close>

definition parse_expr ::
  "libm \<Rightarrow> string \<Rightarrow> case_mode \<Rightarrow> dialect \<Rightarrow> fdefs option \<Rightarrow> num_note list \<times> (parse_err + expr)" where
  "parse_expr lm text cs d funcs =
     (if d = Hspice \<and> funcs \<noteq> None then ([], Inl FuncsInHspice)
      else
        (let P = \<lparr>p_case = cs, p_dialect = d, p_funcs = (case funcs of None \<Rightarrow> [] | Some fs \<Rightarrow> fs),
                  p_libm = lm\<rparr>;
             (ns, toks) = lex text d
         in (ns, rbind (lift_lex toks) (parse_toks P))))"

end
