(* ===== verification/ExprParseProps.thy ===== *)
theory ExprParseProps
  imports ExprParse
begin

text \<open>
  The parser always returns. The functions of the parser are clients of \<open>expr\<close>: the locale
  \<open>sub_contract\<close> states what they rely on (it takes tokens, never the end mark, and on a
  short enough token list it neither runs out of fuel nor reads past the end), and each of them is
  shown to keep it. The interpretation on \<open>p_expr\<close> closes the loop.
\<close>

definition wf_toks :: "tok list \<Rightarrow> bool" where
  "wf_toks ts \<longleftrightarrow> ts \<noteq> [] \<and> fst (last ts) = TEOF"

definition takes :: "tok list \<Rightarrow> tok list \<Rightarrow> bool" where
  "takes ts ts' \<longleftrightarrow> (\<exists>u. ts = u @ ts' \<and> u \<noteq> [] \<and> TEOF \<notin> fst ` set u)"

definition safe :: "parse_err + 'a \<Rightarrow> bool" where
  "safe m \<longleftrightarrow> m \<noteq> Inl OutOfFuel \<and> m \<noteq> Inl IndexErr"

lemma safe_Inr [simp]: "safe (Inr x)"
  by (simp add: safe_def)

lemma safe_Inl: "safe (Inl e) \<longleftrightarrow> e \<noteq> OutOfFuel \<and> e \<noteq> IndexErr"
  by (auto simp: safe_def)

lemma safe_rbind: "safe m \<Longrightarrow> (\<And>x. m = Inr x \<Longrightarrow> safe (f x)) \<Longrightarrow> safe (rbind m f)"
  by (cases m) (auto simp: safe_def)

lemma takes_length: "takes ts ts' \<Longrightarrow> length ts' < length ts"
  by (auto simp: takes_def)

lemma takes_wf: "takes ts ts' \<Longrightarrow> wf_toks ts \<Longrightarrow> wf_toks ts'"
proof -
  assume "takes ts ts'" "wf_toks ts"
  then obtain u where u: "ts = u @ ts'" "u \<noteq> []" "TEOF \<notin> fst ` set u" by (auto simp: takes_def)
  then have "last u \<in> set u" by simp
  then have "fst (last u) \<noteq> TEOF" using u(3) by (metis imageI)
  with u \<open>wf_toks ts\<close> show ?thesis by (cases "ts' = []") (auto simp: wf_toks_def)
qed

lemma takes_trans: "takes a b \<Longrightarrow> takes b c \<Longrightarrow> takes a c"
  unfolding takes_def by (metis Un_iff append_assoc append_is_Nil_conv image_Un set_append)

lemma takes_Cons [simp]: "takes ((k, p) # ts) ts' \<longleftrightarrow> k \<noteq> TEOF \<and> (ts' = ts \<or> takes ts ts')"
proof
  assume "takes ((k, p) # ts) ts'"
  then obtain u where u: "(k, p) # ts = u @ ts'" "u \<noteq> []" "TEOF \<notin> fst ` set u"
    by (auto simp: takes_def)
  then show "k \<noteq> TEOF \<and> (ts' = ts \<or> takes ts ts')"
    by (cases u) (auto simp: takes_def)
next
  assume a: "k \<noteq> TEOF \<and> (ts' = ts \<or> takes ts ts')"
  have "takes ((k, p) # ts) ts" unfolding takes_def using a by (intro exI [of _ "[(k, p)]"]) auto
  with a show "takes ((k, p) # ts) ts'" by (auto intro: takes_trans)
qed

lemma wf_toks_Cons: "wf_toks (t # ts) \<Longrightarrow> fst t \<noteq> TEOF \<Longrightarrow> wf_toks ts"
  by (auto simp: wf_toks_def split: if_splits)

lemma wf_toks_not_Nil [simp]: "\<not> wf_toks []"
  by (simp add: wf_toks_def)

lemma p_close_takes: "p_close ts = Inr ts' \<Longrightarrow> takes ts ts'"
  by (auto simp: p_close_def split: list.splits tkind.splits)

lemma p_close_safe: "wf_toks ts \<Longrightarrow> safe (p_close ts)"
  by (auto simp: p_close_def safe_Inl split: list.splits tkind.splits)

lemma p_colon_takes: "p_colon ts = Inr ts' \<Longrightarrow> takes ts ts'"
  by (auto simp: p_colon_def split: list.splits if_splits)

lemma p_colon_safe: "wf_toks ts \<Longrightarrow> safe (p_colon ts)"
  by (auto simp: p_colon_def safe_Inl split: list.splits)

lemma call_spectre_safe: "safe (call_spectre P f args pos)"
  by (auto simp: call_spectre_def safe_Inl split: option.splits)

lemma ident_error: "ident P s = Inl e \<Longrightarrow> e pos \<noteq> OutOfFuel \<and> e pos \<noteq> IndexErr"
  by (auto simp: ident_def ident_spectre_def Let_def split: if_splits)

lemma rmap_ident_error: "rmap (ident P) ss = Inl e \<Longrightarrow> e pos \<noteq> OutOfFuel \<and> e pos \<noteq> IndexErr"
  by (induction ss) (auto simp: rbind_Inl_iff dest: ident_error)

lemma nud_name_safe: "safe (nud_name P s pos)"
  by (auto simp: nud_name_def safe_Inl split: option.splits sum.splits dest: ident_error [of _ _ _ pos])

lemma nud_node_safe: "safe (nud_node P f ss pos)"
  by (auto simp: nud_node_def safe_Inl split: sum.splits dest: rmap_ident_error [of _ _ _ pos])

locale sub_contract =
  fixes E :: sub and N :: nat
  assumes sub_takes: "E b ts = Inr (e, ts') \<Longrightarrow> takes ts ts'"
    and sub_safe: "wf_toks ts \<Longrightarrow> length ts < N \<Longrightarrow> safe (E b ts)"
begin

lemma led_takes: "p_led E P b l op ts = Inr (e, ts') \<Longrightarrow> takes ts ts'"
  unfolding p_led_def
  by (auto simp: res_simps split: if_splits dest!: sub_takes p_colon_takes intro: takes_trans)

lemma led_safe:
  assumes "wf_toks ts" and "length ts < N"
  shows "safe (p_led E P b l op ts)"
proof -
  have step: "safe (E k ts') " if "takes ts ts'" for k ts'
    using that assms takes_length takes_wf sub_safe by (metis order.strict_trans)
  have base: "safe (E k ts)" for k using assms by (rule sub_safe)
  show ?thesis
    unfolding p_led_def using assms(1)
    by (auto intro!: safe_rbind base step p_colon_safe dest!: sub_takes p_colon_takes
        intro: takes_wf takes_trans)
qed

lemma loop_takes:
  "p_loop n E P rbp l ts = Inr (e, ts') \<Longrightarrow> ts' = ts \<or> takes ts ts'"
proof (induction n arbitrary: l ts)
  case (Suc n)
  then obtain k pos rest where ts: "ts = (k, pos) # rest" by (auto split: list.splits)
  show ?case
  proof (cases "ts' = ts")
    case False
    with Suc.prems ts obtain op b l' ts1 where k: "k = TOP op"
        and led: "p_led E P b l op rest = Inr (l', ts1)" and lp: "p_loop n E P rbp l' ts1 = Inr (e, ts')"
      by (auto simp: res_simps split: tkind.splits option.splits if_splits)
    have "takes rest ts'" using led_takes [OF led] Suc.IH [OF lp] takes_trans by blast
    then show ?thesis by (simp add: ts k)
  qed simp
qed simp

lemma loop_safe:
  "wf_toks ts \<Longrightarrow> length ts < N \<Longrightarrow> length ts < n \<Longrightarrow> safe (p_loop n E P rbp l ts)"
proof (induction n arbitrary: l ts)
  case (Suc n)
  show ?case
  proof (cases ts)
    case (Cons t rest)
    obtain k pos where t: "t = (k, pos)" by (cases t)
    show ?thesis
    proof (cases k)
      case (TOP op)
      then have wf: "wf_toks rest" using Suc.prems Cons t by (auto intro: wf_toks_Cons)
      have "safe (rbind (p_led E P b l op rest) (\<lambda>(l', ts'). p_loop n E P rbp l' ts'))" for b
      proof (rule safe_rbind)
        show "safe (p_led E P b l op rest)" using led_safe [OF wf] Suc.prems Cons by simp
        fix x
        assume "p_led E P b l op rest = Inr x"
        then have tk: "takes rest (snd x)" using led_takes by (cases x) auto
        with Suc.prems Cons show "safe (case x of (l', ts') \<Rightarrow> p_loop n E P rbp l' ts')"
          using Suc.IH [of "snd x"] takes_wf [OF tk wf] takes_length [OF tk] by (cases x) auto
      qed
      then show ?thesis using Cons t TOP by (simp split: option.split)
    qed (use Cons t in auto)
  qed (use Suc.prems in simp)
qed simp

lemma args_takes: "p_args n E ts = Inr (es, ts') \<Longrightarrow> takes ts ts'"
proof (induction n arbitrary: ts es)
  case (Suc n)
  from Suc.prems obtain e ts1 where e0: "E 0 ts = Inr (e, ts1)"
    by (cases "E 0 ts") auto
  from Suc.prems e0 obtain k pos rest where t1: "ts1 = (k, pos) # rest"
    by (cases ts1) auto
  from Suc.prems e0 t1 have r: "(if k = TOP '','' then rbind (p_args n E rest) (\<lambda>(es, ts''). Inr (e # es, ts''))
               else Inr ([e], (k, pos) # rest)) = Inr (es, ts')"
    by simp
  have e: "E 0 ts = Inr (e, (k, pos) # rest)" using e0 t1 by simp
  note tk = sub_takes [OF e]
  show ?case
  proof (cases "k = TOP '',''")
    case True
    with r Suc.IH [of rest] have "takes rest ts'" by (auto simp: res_simps)
    with True have "takes ((k, pos) # rest) ts'" by simp
    with tk show ?thesis by (rule takes_trans)
  qed (use r tk in simp)
qed simp

lemma args_safe:
  "wf_toks ts \<Longrightarrow> length ts < N \<Longrightarrow> length ts < n \<Longrightarrow> safe (p_args n E ts)"
proof (induction n arbitrary: ts)
  case (Suc n)
  show ?case
    unfolding p_args.simps
  proof (rule safe_rbind)
    show "safe (E 0 ts)" using Suc.prems by (simp add: sub_safe)
    fix x
    assume x: "E 0 ts = Inr x"
    obtain e ts' where xe: "x = (e, ts')" by (cases x)
    have tk: "takes ts ts'" using x xe sub_takes by simp
    note wf = takes_wf [OF tk Suc.prems(1)] and len = takes_length [OF tk]
    show "safe (case x of (e, ts') \<Rightarrow> case ts' of [] \<Rightarrow> Inl IndexErr
        | (k, pos) # rest \<Rightarrow> if k = TOP '','' then rbind (p_args n E rest) (\<lambda>(es, ts''). Inr (e # es, ts''))
                            else Inr ([e], ts'))"
      using Suc.prems len wf xe
      by (auto split: list.splits intro!: safe_rbind Suc.IH intro: wf_toks_Cons)
  qed
qed simp

lemma call_takes: "p_call n E P name pos ts = Inr (e, ts') \<Longrightarrow> takes ts ts'"
  unfolding p_call_def is_close_def
  by (auto simp: Let_def res_simps split: if_splits list.splits tkind.splits
      dest!: args_takes p_close_takes) (use takes_trans in blast)+

lemma call_safe:
  assumes "wf_toks ts" and "length ts < N" and "length ts < n"
  shows "safe (p_call n E P name pos ts)"
proof -
  have "safe (p_close ts')" if "p_args n E ts = Inr (es, ts')" for es ts'
    using that assms(1) args_takes takes_wf p_close_safe by blast
  then show ?thesis
    unfolding p_call_def using assms
    by (auto simp: Let_def safe_Inl split: list.splits
        intro!: safe_rbind call_spectre_safe args_safe)
qed

lemma nud_takes: "p_nud n E P ts = Inr (e, ts') \<Longrightarrow> takes ts ts'"
  unfolding p_nud_def
  by (auto simp: res_simps split: list.splits tkind.splits if_splits
      dest!: call_takes sub_takes p_close_takes
) (use takes_trans in blast)+

lemma nud_safe:
  assumes "wf_toks ts" and "length ts \<le> N" and "length ts \<le> n"
  shows "safe (p_nud n E P ts)"
proof (cases ts)
  case (Cons t rest)
  obtain k pos where t: "t = (k, pos)" by (cases t)
  show ?thesis
  proof (cases "k = TEOF")
    case False
    then have wf: "wf_toks rest" using assms(1) Cons t wf_toks_Cons by fastforce
    have len: "length rest < N" "length rest < n" using assms Cons by auto
    have sub: "safe (E b rest)" for b using wf len by (rule_tac sub_safe)
    have cl: "safe (p_close ts')" if "E b rest = Inr (e, ts')" for b e ts'
      using that wf sub_takes takes_wf p_close_safe by blast
    have call: "safe (p_call n E P s pos rest')" if "rest = (k', pos') # rest'" "k' \<noteq> TEOF"
      for s rest' k' pos'
      using that wf len wf_toks_Cons [of "(k', pos')" rest'] by (auto intro!: call_safe)
    have paren: "safe (rbind (E 0 rest) (\<lambda>(e, ts'). rbind (p_close ts') (\<lambda>ts''. Inr (e, ts''))))"
      using sub cl by (auto intro!: safe_rbind)
    have unary: "safe (rbind (E b rest) (\<lambda>(arg, ts'). Inr (nud_unary op arg, ts')))" for b op
      using sub by (auto intro!: safe_rbind)
    have leaf: "safe (rbind m (\<lambda>e. Inr (e, rest)))" if "safe m" for m :: "parse_err + expr"
      using that by (auto intro!: safe_rbind)
    obtain k' pos' rest' where r: "rest = (k', pos') # rest'" using wf by (cases rest) auto
    note leaves = leaf [OF nud_node_safe] leaf [OF nud_name_safe]
    show ?thesis
    proof (cases k)
      case (TNAME s)
      show ?thesis
        unfolding p_nud_def Cons t TNAME using call [OF r] leaves wf r
        by (cases "k' = TEOF") (simp_all add: r)
    next
      case (TOPEN c)
      show ?thesis
        unfolding p_nud_def Cons t TOPEN using paren
        by (cases "is_close k'") (simp_all add: r safe_Inl)
    qed (use Cons t False unary leaves in \<open>simp_all add: p_nud_def safe_Inl\<close>)
  qed (use Cons t in \<open>auto simp: p_nud_def safe_Inl\<close>)
qed (use assms in simp)

end

lemma p_expr_contract: "sub_contract (p_expr n P) n"
proof (induction n)
  case 0
  show ?case by unfold_locales auto
next
  case (Suc n)
  show ?case
  proof
    fix b ts e ts'
    assume "p_expr (Suc n) P b ts = Inr (e, ts')"
    then show "takes ts ts'"
      by (auto simp: res_simps dest!: sub_contract.nud_takes [OF Suc] sub_contract.loop_takes [OF Suc]
          intro: takes_trans)
  next
    fix b ts
    assume wf: "wf_toks ts" and len: "length ts < Suc n"
    show "safe (p_expr (Suc n) P b ts)"
      unfolding p_expr.simps
    proof (rule safe_rbind)
      show "safe (p_nud n (p_expr n P) P ts)"
        using sub_contract.nud_safe [OF Suc wf] len by simp
      fix x
      assume "p_nud n (p_expr n P) P ts = Inr x"
      then have tk: "takes ts (snd x)" using sub_contract.nud_takes [OF Suc] by (cases x) auto
      show "safe (case x of (l, ts') \<Rightarrow> p_loop n (p_expr n P) P b l ts')"
        using sub_contract.loop_safe [OF Suc takes_wf [OF tk wf]] takes_length [OF tk] len
        by (cases x) auto
    qed
  qed
qed

interpretation expr_sub: sub_contract "p_expr n P" n for n P
  by (rule p_expr_contract)

lemma parse_toks_safe: "wf_toks ts \<Longrightarrow> safe (parse_toks P ts)"
proof -
  assume wf: "wf_toks ts"
  have e: "safe (p_expr (fuel_for ts) P 0 ts)"
    by (rule expr_sub.sub_safe [OF wf]) (simp add: fuel_for_def)
  have "wf_toks ts'" if "p_expr (fuel_for ts) P 0 ts = Inr (e, ts')" for e ts'
    using expr_sub.sub_takes [OF that] wf by (rule takes_wf)
  then show ?thesis
    using wf e by (auto simp: parse_toks_def safe_Inl split: list.splits intro!: safe_rbind)
qed

lemma lex_loop_wf: "snd (lex_loop d g i s) = Inr ts \<Longrightarrow> wf_toks ts"
proof (induction d g i s arbitrary: ts rule: lex_loop.induct)
  case (1 d groups i)
  then show ?case by (auto simp: wf_toks_def split: list.splits)
next
  case (2 d groups i c r)
  then obtain tk ns g rest where st: "lex_step d groups i c r = Inr (tk, ns, g, rest)"
    by (cases "lex_step d groups i c r") auto
  obtain ns' out where lp: "lex_loop d g (i + (Suc (length r) - length rest)) rest = (ns', out)"
    by (cases "lex_loop d g (i + (Suc (length r) - length rest)) rest")
  with 2(2) st obtain ts' where ts: "out = Inr ts'" "ts = tk @ ts'" by (auto simp: res_simps)
  have "wf_toks ts'" using 2(1) [OF st refl refl refl, of ts'] lp ts by simp
  then show ?case using ts by (auto simp: wf_toks_def)
qed

lemma lex_wf: "snd (lex s d) = Inr ts \<Longrightarrow> wf_toks ts"
  unfolding lex_def by (rule lex_loop_wf)

lemma parse_expr_safe: "safe (snd (parse_expr lm s cs d fs))"
  using lex_wf [of s d] parse_toks_safe
  by (auto simp: parse_expr_def Let_def lift_lex_def safe_Inl split: prod.splits sum.splits)

end
