(* ===== verification/ExprText.thy ===== *)
theory ExprText
  imports ExprParse
begin

text \<open>
  \<open>to_text\<close> and \<open>_text\<close> of \<open>vamos/netlist/expr.py\<close>: an expression in HSPICE's or Spectre's spelling,
  with the parentheses that the parser's binding powers need. The result's left side is the
  \<open>KeyError\<close> of a binary operator that the table of levels does not have.
\<close>

definition TPREC :: "(string \<times> nat) list" where
  "TPREC = [(''?'', 10), (''||'', 20), (''&&'', 30), (''|'', 34), (''~^'', 35), (''&'', 36),
     (''=='', 40), (''!='', 40), (''<'', 50), (''<='', 50), (''>'', 50), (''>='', 50), (''<<'', 55),
     (''>>'', 55), (''+'', 60), (''-'', 60), (''*'', 70), (''/'', 70), (''**'', 100)]"

definition TUNARY :: nat where "TUNARY = 80"

definition key :: "(string \<times> nat) list \<Rightarrow> string \<Rightarrow> string + nat" where
  "key prec op = (case map_of prec op of None \<Rightarrow> Inl op | Some p \<Rightarrow> Inr p)"

definition parens :: "string \<Rightarrow> string" where
  "parens s = ''('' @ s @ '')''"

text \<open>The parentheses around a text of level \<open>p\<close> where at least \<open>need\<close> is needed.\<close>

definition wrap :: "nat \<Rightarrow> nat \<Rightarrow> string \<Rightarrow> string" where
  "wrap p need s = (if p < need then parens s else s)"

definition num_text :: "pyfloat \<Rightarrow> nat \<Rightarrow> string" where
  "num_text v need = (let s = float_repr v in
     if py_startswith s ''-'' \<and> need > 0 then parens s else s)"

lemma size_nth_arg: "i < length args \<Longrightarrow> size (args ! i) \<le> size_list size (args :: expr list)"
  using size_list_estimation' [of "args ! i" args "size (args ! i)" size] by simp

function text_at :: "(string \<times> nat) list \<Rightarrow> nat \<Rightarrow> bool \<Rightarrow> expr \<Rightarrow> nat \<Rightarrow> string + string" where
  "text_at prec unary spectre (Num v) need = Inr (num_text v need)"
| "text_at prec unary spectre (Name n) need = Inr n"
| "text_at prec unary spectre (Str s) need = Inr (CHR 0x22 # s @ [CHR 0x22])"
| "text_at prec unary spectre (Call f args) need =
     (if spectre \<and> f = ''cpow'' \<and> length args = 2 then
        rbind (key prec ''**'') (\<lambda>p.
          rbind (text_at prec unary spectre (args ! 0) (p + 1)) (\<lambda>l.
            rbind (text_at prec unary spectre (args ! 1) p) (\<lambda>r.
              Inr (wrap p need (l @ ''**'' @ r)))))
      else rbind (rmap (\<lambda>a. text_at prec unary spectre a 0) args) (\<lambda>ts.
             Inr (f @ parens (py_join '', '' ts))))"
| "text_at prec unary spectre (Unary op a) need =
     rbind (text_at prec unary spectre a (unary + 1)) (\<lambda>t. Inr (wrap unary need (op @ t)))"
| "text_at prec unary spectre (Binary op l r) need =
     rbind (key prec op) (\<lambda>p.
       if op = ''**'' then
         rbind (text_at prec unary spectre l (p + 1)) (\<lambda>tl.
           rbind (text_at prec unary spectre r (if spectre then p else unary)) (\<lambda>tr.
             Inr (wrap p need (tl @ ''**'' @ tr))))
       else
         rbind (text_at prec unary spectre l p) (\<lambda>tl.
           rbind (text_at prec unary spectre r (p + 1)) (\<lambda>tr.
             Inr (wrap p need (tl @ '' '' @ op @ '' '' @ tr)))))"
| "text_at prec unary spectre (Ternary c a b) need =
     rbind (key prec ''?'') (\<lambda>p.
       rbind (text_at prec unary spectre c (p + 1)) (\<lambda>tc.
         rbind (text_at prec unary spectre a 0) (\<lambda>ta.
           rbind (text_at prec unary spectre b p) (\<lambda>tb.
             Inr (wrap p need (tc @ '' ? '' @ ta @ '' : '' @ tb))))))"
  by pat_completeness auto
termination
  by (relation "measure (\<lambda>(prec, unary, spectre, e, need). size e)")
    (auto simp: size_nth_arg less_Suc_eq_le intro: size_list_estimation')

definition to_text :: "expr \<Rightarrow> dialect \<Rightarrow> string + string" where
  "to_text ast d =
     (if d = Hspice then text_at TPREC TUNARY False ast 0
      else text_at SPECTRE_LBP SPECTRE_UNARY_RBP True ast 0)"

text \<open>The text of every expression whose binary operators are in the table.\<close>

fun ops_in :: "(string \<times> nat) list \<Rightarrow> expr \<Rightarrow> bool" where
  "ops_in prec (Call f args) = list_all (ops_in prec) args"
| "ops_in prec (Unary op a) = ops_in prec a"
| "ops_in prec (Binary op l r) = (map_of prec op \<noteq> None \<and> ops_in prec l \<and> ops_in prec r)"
| "ops_in prec (Ternary c a b) = (ops_in prec c \<and> ops_in prec a \<and> ops_in prec b)"
| "ops_in prec _ = True"

lemma text_at_total:
  assumes "map_of prec ''?'' \<noteq> None" and "map_of prec ''**'' \<noteq> None" and "ops_in prec e"
  shows "\<exists>s. text_at prec unary spectre e need = Inr s"
  using assms(3)
proof (induction e arbitrary: need)
  case (Call f args)
  have e: "\<exists>s. text_at prec unary spectre a n = Inr s" if "a \<in> set args" for a n
    using Call that by (auto simp: list_all_iff)
  show ?case
  proof (cases "spectre \<and> f = ''cpow'' \<and> length args = 2")
    case True
    then have m: "args ! 0 \<in> set args" "args ! 1 \<in> set args" by (auto intro!: nth_mem)
    obtain p where p: "map_of prec ''**'' = Some p" using assms(2) by auto
    obtain s1 s2 where "text_at prec unary spectre (args ! 0) (p + 1) = Inr s1"
      "text_at prec unary spectre (args ! 1) p = Inr s2" using e [OF m(1)] e [OF m(2)] by blast
    with True p show ?thesis by (auto simp: key_def)
  next
    case False
    have "\<exists>ts. rmap (\<lambda>a. text_at prec unary spectre a 0) args = Inr ts"
      by (rule rmap_total) (rule e)
    with False show ?thesis by auto
  qed
next
  case (Unary op a)
  then obtain s where "text_at prec unary spectre a (unary + 1) = Inr s" by fastforce
  then show ?case by simp
next
  case (Binary op l r)
  obtain p where p: "map_of prec op = Some p" using Binary.prems by auto
  have "\<exists>s. text_at prec unary spectre l n = Inr s" "\<exists>s. text_at prec unary spectre r n = Inr s" for n
    using Binary by auto
  then obtain sl sr where "\<And>n. text_at prec unary spectre l n = Inr (sl n)"
    "\<And>n. text_at prec unary spectre r n = Inr (sr n)" by metis
  with p show ?case by (simp add: key_def)
next
  case (Ternary c a b)
  obtain p where p: "map_of prec ''?'' = Some p" using assms(1) by auto
  have "\<exists>s. text_at prec unary spectre x n = Inr s" if "x \<in> {c, a, b}" for x n
    using Ternary that by auto
  then obtain s where "\<And>x n. x \<in> {c, a, b} \<Longrightarrow> text_at prec unary spectre x n = Inr (s x n)" by metis
  with p show ?case by (simp add: key_def)
qed simp_all

lemma to_text_total:
  "ops_in (if d = Hspice then TPREC else SPECTRE_LBP) e \<Longrightarrow> \<exists>s. to_text e d = Inr s"
  unfolding to_text_def
  by (cases "d = Hspice") (auto intro!: text_at_total simp: TPREC_def SPECTRE_LBP_def)

end
