(* ===== verification/ExprEval.thy ===== *)
theory ExprEval
  imports ExprText "HOL-Library.Word"
begin

unbundle bit_operations_syntax

text \<open>
  The evaluator of \<open>vamos/netlist/expr.py\<close>: \<open>evaluate\<close>, class \<open>_Eval\<close> (its methods \<open>ev\<close>, \<open>raw\<close>,
  \<open>binary\<close>, \<open>call\<close> and \<open>domain\<close>), the functions \<open>_apply\<close>, \<open>_apply_extra\<close>, \<open>_bitwise\<close>, and
  \<open>check_arity\<close>. The functions of the C library are the argument \<open>lm\<close>.

  Each operation takes the results of its operands, not the operands: a result is looked at only
  where the code evaluates the operand, so an operand in a branch that is not taken never matters,
  and the first operand that raises is the one whose error is reported. The messages print the
  expression with \<open>to_text\<close>, which may itself raise \<open>KeyError\<close> (\<open>KeyErr\<close>).
\<close>

section \<open>Tables\<close>

definition FUNCS :: "(string \<times> nat \<times> nat option) list" where
  "FUNCS =
     map (\<lambda>f. (f, 1, Some 1)) [''sin'', ''cos'', ''tan'', ''asin'', ''acos'', ''atan'', ''sinh'',
       ''cosh'', ''tanh'', ''asinh'', ''acosh'', ''atanh'', ''exp'', ''abs'', ''sqrt'', ''log'',
       ''ln'', ''log10'', ''db'', ''int'', ''trunc'', ''nint'', ''floor'', ''ceil'', ''sgn''] @
     [(''sign'', 1, Some 2), (''pow'', 2, Some 2), (''pwr'', 2, Some 2), (''atan2'', 2, Some 2),
      (''min'', 2, None), (''max'', 2, None), (''dmin'', 2, None), (''dmax'', 2, None),
      (''if'', 3, Some 3), (''limit'', 2, Some 3), (''agauss'', 3, Some 4), (''gauss'', 3, Some 4),
      (''aunif'', 2, Some 3), (''unif'', 2, Some 3)]"

definition NOMINAL :: "string list" where
  "NOMINAL = [''agauss'', ''gauss'', ''aunif'', ''unif'']"

definition BITWISE :: "string list" where
  "BITWISE = [''&'', ''|'', ''~^'', ''<<'', ''>>'']"

definition TWO53 :: int where "TWO53 = 9007199254740992"

section \<open>Errors\<close>

datatype eval_err =
    NotFinite string
  | ReservedName string
  | UnknownParameter string
  | StringValue string
  | NotHspiceOp string string
  | DivisionByZero string
  | MathFailure math_exc string
  | NodeAccess string
  | UnknownFunction string
  | Arity string nat "nat option" nat string
  | LogDomain string string
  | SqrtDomain string
  | ExpDomain string
  | LogOfZero string
  | ZeroToNegative string
  | NegativeBase string
  | FmodByZero string
  | XnorWidth string
  | BitNonInteger string
  | ShiftTooBig string
  | KeyErr string

text \<open>\<open>KeyError\<close> is not an \<open>EvalError\<close>: no handler of the module catches it.\<close>

fun is_eval_error :: "eval_err \<Rightarrow> bool" where
  "is_eval_error (KeyErr _) = False"
| "is_eval_error _ = True"

definition err_text :: "(string \<Rightarrow> eval_err) \<Rightarrow> expr \<Rightarrow> eval_err + 'a" where
  "err_text c e = (case to_text e Hspice of Inl op \<Rightarrow> Inl (KeyErr op) | Inr s \<Rightarrow> Inl (c s))"

text \<open>An exception of the \<open>math\<close> module, or an \<open>EvalError\<close>, on its way to a handler.\<close>

datatype raised = Evl eval_err | Mth math_exc

definition evl :: "eval_err + 'a \<Rightarrow> raised + 'a" where
  "evl m = (case m of Inl e \<Rightarrow> Inl (Evl e) | Inr x \<Rightarrow> Inr x)"

definition mth :: "math_exc + 'a \<Rightarrow> raised + 'a" where
  "mth m = (case m of Inl e \<Rightarrow> Inl (Mth e) | Inr x \<Rightarrow> Inr x)"

definition catch_math :: "expr \<Rightarrow> raised + 'a \<Rightarrow> eval_err + 'a" where
  "catch_math e m = (case m of
     Inl (Evl x) \<Rightarrow> Inl x
   | Inl (Mth x) \<Rightarrow> err_text (MathFailure x) e
   | Inr v \<Rightarrow> Inr v)"

lemma err_text_not_Inr [simp]: "err_text c e \<noteq> Inr v"
  by (simp add: err_text_def split: sum.split)

lemma catch_math_Inr [simp]: "catch_math e m = Inr v \<longleftrightarrow> m = Inr v"
  by (auto simp: catch_math_def split: sum.splits raised.splits)

lemma evl_Inr [simp]: "evl m = Inr v \<longleftrightarrow> m = Inr v"
  by (cases m) (simp_all add: evl_def)

lemma mth_Inr [simp]: "mth m = Inr v \<longleftrightarrow> m = Inr v"
  by (cases m) (simp_all add: mth_def)

section \<open>Functions of numbers\<close>

definition fgt0 :: "pyfloat \<Rightarrow> bool" where "fgt0 x = flt f0 x"
definition flt0 :: "pyfloat \<Rightarrow> bool" where "flt0 x = flt x f0"

definition truth :: "bool \<Rightarrow> pyfloat" where
  "truth b = (if b then f1 else f0)"

definition sgn_f :: "pyfloat \<Rightarrow> pyfloat" where
  "sgn_f x = (if fgt0 x then f1 else if flt0 x then fneg f1 else f0)"

definition trunc_f :: "pyfloat \<Rightarrow> math_exc + pyfloat" where
  "trunc_f x = rbind (math_trunc x) (\<lambda>i. Inr (float_of_int i))"

definition half :: pyfloat where "half = Fin False (1 / 2)"

definition nint_f :: "pyfloat \<Rightarrow> math_exc + pyfloat" where
  "nint_f x = (if fle f0 x then rbind (math_floor (fadd x half)) (\<lambda>i. Inr (float_of_int i))
               else rbind (math_floor (fadd (fneg x) half)) (\<lambda>i. Inr (fneg (float_of_int i))))"

definition hspice_power :: "libm \<Rightarrow> pyfloat \<Rightarrow> pyfloat \<Rightarrow> math_exc + pyfloat" where
  "hspice_power lm x y =
     (if fgt0 x then lm ''pow'' [x, y]
      else if flt0 x then rbind (trunc_f y) (\<lambda>t. lm ''pow'' [x, t])
      else Inr f0)"

text \<open>\<open>_C_FUNCS\<close>.\<close>

definition C_LIBM :: "string list" where
  "C_LIBM = [''sin'', ''cos'', ''tan'', ''asin'', ''acos'', ''atan'', ''sinh'', ''cosh'', ''tanh'',
             ''asinh'', ''acosh'', ''atanh'', ''exp'']"

definition c_func :: "libm \<Rightarrow> string \<Rightarrow> (pyfloat \<Rightarrow> math_exc + pyfloat) option" where
  "c_func lm f =
     (if f \<in> set C_LIBM then Some (\<lambda>x. lm f [x])
      else if f = ''abs'' then Some (\<lambda>x. Inr (fabs x))
      else if f = ''floor'' then Some (\<lambda>x. rbind (math_floor x) (\<lambda>i. Inr (float_of_int i)))
      else if f = ''ceil'' then Some (\<lambda>x. rbind (math_ceil x) (\<lambda>i. Inr (float_of_int i)))
      else if f = ''int'' \<or> f = ''trunc'' then Some trunc_f
      else if f = ''nint'' then Some nint_f
      else if f = ''sgn'' then Some (\<lambda>x. Inr (sgn_f x))
      else None)"

text \<open>\<open>min\<close> and \<open>max\<close> of Python: the first of the equal ones.\<close>

definition py_min :: "pyfloat list \<Rightarrow> pyfloat" where
  "py_min xs = foldl (\<lambda>m x. if flt x m then x else m) (hd xs) (tl xs)"

definition py_max :: "pyfloat list \<Rightarrow> pyfloat" where
  "py_max xs = foldl (\<lambda>m x. if flt m x then x else m) (hd xs) (tl xs)"

section \<open>Calls\<close>

text \<open>\<open>FUNCS[f] if f in FUNCS else EXTRA_FUNCS[f]\<close>.\<close>

definition arity_of :: "string \<Rightarrow> (nat \<times> nat option) option" where
  "arity_of f = (case map_of FUNCS f of Some ar \<Rightarrow> Some ar | None \<Rightarrow> map_of EXTRA_FUNCS f)"

definition check_arity :: "string \<Rightarrow> expr list \<Rightarrow> eval_err + unit" where
  "check_arity f args = (case arity_of f of
     None \<Rightarrow> Inl (KeyErr f)
   | Some (lo, hi) \<Rightarrow>
       if length args < lo \<or> (case hi of None \<Rightarrow> False | Some h \<Rightarrow> h < length args)
       then err_text (Arity f lo hi (length args)) (Call f args) else Inr ())"

definition apply_extra :: "libm \<Rightarrow> string \<Rightarrow> pyfloat list \<Rightarrow> expr \<Rightarrow> raised + pyfloat" where
  "apply_extra lm f a e =
     (if f = ''cpow'' then
        (if feq (a ! 0) f0 \<and> flt0 (a ! 1) then evl (err_text ZeroToNegative e)
         else (case lm ''pow'' [a ! 0, a ! 1] of
                 Inl (ValueErr t) \<Rightarrow> evl (err_text NegativeBase e)
               | r \<Rightarrow> mth r))
      else if f = ''hypot'' then mth (lm ''hypot'' [a ! 0, a ! 1])
      else if feq (a ! 1) f0 then evl (err_text FmodByZero e)
      else mth (lm ''fmod'' [a ! 0, a ! 1]))"

definition signed_log :: "(pyfloat \<Rightarrow> math_exc + pyfloat) \<Rightarrow> pyfloat \<Rightarrow> expr \<Rightarrow> raised + pyfloat" where
  "signed_log f x e =
     (if feq x f0 then evl (err_text LogOfZero e)
      else mth (rbind (f (fabs x)) (\<lambda>y. Inr (fmul (sgn_f x) y))))"

definition apply_func :: "libm \<Rightarrow> string \<Rightarrow> pyfloat list \<Rightarrow> expr \<Rightarrow> raised + pyfloat" where
  "apply_func lm f a e = (case c_func lm f of
     Some g \<Rightarrow> mth (g (a ! 0))
   | None \<Rightarrow>
       if f = ''sqrt'' then mth (rbind (lm ''sqrt'' [fabs (a ! 0)]) (\<lambda>y. Inr (fmul (sgn_f (a ! 0)) y)))
       else if f = ''log'' \<or> f = ''ln'' then signed_log (\<lambda>x. lm ''log'' [x]) (a ! 0) e
       else if f = ''log10'' then signed_log (\<lambda>x. lm ''log10'' [x]) (a ! 0) e
       else if f = ''db'' then
         signed_log (\<lambda>x. rbind (lm ''log10'' [x]) (\<lambda>y. Inr (fmul (flit 20) y))) (a ! 0) e
       else if f = ''pow'' then
         (if feq (a ! 0) f0 then
            rbind (mth (trunc_f (a ! 1))) (\<lambda>t.
              if flt0 t then evl (err_text ZeroToNegative e) else mth (lm ''pow'' [a ! 0, t]))
          else mth (rbind (trunc_f (a ! 1)) (\<lambda>t. lm ''pow'' [a ! 0, t])))
       else if f = ''pwr'' then
         (if feq (a ! 0) f0 then Inr f0
          else mth (rbind (lm ''pow'' [fabs (a ! 0), a ! 1]) (\<lambda>y. Inr (fmul (sgn_f (a ! 0)) y))))
       else if f = ''atan2'' then mth (lm ''atan2'' [a ! 0, a ! 1])
       else if f = ''min'' \<or> f = ''dmin'' then Inr (py_min a)
       else if f = ''max'' \<or> f = ''dmax'' then Inr (py_max a)
       else if f = ''sign'' then
         Inr (if length a = 1 then sgn_f (a ! 0) else fmul (fabs (a ! 0)) (sgn_f (a ! 1)))
       else if f = ''limit'' then
         Inr (if length a = 2 then a ! 0 else py_min [py_max [a ! 0, a ! 1], a ! 2])
       else if f \<in> set NOMINAL then Inr (a ! 0)
       else Inl (Evl (UnknownFunction f)))"

definition domain_check :: "string \<Rightarrow> pyfloat list \<Rightarrow> expr \<Rightarrow> eval_err + unit" where
  "domain_check f a e =
     (if (f = ''log'' \<or> f = ''ln'' \<or> f = ''log10'') \<and> fle (a ! 0) f0 then err_text (LogDomain f) e
      else if f = ''sqrt'' \<and> flt0 (a ! 0) then err_text SqrtDomain e
      else if f = ''exp'' \<and> fle (flit 80) (a ! 0) then err_text ExpDomain e
      else Inr ())"

section \<open>Operators\<close>

text \<open>\<open>v != math.floor(v) or not 0 <= v < 2**53\<close>: the integer, of a float that is one.\<close>

fun bit_operand :: "pyfloat \<Rightarrow> int option" where
  "bit_operand (Fin s q) =
     (let v = fval s q in
      if v \<noteq> of_int \<lfloor>v\<rfloor> \<or> \<not> (0 \<le> v \<and> v < of_int TWO53) then None else Some \<lfloor>v\<rfloor>)"
| "bit_operand _ = None"

definition bitwise :: "string \<Rightarrow> pyfloat \<Rightarrow> pyfloat \<Rightarrow> expr \<Rightarrow> eval_err + pyfloat" where
  "bitwise op x y e =
     (if op = ''~^'' then err_text XnorWidth e
      else (case (bit_operand x, bit_operand y) of
        (Some xi, Some yi) \<Rightarrow>
          if op = ''&'' then Inr (float_of_int (xi AND yi))
          else if op = ''|'' then Inr (float_of_int (xi OR yi))
          else if op = ''>>'' then
            Inr (if yi < 64 then float_of_int (drop_bit (nat yi) xi) else f0)
          else if yi \<ge> 64 \<or> push_bit (nat yi) xi \<ge> TWO53 then err_text ShiftTooBig e
          else Inr (float_of_int (push_bit (nat yi) xi))
      | _ \<Rightarrow> err_text BitNonInteger e))"

definition compare_op :: "string \<Rightarrow> pyfloat \<Rightarrow> pyfloat \<Rightarrow> bool option" where
  "compare_op op x y =
     (if op = ''=='' then Some (feq x y) else if op = ''!='' then Some (\<not> feq x y)
      else if op = ''<'' then Some (flt x y) else if op = ''<='' then Some (fle x y)
      else if op = ''>'' then Some (flt y x) else if op = ''>='' then Some (fle y x)
      else None)"

definition arith_op :: "libm \<Rightarrow> string \<Rightarrow> pyfloat \<Rightarrow> pyfloat \<Rightarrow> expr \<Rightarrow> eval_err + pyfloat" where
  "arith_op lm op x y e =
     (if op \<in> set BITWISE then bitwise op x y e
      else if op = ''+'' then Inr (fadd x y)
      else if op = ''-'' then Inr (fsub x y)
      else if op = ''*'' then Inr (fmul x y)
      else if op = ''/'' then (if feq y f0 then err_text DivisionByZero e else Inr (fdiv x y))
      else if op = ''**'' \<or> op = ''^'' then catch_math e (mth (hspice_power lm x y))
      else (case compare_op op x y of
              Some b \<Rightarrow> Inr (truth b)
            | None \<Rightarrow> err_text (NotHspiceOp op) e))"

type_synonym ires = "eval_err + pyfloat"

definition ev_binary :: "libm \<Rightarrow> bool \<Rightarrow> string \<Rightarrow> expr \<Rightarrow> ires \<Rightarrow> ires \<Rightarrow> ires" where
  "ev_binary lm spectre op e l r =
     (if (op = ''&&'' \<or> op = ''||'') \<and> spectre then
        rbind l (\<lambda>x. rbind r (\<lambda>y. Inr (truth (if op = ''&&'' then fnonzero x \<and> fnonzero y
                                                           else fnonzero x \<or> fnonzero y))))
      else if op = ''&&'' then
        rbind l (\<lambda>x. if fnonzero x then rbind r (\<lambda>y. Inr (truth (fnonzero y))) else Inr f0)
      else if op = ''||'' then
        rbind l (\<lambda>x. if fnonzero x then Inr f1 else rbind r (\<lambda>y. Inr (truth (fnonzero y))))
      else rbind l (\<lambda>x. rbind r (\<lambda>y. arith_op lm op x y e)))"

definition ev_unary :: "string \<Rightarrow> expr \<Rightarrow> ires \<Rightarrow> ires" where
  "ev_unary op e r = rbind r (\<lambda>x.
     if op = ''-'' then Inr (fneg x)
     else if op = ''+'' then Inr x
     else if op = ''!'' then Inr (truth (\<not> fnonzero x))
     else err_text (NotHspiceOp op) e)"

definition ev_call :: "libm \<Rightarrow> bool \<Rightarrow> string \<Rightarrow> expr list \<Rightarrow> ires list \<Rightarrow> ires" where
  "ev_call lm spectre f args rs =
     (if node_func f then err_text NodeAccess (Call f args)
      else if map_of EXTRA_FUNCS f \<noteq> None then
        rbind (check_arity f args) (\<lambda>_.
          rbind (rmap id rs) (\<lambda>a. catch_math (Call f args) (apply_extra lm f a (Call f args))))
      else if map_of FUNCS f = None then Inl (UnknownFunction f)
      else
        rbind (check_arity f args) (\<lambda>_.
          if f = ''if'' then rbind (rs ! 0) (\<lambda>c. if fnonzero c then rs ! 1 else rs ! 2)
          else rbind (rmap id rs) (\<lambda>a.
            rbind (if spectre then domain_check f a (Call f args) else Inr ()) (\<lambda>_.
              catch_math (Call f args) (apply_func lm f a (Call f args))))))"

section \<open>Evaluation\<close>

definition finite_check :: "expr \<Rightarrow> ires \<Rightarrow> ires" where
  "finite_check e r = rbind r (\<lambda>x. if finite_float x then Inr x else err_text NotFinite e)"

type_synonym scope = "string \<rightharpoonup> pyfloat"

definition ev_name :: "scope \<Rightarrow> string \<Rightarrow> ires" where
  "ev_name sc n =
     (if n \<in> set RESERVED then Inl (ReservedName n)
      else (case sc n of None \<Rightarrow> Inl (UnknownParameter n) | Some v \<Rightarrow> Inr v))"

text \<open>\<open>ev\<close> of the code is \<open>finite_check\<close> of \<open>raw\<close>.\<close>

primrec raw :: "libm \<Rightarrow> scope \<Rightarrow> bool \<Rightarrow> expr \<Rightarrow> ires" where
  "raw lm sc sp (Num v) = Inr v"
| "raw lm sc sp (Name n) = ev_name sc n"
| "raw lm sc sp (Str s) = err_text StringValue (Str s)"
| "raw lm sc sp (Unary op a) = ev_unary op (Unary op a) (finite_check a (raw lm sc sp a))"
| "raw lm sc sp (Ternary c a b) =
     rbind (finite_check c (raw lm sc sp c)) (\<lambda>x.
       if fnonzero x then finite_check a (raw lm sc sp a) else finite_check b (raw lm sc sp b))"
| "raw lm sc sp (Binary op l r) =
     ev_binary lm sp op (Binary op l r) (finite_check l (raw lm sc sp l))
       (finite_check r (raw lm sc sp r))"
| "raw lm sc sp (Call f args) =
     ev_call lm sp f args (map2 finite_check args (map (raw lm sc sp) args))"

definition ev :: "libm \<Rightarrow> scope \<Rightarrow> bool \<Rightarrow> expr \<Rightarrow> ires" where
  "ev lm sc sp e = finite_check e (raw lm sc sp e)"

definition evaluate :: "libm \<Rightarrow> expr \<Rightarrow> scope \<Rightarrow> dialect \<Rightarrow> ires" where
  "evaluate lm ast sc d = ev lm sc (d \<noteq> Hspice) ast"

end
