(* ===== verification/ExprEvalProps.thy ===== *)
theory ExprEvalProps
  imports ExprEval
begin

text \<open>
  What the evaluator promises. \<open>refines\<close> compares two results by their values only: where the first
  is a value, the second is the same value. Every operation of the evaluator respects it, whatever
  expression its messages print; the locale \<open>eval_order\<close> states this for a relation on results, and
  \<open>rewriting\<close> adds a rewriting function, for which it proves that \<open>transform\<close> keeps the value.
\<close>

section \<open>Comparing results\<close>

definition refines :: "'e + 'a \<Rightarrow> 'f + 'a \<Rightarrow> bool" where
  "refines r r' \<longleftrightarrow> (\<forall>v. r = Inr v \<longrightarrow> r' = Inr v)"

definition same_value :: "ires \<Rightarrow> ires \<Rightarrow> bool" where
  "same_value r r' \<longleftrightarrow> res_val r = res_val r'"

lemma refines_refl: "refines r r"
  by (simp add: refines_def)

lemma refines_trans: "refines a b \<Longrightarrow> refines b c \<Longrightarrow> refines a c"
  by (simp add: refines_def)

lemma refines_Inl: "refines (Inl e) r"
  by (simp add: refines_def)

lemma refines_err: "refines (err_text c x) r"
  by (simp add: refines_def)

lemma refines_evl_err: "refines (evl (err_text c x)) r"
  by (simp add: refines_def)

lemma refines_rbind:
  "refines m m' \<Longrightarrow> (\<And>x. m = Inr x \<Longrightarrow> refines (f x) (f' x)) \<Longrightarrow> refines (rbind m f) (rbind m' f')"
  by (auto simp: refines_def res_simps)

lemma refines_if:
  "(c \<Longrightarrow> refines a a') \<Longrightarrow> (\<not> c \<Longrightarrow> refines b b') \<Longrightarrow> refines (if c then a else b) (if c then a' else b')"
  by simp

lemma refines_catch: "refines m m' \<Longrightarrow> refines (catch_math e m) (catch_math e' m')"
  by (simp add: refines_def)

lemmas refines_intros = refines_if refines_rbind refines_catch refines_Inl refines_err refines_evl_err

lemma same_value_iff: "same_value r r' \<longleftrightarrow> refines r r' \<and> refines r' r"
  by (cases r; cases r') (auto simp: same_value_def refines_def)

lemma finite_check_refines: "refines r r' \<Longrightarrow> refines (finite_check e r) (finite_check e' r')"
  unfolding finite_check_def by (intro refines_intros refines_refl)

lemma ev_unary_refines: "refines r r' \<Longrightarrow> refines (ev_unary op e r) (ev_unary op e' r')"
  unfolding ev_unary_def by (intro refines_intros refines_refl)

lemma bitwise_refines: "refines (bitwise op x y e) (bitwise op x y e')"
  unfolding bitwise_def
  by (cases "bit_operand x"; cases "bit_operand y"; simp only: option.case prod.case)
    (intro refines_intros refines_refl)+

lemma arith_op_refines: "refines (arith_op lm op x y e) (arith_op lm op x y e')"
  unfolding arith_op_def
  by (cases "compare_op op x y"; simp only: option.case)
    (intro refines_if bitwise_refines refines_refl refines_err refines_catch)+

lemma ev_binary_refines:
  assumes "refines l l'" and "refines r r'"
  shows "refines (ev_binary lm sp op e l r) (ev_binary lm sp op e' l' r')"
  unfolding ev_binary_def by (intro refines_if refines_rbind assms refines_refl arith_op_refines)

lemma ternary_refines:
  "refines c c' \<Longrightarrow> refines a a' \<Longrightarrow> refines b b' \<Longrightarrow>
   refines (rbind c (\<lambda>x. if fnonzero x then a else b)) (rbind c' (\<lambda>x. if fnonzero x then a' else b'))"
  by (rule refines_rbind) auto

lemma check_arity_refines:
  "length args = length args' \<Longrightarrow> refines (check_arity f args) (check_arity f args')"
  by (auto simp: check_arity_def refines_def split: option.splits)

lemma domain_check_refines: "refines (domain_check f a e) (domain_check f a e')"
  unfolding domain_check_def by (intro refines_intros refines_refl)

lemma signed_log_refines: "refines (signed_log f x e) (signed_log f x e')"
  unfolding signed_log_def by (intro refines_intros refines_refl)

lemma apply_func_refines: "refines (apply_func lm f a e) (apply_func lm f a e')"
  unfolding apply_func_def
  by (cases "c_func lm f"; simp only: option.case)
    (intro refines_if refines_rbind refines_evl_err signed_log_refines refines_refl)+

lemma apply_extra_refines: "refines (apply_extra lm f a e) (apply_extra lm f a e')"
  unfolding apply_extra_def
  by (intro refines_if refines_evl_err refines_refl)
    (auto simp: refines_def split: sum.split math_exc.split)

lemma rmap_id_refines: "list_all2 refines rs rs' \<Longrightarrow> refines (rmap id rs) (rmap id rs')"
  by (auto simp: rmap_Inr_iff list_all2_conv_all_nth refines_def)

lemma if_arity: "check_arity ''if'' args = Inr u \<Longrightarrow> length args = 3"
  by (auto simp: check_arity_def arity_of_def FUNCS_def split: if_splits)

lemma ev_call_refines:
  assumes "length args = length args'" and "list_all2 refines rs rs'" and "length rs = length args"
  shows "refines (ev_call lm sp f args rs) (ev_call lm sp f args' rs')"
proof -
  have nth: "refines (rs ! i) (rs' ! i)" if "i < 3" "check_arity f args = Inr u" "f = ''if''" for i u
    using assms(2, 3) that if_arity [of args u] by (simp add: list_all2_conv_all_nth)
  show ?thesis
    unfolding ev_call_def
    by (intro refines_intros check_arity_refines [OF assms(1)] rmap_id_refines [OF assms(2)]
        apply_extra_refines apply_func_refines ternary_refines domain_check_refines refines_refl)
      (erule (1) nth [rotated]; simp)+
qed

section \<open>The interface: a relation that every operation respects\<close>

locale eval_order =
  fixes R :: "ires \<Rightarrow> ires \<Rightarrow> bool"
  assumes R_trans: "R a b \<Longrightarrow> R b c \<Longrightarrow> R a c"
    and R_refl: "R a a"
    and R_err: "R (err_text k e) (err_text k e')"
    and R_finite: "R r r' \<Longrightarrow> R (finite_check e r) (finite_check e' r')"
    and R_unary: "R r r' \<Longrightarrow> R (ev_unary op e r) (ev_unary op e' r')"
    and R_binary: "R l l' \<Longrightarrow> R r r' \<Longrightarrow> R (ev_binary lm sp op e l r) (ev_binary lm sp op e' l' r')"
    and R_ternary: "R c c' \<Longrightarrow> R a a' \<Longrightarrow> R b b' \<Longrightarrow>
       R (rbind c (\<lambda>x. if fnonzero x then a else b)) (rbind c' (\<lambda>x. if fnonzero x then a' else b'))"
    and R_call: "length args = length args' \<Longrightarrow> list_all2 R rs rs' \<Longrightarrow> length rs = length args \<Longrightarrow>
       R (ev_call lm sp f args rs) (ev_call lm sp f args' rs')"

text \<open>A rewriting function whose every step keeps the value, from one scope to another.\<close>

fun is_leaf :: "expr \<Rightarrow> bool" where
  "is_leaf (Num v) = True"
| "is_leaf (Name n) = True"
| "is_leaf (Str s) = True"
| "is_leaf (Call f args) = node_func f"
| "is_leaf _ = False"

locale rewriting = eval_order R for R +
  fixes lm :: libm and sp :: bool and sc sc' :: scope and fn :: "expr \<Rightarrow> 'e + expr"
  assumes leaf_step: "is_leaf e \<Longrightarrow> fn e = Inr e' \<Longrightarrow> R (ev lm sc sp e) (ev lm sc' sp e')"
    and inner_step: "\<not> is_leaf e \<Longrightarrow> fn e = Inr e' \<Longrightarrow> R (ev lm sc' sp e) (ev lm sc' sp e')"
begin

lemma inner:
  "\<not> is_leaf e \<Longrightarrow> fn e = Inr e' \<Longrightarrow> R r (raw lm sc' sp e) \<Longrightarrow> R (finite_check d r) (ev lm sc' sp e')"
  using R_finite [of r "raw lm sc' sp e" d e] inner_step [of e e'] unfolding ev_def
  by (blast intro: R_trans)

lemma transform_keeps: "transform_r fn e = Inr e' \<Longrightarrow> R (ev lm sc sp e) (ev lm sc' sp e')"
proof (induction e arbitrary: e')
  case (Call f args)
  show ?case
  proof (cases "node_func f")
    case True
    then show ?thesis using Call.prems leaf_step by simp
  next
    case False
    then obtain args' where as: "rmap (transform_r fn) args = Inr args'" and f: "fn (Call f args') = Inr e'"
      using Call.prems by (auto simp: res_simps)
    have len: "length args' = length args" using as by (rule rmap_length)
    have "R (finite_check (args ! i) (raw lm sc sp (args ! i)))
        (finite_check (args' ! i) (raw lm sc' sp (args' ! i)))" if "i < length args" for i
      using as Call.IH [of "args ! i" "args' ! i"] that
      by (simp add: rmap_Inr_iff list_all2_conv_all_nth ev_def)
    then have rs: "list_all2 R (map2 finite_check args (map (raw lm sc sp) args))
        (map2 finite_check args' (map (raw lm sc' sp) args'))"
      by (simp add: list_all2_conv_all_nth len)
    show ?thesis
      unfolding ev_def [of lm sc]
      by (rule inner [OF _ f]) (simp_all add: False rs R_call len)
  qed
next
  case (Unary op a)
  then obtain a' where a: "transform_r fn a = Inr a'" and f: "fn (Unary op a') = Inr e'"
    by (auto simp: res_simps)
  show ?case
    unfolding ev_def [of lm sc]
    by (rule inner [OF _ f]) (use Unary.IH [OF a] in \<open>simp_all add: ev_def R_unary\<close>)
next
  case (Binary op l r)
  then obtain l' r' where a: "transform_r fn l = Inr l'" "transform_r fn r = Inr r'"
      and f: "fn (Binary op l' r') = Inr e'"
    by (auto simp: res_simps)
  show ?case
    unfolding ev_def [of lm sc]
    by (rule inner [OF _ f])
      (use Binary.IH(1) [OF a(1)] Binary.IH(2) [OF a(2)] in \<open>simp_all add: ev_def R_binary\<close>)
next
  case (Ternary c a b)
  then obtain c' a' b' where a: "transform_r fn c = Inr c'" "transform_r fn a = Inr a'"
      "transform_r fn b = Inr b'" and f: "fn (Ternary c' a' b') = Inr e'"
    by (auto simp: res_simps)
  show ?case
    unfolding ev_def [of lm sc]
    by (rule inner [OF _ f])
      (use Ternary.IH(1) [OF a(1)] Ternary.IH(2) [OF a(2)] Ternary.IH(3) [OF a(3)]
        in \<open>simp_all add: ev_def R_ternary\<close>)
qed (use leaf_step in simp_all)

end

lemma list_all2_same_value:
  "list_all2 same_value rs rs' \<Longrightarrow> list_all2 refines rs rs' \<and> list_all2 refines rs' rs"
  by (auto simp: list_all2_conv_all_nth same_value_iff)

lemmas refines_ops = finite_check_refines ev_unary_refines ev_binary_refines ternary_refines
  ev_call_refines

interpretation value_le: eval_order refines
  by unfold_locales (rule refines_trans refines_refl refines_err refines_ops; assumption)+

interpretation value_eq: eval_order same_value
proof
  fix args args' :: "expr list" and rs rs' and lm sp f
  assume "length args = length args'" and rs: "list_all2 same_value rs rs'" and "length rs = length args"
  then show "same_value (ev_call lm sp f args rs) (ev_call lm sp f args' rs')"
    using list_all2_same_value [OF rs] list_all2_lengthD [OF rs]
    by (simp add: same_value_iff ev_call_refines)
qed (auto simp: same_value_iff refines_ops refines_refl refines_err intro: refines_trans)

section \<open>The values of the Spectre dialects\<close>

lemma map2_check: "map2 finite_check args (map (raw lm sc sp) args) = map (ev lm sc sp) args"
  by (induction args) (auto simp: ev_def)

lemma spectre_binary_refines:
  "refines l l' \<Longrightarrow> refines r r' \<Longrightarrow> refines (ev_binary lm sp op e l r) (ev_binary lm False op e' l' r')"
proof -
  assume r: "refines l l'" "refines r r'"
  have "refines (ev_binary lm sp op e l r) (ev_binary lm False op e l r)"
    by (cases sp; cases "op = ''&&''"; cases "op = ''||''"; cases l; cases r)
      (simp_all add: ev_binary_def truth_def refines_refl refines_Inl)
  then show "refines (ev_binary lm sp op e l r) (ev_binary lm False op e' l' r')"
    using ev_binary_refines [OF r] by (rule refines_trans)
qed

lemma spectre_call_refines:
  assumes "list_all2 refines rs rs'" and "length rs = length args"
  shows "refines (ev_call lm sp f args rs) (ev_call lm False f args rs')"
proof -
  have "refines (ev_call lm sp f args rs) (ev_call lm False f args rs)"
    unfolding ev_call_def
    by (intro refines_if refines_rbind refines_refl) (auto simp: refines_def)
  then show ?thesis using ev_call_refines [OF refl assms] refines_trans by blast
qed

lemma spectre_refines_raw: "refines (raw lm sc sp e) (raw lm sc False e)"
proof (induction e)
  case (Call f args)
  have "refines (ev lm sc sp a) (ev lm sc False a)" if "a \<in> set args" for a
    unfolding ev_def by (rule finite_check_refines) (rule Call.IH [OF that])
  then have "list_all2 refines (map (ev lm sc sp) args) (map (ev lm sc False) args)"
    by (simp add: list_all2_conv_all_nth)
  then show ?case unfolding raw.simps map2_check by (rule spectre_call_refines) simp
next
  case (Ternary c a b)
  then show ?case by (simp add: ternary_refines finite_check_refines)
next
  case (Binary op l r)
  then show ?case by (simp add: spectre_binary_refines finite_check_refines)
qed (simp_all add: ev_unary_refines finite_check_refines refines_refl)

lemma spectre_refines: "refines (ev lm sc sp e) (ev lm sc False e)"
  unfolding ev_def by (rule finite_check_refines) (rule spectre_refines_raw)

section \<open>Finite values, and the names a value depends on\<close>

lemma ev_finite: "ev lm sc sp e = Inr v \<Longrightarrow> finite_float v"
  by (auto simp: ev_def finite_check_def res_simps split: if_splits)

lemma ev_node_call: "node_func f \<Longrightarrow> res_val (ev lm sc sp (Call f args)) = None"
  unfolding ev_def raw.simps ev_call_def finite_check_def
  by (cases "res_val (err_text NodeAccess (Call f args) :: ires)") (auto simp: res_val_def split: sum.splits)

lemma names_preorder:
  "names e = {n. Name n \<in> set (preorder e) \<and> n \<notin> set RESERVED}"
  unfolding names_def walk_preorder by (auto split: expr.splits if_splits)

lemma names_simps:
  "names (Num v) = {}" "names (Str s) = {}"
  "names (Name n) = (if n \<in> set RESERVED then {} else {n})"
  "names (Unary op a) = names a"
  "names (Binary op l r) = names l \<union> names r"
  "names (Ternary c a b) = names c \<union> names a \<union> names b"
  "names (Call f args) = (if node_func f then {} else (\<Union>a \<in> set args. names a))"
  by (auto simp: names_preorder)

definition agree_on :: "scope \<Rightarrow> scope \<Rightarrow> string set \<Rightarrow> bool" where
  "agree_on sc sc' A \<longleftrightarrow> (\<forall>n \<in> A. sc n = sc' n)"

lemma agree_on_Un: "agree_on sc sc' (A \<union> B) \<longleftrightarrow> agree_on sc sc' A \<and> agree_on sc sc' B"
  by (auto simp: agree_on_def)

lemma agree_on_UN: "agree_on sc sc' (\<Union>x \<in> X. f x) \<longleftrightarrow> (\<forall>x \<in> X. agree_on sc sc' (f x))"
  by (auto simp: agree_on_def)

lemma ev_coincide_raw: "agree_on sc sc' (names e) \<Longrightarrow> raw lm sc sp e = raw lm sc' sp e"
proof (induction e)
  case (Call f args)
  show ?case
  proof (cases "node_func f")
    case True
    then show ?thesis by (simp add: ev_call_def)
  next
    case False
    then have "\<forall>a \<in> set args. agree_on sc sc' (names a)"
      using Call.prems by (simp only: names_simps agree_on_UN if_False)
    then have "map (raw lm sc sp) args = map (raw lm sc' sp) args" using Call.IH by simp
    then show ?thesis by (simp only: raw.simps)
  qed
next
  case (Name n)
  then show ?case by (cases "n \<in> set RESERVED") (simp_all add: ev_name_def names_simps agree_on_def)
qed (simp_all add: names_simps agree_on_Un cong: if_cong)

lemma ev_coincide: "agree_on sc sc' (names e) \<Longrightarrow> ev lm sc sp e = ev lm sc' sp e"
  unfolding ev_def by (simp add: ev_coincide_raw)

section \<open>Substitution\<close>

definition subst_scope :: "libm \<Rightarrow> scope \<Rightarrow> bool \<Rightarrow> (string \<rightharpoonup> expr) \<Rightarrow> scope" where
  "subst_scope lm sc sp m = (\<lambda>n. case m n of Some x \<Rightarrow> res_val (ev lm sc sp x) | None \<Rightarrow> sc n)"

lemma subst_scope_Some: "m n = Some x \<Longrightarrow> subst_scope lm sc sp m n = res_val (ev lm sc sp x)"
  by (simp add: subst_scope_def)

lemma ev_Name: "ev lm sc sp (Name n) = finite_check (Name n) (ev_name sc n)"
  by (simp add: ev_def)

definition subst_node :: "(string \<rightharpoonup> expr) \<Rightarrow> expr \<Rightarrow> eval_err + expr" where
  "subst_node m e = Inr (case e of Name n \<Rightarrow> (case m n of Some x \<Rightarrow> x | None \<Rightarrow> e) | _ \<Rightarrow> e)"

text \<open>The reserved words stay what they are.\<close>

definition params_only :: "(string \<rightharpoonup> expr) \<Rightarrow> string \<rightharpoonup> expr" where
  "params_only m = m |` (- set RESERVED)"

interpretation substituting:
  rewriting same_value lm sp "subst_scope lm sc sp (params_only m)" sc "subst_node (params_only m)"
  for lm sp sc m
proof
  fix e e'
  assume l: "is_leaf e" and s: "subst_node (params_only m) e = Inr e'"
  let ?sc = "subst_scope lm sc sp (params_only m)"
  show "same_value (ev lm ?sc sp e) (ev lm sc sp e')"
  proof (cases e)
    case (Name n)
    show ?thesis
    proof (cases "params_only m n")
      case None
      then have "ev_name ?sc n = ev_name sc n" by (simp add: ev_name_def subst_scope_def)
      moreover have "e' = Name n" using s Name None by (simp add: subst_node_def)
      ultimately show ?thesis using Name by (simp add: ev_def same_value_def)
    next
      case (Some x)
      then have "n \<notin> set RESERVED" by (auto simp: params_only_def restrict_map_def split: if_splits)
      then have "ev lm ?sc sp e = finite_check (Name n) (case res_val (ev lm sc sp x) of
          None \<Rightarrow> Inl (UnknownParameter n) | Some v \<Rightarrow> Inr v)"
        using Name Some by (simp add: ev_Name ev_name_def subst_scope_Some)
      moreover have "e' = x" using s Name Some by (simp add: subst_node_def)
      ultimately show ?thesis using ev_finite [of lm sc sp x]
        by (cases "ev lm sc sp x") (auto simp: same_value_def finite_check_def)
    qed
  next
    case (Call f args)
    then have "e' = Call f args" and "node_func f" using l s by (simp_all add: subst_node_def)
    then show ?thesis using Call by (simp add: same_value_def ev_node_call)
  qed (use s l in \<open>auto simp: subst_node_def ev_def same_value_def\<close>)
next
  fix e e'
  assume "\<not> is_leaf e" and "subst_node (params_only m) e = Inr e'"
  then have "e' = e" by (cases e) (simp_all add: subst_node_def)
  then show "same_value (ev lm sc sp e) (ev lm sc sp e')" by (simp add: same_value_def)
qed

lemma substitute_value:
  assumes "\<And>n. n \<in> set RESERVED \<Longrightarrow> m n = None"
  shows "same_value (ev lm (subst_scope lm sc sp m) sp e) (ev lm sc sp (substitute e m))"
proof -
  have m: "params_only m = m"
    using assms by (auto simp: params_only_def restrict_map_def fun_eq_iff)
  have "transform_r (subst_node m) e = Inr (substitute e m)"
    unfolding subst_node_def [abs_def] substitute_def by (rule transform_r_total)
  then show ?thesis using substituting.transform_keeps [of m] by (simp add: m)
qed

end
