(* ===== verification/ExprFold.thy ===== *)
theory ExprFold
  imports ExprEvalProps
begin

text \<open>
  Constant folding: \<open>fold\<close> of \<open>vamos/netlist/expr.py\<close>. Its local functions are \<open>known\<close>,
  \<open>foldable\<close> and \<open>fold_node\<close> (\<open>f\<close> of the code); \<open>transform\<close> applies \<open>fold_node\<close> bottom-up. An
  \<open>EvalError\<close> of a constant subexpression leaves it as it is, and only a \<open>KeyError\<close> gets out of a
  fold that is not strict.
\<close>

fun known :: "expr \<Rightarrow> bool" where
  "known (Num v) = True"
| "known _ = False"

fun num_value :: "expr \<Rightarrow> pyfloat" where
  "num_value (Num v) = v"
| "num_value _ = NaN"

fun is_operation :: "expr \<Rightarrow> bool" where
  "is_operation (Num v) = False"
| "is_operation (Name n) = False"
| "is_operation (Str s) = False"
| "is_operation _ = True"

definition foldable :: "expr \<Rightarrow> bool" where
  "foldable e \<longleftrightarrow> is_operation e \<and> \<not> is_node_call e \<and> list_all known (children e)"

text \<open>The last step of \<open>f\<close>: \<open>evaluate\<close> where every operand is a number.\<close>

definition fold_constant :: "libm \<Rightarrow> expr \<Rightarrow> eval_err + expr" where
  "fold_constant lm e =
     (if foldable e then
        (case evaluate lm e Map.empty Hspice of
           Inr v \<Rightarrow> Inr (Num v)
         | Inl x \<Rightarrow> if is_eval_error x then Inr e else Inl x)
      else Inr e)"

definition fold_param :: "scope \<Rightarrow> string \<Rightarrow> expr" where
  "fold_param sc n = (case sc n of
     Some v \<Rightarrow> if n \<notin> set RESERVED then Num v else Name n
   | None \<Rightarrow> Name n)"

fun fold_node :: "libm \<Rightarrow> scope \<Rightarrow> expr \<Rightarrow> eval_err + expr" where
  "fold_node lm sc (Num v) = Inr (Num v)"
| "fold_node lm sc (Name n) = Inr (fold_param sc n)"
| "fold_node lm sc (Ternary c a b) =
     (if known c then Inr (if fnonzero (num_value c) then a else b)
      else fold_constant lm (Ternary c a b))"
| "fold_node lm sc (Call f args) =
     (if f = ''if'' \<and> length args = 3 \<and> known (args ! 0)
      then Inr (if fnonzero (num_value (args ! 0)) then args ! 1 else args ! 2)
      else fold_constant lm (Call f args))"
| "fold_node lm sc (Binary op l r) =
     (if (op = ''&&'' \<or> op = ''||'') \<and> known l then
        (if fnonzero (num_value l) = (op = ''||'') then Inr (Num (truth (op = ''||'')))
         else if known r then Inr (Num (truth (fnonzero (num_value r))))
         else Inr (Binary op l r))
      else fold_constant lm (Binary op l r))"
| "fold_node lm sc e = fold_constant lm e"

text \<open>The strict pass: \<open>evaluate\<close> every foldable node that is left, for its error.\<close>

primrec strict_pass :: "libm \<Rightarrow> expr list \<Rightarrow> eval_err + unit" where
  "strict_pass lm [] = Inr ()"
| "strict_pass lm (e # es) =
     (if foldable e then rbind (evaluate lm e Map.empty Hspice) (\<lambda>_. strict_pass lm es)
      else strict_pass lm es)"

definition fold_expr :: "libm \<Rightarrow> expr \<Rightarrow> scope \<Rightarrow> bool \<Rightarrow> eval_err + expr" where
  "fold_expr lm ast sc strict =
     rbind (transform_r (fold_node lm sc) ast) (\<lambda>out.
       if strict then rbind (strict_pass lm (walk out)) (\<lambda>_. Inr out) else Inr out)"

section \<open>Each step keeps the value\<close>

lemma known_iff: "known e \<longleftrightarrow> (\<exists>v. e = Num v)"
  by (cases e) auto

lemma foldable_names: "foldable e \<Longrightarrow> names e = {}"
  by (cases e) (auto simp: foldable_def names_simps list_all_iff known_iff)

lemma evaluate_closed:
  assumes "names e = {}" and "ev lm sc sp e = Inr v"
  shows "evaluate lm e Map.empty Hspice = Inr v"
proof -
  have "ev lm sc False e = Inr v"
    using assms(2) spectre_refines [of lm sc sp e] by (simp add: refines_def)
  moreover have "ev lm sc False e = ev lm Map.empty False e"
    by (rule ev_coincide) (simp add: assms(1) agree_on_def)
  ultimately show ?thesis by (simp add: evaluate_def)
qed

lemma ev_Num: "ev lm sc sp (Num v) = finite_check (Num v) (Inr v)"
  by (simp add: ev_def)

lemma ev_Num_Inr: "ev lm sc sp (Num v) = Inr w \<longleftrightarrow> finite_float v \<and> w = v"
  by (auto simp: ev_Num finite_check_def)

lemma ev_Inr_raw: "ev lm sc sp e = Inr v \<longleftrightarrow> raw lm sc sp e = Inr v \<and> finite_float v"
  by (auto simp: ev_def finite_check_def res_simps split: if_splits)

lemma fold_constant_step:
  assumes "fold_constant lm e = Inr e'"
  shows "refines (ev lm sc sp e) (ev lm sc sp e')"
proof (cases "foldable e")
  case True
  show ?thesis
    unfolding refines_def
  proof (intro allI impI)
    fix v
    assume v: "ev lm sc sp e = Inr v"
    have "evaluate lm e Map.empty Hspice = Inr v" by (rule evaluate_closed [OF foldable_names [OF True] v])
    then have "e' = Num v" using assms True by (simp add: fold_constant_def)
    then show "ev lm sc sp e' = Inr v" using ev_finite [OF v] by (simp add: ev_Num_Inr)
  qed
qed (use assms in \<open>simp add: fold_constant_def refines_refl\<close>)

lemma ternary_step:
  "known c \<Longrightarrow> refines (ev lm sc sp (Ternary c a b)) (ev lm sc sp (if fnonzero (num_value c) then a else b))"
  by (auto simp: refines_def known_iff ev_Inr_raw res_simps finite_check_def split: if_splits)

lemma if_not_extra: "\<not> node_func ''if''" "map_of EXTRA_FUNCS ''if'' = None" "map_of FUNCS ''if'' \<noteq> None"
  by (simp_all add: node_func_def node_func_word_def code_in_def EXTRA_FUNCS_def FUNCS_def)

lemma if_call_step:
  assumes "length args = 3" and "known (args ! 0)"
  shows "refines (ev lm sc sp (Call ''if'' args))
           (ev lm sc sp (if fnonzero (num_value (args ! 0)) then args ! 1 else args ! 2))"
proof -
  obtain v where v: "args ! 0 = Num v" using assms(2) by (auto simp: known_iff)
  have "refines (raw lm sc sp (Call ''if'' args)) (rbind (ev lm sc sp (args ! 0))
      (\<lambda>c. if fnonzero c then ev lm sc sp (args ! 1) else ev lm sc sp (args ! 2)))"
    unfolding raw.simps map2_check ev_call_def
    using assms(1) by (auto simp: if_not_extra refines_def res_simps)
  then show ?thesis
    using v by (auto simp: refines_def ev_Inr_raw res_simps split: if_splits)
qed

lemma logic_left_step:
  assumes "op = ''&&'' \<or> op = ''||''" and "fnonzero v = (op = ''||'')"
  shows "refines (ev lm sc sp (Binary op (Num v) r)) (ev lm sc sp (Num (truth (op = ''||''))))"
  using assms
  by (auto simp: refines_def ev_Inr_raw ev_binary_def truth_def res_simps finite_check_def split: if_splits)

lemma logic_right_step:
  assumes "op = ''&&'' \<or> op = ''||''" and "fnonzero v \<noteq> (op = ''||'')"
  shows "refines (ev lm sc sp (Binary op (Num v) (Num w))) (ev lm sc sp (Num (truth (fnonzero w))))"
  using assms
  by (auto simp: refines_def ev_Inr_raw ev_binary_def truth_def res_simps finite_check_def split: if_splits)

lemma fold_node_step:
  assumes "fold_node lm sc0 e = Inr e'" and "\<not> is_leaf e"
  shows "refines (ev lm sc sp e) (ev lm sc sp e')"
proof (cases e)
  case (Ternary c a b)
  show ?thesis
  proof (cases "known c")
    case True
    then have "e' = (if fnonzero (num_value c) then a else b)" using assms(1) Ternary by simp
    then show ?thesis using ternary_step [OF True] Ternary by (simp only:)
  next
    case False
    then show ?thesis using assms(1) Ternary fold_constant_step by simp
  qed
next
  case (Call f args)
  show ?thesis
  proof (cases "f = ''if'' \<and> length args = 3 \<and> known (args ! 0)")
    case True
    then have "e' = (if fnonzero (num_value (args ! 0)) then args ! 1 else args ! 2)"
      using assms(1) Call by simp
    then show ?thesis using if_call_step [of args] True Call by (simp only:)
  next
    case False
    then have "fold_constant lm e = Inr e'"
      using assms(1) Call by (simp only: fold_node.simps if_False)
    then show ?thesis by (rule fold_constant_step)
  qed
next
  case (Binary op l r)
  show ?thesis
  proof (cases "(op = ''&&'' \<or> op = ''||'') \<and> known l")
    case True
    then obtain v where v: "l = Num v" by (auto simp: known_iff)
    consider "fnonzero v = (op = ''||'')" | w where "fnonzero v \<noteq> (op = ''||'')" "r = Num w"
      | "fnonzero v \<noteq> (op = ''||'')" "\<not> known r"
      by (auto simp: known_iff)
    then show ?thesis
    proof cases
      case 1
      then have "e' = Num (truth (op = ''||''))" using assms(1) Binary True v by simp
      then show ?thesis using 1 logic_left_step True Binary v by simp
    next
      case 2
      then have "e' = Num (truth (fnonzero w))" using assms(1) Binary True v by simp
      then show ?thesis using 2 logic_right_step True Binary v by simp
    next
      case 3
      then have "e' = e" using assms(1) Binary True v by simp
      then show ?thesis by (simp add: refines_refl)
    qed
  next
    case False
    then have "fold_constant lm e = Inr e'"
      using assms(1) Binary by (simp only: fold_node.simps if_False)
    then show ?thesis by (rule fold_constant_step)
  qed
qed (use assms fold_constant_step in auto)

interpretation folding: rewriting refines lm sp sc sc "fold_node lm sc" for lm sp sc
proof
  fix e e'
  assume l: "is_leaf e" and f: "fold_node lm sc e = Inr e'"
  show "refines (ev lm sc sp e) (ev lm sc sp e')"
  proof (cases e)
    case (Name n)
    then show ?thesis
      using f by (cases "sc n") (auto simp: fold_param_def ev_Name ev_name_def ev_Num
          refines_refl refines_Inl finite_check_refines refines_def finite_check_def)
  next
    case (Call g args)
    then have "e' = e"
      using l f if_not_extra by (auto simp: fold_constant_def foldable_def split: if_splits)
    then show ?thesis by (simp add: refines_refl)
  qed (use f l in \<open>auto simp: fold_constant_def foldable_def refines_refl\<close>)
qed (rule fold_node_step)

lemma fold_value:
  assumes "fold_expr lm e sc strict = Inr e'" and "evaluate lm e sc d = Inr v"
  shows "evaluate lm e' sc d = Inr v"
proof -
  have "transform_r (fold_node lm sc) e = Inr e'"
    using assms(1) by (auto simp: fold_expr_def res_simps split: if_splits)
  then show ?thesis
    using folding.transform_keeps assms(2) by (auto simp: evaluate_def refines_def)
qed

end
