(* ===== verification/ExprReads.thy ===== *)
theory ExprReads
  imports ExprParseProps ExprFold
begin

text \<open>
  What the parser's results look like. The locale \<open>built\<close> says when a predicate on expressions
  holds of every node the parser can make, and shows that it then holds of every result; it is
  interpreted on \<open>ops_in\<close>, the operators that \<open>to_text\<close> has a level for. With it, no message of the
  evaluator raises a \<open>KeyError\<close> while it is built.
\<close>

section \<open>Results of the parser\<close>

definition gives :: "(expr \<Rightarrow> bool) \<Rightarrow> sub \<Rightarrow> bool" where
  "gives Q E \<longleftrightarrow> (\<forall>b ts e ts'. E b ts = Inr (e, ts') \<longrightarrow> Q e)"

lemma givesD: "gives Q E \<Longrightarrow> E b ts = Inr (e, ts') \<Longrightarrow> Q e"
  by (auto simp: gives_def)

locale built =
  fixes P :: pset and Q :: "expr \<Rightarrow> bool"
  assumes Q_num: "Q (Num v)" and Q_name: "Q (Name n)" and Q_str: "Q (Str s)"
    and Q_call: "list_all Q args \<Longrightarrow> Q (Call f args)"
    and Q_unary: "Q a \<Longrightarrow> Q (Unary op a)"
    and Q_binary: "lbp_of P op \<noteq> None \<Longrightarrow> Q l \<Longrightarrow> Q r \<Longrightarrow> Q (Binary op l r)"
    and Q_ternary: "Q c \<Longrightarrow> Q a \<Longrightarrow> Q b \<Longrightarrow> Q (Ternary c a b)"
    and Q_user: "map_of (p_funcs P) f = Some (params, body) \<Longrightarrow> list_all Q args \<Longrightarrow>
                 Q (substitute body (dict_zip params args))"
begin

lemma unary_built: "Q a \<Longrightarrow> Q (nud_unary op a)"
  by (auto simp: Q_num Q_unary split: expr.split)

lemma led_built:
  assumes "gives Q E" and "Q l" and "lbp_of P op \<noteq> None" and "p_led E P b l op ts = Inr (e, ts')"
  shows "Q e"
  using assms(2-4) unfolding p_led_def led_binary_def
  by (auto simp: res_simps intro!: Q_ternary Q_binary Q_call dest!: givesD [OF assms(1)] split: if_splits)

lemma loop_built:
  assumes "gives Q E"
  shows "Q l \<Longrightarrow> p_loop n E P rbp l ts = Inr (e, ts') \<Longrightarrow> Q e"
proof (induction n arbitrary: l ts)
  case (Suc n)
  note led = led_built [OF assms Suc.prems(1)]
  have step: "lbp_of P op = Some b \<Longrightarrow> p_led E P b l op rest = Inr (l', ts'') \<Longrightarrow>
      p_loop n E P rbp l' ts'' = Inr (e, ts') \<Longrightarrow> Q e" for op b rest l' ts''
    using led Suc.IH by blast
  from Suc.prems show ?case
    by (auto simp: res_simps split: list.splits tkind.splits option.splits if_splits dest: step)
qed simp

lemma args_built:
  assumes "gives Q E"
  shows "p_args n E ts = Inr (es, ts') \<Longrightarrow> list_all Q es"
proof (induction n arbitrary: ts es)
  case (Suc n)
  then obtain e ts1 where e: "E 0 ts = Inr (e, ts1)" by (cases "E 0 ts") auto
  note Qe = givesD [OF assms e]
  from Suc.prems e obtain t rest where "ts1 = t # rest" by (cases ts1) auto
  with Suc.prems e Qe Suc.IH [of rest] show ?case
    by (cases t) (auto simp: res_simps split: if_splits)
qed simp

lemma call_spectre_built: "call_spectre P f args pos = Inr e \<Longrightarrow> list_all Q args \<Longrightarrow> Q e"
  by (auto simp: call_spectre_def Q_call split: option.splits if_splits intro: Q_user)

lemma call_built:
  assumes "gives Q E" and "p_call n E P name pos ts = Inr (e, ts')"
  shows "Q e"
  using assms(2) unfolding p_call_def Let_def
  by (auto simp: res_simps Q_call split: list.splits if_splits
      dest!: args_built [OF assms(1)] call_spectre_built)

lemma nud_node_built: "nud_node P f nms pos = Inr e \<Longrightarrow> Q e"
  by (auto simp: nud_node_def Q_name list_all_iff split: sum.splits intro!: Q_call)

lemma nud_name_built: "nud_name P name pos = Inr e \<Longrightarrow> Q e"
  by (auto simp: nud_name_def Q_num Q_name split: option.splits sum.splits)

lemma nud_built:
  assumes "gives Q E" and "p_nud n E P ts = Inr (e, ts')"
  shows "Q e"
proof -
  note subs = givesD [OF assms(1)] call_built [OF assms(1)] nud_node_built nud_name_built
  show ?thesis
    using assms(2) unfolding p_nud_def
    by (auto simp: res_simps Q_num Q_str simp del: nud_unary.simps
        split: list.splits tkind.splits if_splits dest!: subs intro!: unary_built)
qed

lemma expr_built: "gives Q (p_expr n P)"
proof (induction n)
  case (Suc n)
  show ?case
    unfolding gives_def p_expr.simps
    by (auto simp: res_simps dest!: nud_built [OF Suc] loop_built [OF Suc, rotated])
qed (simp add: gives_def)

lemma parse_built: "parse_toks P ts = Inr e \<Longrightarrow> Q e"
proof -
  assume p: "parse_toks P ts = Inr e"
  then obtain r where r: "p_expr (fuel_for ts) P 0 ts = Inr r"
    by (cases "p_expr (fuel_for ts) P 0 ts") (auto simp: parse_toks_def split: list.splits if_splits)
  obtain e' ts' where e: "p_expr (fuel_for ts) P 0 ts = Inr (e', ts')" using r by (cases r) simp
  then have "e' = e" using p by (auto simp: parse_toks_def split: list.splits if_splits)
  then show ?thesis using givesD [OF expr_built e] by simp
qed

end

section \<open>The operators of a result have a level\<close>

definition levels :: "dialect \<Rightarrow> (string \<times> nat) list" where
  "levels d = (if d = Hspice then TPREC else SPECTRE_LBP)"

lemma ops_in_transform:
  "(\<And>x. ops_in t x \<Longrightarrow> ops_in t (fn x)) \<Longrightarrow> ops_in t e \<Longrightarrow> ops_in t (transform fn e)"
  by (induction e) (auto simp: list_all_iff)

lemma ops_in_substitute:
  assumes "ops_in t e" and "\<forall>x \<in> ran m. ops_in t x"
  shows "ops_in t (substitute e m)"
  unfolding substitute_def
  by (rule ops_in_transform [OF _ assms(1)]) (use assms(2) in \<open>auto simp: ranI split: expr.splits option.splits\<close>)

lemma ran_dict_zip: "ran (dict_zip params args) \<subseteq> set args"
  using ran_distinct set_zip_rightD by (fastforce simp: dict_zip_def ran_def dest!: map_of_SomeD)

definition funcs_ok :: "(string \<times> nat) list \<Rightarrow> fdefs \<Rightarrow> bool" where
  "funcs_ok t fs \<longleftrightarrow> (\<forall>(f, params, body) \<in> set fs. ops_in t body)"

lemma ops_in_user:
  "funcs_ok t fs \<Longrightarrow> map_of fs f = Some (params, body) \<Longrightarrow> list_all (ops_in t) args \<Longrightarrow>
   ops_in t (substitute body (dict_zip params args))"
  using ran_dict_zip [of params args]
  by (intro ops_in_substitute) (auto simp: funcs_ok_def list_all_iff dest!: map_of_SomeD)

locale levelled = fixes P :: pset and t :: "(string \<times> nat) list"
  assumes has_level: "lbp_of P op \<noteq> None \<Longrightarrow> map_of t op \<noteq> None"
    and funcs_level: "funcs_ok t (p_funcs P)"

sublocale levelled \<subseteq> built P "ops_in t"
  by unfold_locales (use has_level in \<open>auto simp: list_all_iff intro!: ops_in_user [OF funcs_level]\<close>)

definition parser_settings :: "case_mode \<Rightarrow> dialect \<Rightarrow> fdefs \<Rightarrow> libm \<Rightarrow> pset" where
  "parser_settings cs d fs lm = \<lparr>p_case = cs, p_dialect = d, p_funcs = fs, p_libm = lm\<rparr>"

lemma map_of_keys: "fst ` set xs \<subseteq> fst ` set ys \<Longrightarrow> map_of xs k \<noteq> None \<Longrightarrow> map_of ys k \<noteq> None"
  by (auto simp: map_of_eq_None_iff)

lemma table_keys:
  "fst ` set LBP \<subseteq> fst ` set TPREC" "fst ` set SPECTRE_LBP \<subseteq> fst ` set TPREC"
  by (simp_all add: LBP_def SPECTRE_LBP_def TPREC_def)

lemma levelled_settings:
  shows "funcs_ok (levels d) fs \<Longrightarrow> levelled (parser_settings cs d fs lm) (levels d)"
    and "funcs_ok TPREC fs \<Longrightarrow> levelled (parser_settings cs d fs lm) TPREC"
proof -
  have "lbp_of (parser_settings cs d fs lm) op \<noteq> None \<Longrightarrow>
      map_of (levels d) op \<noteq> None \<and> map_of TPREC op \<noteq> None" for op
    using table_keys [THEN map_of_keys, of op]
    by (simp add: lbp_of_def spectre_mode_def levels_def parser_settings_def split: if_splits)
  then show "funcs_ok (levels d) fs \<Longrightarrow> levelled (parser_settings cs d fs lm) (levels d)"
    and "funcs_ok TPREC fs \<Longrightarrow> levelled (parser_settings cs d fs lm) TPREC"
    by (simp_all add: levelled_def parser_settings_def)
qed

interpretation own: levelled "parser_settings cs d [] lm" "levels d" for cs d lm
  by (rule levelled_settings) (simp add: funcs_ok_def)

interpretation message: levelled "parser_settings cs d [] lm" TPREC for cs d lm
  by (rule levelled_settings) (simp add: funcs_ok_def)

lemma parse_expr_toks:
  "snd (parse_expr lm s cs d fs) = Inr e \<Longrightarrow>
   \<exists>ts. parse_toks (parser_settings cs d (case fs of None \<Rightarrow> [] | Some f \<Rightarrow> f) lm) ts = Inr e"
  by (auto simp: parse_expr_def Let_def parser_settings_def res_simps split: if_splits prod.splits)

section \<open>No message raises a KeyError\<close>

definition keyless :: "eval_err + 'a \<Rightarrow> bool" where
  "keyless m \<longleftrightarrow> (\<forall>k. m \<noteq> Inl (KeyErr k))"

definition keyless_raise :: "raised + 'a \<Rightarrow> bool" where
  "keyless_raise m \<longleftrightarrow> (\<forall>k. m \<noteq> Inl (Evl (KeyErr k)))"

lemma keyless_Inr [simp]: "keyless (Inr x)" "keyless_raise (Inr x)" "keyless_raise (mth m)"
  by (auto simp: keyless_def keyless_raise_def mth_def split: sum.splits)

lemma keyless_rbind: "keyless m \<Longrightarrow> (\<And>x. m = Inr x \<Longrightarrow> keyless (f x)) \<Longrightarrow> keyless (rbind m f)"
  by (cases m) (auto simp: keyless_def)

lemma keyless_if: "keyless m \<Longrightarrow> keyless n \<Longrightarrow> keyless (if b then m else n)"
  by simp

lemma keyless_err:
  "ops_in TPREC e \<Longrightarrow> (\<And>s k. c s \<noteq> KeyErr k) \<Longrightarrow> keyless (err_text c e :: eval_err + 'a)"
  using to_text_total [of Hspice e] by (auto simp: err_text_def keyless_def)

lemma keyless_evl: "keyless m \<Longrightarrow> keyless_raise (evl m)"
  by (cases m) (auto simp: keyless_def keyless_raise_def evl_def)

lemma keyless_catch: "keyless_raise m \<Longrightarrow> ops_in TPREC e \<Longrightarrow> keyless (catch_math e m)"
  by (auto simp: catch_math_def keyless_raise_def keyless_err split: sum.split raised.split)
    (auto simp: keyless_def)

lemma keyless_finite: "keyless r \<Longrightarrow> ops_in TPREC e \<Longrightarrow> keyless (finite_check e r)"
  unfolding finite_check_def by (intro keyless_rbind keyless_if keyless_err) auto

lemma keyless_bitwise: "ops_in TPREC e \<Longrightarrow> keyless (bitwise op x y e)"
  by (auto simp: bitwise_def keyless_err split: option.split)

lemma keyless_arith: "ops_in TPREC e \<Longrightarrow> keyless (arith_op lm op x y e)"
  unfolding arith_op_def
  by (intro keyless_if keyless_bitwise) (auto simp: keyless_err keyless_catch split: option.split)

lemma keyless_binary:
  "ops_in TPREC e \<Longrightarrow> keyless l \<Longrightarrow> keyless r \<Longrightarrow> keyless (ev_binary lm sp op e l r)"
  unfolding ev_binary_def by (intro keyless_if keyless_rbind keyless_arith) auto

lemma keyless_unary: "ops_in TPREC e \<Longrightarrow> keyless r \<Longrightarrow> keyless (ev_unary op e r)"
  unfolding ev_unary_def by (intro keyless_if keyless_rbind) (auto simp: keyless_err)

lemma keyless_rmap: "list_all keyless rs \<Longrightarrow> keyless (rmap id rs)"
  by (induction rs) (auto intro!: keyless_rbind)

lemma keyless_arity:
  "ops_in TPREC (Call f args) \<Longrightarrow> map_of FUNCS f \<noteq> None \<or> map_of EXTRA_FUNCS f \<noteq> None \<Longrightarrow>
   keyless (check_arity f args)"
  by (auto simp: check_arity_def arity_of_def keyless_err split: option.splits)

lemma keyless_extra: "ops_in TPREC e \<Longrightarrow> keyless_raise (apply_extra lm f a e)"
  by (auto simp: apply_extra_def keyless_err intro!: keyless_evl split: sum.split math_exc.split)

lemma keyless_log: "ops_in TPREC e \<Longrightarrow> keyless_raise (signed_log f x e)"
  by (auto simp: signed_log_def keyless_err intro!: keyless_evl)

lemma keyless_raise_if: "keyless_raise m \<Longrightarrow> keyless_raise n \<Longrightarrow> keyless_raise (if b then m else n)"
  by simp

lemma keyless_raise_rbind:
  "keyless_raise m \<Longrightarrow> (\<And>x. keyless_raise (f x)) \<Longrightarrow> keyless_raise (rbind m f)"
  by (cases m) (auto simp: keyless_raise_def)

lemma keyless_apply: "ops_in TPREC e \<Longrightarrow> keyless_raise (apply_func lm f a e)"
  unfolding apply_func_def
  by (cases "c_func lm f"; simp only: option.case)
    (intro keyless_Inr keyless_raise_if keyless_log keyless_raise_rbind keyless_evl keyless_err;
      simp add: keyless_raise_def)+

lemma keyless_domain: "ops_in TPREC e \<Longrightarrow> keyless (domain_check f a e)"
  unfolding domain_check_def by (intro keyless_if) (auto simp: keyless_err)

lemma keyless_call:
  assumes "ops_in TPREC (Call f args)" and "list_all keyless rs" and "length rs = length args"
  shows "keyless (ev_call lm sp f args rs)"
proof -
  have if3: "keyless (rs ! 0) \<and> keyless (rs ! 1) \<and> keyless (rs ! 2)"
    if "check_arity f args = Inr u" "f = ''if''" for u
    using if_arity [of args u] that assms(2, 3) by (simp add: list_all_length)
  note steps = keyless_rbind keyless_arity keyless_rmap keyless_catch keyless_extra keyless_apply
    keyless_domain assms(1, 2)
  show ?thesis
  proof (cases "node_func f \<or> (map_of EXTRA_FUNCS f = None \<and> map_of FUNCS f = None)")
    case True
    then show ?thesis using assms(1) by (auto simp: ev_call_def keyless_err) (auto simp: keyless_def)
  next
    case nf: False
    show ?thesis
    proof (cases "map_of EXTRA_FUNCS f = None")
      case False
      then show ?thesis using nf by (simp add: ev_call_def) (intro steps; simp)
    next
      case True
      let ?A = "rbind (rs ! 0) (\<lambda>c. if fnonzero c then rs ! 1 else rs ! 2)"
      let ?B = "rbind (rmap id rs) (\<lambda>a.
            rbind (if sp then domain_check f a (Call f args) else Inr ()) (\<lambda>_.
              catch_math (Call f args) (apply_func lm f a (Call f args))))"
      have B: "keyless ?B" by (intro steps keyless_if keyless_Inr)
      have A: "keyless ?A" if "check_arity f args = Inr u" "f = ''if''" for u
        using if3 [OF that] by (auto intro!: keyless_rbind)
      have "ev_call lm sp f args rs = rbind (check_arity f args) (\<lambda>_. if f = ''if'' then ?A else ?B)"
        unfolding ev_call_def using True nf by (simp only: if_False de_Morgan_disj simp_thms True)
      then show ?thesis
      proof (rule ssubst, intro keyless_rbind)
        show "keyless (check_arity f args)" using nf keyless_arity [OF assms(1)] by blast
        show "keyless (if f = ''if'' then ?A else ?B)" if "check_arity f args = Inr u" for u
          using A [OF that] B by (cases "f = ''if''") (simp_all only: if_True if_False simp_thms)
      qed
    qed
  qed
qed

lemma keyless_raw: "ops_in TPREC e \<Longrightarrow> keyless (raw lm sc sp e)"
proof (induction e)
  case (Name n)
  show ?case by (simp add: ev_name_def keyless_def split: option.split)
next
  case (Str s)
  then show ?case by (simp add: keyless_err)
next
  case (Ternary c a b)
  then show ?case by (auto intro!: keyless_rbind keyless_finite)
next
  case (Call f args)
  have "list_all keyless (map (ev lm sc sp) args)"
    using Call by (auto simp: list_all_iff ev_def intro!: keyless_finite)
  then show ?case using Call.prems unfolding raw.simps map2_check by (intro keyless_call) simp_all
qed (simp_all add: keyless_unary keyless_binary keyless_finite)

lemma keyless_ev: "ops_in TPREC e \<Longrightarrow> keyless (ev lm sc sp e)"
  unfolding ev_def by (intro keyless_finite keyless_raw)

end
