(* ===== verification/ExprPrint.thy ===== *)
theory ExprPrint
  imports ExprFold
begin

text \<open>
  Identifiers and the two engine printers of \<open>vamos/netlist/expr.py\<close>: \<open>param_ident\<close>,
  \<open>vacask_quote\<close>, the class \<open>_Printer\<close> and its subclasses for VACASK and Xyce. An engine is a value
  of \<open>engine\<close>, and a method that a subclass overrides is one definition that asks which engine it
  is. A printed fragment \<open>_F\<close> is a record of its text, the precedence of its outermost operator and
  its type. The caller's function for node names is the argument \<open>node_fn\<close> of the printer's
  settings.
\<close>

section \<open>Identifiers\<close>

datatype engine = Vacask | Xyce

definition XYCE_RESERVED :: "string list" where
  "XYCE_RESERVED = [''pi'', ''dt'', ''vt'', ''temp'', ''freq'', ''gmin'', ''exp'', ''ctok'', ''constctok'',
     ''poly'', ''time'', ''temper'', ''hertz'']"

definition VACASK_CONSTANTS :: "string list" where
  "VACASK_CONSTANTS = [''M_E'', ''M_LOG2E'', ''M_LOG10E'', ''M_LN2'', ''M_LN10'', ''M_PI'', ''M_TWO_PI'',
     ''M_PI_2'', ''M_PI_4'', ''M_1_PI'', ''M_2_PI'', ''M_2_SQRTPI'', ''M_SQRT2'', ''M_SQRT1_2'',
     ''M_DEGPERRAD'', ''P_Q'', ''P_C'', ''P_K'', ''P_H'', ''P_EPS0'', ''P_U0'', ''P_CELSIUS0'']"

definition VACASK_RESERVED :: "string list" where
  "VACASK_RESERVED = [''include'', ''section'', ''endsection'', ''load'', ''model'', ''global'', ''ground'',
     ''subckt'', ''ends'', ''parameters'', ''control'', ''endc'', ''analysis'', ''sweep'', ''embed'', ''save'']"

definition PARAM_PREFIX :: string where "PARAM_PREFIX = ''vamos_''"

definition param_ident :: "string \<Rightarrow> engine \<Rightarrow> string" where
  "param_ident name en = (case en of
     Xyce \<Rightarrow> if py_lower name \<in> set XYCE_RESERVED then PARAM_PREFIX @ name else name
   | Vacask \<Rightarrow> if name \<in> set VACASK_CONSTANTS then PARAM_PREFIX @ name else name)"

text \<open>\<open>_VACASK_ID\<close>; its \<open>$\<close> also matches before a final newline.\<close>

definition id_word :: "string \<Rightarrow> bool" where
  "id_word s \<longleftrightarrow> (case s of [] \<Rightarrow> False
     | c # r \<Rightarrow> (name_start c \<or> c = CHR ''$'') \<and> list_all (\<lambda>x. name_char x \<or> x = CHR ''$'') r)"

definition vacask_id :: "string \<Rightarrow> bool" where
  "vacask_id s \<longleftrightarrow> id_word s \<or> (s \<noteq> [] \<and> last s = CHR ''\<newline>'' \<and> id_word (butlast s))"

datatype print_err =
    BadIdentifier string
  | FoldFailed eval_err
  | TnomUnsubstituted
  | AccessUnsupported string
  | TimeInParameter
  | HertzUnsupported
  | StringInBehavioral string
  | NotHspiceOperator string string
  | BitwiseForm string string
  | NodeInParameter string
  | PUnknownFunction string
  | PArity string nat "nat option" nat string
  | NoForm string
  | BadLiteral num_err
  | Subnormal pyfloat
  | MathError math_exc
  | PKeyErr string
  | PAttributeError

definition bare_name :: "string \<Rightarrow> bool" where
  "bare_name name \<longleftrightarrow>
     (name \<noteq> [] \<and> list_all py_isdigit name \<and> (name = ''0'' \<or> hd name \<noteq> CHR ''0'')) \<or>
     (vacask_id name \<and> name \<notin> set VACASK_RESERVED)"

definition vacask_quote :: "string \<Rightarrow> print_err + string" where
  "vacask_quote name =
     (if bare_name name then Inr name
      else if CHR 0x27 \<in> set name \<or> name = [] then Inl (BadIdentifier name)
      else Inr (CHR 0x27 # name @ [CHR 0x27]))"

section \<open>Fragments\<close>

datatype ptyp = TReal | TInt

record frag =
  f_text :: string
  f_prec :: nat
  f_typ :: ptyp

definition ATOM :: nat where "ATOM = 100"
definition MUL :: nat where "MUL = 7"
definition ADD :: nat where "ADD = 6"
definition CMP :: nat where "CMP = 5"
definition LAND :: nat where "LAND = 3"
definition LOR :: nat where "LOR = 2"

definition mk_frag :: "string \<Rightarrow> nat \<Rightarrow> ptyp \<Rightarrow> frag" where
  "mk_frag t p ty = \<lparr>f_text = t, f_prec = p, f_typ = ty\<rparr>"

definition atom :: "string \<Rightarrow> frag" where
  "atom t = mk_frag t ATOM TReal"

record printer =
  p_engine :: engine
  p_beh :: bool
  p_node_fn :: "(string \<Rightarrow> string \<Rightarrow> string) option"

definition vacask :: "printer \<Rightarrow> bool" where
  "vacask P \<longleftrightarrow> p_engine P = Vacask"

definition paren :: "frag \<Rightarrow> nat \<Rightarrow> string" where
  "paren f minprec = (if f_prec f \<ge> minprec then f_text f else parens (f_text f))"

definition pval :: "printer \<Rightarrow> frag \<Rightarrow> frag" where
  "pval P f = (if vacask P \<and> f_typ f = TInt \<and> \<not> p_beh P then atom (''real('' @ f_text f @ '')'') else f)"

definition both_int :: "frag \<Rightarrow> frag \<Rightarrow> ptyp" where
  "both_int a b = (if f_typ a = TInt \<and> f_typ b = TInt then TInt else TReal)"

definition arith :: "printer \<Rightarrow> string \<Rightarrow> frag \<Rightarrow> frag \<Rightarrow> frag" where
  "arith P op l0 r0 =
     (let l1 = (if vacask P \<and> p_beh P \<and> f_typ l0 = TInt \<and> f_typ r0 = TInt
                then atom (''floor('' @ f_text l0 @ '')'') else l0);
          p = (if op = ''*'' \<or> op = ''/'' then MUL else ADD);
          l = pval P l1; r = pval P r0
      in mk_frag (paren l p @ op @ paren r (p + 1)) p (both_int l r))"

definition cmp :: "string \<Rightarrow> frag \<Rightarrow> frag \<Rightarrow> frag" where
  "cmp op l r = mk_frag (paren l ADD @ op @ paren r ADD) CMP TInt"

definition logic :: "string \<Rightarrow> frag \<Rightarrow> frag \<Rightarrow> frag" where
  "logic op l r = mk_frag (paren l CMP @ op @ paren r CMP) (if op = ''&&'' then LAND else LOR) TInt"

definition tern :: "printer \<Rightarrow> frag \<Rightarrow> frag \<Rightarrow> frag \<Rightarrow> frag" where
  "tern P c a0 b0 =
     (let a = pval P a0; b = pval P b0
      in mk_frag (''('' @ paren c CMP @ '' ? '' @ paren a CMP @ '' : '' @ paren b CMP @ '')'') ATOM (both_int a b))"

definition neg :: "printer \<Rightarrow> frag \<Rightarrow> frag" where
  "neg P g = (let f = pval P g in mk_frag (''(-'' @ paren f ATOM @ '')'') ATOM (f_typ f))"

definition call_typ :: "printer \<Rightarrow> string \<Rightarrow> frag list \<Rightarrow> ptyp \<Rightarrow> frag" where
  "call_typ P func args ty = mk_frag (func @ ''('' @ py_join '', '' (map (\<lambda>a. f_text (pval P a)) args) @ '')'') ATOM ty"

definition pcall :: "printer \<Rightarrow> string \<Rightarrow> frag list \<Rightarrow> frag" where
  "pcall P func args = call_typ P func args TReal"

type_synonym pres = "print_err + frag"

definition fmt_lit :: "pyfloat \<Rightarrow> print_err + string" where
  "fmt_lit v = (case fmt v of Inl e \<Rightarrow> Inl (BadLiteral e) | Inr s \<Rightarrow> Inr s)"

definition base_num :: "pyfloat \<Rightarrow> pres" where
  "base_num v = rbind (fmt_lit v) (\<lambda>s. Inr (if py_startswith s ''-'' then atom (parens s) else atom s))"

definition BIG :: pyfloat where "BIG = flit 2147483648"
definition EXACT_HALF :: pyfloat where "EXACT_HALF = flit 4503599627370496"
definition TWO30 :: pyfloat where "TWO30 = flit 1073741824"
definition TINY :: pyfloat where "TINY = float_dec ''1'' (-300)"
definition MIN_NORMAL :: pyfloat where "MIN_NORMAL = float_dec ''2.2250738585072014'' (-308)"
definition E17 :: pyfloat where "E17 = float_dec ''1'' 17"

definition ptrunc :: "pyfloat \<Rightarrow> print_err + pyfloat" where
  "ptrunc v = (case trunc_f v of Inl e \<Rightarrow> Inl (MathError e) | Inr t \<Rightarrow> Inr t)"

definition minus_half :: "string \<Rightarrow> string" where
  "minus_half s = ''('' @ s @ ''-0.5)''"

text \<open>VACASK's behavioral literals: the ones too large for a 32-bit integer are spelt as a sum or a product.\<close>

definition vacask_beh_num :: "pyfloat \<Rightarrow> pres" where
  "vacask_beh_num v = rbind (ptrunc v) (\<lambda>tv.
     let integral = feq v tv \<and> flt (fabs v) E17 in
     if \<not> integral \<or> flt (fabs v) BIG then
       rbind (base_num v) (\<lambda>f. Inr (f\<lparr>f_typ := (if integral then TInt else TReal)\<rparr>))
     else if flt (fabs v) EXACT_HALF then
       rbind (fmt_lit (fadd v half)) (\<lambda>s. Inr (atom (minus_half s)))
     else
       (let r = fdiv v TWO30 in
        rbind (ptrunc r) (\<lambda>tr.
          rbind (if feq r tr then rbind (fmt_lit (fadd r half)) (\<lambda>s. Inr (minus_half s)) else fmt_lit r) (\<lambda>rt.
            rbind (fmt_lit TWO30) (\<lambda>s30. Inr (atom (''('' @ rt @ ''*'' @ s30 @ '')'')))))))"

definition num :: "printer \<Rightarrow> pyfloat \<Rightarrow> pres" where
  "num P v =
     (if vacask P then
        (if fnonzero v \<and> flt (fabs v) MIN_NORMAL then Inl (Subnormal v)
         else if \<not> p_beh P then base_num v else vacask_beh_num v)
      else base_num v)"

section \<open>The forms\<close>

text \<open>Fragments in a result, so that the forms read as in the code.\<close>

definition lift2 :: "('a \<Rightarrow> 'b \<Rightarrow> 'c) \<Rightarrow> 'e + 'a \<Rightarrow> 'e + 'b \<Rightarrow> 'e + 'c" where
  "lift2 f a b = rbind a (\<lambda>x. rbind b (\<lambda>y. Inr (f x y)))"

definition lift3 :: "('a \<Rightarrow> 'b \<Rightarrow> 'c \<Rightarrow> 'd) \<Rightarrow> 'e + 'a \<Rightarrow> 'e + 'b \<Rightarrow> 'e + 'c \<Rightarrow> 'e + 'd" where
  "lift3 f a b c = rbind a (\<lambda>x. rbind b (\<lambda>y. rbind c (\<lambda>z. Inr (f x y z))))"

definition S_form :: "printer \<Rightarrow> frag \<Rightarrow> pres" where
  "S_form P x =
     (if vacask P then
        rbind (num P f0) (\<lambda>zero. rbind (num P f1) (\<lambda>one. rbind (num P (fneg f1)) (\<lambda>mone.
          Inr (tern P (cmp ''>'' x zero) one (tern P (cmp ''<'' x zero) mone zero)))))
      else Inr (pcall P ''sgn'' [x]))"

definition ceil_form :: "printer \<Rightarrow> frag \<Rightarrow> frag" where
  "ceil_form P x =
     (if vacask P \<and> p_beh P then neg P (pcall P ''floor'' [neg P x]) else pcall P ''ceil'' [x])"

definition T_form :: "printer \<Rightarrow> frag \<Rightarrow> pres" where
  "T_form P y =
     (if vacask P \<and> \<not> p_beh P then Inr (pcall P ''integer'' [y])
      else rbind (num P f0) (\<lambda>zero. Inr (tern P (cmp ''>='' y zero) (pcall P ''floor'' [y]) (ceil_form P y))))"

definition nint_form :: "printer \<Rightarrow> frag \<Rightarrow> pres" where
  "nint_form P x =
     (if \<not> vacask P then Inr (pcall P ''nint'' [x])
      else if \<not> p_beh P then Inr (pcall P ''round'' [x])
      else rbind (num P half) (\<lambda>h. rbind (num P f0) (\<lambda>zero.
        Inr (tern P (cmp ''>='' x zero) (pcall P ''floor'' [arith P ''+'' x h])
               (neg P (pcall P ''floor'' [arith P ''+'' (neg P x) h]))))))"

definition atan2_form :: "printer \<Rightarrow> frag \<Rightarrow> frag \<Rightarrow> pres" where
  "atan2_form P y x =
     (if \<not> vacask P \<or> p_beh P then Inr (pcall P ''atan2'' [y, x])
      else
        rbind (num P f0) (\<lambda>zero. rbind (num P math_pi) (\<lambda>pi.
          rbind (num P (fdiv math_pi (flit 2))) (\<lambda>hpi. rbind (num P (fdiv (fneg math_pi) (flit 2))) (\<lambda>mhpi.
            let ang = pcall P ''atan'' [arith P ''/'' y x] in
            Inr (tern P (cmp ''>'' x zero) ang
              (tern P (cmp ''<'' x zero)
                 (tern P (cmp ''>='' y zero) (arith P ''+'' ang pi) (arith P ''-'' ang pi))
                 (tern P (cmp ''>'' y zero) hpi (tern P (cmp ''<'' y zero) mhpi zero)))))))))"

definition abs_form :: "printer \<Rightarrow> frag \<Rightarrow> frag" where
  "abs_form P x = call_typ P ''abs'' [x] (if vacask P \<and> p_beh P \<and> f_typ x = TInt then TInt else TReal)"

definition minmax :: "printer \<Rightarrow> string \<Rightarrow> frag list \<Rightarrow> frag" where
  "minmax P func args =
     foldl (\<lambda>f a. call_typ P func [f, a]
              (if vacask P \<and> p_beh P then both_int f a else TReal)) (hd args) (tl args)"

definition guard :: "printer \<Rightarrow> frag \<Rightarrow> pres" where
  "guard P a = (if p_beh P then rbind (num P TINY) (\<lambda>t. Inr (pcall P ''max'' [a, t])) else Inr a)"

definition not_form :: "printer \<Rightarrow> frag \<Rightarrow> frag" where
  "not_form P x =
     (if vacask P then mk_frag (''(!'' @ paren x ATOM @ '')'') ATOM TInt
      else mk_frag (''('' @ paren x ADD @ ''==0.0)'') ATOM TReal)"

definition temper_form :: "printer \<Rightarrow> frag" where
  "temper_form P = atom (if vacask P then ''$temp'' else ''temp'')"

definition tnom_form :: "printer \<Rightarrow> pres" where
  "tnom_form P = (if vacask P then Inr (atom ''$tnom'') else Inl TnomUnsubstituted)"

definition time_form :: "printer \<Rightarrow> frag" where
  "time_form P = atom (if vacask P then ''$abstime'' else ''time'')"

definition hypot_form :: "printer \<Rightarrow> frag \<Rightarrow> frag \<Rightarrow> frag" where
  "hypot_form P x y =
     (if vacask P then pcall P ''hypot'' [x, y]
      else pcall P ''sqrt'' [arith P ''+'' (arith P ''*'' x x) (arith P ''*'' y y)])"

definition dots_to_colons :: "string \<Rightarrow> string" where
  "dots_to_colons s = map (\<lambda>c. if c = CHR ''.'' then CHR '':'' else c) s"

definition node_text :: "printer \<Rightarrow> string \<Rightarrow> string \<Rightarrow> print_err + string" where
  "node_text P kind name = (case p_node_fn P of
     Some f \<Rightarrow> Inr (f kind name)
   | None \<Rightarrow> if vacask P then vacask_quote (dots_to_colons name) else Inr (dots_to_colons name))"

definition perr_text :: "(string \<Rightarrow> print_err) \<Rightarrow> expr \<Rightarrow> dialect \<Rightarrow> print_err + 'a" where
  "perr_text c e d = (case to_text e d of Inl op \<Rightarrow> Inl (PKeyErr op) | Inr s \<Rightarrow> Inl (c s))"

definition arg_name :: "expr \<Rightarrow> print_err + string" where
  "arg_name e = (case e of Name n \<Rightarrow> Inr n | _ \<Rightarrow> Inl PAttributeError)"

definition access :: "printer \<Rightarrow> string \<Rightarrow> expr list \<Rightarrow> pres" where
  "access P f args =
     (if f = ''v'' \<and> (length args = 1 \<or> length args = 2) then
        rbind (rmap (\<lambda>a. rbind (arg_name a) (node_text P ''v'')) args) (\<lambda>ns.
          Inr (atom (''v('' @ py_join '','' ns @ '')'')))
      else if f = ''i'' \<and> length args = 1 then
        rbind (arg_name (args ! 0)) (\<lambda>n. rbind (node_text P ''i'' n) (\<lambda>s. Inr (atom (''i('' @ s @ '')''))))
      else perr_text AccessUnsupported (Call f args) Hspice)"

section \<open>The walk\<close>

definition SAME_NAME :: "string list" where
  "SAME_NAME = [''sin'', ''cos'', ''tan'', ''asin'', ''acos'', ''atan'', ''sinh'', ''cosh'', ''tanh'',
     ''asinh'', ''acosh'', ''atanh'', ''exp'', ''floor'']"

definition p_name :: "printer \<Rightarrow> string \<Rightarrow> pres" where
  "p_name P n =
     (if n = ''temper'' then Inr (temper_form P)
      else if n = ''$tnom'' then tnom_form P
      else if n = ''time'' then (if \<not> p_beh P then Inl TimeInParameter else Inr (time_form P))
      else if n = ''hertz'' then Inl HertzUnsupported
      else Inr (atom (param_ident n (p_engine P))))"

text \<open>
  \<open>pow_t\<close>, \<open>power\<close> and \<open>cpow\<close>. Each takes the operands' expressions, for the constant cases, and
  what the walk prints for them.
\<close>

definition pow_t :: "printer \<Rightarrow> frag \<Rightarrow> expr \<Rightarrow> pres \<Rightarrow> bool \<Rightarrow> pres" where
  "pow_t P x yast y x_nonzero = (case yast of
     Num v \<Rightarrow> rbind (ptrunc v) (\<lambda>t.
       if feq t f0 then num P f1 else rbind (num P t) (\<lambda>nt. Inr (pcall P ''pow'' [x, nt])))
   | _ \<Rightarrow> rbind y (\<lambda>yf. rbind (T_form P yf) (\<lambda>ty.
       let xt = pcall P ''pow'' [x, ty] in
       if x_nonzero then Inr xt
       else rbind (num P f0) (\<lambda>zero. rbind (num P f1) (\<lambda>one.
         Inr (tern P (cmp ''=='' ty zero) one xt))))))"

definition p_power_general :: "printer \<Rightarrow> frag \<Rightarrow> frag \<Rightarrow> expr \<Rightarrow> pres \<Rightarrow> pres" where
  "p_power_general P x zero yast y =
     rbind y (\<lambda>yf. rbind (pow_t P x yast y True) (\<lambda>xt.
       Inr (tern P (cmp ''>'' x zero) (pcall P ''pow'' [x, yf]) (tern P (cmp ''<'' x zero) xt zero))))"

definition p_power :: "printer \<Rightarrow> expr \<Rightarrow> expr \<Rightarrow> pres \<Rightarrow> pres \<Rightarrow> pres" where
  "p_power P xast yast xr y =
     rbind xr (\<lambda>x. rbind (num P f0) (\<lambda>zero.
       case yast of
         Num v \<Rightarrow> rbind (ptrunc v) (\<lambda>t.
           if feq v t then
             rbind (num P v) (\<lambda>nv. let xy = pcall P ''pow'' [x, nv] in
               Inr (if flt f0 v then xy else tern P (cmp ''=='' x zero) zero xy))
           else p_power_general P x zero yast y)
       | _ \<Rightarrow>
           (case xast of
              Num c \<Rightarrow>
                if flt f0 c then rbind y (\<lambda>yf. Inr (pcall P ''pow'' [x, yf]))
                else if flt c f0 then pow_t P x yast y True else Inr zero
            | _ \<Rightarrow> p_power_general P x zero yast y)))"

definition cpow :: "printer \<Rightarrow> expr \<Rightarrow> expr \<Rightarrow> pres \<Rightarrow> pres \<Rightarrow> pres" where
  "cpow P xast yast xr y = (case yast of
     Num v \<Rightarrow> if feq v f0 then num P f1
             else rbind xr (\<lambda>x. rbind (num P v) (\<lambda>nv. Inr (pcall P ''pow'' [x, nv])))
   | _ \<Rightarrow>
       if (case xast of Num c \<Rightarrow> fnonzero c | _ \<Rightarrow> False)
       then lift2 (\<lambda>x yf. pcall P ''pow'' [x, yf]) xr y
       else rbind y (\<lambda>yf. rbind (num P f0) (\<lambda>zero. rbind (num P f1) (\<lambda>one. rbind xr (\<lambda>x.
              Inr (tern P (cmp ''=='' yf zero) one (pcall P ''pow'' [x, yf])))))))"

definition pcheck_arity :: "string \<Rightarrow> expr list \<Rightarrow> print_err + unit" where
  "pcheck_arity f args = (case arity_of f of
     None \<Rightarrow> Inl (PKeyErr f)
   | Some (lo, hi) \<Rightarrow>
       if length args < lo \<or> (case hi of None \<Rightarrow> False | Some h \<Rightarrow> h < length args)
       then perr_text (PArity f lo hi (length args)) (Call f args) Hspice else Inr ())"

text \<open>The functions of signed argument: \<open>S(x)\<close> times a form of the guarded absolute value.\<close>

definition signed_form :: "printer \<Rightarrow> frag list \<Rightarrow> (frag \<Rightarrow> pres) \<Rightarrow> pres" where
  "signed_form P a form =
     rbind (guard P (abs_form P (a ! 0))) (\<lambda>ax.
       rbind (S_form P (a ! 0)) (\<lambda>s. rbind (form ax) (\<lambda>r. Inr (arith P ''*'' s r))))"

definition p_builtin :: "printer \<Rightarrow> string \<Rightarrow> frag list \<Rightarrow> pres" where
  "p_builtin P f a =
     (if f \<in> set SAME_NAME then Inr (pcall P f a)
      else if f = ''abs'' then Inr (abs_form P (a ! 0))
      else if f = ''ceil'' then Inr (ceil_form P (a ! 0))
      else if f = ''min'' \<or> f = ''dmin'' then Inr (minmax P ''min'' a)
      else if f = ''max'' \<or> f = ''dmax'' then Inr (minmax P ''max'' a)
      else if f = ''limit'' then Inr (minmax P ''min'' [minmax P ''max'' (take 2 a), a ! 2])
      else if f = ''int'' \<or> f = ''trunc'' then T_form P (a ! 0)
      else if f = ''nint'' then nint_form P (a ! 0)
      else if f = ''sgn'' \<or> (f = ''sign'' \<and> length a = 1) then S_form P (a ! 0)
      else if f = ''sign'' then rbind (S_form P (a ! 1)) (\<lambda>s. Inr (arith P ''*'' (abs_form P (a ! 0)) s))
      else if f = ''atan2'' then atan2_form P (a ! 0) (a ! 1)
      else if f = ''pwr'' then signed_form P a (\<lambda>ax. Inr (pcall P ''pow'' [ax, a ! 1]))
      else if f = ''sqrt'' then signed_form P a (\<lambda>ax. Inr (pcall P ''sqrt'' [ax]))
      else if f = ''log'' \<or> f = ''ln'' then signed_form P a (\<lambda>ax. Inr (pcall P ''ln'' [ax]))
      else if f = ''log10'' then signed_form P a (\<lambda>ax. Inr (pcall P ''log10'' [ax]))
      else if f = ''db'' then signed_form P a (\<lambda>ax.
             rbind (num P (flit 20)) (\<lambda>c. Inr (arith P ''*'' c (pcall P ''log10'' [ax]))))
      else Inl (NoForm f))"

text \<open>\<open>func\<close>: \<open>rs\<close> are the results of the arguments, looked at where the code prints them.\<close>

definition p_func :: "printer \<Rightarrow> string \<Rightarrow> expr list \<Rightarrow> pres list \<Rightarrow> pres" where
  "p_func P f args rs =
     (if map_of EXTRA_FUNCS f \<noteq> None then
        rbind (pcheck_arity f args) (\<lambda>_.
          if f = ''cpow'' then cpow P (args ! 0) (args ! 1) (rs ! 0) (rs ! 1)
          else rbind (rmap id rs) (\<lambda>a.
            Inr (if f = ''hypot'' then hypot_form P (a ! 0) (a ! 1) else pcall P ''fmod'' a)))
      else if map_of FUNCS f = None then Inl (PUnknownFunction f)
      else rbind (pcheck_arity f args) (\<lambda>_.
        if f \<in> set NOMINAL \<or> (f = ''limit'' \<and> length args = 2) then
          rbind (rmap id (tl rs)) (\<lambda>_. rs ! 0)
        else if f = ''if'' then lift3 (tern P) (rs ! 0) (rs ! 1) (rs ! 2)
        else if f = ''pow'' then rbind (rs ! 0) (\<lambda>x. pow_t P x (args ! 1) (rs ! 1) False)
        else rbind (rmap id rs) (p_builtin P f)))"

definition p_binary :: "printer \<Rightarrow> string \<Rightarrow> expr \<Rightarrow> expr \<Rightarrow> pres \<Rightarrow> pres \<Rightarrow> pres" where
  "p_binary P op xast yast xr yr =
     (if op = ''**'' \<or> op = ''^'' then p_power P xast yast xr yr
      else rbind xr (\<lambda>l. rbind yr (\<lambda>r.
        if op \<in> {''+'', ''-'', ''*'', ''/''} then Inr (arith P op l r)
        else if op \<in> {''=='', ''!='', ''<'', ''<='', ''>'', ''>=''} then Inr (cmp op l r)
        else if op \<in> {''&&'', ''||''} then Inr (logic op l r)
        else if op \<in> set BITWISE then perr_text (BitwiseForm op) (Binary op xast yast) Spectre
        else perr_text (NotHspiceOperator op) (Binary op xast yast) Hspice)))"

definition p_unary :: "printer \<Rightarrow> string \<Rightarrow> expr \<Rightarrow> pres \<Rightarrow> pres" where
  "p_unary P op arg r =
     (if op = ''-'' then rbind r (\<lambda>f. Inr (neg P f))
      else if op = ''+'' then r
      else if op = ''!'' then rbind r (\<lambda>f. Inr (not_form P f))
      else perr_text (NotHspiceOperator op) (Unary op arg) Hspice)"

primrec p_walk :: "printer \<Rightarrow> expr \<Rightarrow> pres" where
  "p_walk P (Num v) = num P v"
| "p_walk P (Name n) = p_name P n"
| "p_walk P (Str s) = (if p_beh P then perr_text StringInBehavioral (Str s) Hspice
                  else Inr (atom (CHR 0x22 # s @ [CHR 0x22])))"
| "p_walk P (Unary op a) = p_unary P op a (p_walk P a)"
| "p_walk P (Ternary c a b) = lift3 (tern P) (p_walk P c) (p_walk P a) (p_walk P b)"
| "p_walk P (Binary op l r) = p_binary P op l r (p_walk P l) (p_walk P r)"
| "p_walk P (Call f args) =
     (if node_func f then
        (if \<not> p_beh P then perr_text NodeInParameter (Call f args) Hspice else access P f args)
      else p_func P f args (map (p_walk P) args))"

text \<open>\<open>whole\<close>: VACASK's wholly constant behavioral expressions.\<close>

definition whole :: "printer \<Rightarrow> expr \<Rightarrow> string \<Rightarrow> print_err + string" where
  "whole P ast text = (case ast of
     Num v \<Rightarrow>
       if vacask P \<and> p_beh P then
         rbind (ptrunc v) (\<lambda>t.
           Inr (if feq v t \<and> fle BIG (fabs v) \<and> flt (fabs v) E17 then text @ ''+0.0*$abstime'' else text))
       else Inr text
   | _ \<Rightarrow> Inr text)"

definition emit :: "libm \<Rightarrow> printer \<Rightarrow> expr \<Rightarrow> print_err + string" where
  "emit lm P ast = (case fold_expr lm ast Map.empty True of
     Inl (KeyErr k) \<Rightarrow> Inl (PKeyErr k)
   | Inl e \<Rightarrow> Inl (FoldFailed e)
   | Inr ast' \<Rightarrow> rbind (p_walk P ast') (\<lambda>f. whole P ast' (f_text (pval P f))))"

definition to_vacask :: "libm \<Rightarrow> expr \<Rightarrow> bool \<Rightarrow> (string \<Rightarrow> string \<Rightarrow> string) option \<Rightarrow> print_err + string" where
  "to_vacask lm ast beh node = emit lm \<lparr>p_engine = Vacask, p_beh = beh, p_node_fn = node\<rparr> ast"

definition to_xyce :: "libm \<Rightarrow> expr \<Rightarrow> bool \<Rightarrow> (string \<Rightarrow> string \<Rightarrow> string) option \<Rightarrow> print_err + string" where
  "to_xyce lm ast beh node = emit lm \<lparr>p_engine = Xyce, p_beh = beh, p_node_fn = node\<rparr> ast"

section \<open>Identifiers: properties\<close>

text \<open>A quoted name reads back: bare names are the identifiers, and the others are between quotes.\<close>

lemma vacask_quote_inj:
  "vacask_quote a = Inr s \<Longrightarrow> vacask_quote b = Inr s \<Longrightarrow> a = b"
proof -
  have q: "\<not> bare_name (CHR 0x27 # x)" for x
    by (cases x rule: rev_cases) (auto simp: bare_name_def vacask_id_def id_word_def char_simps butlast_append
        split: list.splits if_splits)
  assume "vacask_quote a = Inr s" "vacask_quote b = Inr s"
  then show ?thesis using q by (auto simp: vacask_quote_def split: if_splits)
qed

lemma param_ident_plain:
  "(case en of Xyce \<Rightarrow> py_lower n \<notin> set XYCE_RESERVED | Vacask \<Rightarrow> n \<notin> set VACASK_CONSTANTS) \<Longrightarrow>
   param_ident n en = n"
  by (cases en) (simp_all add: param_ident_def)

lemma param_ident_never_reserved:
  "py_lower (param_ident n Xyce) \<notin> set XYCE_RESERVED" "param_ident n Vacask \<notin> set VACASK_CONSTANTS"
proof -
  have "PARAM_PREFIX @ n \<notin> set VACASK_CONSTANTS"
    by (simp add: PARAM_PREFIX_def VACASK_CONSTANTS_def)
  then show "param_ident n Vacask \<notin> set VACASK_CONSTANTS" by (simp add: param_ident_def)
  have "py_lower (PARAM_PREFIX @ n) \<notin> set XYCE_RESERVED"
    by (simp add: PARAM_PREFIX_def XYCE_RESERVED_def lower_char_def code_in_def)
  then show "py_lower (param_ident n Xyce) \<notin> set XYCE_RESERVED" by (simp add: param_ident_def)
qed

end
