(* ===== verification/ExprProps.thy ===== *)
theory ExprProps
  imports ExprReads ExprPrint
begin

text \<open>
  The properties of the expression module: number literals, parsing, printing, folding,
  substitution, inlining and evaluation. Each section first proves what its properties rest on.
\<close>

section \<open>Evaluating the lexer and the parser on a text\<close>




section \<open>Number literals\<close>

lemma read_exp_marks:
  assumes "read_exp ''eEdD'' r \<noteq> read_exp ''eE'' r"
  shows "\<exists>c t. r = c # t \<and> (c = CHR ''d'' \<or> c = CHR ''D'') \<and> read_exp ''eE'' r = (None, r) \<and>
           t \<noteq> [] \<and> (re_digit (hd t) \<or> hd t = CHR ''+'' \<or> hd t = CHR ''-'')"
proof (cases r)
  case (Cons c t)
  have c: "c = CHR ''d'' \<or> c = CHR ''D''"
  proof (rule ccontr)
    assume "\<not> ?thesis"
    then have "read_exp ''eEdD'' r = read_exp ''eE'' r" using Cons by (simp add: read_exp_def)
    then show False using assms by simp
  qed
  have n: "read_exp ''eE'' r = (None, r)" using c Cons by (auto simp: read_exp_def)
  have "t \<noteq> [] \<and> (re_digit (hd t) \<or> hd t = CHR ''+'' \<or> hd t = CHR ''-'')"
  proof (rule ccontr)
    assume a: "\<not> ?thesis"
    then have "read_exp ''eEdD'' r = (None, r)"
      using c Cons by (cases t) (auto simp: read_exp_def py_span_def)
    then show False using assms n by simp
  qed
  with Cons c n show ?thesis by blast
qed (use assms in \<open>simp add: read_exp_def\<close>)

lemma match_number_marks:
  assumes "match_number ''eE'' name_start s = Some m"
  shows "match_number ''eEdD'' name_start s = Some m"
proof -
  obtain mant r where m: "read_mant (dropWhile re_space s) = Some (mant, r)"
    using assms by (auto simp: match_number_def split: option.splits)
  have "read_exp ''eEdD'' r = read_exp ''eE'' r"
  proof (rule ccontr)
    assume "\<not> ?thesis"
    then obtain c t where r: "r = c # t" "c = CHR ''d'' \<or> c = CHR ''D''" "read_exp ''eE'' r = (None, r)"
        "t \<noteq> []" "re_digit (hd t) \<or> hd t = CHR ''+'' \<or> hd t = CHR ''-''"
      using read_exp_marks by blast
    then have "\<not> name_start (hd t)" "\<not> re_space (hd t)" by (auto simp: char_simps)
    moreover have "name_start c" using r(2) by (auto simp: char_simps)
    ultimately have "read_tail name_start r = ([c], t)" "\<not> list_all re_space t"
      using r(1, 4) by (cases t; simp add: read_tail_def py_span_def)+
    then show False using assms m r(3) by (simp add: match_number_def)
  qed
  then show ?thesis using assms m by (simp add: match_number_def)
qed

text \<open>C10: every text the netlist's plain number reader accepts is read by the expression reader as
  the same double, without a warning.\<close>

theorem number_reads_parse_number:
  assumes "parse_number s = Inr x"
  shows "number s Hspice = Inr (x, [])"
proof -
  obtain m where m: "match_number ''eE'' name_start s = Some m"
    using assms by (auto simp: parse_number_def split: option.splits)
  show ?thesis
    using assms m match_number_marks [OF m]
    by (cases m) (simp add: number_def number_hspice_def parse_number_def)
qed

theorem number_reads_parse_number_witness:
  "number ''2.5k'' Hspice = Inr (float_dec ''2.5'' 3, [])"
  by (rule number_reads_parse_number)
    (simp add: parse_number_def match_number_def read_mant_def read_mag_def read_exp_def read_tail_def
      py_span_def char_simps exp_value_def scaled_def SCALES_def lower_char_def py_lower_def)

section \<open>Folding\<close>

definition stuck :: "libm \<Rightarrow> expr \<Rightarrow> bool" where
  "stuck lm x \<longleftrightarrow> (foldable x \<longrightarrow> (\<exists>err. evaluate lm x Map.empty Hspice = Inl err))"

definition all_stuck :: "libm \<Rightarrow> expr \<Rightarrow> bool" where
  "all_stuck lm e \<longleftrightarrow> (\<forall>x \<in> set (preorder e). stuck lm x)"

lemma all_stuck_push: "all_stuck lm e \<longleftrightarrow> stuck lm e \<and> (\<forall>c \<in> set (walk_push e). all_stuck lm c)"
  unfolding all_stuck_def by (subst preorder_push) auto

lemma all_stuck_Num [simp]: "all_stuck lm (Num v)"
  by (simp add: all_stuck_def stuck_def foldable_def)

lemma fold_constant_stuck:
  assumes "fold_constant lm e = Inr e'" and "\<forall>c \<in> set (walk_push e). all_stuck lm c"
  shows "all_stuck lm e'"
proof (cases "e' = e")
  case True
  then have "stuck lm e" using assms(1)
    by (auto simp: fold_constant_def stuck_def foldable_def split: sum.splits if_splits)
  then show ?thesis using True assms(2) by (subst all_stuck_push) simp
next
  case False
  then obtain v where "e' = Num v" using assms(1)
    by (auto simp: fold_constant_def split: sum.splits if_splits)
  then show ?thesis by simp
qed

lemma fold_node_stuck:
  assumes "fold_node lm sc e = Inr e'" and "\<forall>c \<in> set (walk_push e). all_stuck lm c"
  shows "all_stuck lm e'"
proof (cases e)
  case (Name n)
  then show ?thesis using assms(1)
    by (auto simp: fold_param_def all_stuck_push [of lm "Name n"] stuck_def foldable_def split: option.splits)
next
  case (Ternary c a b)
  then show ?thesis using assms by (auto dest: fold_constant_stuck split: if_splits)
next
  case (Call f args)
  show ?thesis
  proof (cases "f = ''if'' \<and> length args = 3 \<and> known (args ! 0)")
    case True
    then have "e' \<in> set args" using assms(1) Call by (auto intro!: nth_mem)
    then show ?thesis using assms(2) Call True if_not_extra by simp
  next
    case False
    then have "fold_constant lm e = Inr e'" using assms(1) Call by (simp only: fold_node.simps if_False)
    then show ?thesis using assms(2) by (rule fold_constant_stuck)
  qed
next
  case (Binary op l r)
  show ?thesis
  proof (cases "(op = ''&&'' \<or> op = ''||'') \<and> known l")
    case True
    then consider v where "e' = Num v" | "e' = e" "\<not> known r"
      using assms(1) Binary by (auto split: if_splits)
    then show ?thesis
    proof cases
      case 2
      then have "stuck lm e" using Binary by (simp add: stuck_def foldable_def)
      then show ?thesis using assms(2) 2 by (subst all_stuck_push) simp
    qed simp
  next
    case False
    then have "fold_constant lm e = Inr e'" using assms(1) Binary by (simp only: fold_node.simps if_False)
    then show ?thesis using assms(2) by (rule fold_constant_stuck)
  qed
qed (use assms fold_constant_stuck in auto)

lemma fold_tree_stuck: "transform_r (fold_node lm sc) e = Inr e' \<Longrightarrow> all_stuck lm e'"
proof (induction e arbitrary: e')
  case (Call f args)
  show ?case
  proof (cases "node_func f")
    case True
    then show ?thesis using Call.prems fold_node_stuck [of lm sc "Call f args"] by simp
  next
    case False
    then obtain args' where as: "rmap (transform_r (fold_node lm sc)) args = Inr args'"
        and f: "fold_node lm sc (Call f args') = Inr e'"
      using Call.prems by (auto simp: res_simps)
    have "all_stuck lm (args' ! i)" if "i < length args'" for i
      using as Call.IH [of "args ! i" "args' ! i"] that by (simp add: rmap_Inr_iff list_all2_conv_all_nth)
    then have "\<forall>c \<in> set args'. all_stuck lm c" by (auto simp: in_set_conv_nth)
    then show ?thesis using fold_node_stuck [OF f] False by simp
  qed
next
  case (Unary op a)
  then obtain a' where "transform_r (fold_node lm sc) a = Inr a'" "fold_node lm sc (Unary op a') = Inr e'"
    by (auto simp: res_simps)
  then show ?case using fold_node_stuck [of lm sc "Unary op a'"] Unary.IH by simp
next
  case (Binary op l r)
  then obtain l' r' where "transform_r (fold_node lm sc) l = Inr l'" "transform_r (fold_node lm sc) r = Inr r'"
      "fold_node lm sc (Binary op l' r') = Inr e'"
    by (auto simp: res_simps)
  then show ?case using fold_node_stuck [of lm sc "Binary op l' r'"] Binary.IH by simp
next
  case (Ternary c a b)
  then obtain c' a' b' where "transform_r (fold_node lm sc) c = Inr c'" "transform_r (fold_node lm sc) a = Inr a'"
      "transform_r (fold_node lm sc) b = Inr b'" "fold_node lm sc (Ternary c' a' b') = Inr e'"
    by (auto simp: res_simps)
  then show ?case using fold_node_stuck [of lm sc "Ternary c' a' b'"] Ternary.IH by simp
next
  case (Name n)
  then show ?case using fold_node_stuck [of lm sc "Name n"] by simp
next
  case (Str s)
  then show ?case using fold_node_stuck [of lm sc "Str s"] by simp
qed simp

lemma strict_pass_values:
  "strict_pass lm es = Inr u \<Longrightarrow> x \<in> set es \<Longrightarrow> foldable x \<Longrightarrow> \<exists>v. evaluate lm x Map.empty Hspice = Inr v"
  by (induction es) (auto simp: res_simps split: if_splits)

text \<open>C1: folding keeps the value: whatever the expression evaluates to in a scope and a dialect, the
  folded expression evaluates to there.\<close>

theorem fold_keeps_value:
  assumes "fold_expr lm e sc strict = Inr e'" and "evaluate lm e sc d = Inr v"
  shows "evaluate lm e' sc d = Inr v"
  using assms by (rule fold_value)

theorem fold_keeps_value_witness:
  "evaluate (\<lambda>f a. Inr f0) (Num f1) (\<lambda>n. if n = ''x'' then Some f0 else None) Spectre = Inr f1 \<and>
   fold_expr (\<lambda>f a. Inr f0) (Ternary (Unary ''!'' (Num f1)) (Name ''x'') (Num f1))
     (\<lambda>n. if n = ''x'' then Some f0 else None) False = Inr (Num f1)"
proof -
  let ?lm = "\<lambda>(f :: string) (a :: pyfloat list). Inr f0 :: math_exc + pyfloat"
  let ?sc = "\<lambda>n. if n = ''x'' then Some f0 else None"
  let ?e = "Ternary (Unary ''!'' (Num f1)) (Name ''x'') (Num f1)"
  have f: "fold_expr ?lm ?e ?sc False = Inr (Num f1)"
    by (simp add: fold_expr_def fold_constant_def foldable_def evaluate_def ev_def finite_check_def
        ev_unary_def truth_def fold_param_def RESERVED_def)
  have "evaluate ?lm ?e ?sc Spectre = Inr f1"
    by (simp add: evaluate_def ev_def finite_check_def ev_unary_def truth_def)
  from fold_keeps_value [OF f this] f show ?thesis by simp
qed

text \<open>C2: a strict fold that succeeds leaves no constant subexpression: no operation of the result
  has only numbers as operands.\<close>

theorem strict_fold_complete:
  assumes "fold_expr lm e sc True = Inr e'" and "x \<in> set (walk e')"
  shows "\<not> foldable x"
proof
  assume f: "foldable x"
  have t: "transform_r (fold_node lm sc) e = Inr e'" and s: "strict_pass lm (walk e') = Inr ()"
    using assms(1) by (auto simp: fold_expr_def res_simps)
  have "stuck lm x" using fold_tree_stuck [OF t] assms(2) by (simp add: all_stuck_def walk_preorder)
  then show False using strict_pass_values [OF s assms(2) f] f by (auto simp: stuck_def)
qed

theorem strict_fold_complete_witness:
  "\<not> foldable (Binary ''+'' (Num f1) (Name ''x''))"
proof -
  let ?lm = "\<lambda>(f :: string) (a :: pyfloat list). Inr f0 :: math_exc + pyfloat"
  let ?e = "Binary ''+'' (Unary ''-'' (Unary ''-'' (Num f1))) (Name ''x'')"
  have "fold_expr ?lm ?e Map.empty True = Inr (Binary ''+'' (Num f1) (Name ''x''))"
    by (simp add: fold_expr_def fold_constant_def foldable_def evaluate_def ev_def finite_check_def
        ev_unary_def fold_param_def walk_preorder)
  then show ?thesis by (rule strict_fold_complete) (simp add: walk_preorder)
qed

section \<open>Values\<close>

text \<open>C3: substituting expressions for parameters is the same as evaluating with their values in the
  scope: the two evaluations give the same value, or both fail.\<close>

theorem substitution_is_scope:
  assumes "\<forall>n \<in> set RESERVED. m n = None"
  shows "res_val (evaluate lm (substitute e m) sc d) =
         res_val (evaluate lm e (\<lambda>n. case m n of Some x \<Rightarrow> res_val (evaluate lm x sc d) | None \<Rightarrow> sc n) d)"
proof -
  have "same_value (ev lm (subst_scope lm sc (d \<noteq> Hspice) m) (d \<noteq> Hspice) e)
          (ev lm sc (d \<noteq> Hspice) (substitute e m))"
    by (rule substitute_value) (use assms in blast)
  then show ?thesis unfolding same_value_def evaluate_def subst_scope_def by (rule sym)
qed

theorem substitution_is_scope_witness:
  "res_val (evaluate (\<lambda>f a. Inr f0) (substitute (Unary ''-'' (Name ''p'')) [''p'' \<mapsto> Name ''q'']) [''q'' \<mapsto> f1] Hspice)
     = Some (fneg f1)"
proof -
  have "\<forall>n \<in> set RESERVED. [''p'' \<mapsto> Name ''q''] n = None" by (simp add: RESERVED_def)
  note s = substitution_is_scope [OF this, of "\<lambda>f a. Inr f0" "Unary ''-'' (Name ''p'')" "[''q'' \<mapsto> f1]" Hspice]
  show ?thesis
    unfolding s by (simp add: evaluate_def ev_def finite_check_def ev_unary_def ev_name_def RESERVED_def)
qed

text \<open>An expression's value depends only on the parameters that \<open>names\<close> reports: two scopes that
  agree on them give the same result, errors included.\<close>

theorem value_needs_names_only:
  assumes "\<forall>n \<in> names e. sc n = sc' n"
  shows "evaluate lm e sc d = evaluate lm e sc' d"
  unfolding evaluate_def by (rule ev_coincide) (use assms in \<open>simp add: agree_on_def\<close>)

theorem value_needs_names_only_witness:
  "evaluate (\<lambda>f a. Inr f0) (Unary ''-'' (Name ''p'')) [''p'' \<mapsto> f1] Hspice =
   evaluate (\<lambda>f a. Inr f0) (Unary ''-'' (Name ''p'')) [''p'' \<mapsto> f1, ''q'' \<mapsto> f0] Hspice"
  by (rule value_needs_names_only) (simp add: names_simps RESERVED_def)

text \<open>C4: the Spectre dialects only add errors: what evaluates there evaluates to the same number in
  the HSPICE dialect.\<close>

theorem spectre_value_is_hspice_value:
  assumes "evaluate lm e sc d = Inr v"
  shows "evaluate lm e sc Hspice = Inr v"
  using assms spectre_refines by (simp add: evaluate_def refines_def)

theorem spectre_value_is_hspice_value_witness:
  "evaluate (\<lambda>f a. Inr f0) (Unary ''!'' (Num f1)) Map.empty Hspice = Inr f0"
  by (rule spectre_value_is_hspice_value [where d = Spectre])
    (simp add: evaluate_def ev_def finite_check_def ev_unary_def truth_def)



section \<open>Inlining\<close>

definition no_user_call :: "fdefs \<Rightarrow> expr \<Rightarrow> bool" where
  "no_user_call fs x \<longleftrightarrow> (case x of Call f args \<Rightarrow> node_func f \<or> map_of fs f = None | _ \<Rightarrow> True)"

definition inlined :: "fdefs \<Rightarrow> expr \<Rightarrow> bool" where
  "inlined fs e \<longleftrightarrow> list_all (no_user_call fs) (preorder e)"

lemma inlined_simps [simp]:
  "inlined fs (Num v)" "inlined fs (Name n)" "inlined fs (Str s)"
  "inlined fs (Unary op a) \<longleftrightarrow> inlined fs a"
  "inlined fs (Binary op l r) \<longleftrightarrow> inlined fs l \<and> inlined fs r"
  "inlined fs (Ternary c a b) \<longleftrightarrow> inlined fs c \<and> inlined fs a \<and> inlined fs b"
  "inlined fs (Call f args) \<longleftrightarrow> node_func f \<or> (map_of fs f = None \<and> (\<forall>a \<in> set args. inlined fs a))"
  by (auto simp: inlined_def no_user_call_def list_all_iff)

lemma inlined_transform:
  assumes "\<And>n. inlined fs (fn (Name n))" and "\<And>x. (\<And>n. x \<noteq> Name n) \<Longrightarrow> fn x = x"
  shows "inlined fs e \<Longrightarrow> inlined fs (transform fn e)"
  by (induction e) (auto simp: assms)

lemma inlined_substitute:
  assumes "inlined fs e" and "\<forall>x \<in> ran m. inlined fs x"
  shows "inlined fs (substitute e m)"
  unfolding substitute_def
  by (rule inlined_transform [OF _ _ assms(1)])
    (use assms(2) in \<open>auto simp: ranI split: expr.splits option.splits\<close>)

lemma inlined_transform_r:
  assumes "\<And>n x'. fn (Name n) = Inr x' \<Longrightarrow> inlined fs x'" "\<And>v x'. fn (Num v) = Inr x' \<Longrightarrow> inlined fs x'"
    "\<And>s x'. fn (Str s) = Inr x' \<Longrightarrow> inlined fs x'"
    and call: "\<And>f args x'. (node_func f \<or> (\<forall>a \<in> set args. inlined fs a)) \<Longrightarrow> fn (Call f args) = Inr x' \<Longrightarrow> inlined fs x'"
    and op: "\<And>o1 a. fn (Unary o1 a) = Inr (Unary o1 a)" "\<And>o1 l r. fn (Binary o1 l r) = Inr (Binary o1 l r)"
      "\<And>c a b. fn (Ternary c a b) = Inr (Ternary c a b)"
  shows "transform_r fn e = Inr e' \<Longrightarrow> inlined fs e'"
proof (induction e arbitrary: e')
  case (Call f args)
  show ?case
  proof (cases "node_func f")
    case True
    then show ?thesis using Call.prems by (auto intro: call)
  next
    case False
    then obtain args' where as: "rmap (transform_r fn) args = Inr args'" and f: "fn (Call f args') = Inr e'"
      using Call.prems by (auto simp: res_simps)
    have "inlined fs (args' ! i)" if "i < length args'" for i
      using as Call.IH [of "args ! i" "args' ! i"] that by (simp add: rmap_Inr_iff list_all2_conv_all_nth)
    then have "\<forall>a \<in> set args'. inlined fs a" by (auto simp: in_set_conv_nth)
    then show ?thesis using call f by blast
  qed
qed (auto simp: res_simps op assms(1-3))

lemma expand_inlined: "expand fs e active = Inr e' \<Longrightarrow> inlined fs e'"
proof (induction "card (fst ` set fs - set active)" arbitrary: e e' active rule: less_induct)
  case less
  show ?case
  proof (rule inlined_transform_r [OF _ _ _ _ _ _ _ less.prems [unfolded expand.simps [of fs e]]], goal_cases)
    case (4 f args x')
    show ?case
    proof (cases "map_of fs f")
      case None
      then show ?thesis using 4 by auto
    next
      case (Some d)
      obtain params body where d: "d = (params, body)" by (cases d)
      show ?thesis
      proof (cases "node_func f")
        case False
        with 4(2) Some d obtain b where act: "f \<notin> set active"
            and b: "expand fs body (active @ [f]) = Inr b" and x: "x' = substitute b (dict_zip params args)"
          by (auto simp: res_simps split: if_splits)
        have "f \<in> fst ` set fs" using Some by (metis map_of_eq_None_iff option.distinct(1))
        then have "card (fst ` set fs - set (active @ [f])) < card (fst ` set fs - set active)"
          using act by (intro psubset_card_mono) auto
        then have "inlined fs b" using b less.hyps by blast
        then show ?thesis
          unfolding x using 4(1) False ran_dict_zip [of params args] by (intro inlined_substitute) auto
      qed (use 4 Some d in auto)
    qed
  qed simp_all
qed

text \<open>C8: inlining is complete: the result calls none of the user functions, and so needs no second
  pass.\<close>

theorem inline_is_complete:
  assumes "inline_funcs e fs = Inr e'" and "Call f args \<in> set (walk e')" and "\<not> node_func f"
  shows "map_of fs f = None"
  using assms expand_inlined [of fs e "[]" e'] 
  by (auto simp: inline_funcs_def inlined_def walk_preorder list_all_iff no_user_call_def)

theorem inline_is_complete_witness:
  "map_of [(''f'', [''x''], Unary ''-'' (Name ''x''))] ''g'' = None"
proof (rule inline_is_complete)
  let ?fs = "[(''f'', [''x''], Unary ''-'' (Name ''x''))]"
  have n: "\<not> node_func ''f''" "\<not> node_func ''g''" by (simp_all add: node_func_def node_func_word_def)
  show "inline_funcs (Call ''g'' [Call ''f'' [Name ''a'']]) ?fs = Inr (Call ''g'' [Unary ''-'' (Name ''a'')])"
    using n by (simp add: inline_funcs_def expand.simps substitute_def dict_zip_def)
  show "Call ''g'' [Unary ''-'' (Name ''a'')] \<in> set (walk (Call ''g'' [Unary ''-'' (Name ''a'')]))"
    using n by (simp add: walk_preorder)
  show "\<not> node_func ''g''" by (rule n)
qed

section \<open>Parsing and printing\<close>

text \<open>C6: the parser returns on every text, in every dialect: it never runs past the end of its tokens,
  and one unit of fuel more than there are tokens is always enough.\<close>

theorem parse_returns:
  "snd (parse_expr lm s cs d fs) \<noteq> Inl OutOfFuel \<and> snd (parse_expr lm s cs d fs) \<noteq> Inl IndexErr"
  using parse_expr_safe by (simp add: safe_def)



section \<open>Names in an engine's deck\<close>



text \<open>A parameter is never spelt like a reserved word of Xyce, in any case of letters, or like one of
  VACASK's constants.\<close>

theorem parameters_never_reserved:
  "py_lower (param_ident n Xyce) \<notin> set XYCE_RESERVED \<and> param_ident n Vacask \<notin> set VACASK_CONSTANTS"
  using param_ident_never_reserved by blast


end
