(* ===== verification/Globs.thy ===== *)
theory Globs
  imports Prelude
begin

text \<open>
  \<open>vamos/ams/globs.py\<close>: the VCS-style patterns in which only the star is special. The regular
  expression that \<open>compile_glob\<close> builds is a list of escaped characters and of \<open>.*\<close>, anchored at
  both ends; the dot does not match a newline, and \<open>IGNORECASE\<close> compares the lower-case letters.
\<close>

datatype rx = Lit char | DotStar

definition has_wildcard :: "string \<Rightarrow> bool" where
  "has_wildcard pattern \<longleftrightarrow> CHR ''*'' \<in> set pattern"

text \<open>\<open>".*".join(re.escape(p) for p in pattern.split("*"))\<close>.\<close>

fun join_rx :: "string list \<Rightarrow> rx list" where
  "join_rx [] = []"
| "join_rx [p] = map Lit p"
| "join_rx (p # q # ps) = map Lit p @ DotStar # join_rx (q # ps)"

definition compile_glob :: "string \<Rightarrow> rx list" where
  "compile_glob pattern = join_rx (py_split CHR ''*'' pattern)"

definition same_char :: "bool \<Rightarrow> char \<Rightarrow> char \<Rightarrow> bool" where
  "same_char cs a b \<longleftrightarrow> (if cs then a = b else lower_char a = lower_char b)"

text \<open>The anchored match of such an expression.\<close>

fun rx_match :: "bool \<Rightarrow> rx list \<Rightarrow> string \<Rightarrow> bool" where
  "rx_match cs [] s = (s = [])"
| "rx_match cs (Lit a # r) [] = False"
| "rx_match cs (Lit a # r) (c # s) = (same_char cs a c \<and> rx_match cs r s)"
| "rx_match cs (DotStar # r) [] = rx_match cs r []"
| "rx_match cs (DotStar # r) (c # s) =
     (rx_match cs r (c # s) \<or> (c \<noteq> CHR ''\<newline>'' \<and> rx_match cs (DotStar # r) s))"

definition glob_match :: "string \<Rightarrow> string \<Rightarrow> bool \<Rightarrow> bool" where
  "glob_match pattern name cs =
     (if \<not> has_wildcard pattern
      then (if cs then pattern = name else py_lower pattern = py_lower name)
      else rx_match cs (compile_glob pattern) name)"

section \<open>What a pattern means\<close>

text \<open>
  The reading the module's documentation gives: the name is the parts of the pattern, up to case,
  with any text without a newline at each star.
\<close>

definition same_text :: "bool \<Rightarrow> string \<Rightarrow> string \<Rightarrow> bool" where
  "same_text cs p s \<longleftrightarrow> list_all2 (same_char cs) p s"

fun spells :: "bool \<Rightarrow> string list \<Rightarrow> string \<Rightarrow> bool" where
  "spells cs [] s = False"
| "spells cs [p] s = same_text cs p s"
| "spells cs (p # q # ps) s = (\<exists>a gap rest. s = a @ gap @ rest \<and> same_text cs p a \<and>
     CHR ''\<newline>'' \<notin> set gap \<and> spells cs (q # ps) rest)"

lemma rx_match_Lit:
  "rx_match cs (map Lit p @ r) s \<longleftrightarrow> (\<exists>a rest. s = a @ rest \<and> same_text cs p a \<and> rx_match cs r rest)"
proof (induction p arbitrary: s)
  case (Cons x p)
  show ?case
  proof
    assume m: "rx_match cs (map Lit (x # p) @ r) s"
    then obtain c s' where s: "s = c # s'" and x: "same_char cs x c"
        and m': "rx_match cs (map Lit p @ r) s'" by (cases s) auto
    obtain a rest where "s' = a @ rest" "same_text cs p a" "rx_match cs r rest"
      using m' Cons.IH by auto
    with s x show "\<exists>a rest. s = a @ rest \<and> same_text cs (x # p) a \<and> rx_match cs r rest"
      by (intro exI [of _ "c # a"] exI [of _ rest]) (simp add: same_text_def)
  next
    assume "\<exists>a rest. s = a @ rest \<and> same_text cs (x # p) a \<and> rx_match cs r rest"
    then obtain c a rest where "s = c # a @ rest" "same_char cs x c" "same_text cs p a" "rx_match cs r rest"
      by (auto simp: same_text_def list_all2_Cons1)
    with Cons.IH show "rx_match cs (map Lit (x # p) @ r) s" by auto
  qed
qed (simp add: same_text_def)

lemma rx_match_DotStar:
  "rx_match cs (DotStar # r) s \<longleftrightarrow>
     (\<exists>gap rest. s = gap @ rest \<and> CHR ''\<newline>'' \<notin> set gap \<and> rx_match cs r rest)"
proof (induction s)
  case (Cons c s)
  show ?case
  proof
    assume "rx_match cs (DotStar # r) (c # s)"
    then consider "rx_match cs r (c # s)"
      | "c \<noteq> CHR ''\<newline>''" "rx_match cs (DotStar # r) s" by auto
    then show "\<exists>gap rest. c # s = gap @ rest \<and> CHR ''\<newline>'' \<notin> set gap \<and> rx_match cs r rest"
    proof cases
      case 1
      then show ?thesis by (intro exI [of _ "[]"] exI [of _ "c # s"]) simp
    next
      case 2
      then obtain gap rest where "s = gap @ rest" "CHR ''\<newline>'' \<notin> set gap" "rx_match cs r rest"
        using Cons.IH by auto
      with 2 show ?thesis by (intro exI [of _ "c # gap"] exI [of _ rest]) simp
    qed
  next
    assume "\<exists>gap rest. c # s = gap @ rest \<and> CHR ''\<newline>'' \<notin> set gap \<and> rx_match cs r rest"
    then obtain gap rest where g: "c # s = gap @ rest" "CHR ''\<newline>'' \<notin> set gap" "rx_match cs r rest"
      by auto
    show "rx_match cs (DotStar # r) (c # s)"
    proof (cases gap)
      case Nil
      then have "rx_match cs r (c # s)" using g by simp
      then show ?thesis by simp
    next
      case (Cons x gap')
      then have "rx_match cs (DotStar # r) s" and "c \<noteq> CHR ''\<newline>''" using g Cons.IH by auto
      then show ?thesis by simp
    qed
  qed
qed simp

lemma rx_match_parts: "ps \<noteq> [] \<Longrightarrow> rx_match cs (join_rx ps) s \<longleftrightarrow> spells cs ps s"
proof (induction ps arbitrary: s rule: join_rx.induct)
  case (2 p)
  then show ?case using rx_match_Lit [of cs p "[]" s] by auto
next
  case (3 p q ps)
  then have "rx_match cs (join_rx (p # q # ps)) s \<longleftrightarrow>
      (\<exists>a rest. s = a @ rest \<and> same_text cs p a \<and> (\<exists>gap rest'. rest = gap @ rest' \<and>
        CHR ''\<newline>'' \<notin> set gap \<and> spells cs (q # ps) rest'))"
    by (simp only: join_rx.simps rx_match_Lit rx_match_DotStar list.simps simp_thms not_Cons_self)
  then show ?case by auto
qed simp

lemma same_text_iff: "same_text cs p s \<longleftrightarrow> (if cs then p = s else py_lower p = py_lower s)"
proof (induction p arbitrary: s)
  case (Cons x p)
  then show ?case
    by (cases s) (auto simp: same_text_def same_char_def split: if_splits)
qed (auto simp: same_text_def py_lower_def)

lemma glob_match_spells: "glob_match pattern name cs \<longleftrightarrow> spells cs (py_split CHR ''*'' pattern) name"
proof (cases "has_wildcard pattern")
  case True
  then show ?thesis by (simp add: glob_match_def compile_glob_def rx_match_parts)
next
  case False
  then have "py_split CHR ''*'' pattern = [pattern]"
    by (simp add: has_wildcard_def py_split_no_sep)
  with False show ?thesis by (simp add: glob_match_def same_text_iff)
qed

lemma spells_join: "ps \<noteq> [] \<Longrightarrow> spells cs ps (py_join [CHR ''*''] ps)"
proof (induction ps rule: join_rx.induct)
  case (3 p q ps)
  then have "spells cs (q # ps) (py_join [CHR ''*''] (q # ps))" by simp
  moreover have "py_join [CHR ''*''] (p # q # ps) = p @ [CHR ''*''] @ py_join [CHR ''*''] (q # ps)"
    by simp
  moreover have "same_text cs p p" by (simp add: same_text_iff)
  ultimately show ?case unfolding spells.simps
    by (intro exI [of _ p] exI [of _ "[CHR ''*'']"] exI [of _ "py_join [CHR ''*''] (q # ps)"]) simp
qed (auto simp: same_text_iff)

lemma glob_match_self: "glob_match name name cs"
  unfolding glob_match_spells using spells_join [of "py_split CHR ''*'' name"]
  by (simp add: py_join_split)

end
