(* ===== verification/StopSignals.thy ===== *)
theory StopSignals
  imports PyFloat
begin

text \<open>
  \<open>vamos/spectre/stop.py\<close>: what a stop signal is (\<open>classify\<close>), and the hand-over of the flags of
  SIGUSR1 and SIGUSR2 between the flow and an engine runner. The module's \<open>_last_hangup\<close> is the
  state; the monotonic clock's reading is an argument.
\<close>

datatype signal_kind = SIGINT | SIGTERM | SIGHUP | SIGQUIT | SIGUSR1 | SIGUSR2

definition HANDLED :: "signal_kind list" where
  "HANDLED = [SIGINT, SIGTERM, SIGHUP, SIGQUIT]"

definition FLAGS :: "signal_kind list" where
  "FLAGS = [SIGUSR1, SIGUSR2]"

definition HANGUP_WINDOW :: pyfloat where "HANGUP_WINDOW = f1"

datatype stop_class = First | Second | Repeat

type_synonym hangup = "pyfloat option"

definition forget :: "hangup \<Rightarrow> hangup" where
  "forget l = None"

definition classify :: "signal_kind \<Rightarrow> bool \<Rightarrow> pyfloat \<Rightarrow> hangup \<Rightarrow> stop_class \<times> hangup" where
  "classify signum after_first t lh =
     (let hup = (signum = SIGHUP);
          rep = (hup \<and> (after_first \<or> lh \<noteq> None)) \<or>
                (case lh of None \<Rightarrow> False | Some l \<Rightarrow> fle (fsub t l) HANGUP_WINDOW);
          lh' = (if hup then Some t else lh)
      in (if rep then Repeat else if after_first then Second else First, lh'))"

text \<open>
  The owners of the replaced handlers: \<open>owner\<close> gives the object a handler is bound to, and each
  object its pending flags, when it has the two methods.
\<close>

type_synonym 'o owners = "'o \<rightharpoonup> signal_kind list"

definition take_over_flags ::
  "(signal_kind \<rightharpoonup> 'o) \<Rightarrow> 'o owners \<Rightarrow> signal_kind list \<times> 'o owners" where
  "take_over_flags saved pend =
     (let (out, seen, pend') = foldl (\<lambda>(out, seen, p) sig.
            (case saved sig of
               None \<Rightarrow> (out, seen, p)
             | Some w \<Rightarrow>
                 (case p w of
                    None \<Rightarrow> (out, seen, p)
                  | Some fl \<Rightarrow> if w \<in> set seen then (out, seen, p)
                              else (out @ fl, seen @ [w], p(w \<mapsto> []))))) ([], [], pend) FLAGS
      in (out, pend'))"

text \<open>The first owner with the method gets them all.\<close>

definition give_back_flags ::
  "(signal_kind \<rightharpoonup> 'o) \<Rightarrow> signal_kind list \<Rightarrow> 'o owners \<Rightarrow> bool \<times> 'o owners" where
  "give_back_flags saved flags pend =
     (if flags = [] then (True, pend)
      else
        (case find (\<lambda>sig. case saved sig of None \<Rightarrow> False | Some w \<Rightarrow> pend w \<noteq> None) FLAGS of
           None \<Rightarrow> (False, pend)
         | Some sig \<Rightarrow>
             (case saved sig of
                None \<Rightarrow> (False, pend)
              | Some w \<Rightarrow> (True, pend(w \<mapsto> the (pend w) @ flags)))))"

section \<open>The signals of one run\<close>

text \<open>
  A handler takes the signals of its run one after the other; \<open>after_first\<close> is set by the first
  signal that is not ignored.
\<close>

fun run_signals :: "bool \<Rightarrow> hangup \<Rightarrow> (signal_kind \<times> pyfloat) list \<Rightarrow> stop_class list" where
  "run_signals af lh [] = []"
| "run_signals af lh ((s, t) # sigs) =
     (let (c, lh') = classify s af t lh in c # run_signals (af \<or> c \<noteq> Repeat) lh' sigs)"

lemma classify_hangup_after:
  "after_first \<or> lh \<noteq> None \<Longrightarrow> fst (classify SIGHUP after_first t lh) = Repeat"
  by (auto simp: classify_def Let_def)

lemma classify_state: "snd (classify s af t lh) = (if s = SIGHUP then Some t else lh)"
  by (simp add: classify_def Let_def)

lemma run_signals_no_hangup:
  "SIGHUP \<notin> fst ` set sigs \<Longrightarrow> run_signals af None sigs =
     (case sigs of [] \<Rightarrow> [] | _ # r \<Rightarrow> (if af then Second else First) # replicate (length r) Second)"
proof (induction sigs arbitrary: af)
  case (Cons p sigs)
  obtain s t where p: "p = (s, t)" by (cases p)
  then have s: "s \<noteq> SIGHUP" using Cons.prems by auto
  have "run_signals af None (p # sigs) = (if af then Second else First) # run_signals True None sigs"
    using s p by (simp add: classify_def Let_def)
  also have "run_signals True None sigs = replicate (length sigs) Second"
    using Cons by (cases sigs) auto
  finally show ?case by simp
qed simp

lemma run_signals_hangup:
  "lh \<noteq> None \<Longrightarrow> set sigs \<subseteq> {SIGHUP} \<times> UNIV \<Longrightarrow> run_signals af lh sigs = replicate (length sigs) Repeat"
proof (induction sigs arbitrary: lh)
  case (Cons p sigs)
  obtain t where p: "p = (SIGHUP, t)" using Cons.prems by auto
  then show ?case
    using Cons.IH [of "Some t"] Cons.prems by (auto simp: classify_def Let_def)
qed simp

lemma run_signals_first_once:
  "af \<Longrightarrow> First \<notin> set (run_signals af lh sigs)"
proof (induction sigs arbitrary: lh)
  case (Cons p sigs)
  then show ?case by (cases p) (auto simp: classify_def Let_def)
qed simp

lemma run_signals_one_first: "count_list (run_signals af lh sigs) First \<le> 1"
proof (induction sigs arbitrary: af lh)
  case (Cons p sigs)
  obtain s t where p: "p = (s, t)" by (cases p)
  obtain c lh' where c: "classify s af t lh = (c, lh')" by (cases "classify s af t lh")
  show ?case
  proof (cases "c = First")
    case True
    then have "First \<notin> set (run_signals (af \<or> c \<noteq> Repeat) lh' sigs)"
      by (intro run_signals_first_once) simp
    then show ?thesis using p c True by (simp add: count_list_0_iff)
  next
    case False
    then show ?thesis using p c Cons.IH [of "af \<or> c \<noteq> Repeat" lh'] by simp
  qed
qed simp

lemma give_take_back:
  assumes "take_over_flags saved pend = (flags, pend')"
    and "saved SIGUSR1 = Some w" and "saved SIGUSR2 = Some w" and "pend w = Some fl"
  shows "flags = fl \<and> give_back_flags saved flags pend' = (True, pend)"
  using assms
  by (auto simp: take_over_flags_def give_back_flags_def FLAGS_def fun_upd_idem)

end
