(* ===== verification/PosixPath.thy ===== *)
theory PosixPath
  imports Prelude
begin

text \<open>
  The functions of \<open>os.path\<close> (\<open>posixpath\<close>) that the modelled modules use: \<open>isabs\<close>, \<open>join\<close>,
  \<open>dirname\<close>, \<open>normpath\<close>, and \<open>str.rfind\<close> of one character.
\<close>

definition slash :: char where "slash = CHR ''/''"

definition isabs :: "string \<Rightarrow> bool" where
  "isabs p \<longleftrightarrow> p \<noteq> [] \<and> hd p = slash"

definition path_join :: "string \<Rightarrow> string \<Rightarrow> string" where
  "path_join a b =
     (if isabs b then b
      else if a = [] \<or> last a = slash then a @ b
      else a @ slash # b)"

text \<open>\<open>(s[:i], s[i:])\<close> for \<open>i = s.rfind(c) + 1\<close>: the part up to the last \<open>c\<close>, and what follows it.\<close>

definition rsplit_at :: "char \<Rightarrow> string \<Rightarrow> string \<times> string" where
  "rsplit_at c s = (rev (dropWhile (\<lambda>x. x \<noteq> c) (rev s)), rev (takeWhile (\<lambda>x. x \<noteq> c) (rev s)))"

lemma rsplit_at_append: "rsplit_at c s = (a, b) \<Longrightarrow> a @ b = s"
proof -
  assume "rsplit_at c s = (a, b)"
  then have "rev (a @ b) = takeWhile (\<lambda>x. x \<noteq> c) (rev s) @ dropWhile (\<lambda>x. x \<noteq> c) (rev s)"
    by (auto simp: rsplit_at_def)
  then have "rev (a @ b) = rev s" by (simp only: takeWhile_dropWhile_id)
  then show ?thesis by (simp only: rev_is_rev_conv)
qed

lemma rsplit_at_last: "rsplit_at c s = (a, b) \<Longrightarrow> c \<notin> set b \<and> (a = [] \<or> last a = c)"
  using hd_dropWhile [of "\<lambda>x. x \<noteq> c" "rev s"]
  by (auto simp: rsplit_at_def last_rev dest: set_takeWhileD)

lemma rsplit_at_none: "c \<notin> set s \<longleftrightarrow> fst (rsplit_at c s) = []"
  by (auto simp: rsplit_at_def dropWhile_eq_Nil_conv)

definition rstrip_char :: "char \<Rightarrow> string \<Rightarrow> string" where
  "rstrip_char c s = rev (dropWhile (\<lambda>x. x = c) (rev s))"

definition dirname :: "string \<Rightarrow> string" where
  "dirname p = (let head = fst (rsplit_at slash p) in
     if head \<noteq> [] \<and> \<not> list_all (\<lambda>x. x = slash) head then rstrip_char slash head else head)"

text \<open>\<open>normpath\<close>: the components, the last one first while they are collected.\<close>

fun norm_comps :: "bool \<Rightarrow> string list \<Rightarrow> string list \<Rightarrow> string list" where
  "norm_comps root acc [] = rev acc"
| "norm_comps root acc (c # cs) =
     (if c = [] \<or> c = ''.'' then norm_comps root acc cs
      else if c \<noteq> ''..'' \<or> (\<not> root \<and> acc = []) \<or> (acc \<noteq> [] \<and> hd acc = ''..'')
      then norm_comps root (c # acc) cs
      else norm_comps root (tl acc) cs)"

definition initial_slashes :: "string \<Rightarrow> nat" where
  "initial_slashes p =
     (if \<not> isabs p then 0
      else if py_startswith p ''//'' \<and> \<not> py_startswith p ''///'' then 2 else 1)"

definition normpath :: "string \<Rightarrow> string" where
  "normpath p =
     (if p = [] then ''.''
      else
        (let n = initial_slashes p;
             q = replicate n slash @ py_join [slash] (norm_comps (n \<noteq> 0) [] (py_split slash p))
         in if q = [] then ''.'' else q))"

section \<open>A normal path is normal\<close>

text \<open>
  The components that \<open>norm_comps\<close> keeps: no empty one, no dot, no slash, and dots-dots only at the
  front, and none at all below the root.
\<close>

definition plain_comp :: "string \<Rightarrow> bool" where
  "plain_comp c \<longleftrightarrow> c \<noteq> [] \<and> c \<noteq> ''.'' \<and> slash \<notin> set c"

definition ups_then :: "bool \<Rightarrow> string list \<Rightarrow> string list \<Rightarrow> bool" where
  "ups_then root ups names \<longleftrightarrow> (\<forall>u \<in> set ups. u = ''..'') \<and> ''..'' \<notin> set names \<and> (root \<longrightarrow> ups = [])"

definition normal_comps :: "bool \<Rightarrow> string list \<Rightarrow> bool" where
  "normal_comps root cs \<longleftrightarrow> list_all plain_comp cs \<and>
     (\<exists>ups names. cs = ups @ names \<and> ups_then root ups names)"

lemma normal_compsE:
  assumes "normal_comps root cs"
  obtains ups names where "cs = ups @ names" and "\<forall>u \<in> set ups. u = ''..''" and "''..'' \<notin> set names"
    and "root \<longrightarrow> ups = []" and "list_all plain_comp cs"
  using assms unfolding normal_comps_def ups_then_def by blast

lemma normal_compsI:
  "list_all plain_comp (ups @ names) \<Longrightarrow> (\<And>u. u \<in> set ups \<Longrightarrow> u = ''..'') \<Longrightarrow> ''..'' \<notin> set names \<Longrightarrow>
   (root \<Longrightarrow> ups = []) \<Longrightarrow> normal_comps root (ups @ names)"
  unfolding normal_comps_def ups_then_def by blast

lemma normal_comps_snoc:
  assumes "normal_comps root cs" and "plain_comp c"
    and "c \<noteq> ''..'' \<or> (\<not> root \<and> (cs = [] \<or> last cs = ''..''))"
  shows "normal_comps root (cs @ [c])"
proof -
  obtain ups names where s: "cs = ups @ names" "\<forall>u \<in> set ups. u = ''..''" "''..'' \<notin> set names"
      "root \<longrightarrow> ups = []" and p: "list_all plain_comp cs"
    using assms(1) by (rule normal_compsE)
  show ?thesis
  proof (cases "c = ''..''")
    case True
    then have n: "names = []" using s assms(3) by (cases names rule: rev_cases) auto
    have "normal_comps root ((ups @ [c]) @ [])"
      by (rule normal_compsI) (use s p assms(2, 3) True n in auto)
    then show ?thesis using s n by simp
  next
    case False
    have "normal_comps root (ups @ (names @ [c]))"
      by (rule normal_compsI) (use s p assms(2) False in auto)
    then show ?thesis using s by simp
  qed
qed

lemma normal_comps_butlast: "normal_comps root cs \<Longrightarrow> normal_comps root (butlast cs)"
proof (erule normal_compsE)
  fix ups names
  assume s: "cs = ups @ names" "\<forall>u \<in> set ups. u = ''..''" "''..'' \<notin> set names"
      "root \<longrightarrow> ups = []" and p: "list_all plain_comp cs"
  show "normal_comps root (butlast cs)"
  proof (cases names rule: rev_cases)
    case Nil
    have "normal_comps root (butlast ups @ [])"
      by (rule normal_compsI) (use s p Nil in \<open>auto simp: list_all_iff dest: in_set_butlastD\<close>)
    then show ?thesis using s Nil by simp
  next
    case (snoc ns n)
    have "normal_comps root (ups @ ns)"
      by (rule normal_compsI) (use s p snoc in auto)
    then show ?thesis using s snoc by (simp add: butlast_append)
  qed
qed

lemma normal_comps_root: "normal_comps True cs \<Longrightarrow> ''..'' \<notin> set cs"
  by (erule normal_compsE) auto

lemma norm_comps_normal:
  "normal_comps root (rev acc) \<Longrightarrow> list_all (\<lambda>c. slash \<notin> set c) cs \<Longrightarrow>
   normal_comps root (norm_comps root acc cs)"
proof (induction cs arbitrary: acc)
  case (Cons c cs)
  show ?case
  proof (cases "c = [] \<or> c = ''.''")
    case True
    then show ?thesis using Cons by simp
  next
    case False
    then have p: "plain_comp c" using Cons.prems by (simp add: plain_comp_def)
    show ?thesis
    proof (cases "c \<noteq> ''..'' \<or> (\<not> root \<and> acc = []) \<or> (acc \<noteq> [] \<and> hd acc = ''..'')")
      case True
      have "\<not> (root \<and> acc \<noteq> [] \<and> hd acc = ''..'')"
        using Cons.prems(1) normal_comps_root [of "rev acc"] by (cases acc) auto
      then have "normal_comps root (rev acc @ [c])"
        using True Cons.prems(1) p by (intro normal_comps_snoc) (cases acc; auto)+
      then show ?thesis using False True Cons.IH [of "c # acc"] Cons.prems(2) by simp
    next
      case k: False
      have "rev (tl acc) = butlast (rev acc)" by (cases acc) auto
      then have "normal_comps root (rev (tl acc))"
        using normal_comps_butlast [OF Cons.prems(1)] by simp
      then have "normal_comps root (norm_comps root (tl acc) cs)"
        using Cons.IH [of "tl acc"] Cons.prems(2) by simp
      then show ?thesis using False k by (simp only: norm_comps.simps if_False)
    qed
  qed
qed simp

lemma norm_comps_ups:
  "\<not> root \<Longrightarrow> \<forall>u \<in> set ups. u = ''..'' \<Longrightarrow> (acc = [] \<or> hd acc = ''..'') \<Longrightarrow>
   norm_comps root acc (ups @ cs) = norm_comps root (rev ups @ acc) cs"
  by (induction ups arbitrary: acc) auto

lemma norm_comps_names:
  "list_all plain_comp names \<Longrightarrow> ''..'' \<notin> set names \<Longrightarrow>
   norm_comps root acc names = rev acc @ names"
  by (induction names arbitrary: acc) (auto simp: plain_comp_def)

lemma norm_comps_id: "normal_comps root cs \<Longrightarrow> norm_comps root [] cs = cs"
proof (erule normal_compsE)
  fix ups names
  assume s: "cs = ups @ names" "\<forall>u \<in> set ups. u = ''..''" "''..'' \<notin> set names"
      "root \<longrightarrow> ups = []" and pl: "list_all plain_comp cs"
  have p: "list_all plain_comp names" using pl s(1) by simp
  have "norm_comps root [] (ups @ names) = norm_comps root (rev ups @ []) names"
    using s by (cases root) (simp_all add: norm_comps_ups)
  then show "norm_comps root [] cs = cs" using s p by (simp add: norm_comps_names)
qed

lemma py_split_join:
  "ps \<noteq> [] \<Longrightarrow> list_all (\<lambda>p. sep \<notin> set p) ps \<Longrightarrow> py_split sep (py_join [sep] ps) = ps"
proof (induction ps)
  case (Cons p ps)
  then show ?case by (cases ps) (auto simp: py_split_no_sep py_split_append)
qed simp

lemma norm_comps_empty: "norm_comps root acc ([] # cs) = norm_comps root acc cs"
  by simp

lemma py_split_slashes:
  "norm_comps root acc (py_split slash (replicate n slash @ s)) = norm_comps root acc (py_split slash s)"
  by (induction n) simp_all

lemma py_join_plain:
  "list_all plain_comp cs \<Longrightarrow> cs \<noteq> [] \<Longrightarrow>
   py_join [slash] cs \<noteq> [] \<and> hd (py_join [slash] cs) \<noteq> slash"
proof (induction cs)
  case (Cons c cs)
  then show ?case by (cases cs; cases c) (auto simp: plain_comp_def)
qed simp

lemma initial_slashes_text:
  "n \<le> 2 \<Longrightarrow> s = [] \<or> hd s \<noteq> slash \<Longrightarrow> initial_slashes (replicate n slash @ s) = n"
proof -
  assume n: "n \<le> 2" and s: "s = [] \<or> hd s \<noteq> slash"
  consider "n = 0" | "n = 1" | "n = 2" using n by linarith
  then show ?thesis
  proof cases
    case 1
    then show ?thesis using s by (auto simp: initial_slashes_def isabs_def)
  next
    case 2
    then show ?thesis using s by (cases s) (auto simp: initial_slashes_def isabs_def slash_def)
  next
    case 3
    then show ?thesis using s
      by (cases s) (auto simp: initial_slashes_def isabs_def slash_def numeral_2_eq_2)
  qed
qed

lemma initial_slashes_le: "initial_slashes p \<le> 2"
  by (simp add: initial_slashes_def)

lemma normpath_normal:
  assumes "normal_comps (n \<noteq> 0) cs" and "n \<le> 2" and "n \<noteq> 0 \<or> cs \<noteq> []"
  shows "normpath (replicate n slash @ py_join [slash] cs) = replicate n slash @ py_join [slash] cs"
proof -
  let ?p = "replicate n slash @ py_join [slash] cs"
  have pl: "list_all plain_comp cs" using assms(1) by (simp add: normal_comps_def)
  have i: "initial_slashes ?p = n"
    using assms(2) py_join_plain [OF pl] by (intro initial_slashes_text) (cases "cs = []"; simp)+
  have sep: "list_all (\<lambda>p. slash \<notin> set p) cs"
    using pl by (auto simp: list_all_iff plain_comp_def)
  have "norm_comps (n \<noteq> 0) [] (py_split slash (py_join [slash] cs)) = cs"
    using norm_comps_id [OF assms(1)] by (cases "cs = []") (simp_all add: py_split_join [OF _ sep])
  moreover have "?p \<noteq> []" using assms(3) py_join_plain [OF pl] by auto
  ultimately show ?thesis by (simp add: normpath_def i py_split_slashes)
qed

lemma normpath_idem: "normpath (normpath p) = normpath p"
proof (cases "p = []")
  case False
  let ?n = "initial_slashes p"
  let ?cs = "norm_comps (?n \<noteq> 0) [] (py_split slash p)"
  have nc: "normal_comps (?n \<noteq> 0) ?cs"
    using normal_compsI [of "[]" "[]"]
    by (intro norm_comps_normal) (auto simp: list_all_iff py_split_parts)
  show ?thesis
  proof (cases "?n \<noteq> 0 \<or> ?cs \<noteq> []")
    case True
    have "?n \<noteq> 0 \<or> py_join [slash] ?cs \<noteq> []"
      using True nc py_join_plain [of ?cs] by (auto simp: normal_comps_def)
    then have "normpath p = replicate ?n slash @ py_join [slash] ?cs"
      using False by (auto simp: normpath_def Let_def)
    then show ?thesis using normpath_normal [OF nc initial_slashes_le True] by simp
  next
    case f: False
    then have "?n = 0" by simp
    with f have "norm_comps False [] (py_split slash p) = []" by simp
    then have "normpath p = ''.''" using False \<open>?n = 0\<close> by (simp add: normpath_def)
    then show ?thesis by (simp add: normpath_def initial_slashes_def isabs_def slash_def)
  qed
qed (simp add: normpath_def initial_slashes_def isabs_def slash_def)

end
