(* ===== verification/Percent.thy ===== *)
theory Percent
  imports PosixPath PyFloat
begin

text \<open>
  \<open>vamos/spectre/percent.py\<close>: the percent codes of a Spectre run and their colon modifiers. What
  \<open>predefined\<close> asks of the system (the host name, the process id, the release of the tool) is the
  record \<open>system\<close>, the job is its three fields that are read.
\<close>

record system =
  sys_host :: string
  sys_pid :: int
  sys_version :: string

record stamp =
  st_year :: int
  st_month :: int
  st_day :: int
  st_hour :: int
  st_minute :: int
  st_second :: int

record percent_job =
  pj_prog :: string
  pj_netlist :: "string option"
  pj_percent :: "(char \<times> string option) list"

text \<open>\<open>"%02d"\<close> of a number that is not negative.\<close>

definition two_digits :: "int \<Rightarrow> string" where
  "two_digits i = (let s = show_int i in if length s < 2 then CHR ''0'' # s else s)"

definition predefined :: "system \<Rightarrow> string \<Rightarrow> string option \<Rightarrow> stamp \<Rightarrow> string \<Rightarrow> (char \<times> string) list" where
  "predefined sys prog netlist t analysis =
     [(CHR ''A'', analysis),
      (CHR ''C'', case netlist of None \<Rightarrow> ''stdin'' | Some n \<Rightarrow> n),
      (CHR ''D'', two_digits (st_year t mod 100) @ ''-'' @ two_digits (st_month t) @ ''-'' @ two_digits (st_day t)),
      (CHR ''H'', sys_host sys),
      (CHR ''M'', []),
      (CHR ''P'', show_int (sys_pid sys)),
      (CHR ''S'', prog),
      (CHR ''T'', two_digits (st_hour t) @ '':'' @ two_digits (st_minute t) @ '':'' @ two_digits (st_second t)),
      (CHR ''V'', sys_version sys)]"

text \<open>\<open>codes\<close>: the dictionary, as a function.\<close>

definition codes :: "system \<Rightarrow> percent_job \<Rightarrow> stamp \<Rightarrow> string \<Rightarrow> char \<rightharpoonup> string" where
  "codes sys job t analysis =
     (let pre = map_of (predefined sys (pj_prog job) (pj_netlist job) t analysis)
      in foldl (\<lambda>out (x, val). case val of
             None \<Rightarrow> out(x \<mapsto> (case pre x of Some v \<Rightarrow> v | None \<Rightarrow> []))
           | Some v \<Rightarrow> out(x \<mapsto> v)) pre (pj_percent job))"

definition MODIFIERS :: string where "MODIFIERS = ''reht:''"

text \<open>\<open>modify\<close>, for the modifiers other than the colon. \<open>None\<close> is the \<open>ValueError\<close> of any other.\<close>

definition modify :: "string \<Rightarrow> char \<Rightarrow> string option" where
  "modify w m =
     (let (head, tail) = rsplit_at slash w; (stem, ext) = rsplit_at CHR ''.'' tail in
      if m = CHR ''r'' then Some (if stem \<noteq> [] then head @ butlast stem else w)
      else if m = CHR ''e'' then Some (if stem \<noteq> [] then ext else [])
      else if m = CHR ''h'' then Some (if head \<noteq> [] then butlast head else ''.'')
      else if m = CHR ''t'' then Some tail
      else None)"

text \<open>The inner loop of \<open>expand\<close>: the modifiers after a code, and the text after them.\<close>

fun modifiers :: "string \<Rightarrow> string \<Rightarrow> string option \<times> string" where
  "modifiers w (c # m # r) =
     (if c = CHR '':'' \<and> m \<in> set MODIFIERS then
        (if m = CHR '':'' then (Some (w @ '':''), r)
         else (case modify w m of None \<Rightarrow> (None, r) | Some v \<Rightarrow> modifiers v r))
      else (Some w, c # m # r))"
| "modifiers w s = (Some w, s)"

lemma modifiers_length: "length (snd (modifiers w s)) \<le> length s"
  by (induction w s rule: modifiers.induct) (auto split: option.split)

lemma modifiers_total: "\<exists>v. fst (modifiers w s) = Some v"
proof (induction w s rule: modifiers.induct)
  case (1 w c m r)
  show ?case
  proof (cases "c = CHR '':'' \<and> m \<in> set MODIFIERS \<and> m \<noteq> CHR '':''")
    case True
    obtain head tail stem ext where sp: "rsplit_at slash w = (head, tail)"
        "rsplit_at CHR ''.'' tail = (stem, ext)" by (meson surj_pair)
    have "m \<in> set ''reht''" using True by (auto simp: MODIFIERS_def)
    then obtain v where v: "modify w m = Some v"
      by (auto simp: modify_def sp)
    then show ?thesis using True 1 by simp
  qed auto
qed auto

function expand_percent :: "(char \<rightharpoonup> string) \<Rightarrow> string \<Rightarrow> string option" where
  "expand_percent cs [] = Some []"
| "expand_percent cs [c] = Some [c]"
| "expand_percent cs (c # x # r) =
     (if c \<noteq> CHR ''%'' then map_option (\<lambda>t. c # t) (expand_percent cs (x # r))
      else if x = CHR ''%'' then map_option (\<lambda>t. CHR ''%'' # t) (expand_percent cs r)
      else if \<not> ascii_letter x then map_option (\<lambda>t. c # t) (expand_percent cs (x # r))
      else (case modifiers (case cs x of Some v \<Rightarrow> v | None \<Rightarrow> []) r of
              (None, rest) \<Rightarrow> None
            | (Some v, rest) \<Rightarrow> map_option (\<lambda>t. v @ t) (expand_percent cs rest)))"
  by pat_completeness auto
termination
proof (relation "measure (\<lambda>(cs, s). length s)", goal_cases)
  case (5 cs c x r v rest w)
  then have "rest = snd (modifiers (case cs x of Some v \<Rightarrow> v | None \<Rightarrow> []) r)" by (metis snd_conv)
  then show ?case
    using modifiers_length [of "case cs x of Some v \<Rightarrow> v | None \<Rightarrow> []" r] by simp
qed auto

section \<open>Properties\<close>

lemma expand_percent_total: "\<exists>t. expand_percent cs s = Some t"
proof (induction cs s rule: expand_percent.induct)
  case (3 cs c x r)
  let ?v = "case cs x of Some v \<Rightarrow> v | None \<Rightarrow> []"
  obtain v rest where m: "modifiers ?v r = (Some v, rest)"
    using modifiers_total [of ?v r] by (metis prod.collapse)
  show ?case using 3 m by (cases "ascii_letter x") auto
qed auto

lemma expand_percent_plain: "CHR ''%'' \<notin> set a \<Longrightarrow> expand_percent cs (a @ b) = map_option (\<lambda>t. a @ t) (expand_percent cs b)"
proof (induction a)
  case (Cons c a)
  show ?case
  proof (cases "a @ b")
    case Nil
    then show ?thesis using Cons by simp
  next
    case s: (Cons x r)
    then have "expand_percent cs ((c # a) @ b) = map_option (\<lambda>t. c # t) (expand_percent cs (a @ b))"
      using Cons.prems s by (cases "c = CHR ''%''") simp_all
    also have "\<dots> = map_option (\<lambda>t. (c # a) @ t) (expand_percent cs b)"
      using Cons by (simp add: option.map_comp comp_def)
    finally show ?thesis .
  qed
qed (cases "expand_percent cs b"; simp)

lemma expand_percent_code:
  assumes "ascii_letter x" and "cs x = Some v" and "rest = [] \<or> hd rest \<noteq> CHR '':''"
  shows "expand_percent cs (CHR ''%'' # x # rest) = map_option (\<lambda>t. v @ t) (expand_percent cs rest)"
proof -
  have "modifiers v rest = (Some v, rest)" using assms(3) by (induction v rest rule: modifiers.induct) auto
  moreover have "x \<noteq> CHR ''%''" using assms(1) by (auto simp: char_simps)
  ultimately show ?thesis using assms by simp
qed

lemma modify_head_tail:
  assumes "slash \<in> set v"
  shows "\<exists>h t. modify v CHR ''h'' = Some h \<and> modify v CHR ''t'' = Some t \<and> h @ slash # t = v"
proof -
  obtain a b where ab: "rsplit_at slash v = (a, b)" by (cases "rsplit_at slash v")
  then have "a \<noteq> []" using assms rsplit_at_none [of slash v] by auto
  then have "a = butlast a @ [slash]" using rsplit_at_last [OF ab] by (metis append_butlast_last_id)
  moreover have "a @ b = v" using ab by (rule rsplit_at_append)
  ultimately have "butlast a @ slash # b = v" by (metis append.assoc append_Cons append_Nil)
  then show ?thesis using \<open>a \<noteq> []\<close> ab by (auto simp: modify_def split: prod.split)
qed

lemma modify_root_ext:
  assumes "rsplit_at slash v = (a, b)" and "CHR ''.'' \<in> set b"
  shows "\<exists>r e. modify v CHR ''r'' = Some r \<and> modify v CHR ''e'' = Some e \<and> r @ CHR ''.'' # e = v"
proof -
  obtain stem ext where se: "rsplit_at CHR ''.'' b = (stem, ext)" by (cases "rsplit_at CHR ''.'' b")
  then have "stem \<noteq> []" using assms rsplit_at_none [of "CHR ''.''" b] by auto
  then have "stem = butlast stem @ ''.''" using rsplit_at_last [OF se] by (metis append_butlast_last_id)
  moreover have "a @ stem @ ext = v" using rsplit_at_append [OF assms(1)] rsplit_at_append [OF se] by simp
  ultimately have "(a @ butlast stem) @ CHR ''.'' # ext = v"
    by (metis append.assoc append_Cons append_Nil)
  then show ?thesis using \<open>stem \<noteq> []\<close> assms(1) se by (auto simp: modify_def)
qed

end
