(* ===== verification/Notes.thy ===== *)
theory Notes
  imports Prelude
begin

text \<open>
  The diagnostics of \<open>vamos/notes.py\<close>: a note has a severity, an origin and a message; the strict
  option turns warnings into errors. The severities are ordered as the code lists them.
\<close>

datatype severity = NOTE | WARNING | ERROR

record diag =
  severity :: severity
  origin :: string
  message :: string

fun rank_severity :: "severity \<Rightarrow> nat" where
  "rank_severity NOTE = 0"
| "rank_severity WARNING = 1"
| "rank_severity ERROR = 2"

instantiation severity :: linorder
begin

definition less_eq_severity :: "severity \<Rightarrow> severity \<Rightarrow> bool" where
  "less_eq_severity a b \<longleftrightarrow> rank_severity a \<le> rank_severity b"

definition less_severity :: "severity \<Rightarrow> severity \<Rightarrow> bool" where
  "less_severity a b \<longleftrightarrow> rank_severity a < rank_severity b"

instance
proof
  fix a b :: severity
  assume "a \<le> b" "b \<le> a"
  then show "a = b" by (cases a; cases b) (simp_all add: less_eq_severity_def)
qed (auto simp: less_eq_severity_def less_severity_def)

end

definition sev_text :: "severity \<Rightarrow> string" where
  "sev_text s = (case s of NOTE \<Rightarrow> ''note'' | WARNING \<Rightarrow> ''warning'' | ERROR \<Rightarrow> ''error'')"

definition diag_text :: "diag \<Rightarrow> string" where
  "diag_text n = (let wher = (if origin n \<noteq> [] then origin n @ '': '' else [])
                  in sev_text (severity n) @ '': '' @ wher @ message n)"

definition mk_note :: "string \<Rightarrow> string \<Rightarrow> diag" where
  "mk_note orig msg = \<lparr>severity = NOTE, origin = orig, message = msg\<rparr>"

definition warning :: "string \<Rightarrow> string \<Rightarrow> diag" where
  "warning orig msg = \<lparr>severity = WARNING, origin = orig, message = msg\<rparr>"

definition error :: "string \<Rightarrow> string \<Rightarrow> diag" where
  "error orig msg = \<lparr>severity = ERROR, origin = orig, message = msg\<rparr>"

definition strict :: "diag list \<Rightarrow> bool \<Rightarrow> diag list" where
  "strict notes on =
     (if \<not> on then notes
      else map (\<lambda>n. if severity n = WARNING then error (origin n) (message n) else n) notes)"

definition has_errors :: "diag list \<Rightarrow> bool" where
  "has_errors notes = list_ex (\<lambda>n. severity n = ERROR) notes"

lemma strict_length [simp]: "length (strict ns on) = length ns"
  by (simp add: strict_def)

lemma strict_messages: "map message (strict ns on) = map message ns \<and> map origin (strict ns on) = map origin ns"
  by (induction ns) (auto simp: strict_def error_def)

lemma strict_idem [simp]: "strict (strict ns True) on = strict ns True"
  by (auto simp: strict_def error_def)

lemma warning_le: "WARNING \<le> s \<longleftrightarrow> s = WARNING \<or> s = ERROR"
  by (cases s) (simp_all add: less_eq_severity_def)

lemma has_errors_strict: "has_errors (strict ns True) \<longleftrightarrow> (\<exists>n \<in> set ns. WARNING \<le> severity n)"
  by (induction ns) (auto simp: has_errors_def strict_def error_def warning_le)

lemma strict_mono: "i < length ns \<Longrightarrow> severity (ns ! i) \<le> severity (strict ns on ! i)"
  by (auto simp: strict_def error_def less_eq_severity_def)

end
