(* ===== verification/JobIr.thy ===== *)
theory JobIr
  imports Notes "HOL-Library.List_Lexorder" "HOL-Library.Char_ord"
begin

text \<open>
  \<open>vamos/job.py\<close>: the job record that every personality builds, its list of options that were not
  (fully) acted on, and its way through \<open>vamos.job.json\<close>. The text form is \<open>json.dumps\<close> and
  \<open>json.loads\<close> of the library, which give a value back; the model is about the values: \<open>to_dict\<close> is
  \<open>dataclasses.asdict\<close> and \<open>from_dict\<close> is \<open>from_json\<close> after the parse.
\<close>

section \<open>JSON values\<close>

datatype json =
    JNull
  | JBool bool
  | JInt int
  | JStr string
  | JList "json list"
  | JObj "(string \<times> json) list"

datatype disposition = IGNORED | NOTED | UNSUPPORTED | UNKNOWN | INAPPLICABLE

definition disp_text :: "disposition \<Rightarrow> string" where
  "disp_text d = (case d of IGNORED \<Rightarrow> ''ignored'' | NOTED \<Rightarrow> ''noted'' | UNSUPPORTED \<Rightarrow> ''unsupported''
     | UNKNOWN \<Rightarrow> ''unknown'' | INAPPLICABLE \<Rightarrow> ''inapplicable'')"

definition text_disp :: "string \<Rightarrow> disposition option" where
  "text_disp s = find (\<lambda>d. disp_text d = s) [IGNORED, NOTED, UNSUPPORTED, UNKNOWN, INAPPLICABLE]"

record source =
  src_path :: string
  src_lang :: string
  src_library :: string

record unmapped =
  um_option :: string
  um_disposition :: disposition
  um_note :: string

definition SCHEMA :: int where "SCHEMA = 2"

text \<open>The record. (\<open>ams\<close> and \<open>dump\<close> are dictionaries of their own, or \<open>JNull\<close>.)\<close>

record job =
  jb_personality :: "string"
  jb_argv :: "string list"
  jb_cwd :: "string"
  jb_sources :: "source list"
  jb_lib_files :: "string list"
  jb_lib_dirs :: "string list"
  jb_lib_exts :: "string list"
  jb_incdirs :: "string list"
  jb_defines :: "(string \<times> string option) list"
  jb_timescale :: "string option"
  jb_override_timescale :: "string option"
  jb_std :: "string"
  jb_tops :: "string list"
  jb_exe :: "string"
  jb_daidir :: "string"
  jb_mdir :: "string"
  jb_log :: "string option"
  jb_analyse :: "bool"
  jb_elaborate :: "bool"
  jb_run :: "bool"
  jb_plusargs :: "string list"
  jb_run_log :: "string option"
  jb_finish :: "string option"
  jb_seed :: "string option"
  jb_debug :: "string list"
  jb_coverage :: "string list"
  jb_unmapped :: "unmapped list"
  jb_ams_control :: "string option"
  jb_ams :: "json"
  jb_precision :: "string option"
  jb_engine :: "string"
  jb_dump :: "json"
  jb_schema :: "int"

definition mk_job :: "string \<Rightarrow> job" where
  "mk_job personality = \<lparr>
     jb_personality = personality,
     jb_argv = [],
     jb_cwd = [],
     jb_sources = [],
     jb_lib_files = [],
     jb_lib_dirs = [],
     jb_lib_exts = [],
     jb_incdirs = [],
     jb_defines = [],
     jb_timescale = None,
     jb_override_timescale = None,
     jb_std = ''verilog'',
     jb_tops = [],
     jb_exe = ''simv'',
     jb_daidir = [],
     jb_mdir = ''csrc'',
     jb_log = None,
     jb_analyse = True,
     jb_elaborate = True,
     jb_run = False,
     jb_plusargs = [],
     jb_run_log = None,
     jb_finish = None,
     jb_seed = None,
     jb_debug = [],
     jb_coverage = [],
     jb_unmapped = [],
     jb_ams_control = None,
     jb_ams = JNull,
     jb_precision = None,
     jb_engine = ''nvc'',
     jb_dump = JNull,
     jb_schema = SCHEMA\<rparr>"

definition job_note :: "string \<Rightarrow> disposition \<Rightarrow> string \<Rightarrow> job \<Rightarrow> job" where
  "job_note opt d why j =
     j\<lparr>jb_unmapped := jb_unmapped j @ [\<lparr>um_option = opt, um_disposition = d, um_note = why\<rparr>]\<rparr>"

section \<open>To a dictionary\<close>

definition of_strs :: "string list \<Rightarrow> json" where "of_strs xs = JList (map JStr xs)"

definition of_ostr :: "string option \<Rightarrow> json" where
  "of_ostr x = (case x of None \<Rightarrow> JNull | Some s \<Rightarrow> JStr s)"

definition of_sdict :: "(string \<times> string option) list \<Rightarrow> json" where
  "of_sdict d = JObj (map (\<lambda>(k, v). (k, of_ostr v)) d)"

definition of_sources :: "source list \<Rightarrow> json" where
  "of_sources ss = JList (map (\<lambda>s. JObj [(''path'', JStr (src_path s)), (''lang'', JStr (src_lang s)),
     (''library'', JStr (src_library s))]) ss)"

definition of_unmapped :: "unmapped list \<Rightarrow> json" where
  "of_unmapped us = JList (map (\<lambda>u. JObj [(''option'', JStr (um_option u)),
     (''disposition'', JStr (disp_text (um_disposition u))), (''note'', JStr (um_note u))]) us)"

definition to_dict :: "job \<Rightarrow> (string \<times> json) list" where
  "to_dict j = [
     (''personality'', JStr (jb_personality j)),
     (''argv'', of_strs (jb_argv j)),
     (''cwd'', JStr (jb_cwd j)),
     (''sources'', of_sources (jb_sources j)),
     (''lib_files'', of_strs (jb_lib_files j)),
     (''lib_dirs'', of_strs (jb_lib_dirs j)),
     (''lib_exts'', of_strs (jb_lib_exts j)),
     (''incdirs'', of_strs (jb_incdirs j)),
     (''defines'', of_sdict (jb_defines j)),
     (''timescale'', of_ostr (jb_timescale j)),
     (''override_timescale'', of_ostr (jb_override_timescale j)),
     (''std'', JStr (jb_std j)),
     (''tops'', of_strs (jb_tops j)),
     (''exe'', JStr (jb_exe j)),
     (''daidir'', JStr (jb_daidir j)),
     (''mdir'', JStr (jb_mdir j)),
     (''log'', of_ostr (jb_log j)),
     (''analyse'', JBool (jb_analyse j)),
     (''elaborate'', JBool (jb_elaborate j)),
     (''run'', JBool (jb_run j)),
     (''plusargs'', of_strs (jb_plusargs j)),
     (''run_log'', of_ostr (jb_run_log j)),
     (''finish'', of_ostr (jb_finish j)),
     (''seed'', of_ostr (jb_seed j)),
     (''debug'', of_strs (jb_debug j)),
     (''coverage'', of_strs (jb_coverage j)),
     (''unmapped'', of_unmapped (jb_unmapped j)),
     (''ams_control'', of_ostr (jb_ams_control j)),
     (''ams'', id (jb_ams j)),
     (''precision'', of_ostr (jb_precision j)),
     (''engine'', JStr (jb_engine j)),
     (''dump'', id (jb_dump j)),
     (''schema'', JInt (jb_schema j))]"

definition JOB_FIELDS :: "string list" where
  "JOB_FIELDS = [''personality'', ''argv'', ''cwd'', ''sources'', ''lib_files'', ''lib_dirs'', ''lib_exts'', ''incdirs'', ''defines'', ''timescale'', ''override_timescale'', ''std'', ''tops'', ''exe'', ''daidir'', ''mdir'', ''log'', ''analyse'', ''elaborate'', ''run'', ''plusargs'', ''run_log'', ''finish'', ''seed'', ''debug'', ''coverage'', ''unmapped'', ''ams_control'', ''ams'', ''precision'', ''engine'', ''dump'', ''schema'']"

section \<open>From a dictionary\<close>

text \<open>
  The class takes any value for a field; the model is about values of the declared type, and
  \<open>IllTyped\<close> stands for the others.
\<close>

datatype job_err = NewerVamos int "string list" | IllTyped string | BadKey string

fun to_str :: "json \<Rightarrow> string option" where
  "to_str (JStr s) = Some s"
| "to_str _ = None"

fun to_bool :: "json \<Rightarrow> bool option" where
  "to_bool (JBool b) = Some b"
| "to_bool _ = None"

fun to_int :: "json \<Rightarrow> int option" where
  "to_int (JInt i) = Some i"
| "to_int _ = None"

fun to_ostr :: "json \<Rightarrow> string option option" where
  "to_ostr JNull = Some None"
| "to_ostr (JStr s) = Some (Some s)"
| "to_ostr _ = None"

definition to_json :: "json \<Rightarrow> json option" where "to_json j = Some j"

fun omap :: "('a \<Rightarrow> 'b option) \<Rightarrow> 'a list \<Rightarrow> 'b list option" where
  "omap f [] = Some []"
| "omap f (x # xs) = (case f x of None \<Rightarrow> None | Some y \<Rightarrow> map_option (\<lambda>ys. y # ys) (omap f xs))"

lemma omap_map: "(\<And>x. f (g x) = Some x) \<Longrightarrow> omap f (map g xs) = Some xs"
  by (induction xs) simp_all

fun to_strs :: "json \<Rightarrow> string list option" where
  "to_strs (JList xs) = omap to_str xs"
| "to_strs _ = None"

fun to_sdict :: "json \<Rightarrow> (string \<times> string option) list option" where
  "to_sdict (JObj kvs) = omap (\<lambda>(k, v). map_option (\<lambda>w. (k, w)) (to_ostr v)) kvs"
| "to_sdict _ = None"

text \<open>\<open>Source(**s)\<close> and \<open>Unmapped(**u)\<close>: the last fields have defaults.\<close>

definition str_field :: "(string \<times> json) list \<Rightarrow> string \<Rightarrow> string option \<Rightarrow> string option" where
  "str_field d k dflt = (case map_of d k of None \<Rightarrow> dflt | Some v \<Rightarrow> to_str v)"

fun to_source :: "json \<Rightarrow> source option" where
  "to_source (JObj d) =
     (case (str_field d ''path'' None, str_field d ''lang'' None, str_field d ''library'' (Some ''work'')) of
        (Some p, Some l, Some w) \<Rightarrow>
          if list_all (\<lambda>(k, _). k \<in> {''path'', ''lang'', ''library''}) d
          then Some \<lparr>src_path = p, src_lang = l, src_library = w\<rparr> else None
      | _ \<Rightarrow> None)"
| "to_source _ = None"

fun to_unm :: "json \<Rightarrow> unmapped option" where
  "to_unm (JObj d) =
     (case (str_field d ''option'' None, Option.bind (str_field d ''disposition'' None) text_disp,
            str_field d ''note'' (Some [])) of
        (Some p, Some l, Some w) \<Rightarrow>
          if list_all (\<lambda>(k, _). k \<in> {''option'', ''disposition'', ''note''}) d
          then Some \<lparr>um_option = p, um_disposition = l, um_note = w\<rparr> else None
      | _ \<Rightarrow> None)"
| "to_unm _ = None"

fun to_sources :: "json \<Rightarrow> source list option" where
  "to_sources (JList xs) = omap to_source xs"
| "to_sources _ = None"

fun to_unmapped :: "json \<Rightarrow> unmapped list option" where
  "to_unmapped (JList xs) = omap to_unm xs"
| "to_unmapped _ = None"

definition job_field :: "(string \<times> json) list \<Rightarrow> string \<Rightarrow> (json \<Rightarrow> 'a option) \<Rightarrow> 'a \<Rightarrow> job_err + 'a" where
  "job_field d k dec dflt = (case map_of d k of
     None \<Rightarrow> Inr dflt
   | Some v \<Rightarrow> (case dec v of None \<Rightarrow> Inl (IllTyped k) | Some x \<Rightarrow> Inr x))"

text \<open>The check of \<open>from_json\<close>: the schema, and the keys the class does not have, sorted.\<close>

definition job_schema :: "(string \<times> json) list \<Rightarrow> job_err + int" where
  "job_schema d = job_field d ''schema'' to_int 1"

definition unknown_keys :: "(string \<times> json) list \<Rightarrow> string list" where
  "unknown_keys d = sort (filter (\<lambda>k. k \<notin> set JOB_FIELDS) (map fst d))"

definition from_dict :: "(string \<times> json) list \<Rightarrow> job_err + job" where
  "from_dict d = rbind (job_schema d) (\<lambda>schema.
     if schema > SCHEMA \<or> unknown_keys d \<noteq> [] then Inl (NewerVamos schema (unknown_keys d))
     else if map_of d ''personality'' = None then Inl (BadKey ''personality'')
     else
     rbind (job_field d ''personality'' to_str []) (\<lambda>v_personality.
     rbind (job_field d ''argv'' to_strs []) (\<lambda>v_argv.
     rbind (job_field d ''cwd'' to_str []) (\<lambda>v_cwd.
     rbind (job_field d ''sources'' to_sources []) (\<lambda>v_sources.
     rbind (job_field d ''lib_files'' to_strs []) (\<lambda>v_lib_files.
     rbind (job_field d ''lib_dirs'' to_strs []) (\<lambda>v_lib_dirs.
     rbind (job_field d ''lib_exts'' to_strs []) (\<lambda>v_lib_exts.
     rbind (job_field d ''incdirs'' to_strs []) (\<lambda>v_incdirs.
     rbind (job_field d ''defines'' to_sdict []) (\<lambda>v_defines.
     rbind (job_field d ''timescale'' to_ostr None) (\<lambda>v_timescale.
     rbind (job_field d ''override_timescale'' to_ostr None) (\<lambda>v_override_timescale.
     rbind (job_field d ''std'' to_str ''verilog'') (\<lambda>v_std.
     rbind (job_field d ''tops'' to_strs []) (\<lambda>v_tops.
     rbind (job_field d ''exe'' to_str ''simv'') (\<lambda>v_exe.
     rbind (job_field d ''daidir'' to_str []) (\<lambda>v_daidir.
     rbind (job_field d ''mdir'' to_str ''csrc'') (\<lambda>v_mdir.
     rbind (job_field d ''log'' to_ostr None) (\<lambda>v_log.
     rbind (job_field d ''analyse'' to_bool True) (\<lambda>v_analyse.
     rbind (job_field d ''elaborate'' to_bool True) (\<lambda>v_elaborate.
     rbind (job_field d ''run'' to_bool False) (\<lambda>v_run.
     rbind (job_field d ''plusargs'' to_strs []) (\<lambda>v_plusargs.
     rbind (job_field d ''run_log'' to_ostr None) (\<lambda>v_run_log.
     rbind (job_field d ''finish'' to_ostr None) (\<lambda>v_finish.
     rbind (job_field d ''seed'' to_ostr None) (\<lambda>v_seed.
     rbind (job_field d ''debug'' to_strs []) (\<lambda>v_debug.
     rbind (job_field d ''coverage'' to_strs []) (\<lambda>v_coverage.
     rbind (job_field d ''unmapped'' to_unmapped []) (\<lambda>v_unmapped.
     rbind (job_field d ''ams_control'' to_ostr None) (\<lambda>v_ams_control.
     rbind (job_field d ''ams'' to_json JNull) (\<lambda>v_ams.
     rbind (job_field d ''precision'' to_ostr None) (\<lambda>v_precision.
     rbind (job_field d ''engine'' to_str ''nvc'') (\<lambda>v_engine.
     rbind (job_field d ''dump'' to_json JNull) (\<lambda>v_dump.
     rbind (job_field d ''schema'' to_int SCHEMA) (\<lambda>v_schema.
     Inr \<lparr>jb_personality = v_personality, jb_argv = v_argv, jb_cwd = v_cwd, jb_sources = v_sources, jb_lib_files = v_lib_files, jb_lib_dirs = v_lib_dirs, jb_lib_exts = v_lib_exts, jb_incdirs = v_incdirs, jb_defines = v_defines, jb_timescale = v_timescale, jb_override_timescale = v_override_timescale, jb_std = v_std, jb_tops = v_tops, jb_exe = v_exe, jb_daidir = v_daidir, jb_mdir = v_mdir, jb_log = v_log, jb_analyse = v_analyse, jb_elaborate = v_elaborate, jb_run = v_run, jb_plusargs = v_plusargs, jb_run_log = v_run_log, jb_finish = v_finish, jb_seed = v_seed, jb_debug = v_debug, jb_coverage = v_coverage, jb_unmapped = v_unmapped, jb_ams_control = v_ams_control, jb_ams = v_ams, jb_precision = v_precision, jb_engine = v_engine, jb_dump = v_dump, jb_schema = v_schema\<rparr>))))))))))))))))))))))))))))))))))"

section \<open>There and back\<close>

lemma text_disp_text [simp]: "text_disp (disp_text d) = Some d"
  by (cases d) (simp_all add: text_disp_def disp_text_def)

lemma to_strs_of [simp]: "to_strs (of_strs xs) = Some xs"
  by (simp add: of_strs_def omap_map)

lemma to_ostr_of [simp]: "to_ostr (of_ostr x) = Some x"
  by (cases x) (simp_all add: of_ostr_def)

lemma to_sdict_of [simp]: "to_sdict (of_sdict d) = Some d"
  by (auto simp: of_sdict_def intro!: omap_map)

lemma to_sources_of [simp]: "to_sources (of_sources ss) = Some ss"
  by (auto simp: of_sources_def str_field_def intro!: omap_map)

lemma to_unmapped_of [simp]: "to_unmapped (of_unmapped us) = Some us"
  by (auto simp: of_unmapped_def str_field_def intro!: omap_map)

lemma job_field_Some: "map_of d k = Some v \<Longrightarrow> dec v = Some x \<Longrightarrow> job_field d k dec dflt = Inr x"
  by (simp add: job_field_def)

lemma dict_personality: "job_field (to_dict j) ''personality'' to_str dflt = Inr (jb_personality j)"
  by (rule job_field_Some [where v = "JStr (jb_personality j)"]) (simp_all add: to_dict_def to_json_def)

lemma dict_argv: "job_field (to_dict j) ''argv'' to_strs dflt = Inr (jb_argv j)"
  by (rule job_field_Some [where v = "of_strs (jb_argv j)"]) (simp_all add: to_dict_def to_json_def)

lemma dict_cwd: "job_field (to_dict j) ''cwd'' to_str dflt = Inr (jb_cwd j)"
  by (rule job_field_Some [where v = "JStr (jb_cwd j)"]) (simp_all add: to_dict_def to_json_def)

lemma dict_sources: "job_field (to_dict j) ''sources'' to_sources dflt = Inr (jb_sources j)"
  by (rule job_field_Some [where v = "of_sources (jb_sources j)"]) (simp_all add: to_dict_def to_json_def)

lemma dict_lib_files: "job_field (to_dict j) ''lib_files'' to_strs dflt = Inr (jb_lib_files j)"
  by (rule job_field_Some [where v = "of_strs (jb_lib_files j)"]) (simp_all add: to_dict_def to_json_def)

lemma dict_lib_dirs: "job_field (to_dict j) ''lib_dirs'' to_strs dflt = Inr (jb_lib_dirs j)"
  by (rule job_field_Some [where v = "of_strs (jb_lib_dirs j)"]) (simp_all add: to_dict_def to_json_def)

lemma dict_lib_exts: "job_field (to_dict j) ''lib_exts'' to_strs dflt = Inr (jb_lib_exts j)"
  by (rule job_field_Some [where v = "of_strs (jb_lib_exts j)"]) (simp_all add: to_dict_def to_json_def)

lemma dict_incdirs: "job_field (to_dict j) ''incdirs'' to_strs dflt = Inr (jb_incdirs j)"
  by (rule job_field_Some [where v = "of_strs (jb_incdirs j)"]) (simp_all add: to_dict_def to_json_def)

lemma dict_defines: "job_field (to_dict j) ''defines'' to_sdict dflt = Inr (jb_defines j)"
  by (rule job_field_Some [where v = "of_sdict (jb_defines j)"]) (simp_all add: to_dict_def to_json_def)

lemma dict_timescale: "job_field (to_dict j) ''timescale'' to_ostr dflt = Inr (jb_timescale j)"
  by (rule job_field_Some [where v = "of_ostr (jb_timescale j)"]) (simp_all add: to_dict_def to_json_def)

lemma dict_override_timescale: "job_field (to_dict j) ''override_timescale'' to_ostr dflt = Inr (jb_override_timescale j)"
  by (rule job_field_Some [where v = "of_ostr (jb_override_timescale j)"]) (simp_all add: to_dict_def to_json_def)

lemma dict_std: "job_field (to_dict j) ''std'' to_str dflt = Inr (jb_std j)"
  by (rule job_field_Some [where v = "JStr (jb_std j)"]) (simp_all add: to_dict_def to_json_def)

lemma dict_tops: "job_field (to_dict j) ''tops'' to_strs dflt = Inr (jb_tops j)"
  by (rule job_field_Some [where v = "of_strs (jb_tops j)"]) (simp_all add: to_dict_def to_json_def)

lemma dict_exe: "job_field (to_dict j) ''exe'' to_str dflt = Inr (jb_exe j)"
  by (rule job_field_Some [where v = "JStr (jb_exe j)"]) (simp_all add: to_dict_def to_json_def)

lemma dict_daidir: "job_field (to_dict j) ''daidir'' to_str dflt = Inr (jb_daidir j)"
  by (rule job_field_Some [where v = "JStr (jb_daidir j)"]) (simp_all add: to_dict_def to_json_def)

lemma dict_mdir: "job_field (to_dict j) ''mdir'' to_str dflt = Inr (jb_mdir j)"
  by (rule job_field_Some [where v = "JStr (jb_mdir j)"]) (simp_all add: to_dict_def to_json_def)

lemma dict_log: "job_field (to_dict j) ''log'' to_ostr dflt = Inr (jb_log j)"
  by (rule job_field_Some [where v = "of_ostr (jb_log j)"]) (simp_all add: to_dict_def to_json_def)

lemma dict_analyse: "job_field (to_dict j) ''analyse'' to_bool dflt = Inr (jb_analyse j)"
  by (rule job_field_Some [where v = "JBool (jb_analyse j)"]) (simp_all add: to_dict_def to_json_def)

lemma dict_elaborate: "job_field (to_dict j) ''elaborate'' to_bool dflt = Inr (jb_elaborate j)"
  by (rule job_field_Some [where v = "JBool (jb_elaborate j)"]) (simp_all add: to_dict_def to_json_def)

lemma dict_run: "job_field (to_dict j) ''run'' to_bool dflt = Inr (jb_run j)"
  by (rule job_field_Some [where v = "JBool (jb_run j)"]) (simp_all add: to_dict_def to_json_def)

lemma dict_plusargs: "job_field (to_dict j) ''plusargs'' to_strs dflt = Inr (jb_plusargs j)"
  by (rule job_field_Some [where v = "of_strs (jb_plusargs j)"]) (simp_all add: to_dict_def to_json_def)

lemma dict_run_log: "job_field (to_dict j) ''run_log'' to_ostr dflt = Inr (jb_run_log j)"
  by (rule job_field_Some [where v = "of_ostr (jb_run_log j)"]) (simp_all add: to_dict_def to_json_def)

lemma dict_finish: "job_field (to_dict j) ''finish'' to_ostr dflt = Inr (jb_finish j)"
  by (rule job_field_Some [where v = "of_ostr (jb_finish j)"]) (simp_all add: to_dict_def to_json_def)

lemma dict_seed: "job_field (to_dict j) ''seed'' to_ostr dflt = Inr (jb_seed j)"
  by (rule job_field_Some [where v = "of_ostr (jb_seed j)"]) (simp_all add: to_dict_def to_json_def)

lemma dict_debug: "job_field (to_dict j) ''debug'' to_strs dflt = Inr (jb_debug j)"
  by (rule job_field_Some [where v = "of_strs (jb_debug j)"]) (simp_all add: to_dict_def to_json_def)

lemma dict_coverage: "job_field (to_dict j) ''coverage'' to_strs dflt = Inr (jb_coverage j)"
  by (rule job_field_Some [where v = "of_strs (jb_coverage j)"]) (simp_all add: to_dict_def to_json_def)

lemma dict_unmapped: "job_field (to_dict j) ''unmapped'' to_unmapped dflt = Inr (jb_unmapped j)"
  by (rule job_field_Some [where v = "of_unmapped (jb_unmapped j)"]) (simp_all add: to_dict_def to_json_def)

lemma dict_ams_control: "job_field (to_dict j) ''ams_control'' to_ostr dflt = Inr (jb_ams_control j)"
  by (rule job_field_Some [where v = "of_ostr (jb_ams_control j)"]) (simp_all add: to_dict_def to_json_def)

lemma dict_ams: "job_field (to_dict j) ''ams'' to_json dflt = Inr (jb_ams j)"
  by (rule job_field_Some [where v = "id (jb_ams j)"]) (simp_all add: to_dict_def to_json_def)

lemma dict_precision: "job_field (to_dict j) ''precision'' to_ostr dflt = Inr (jb_precision j)"
  by (rule job_field_Some [where v = "of_ostr (jb_precision j)"]) (simp_all add: to_dict_def to_json_def)

lemma dict_engine: "job_field (to_dict j) ''engine'' to_str dflt = Inr (jb_engine j)"
  by (rule job_field_Some [where v = "JStr (jb_engine j)"]) (simp_all add: to_dict_def to_json_def)

lemma dict_dump: "job_field (to_dict j) ''dump'' to_json dflt = Inr (jb_dump j)"
  by (rule job_field_Some [where v = "id (jb_dump j)"]) (simp_all add: to_dict_def to_json_def)

lemma dict_schema: "job_field (to_dict j) ''schema'' to_int dflt = Inr (jb_schema j)"
  by (rule job_field_Some [where v = "JInt (jb_schema j)"]) (simp_all add: to_dict_def to_json_def)

lemmas dict_fields = dict_personality dict_argv dict_cwd dict_sources dict_lib_files dict_lib_dirs dict_lib_exts dict_incdirs dict_defines dict_timescale dict_override_timescale dict_std dict_tops dict_exe dict_daidir dict_mdir dict_log dict_analyse dict_elaborate dict_run dict_plusargs dict_run_log dict_finish dict_seed dict_debug dict_coverage dict_unmapped dict_ams_control dict_ams dict_precision dict_engine dict_dump dict_schema

lemma unknown_keys_to_dict [simp]: "unknown_keys (to_dict j) = []"
  by (simp add: unknown_keys_def to_dict_def JOB_FIELDS_def sort_key_def)

lemma personality_to_dict [simp]: "map_of (to_dict j) ''personality'' \<noteq> None"
  by (simp add: to_dict_def)

lemma from_to_dict: "jb_schema j \<le> SCHEMA \<Longrightarrow> from_dict (to_dict j) = Inr j"
  unfolding from_dict_def job_schema_def dict_fields
  using personality_to_dict [of j] by simp

end
