(* ===== verification/OptTable.thy ===== *)
theory OptTable
  imports JobIr
begin

text \<open>
  \<open>vamos/optable.py\<close>: the declarative option tables. An action is a disposition to record or a
  function of the job and the option's value; the job is any type with the job protocol, which the
  locale \<open>job_protocol\<close> states. \<open>scan\<close> may call \<open>unknown\<close>, which says how many words it has taken:
  with a function that takes none the loop never ends, so \<open>scan\<close> is an option, \<open>None\<close> for no return.
\<close>

section \<open>Options and tables\<close>

datatype arity = Flag | Next | Eq | Plus | Prefix

datatype optval = VNone | VText string | VList "string list"

datatype 'j action = Record disposition | Apply "'j \<Rightarrow> optval \<Rightarrow> 'j"

record 'j opt =
  o_name :: string
  o_arity :: arity
  o_act :: "'j action"
  o_note :: string

record 'j table =
  t_exact :: "(string \<times> 'j opt) list"
  t_fuzzy :: "'j opt list"

definition is_exact :: "'j opt \<Rightarrow> bool" where
  "is_exact o' \<longleftrightarrow> o_arity o' = Flag \<or> o_arity o' = Next"

definition make_table :: "'j opt list \<Rightarrow> 'j table" where
  "make_table opts =
     \<lparr>t_exact = rev (map (\<lambda>o'. (o_name o', o')) (filter is_exact opts)),
      t_fuzzy = sort_key (\<lambda>o'. - int (length (o_name o'))) (filter (\<lambda>o'. \<not> is_exact o') opts)\<rparr>"

definition fuzzy_match :: "string \<Rightarrow> 'j opt \<Rightarrow> bool" where
  "fuzzy_match tok o' \<longleftrightarrow>
     (o_arity o' = Eq \<and> py_startswith tok (o_name o' @ ''='')) \<or>
     ((o_arity o' = Plus \<or> o_arity o' = Prefix) \<and> py_startswith tok (o_name o'))"

definition table_match :: "'j table \<Rightarrow> string \<Rightarrow> 'j opt option" where
  "table_match t tok = (case map_of (t_exact t) tok of
     Some o' \<Rightarrow> Some o'
   | None \<Rightarrow> find (fuzzy_match tok) (t_fuzzy t))"

definition plus_parts :: "string \<Rightarrow> string list" where
  "plus_parts s = filter (\<lambda>p. p \<noteq> []) (py_split CHR ''+'' s)"

definition value_of :: "'j opt \<Rightarrow> string \<Rightarrow> optval" where
  "value_of o' tok = (case o_arity o' of
     Eq \<Rightarrow> VText (drop (length (o_name o') + 1) tok)
   | Plus \<Rightarrow> VList (plus_parts (drop (length (o_name o')) tok))
   | Prefix \<Rightarrow> VText (drop (length (o_name o')) tok)
   | _ \<Rightarrow> VNone)"

section \<open>Scanning\<close>

datatype scan_err = NeedsValue string

definition is_opt_token :: "string \<Rightarrow> string \<Rightarrow> bool" where
  "is_opt_token chars tok \<longleftrightarrow> tok \<noteq> [] \<and> hd tok \<in> set chars"

definition bare_char :: "string \<Rightarrow> string \<Rightarrow> bool" where
  "bare_char chars tok \<longleftrightarrow> (\<exists>c \<in> set chars. tok = [c])"

text \<open>What the loop's caller brings: the record of an option, and its two functions.\<close>

record 'j handlers =
  h_note :: "string \<Rightarrow> disposition \<Rightarrow> string \<Rightarrow> 'j \<Rightarrow> 'j"
  h_positional :: "'j \<Rightarrow> string \<Rightarrow> 'j"
  h_unknown :: "'j \<Rightarrow> string \<Rightarrow> string list \<Rightarrow> nat \<Rightarrow> 'j \<times> nat"
  h_chars :: string

definition apply_opt :: "'j handlers \<Rightarrow> 'j opt \<Rightarrow> string \<Rightarrow> optval \<Rightarrow> string \<Rightarrow> 'j \<Rightarrow> 'j" where
  "apply_opt h o' tok val shown j = (case o_act o' of
     Apply f \<Rightarrow> f j val
   | Record d \<Rightarrow> h_note h shown d (o_note o') j)"

text \<open>One pass at index \<open>i\<close>: the next index and the job.\<close>

definition scan_step :: "'j table \<Rightarrow> 'j handlers \<Rightarrow> string list \<Rightarrow> nat \<Rightarrow> 'j \<Rightarrow> scan_err + (nat \<times> 'j)" where
  "scan_step t h args i j =
     (let tok = args ! i;
          opt = (if is_opt_token (h_chars h) tok then table_match t tok else None)
      in case opt of
           None \<Rightarrow>
             if is_opt_token (h_chars h) tok \<and> \<not> bare_char (h_chars h) tok
             then (case h_unknown h j tok args i of (j', n) \<Rightarrow> Inr (i + n, j'))
             else Inr (i + 1, h_positional h j tok)
         | Some o' \<Rightarrow>
             if o_arity o' = Next then
               (if i + 1 \<ge> length args then Inl (NeedsValue tok)
                else Inr (i + 2, apply_opt h o' tok (VText (args ! (i + 1))) (tok @ '' '' @ args ! (i + 1)) j))
             else Inr (i + 1, apply_opt h o' tok (value_of o' tok) tok j))"

partial_function (option) scan_loop ::
  "'j table \<Rightarrow> 'j handlers \<Rightarrow> string list \<Rightarrow> nat \<Rightarrow> 'j \<Rightarrow> (scan_err + 'j) option" where
  "scan_loop t h args i j =
     (if i < length args then
        (case scan_step t h args i j of
           Inl e \<Rightarrow> Some (Inl e)
         | Inr (i', j') \<Rightarrow> scan_loop t h args i' j')
      else Some (Inr j))"

declare scan_loop.simps [code]

definition scan :: "'j table \<Rightarrow> 'j handlers \<Rightarrow> string list \<Rightarrow> 'j \<Rightarrow> (scan_err + 'j) option" where
  "scan t h args j = scan_loop t h args 0 j"

section \<open>Reports\<close>

definition unmapped_note :: "unmapped \<Rightarrow> diag option" where
  "unmapped_note u =
     (let o' = um_option u; why = um_note u in
      case um_disposition u of
        IGNORED \<Rightarrow> None
      | NOTED \<Rightarrow> Some (mk_note [] (o' @ (if why \<noteq> [] then '': '' @ why else [])))
      | UNSUPPORTED \<Rightarrow> Some (warning [] (o' @ '' is not supported yet'' @ (if why \<noteq> [] then '' ('' @ why @ '')'' else [])))
      | UNKNOWN \<Rightarrow> Some (warning [] (''unknown option '' @ o' @ '' ignored'' @ (if why \<noteq> [] then '' ('' @ why @ '')'' else [])))
      | INAPPLICABLE \<Rightarrow> Some (warning [] (o' @ '' has no effect'' @ (if why \<noteq> [] then '': '' @ why else []))))"

definition unmapped_notes :: "unmapped list \<Rightarrow> diag list" where
  "unmapped_notes us = List.map_filter unmapped_note us"

definition report_unmapped :: "unmapped list \<Rightarrow> string list" where
  "report_unmapped us = map (\<lambda>n. ''vamos: '' @ diag_text n) (unmapped_notes us)"

definition strict_failures :: "unmapped list \<Rightarrow> string list" where
  "strict_failures us =
     map um_option (filter (\<lambda>u. um_disposition u \<in> {UNSUPPORTED, UNKNOWN, INAPPLICABLE}) us)"

section \<open>The tool's own options\<close>

datatype reach = Any | Compile | Ams | Run | Simv | SpectreRun

record vamos_opt =
  vo_key :: string
  vo_value :: "string option"
  vo_where :: reach
  vo_choices :: "string list"
  vo_also :: "reach list"

definition vopt :: "string \<Rightarrow> string option \<Rightarrow> reach \<Rightarrow> string list \<Rightarrow> reach list \<Rightarrow> vamos_opt" where
  "vopt k v w c a = \<lparr>vo_key = k, vo_value = v, vo_where = w, vo_choices = c, vo_also = a\<rparr>"

definition VAMOS_OPTIONS :: "vamos_opt list" where
  "VAMOS_OPTIONS = [
     vopt ''banner'' (Some ''<name|path|none>'') Any [] [],
     vopt ''strict'' None Any [] [],
     vopt ''verbose'' None Any [] [],
     vopt ''engine'' (Some ''nvc|verilator'') Compile [''nvc'', ''verilator''] [],
     vopt ''licenses'' None Any [] [],
     vopt ''version'' None Any [] [],
     vopt ''analog'' (Some ''vacask|xyce'') Ams [''vacask'', ''xyce''] [SpectreRun],
     vopt ''analog_stop'' (Some ''<time>'') Ams [] [],
     vopt ''analog_maxstep'' (Some ''<time>'') Ams [] [],
     vopt ''parhier'' (Some ''local|global'') Ams [''local'', ''global''] [],
     vopt ''no_deck_check'' None Ams [] [],
     vopt ''keep'' None Run [] [SpectreRun],
     vopt ''psf_names'' (Some ''modern|legacy'') SpectreRun [''modern'', ''legacy''] [],
     vopt ''daidir'' (Some ''<dir>'') Simv [] [],
     vopt ''append_log'' None Simv [] []]"

definition vamos_key :: "string \<Rightarrow> vamos_opt option" where
  "vamos_key k = find (\<lambda>o'. vo_key o' = k) VAMOS_OPTIONS"

definition PLANNED_KEYS :: "string list" where
  "PLANNED_KEYS = [''selfcheck'', ''env'', ''config'', ''site'', ''sites'', ''shell'', ''mc'', ''corner'', ''wave'']"

text \<open>The value of an option in the dictionary: \<open>True\<close>, or a text.\<close>

datatype vval = VTrue | VStr string

definition option_name :: "string \<Rightarrow> string" where
  "option_name k = ''--vamos-'' @ map (\<lambda>c. if c = CHR ''_'' then CHR ''-'' else c) k"

definition vamos_option_text :: "string \<Rightarrow> vval \<Rightarrow> string" where
  "vamos_option_text k v = (case v of VTrue \<Rightarrow> option_name k | VStr s \<Rightarrow> option_name k @ ''='' @ s)"

datatype usage_err =
    Planned string
  | UnknownVamos string "string option"
  | TakesNoValue string string
  | MissingValue string string
  | BadChoice string string "string list"

text \<open>
  \<open>check_vamos_opts\<close>; the nearest known key, \<open>difflib.get_close_matches\<close>, is the argument \<open>near\<close>
  and only part of a message.
\<close>

definition check_opt :: "(string \<Rightarrow> string option) \<Rightarrow> string \<times> vval \<Rightarrow> usage_err list" where
  "check_opt near = (\<lambda>(k, v).
     case vamos_key k of
       None \<Rightarrow> if k \<in> set PLANNED_KEYS then [Planned (vamos_option_text k v)]
               else [UnknownVamos (vamos_option_text k v) (near k)]
     | Some spec \<Rightarrow>
         (case vo_value spec of
            None \<Rightarrow> if v \<noteq> VTrue then [TakesNoValue (option_name k) (vamos_option_text k v)] else []
          | Some form \<Rightarrow>
              (case v of
                 VTrue \<Rightarrow> [MissingValue (option_name k) form]
               | VStr s \<Rightarrow>
                   if s = [] then [MissingValue (option_name k) form]
                   else if vo_choices spec \<noteq> [] \<and> py_lower s \<notin> set (vo_choices spec)
                   then [BadChoice k (vamos_option_text k v) (vo_choices spec)] else [])))"

definition check_vamos_opts :: "(string \<Rightarrow> string option) \<Rightarrow> (string \<times> vval) list \<Rightarrow> usage_err list" where
  "check_vamos_opts near opts = concat (map (check_opt near) opts)"

datatype why =
    PassThrough string
  | AmsCompileOption
  | CompileOption
  | SimvOption
  | CompileTimeOption
  | SpectreOption
  | NotAmsCompile
  | NothingRuns
  | DigitalRun

definition no_effect :: "vamos_opt \<Rightarrow> string \<Rightarrow> bool \<Rightarrow> bool \<Rightarrow> why option" where
  "no_effect spec personality ams run =
     (if personality = ''spectre'' then
        (if vo_where spec = Any \<or> vo_where spec = SpectreRun \<or> SpectreRun \<in> set (vo_also spec) then None
         else if vo_where spec = Ams then Some AmsCompileOption
         else if vo_where spec = Compile then Some CompileOption
         else Some SimvOption)
      else if personality = ''simv'' then
        (if vo_where spec = Ams \<or> vo_where spec = Compile then Some CompileTimeOption
         else if vo_where spec = SpectreRun then Some SpectreOption else None)
      else
        (if vo_where spec = Ams \<and> \<not> ams then Some NotAmsCompile
         else if vo_where spec = Run \<and> \<not> run then Some NothingRuns
         else if vo_where spec = Run \<and> \<not> ams then Some DigitalRun
         else if vo_where spec = Simv then Some SimvOption
         else if vo_where spec = SpectreRun then Some SpectreOption else None))"

definition option_effect :: "string \<Rightarrow> bool \<Rightarrow> bool \<Rightarrow> string \<times> vval \<Rightarrow> (string \<times> why) list" where
  "option_effect personality ams run = (\<lambda>(k, v).
     case vamos_key k of
       None \<Rightarrow> []
     | Some spec \<Rightarrow>
         if k = ''version'' \<or> k = ''licenses'' then []
         else if personality \<notin> {''vcs'', ''vcs-ams'', ''simv'', ''spectre''}
         then [(vamos_option_text k v, PassThrough personality)]
         else (case no_effect spec personality ams run of
                 None \<Rightarrow> [] | Some w \<Rightarrow> [(vamos_option_text k v, w)]))"

definition vamos_option_effects ::
  "(string \<times> vval) list \<Rightarrow> string \<Rightarrow> bool \<Rightarrow> bool \<Rightarrow> (string \<times> why) list" where
  "vamos_option_effects opts personality ams run = concat (map (option_effect personality ams run) opts)"

section \<open>The interface: a job that records options\<close>

locale job_protocol =
  fixes note_opt :: "string \<Rightarrow> disposition \<Rightarrow> string \<Rightarrow> 'j \<Rightarrow> 'j"
    and entries :: "'j \<Rightarrow> unmapped list"
  assumes entries_note: "entries (note_opt o' d w j) =
    entries j @ [\<lparr>um_option = o', um_disposition = d, um_note = w\<rparr>]"
begin

definition keeps :: "'j \<Rightarrow> 'j \<Rightarrow> bool" where
  "keeps j j' \<longleftrightarrow> (\<exists>us. entries j' = entries j @ us)"

lemma keeps_refl: "keeps j j"
  by (simp add: keeps_def)

lemma keeps_trans: "keeps a b \<Longrightarrow> keeps b c \<Longrightarrow> keeps a c"
  by (auto simp: keeps_def)

lemma keeps_note: "keeps j (note_opt o' d w j)"
  by (simp add: keeps_def entries_note)

text \<open>The scan loses no entry when no callback does.\<close>

definition callbacks_keep :: "'j table \<Rightarrow> 'j handlers \<Rightarrow> bool" where
  "callbacks_keep t h \<longleftrightarrow> h_note h = note_opt \<and> (\<forall>j tok. keeps j (h_positional h j tok)) \<and>
     (\<forall>j tok args i. keeps j (fst (h_unknown h j tok args i))) \<and>
     (\<forall>tok o' f v j. table_match t tok = Some o' \<longrightarrow> o_act o' = Apply f \<longrightarrow> keeps j (f j v))"

lemma apply_opt_keeps:
  "callbacks_keep t h \<Longrightarrow> table_match t tok = Some o' \<Longrightarrow> keeps j (apply_opt h o' tok v s j)"
  by (cases "o_act o'") (auto simp: apply_opt_def callbacks_keep_def keeps_note)

lemma scan_step_keeps: "callbacks_keep t h \<Longrightarrow> scan_step t h args i j = Inr (i', j') \<Longrightarrow> keeps j j'"
proof -
  assume c: "callbacks_keep t h" and s: "scan_step t h args i j = Inr (i', j')"
  let ?tok = "args ! i"
  show ?thesis
  proof (cases "if is_opt_token (h_chars h) ?tok then table_match t ?tok else None")
    case None
    have u: "keeps j (fst (h_unknown h j ?tok args i))" and p: "keeps j (h_positional h j ?tok)"
      using c by (simp_all add: callbacks_keep_def)
    show ?thesis
      using s None u p by (auto simp: scan_step_def Let_def split: if_splits prod.splits)
  next
    case (Some o')
    then have "table_match t ?tok = Some o'" by (auto split: if_splits)
    then have "keeps j (apply_opt h o' ?tok v sh j)" for v sh using apply_opt_keeps [OF c] by blast
    then show ?thesis using s Some by (auto simp: scan_step_def Let_def split: if_splits)
  qed
qed

lemma scan_loop_keeps:
  assumes "scan_loop t h args i j = Some y"
  shows "callbacks_keep t h \<longrightarrow> (\<forall>j'. y = Inr j' \<longrightarrow> keeps j j')"
  using assms
proof (rule scan_loop.raw_induct [where P = "\<lambda>t h args i j y. callbacks_keep t h \<longrightarrow> (\<forall>j'. y = Inr j' \<longrightarrow> keeps j j')", rotated])
  fix sl :: "'j table \<Rightarrow> 'j handlers \<Rightarrow> string list \<Rightarrow> nat \<Rightarrow> 'j \<Rightarrow> (scan_err + 'j) option" and t h args i j y
  assume IH: "\<And>t h args i j y. sl t h args i j = Some y \<Longrightarrow>
      callbacks_keep t h \<longrightarrow> (\<forall>j'. y = Inr j' \<longrightarrow> keeps j j')"
    and b: "(if i < length args then case scan_step t h args i j of Inl e \<Rightarrow> Some (Inl e)
        | Inr (i', j') \<Rightarrow> sl t h args i' j' else Some (Inr j)) = Some y"
  show "callbacks_keep t h \<longrightarrow> (\<forall>j'. y = Inr j' \<longrightarrow> keeps j j')"
  proof (intro impI allI)
    fix j'
    assume c: "callbacks_keep t h" and y: "y = Inr j'"
    show "keeps j j'"
    proof (cases "i < length args")
      case True
      then obtain i1 j1 where s: "scan_step t h args i j = Inr (i1, j1)" "sl t h args i1 j1 = Some (Inr j')"
        using b y by (auto split: sum.splits)
      have "keeps j1 j'" using IH [OF s(2)] c by blast
      with scan_step_keeps [OF c s(1)] show ?thesis by (rule keeps_trans)
    next
      case False
      then show ?thesis using b y by (simp add: keeps_refl)
    qed
  qed
qed

lemma scan_keeps: "callbacks_keep t h \<Longrightarrow> scan t h args j = Some (Inr j') \<Longrightarrow> keeps j j'"
  using scan_loop_keeps [of t h args 0 j "Inr j'"] by (simp add: scan_def)

end

interpretation job_entries: job_protocol job_note jb_unmapped
  by unfold_locales (simp add: job_note_def)

section \<open>Properties\<close>

text \<open>The scan returns when \<open>unknown\<close> takes at least one word.\<close>

lemma scan_step_advances:
  assumes "\<And>j tok i. snd (h_unknown h j tok args i) \<ge> 1" and "scan_step t h args i j = Inr (i', j')"
  shows "i < i'"
proof -
  have "i < i + snd (h_unknown h j (args ! i) args i)"
    using assms(1) [of j "args ! i" i] by simp
  then show ?thesis
    using assms(2) by (auto simp: scan_step_def Let_def split: option.splits if_splits prod.splits)
qed

lemma scan_loop_returns:
  assumes "\<And>j tok i. snd (h_unknown h j tok args i) \<ge> 1"
  shows "\<exists>r. scan_loop t h args i j = Some r"
proof (induction "length args - i" arbitrary: i j rule: less_induct)
  case less
  show ?case
  proof (cases "i < length args")
    case True
    show ?thesis
    proof (cases "scan_step t h args i j")
      case (Inl e)
      then show ?thesis using True by (simp add: scan_loop.simps [of t h args i j])
    next
      case (Inr x)
      obtain i' j' where x: "x = (i', j')" by (cases x)
      have "i < i'" using scan_step_advances [OF assms] Inr x by blast
      then have "\<exists>r. scan_loop t h args i' j' = Some r" using less True by (metis diff_less_mono2)
      then show ?thesis using True Inr x by (simp add: scan_loop.simps [of t h args i j])
    qed
  next
    case False
    then show ?thesis by (simp add: scan_loop.simps [of t h args i j])
  qed
qed

text \<open>A word that an exact name matches has that option, and else the longest name that fits.\<close>

lemma table_match_longest:
  assumes "table_match (make_table opts) tok = Some o1" and "map_of (t_exact (make_table opts)) tok = None"
    and "o2 \<in> set opts" and "\<not> is_exact o2" and "fuzzy_match tok o2"
  shows "length (o_name o2) \<le> length (o_name o1)"
proof -
  let ?f = "\<lambda>o'. - int (length (o_name o'))"
  let ?xs = "sort_key ?f (filter (\<lambda>o'. \<not> is_exact o') opts)"
  have "find (fuzzy_match tok) ?xs = Some o1"
    using assms(1, 2) by (simp add: table_match_def make_table_def)
  then obtain i where i: "i < length ?xs" "?xs ! i = o1" "\<forall>j < i. \<not> fuzzy_match tok (?xs ! j)"
    by (auto simp: find_Some_iff)
  have "o2 \<in> set ?xs" using assms(3, 4) by simp
  then obtain k where k: "k < length ?xs" "?xs ! k = o2" by (metis in_set_conv_nth)
  have "i \<le> k" using i(3) k assms(5) by (metis not_le)
  moreover have "sorted (map ?f ?xs)" by (rule sorted_sort_key)
  ultimately have "map ?f ?xs ! i \<le> map ?f ?xs ! k" using k(1) by (intro sorted_nth_mono) simp_all
  then show ?thesis using i k by simp
qed

lemma table_match_fits:
  assumes "table_match (make_table opts) tok = Some o'"
  shows "o' \<in> set opts \<and> (if is_exact o' then o_name o' = tok else fuzzy_match tok o')"
proof (cases "map_of (t_exact (make_table opts)) tok")
  case None
  then have f: "find (fuzzy_match tok) (t_fuzzy (make_table opts)) = Some o'"
    using assms by (simp add: table_match_def)
  then have "fuzzy_match tok o'" "o' \<in> set (t_fuzzy (make_table opts))"
    by (auto simp: find_Some_iff)
  then show ?thesis by (simp add: make_table_def)
next
  case (Some o2)
  then have "(tok, o2) \<in> set (t_exact (make_table opts))" by (rule map_of_SomeD)
  then show ?thesis using assms Some by (auto simp: table_match_def make_table_def)
qed

lemma value_of_eq: "o_arity o' = Eq \<Longrightarrow> value_of o' (o_name o' @ ''='' @ v) = VText v"
  by (simp add: value_of_def)

lemma strict_failures_warn:
  "(strict_failures us \<noteq> []) = (\<exists>n \<in> set (unmapped_notes us). severity n = WARNING)"
proof (induction us)
  case (Cons u us)
  then show ?case
    by (cases "um_disposition u")
      (simp_all add: strict_failures_def unmapped_notes_def unmapped_note_def mk_note_def warning_def
        map_filter_simps Let_def)
qed (simp add: strict_failures_def unmapped_notes_def map_filter_simps)

text \<open>An accepted dictionary has known keys only, and values of the right form.\<close>

definition accepted_opt :: "string \<Rightarrow> vval \<Rightarrow> bool" where
  "accepted_opt k v \<longleftrightarrow> (\<exists>spec. vamos_key k = Some spec \<and>
     (if vo_value spec = None then v = VTrue
      else \<exists>s. v = VStr s \<and> s \<noteq> [] \<and> (vo_choices spec = [] \<or> py_lower s \<in> set (vo_choices spec))))"

lemma check_opt_ok: "check_opt near (k, v) = [] \<longleftrightarrow> accepted_opt k v"
  by (auto simp: check_opt_def accepted_opt_def split: option.splits vval.splits)

lemma check_vamos_opts_ok:
  "check_vamos_opts near opts = [] \<longleftrightarrow> (\<forall>(k, v) \<in> set opts. accepted_opt k v)"
proof -
  have "check_vamos_opts near opts = [] \<longleftrightarrow> (\<forall>kv \<in> set opts. check_opt near kv = [])"
    by (simp add: check_vamos_opts_def)
  also have "\<dots> \<longleftrightarrow> (\<forall>(k, v) \<in> set opts. accepted_opt k v)"
    by (intro ball_cong refl) (metis case_prod_conv check_opt_ok old.prod.exhaust)
  finally show ?thesis .
qed

text \<open>Every option has an effect in some invocation.\<close>

lemma every_option_useful:
  "spec \<in> set VAMOS_OPTIONS \<Longrightarrow>
   \<exists>p \<in> {''vcs'', ''simv'', ''spectre''}. \<exists>ams run. no_effect spec p ams run = None"
proof -
  assume s: "spec \<in> set VAMOS_OPTIONS"
  have "vo_where spec = Any \<or> vo_where spec = Compile \<or> vo_where spec = Ams \<Longrightarrow> no_effect spec ''vcs'' True True = None"
    "vo_where spec = Run \<or> vo_where spec = Simv \<Longrightarrow> no_effect spec ''simv'' True True = None"
    "vo_where spec = SpectreRun \<Longrightarrow> no_effect spec ''spectre'' True True = None"
    by (auto simp: no_effect_def)
  then show ?thesis by (cases "vo_where spec") blast+
qed

lemma any_option_effects:
  assumes "\<forall>kv \<in> set opts. \<exists>spec. vamos_key (fst kv) = Some spec \<and> vo_where spec = Any"
    and "p \<in> {''vcs'', ''vcs-ams'', ''simv'', ''spectre''}"
  shows "vamos_option_effects opts p ams run = []"
proof -
  have n: "no_effect spec p ams run = None" if "vo_where spec = Any" for spec
    using that by (simp add: no_effect_def)
  have "option_effect p ams run kv = []" if kv: "kv \<in> set opts" for kv
  proof -
    obtain spec where "vamos_key (fst kv) = Some spec" "vo_where spec = Any" using assms(1) kv by blast
    then show ?thesis using assms(2) n [of spec] by (cases kv) (simp add: option_effect_def)
  qed
  then show ?thesis by (simp add: vamos_option_effects_def)
qed

end
