(* ===== verification/ArgScan.thy ===== *)
theory ArgScan
  imports PosixPath
begin

text \<open>
  \<open>vamos/argscan.py\<close>: the option files of the command lines. \<open>strip_comments\<close> and
  \<open>expand_env\<close> clean a file's text, \<open>shlex.split\<close> (POSIX mode, no comments) cuts it into words, and
  \<open>expand_option_files\<close> replaces every \<open>-f\<close>, \<open>-F\<close> and \<open>-file\<close> by the words of its file. The
  environment and the file system are arguments: \<open>env\<close> of a variable, \<open>fs\<close> of a path, which gives
  the file's text or the reason why it cannot be read.
\<close>

section \<open>Text\<close>

definition word_char :: "char \<Rightarrow> bool" where
  "word_char c \<longleftrightarrow> name_char c \<or> py_isalpha c \<or> py_isdigit c \<or> of_char c \<in> {188, 189, 190 :: nat}"

text \<open>The pattern of \<open>_ENV_RE\<close> after the dollar: the variable and the rest.\<close>

definition env_ref :: "string \<Rightarrow> (string \<times> string) option" where
  "env_ref s = (case s of
     [] \<Rightarrow> None
   | c # r \<Rightarrow>
       if c = CHR ''{'' \<or> c = CHR ''('' then
         (let (w, t) = py_span word_char r in
          if w \<noteq> [] \<and> t \<noteq> [] \<and> hd t = (if c = CHR ''{'' then CHR ''}'' else CHR '')'')
          then Some (w, tl t) else None)
       else (let (w, t) = py_span word_char s in if w \<noteq> [] then Some (w, t) else None))"

lemma env_ref_length: "env_ref s = Some (w, t) \<Longrightarrow> length t < length s"
proof (cases s)
  case (Cons c r)
  have sp: "length v < length x" if "py_span word_char x = (u, v)" "u \<noteq> []" for x u v
    using py_span_length [OF that(1)] that(2) by (cases u) auto
  assume a: "env_ref s = Some (w, t)"
  show ?thesis
  proof (cases "c = CHR ''{'' \<or> c = CHR ''(''")
    case True
    then obtain v where "py_span word_char r = (w, v)" "w \<noteq> []" "t = tl v"
      using a Cons by (auto simp: env_ref_def split: prod.splits if_splits)
    then show ?thesis using sp [of r w v] Cons by simp
  next
    case False
    then have "py_span word_char s = (w, t)" "w \<noteq> []"
      using a Cons by (auto simp: env_ref_def split: prod.splits if_splits)
    then show ?thesis by (rule sp)
  qed
qed (simp add: env_ref_def)

function expand_env :: "(string \<rightharpoonup> string) \<Rightarrow> string \<Rightarrow> string" where
  "expand_env env [] = []"
| "expand_env env (c # r) =
     (if c = CHR ''$'' then
        (case env_ref r of
           None \<Rightarrow> c # expand_env env r
         | Some (w, t) \<Rightarrow> (case env w of Some v \<Rightarrow> v | None \<Rightarrow> []) @ expand_env env t)
      else c # expand_env env r)"
  by pat_completeness auto
termination
  by (relation "measure (\<lambda>(env, s). length s)") (auto dest!: env_ref_length)

text \<open>What \<open>find\<close> skips: the text after the first \<open>*/\<close>, and the text from the next newline on.\<close>

fun after_block :: "string \<Rightarrow> string" where
  "after_block (a # b # r) = (if a = CHR ''*'' \<and> b = CHR ''/'' then r else after_block (b # r))"
| "after_block _ = []"

definition from_newline :: "string \<Rightarrow> string" where
  "from_newline s = dropWhile (\<lambda>c. c \<noteq> CHR ''\<newline>'') s"

lemma after_block_length: "length (after_block s) \<le> length s"
  by (induction s rule: after_block.induct) auto

lemma from_newline_length: "length (from_newline s) \<le> length s"
  by (simp add: from_newline_def length_dropWhile_le)

lemma skip_less: "length (after_block (tl r)) < Suc (length r)" "length (from_newline r) < Suc (length r)"
  using after_block_length [of "tl r"] from_newline_length [of r] by simp_all

text \<open>
  The loop of \<open>strip_comments\<close>: the open quote, whether the line is blank so far, and the text left.
\<close>

definition blank_after :: "char \<Rightarrow> bool \<Rightarrow> bool" where
  "blank_after c line_blank =
     (if c = CHR ''\<newline>'' then True else if \<not> py_isspace c \<and> c \<noteq> CHR ''#'' then False else line_blank)"

function strip_loop :: "char option \<Rightarrow> bool \<Rightarrow> string \<Rightarrow> string" where
  "strip_loop qt lb [] = []"
| "strip_loop qt lb (c # r) =
     (let lb' = blank_after c lb in
      case qt of
        Some q \<Rightarrow>
          (case r of
             d # r' \<Rightarrow> if c = CHR 0x5C then c # d # strip_loop qt lb' r'
                       else c # strip_loop (if c = q then None else qt) lb' r
           | [] \<Rightarrow> [c])
      | None \<Rightarrow>
          if c = CHR 0x22 \<or> c = CHR 0x27 then c # strip_loop (Some c) lb' r
          else if py_startswith (c # r) ''/*'' then CHR '' '' # strip_loop None lb' (after_block (tl r))
          else if py_startswith (c # r) ''//'' then strip_loop None lb' (from_newline r)
          else if c = CHR ''#'' \<and> lb' then strip_loop None lb' (from_newline r)
          else c # strip_loop None lb' r)"
  by pat_completeness auto
termination
  by (relation "measure (\<lambda>(qt, lb, s). length s)") (auto simp: skip_less)

definition strip_comments :: "string \<Rightarrow> string" where
  "strip_comments text = strip_loop None True text"

section \<open>Words\<close>

datatype arg_err =
    CannotOpen string string
  | CannotParse string string
  | NestedTooDeep
  | NeedsFile string
  | IncludesItself string

datatype shlex_err = NoClosingQuotation | NoEscapedCharacter

definition shlex_space :: "char \<Rightarrow> bool" where
  "shlex_space c \<longleftrightarrow> c = CHR '' '' \<or> c = CHR 0x09 \<or> c = CHR 0x0D \<or> c = CHR ''\<newline>''"

text \<open>
  The scanner of \<open>shlex\<close>, with the word so far (\<open>None\<close>: no word has begun): outside quotes, and in
  a quote \<open>q\<close>, where a backslash escapes only itself and the quote, and only in double quotes.
\<close>

definition word_of :: "string option \<Rightarrow> string" where
  "word_of w = (case w of None \<Rightarrow> [] | Some s \<Rightarrow> s)"

fun shlex :: "char option \<Rightarrow> string option \<Rightarrow> string \<Rightarrow> shlex_err + string list" where
  "shlex None w [] = Inr (case w of None \<Rightarrow> [] | Some s \<Rightarrow> [s])"
| "shlex (Some q) w [] = Inl NoClosingQuotation"
| "shlex None w (c # r) =
     (if shlex_space c then
        (case w of None \<Rightarrow> shlex None None r
         | Some s \<Rightarrow> rbind (shlex None None r) (\<lambda>ws. Inr (s # ws)))
      else if c = CHR 0x5C then
        (case r of [] \<Rightarrow> Inl NoEscapedCharacter | d # r' \<Rightarrow> shlex None (Some (word_of w @ [d])) r')
      else if c = CHR 0x22 \<or> c = CHR 0x27 then shlex (Some c) (Some (word_of w)) r
      else shlex None (Some (word_of w @ [c])) r)"
| "shlex (Some q) w (c # r) =
     (if c = q then shlex None w r
      else if q = CHR 0x22 \<and> c = CHR 0x5C then
        (case r of
           [] \<Rightarrow> Inl NoEscapedCharacter
         | d # r' \<Rightarrow> shlex (Some q) (Some (word_of w @ (if d = q \<or> d = c then [d] else [c, d]))) r')
      else shlex (Some q) (Some (word_of w @ [c])) r)"

definition shlex_split :: "string \<Rightarrow> shlex_err + string list" where
  "shlex_split s = shlex None None s"

type_synonym files = "string \<Rightarrow> string + string"

fun shlex_text :: "shlex_err \<Rightarrow> string" where
  "shlex_text NoClosingQuotation = ''No closing quotation''"
| "shlex_text NoEscapedCharacter = ''No escaped character''"

definition tokenize_file :: "files \<Rightarrow> (string \<rightharpoonup> string) \<Rightarrow> string \<Rightarrow> arg_err + string list" where
  "tokenize_file fs env path = (case fs path of
     Inl why \<Rightarrow> Inl (CannotOpen path why)
   | Inr text \<Rightarrow>
       (case shlex_split (expand_env env (strip_comments text)) of
          Inl e \<Rightarrow> Inl (CannotParse path (shlex_text e))
        | Inr ws \<Rightarrow> Inr ws))"

section \<open>Option files\<close>

definition MAX_NESTING :: nat where "MAX_NESTING = 32"

definition INCDIR :: string where "INCDIR = ''+incdir+''"

definition nonempty_parts :: "string \<Rightarrow> string list" where
  "nonempty_parts s = filter (\<lambda>p. p \<noteq> []) (py_split CHR ''+'' s)"

definition plus_list :: "string \<Rightarrow> string \<Rightarrow> string list" where
  "plus_list arg pre = nonempty_parts (drop (length pre) arg)"

definition rebase :: "string \<Rightarrow> string \<Rightarrow> string" where
  "rebase tok base =
     (if tok = [] \<or> isabs tok \<or> py_startswith tok ''-'' \<or> py_startswith tok ''+'' then tok
      else normpath (path_join base tok))"

definition is_file_opt :: "string \<Rightarrow> bool" where
  "is_file_opt a \<longleftrightarrow> a = ''-f'' \<or> a = ''-F'' \<or> a = ''-file''"

text \<open>\<open>_rel_base\<close> counts as unset when it is empty.\<close>

definition base_set :: "string option \<Rightarrow> string option" where
  "base_set rel = (case rel of Some b \<Rightarrow> if b = [] then None else Some b | None \<Rightarrow> None)"

definition option_file :: "string option \<Rightarrow> string \<Rightarrow> string \<Rightarrow> string" where
  "option_file rel cwd f =
     normpath (if isabs f then f
               else case base_set rel of Some b \<Rightarrow> path_join b f | None \<Rightarrow> path_join cwd f)"

text \<open>The words the loop takes at an argument that is no file option, and what it appends.\<close>

definition plain_arg :: "string option \<Rightarrow> string \<Rightarrow> string list \<Rightarrow> string list \<times> string list" where
  "plain_arg rel a rest = (case base_set rel of
     None \<Rightarrow> ([a], rest)
   | Some b \<Rightarrow>
       if (a = ''-v'' \<or> a = ''-y'') \<and> rest \<noteq> [] then ([a, rebase (hd rest) b], tl rest)
       else if py_startswith a INCDIR then
         ([INCDIR @ py_join ''+'' (map (\<lambda>p. rebase p b) (plus_list a INCDIR))], rest)
       else ([rebase a b], rest))"

lemma plain_arg_length: "plain_arg rel a rest = (out, rest') \<Longrightarrow> length rest' \<le> length rest"
  by (auto simp: plain_arg_def split: option.splits if_splits)

function expand_args ::
  "files \<Rightarrow> (string \<rightharpoonup> string) \<Rightarrow> string \<Rightarrow> nat \<Rightarrow> string option \<Rightarrow> string list \<Rightarrow> string list \<Rightarrow> arg_err + string list"
where
  "expand_args fs env cwd depth rel seen [] = Inr []"
| "expand_args fs env cwd depth rel seen (a # rest) =
     (if is_file_opt a then
        (case rest of
           [] \<Rightarrow> Inl (NeedsFile a)
         | f # rest' \<Rightarrow>
             (let fname = option_file rel cwd f in
              if fname \<in> set seen then Inl (IncludesItself fname)
              else
                rbind (tokenize_file fs env fname) (\<lambda>toks.
                  if depth + 1 > MAX_NESTING then Inl NestedTooDeep
                  else
                    rbind (expand_args fs env cwd (depth + 1)
                             (if a = ''-F'' then Some (dirname fname) else rel) (seen @ [fname]) toks) (\<lambda>out.
                      rbind (expand_args fs env cwd depth rel seen rest') (\<lambda>out'. Inr (out @ out'))))))
      else
        (case plain_arg rel a rest of (out, rest') \<Rightarrow>
           rbind (expand_args fs env cwd depth rel seen rest') (\<lambda>out'. Inr (out @ out'))))"
  by pat_completeness auto
termination
  by (relation "measures [\<lambda>(fs, env, cwd, depth, rel, seen, args). MAX_NESTING - depth,
                          \<lambda>(fs, env, cwd, depth, rel, seen, args). length args]")
    (auto dest!: plain_arg_length plain_arg_length [OF sym])

definition expand_option_files ::
  "files \<Rightarrow> (string \<rightharpoonup> string) \<Rightarrow> string list \<Rightarrow> string \<Rightarrow> arg_err + string list" where
  "expand_option_files fs env args cwd = expand_args fs env cwd 0 None [] args"

section \<open>Properties\<close>

text \<open>A text without quotes and comment marks is unchanged.\<close>

lemma strip_loop_plain:
  "set s \<inter> {CHR 0x22, CHR 0x27, CHR ''#'', CHR ''/''} = {} \<Longrightarrow> strip_loop None lb s = s"
proof (induction s arbitrary: lb)
  case (Cons c s)
  then have "strip_loop None (blank_after c lb) s = s" by simp
  with Cons.prems show ?case by (auto simp: Let_def)
qed simp

text \<open>Outside quotes a comment ends with its line, and the newline stays.\<close>

lemma strip_loop_line_comment:
  "CHR ''\<newline>'' \<notin> set s \<Longrightarrow>
   strip_loop None lb (CHR ''/'' # CHR ''/'' # s @ CHR ''\<newline>'' # t) = CHR ''\<newline>'' # strip_loop None True t"
proof -
  assume n: "CHR ''\<newline>'' \<notin> set s"
  have "from_newline (CHR ''/'' # s @ CHR ''\<newline>'' # t) = CHR ''\<newline>'' # t"
    unfolding from_newline_def using n by (simp add: dropWhile_append)
  then show ?thesis by (simp add: Let_def blank_after_def)
qed

text \<open>A quoted text without a backslash is kept as it is.\<close>

lemma strip_loop_quoted:
  "q \<notin> set s \<Longrightarrow> CHR 0x5C \<notin> set s \<Longrightarrow> q \<noteq> CHR 0x5C \<Longrightarrow>
   \<exists>lb'. strip_loop (Some q) lb (s @ q # t) = s @ q # strip_loop None lb' t"
proof (induction s arbitrary: lb)
  case Nil
  then show ?case by (cases t) (auto simp: Let_def)
next
  case (Cons c s)
  then obtain lb' where "strip_loop (Some q) (blank_after c lb) (s @ q # t) = s @ q # strip_loop None lb' t"
    by fastforce
  with Cons.prems show ?case by (cases s) (auto simp: Let_def)
qed

text \<open>Without a file option, and outside a \<open>-F\<close> file, the arguments are unchanged.\<close>

lemma expand_args_plain:
  "\<forall>a \<in> set args. \<not> is_file_opt a \<Longrightarrow> expand_args fs env cwd depth None seen args = Inr args"
  by (induction args) (auto simp: plain_arg_def base_set_def)

text \<open>Outside a \<open>-F\<close> file the arguments before and after a point are expanded apart.\<close>

lemma expand_args_append:
  "expand_args fs env cwd depth None seen xs = Inr out \<Longrightarrow>
   expand_args fs env cwd depth None seen (xs @ ys) =
     rbind (expand_args fs env cwd depth None seen ys) (\<lambda>out'. Inr (out @ out'))"
proof (induction "length xs" arbitrary: xs out rule: less_induct)
  case less
  show ?case
  proof (cases xs)
    case Nil
    then show ?thesis using less.prems by simp
  next
    case (Cons a rest)
    show ?thesis
    proof (cases "is_file_opt a")
      case True
      then obtain f rest' where r: "rest = f # rest'" using less.prems Cons by (cases rest) auto
      let ?n = "option_file None cwd f"
      from less.prems Cons True r obtain toks o1 o2 where
        s: "?n \<notin> set seen" "tokenize_file fs env ?n = Inr toks" "\<not> depth + 1 > MAX_NESTING"
           "expand_args fs env cwd (depth + 1) (if a = ''-F'' then Some (dirname ?n) else None) (seen @ [?n]) toks = Inr o1"
           "expand_args fs env cwd depth None seen rest' = Inr o2" "out = o1 @ o2"
        by (auto simp: Let_def res_simps split: if_splits)
      have "length rest' < length xs" using Cons r by simp
      then have "expand_args fs env cwd depth None seen (rest' @ ys) =
          rbind (expand_args fs env cwd depth None seen ys) (\<lambda>out'. Inr (o2 @ out'))"
        using less.hyps s(5) by blast
      then show ?thesis using Cons True r s by (simp add: Let_def rbind_assoc)
    next
      case False
      then obtain o2 where o: "expand_args fs env cwd depth None seen rest = Inr o2" "out = a # o2"
        using less.prems Cons by (auto simp: plain_arg_def base_set_def res_simps)
      have "expand_args fs env cwd depth None seen (rest @ ys) =
          rbind (expand_args fs env cwd depth None seen ys) (\<lambda>out'. Inr (o2 @ out'))"
        using less.hyps [of rest] Cons o(1) by simp
      then show ?thesis using Cons False o by (simp add: plain_arg_def base_set_def rbind_assoc)
    qed
  qed
qed

text \<open>\<open>-f FILE\<close> in place of the file's own words, where these hold no file option.\<close>

lemma expand_args_file:
  assumes "\<forall>a \<in> set pre. \<not> is_file_opt a" and "tokenize_file fs env (option_file None cwd f) = Inr toks"
    and "\<forall>a \<in> set toks. \<not> is_file_opt a" and "option_file None cwd f \<notin> set seen" and "depth < MAX_NESTING"
  shows "expand_args fs env cwd depth None seen (pre @ ''-f'' # f # post) =
         rbind (expand_args fs env cwd depth None seen post) (\<lambda>out. Inr (pre @ toks @ out))"
proof -
  have "expand_args fs env cwd depth None seen (''-f'' # f # post) =
      rbind (expand_args fs env cwd depth None seen post) (\<lambda>out. Inr (toks @ out))"
    using assms(2-5) by (simp add: is_file_opt_def Let_def expand_args_plain)
  then show ?thesis
    using expand_args_append [OF expand_args_plain [OF assms(1)]] by (simp add: rbind_assoc)
qed

text \<open>A file that includes itself is an error, however it is reached.\<close>

lemma expand_args_self:
  assumes "\<forall>a \<in> set pre. \<not> is_file_opt a" and "is_file_opt opt"
    and "option_file None cwd f \<in> set seen"
  shows "expand_args fs env cwd depth None seen (pre @ opt # f # post) = Inl (IncludesItself (option_file None cwd f))"
  using expand_args_append [OF expand_args_plain [OF assms(1)]] assms(2, 3) by (simp add: Let_def)

end
