(* ===== verification/Escape.thy ===== *)
theory Escape
  imports Prelude
begin

text \<open>
  \<open>vamos/names.py\<close>: the escaped names. A \<open>str\<close> is the list of its code points here, since the
  module's contract is about every \<open>str\<close>, and \<open>bytes\<close> is a list of numbers below 256. The UTF-8
  codec is Python's, with \<open>surrogatepass\<close>: a lone surrogate has a three-byte form.
\<close>

type_synonym ustr = "nat list"

definition ustr :: "string \<Rightarrow> ustr" where
  "ustr s = map of_char s"

definition code_point :: "nat \<Rightarrow> bool" where
  "code_point c \<longleftrightarrow> c < 1114112"

section \<open>UTF-8\<close>

definition utf8_char :: "nat \<Rightarrow> nat list" where
  "utf8_char c =
     (if c < 128 then [c]
      else if c < 2048 then [192 + c div 64, 128 + c mod 64]
      else if c < 65536 then [224 + c div 4096, 128 + c div 64 mod 64, 128 + c mod 64]
      else [240 + c div 262144, 128 + c div 4096 mod 64, 128 + c div 64 mod 64, 128 + c mod 64])"

definition utf8_encode :: "ustr \<Rightarrow> nat list" where
  "utf8_encode s = concat (map utf8_char s)"

definition cont :: "nat \<Rightarrow> bool" where
  "cont b \<longleftrightarrow> 128 \<le> b \<and> b < 192"

text \<open>The first character of the bytes and how many they are, or \<open>None\<close>: not UTF-8.\<close>

definition utf8_first :: "nat list \<Rightarrow> (nat \<times> nat list) option" where
  "utf8_first bs = (case bs of
     [] \<Rightarrow> None
   | a # r \<Rightarrow>
       if a < 128 then Some (a, r)
       else if 194 \<le> a \<and> a < 224 then
         (case r of b # r' \<Rightarrow> if cont b then Some ((a - 192) * 64 + (b - 128), r') else None | _ \<Rightarrow> None)
       else if 224 \<le> a \<and> a < 240 then
         (case r of b # c # r' \<Rightarrow>
            (let v = (a - 224) * 4096 + (b - 128) * 64 + (c - 128)
             in if cont b \<and> cont c \<and> 2048 \<le> v then Some (v, r') else None) | _ \<Rightarrow> None)
       else if 240 \<le> a \<and> a < 245 then
         (case r of b # c # d # r' \<Rightarrow>
            (let v = (a - 240) * 262144 + (b - 128) * 4096 + (c - 128) * 64 + (d - 128)
             in if cont b \<and> cont c \<and> cont d \<and> 65536 \<le> v \<and> v < 1114112 then Some (v, r') else None)
          | _ \<Rightarrow> None)
       else None)"

lemma utf8_first_length: "utf8_first bs = Some (v, r) \<Longrightarrow> length r < length bs"
  by (auto simp: utf8_first_def Let_def split: list.splits if_splits)

function utf8_decode :: "nat list \<Rightarrow> ustr option" where
  "utf8_decode bs =
     (if bs = [] then Some []
      else (case utf8_first bs of
              None \<Rightarrow> None
            | Some (v, r) \<Rightarrow> map_option (\<lambda>s. v # s) (utf8_decode r)))"
  by pat_completeness auto
termination
  by (relation "measure length") (auto dest!: utf8_first_length [OF sym] utf8_first_length)

declare utf8_decode.simps [simp del]

lemma div_64: "(c :: nat) = 64 * (c div 64) + c mod 64" "c mod 64 < 64"
  by simp_all

lemma utf8_first_char: "code_point c \<Longrightarrow> utf8_first (utf8_char c @ r) = Some (c, r)"
proof -
  assume c: "code_point c"
  have d1: "c div 4096 = c div 64 div 64" "c div 262144 = c div 64 div 64 div 64"
    by (simp_all flip: div_mult2_eq)
  define x where "x = c mod 64"
  define y where "y = c div 64 mod 64"
  define z where "z = c div 64 div 64 mod 64"
  define w where "w = c div 64 div 64 div 64"
  have e1: "c div 64 div 64 = 64 * w + z" by (simp add: w_def z_def)
  have e2: "c div 64 = 64 * (c div 64 div 64) + y" by (simp add: y_def)
  have e3: "c = 64 * (c div 64) + x" by (simp add: x_def)
  have b: "x < 64" "y < 64" "z < 64" by (simp_all add: x_def y_def z_def)
  have eq: "c = 262144 * w + 4096 * z + 64 * y + x" using e1 e2 e3 by simp
  consider "c < 128" | "128 \<le> c" "c < 2048" | "2048 \<le> c" "c < 65536" | "65536 \<le> c" by linarith
  then show ?thesis
  proof cases
    case 1
    then show ?thesis by (simp add: utf8_char_def utf8_first_def)
  next
    case 2
    have "utf8_char c = [192 + c div 64, 128 + x]" using 2 by (simp add: utf8_char_def x_def)
    moreover have "2 \<le> c div 64" "c div 64 < 32" using 2 by (simp_all add: less_mult_imp_div_less)
    moreover have "c div 64 * 64 + x = c" using e3 by simp
    ultimately show ?thesis using b by (simp add: utf8_first_def cont_def)
  next
    case 3
    have "utf8_char c = [224 + c div 64 div 64, 128 + y, 128 + x]"
      using 3 d1 by (simp add: utf8_char_def x_def y_def)
    moreover have "c div 64 div 64 < 16" using 3 by (simp add: less_mult_imp_div_less)
    moreover have "c div 64 div 64 * 4096 + y * 64 + x = c" using e2 e3 by simp
    ultimately show ?thesis using b 3 by (simp add: utf8_first_def cont_def Let_def)
  next
    case 4
    have "utf8_char c = [240 + w, 128 + z, 128 + y, 128 + x]"
      using 4 d1 by (simp add: utf8_char_def x_def y_def z_def w_def)
    moreover have "w < 5" using c eq by (simp add: code_point_def)
    moreover have "w * 262144 + z * 4096 + y * 64 + x = c" using eq by simp
    ultimately show ?thesis using b 4 c by (simp add: utf8_first_def cont_def Let_def code_point_def)
  qed
qed

lemma utf8_char_not_Nil [simp]: "utf8_char c \<noteq> []"
  by (simp add: utf8_char_def)

lemma utf8_decode_encode: "list_all code_point s \<Longrightarrow> utf8_decode (utf8_encode s) = Some s"
proof (induction s)
  case Nil
  then show ?case by (simp add: utf8_encode_def utf8_decode.simps)
next
  case (Cons c s)
  then have "utf8_first (utf8_encode (c # s)) = Some (c, utf8_encode s)"
    using utf8_first_char [of c "utf8_encode s"] by (simp add: utf8_encode_def)
  moreover have "utf8_encode (c # s) \<noteq> []" by (simp add: utf8_encode_def)
  ultimately show ?case
    using Cons utf8_decode.simps [of "utf8_encode (c # s)"] by simp
qed

lemma utf8_char_byte: "code_point c \<Longrightarrow> b \<in> set (utf8_char c) \<Longrightarrow> b < 256"
proof -
  assume c: "code_point c" and b: "b \<in> set (utf8_char c)"
  have m: "x mod 64 < 128" for x :: nat by (rule less_trans [OF mod_less_divisor]) simp_all
  have "c div 262144 < 16" using c by (simp add: code_point_def less_mult_imp_div_less)
  moreover have "c < 2048 \<Longrightarrow> c div 64 < 64" "c < 65536 \<Longrightarrow> c div 4096 < 32"
    by (simp_all add: less_mult_imp_div_less)
  ultimately show ?thesis
    using b m [of "c"] m [of "c div 64"] m [of "c div 4096"] by (auto simp: utf8_char_def split: if_splits)
qed

lemma utf8_encode_byte: "list_all code_point s \<Longrightarrow> b \<in> set (utf8_encode s) \<Longrightarrow> b < 256"
  by (auto simp: utf8_encode_def list_all_iff dest: utf8_char_byte)

lemma utf8_decode_length: "utf8_decode bs = Some s \<Longrightarrow> length s \<le> length bs"
proof (induction "length bs" arbitrary: bs s rule: less_induct)
  case less
  show ?case
  proof (cases "bs = []")
    case True
    then show ?thesis using less.prems by (simp add: utf8_decode.simps)
  next
    case False
    then obtain v r s' where r: "utf8_first bs = Some (v, r)" "utf8_decode r = Some s'" "s = v # s'"
      using less.prems utf8_decode.simps [of bs] by (auto split: option.splits)
    have "length r < length bs" by (rule utf8_first_length [OF r(1)])
    then show ?thesis using less.hyps [OF _ r(2)] r(3) by simp
  qed
qed

section \<open>Escaping\<close>

definition kept :: "nat \<Rightarrow> bool" where
  "kept b \<longleftrightarrow> (65 \<le> b \<and> b \<le> 90) \<or> (97 \<le> b \<and> b \<le> 122) \<or> (48 \<le> b \<and> b \<le> 57)"

definition underscore :: nat where "underscore = 95"

definition is_plain :: "ustr \<Rightarrow> bool" where
  "is_plain n \<longleftrightarrow> (case n of [] \<Rightarrow> False | c # r \<Rightarrow> kept c \<and> list_all (\<lambda>x. kept x \<or> x = underscore) r)"

definition escape_byte :: "nat \<Rightarrow> ustr" where
  "escape_byte b = (if kept b then [b] else [underscore, 48 + b div 64, 48 + b div 8 mod 8, 48 + b mod 8])"

definition escape_name :: "ustr \<Rightarrow> ustr" where
  "escape_name n = (if is_plain n then n else underscore # concat (map escape_byte (utf8_encode n)))"

datatype name_err =
    NotEscaped ustr
  | NotByte ustr ustr
  | NotUtf8 ustr
  | NeitherForm ustr
  | NotCanonical ustr

definition octal :: "nat \<Rightarrow> bool" where
  "octal c \<longleftrightarrow> 48 \<le> c \<and> c \<le> 55"

text \<open>The form \<open>(?:[A-Za-z0-9]|_[0-7]{3})*\<close> after the first character, and the codes it holds.\<close>

fun form_tail :: "ustr \<Rightarrow> bool" where
  "form_tail [] = True"
| "form_tail (c # r) =
     (if c = underscore then
        (case r of x # y # z # r' \<Rightarrow> octal x \<and> octal y \<and> octal z \<and> form_tail r' | _ \<Rightarrow> False)
      else kept c \<and> form_tail r)"

definition is_form :: "ustr \<Rightarrow> bool" where
  "is_form s \<longleftrightarrow> (case s of c # r \<Rightarrow> c = underscore \<and> form_tail r | [] \<Rightarrow> False)"

fun form_bytes :: "ustr \<Rightarrow> ustr \<Rightarrow> name_err + nat list" where
  "form_bytes form [] = Inr []"
| "form_bytes form (c # r) =
     (if c = underscore then
        (case r of
           x # y # z # r' \<Rightarrow>
             (let code = (x - 48) * 64 + (y - 48) * 8 + (z - 48) in
              if code > 255 then Inl (NotByte form [x, y, z])
              else rbind (form_bytes form r') (\<lambda>bs. Inr (code # bs)))
         | _ \<Rightarrow> Inl (NotEscaped form))
      else rbind (form_bytes form r) (\<lambda>bs. Inr (c # bs)))"

definition decode_name :: "ustr \<Rightarrow> name_err + ustr" where
  "decode_name form =
     (if \<not> is_form form then Inl (NotEscaped form)
      else rbind (form_bytes form (tl form)) (\<lambda>bs. case utf8_decode bs of
             None \<Rightarrow> Inl (NotUtf8 form)
           | Some s \<Rightarrow> Inr s))"

definition starts_underscore :: "ustr \<Rightarrow> bool" where
  "starts_underscore n \<longleftrightarrow> n \<noteq> [] \<and> hd n = underscore"

definition is_escaped :: "ustr \<Rightarrow> bool" where
  "is_escaped n \<longleftrightarrow> starts_underscore n \<and>
     (case decode_name n of Inl _ \<Rightarrow> False | Inr s \<Rightarrow> escape_name s = n)"

definition unescape_name :: "ustr \<Rightarrow> name_err + ustr" where
  "unescape_name n =
     (if is_plain n then Inr n
      else if \<not> starts_underscore n then Inl (NeitherForm n)
      else rbind (decode_name n) (\<lambda>s. if escape_name s \<noteq> n then Inl (NotCanonical n) else Inr s))"

section \<open>The mapping and its inverse\<close>

lemma octal_digits: "b < 256 \<Longrightarrow> (b div 64) * 64 + (b div 8 mod 8) * 8 + b mod 8 = (b :: nat)"
proof -
  have "b div 64 = b div 8 div 8" by (simp flip: div_mult2_eq)
  moreover have "b div 8 = 8 * (b div 8 div 8) + b div 8 mod 8" "b = 8 * (b div 8) + b mod 8" by simp_all
  ultimately show ?thesis by linarith
qed

lemma octal_small: "b < 256 \<Longrightarrow> b div 64 < 4" "b div 8 mod 8 < 8" "b mod 8 < (8 :: nat)"
  by (simp_all add: less_mult_imp_div_less)

lemma escape_byte_form:
  "b < 256 \<Longrightarrow> form_tail (escape_byte b @ r) = form_tail r"
  "b < 256 \<Longrightarrow> form_bytes form (escape_byte b @ r) = rbind (form_bytes form r) (\<lambda>bs. Inr (b # bs))"
proof -
  assume b: "b < 256"
  have k: "kept b \<Longrightarrow> b \<noteq> underscore" by (auto simp: kept_def underscore_def)
  have o: "octal (48 + b div 64)" "octal (48 + b div 8 mod 8)" "octal (48 + b mod 8)"
    using octal_small [of b] b by (auto simp: octal_def)
  show "form_tail (escape_byte b @ r) = form_tail r"
    using k o by (simp add: escape_byte_def)
  show "form_bytes form (escape_byte b @ r) = rbind (form_bytes form r) (\<lambda>bs. Inr (b # bs))"
    using k octal_digits [OF b] b by (simp add: escape_byte_def Let_def)
qed

lemma escape_bytes_form:
  "list_all (\<lambda>b. b < 256) bs \<Longrightarrow> form_tail (concat (map escape_byte bs))"
  "list_all (\<lambda>b. b < 256) bs \<Longrightarrow> form_bytes form (concat (map escape_byte bs)) = Inr bs"
  by (induction bs) (simp_all add: escape_byte_form)

lemma decode_escape:
  assumes "list_all code_point n" and "\<not> is_plain n"
  shows "decode_name (escape_name n) = Inr n"
proof -
  have "list_all (\<lambda>b. b < 256) (utf8_encode n)"
    using utf8_encode_byte [OF assms(1)] by (simp add: list_all_iff)
  then show ?thesis
    using assms by (simp add: decode_name_def escape_name_def is_form_def escape_bytes_form utf8_decode_encode)
qed

lemma escape_not_plain: "\<not> is_plain n \<Longrightarrow> \<not> is_plain (escape_name n) \<and> starts_underscore (escape_name n)"
  by (simp add: escape_name_def is_plain_def starts_underscore_def kept_def underscore_def)

lemma unescape_escape: "list_all code_point n \<Longrightarrow> unescape_name (escape_name n) = Inr n"
proof (cases "is_plain n")
  case True
  then show ?thesis by (simp add: unescape_name_def escape_name_def)
next
  case False
  assume "list_all code_point n"
  then show ?thesis using False decode_escape escape_not_plain by (simp add: unescape_name_def)
qed

lemma escape_unescape: "unescape_name m = Inr n \<Longrightarrow> escape_name n = m"
  by (auto simp: unescape_name_def escape_name_def res_simps split: if_splits)

lemma is_escaped_escape: "list_all code_point n \<Longrightarrow> is_escaped (escape_name n) \<longleftrightarrow> \<not> is_plain n"
proof (cases "is_plain n")
  case True
  then have "\<not> starts_underscore n"
    by (cases n) (auto simp: is_plain_def starts_underscore_def kept_def underscore_def)
  then show ?thesis using True by (simp add: is_escaped_def escape_name_def)
next
  case False
  assume "list_all code_point n"
  then show ?thesis using False decode_escape escape_not_plain by (simp add: is_escaped_def)
qed

definition safe_char :: "nat \<Rightarrow> bool" where
  "safe_char c \<longleftrightarrow> kept c \<or> c = underscore"

lemma escape_safe: "list_all code_point n \<Longrightarrow> list_all safe_char (escape_name n)"
proof (cases "is_plain n")
  case True
  then show ?thesis by (cases n) (auto simp: escape_name_def is_plain_def safe_char_def list_all_iff)
next
  case False
  assume cp: "list_all code_point n"
  have "list_all safe_char (escape_byte b)" if "b < 256" for b
    using octal_small [of b] that by (auto simp: escape_byte_def safe_char_def kept_def underscore_def)
  then show ?thesis
    using False utf8_encode_byte [OF cp]
    by (auto simp: escape_name_def list_all_iff safe_char_def)
qed

lemma form_bytes_length: "form_bytes form s = Inr bs \<Longrightarrow> length bs \<le> length s"
proof (induction form s arbitrary: bs rule: form_bytes.induct)
  case (2 form c r)
  show ?case
  proof (cases "c = underscore")
    case True
    then obtain x y z r' where "r = x # y # z # r'" using 2(3) by (auto split: list.splits)
    with True 2 show ?thesis by (fastforce simp: Let_def res_simps split: if_splits)
  next
    case False
    with 2 show ?thesis by (auto simp: res_simps)
  qed
qed simp

lemma decode_length: "decode_name form = Inr s \<Longrightarrow> length s < length form"
proof -
  assume "decode_name form = Inr s"
  then obtain bs where b: "form_bytes form (tl form) = Inr bs" "utf8_decode bs = Some s" and "form \<noteq> []"
    by (auto simp: decode_name_def res_simps is_form_def split: if_splits option.splits list.splits)
  then show ?thesis
    using form_bytes_length [OF b(1)] utf8_decode_length [OF b(2)] by (cases form) auto
qed

section \<open>The names of the results files\<close>

datatype name_use = Psf | Nutmeg | FileName

text \<open>\<open>\s\<close> of a Unicode pattern.\<close>

definition uspace :: "nat \<Rightarrow> bool" where
  "uspace c \<longleftrightarrow> (9 \<le> c \<and> c \<le> 13) \<or> (28 \<le> c \<and> c \<le> 32) \<or> (8192 \<le> c \<and> c \<le> 8202) \<or>
     c \<in> {133, 160, 5760, 8232, 8233, 8239, 8287, 12288}"

definition odd_char :: "name_use \<Rightarrow> nat \<Rightarrow> bool" where
  "odd_char use c = (case use of Psf \<Rightarrow> False | Nutmeg \<Rightarrow> uspace c \<or> c = 44 | FileName \<Rightarrow> c = 47)"

function odd_escaped :: "name_use \<Rightarrow> ustr \<Rightarrow> bool" where
  "odd_escaped use part =
     (if use = Psf then False
      else if list_ex (odd_char use) part then True
      else is_escaped part \<and> (case decode_name part of Inl _ \<Rightarrow> False | Inr s \<Rightarrow> odd_escaped use s))"
  by pat_completeness auto
termination
  by (relation "measure (\<lambda>(use, part). length part)") (auto dest: decode_length)

declare odd_escaped.simps [simp del]

definition name_sep :: "nat \<Rightarrow> bool" where
  "name_sep c \<longleftrightarrow> c = 46 \<or> c = 58"

text \<open>\<open>_NAME_PARTS.split(name)\<close>: the first part, and each separator with the part after it.\<close>

fun name_parts :: "ustr \<Rightarrow> ustr \<times> (nat \<times> ustr) list" where
  "name_parts [] = ([], [])"
| "name_parts (c # r) =
     (let (p, ps) = name_parts r in if name_sep c then ([], (c, p) # ps) else (c # p, ps))"

definition join_parts :: "ustr \<times> (nat \<times> ustr) list \<Rightarrow> ustr" where
  "join_parts pp = fst pp @ concat (map (\<lambda>(c, p). c # p) (snd pp))"

definition map_parts :: "(ustr \<Rightarrow> ustr) \<Rightarrow> ustr \<times> (nat \<times> ustr) list \<Rightarrow> ustr \<times> (nat \<times> ustr) list" where
  "map_parts f pp = (f (fst pp), map (\<lambda>(c, p). (c, f p)) (snd pp))"

definition write_part :: "name_use \<Rightarrow> ustr \<Rightarrow> ustr" where
  "write_part use p = (if odd_escaped use p then escape_name p else p)"

definition written_name :: "name_use \<Rightarrow> ustr \<Rightarrow> ustr" where
  "written_name use n =
     (if use = Psf \<or> (underscore \<notin> set n \<and> \<not> list_ex (odd_char use) n) then n
      else join_parts (map_parts (write_part use) (name_parts n)))"

definition unwrite_part :: "name_use \<Rightarrow> ustr \<Rightarrow> ustr" where
  "unwrite_part use p =
     (if is_escaped p then
        (case decode_name p of Inl _ \<Rightarrow> p | Inr got \<Rightarrow> if odd_escaped use got then got else p)
      else p)"

definition written_unname :: "name_use \<Rightarrow> ustr \<Rightarrow> ustr" where
  "written_unname use w =
     (if underscore \<notin> set w \<or> use = Psf then w
      else join_parts (map_parts (unwrite_part use) (name_parts w)))"

text \<open>Which of its three texts \<open>written_note\<close> gives.\<close>

datatype written_reason = BlankOrComma | SlashInName | ReadsAsEscaped

definition written_note :: "ustr \<Rightarrow> name_use \<Rightarrow> written_reason" where
  "written_note n use =
     (if use = Nutmeg \<and> list_ex (odd_char Nutmeg) n then BlankOrComma
      else if use = FileName \<and> list_ex (odd_char FileName) n then SlashInName
      else ReadsAsEscaped)"

text \<open>
  The results files' encoding: \<open>_results_errors\<close> writes a lone surrogate of the range of
  \<open>surrogateescape\<close> as its byte and any other as a question mark.
\<close>

definition surrogate :: "nat \<Rightarrow> bool" where
  "surrogate c \<longleftrightarrow> 55296 \<le> c \<and> c \<le> 57343"

definition byte_surrogate :: "nat \<Rightarrow> bool" where
  "byte_surrogate c \<longleftrightarrow> 56448 \<le> c \<and> c \<le> 56575"

definition results_errors :: "ustr \<Rightarrow> nat list" where
  "results_errors s = map (\<lambda>c. if byte_surrogate c then c - 56320 else 63) s"

definition file_encode :: "ustr \<Rightarrow> nat list" where
  "file_encode s = concat (map (\<lambda>c. if surrogate c then results_errors [c] else utf8_char c) s)"

definition holds_file_text :: "ustr \<Rightarrow> bool" where
  "holds_file_text s \<longleftrightarrow> list_all (\<lambda>c. surrogate c \<longrightarrow> byte_surrogate c) s"

section \<open>The engines' messages\<close>

definition uword_char :: "nat \<Rightarrow> nat \<Rightarrow> bool" where
  "uword_char sep c \<longleftrightarrow> kept c \<or> c = underscore \<or> c = 36 \<or> c = sep"

fun usplit :: "nat \<Rightarrow> ustr \<Rightarrow> ustr list" where
  "usplit sep [] = [[]]"
| "usplit sep (c # s) =
     (if c = sep then [] # usplit sep s
      else (case usplit sep s of [] \<Rightarrow> [[c]] | p # ps \<Rightarrow> (c # p) # ps))"

fun ujoin :: "nat \<Rightarrow> ustr list \<Rightarrow> ustr" where
  "ujoin sep [] = []"
| "ujoin sep [p] = p"
| "ujoin sep (p # q # ps) = p @ sep # ujoin sep (q # ps)"

definition text_part :: "(ustr \<Rightarrow> ustr option) \<Rightarrow> ustr \<Rightarrow> ustr" where
  "text_part lookup p = (case lookup p of
     Some got \<Rightarrow> got
   | None \<Rightarrow> if length p > 1 \<and> is_escaped p
             then (case unescape_name p of Inr s \<Rightarrow> s | Inl _ \<Rightarrow> p) else p)"

definition text_word :: "(ustr \<Rightarrow> ustr option) \<Rightarrow> nat \<Rightarrow> ustr \<Rightarrow> ustr" where
  "text_word lookup sep w =
     (if underscore \<notin> set w then w else ujoin sep (map (text_part lookup) (usplit sep w)))"

text \<open>The pattern's look-behind and look-ahead: the character before the word, and the text after.\<close>

definition outside_path :: "nat option \<Rightarrow> ustr \<Rightarrow> bool" where
  "outside_path prev after \<longleftrightarrow>
     prev \<noteq> Some 46 \<and> prev \<noteq> Some 47 \<and>
     (case after of
        [] \<Rightarrow> True
      | c # r \<Rightarrow> c \<noteq> 47 \<and> (c = 46 \<longrightarrow> (case r of [] \<Rightarrow> True
                                       | d # _ \<Rightarrow> \<not> (kept d \<or> d = underscore \<or> d = 36))))"

function text_loop :: "(ustr \<Rightarrow> ustr option) \<Rightarrow> nat \<Rightarrow> nat option \<Rightarrow> ustr \<Rightarrow> ustr" where
  "text_loop lookup sep prev [] = []"
| "text_loop lookup sep prev (c # r) =
     (if uword_char sep c then
        (let w = c # takeWhile (uword_char sep) r; t = dropWhile (uword_char sep) r
         in (if outside_path prev t then text_word lookup sep w else w) @ text_loop lookup sep (Some (last w)) t)
      else c # text_loop lookup sep (Some c) r)"
  by pat_completeness auto
termination
  by (relation "measure (\<lambda>(lookup, sep, prev, s). length s)") (auto simp: length_dropWhile_le less_Suc_eq_le)

definition unescape_text :: "(ustr \<Rightarrow> ustr option) \<Rightarrow> nat \<Rightarrow> ustr \<Rightarrow> ustr" where
  "unescape_text lookup sep text = (if underscore \<notin> set text then text else text_loop lookup sep None text)"

section \<open>The results files' names come back\<close>

lemma join_name_parts: "join_parts (name_parts s) = s"
proof (induction s)
  case (Cons c s)
  then show ?case by (cases "name_parts s") (auto simp: join_parts_def Let_def)
qed (simp add: join_parts_def)

lemma name_parts_append:
  "\<not> list_ex name_sep p \<Longrightarrow>
   name_parts (p @ r) = (p @ fst (name_parts r), snd (name_parts r))"
  by (induction p) (auto simp: Let_def split: prod.split)

lemma name_parts_join:
  "\<not> list_ex name_sep p \<Longrightarrow> \<forall>(c, q) \<in> set ps. name_sep c \<and> \<not> list_ex name_sep q \<Longrightarrow>
   name_parts (join_parts (p, ps)) = (p, ps)"
proof (induction ps arbitrary: p)
  case Nil
  then show ?case using name_parts_append [of p "[]"] by (simp add: join_parts_def)
next
  case (Cons cq ps)
  obtain c q where cq: "cq = (c, q)" by (cases cq)
  have "name_parts (join_parts (q, ps)) = (q, ps)" using Cons cq by auto
  then have "name_parts (c # join_parts (q, ps)) = ([], (c, q) # ps)" using Cons.prems cq by simp
  moreover have "join_parts (p, cq # ps) = p @ c # join_parts (q, ps)" by (simp add: join_parts_def cq)
  ultimately show ?case using name_parts_append [OF Cons.prems(1)] cq by simp
qed

lemma name_parts_sep:
  "name_parts s = (p, ps) \<Longrightarrow> \<not> list_ex name_sep p \<and> (\<forall>(c, q) \<in> set ps. name_sep c \<and> \<not> list_ex name_sep q)"
  by (induction s arbitrary: p ps) (auto simp: Let_def split: prod.splits if_splits)

lemma name_parts_set: "name_parts s = (p, ps) \<Longrightarrow> set p \<subseteq> set s \<and> (\<forall>(c, q) \<in> set ps. set q \<subseteq> set s)"
  by (induction s arbitrary: p ps) (fastforce simp: Let_def split: prod.splits if_splits)+

lemma odd_not_plain: "odd_escaped use p \<Longrightarrow> \<not> is_plain p"
proof -
  assume o: "odd_escaped use p"
  have k: "kept c \<Longrightarrow> \<not> odd_char use c" "\<not> odd_char use underscore" for c
    by (auto simp: odd_char_def uspace_def kept_def underscore_def split: name_use.splits)
  have "list_ex (odd_char use) p \<or> starts_underscore p"
    using o odd_escaped.simps [of use p] by (auto simp: is_escaped_def split: if_splits)
  then show ?thesis
    using k by (cases p) (auto simp: is_plain_def starts_underscore_def list_all_iff list_ex_iff
        kept_def underscore_def)
qed

lemma unwrite_write: "list_all code_point p \<Longrightarrow> unwrite_part use (write_part use p) = p"
proof (cases "odd_escaped use p")
  case True
  assume cp: "list_all code_point p"
  have np: "\<not> is_plain p" by (rule odd_not_plain [OF True])
  then show ?thesis
    using True cp is_escaped_escape decode_escape by (simp add: write_part_def unwrite_part_def)
next
  case False
  then have "odd_escaped use s = False" if "is_escaped p" "decode_name p = Inr s" "use \<noteq> Psf" for s
    using that odd_escaped.simps [of use p] by (auto split: if_splits)
  moreover have "odd_escaped Psf s = False" for s by (simp add: odd_escaped.simps)
  ultimately show ?thesis
    using False by (auto simp: write_part_def unwrite_part_def split: sum.split)
qed

lemma write_part_sep: "list_all code_point p \<Longrightarrow> \<not> list_ex name_sep p \<Longrightarrow> \<not> list_ex name_sep (write_part use p)"
  using escape_safe [of p]
  by (auto simp: write_part_def list_all_iff list_ex_iff safe_char_def name_sep_def kept_def underscore_def)

lemma odd_needs:
  "odd_escaped use p \<Longrightarrow> underscore \<in> set p \<or> list_ex (odd_char use) p"
  using odd_escaped.simps [of use p]
  by (auto simp: is_escaped_def starts_underscore_def split: if_splits) (metis hd_in_set)

lemma write_part_underscore: "odd_escaped use p \<Longrightarrow> underscore \<in> set (write_part use p)"
  using odd_not_plain by (simp add: write_part_def escape_name_def)

lemma map_parts_id: "f p = p \<Longrightarrow> (\<And>c q. (c, q) \<in> set ps \<Longrightarrow> f q = q) \<Longrightarrow> map_parts f (p, ps) = (p, ps)"
  by (auto simp: map_parts_def intro!: map_idI)

text \<open>The parts of a name: every one has no separator in it, and every character is a code point.\<close>

definition good_part :: "ustr \<Rightarrow> bool" where
  "good_part q \<longleftrightarrow> list_all code_point q \<and> \<not> list_ex name_sep q"

lemma name_parts_good:
  assumes "list_all code_point n" and "name_parts n = (p, ps)"
  shows "good_part p" and "(c, q) \<in> set ps \<Longrightarrow> good_part q \<and> name_sep c"
  using name_parts_set [OF assms(2)] name_parts_sep [OF assms(2)] assms(1)
  by (auto simp: good_part_def list_all_iff) blast

lemma write_parts_split:
  assumes "good_part p" and "\<And>c q. (c, q) \<in> set ps \<Longrightarrow> good_part q \<and> name_sep c"
  shows "name_parts (join_parts (map_parts (write_part use) (p, ps))) = map_parts (write_part use) (p, ps)"
proof -
  have "\<forall>(c, q) \<in> set (map (\<lambda>(c, q). (c, write_part use q)) ps). name_sep c \<and> \<not> list_ex name_sep q"
    using assms(2) write_part_sep by (auto simp: good_part_def)
  moreover have "\<not> list_ex name_sep (write_part use p)"
    using assms(1) write_part_sep by (simp add: good_part_def)
  ultimately show ?thesis unfolding map_parts_def fst_conv snd_conv by (intro name_parts_join)
qed

lemma unwrite_write_parts:
  assumes "good_part p" and "\<And>c q. (c, q) \<in> set ps \<Longrightarrow> good_part q \<and> name_sep c"
  shows "map_parts (unwrite_part use) (map_parts (write_part use) (p, ps)) = (p, ps)"
proof -
  have "map_parts (\<lambda>q. unwrite_part use (write_part use q)) (p, ps) = (p, ps)"
    using assms by (intro map_parts_id) (auto simp: good_part_def unwrite_write)
  then show ?thesis by (auto simp: map_parts_def comp_def case_prod_unfold)
qed

lemma underscore_in_parts:
  "underscore \<in> set (f p) \<Longrightarrow> underscore \<in> set (join_parts (map_parts f (p, ps)))"
  "(c, q) \<in> set ps \<Longrightarrow> underscore \<in> set (f q) \<Longrightarrow> underscore \<in> set (join_parts (map_parts f (p, ps)))"
  by (force simp: join_parts_def map_parts_def)+

lemma written_round_trip:
  assumes cp: "list_all code_point n"
  shows "written_unname use (written_name use n) = n"
proof (cases "use = Psf \<or> (underscore \<notin> set n \<and> \<not> list_ex (odd_char use) n)")
  case True
  then show ?thesis by (auto simp: written_name_def written_unname_def split: if_splits)
next
  case False
  obtain p ps where np: "name_parts n = (p, ps)" by (cases "name_parts n")
  have n: "n = join_parts (p, ps)" using join_name_parts [of n] np by simp
  note good = name_parts_good [OF cp np]
  let ?w = "join_parts (map_parts (write_part use) (p, ps))"
  have w: "written_name use n = ?w" by (simp only: written_name_def False np if_False)
  show ?thesis
  proof (cases "underscore \<in> set ?w")
    case True
    then show ?thesis
      using w False good write_parts_split [of p ps] unwrite_write_parts [of p ps] n
      by (simp add: written_unname_def)
  next
    case nu: False
    have same: "write_part use q = q" if "underscore \<notin> set (write_part use q)" for q
      using that write_part_underscore [of use q] by (auto simp: write_part_def)
    have "map_parts (write_part use) (p, ps) = (p, ps)"
      by (rule map_parts_id) (use nu same underscore_in_parts in blast)+
    then show ?thesis using w nu n by (simp add: written_unname_def)
  qed
qed

text \<open>A text that holds no odd surrogate is written as \<open>surrogateescape\<close> writes it, with no question mark.\<close>

lemma file_encode_holds:
  "holds_file_text s \<Longrightarrow>
   file_encode s = concat (map (\<lambda>c. if byte_surrogate c then [c - 56320] else utf8_char c) s)"
  by (induction s)
    (auto simp: file_encode_def holds_file_text_def results_errors_def surrogate_def byte_surrogate_def)

text \<open>A message of one word that is an escaped name reads as the name.\<close>

lemma usplit_none: "sep \<notin> set w \<Longrightarrow> usplit sep w = [w]"
  by (induction w) auto

lemma unescape_text_name:
  assumes "list_all code_point n" and "\<not> is_plain n" and "n \<noteq> []" and "\<not> safe_char sep"
  shows "unescape_text (\<lambda>_. None) sep (escape_name n) = n"
proof -
  let ?w = "escape_name n"
  have safe: "list_all safe_char ?w" by (rule escape_safe [OF assms(1)])
  have sep: "sep \<notin> set ?w" using safe assms(4) by (auto simp: list_all_iff)
  obtain r where w: "?w = underscore # r" using assms(2) by (simp add: escape_name_def)
  have "length (utf8_encode n) \<noteq> 0" using assms(3) by (cases n) (simp_all add: utf8_encode_def)
  then have r: "r \<noteq> []" using w assms(2)
    by (cases "utf8_encode n") (auto simp: escape_name_def escape_byte_def split: if_splits)
  have wc: "\<forall>c \<in> set ?w. uword_char sep c" using safe by (auto simp: list_all_iff safe_char_def uword_char_def)
  have part: "text_part (\<lambda>_. None) ?w = n"
  proof -
    have "length ?w > 1" using r w by (cases r) simp_all
    moreover have "is_escaped ?w" using assms(1, 2) is_escaped_escape by simp
    moreover have "unescape_name ?w = Inr n" using assms(1) by (rule unescape_escape)
    ultimately show ?thesis by (simp add: text_part_def)
  qed
  have tw: "takeWhile (uword_char sep) r = r" "dropWhile (uword_char sep) r = []"
    using wc w by (auto simp: takeWhile_eq_all_conv)
  have "text_loop (\<lambda>_. None) sep None ?w = text_word (\<lambda>_. None) sep ?w"
  proof -
    have "uword_char sep underscore" using wc w by simp
    then show ?thesis unfolding w by (simp only: text_loop.simps tw Let_def if_True) (simp add: outside_path_def)
  qed
  also have "\<dots> = n" using sep part w by (simp add: text_word_def usplit_none)
  finally show ?thesis using w by (simp add: unescape_text_def)
qed

end
