(* ===== verification/SpectreArgs.thy ===== *)
theory SpectreArgs
  imports OptTable ArgScan Escape ExprText
begin

text \<open>
  \<open>vamos/spectre/args.py\<close> and \<open>vamos/spectre/job.py\<close>: the two layers of a spectre command line (the
  defaults variable and argv), the words that \<open>optable.scan\<close> cannot take, and the settings that
  result with the netlist's \<open>options\<close> statement. The environment and the file system are arguments.
\<close>

section \<open>The job\<close>

text \<open>A scalar field's value; \<open>defaults\<close> holds them by field name.\<close>

datatype jval = JvNone | JvStr string | JvInt int | JvBool bool

record spectre_job =
  sj_prog :: string
  sj_argv :: "string list"
  sj_cwd :: string
  sj_netlist :: "string option"
  sj_raw :: "string option"
  sj_fmt :: "string option"
  sj_outdir :: "string option"
  sj_log_mode :: string
  sj_log_path :: "string option"
  sj_percent :: "(char \<times> string option) list"
  sj_cpp :: bool
  sj_defines :: "string list"
  sj_undefines :: "string list"
  sj_incdirs :: "string list"
  sj_disable_cpp :: bool
  sj_config :: "string list"
  sj_pre_config :: "string list"
  sj_paramdefault :: "string list"
  sj_classes :: "(string \<times> bool) list"
  sj_maxwarns :: "int option"
  sj_maxnotes :: "int option"
  sj_maxwarnstolog :: "int option"
  sj_maxnotestolog :: "int option"
  sj_errpreset :: "string option"
  sj_aps :: "string option"
  sj_mts :: bool
  sj_ahdllibdir :: "string option"
  sj_va_defines :: "string list"
  sj_escchars :: bool
  sj_action :: string
  sj_help_topic :: "string option"
  sj_unmapped :: "unmapped list"
  sj_notes :: "diag list"
  sj_defaults :: "(string \<times> jval) list"

definition new_job :: "string \<Rightarrow> string list \<Rightarrow> string \<Rightarrow> spectre_job" where
  "new_job prog argv cwd =
     \<lparr>sj_prog = prog, sj_argv = argv, sj_cwd = cwd, sj_netlist = None, sj_raw = None, sj_fmt = None,
      sj_outdir = None, sj_log_mode = ''screen'', sj_log_path = None, sj_percent = [], sj_cpp = False,
      sj_defines = [], sj_undefines = [], sj_incdirs = [], sj_disable_cpp = False, sj_config = [],
      sj_pre_config = [], sj_paramdefault = [], sj_classes = [], sj_maxwarns = None, sj_maxnotes = None,
      sj_maxwarnstolog = None, sj_maxnotestolog = None, sj_errpreset = None, sj_aps = None, sj_mts = True,
      sj_ahdllibdir = None, sj_va_defines = [], sj_escchars = False, sj_action = ''run'',
      sj_help_topic = None, sj_unmapped = [], sj_notes = [], sj_defaults = []\<rparr>"

definition sj_note :: "string \<Rightarrow> disposition \<Rightarrow> string \<Rightarrow> spectre_job \<Rightarrow> spectre_job" where
  "sj_note opt d why j =
     j\<lparr>sj_unmapped := sj_unmapped j @ [\<lparr>um_option = opt, um_disposition = d, um_note = why\<rparr>]\<rparr>"

interpretation spectre_entries: job_protocol sj_note sj_unmapped
  by unfold_locales (simp add: sj_note_def)

section \<open>The defaults variable\<close>

text \<open>The names of variables are texts of ASCII here; an escaped form is one too.\<close>

definition escape_text :: "string \<Rightarrow> string" where
  "escape_text s = map char_of (escape_name (ustr s))"

definition add_new :: "string list \<Rightarrow> string \<Rightarrow> string list" where
  "add_new out v = (if v \<in> set out then out else out @ [v])"

definition defaults_vars :: "string \<Rightarrow> string list" where
  "defaults_vars prog =
     foldl add_new [prog @ ''_DEFAULTS'']
       [py_upper prog @ ''_DEFAULTS'', escape_text prog @ ''_DEFAULTS'',
        escape_text (py_upper prog) @ ''_DEFAULTS'', ''SPECTRE_DEFAULTS'']"

datatype args_err = BadVariable string shlex_err | OptionNeedsValue string

fun first_variable :: "(string \<rightharpoonup> string) \<Rightarrow> string list \<Rightarrow> args_err + (string option \<times> string list)" where
  "first_variable env [] = Inr (None, [])"
| "first_variable env (v # vs) = (case env v of
     None \<Rightarrow> first_variable env vs
   | Some text \<Rightarrow> (case shlex_split text of
       Inl e \<Rightarrow> Inl (BadVariable v e)
     | Inr ws \<Rightarrow> Inr (Some v, ws)))"

definition defaults_tokens :: "(string \<rightharpoonup> string) \<Rightarrow> string \<Rightarrow> args_err + (string option \<times> string list)" where
  "defaults_tokens env prog = first_variable env (defaults_vars prog)"

section \<open>The words taken before the scan\<close>

definition OPTION_CHARS :: string where "OPTION_CHARS = ''-+=''"

definition HELP_OPTIONS :: "string list" where
  "HELP_OPTIONS = [''-help'', ''-h'', ''-helpsort'', ''-hs'', ''-helpfull'', ''-hf'', ''-helpsortfull'', ''-hsf'']"

definition NOT_READ_FLAGS :: "string list" where
  "NOT_READ_FLAGS = HELP_OPTIONS @ [''-V'', ''-W'', ''+note'', ''-note'', ''+interactive'', ''+inter'',
     ''-interactive'', ''-inter'']"

definition NOT_READ_NEXT :: "string list" where
  "NOT_READ_NEXT = [''-env'', ''-slave'', ''-slvhost'', ''+sensdata'']"

definition NOT_READ_EQ :: "string list" where
  "NOT_READ_EQ = [''+interactive'', ''+inter'', ''+mpssession'', ''+mpshost'']"

definition is_percent :: "string \<Rightarrow> char \<Rightarrow> bool" where
  "is_percent tok sign = (case tok of [a, b, c] \<Rightarrow> a = sign \<and> b = CHR ''%'' \<and> ascii_letter c | _ \<Rightarrow> False)"

text \<open>\<open>tok[:1] in OPTION_CHARS\<close>, a substring test: an empty word passes it too.\<close>

definition option_start :: "string \<Rightarrow> bool" where
  "option_start tok \<longleftrightarrow> tok = [] \<or> hd tok \<in> set OPTION_CHARS"

fun prescan :: "string list \<Rightarrow> spectre_job \<Rightarrow> args_err + (string list \<times> spectre_job)" where
  "prescan [] j = Inr ([], j)"
| "prescan (tok # rest) j =
     (if is_percent tok CHR ''+'' then
        (case rest of
           [] \<Rightarrow> Inl (OptionNeedsValue tok)
         | v # rest' \<Rightarrow> prescan rest' (j\<lparr>sj_percent := dict_set (tok ! 2) (Some v) (sj_percent j)\<rparr>))
      else if is_percent tok CHR ''-'' then
        prescan rest (j\<lparr>sj_percent := dict_set (tok ! 2) None (sj_percent j)\<rparr>)
      else if tok \<in> set HELP_OPTIONS then
        (case rest of
           [] \<Rightarrow> prescan rest (j\<lparr>sj_action := ''help''\<rparr>)
         | v # rest' \<Rightarrow>
             if option_start v then prescan rest (j\<lparr>sj_action := ''help''\<rparr>)
             else prescan rest' (j\<lparr>sj_action := ''help'', sj_help_topic := Some v\<rparr>))
      else rbind (prescan rest j) (\<lambda>(out, j'). Inr (tok # out, j')))"

definition before_eq :: "string \<Rightarrow> string option" where
  "before_eq tok = (case find_char CHR ''='' tok of None \<Rightarrow> None | Some k \<Rightarrow> Some (take k tok))"

definition not_read_flag :: "string \<Rightarrow> bool" where
  "not_read_flag tok \<longleftrightarrow> is_percent tok CHR ''-'' \<or> tok \<in> set NOT_READ_FLAGS \<or>
     (case before_eq tok of None \<Rightarrow> False | Some n \<Rightarrow> n \<in> set NOT_READ_EQ)"

text \<open>\<open>shown.split()[0]\<close> is the option: it begins every shown text and holds no blank.\<close>

definition drop_note :: "string \<Rightarrow> string \<Rightarrow> string \<Rightarrow> spectre_job \<Rightarrow> spectre_job" where
  "drop_note shown tok var j =
     sj_note shown NOTED (''Spectre does not read '' @ tok @ '' from '' @ var @ ''; ignored'') j"

fun not_read :: "string list \<Rightarrow> spectre_job \<Rightarrow> string \<Rightarrow> string list \<times> spectre_job" where
  "not_read [] j var = ([], j)"
| "not_read (tok # rest) j var =
     (if not_read_flag tok then
        (case rest of
           [] \<Rightarrow> not_read rest (drop_note tok tok var j) var
         | v # rest' \<Rightarrow>
             if tok \<in> set HELP_OPTIONS \<and> \<not> option_start v
             then not_read rest' (drop_note (tok @ '' '' @ v) tok var j) var
             else not_read rest (drop_note tok tok var j) var)
      else if tok \<in> set NOT_READ_NEXT then
        (case rest of
           [] \<Rightarrow> not_read rest (drop_note tok tok var j) var
         | v # rest' \<Rightarrow> not_read rest' (drop_note (tok @ '' '' @ v) tok var j) var)
      else (case not_read rest j var of (out, j') \<Rightarrow> (tok # out, j')))"

definition VAMOS_OPTIONS_NOTE :: "string \<Rightarrow> string" where
  "VAMOS_OPTIONS_NOTE var =
     ''vamos options are read from the command line only, not from '' @ var @
     ''; use VAMOS_ANALOG, VAMOS_BANNER or VAMOS_VERBOSE''"

fun without_vamos_options :: "string list \<Rightarrow> spectre_job \<Rightarrow> string \<Rightarrow> string list \<times> spectre_job" where
  "without_vamos_options [] j var = ([], j)"
| "without_vamos_options (tok # rest) j var =
     (if py_startswith tok ''--vamos-''
      then without_vamos_options rest (sj_note tok INAPPLICABLE (VAMOS_OPTIONS_NOTE var) j) var
      else (case without_vamos_options rest j var of (out, j') \<Rightarrow> (tok # out, j')))"

section \<open>The two layers\<close>

definition of_str :: "string option \<Rightarrow> jval" where
  "of_str x = (case x of None \<Rightarrow> JvNone | Some s \<Rightarrow> JvStr s)"

definition of_int_opt :: "int option \<Rightarrow> jval" where
  "of_int_opt x = (case x of None \<Rightarrow> JvNone | Some i \<Rightarrow> JvInt i)"

text \<open>\<open>getattr(job, name)\<close> and \<open>field_default(name)\<close> of the scalar fields.\<close>

definition scalar_fields :: "spectre_job \<Rightarrow> (string \<times> jval \<times> jval) list" where
  "scalar_fields j = [
     (''netlist'', of_str (sj_netlist j), JvNone), (''raw'', of_str (sj_raw j), JvNone),
     (''fmt'', of_str (sj_fmt j), JvNone), (''outdir'', of_str (sj_outdir j), JvNone),
     (''log_mode'', JvStr (sj_log_mode j), JvStr ''screen''), (''log_path'', of_str (sj_log_path j), JvNone),
     (''cpp'', JvBool (sj_cpp j), JvBool False), (''disable_cpp'', JvBool (sj_disable_cpp j), JvBool False),
     (''maxwarns'', of_int_opt (sj_maxwarns j), JvNone), (''maxnotes'', of_int_opt (sj_maxnotes j), JvNone),
     (''maxwarnstolog'', of_int_opt (sj_maxwarnstolog j), JvNone),
     (''maxnotestolog'', of_int_opt (sj_maxnotestolog j), JvNone),
     (''errpreset'', of_str (sj_errpreset j), JvNone), (''aps'', of_str (sj_aps j), JvNone),
     (''mts'', JvBool (sj_mts j), JvBool True), (''ahdllibdir'', of_str (sj_ahdllibdir j), JvNone),
     (''escchars'', JvBool (sj_escchars j), JvBool False), (''action'', JvStr (sj_action j), JvStr ''run''),
     (''help_topic'', of_str (sj_help_topic j), JvNone)]"

definition effective :: "spectre_job \<Rightarrow> string \<Rightarrow> jval option" where
  "effective j name = (case map_of (scalar_fields j) name of
     None \<Rightarrow> None
   | Some (v, dflt) \<Rightarrow>
       if v = JvNone \<or> v = dflt
       then (case map_of (sj_defaults j) name of Some d \<Rightarrow> Some d | None \<Rightarrow> Some v)
       else Some v)"

text \<open>\<open>bool(x)\<close> of a scalar.\<close>

definition jtrue :: "jval \<Rightarrow> bool" where
  "jtrue v = (case v of JvNone \<Rightarrow> False | JvStr s \<Rightarrow> s \<noteq> [] | JvInt i \<Rightarrow> i \<noteq> 0 | JvBool b \<Rightarrow> b)"

definition setting_on :: "spectre_job \<Rightarrow> string \<Rightarrow> bool" where
  "setting_on j name = (case effective j name of None \<Rightarrow> False | Some v \<Rightarrow> jtrue v)"

definition cpp_runs :: "spectre_job \<Rightarrow> bool" where
  "cpp_runs j =
     (if setting_on j ''cpp'' then True
      else if setting_on j ''disable_cpp'' then False
      else sj_defines j \<noteq> [] \<or> sj_undefines j \<noteq> [] \<or> sj_incdirs j \<noteq> [])"

definition merged_classes :: "spectre_job \<Rightarrow> string \<rightharpoonup> bool" where
  "merged_classes j =
     map_of [(''error'', True), (''warn'', True), (''note'', True), (''info'', True), (''debug'', True)] ++
     map_of (rev (sj_classes j))"

text \<open>\<open>dict.fromkeys\<close>: the first occurrences, in order.\<close>

definition first_occurrences :: "string list \<Rightarrow> string list" where
  "first_occurrences xs = rev (remdups (rev xs))"

definition va_define_value_errors :: "string list \<Rightarrow> diag list" where
  "va_define_value_errors defines =
     List.map_filter (\<lambda>m. case before_eq m of
         None \<Rightarrow> None
       | Some n \<Rightarrow> Some (error [] (''-va,define '' @ m @
           '': openvaf-r leaves a macro that is given a value undefined (-D '' @ m @ '': an `ifdef '' @ n @
           '' takes its else branch, and `'' @ n @ '' is not declared); not supported on VACASK in v1: give -va,define '' @ n @
           '' alone, or `define the value in the Verilog-A source'')))
       (first_occurrences defines)"

section \<open>The settings\<close>

text \<open>A value of the \<open>options\<close> statement is an expression.\<close>

definition opt_text :: "expr \<Rightarrow> string option" where
  "opt_text e = (case e of Str s \<Rightarrow> Some s | Name n \<Rightarrow> Some n | Num v \<Rightarrow> Some (float_repr v) | _ \<Rightarrow> None)"

text \<open>\<open>int(text, 10)\<close>: blanks around, a sign, and digits with single underscores between them.\<close>

fun int_body :: "bool \<Rightarrow> string \<Rightarrow> string option" where
  "int_body after_digit [] = (if after_digit then Some [] else None)"
| "int_body after_digit (c # r) =
     (if re_digit c then map_option (\<lambda>d. c # d) (int_body True r)
      else if c = CHR ''_'' \<and> after_digit \<and> r \<noteq> [] \<and> re_digit (hd r) then int_body False r
      else None)"

definition py_int :: "string \<Rightarrow> int option" where
  "py_int s = (case split_sign (py_strip s) of
     (neg, r) \<Rightarrow> map_option (\<lambda>d. if neg then - int_of_digits d else int_of_digits d) (int_body False r))"

definition opt_int :: "expr \<Rightarrow> math_exc + int option" where
  "opt_int e = (case e of
     Num v \<Rightarrow> rbind (math_trunc v) (\<lambda>i. Inr (Some i))
   | _ \<Rightarrow> Inr (Option.bind (opt_text e) py_int))"

definition PSF_FAMILY :: "string list" where
  "PSF_FAMILY = [''psfbin'', ''psfbinf'', ''psfxl'', ''sst2'', ''fsdb'', ''fsdb5'', ''wdf'', ''wsfbin'',
     ''wsfascii'', ''awb'', ''tr0ascii'']"

definition raw_format :: "spectre_job \<Rightarrow> string \<Rightarrow> string \<Rightarrow> string option \<times> spectre_job" where
  "raw_format j orig text =
     (let v = py_lower text in
      if v \<in> {''psfascii'', ''nutascii'', ''nutbin''} then (Some v, j)
      else if v \<in> set PSF_FAMILY
      then (Some ''psfascii'', sj_note (''options rawfmt='' @ text) NOTED ''psfascii is written'' j)
      else (None, j\<lparr>sj_notes := sj_notes j @ [error orig (''options rawfmt='' @ text @
              '': unknown output format (vamos writes psfascii, nutascii and nutbin)'')]\<rparr>))"

type_synonym row = "string \<times> string \<times> string"

definition comment_field :: "string \<Rightarrow> bool" where
  "comment_field f \<longleftrightarrow> py_startswith f ''//'' \<or> py_startswith f ''#'' \<or> py_startswith f ''*''"

definition row_of_line :: "string \<Rightarrow> nat \<Rightarrow> string \<Rightarrow> (diag + row) option" where
  "row_of_line path i line = (case py_words line of
     [] \<Rightarrow> None
   | f # fs \<Rightarrow>
       if comment_field f then None
       else (case fs of
               [g, h] \<Rightarrow> Some (Inr (f, g, h))
             | _ \<Rightarrow> Some (Inl (error (path @ '':'' @ show_int (int i))
                    ''+paramdefault: a line holds three entries, primitive parameter value''))))"

definition file_rows :: "string \<Rightarrow> string list \<Rightarrow> (diag + row) list" where
  "file_rows path lines = List.map_filter (\<lambda>(i, l). row_of_line path i l) (zip [1..<Suc (length lines)] lines)"

definition path_rows :: "files \<Rightarrow> string \<Rightarrow> string \<Rightarrow> (diag + row) list" where
  "path_rows fs cwd path = (case fs (if isabs path then path else path_join cwd path) of
     Inl why \<Rightarrow> [Inl (error [] (''+paramdefault '' @ path @ '': cannot be read ('' @ why @ '')''))]
   | Inr text \<Rightarrow> file_rows path (split_lines text))"

definition rights :: "('a + 'b) list \<Rightarrow> 'b list" where
  "rights xs = List.map_filter (\<lambda>x. case x of Inl _ \<Rightarrow> None | Inr y \<Rightarrow> Some y) xs"

definition lefts :: "('a + 'b) list \<Rightarrow> 'a list" where
  "lefts xs = List.map_filter (\<lambda>x. case x of Inl y \<Rightarrow> Some y | Inr _ \<Rightarrow> None) xs"

definition paramdefault_rows :: "files \<Rightarrow> spectre_job \<Rightarrow> row list \<times> spectre_job" where
  "paramdefault_rows fs j =
     (let all = concat (map (path_rows fs (sj_cwd j)) (sj_paramdefault j))
      in (rights all, j\<lparr>sj_notes := sj_notes j @ lefts all\<rparr>))"

record settings =
  st_fmt :: string
  st_raw :: string
  st_outdir :: "jval option"
  st_maxwarns :: "int option"
  st_maxnotes :: "int option"
  st_maxwarnstolog :: "jval option"
  st_maxnotestolog :: "jval option"
  st_errpreset :: "jval option"
  st_aps :: "jval option"
  st_paramdefault :: "row list"
  st_options :: "(string \<times> expr) list"

text \<open>\<open>_first\<close>: the first value that is given.\<close>

fun first_given :: "'a option list \<Rightarrow> 'a option" where
  "first_given [] = None"
| "first_given (x # xs) = (case x of Some v \<Rightarrow> Some v | None \<Rightarrow> first_given xs)"

definition jstr :: "jval option \<Rightarrow> string option" where
  "jstr v = (case v of Some (JvStr s) \<Rightarrow> Some s | _ \<Rightarrow> None)"

definition jint :: "jval option \<Rightarrow> int option" where
  "jint v = (case v of Some (JvInt i) \<Rightarrow> Some i | _ \<Rightarrow> None)"

definition settle_fmt :: "spectre_job \<Rightarrow> (string \<times> expr) list \<Rightarrow> string \<Rightarrow> string \<times> spectre_job" where
  "settle_fmt j nlopts orig =
     (let (f, j') = (case sj_fmt j of
            Some f \<Rightarrow> (Some f, j)
          | None \<Rightarrow> (case Option.bind (map_of nlopts ''rawfmt'') opt_text of
              None \<Rightarrow> (None, j)
            | Some text \<Rightarrow> raw_format j orig text))
      in ((case f of Some f \<Rightarrow> f
           | None \<Rightarrow> (case jstr (map_of (sj_defaults j) ''fmt'') of Some d \<Rightarrow> d | None \<Rightarrow> ''psfascii'')), j'))"

definition settle_count :: "spectre_job \<Rightarrow> (string \<times> expr) list \<Rightarrow> string \<Rightarrow> int option \<Rightarrow> math_exc + int option" where
  "settle_count j nlopts name own =
     rbind (case map_of nlopts name of None \<Rightarrow> Inr None | Some e \<Rightarrow> opt_int e) (\<lambda>n.
       Inr (first_given [own, n, jint (map_of (sj_defaults j) name)]))"

definition written_options ::
  "(string \<times> expr) list \<Rightarrow> string \<Rightarrow> string \<Rightarrow> int option \<Rightarrow> int option \<Rightarrow> (string \<times> expr) list" where
  "written_options nlopts f raw mw mn =
     (let o1 = dict_set ''rawfmt'' (Str f) nlopts;
          o2 = (if raw \<noteq> [] then dict_set ''rawfile'' (Str raw) o1 else o1);
          o3 = (case mw of Some n \<Rightarrow> dict_set ''maxwarns'' (Num (float_of_int n)) o2 | None \<Rightarrow> o2)
      in case mn of Some n \<Rightarrow> dict_set ''maxnotes'' (Num (float_of_int n)) o3 | None \<Rightarrow> o3)"

definition settings_of ::
  "files \<Rightarrow> spectre_job \<Rightarrow> (string \<times> expr) list \<Rightarrow> string \<Rightarrow> math_exc + (settings \<times> spectre_job)" where
  "settings_of fs j nlopts orig =
     (let (f, j1) = settle_fmt j nlopts orig;
          raw = the (first_given [sj_raw j, Option.bind (map_of nlopts ''rawfile'') opt_text,
                                  jstr (map_of (sj_defaults j) ''raw''), Some []])
      in rbind (settle_count j nlopts ''maxwarns'' (sj_maxwarns j)) (\<lambda>mw.
         rbind (settle_count j nlopts ''maxnotes'' (sj_maxnotes j)) (\<lambda>mn.
           let (rows, j2) = paramdefault_rows fs j1
           in Inr (\<lparr>st_fmt = f, st_raw = raw, st_outdir = effective j ''outdir'', st_maxwarns = mw,
                    st_maxnotes = mn, st_maxwarnstolog = effective j ''maxwarnstolog'',
                    st_maxnotestolog = effective j ''maxnotestolog'', st_errpreset = effective j ''errpreset'',
                    st_aps = effective j ''aps'', st_paramdefault = rows,
                    st_options = written_options nlopts f raw mw mn\<rparr>, j2))))"

section \<open>Properties\<close>

text \<open>What the prescan leaves has no word that it takes.\<close>

definition prescan_takes :: "string \<Rightarrow> bool" where
  "prescan_takes tok \<longleftrightarrow> is_percent tok CHR ''+'' \<or> is_percent tok CHR ''-'' \<or> tok \<in> set HELP_OPTIONS"

lemma prescan_cases:
  "prescan_takes tok \<Longrightarrow> prescan (tok # rest) j = Inr r \<Longrightarrow>
   \<exists>rest' j1. length rest' \<le> length rest \<and> prescan rest' j1 = Inr r"
  unfolding prescan.simps prescan_takes_def
  by (cases rest; cases "is_percent tok CHR ''+''"; cases "is_percent tok CHR ''-''")
    (force simp del: prescan.simps split: if_split_asm)+

lemma prescan_keeps_word:
  "\<not> prescan_takes tok \<Longrightarrow> prescan (tok # rest) j = rbind (prescan rest j) (\<lambda>(out, j'). Inr (tok # out, j'))"
  by (simp add: prescan_takes_def)

lemma prescan_leaves: "prescan toks j = Inr (out, j') \<Longrightarrow> \<forall>t \<in> set out. \<not> prescan_takes t"
proof (induction "length toks" arbitrary: toks j out rule: less_induct)
  case less
  show ?case
  proof (cases toks)
    case (Cons tok rest)
    show ?thesis
    proof (cases "prescan_takes tok")
      case True
      then obtain rest' j1 where "length rest' \<le> length rest" "prescan rest' j1 = Inr (out, j')"
        using prescan_cases less.prems Cons by blast
      then show ?thesis using less.hyps [of rest'] Cons by simp
    next
      case False
      then obtain out' where "prescan rest j = Inr (out', j')" "out = tok # out'"
        using less.prems Cons prescan_keeps_word by (auto simp: res_simps)
      then show ?thesis using less.hyps [of rest] Cons False by simp
    qed
  qed (use less.prems in simp)
qed

lemma prescan_plain: "\<forall>t \<in> set toks. \<not> prescan_takes t \<Longrightarrow> prescan toks j = Inr (toks, j)"
  by (induction toks) (auto simp: prescan_takes_def)

lemma prescan_idem: "prescan toks j = Inr (out, j') \<Longrightarrow> prescan out j' = Inr (out, j')"
  using prescan_leaves prescan_plain by blast

text \<open>The filters of the defaults layer drop exactly what they record.\<close>

lemma without_vamos_options_spec:
  "without_vamos_options toks j var =
     (filter (\<lambda>t. \<not> py_startswith t ''--vamos-'') toks,
      j\<lparr>sj_unmapped := sj_unmapped j @
         map (\<lambda>t. \<lparr>um_option = t, um_disposition = INAPPLICABLE, um_note = VAMOS_OPTIONS_NOTE var\<rparr>)
           (filter (\<lambda>t. py_startswith t ''--vamos-'') toks)\<rparr>)"
  by (induction toks j var rule: without_vamos_options.induct) (auto simp: sj_note_def)

definition dropped :: "string \<Rightarrow> bool" where
  "dropped tok \<longleftrightarrow> not_read_flag tok \<or> tok \<in> set NOT_READ_NEXT"

lemma not_read_cases:
  "dropped tok \<Longrightarrow> \<exists>rest' j1. length rest' \<le> length rest \<and> not_read (tok # rest) j var = not_read rest' j1 var"
  unfolding not_read.simps dropped_def
  by (cases rest; cases "not_read_flag tok") (force simp del: not_read.simps split: if_split)+

lemma not_read_keeps_word:
  "\<not> dropped tok \<Longrightarrow> not_read (tok # rest) j var = (tok # fst (not_read rest j var), snd (not_read rest j var))"
  by (simp add: dropped_def split: prod.split)

lemma not_read_leaves: "\<forall>t \<in> set (fst (not_read toks j var)). \<not> dropped t"
proof (induction "length toks" arbitrary: toks j rule: less_induct)
  case less
  show ?case
  proof (cases toks)
    case (Cons tok rest)
    show ?thesis
    proof (cases "dropped tok")
      case True
      then obtain rest' j1 where "length rest' \<le> length rest" "not_read toks j var = not_read rest' j1 var"
        using not_read_cases Cons by blast
      then show ?thesis using less [of rest' j1] Cons by simp
    next
      case False
      then show ?thesis using less [of rest j] Cons not_read_keeps_word by simp
    qed
  qed simp
qed

lemma not_read_plain: "\<forall>t \<in> set toks. \<not> dropped t \<Longrightarrow> not_read toks j var = (toks, j)"
  by (induction toks) (auto simp: dropped_def)

lemma effective_argv:
  "map_of (scalar_fields j) name = Some (v, d) \<Longrightarrow> v \<noteq> JvNone \<Longrightarrow> v \<noteq> d \<Longrightarrow> effective j name = Some v"
  by (simp add: effective_def)

lemma written_options_values:
  "map_of (written_options nlopts f raw mw mn) ''rawfmt'' = Some (Str f)"
  "raw \<noteq> [] \<Longrightarrow> map_of (written_options nlopts f raw mw mn) ''rawfile'' = Some (Str raw)"
  "mw = Some n \<Longrightarrow> map_of (written_options nlopts f raw mw mn) ''maxwarns'' = Some (Num (float_of_int n))"
  "mn = Some m \<Longrightarrow> map_of (written_options nlopts f raw mw mn) ''maxnotes'' = Some (Num (float_of_int m))"
proof -
  have k: "''rawfmt'' \<noteq> ''rawfile''" "''rawfmt'' \<noteq> ''maxwarns''" "''rawfmt'' \<noteq> ''maxnotes''"
    "''rawfile'' \<noteq> ''maxwarns''" "''rawfile'' \<noteq> ''maxnotes''" "''maxwarns'' \<noteq> ''maxnotes''" by simp_all
  show "map_of (written_options nlopts f raw mw mn) ''rawfmt'' = Some (Str f)"
    by (cases mw; cases mn) (simp_all only: written_options_def Let_def option.case map_of_dict_set
        fun_upd_apply k if_False if_True refl simp_thms split: if_split)
  show "raw \<noteq> [] \<Longrightarrow> map_of (written_options nlopts f raw mw mn) ''rawfile'' = Some (Str raw)"
    by (cases mw; cases mn) (simp_all only: written_options_def Let_def option.case map_of_dict_set
        fun_upd_apply k if_False if_True refl not_False_eq_True)
  show "mw = Some n \<Longrightarrow> map_of (written_options nlopts f raw mw mn) ''maxwarns'' = Some (Num (float_of_int n))"
    by (cases mn) (simp_all only: written_options_def Let_def option.case map_of_dict_set
        fun_upd_apply k if_False if_True refl)
  show "mn = Some m \<Longrightarrow> map_of (written_options nlopts f raw mw mn) ''maxnotes'' = Some (Num (float_of_int m))"
    by (simp only: written_options_def Let_def option.case map_of_dict_set fun_upd_apply if_True refl)
qed

lemma settings_of_options:
  assumes "settings_of fs j nlopts orig = Inr (s, j')"
  shows "st_options s = written_options nlopts (st_fmt s) (st_raw s) (st_maxwarns s) (st_maxnotes s)"
proof -
  obtain f j1 where f: "settle_fmt j nlopts orig = (f, j1)" by (cases "settle_fmt j nlopts orig")
  obtain rows j2 where r: "paramdefault_rows fs j1 = (rows, j2)" by (cases "paramdefault_rows fs j1")
  show ?thesis using assms unfolding settings_of_def Let_def f r by (auto simp: res_simps r)
qed

text \<open>The command line's format wins over the netlist's, and the netlist's over the defaults variable's.\<close>

lemma settle_fmt_argv: "sj_fmt j = Some f \<Longrightarrow> settle_fmt j nlopts orig = (f, j)"
  by (simp add: settle_fmt_def)

lemma settle_fmt_netlist:
  "sj_fmt j = None \<Longrightarrow> Option.bind (map_of nlopts ''rawfmt'') opt_text = Some text \<Longrightarrow>
   py_lower text \<in> {''psfascii'', ''nutascii'', ''nutbin''} \<Longrightarrow> settle_fmt j nlopts orig = (py_lower text, j)"
  by (auto simp: settle_fmt_def raw_format_def)

end
