(* ===== verification/ToolProps.thy ===== *)
theory ToolProps
  imports Globs StopSignals Percent SpectreArgs
begin

text \<open>
  The properties of the command line and of its helpers: option files, file names, patterns,
  percent codes, stop signals, escaped names, the job's record and the option tables.
\<close>

section \<open>Patterns\<close>

text \<open>C33: a pattern matches a name exactly when the name is the parts of the pattern in order, with a
  text without newline at each star, as the module's documentation reads.\<close>

theorem glob_meaning:
  "glob_match pattern name cs \<longleftrightarrow> spells cs (py_split CHR ''*'' pattern) name"
  by (rule glob_match_spells)

section \<open>Option files\<close>



text \<open>C32: an option file that names itself, after words that are no option files, is reported with its
  name: the words of a file that is being read never read it again.\<close>

theorem option_file_cycle:
  assumes "\<forall>a \<in> set pre. \<not> is_file_opt a" and "is_file_opt opt"
    and "tokenize_file fs env (option_file None cwd f) = Inr (pre @ opt # f # post)"
  shows "expand_option_files fs env (''-f'' # f # rest) cwd = Inl (IncludesItself (option_file None cwd f))"
proof -
  have "expand_args fs env cwd 1 None [option_file None cwd f] (pre @ opt # f # post) =
      Inl (IncludesItself (option_file None cwd f))"
    by (rule expand_args_self [OF assms(1, 2)]) simp
  then show ?thesis
    using assms(3) by (simp add: expand_option_files_def Let_def MAX_NESTING_def is_file_opt_def)
qed

theorem option_file_cycle_witness:
  "expand_option_files (\<lambda>p. Inr ''-v -f /o.f'') Map.empty (''-f'' # ''/o.f'' # []) ''/w'' =
   Inl (IncludesItself (option_file None ''/w'' ''/o.f''))"
proof (rule option_file_cycle [where pre = "[''-v'']" and opt = "''-f''" and post = "[]"])
  show "tokenize_file (\<lambda>p. Inr ''-v -f /o.f'') Map.empty (option_file None ''/w'' ''/o.f'') =
      Inr ([''-v''] @ ''-f'' # ''/o.f'' # [])"
    by (simp add: tokenize_file_def strip_comments_def Let_def shlex_split_def shlex_space_def word_of_def)
qed (simp_all add: is_file_opt_def)

section \<open>Percent codes and stop signals\<close>

text \<open>Expanding percent codes returns for every text, and a code without modifiers is its text in
  place, nothing else being changed.\<close>

theorem percent_codes_in_place:
  assumes "CHR ''%'' \<notin> set a" and "ascii_letter x" and "cs x = Some v" and "CHR ''%'' \<notin> set b"
    and "b = [] \<or> hd b \<noteq> CHR '':''"
  shows "expand_percent cs (a @ CHR ''%'' # x # b) = Some (a @ v @ b)"
proof -
  have "expand_percent cs b = Some b" using expand_percent_plain [OF assms(4), of cs "[]"] by simp
  then show ?thesis
    using expand_percent_plain [OF assms(1)] expand_percent_code [where cs = cs, OF assms(2, 3, 5)] by simp
qed

theorem percent_codes_in_place_witness:
  "expand_percent [CHR ''C'' \<mapsto> ''/w/top.scs''] (''out_'' @ CHR ''%'' # CHR ''C'' # ''.raw'') =
   Some (''out_'' @ ''/w/top.scs'' @ ''.raw'')"
  by (rule percent_codes_in_place) (simp_all add: char_simps)

text \<open>A run stops gracefully at most once: of any sequence of signals at most one is the first stop,
  and without a hang-up it is the first of them, each later one asking for a second, hard stop.\<close>

lemma stop_order:
  assumes "SIGHUP \<notin> fst ` set sigs"
  shows "count_list (run_signals af None (sigs @ later)) First \<le> 1 \<and>
         run_signals False None sigs = (case sigs of [] \<Rightarrow> [] | _ # r \<Rightarrow> First # replicate (length r) Second)"
  using run_signals_one_first run_signals_no_hangup [OF assms, of False] by (cases sigs) auto

text \<open>Taking over the flags of a running Spectre and giving them back restores its state, when both
  signals have the same owner.\<close>

lemma flags_handed_back:
  assumes "take_over_flags saved pend = (flags, pend')"
    and "saved SIGUSR1 = Some w" and "saved SIGUSR2 = Some w" and "pend w = Some fl"
  shows "flags = fl \<and> give_back_flags saved flags pend' = (True, pend)"
  using assms by (rule give_take_back)

section \<open>Escaped names\<close>

text \<open>C27: escaping is a bijection onto the escaped and plain names: every name of code points is read
  back from its escaped form, and a name has only one escaped form.\<close>

theorem escape_bijective:
  assumes "list_all code_point n"
  shows "unescape_name (escape_name n) = Inr n \<and> (\<forall>m. unescape_name m = Inr n \<longleftrightarrow> m = escape_name n)"
proof (intro conjI allI iffI)
  show u: "unescape_name (escape_name n) = Inr n" by (rule unescape_escape [OF assms])
  show "m = escape_name n" if "unescape_name m = Inr n" for m using escape_unescape [OF that] by simp
  show "unescape_name m = Inr n" if "m = escape_name n" for m using u that by simp
qed

theorem escape_bijective_witness:
  "unescape_name (escape_name [97, 46, 8364]) = Inr [97, 46, 8364] \<and>
   (\<forall>m. unescape_name m = Inr [97, 46, 8364] \<longleftrightarrow> m = escape_name [97, 46, 8364])"
  by (rule escape_bijective) (simp add: code_point_def)

text \<open>C28: an escaped name is safe in every file format and reads as an escaped name exactly when the
  name needed escaping.\<close>

theorem escaped_is_safe:
  assumes "list_all code_point n"
  shows "list_all safe_char (escape_name n) \<and> (is_escaped (escape_name n) \<longleftrightarrow> \<not> is_plain n)"
  using escape_safe [OF assms] is_escaped_escape [OF assms] by simp

theorem escaped_is_safe_witness:
  "list_all safe_char (escape_name [97, 32]) \<and> (is_escaped (escape_name [97, 32]) \<longleftrightarrow> \<not> is_plain [97, 32])"
  by (rule escaped_is_safe) (simp add: code_point_def)

text \<open>C29: what a results file calls a signal leads back to the signal, for each of the three uses of a
  name, whatever characters it has.\<close>

theorem written_names_round_trip:
  assumes "list_all code_point n"
  shows "written_unname use (written_name use n) = n"
  using assms by (rule written_round_trip)

theorem written_names_round_trip_witness:
  "written_unname FileName (written_name FileName [97, 47, 98]) = [97, 47, 98]"
  by (rule written_names_round_trip) (simp add: code_point_def)

section \<open>The job and its options\<close>

abbreviation prefix_opt :: "string \<Rightarrow> job opt" where
  "prefix_opt n \<equiv> \<lparr>o_name = n, o_arity = Prefix, o_act = Record NOTED, o_note = []\<rparr>"

text \<open>C26: a job read back from its JSON form is the same job, all of its fields.\<close>

theorem job_round_trip:
  assumes "jb_schema j \<le> SCHEMA"
  shows "from_dict (to_dict j) = Inr j"
  using assms by (rule from_to_dict)

theorem job_round_trip_witness:
  "from_dict (to_dict (mk_job ''vcs'')) = Inr (mk_job ''vcs'')"
  by (rule job_round_trip) (simp add: mk_job_def SCHEMA_def)

text \<open>An option word without an exact entry gets the longest entry that fits it.\<close>

theorem longest_option_wins:
  assumes "table_match (make_table opts) tok = Some o1" and "map_of (t_exact (make_table opts)) tok = None"
    and "o2 \<in> set opts" and "\<not> is_exact o2" and "fuzzy_match tok o2"
  shows "length (o_name o2) \<le> length (o_name o1) \<and> o1 \<in> set opts \<and> fuzzy_match tok o1"
  using table_match_longest [OF assms] table_match_fits [OF assms(1)] assms(1, 2)
  by (auto simp: table_match_def make_table_def find_Some_iff)

theorem longest_option_wins_witness:
  "length (o_name (prefix_opt ''-L'')) \<le> length (o_name (prefix_opt ''-LD'')) \<and>
   prefix_opt ''-LD'' \<in> set [prefix_opt ''-L'', prefix_opt ''-LD''] \<and> fuzzy_match ''-LDx'' (prefix_opt ''-LD'')"
  by (rule longest_option_wins [where tok = "''-LDx''"])
    (simp_all add: table_match_def make_table_def is_exact_def fuzzy_match_def)



text \<open>The tool's own options are checked completely: there is no usage error exactly when every
  option is known and has a value of its kind.\<close>

theorem tool_options_checked:
  "check_vamos_opts near opts = [] \<longleftrightarrow> (\<forall>(k, v) \<in> set opts. accepted_opt k v)"
  by (rule check_vamos_opts_ok)

theorem tool_options_checked_witness:
  "check_vamos_opts (\<lambda>_. None) [(''strict'', VTrue)] = [] \<and>
   check_vamos_opts (\<lambda>_. None) [(''strict'', VStr ''on'')] \<noteq> []"
proof -
  have "vamos_key ''strict'' = Some (vopt ''strict'' None Any [] [])"
    by (simp add: vamos_key_def VAMOS_OPTIONS_def vopt_def)
  then have "accepted_opt ''strict'' VTrue" "\<not> accepted_opt ''strict'' (VStr ''on'')"
    by (simp_all add: accepted_opt_def vopt_def)
  then show ?thesis by (simp add: tool_options_checked)
qed

text \<open>Taking the percent and help options out of Spectre's command line is done once and for all:
  the words left hold none of them, and a second pass changes neither words nor job.\<close>

theorem prescan_complete:
  assumes "prescan toks j = Inr (out, j')"
  shows "(\<forall>t \<in> set out. \<not> prescan_takes t) \<and> prescan out j' = Inr (out, j')"
  using prescan_leaves [OF assms] prescan_idem [OF assms] by blast

theorem prescan_complete_witness:
  "\<not> prescan_takes ''a.scs'' \<and>
   prescan [''a.scs''] (new_job ''spectre'' [] ''/w'' \<lparr>sj_percent := [(CHR ''C'', Some ''x'')]\<rparr>) =
     Inr ([''a.scs''], new_job ''spectre'' [] ''/w'' \<lparr>sj_percent := [(CHR ''C'', Some ''x'')]\<rparr>)"
proof -
  have "prescan [''+%C'', ''x'', ''a.scs''] (new_job ''spectre'' [] ''/w'') =
      Inr ([''a.scs''], new_job ''spectre'' [] ''/w'' \<lparr>sj_percent := [(CHR ''C'', Some ''x'')]\<rparr>)"
    by (simp add: is_percent_def char_simps HELP_OPTIONS_def new_job_def)
  from prescan_complete [OF this] show ?thesis by simp
qed

text \<open>The raw format of a run is the command line's, else the netlist's, and the options passed on
  to the simulator name the format that was settled.\<close>

lemma settled_format_passed_on:
  assumes "settings_of fs j nlopts orig = Inr (s, j')"
  shows "(\<forall>f. sj_fmt j = Some f \<longrightarrow> st_fmt s = f) \<and> map_of (st_options s) ''rawfmt'' = Some (Str (st_fmt s))"
proof -
  obtain rows j2 where r: "paramdefault_rows fs j = (rows, j2)" by (cases "paramdefault_rows fs j")
  have "st_fmt s = f" if "sj_fmt j = Some f" for f
    using r assms settle_fmt_argv [OF that, of nlopts orig]
    by (auto simp: settings_of_def Let_def res_simps split: prod.splits)
  then show ?thesis using settings_of_options [OF assms] written_options_values(1) by simp
qed

end
