(* ===== verification/AmsModel.thy ===== *)
theory AmsModel
  imports Notes Numbers
begin

text \<open>
  \<open>vamos/ams/model.py\<close>: the data that the cut hands to the deck. A dictionary is a list of pairs in
  insertion order; \<open>"unknown"\<close> as a driver's strength is \<open>UNKNOWN_STRENGTH\<close>.
\<close>

datatype direction = INPUT | OUTPUT | INOUT | AUTO
datatype port_kind = LOGIC | REAL
datatype role = THROUGH | D2A | A2D | BIDIR | RD2A | RA2D | POWERNET | REMOVED | DISABLED | NONE

definition ROLES :: "role list" where
  "ROLES = [THROUGH, D2A, A2D, BIDIR, RD2A, RA2D, POWERNET, REMOVED, DISABLED, NONE]"

definition BRIDGED :: "role list" where
  "BRIDGED = [D2A, A2D, BIDIR, RD2A, RA2D]"

definition ROLE_PASSIVE :: nat where "ROLE_PASSIVE = 0"

definition ROLE_CODE :: "(role \<times> nat) list" where
  "ROLE_CODE = [(D2A, 1), (A2D, 2), (BIDIR, 3), (RD2A, 4), (RA2D, 5)]"

definition LVL_KEYS :: "string list" where
  "LVL_KEYS = [''HIV'', ''LOV'', ''X2V'', ''HITH'', ''LOTH'', ''XBAND'', ''MIDV_T'', ''MIDV_L'', ''DR'', ''DF'',
     ''WF'', ''PULL_V'', ''PULL_E'']"

record d2a_ie =
  d_hiv :: pyfloat
  d_lov :: pyfloat
  d_rise :: pyfloat
  d_fall :: pyfloat
  d_delay_rise :: pyfloat
  d_delay_fall :: pyfloat
  d_x2v :: int
  d_powernet :: bool
  d_r_series :: pyfloat
  d_weak_frac :: pyfloat

record a2d_ie =
  a_loth :: pyfloat
  a_hith :: pyfloat
  a_xband :: "pyfloat option"
  a_midv_time :: "pyfloat option"
  a_midv_logic :: string

text \<open>\<open>D2A_IE(hiv, lov)\<close> with the defaults of the other fields.\<close>

definition mk_d2a :: "pyfloat \<Rightarrow> pyfloat \<Rightarrow> d2a_ie" where
  "mk_d2a hiv lov = \<lparr>d_hiv = hiv, d_lov = lov, d_rise = float_dec ''1'' (-11), d_fall = float_dec ''1'' (-11),
     d_delay_rise = f0, d_delay_fall = f0, d_x2v = 0, d_powernet = False,
     d_r_series = float_dec ''500.7'' 0,
     d_weak_frac = fdiv (float_dec ''500.7'' 0) (float_dec ''3500.2'' 0)\<rparr>"

text \<open>\<open>A2D_IE(loth, hith)\<close> with the defaults of the other fields.\<close>

definition mk_a2d :: "pyfloat \<Rightarrow> pyfloat \<Rightarrow> a2d_ie" where
  "mk_a2d loth hith = \<lparr>a_loth = loth, a_hith = hith, a_xband = None, a_midv_time = None, a_midv_logic = ''X''\<rparr>"

section \<open>Counters\<close>

text \<open>\<open>RuleHits\<close>: how often each selector matched.\<close>

type_synonym rule_hits = "(string \<times> nat) list"

definition mark :: "string \<Rightarrow> rule_hits \<Rightarrow> rule_hits" where
  "mark k h = dict_set k ((case map_of h k of Some n \<Rightarrow> n | None \<Rightarrow> 0) + 1) h"

definition hit :: "string \<Rightarrow> rule_hits \<Rightarrow> bool" where
  "hit k h \<longleftrightarrow> (case map_of h k of Some n \<Rightarrow> n | None \<Rightarrow> 0) > 0"

lemma hit_mark: "hit k (mark j h) \<longleftrightarrow> j = k \<or> hit k h"
  by (cases "j = k") (simp_all add: hit_def mark_def)

section \<open>Ports, cells and instances\<close>

type_synonym vrange = "(int \<times> int) option"

record cut_port =
  cp_index :: nat
  cp_verilog :: string
  cp_kind :: port_kind
  cp_declared :: direction
  cp_shell_dir :: direction
  cp_range_text :: "string option"
  cp_msb :: "int option"
  cp_lsb :: "int option"

record port_map =
  pm_explicit :: "(string \<times> string) list"
  pm_default :: string
  pm_bus_formats :: "string list"

text \<open>The class's defaults.\<close>

definition mk_port_map :: port_map where
  "mk_port_map = \<lparr>pm_explicit = [], pm_default = ''snps_by_name'', pm_bus_formats = [''[%d]'']\<rparr>"

record cut_cell =
  cc_name :: string
  cc_view :: string
  cc_subckt :: string
  cc_ports :: "cut_port list"
  cc_portmap :: port_map
  cc_connects :: "(string \<times> string) list"
  cc_params :: "(string \<times> string) list"
  cc_origin :: string

record variant_bind =
  vb_entity :: string
  vb_clone :: string
  vb_vhdl_ports :: "string list"
  vb_ranges :: "vrange list"
  vb_vhdl_vector :: "bool list"
  vb_params :: "(string \<times> string) list"

record cut_instance =
  ci_labels :: "string list"
  ci_vpath :: string
  ci_path_name :: string
  ci_cell :: string
  ci_variant :: string
  ci_subckt :: string
  ci_portmap :: "port_map option"
  ci_spice :: "((nat \<times> nat) \<times> string option) list"
  ci_params :: "(string \<times> string) list"
  ci_xname :: string
  ci_port_nodes :: "(string \<times> string) list"

record port_ref =
  pr_inst :: nat
  pr_port :: nat
  pr_bit :: nat

section \<open>Nets, nodes and bridges\<close>

datatype strength = STRONG | WEAK | PULL_UP | PULL_DOWN | SUPPLY1 | SUPPLY0 | UNKNOWN_STRENGTH

record driver =
  dr_strength :: strength
  dr_origin :: string
  dr_removable :: bool
  dr_stmt :: string

record cut_net =
  cn_key :: string
  cn_aliases :: "string list"
  cn_ports :: "port_ref list"
  cn_passive :: "port_ref list"
  cn_drivers :: "driver list"
  cn_readers :: nat
  cn_variable :: bool
  cn_origins :: "string list"

record analog_node =
  an_name :: string
  an_canonical :: string
  an_aliases :: "string list"
  an_net :: "string option"
  an_ports :: "port_ref list"
  an_role :: role
  an_host :: "port_ref option"
  an_d2a :: "d2a_ie option"
  an_a2d :: "a2d_ie option"
  an_dc :: "pyfloat option"
  an_shunt :: bool
  an_pull :: "string option"
  an_report :: "string list"

text \<open>\<open>AnalogNode(name, canonical, aliases, net, ports, role)\<close> with the other fields' defaults.\<close>

definition mk_node ::
  "string \<Rightarrow> string \<Rightarrow> string list \<Rightarrow> string option \<Rightarrow> port_ref list \<Rightarrow> role \<Rightarrow> analog_node" where
  "mk_node name canonical aliases net ports r =
     \<lparr>an_name = name, an_canonical = canonical, an_aliases = aliases, an_net = net, an_ports = ports,
      an_role = r, an_host = None, an_d2a = None, an_a2d = None, an_dc = None, an_shunt = False,
      an_pull = None, an_report = []\<rparr>"

datatype bridge_kind = Bd2a | Ben | Ba2d

record bridge =
  br_kind :: bridge_kind
  br_name :: string
  br_vhdl_path :: string
  br_node :: string
  br_host :: port_ref
  br_rise :: pyfloat
  br_fall :: pyfloat

definition br_direction :: "bridge \<Rightarrow> string" where
  "br_direction b = (if br_kind b = Ba2d then ''A2D'' else ''D2A'')"

record cut_analysis =
  ca_top :: string
  ca_cells :: "(string \<times> cut_cell) list"
  ca_instances :: "cut_instance list"
  ca_variants :: "(string \<times> variant_bind) list"
  ca_nets :: "cut_net list"
  ca_notes :: "diag list"

record ams_plan =
  ap_analysis :: cut_analysis
  ap_nodes :: "analog_node list"
  ap_bridges :: "bridge list"
  ap_notes :: "diag list"

record cut_emit_result =
  ce_vhdl_path :: string
  ce_boundary_path :: string
  ce_clones :: "(string \<times> string) list"
  ce_repointed :: "string list"

end
