(* ===== verification/DeckNames.thy ===== *)
theory DeckNames
  imports AmsModel
begin

text \<open>
  \<open>vamos/ams/names.py\<close>: every name a co-simulation deck generates. The set of a
  \<open>NameAllocator\<close> is a list of lower-case names. The search for a free suffix is a loop with no
  bound in the code: here \<open>group_loop\<close> may be \<open>None\<close>, and \<open>group_loop_total\<close> shows it never is.

  The digest of a long bridge name, \<open>hashlib.sha1(...).hexdigest()\<close>, is the argument \<open>sha1\<close>.
\<close>

section \<open>The allocator\<close>

type_synonym used = "string list"

definition alloc_new :: "string list \<Rightarrow> used" where
  "alloc_new seed = map py_lower seed"

definition reserve :: "string \<Rightarrow> used \<Rightarrow> used" where
  "reserve name u = py_lower name # u"

definition is_free :: "used \<Rightarrow> string \<Rightarrow> bool" where
  "is_free u name \<longleftrightarrow> py_lower name \<notin> set u"

definition suffixed :: "string \<Rightarrow> nat \<Rightarrow> string" where
  "suffixed base k = (if k = 0 then base else base @ ''_'' @ show_int (int k))"

definition group_names :: "string \<Rightarrow> string list \<Rightarrow> nat \<Rightarrow> string list" where
  "group_names base suffixes k = map (\<lambda>s. suffixed base k @ s) suffixes"

partial_function (option) group_loop :: "used \<Rightarrow> string \<Rightarrow> string list \<Rightarrow> nat \<Rightarrow> string list option" where
  "group_loop u base suffixes k =
     (if list_all (is_free u) (group_names base suffixes k) then Some (group_names base suffixes k)
      else group_loop u base suffixes (Suc k))"

declare group_loop.simps [code]

definition take_group :: "used \<Rightarrow> string \<Rightarrow> string list \<Rightarrow> (string list \<times> used) option" where
  "take_group u base suffixes =
     (case group_loop u base suffixes 0 of
        None \<Rightarrow> None
      | Some names \<Rightarrow> Some (names, foldl (\<lambda>u n. reserve n u) u names))"

definition take_name :: "used \<Rightarrow> string \<Rightarrow> (string \<times> used) option" where
  "take_name u want = map_option (\<lambda>(ns, u'). (hd ns, u')) (take_group u want [''''])"

section \<open>The search ends\<close>

lemma lower_digits: "0 \<le> n \<Longrightarrow> py_lower (show_digits n) = show_digits n"
proof (induction n rule: show_digits.induct)
  case (1 n)
  have d: "lower_char (digit_char d) = digit_char d" if "0 \<le> d" "d < 10" for d
  proof -
    have "(of_char (digit_char d) :: int) = 48 + d"
      using of_char_digit [OF that] by (simp add: digit_val_def)
    then have "int (of_char (digit_char d)) = 48 + d" by (simp add: of_nat_of_char)
    then have "of_char (digit_char d) = nat (48 + d)" by (metis nat_int)
    then have "(of_char (digit_char d) :: nat) < 65" using that by simp
    then show ?thesis by (simp add: lower_char_def code_in_def)
  qed
  show ?case
    using 1 d [of n] d [of "n mod 10"] by (cases "n < 10") (simp_all add: show_digits.simps [of n])
qed

lemma suffixed_inj:
  assumes "py_lower (suffixed base j @ s) = py_lower (suffixed base k @ s)"
  shows "j = k"
proof -
  have pos: "show_int (int m) = show_digits (int m)" for m by (simp add: show_int_def)
  have "length (suffixed base m) = length base \<longleftrightarrow> m = 0" for m
    by (simp add: suffixed_def)
  moreover have l: "py_lower (suffixed base j) = py_lower (suffixed base k)"
    using assms by simp
  ultimately have "j = 0 \<longleftrightarrow> k = 0" using length_py_lower by metis
  then show ?thesis
  proof (cases "j = 0")
    case False
    then have "k \<noteq> 0" using \<open>j = 0 \<longleftrightarrow> k = 0\<close> by simp
    then have "py_lower (show_digits (int j)) = py_lower (show_digits (int k))"
      using l False by (simp add: suffixed_def pos)
    then have "show_digits (int j) = show_digits (int k)" by (simp add: lower_digits)
    then have "int_of_digits (show_digits (int j)) = int_of_digits (show_digits (int k))" by simp
    then show ?thesis by (simp add: int_of_show_digits)
  qed simp
qed

lemma taken_finite: "finite {k. \<not> is_free u (suffixed base k @ s)}"
proof -
  have "inj_on (\<lambda>k. py_lower (suffixed base k @ s)) {k. \<not> is_free u (suffixed base k @ s)}"
    by (rule inj_onI) (rule suffixed_inj)
  moreover have "(\<lambda>k. py_lower (suffixed base k @ s)) ` {k. \<not> is_free u (suffixed base k @ s)} \<subseteq> set u"
    by (auto simp: is_free_def)
  ultimately show ?thesis using finite_subset finite_imageD by blast
qed

definition group_free :: "used \<Rightarrow> string \<Rightarrow> string list \<Rightarrow> nat \<Rightarrow> bool" where
  "group_free u base suffixes k = list_all (is_free u) (group_names base suffixes k)"

lemma group_free_ex: "\<exists>k. group_free u base suffixes k"
proof -
  have "{k. \<not> group_free u base suffixes k} = (\<Union>s \<in> set suffixes. {k. \<not> is_free u (suffixed base k @ s)})"
    by (auto simp: group_free_def group_names_def list_all_iff)
  then have "finite {k. \<not> group_free u base suffixes k}" using taken_finite by simp
  then have "{k. \<not> group_free u base suffixes k} \<noteq> UNIV" using infinite_UNIV_nat by metis
  then show ?thesis by blast
qed

lemma group_loop_finds:
  "group_free u base suffixes (k + d) \<Longrightarrow>
   \<exists>m \<ge> k. group_loop u base suffixes k = Some (group_names base suffixes m) \<and> group_free u base suffixes m \<and>
     (\<forall>i. k \<le> i \<and> i < m \<longrightarrow> \<not> group_free u base suffixes i)"
proof (induction d arbitrary: k)
  case 0
  then show ?case
    by (intro exI [of _ k]) (auto simp: group_loop.simps [of u base suffixes k] group_free_def)
next
  case (Suc d)
  show ?case
  proof (cases "group_free u base suffixes k")
    case True
    then show ?thesis
      by (intro exI [of _ k]) (auto simp: group_loop.simps [of u base suffixes k] group_free_def)
  next
    case False
    obtain m where m: "Suc k \<le> m" "group_loop u base suffixes (Suc k) = Some (group_names base suffixes m)"
        "group_free u base suffixes m" "\<forall>i. Suc k \<le> i \<and> i < m \<longrightarrow> \<not> group_free u base suffixes i"
      using Suc.IH [of "Suc k"] Suc.prems by auto
    have "group_loop u base suffixes k = group_loop u base suffixes (Suc k)"
      using False by (simp add: group_loop.simps [of u base suffixes k] group_free_def)
    moreover have "\<forall>i. k \<le> i \<and> i < m \<longrightarrow> \<not> group_free u base suffixes i"
      using m(4) False by (metis Suc_leI le_neq_implies_less)
    ultimately show ?thesis using m by (intro exI [of _ m]) simp
  qed
qed

lemma foldl_reserve: "foldl (\<lambda>u n. reserve n u) u ns = rev (map py_lower ns) @ u"
  by (induction ns arbitrary: u) (simp_all add: reserve_def)

text \<open>The smallest suffix that is free for the whole group, all of it reserved.\<close>

lemma take_group_spec:
  "\<exists>k. take_group u base suffixes = Some (group_names base suffixes k, rev (map py_lower (group_names base suffixes k)) @ u) \<and>
     group_free u base suffixes k \<and> (\<forall>i < k. \<not> group_free u base suffixes i)"
proof -
  obtain j where "group_free u base suffixes j" using group_free_ex by blast
  then obtain m where "group_loop u base suffixes 0 = Some (group_names base suffixes m)"
      "group_free u base suffixes m" "\<forall>i. 0 \<le> i \<and> i < m \<longrightarrow> \<not> group_free u base suffixes i"
    using group_loop_finds [of u base suffixes 0 j] by auto
  then show ?thesis by (intro exI [of _ m]) (simp add: take_group_def foldl_reserve)
qed

section \<open>The interface: a supply of fresh names\<close>

text \<open>
  What the deck's writers rely on, of any supply with a state: a request gives a group of names none
  of which the state held, up to case, and the new state holds them and everything it held.
\<close>

locale name_supply =
  fixes held :: "'s \<Rightarrow> string set"
    and request :: "'s \<Rightarrow> 'r \<Rightarrow> (string list \<times> 's) option"
  assumes request_total: "request s r \<noteq> None"
    and request_fresh: "request s r = Some (ns, s') \<Longrightarrow> n \<in> set ns \<Longrightarrow> py_lower n \<notin> held s"
    and request_held: "request s r = Some (ns, s') \<Longrightarrow> held s' = held s \<union> py_lower ` set ns"
begin

fun requests :: "'s \<Rightarrow> 'r list \<Rightarrow> (string list list \<times> 's) option" where
  "requests s [] = Some ([], s)"
| "requests s (r # rs) = (case request s r of
     None \<Rightarrow> None
   | Some (ns, s') \<Rightarrow> map_option (\<lambda>(gs, s''). (ns # gs, s'')) (requests s' rs))"

lemma requests_total: "requests s rs \<noteq> None"
proof (induction rs arbitrary: s)
  case (Cons r rs)
  obtain ns s' where "request s r = Some (ns, s')" using request_total [of s r] by auto
  then show ?case using Cons [of s'] by auto
qed simp

lemma requests_fresh:
  "requests s rs = Some (gs, s') \<Longrightarrow> g \<in> set gs \<Longrightarrow> n \<in> set g \<Longrightarrow> py_lower n \<notin> held s"
proof (induction rs arbitrary: s gs)
  case (Cons r rs)
  then obtain ns s1 gs' where r: "request s r = Some (ns, s1)" "requests s1 rs = Some (gs', s')" "gs = ns # gs'"
    by (auto split: option.splits)
  then show ?case
    using Cons.IH [OF r(2)] Cons.prems request_fresh [OF r(1)] request_held [OF r(1)] by auto
qed simp

lemma requests_disjoint:
  "requests s rs = Some (gs, s') \<Longrightarrow> i < j \<Longrightarrow> j < length gs \<Longrightarrow> a \<in> set (gs ! i) \<Longrightarrow> b \<in> set (gs ! j) \<Longrightarrow>
   py_lower a \<noteq> py_lower b"
proof (induction rs arbitrary: s gs i j)
  case (Cons r rs)
  then obtain ns s1 gs' where r: "request s r = Some (ns, s1)" "requests s1 rs = Some (gs', s')" "gs = ns # gs'"
    by (auto split: option.splits)
  show ?case
  proof (cases i)
    case 0
    then have "a \<in> set ns" and "gs ! j \<in> set gs'" "b \<in> set (gs ! j)" using Cons.prems r by (auto simp: nth_Cons')
    then have "py_lower b \<notin> held s1" using requests_fresh [OF r(2)] by blast
    then have "py_lower b \<notin> py_lower ` set ns" using request_held [OF r(1)] by simp
    then show ?thesis using \<open>a \<in> set ns\<close> by (metis imageI)
  next
    case (Suc i')
    then show ?thesis using Cons.IH [OF r(2), of i' "j - 1"] Cons.prems r by (cases j) auto
  qed
qed simp

end

interpretation allocator: name_supply set "\<lambda>u (base, suffixes). take_group u base suffixes"
proof
  fix u :: used and r :: "string \<times> string list"
  obtain base sf where r: "r = (base, sf)" by (cases r)
  obtain k where k: "take_group u base sf =
      Some (group_names base sf k, rev (map py_lower (group_names base sf k)) @ u)" "group_free u base sf k"
    using take_group_spec [of u base sf] by blast
  show "(case r of (base, sf) \<Rightarrow> take_group u base sf) \<noteq> None" using r k by simp
  fix ns u' n
  assume "(case r of (base, sf) \<Rightarrow> take_group u base sf) = Some (ns, u')"
  then have ns: "ns = group_names base sf k" "u' = rev (map py_lower ns) @ u" using r k by auto
  show "set u' = set u \<union> py_lower ` set ns" using ns by auto
  assume "n \<in> set ns"
  then show "py_lower n \<notin> set u" using k ns by (simp add: group_free_def list_all_iff is_free_def)
qed

section \<open>The names\<close>

definition strip_top :: "string \<Rightarrow> string" where
  "strip_top canonical = (case find_char CHR ''.'' canonical of
     None \<Rightarrow> canonical
   | Some k \<Rightarrow> drop (Suc k) canonical)"

definition node_ok :: "char \<Rightarrow> bool" where
  "node_ok c \<longleftrightarrow> code_in 97 122 c \<or> re_digit c \<or> c = CHR ''_''"

definition sub_bad :: "(char \<Rightarrow> bool) \<Rightarrow> string \<Rightarrow> string" where
  "sub_bad ok s = map (\<lambda>c. if ok c then c else CHR ''_'') s"

definition node_base :: "string \<Rightarrow> string" where
  "node_base canonical = ''n_'' @ sub_bad node_ok (py_lower (strip_top canonical))"

definition node_name :: "used \<Rightarrow> string \<Rightarrow> (string \<times> used) option" where
  "node_name u canonical =
     map_option (\<lambda>(ns, u'). (hd ns, u')) (take_group u (node_base canonical) ['''', ''_d'', ''_e''])"

definition inst_name :: "used \<Rightarrow> string \<Rightarrow> string \<Rightarrow> (string \<times> used) option" where
  "inst_name u pre node = take_name u (pre @ node)"

definition xname :: "used \<Rightarrow> string \<Rightarrow> (string \<times> used) option" where
  "xname u vpath = take_name u (''xv_'' @ sub_bad node_ok (py_lower (strip_top vpath)))"

definition MAX_BRIDGE :: nat where "MAX_BRIDGE = 200"
definition HASH_KEEP :: nat where "HASH_KEEP = 150"
definition MAX_FIELD :: nat where "MAX_FIELD = 511"
definition MAX_LINE :: nat where "MAX_LINE = 1000"

definition bridge_ok :: "char \<Rightarrow> bool" where
  "bridge_ok c \<longleftrightarrow> name_char c \<or> c \<in> set ''.[]<>''"

definition bridge_base :: "(string \<Rightarrow> string) \<Rightarrow> string \<Rightarrow> string" where
  "bridge_base sha1 canonical =
     (let s = sub_bad bridge_ok canonical in
      if length s > MAX_BRIDGE then take HASH_KEEP s @ ''_h'' @ take 12 (sha1 s) else s)"

definition bridge_suffix :: "bridge_kind \<Rightarrow> string" where
  "bridge_suffix k = (case k of Bd2a \<Rightarrow> ''__d'' | Ben \<Rightarrow> ''__e'' | Ba2d \<Rightarrow> ''__a'')"

definition bridge_text :: "string \<Rightarrow> bridge_kind \<Rightarrow> string" where
  "bridge_text base k = base @ bridge_suffix k"

definition vb_signal :: "nat \<Rightarrow> nat \<Rightarrow> char \<Rightarrow> string" where
  "vb_signal port_index b kind =
     ''vb'' @ show_int (int port_index) @ ''_'' @ show_int (int b) @ ''_'' @ [kind]"

definition boundary_path :: "string list \<Rightarrow> string \<Rightarrow> string" where
  "boundary_path labels signal = ''.'' @ py_join ''.'' (labels @ [signal])"

definition path_name :: "string \<Rightarrow> string list \<Rightarrow> string" where
  "path_name tp labels = '':'' @ py_lower (py_join '':'' (tp # labels)) @ '':''"

definition clone_entity :: "string \<Rightarrow> string" where
  "clone_entity variant = variant @ ''__vams''"

section \<open>The bridges of a plan\<close>

text \<open>The base of a node's bridges: the first \<open>_k\<close> that no other node has (a loop as above).\<close>

partial_function (option) base_loop :: "string list \<Rightarrow> string \<Rightarrow> nat \<Rightarrow> string option" where
  "base_loop bases base k =
     (if suffixed base k \<in> set bases then base_loop bases base (Suc k) else Some (suffixed base k))"

declare base_loop.simps [code]

definition bridged :: "role \<Rightarrow> bool" where
  "bridged r \<longleftrightarrow> r \<in> set BRIDGED"

text \<open>Kind, signal letter and deck node of each bridge of a node, in the code's order.\<close>

definition node_bridges :: "analog_node \<Rightarrow> bool \<Rightarrow> (bridge_kind \<times> char \<times> string) list" where
  "node_bridges n powernet =
     (if an_role n = D2A \<or> an_role n = BIDIR then
        (if an_role n = D2A \<and> powernet then [(Bd2a, CHR ''d'', an_name n)]
         else [(Bd2a, CHR ''d'', an_name n @ ''_d''), (Ben, CHR ''e'', an_name n @ ''_e'')])
      else []) @
     (if an_role n = RD2A then [(Bd2a, CHR ''d'', an_name n)] else []) @
     (if an_role n = A2D \<or> an_role n = BIDIR \<or> an_role n = RA2D then [(Ba2d, CHR ''a'', an_name n)] else [])"

definition port_is_real :: "cut_cell \<Rightarrow> nat \<Rightarrow> bool" where
  "port_is_real cell k \<longleftrightarrow> cp_kind (cc_ports cell ! k) = REAL"

definition host_instance :: "cut_analysis \<Rightarrow> port_ref \<Rightarrow> cut_instance" where
  "host_instance ana h = ca_instances ana ! pr_inst h"

definition host_cell :: "cut_analysis \<Rightarrow> port_ref \<Rightarrow> cut_cell" where
  "host_cell ana h = the (map_of (ca_cells ana) (ci_cell (host_instance ana h)))"

definition make_bridge ::
  "cut_analysis \<Rightarrow> port_ref \<Rightarrow> d2a_ie \<Rightarrow> string \<Rightarrow> bridge_kind \<times> char \<times> string \<Rightarrow> bridge" where
  "make_bridge ana h ie base = (\<lambda>(kind, sig, on).
     \<lparr>br_kind = kind, br_name = bridge_text base kind,
      br_vhdl_path = boundary_path (ci_labels (host_instance ana h))
        (vb_signal (pr_port h) (if port_is_real (host_cell ana h) (pr_port h) then 0 else pr_bit h) sig),
      br_node = on, br_host = h, br_rise = d_rise ie, br_fall = d_fall ie\<rparr>)"

definition path_problem :: "cut_analysis \<Rightarrow> bridge \<Rightarrow> diag list" where
  "path_problem ana b =
     (if length (br_vhdl_path b) > MAX_FIELD
      then [error (ci_vpath (host_instance ana (br_host b)))
              (''boundary path of '' @ show_int (int (length (br_vhdl_path b))) @ '' characters exceeds 511'')]
      else [])"

fun bridges_loop ::
  "(string \<Rightarrow> string) \<Rightarrow> cut_analysis \<Rightarrow> string list \<Rightarrow> analog_node list \<Rightarrow> bridge list option" where
  "bridges_loop sha1 ana bases [] = Some []"
| "bridges_loop sha1 ana bases (n # ns) =
     (case an_host n of
        None \<Rightarrow> bridges_loop sha1 ana bases ns
      | Some h \<Rightarrow>
          if \<not> bridged (an_role n) then bridges_loop sha1 ana bases ns
          else
            (case base_loop bases (bridge_base sha1 (an_canonical n)) 0 of
               None \<Rightarrow> None
             | Some base \<Rightarrow>
                 (let ie = (case an_d2a n of Some d \<Rightarrow> d | None \<Rightarrow> mk_d2a f0 f0);
                      bs = map (make_bridge ana h ie base) (node_bridges n (d_powernet ie))
                  in map_option (\<lambda>out. bs @ out) (bridges_loop sha1 ana (base # bases) ns))))"

definition build_bridges :: "(string \<Rightarrow> string) \<Rightarrow> ams_plan \<Rightarrow> (diag list + bridge list) option" where
  "build_bridges sha1 plan =
     map_option (\<lambda>out. let problems = concat (map (path_problem (ap_analysis plan)) out)
                       in if problems \<noteq> [] then Inl problems else Inr out)
       (bridges_loop sha1 (ap_analysis plan) [] (ap_nodes plan))"

datatype line_err = LineTooLong diag | BadTime num_err

definition boundary_line :: "bridge \<Rightarrow> line_err + string" where
  "boundary_line b =
     rbind (if br_kind b = Ba2d then Inr (''A2D '' @ br_vhdl_path b @ '' '' @ br_name b)
            else (case fmt (br_rise b) of
                    Inl e \<Rightarrow> Inl (BadTime e)
                  | Inr r \<Rightarrow>
                      (case fmt (br_fall b) of
                         Inl e \<Rightarrow> Inl (BadTime e)
                       | Inr f \<Rightarrow> Inr (''D2A '' @ br_vhdl_path b @ '' '' @ br_name b @ '' rise='' @ r @ '' fall='' @ f))))
       (\<lambda>line. if length line > MAX_LINE
               then Inl (LineTooLong (error (br_vhdl_path b)
                      (''boundary line of '' @ show_int (int (length line)) @ '' characters exceeds 1000'')))
               else Inr line)"

section \<open>Properties of the names\<close>

lemma sub_bad_ok: "ok CHR ''_'' \<Longrightarrow> list_all ok (sub_bad ok s)"
  by (auto simp: sub_bad_def list_all_iff)

lemma node_base_chars: "list_all node_ok (node_base c)"
  by (simp add: node_base_def sub_bad_ok node_ok_def code_in_def)

lemma sub_bad_length [simp]: "length (sub_bad ok s) = length s"
  by (simp add: sub_bad_def)

lemma bridge_base_length: "length (bridge_base sha1 c) \<le> MAX_BRIDGE"
  by (auto simp: bridge_base_def Let_def MAX_BRIDGE_def HASH_KEEP_def)

lemma bridge_base_chars:
  assumes "\<And>s. list_all bridge_ok (sha1 s)"
  shows "list_all bridge_ok (bridge_base sha1 c)"
proof -
  have u: "bridge_ok CHR ''_''" "bridge_ok CHR ''h''" by (simp_all add: bridge_ok_def char_simps)
  note b = sub_bad_ok [where ok = bridge_ok and s = c, OF u(1)]
  have "list_all bridge_ok (take n (sha1 s))" for n s
    using assms [of s] by (auto simp: list_all_iff dest: in_set_takeD)
  moreover have "list_all bridge_ok (take n (sub_bad bridge_ok c))" for n
    using b by (auto simp: list_all_iff dest: in_set_takeD)
  ultimately show ?thesis using u b by (simp add: bridge_base_def Let_def)
qed

lemma bridge_text_inj: "bridge_text a j = bridge_text b k \<Longrightarrow> a = b \<and> j = k"
  by (cases j; cases k) (simp_all add: bridge_text_def bridge_suffix_def)

lemma suffixed_inj_plain: "suffixed base j = suffixed base k \<Longrightarrow> j = k"
  using suffixed_inj [of base j "[]" k] by simp

lemma base_loop_finds:
  "suffixed base (k + d) \<notin> set bases \<Longrightarrow> \<exists>b. base_loop bases base k = Some b \<and> b \<notin> set bases"
proof (induction d arbitrary: k)
  case 0
  then show ?case by (simp add: base_loop.simps [of bases base k])
next
  case (Suc d)
  then show ?case
    using Suc.IH [of "Suc k"] by (simp add: base_loop.simps [of bases base k])
qed

lemma base_loop_total: "\<exists>b. base_loop bases base 0 = Some b \<and> b \<notin> set bases"
proof -
  have "inj (suffixed base)" by (rule injI) (rule suffixed_inj_plain)
  then have "infinite (range (suffixed base))" using finite_imageD infinite_UNIV_nat by blast
  then obtain k where "suffixed base k \<notin> set bases"
    using finite_subset [of "range (suffixed base)" "set bases"] by auto
  then show ?thesis using base_loop_finds [of base 0 k bases] by simp
qed

lemma bridges_loop_total: "bridges_loop sha1 ana bases ns \<noteq> None"
proof (induction ns arbitrary: bases)
  case (Cons n ns)
  show ?case
  proof (cases "an_host n")
    case None
    then show ?thesis using Cons by simp
  next
    case (Some h)
    obtain b where "base_loop bases (bridge_base sha1 (an_canonical n)) 0 = Some b"
      using base_loop_total by blast
    then show ?thesis using Cons Some by (simp add: Let_def)
  qed
qed simp

lemma node_bridges_kinds: "distinct (map fst (node_bridges n p))"
  by (cases "an_role n") (simp_all add: node_bridges_def)

lemma make_bridge_name [simp]: "br_name (make_bridge ana h ie base t) = bridge_text base (fst t)"
  by (simp add: make_bridge_def case_prod_unfold)

text \<open>The names of a loop's bridges: bases outside the given ones, each base with distinct kinds.\<close>

definition names_off :: "string list \<Rightarrow> bridge list \<Rightarrow> bool" where
  "names_off bases out \<longleftrightarrow> (\<forall>b \<in> set out. \<exists>base k. br_name b = bridge_text base k \<and> base \<notin> set bases)"

lemma bridges_loop_names:
  "bridges_loop sha1 ana bases ns = Some out \<Longrightarrow> distinct (map br_name out) \<and> names_off bases out"
proof (induction ns arbitrary: bases out)
  case Nil
  then show ?case by (simp add: names_off_def)
next
  case (Cons n ns)
  show ?case
  proof (cases "an_host n = None \<or> \<not> bridged (an_role n)")
    case True
    then have "bridges_loop sha1 ana bases ns = Some out" using Cons.prems by (auto split: option.splits)
    then show ?thesis by (rule Cons.IH)
  next
    case False
    then obtain h where h: "an_host n = Some h" "bridged (an_role n)" by auto
    obtain base where b: "base_loop bases (bridge_base sha1 (an_canonical n)) 0 = Some base" "base \<notin> set bases"
      using base_loop_total by blast
    let ?ie = "case an_d2a n of Some d \<Rightarrow> d | None \<Rightarrow> mk_d2a f0 f0"
    let ?bs = "map (make_bridge ana h ?ie base) (node_bridges n (d_powernet ?ie))"
    obtain out' where o: "bridges_loop sha1 ana (base # bases) ns = Some out'" "out = ?bs @ out'"
      using Cons.prems h b(1) by (auto simp: Let_def)
    have IH: "distinct (map br_name out')" "names_off (base # bases) out'" using Cons.IH [OF o(1)] by auto
    have nm: "map br_name ?bs = map (bridge_text base) (map fst (node_bridges n (d_powernet ?ie)))"
      by simp
    have "inj_on (bridge_text base) X" for X by (rule inj_onI) (use bridge_text_inj in blast)
    then have "distinct (map br_name ?bs)"
      unfolding nm using node_bridges_kinds distinct_map by blast
    moreover have "br_name x \<noteq> br_name y" if xy: "x \<in> set ?bs" "y \<in> set out'" for x y
    proof
      assume e: "br_name x = br_name y"
      have "\<exists>k. br_name x = bridge_text base k" using xy(1) by auto
      then obtain k where "br_name x = bridge_text base k" ..
      moreover obtain c k' where "br_name y = bridge_text c k'" "c \<noteq> base"
        using xy(2) IH(2) by (fastforce simp: names_off_def)
      ultimately show False using e bridge_text_inj by metis
    qed
    ultimately have "distinct (map br_name out)"
      unfolding o(2) map_append distinct_append using IH(1) by force
    moreover have "names_off bases out"
      using o(2) IH(2) b(2) unfolding names_off_def
      by (metis (no_types, lifting) UnE image_iff list.set_intros(2) make_bridge_name set_append set_map)
    ultimately show ?thesis by blast
  qed
qed

end
