(* ===== verification/PortMapping.thy ===== *)
theory PortMapping
  imports AmsModel
begin

text \<open>
  \<open>vamos/ams/portmap.py\<close>: the SPICE port of every bit of a Verilog port. A bit is named by its index
  in the declared range, and stored by its offset from the right bound.
\<close>

section \<open>Ranges\<close>

definition bits :: "vrange \<Rightarrow> int list" where
  "bits rng = (case rng of
     None \<Rightarrow> [0]
   | Some (l, r) \<Rightarrow> if l \<ge> r then rev [r..l] else [l..r])"

definition offset :: "int \<Rightarrow> vrange \<Rightarrow> nat" where
  "offset b rng = (case rng of None \<Rightarrow> 0 | Some (l, r) \<Rightarrow> nat \<bar>b - r\<bar>)"

definition bit_of :: "nat \<Rightarrow> vrange \<Rightarrow> int" where
  "bit_of off rng = (case rng of None \<Rightarrow> 0 | Some (l, r) \<Rightarrow> if l \<ge> r then r + int off else r - int off)"

text \<open>\<open>fmt.replace("%d", str(i))\<close>.\<close>

fun replace_d :: "string \<Rightarrow> string \<Rightarrow> string" where
  "replace_d w (a # b # s) = (if a = CHR ''%'' \<and> b = CHR ''d'' then w @ replace_d w s else a # replace_d w (b # s))"
| "replace_d w s = s"

definition bus_name :: "string \<Rightarrow> string \<Rightarrow> int \<Rightarrow> string" where
  "bus_name base f i = base @ replace_d (show_int i) f"

section \<open>Binding\<close>

definition OPEN :: string where "OPEN = ''snps_open''"
definition BY_POSITION :: string where "BY_POSITION = ''snps_by_position''"

type_synonym port_key = "nat \<times> nat"
type_synonym binding = "(port_key \<times> string option) list"

definition rng_of :: "vrange list \<Rightarrow> nat \<Rightarrow> vrange" where
  "rng_of ranges k = (if k < length ranges then ranges ! k else None)"

definition by_name :: "string list \<Rightarrow> string list \<Rightarrow> string \<Rightarrow> vrange \<Rightarrow> int \<Rightarrow> string option" where
  "by_name allp fmts base rng i =
     (case rng of
        None \<Rightarrow> if base \<in> set allp then Some base else None
      | Some _ \<Rightarrow> find (\<lambda>cand. cand \<in> set allp) (map (\<lambda>f. bus_name base f i) fmts))"

definition key_text :: "string \<Rightarrow> vrange \<Rightarrow> int \<Rightarrow> string" where
  "key_text name rng b = (if rng = None then name else name @ ''['' @ show_int b @ '']'')"

text \<open>The lower-case dictionary of the explicit items: a later item of the same key wins.\<close>

definition explicit_of :: "port_map \<Rightarrow> string \<rightharpoonup> string" where
  "explicit_of pm = map_of (rev (map (\<lambda>(k, v). (py_lower k, py_lower v)) (pm_explicit pm)))"

definition formats_of :: "port_map \<Rightarrow> string list" where
  "formats_of pm = (if pm_bus_formats pm \<noteq> [] then pm_bus_formats pm else [''[%d]''])"

text \<open>What the loop does with one bit: bind it (with the problems it reports), or leave it to a position.\<close>

datatype bit_result = Bound "string option" "string list" | Positional

definition bind_bit ::
  "cut_cell \<Rightarrow> port_map \<Rightarrow> string list \<Rightarrow> string \<Rightarrow> vrange \<Rightarrow> int \<Rightarrow> bit_result" where
  "bind_bit cell pm allp name rng b =
     (let explicit = explicit_of pm; fmts = formats_of pm; key_bit = key_text name rng b in
      case explicit key_bit of
        Some t \<Rightarrow>
          if t = OPEN then Bound None []
          else Bound (Some t) (if t \<in> set allp then []
                 else [''port_map '' @ key_bit @ '' => '' @ t @ '': no such port on subckt '' @ cc_subckt cell])
      | None \<Rightarrow>
          (case (if rng \<noteq> None then explicit name else None) of
             Some t \<Rightarrow>
               if t = OPEN then Bound None []
               else (let target = by_name allp fmts t rng b in
                     Bound target (if target \<noteq> None then []
                       else [''port_map '' @ name @ '' => '' @ t @ '': no SPICE port for bit '' @ show_int b]))
           | None \<Rightarrow>
               if pm_default pm = OPEN then Bound None []
               else if pm_default pm = BY_POSITION then Positional
               else (let target = by_name allp fmts name rng b in
                     Bound target (if target \<noteq> None then []
                       else [''cell '' @ cc_name cell @ '': Verilog port '' @ key_bit @
                             '' has no SPICE port on subckt '' @ cc_subckt cell @
                             '' (add port_map or snps_open)'']))))"

text \<open>The bits of the ports in order, with their keys.\<close>

definition port_bits :: "vrange list \<Rightarrow> cut_port \<Rightarrow> (port_key \<times> string \<times> vrange \<times> int) list" where
  "port_bits ranges p =
     (let rng = rng_of ranges (cp_index p) in
      map (\<lambda>b. ((cp_index p, offset b rng), py_lower (cp_verilog p), rng, b)) (bits rng))"

definition all_bits :: "cut_cell \<Rightarrow> vrange list \<Rightarrow> (port_key \<times> string \<times> vrange \<times> int) list" where
  "all_bits cell ranges = concat (map (port_bits ranges) (cc_ports cell))"

record bind_state =
  b_out :: binding
  b_pos :: "port_key list"
  b_problems :: "diag list"

definition bind_step :: "cut_cell \<Rightarrow> port_map \<Rightarrow> string list \<Rightarrow> bind_state \<Rightarrow> port_key \<times> string \<times> vrange \<times> int \<Rightarrow> bind_state"
where
  "bind_step cell pm allp st = (\<lambda>(k, name, rng, b).
     case bind_bit cell pm allp name rng b of
       Bound target probs \<Rightarrow> st\<lparr>b_out := dict_set k target (b_out st),
         b_problems := b_problems st @ map (error (cc_origin cell)) probs\<rparr>
     | Positional \<Rightarrow> st\<lparr>b_pos := b_pos st @ [k]\<rparr>)"

text \<open>The positions: every bit owns one, explicitly mapped ones included.\<close>

definition place ::
  "cut_cell \<Rightarrow> string list \<Rightarrow> port_key list \<Rightarrow> bind_state \<Rightarrow> bind_state" where
  "place cell allp order st =
     (let pos = map_of (rev (zip order allp)) in
      st\<lparr>b_problems := b_problems st @
           (if length order \<noteq> length allp
            then [error (cc_origin cell) (''cell '' @ cc_name cell @ '': snps_by_position maps '' @
                    show_int (int (length order)) @ '' Verilog bits onto the '' @ show_int (int (length allp)) @
                    '' ports of subckt '' @ cc_subckt cell)] else []),
         b_out := foldl (\<lambda>out k. case pos k of None \<Rightarrow> out | Some p \<Rightarrow> dict_set k (Some p) out) (b_out st) (b_pos st)\<rparr>)"

text \<open>The check over \<open>sorted(out.items())\<close>: every SPICE port that an earlier key has already.\<close>

fun twice_mapped :: "string list \<Rightarrow> (port_key \<times> string option) list \<Rightarrow> string list" where
  "twice_mapped seen [] = []"
| "twice_mapped seen ((k, sp) # items) = (case sp of
     None \<Rightarrow> twice_mapped seen items
   | Some p \<Rightarrow> (if p \<in> set seen then [p] else []) @ twice_mapped (p # seen) items)"

definition sorted_items :: "binding \<Rightarrow> binding" where
  "sorted_items out = sort_key (\<lambda>it. fst (fst it)) (sort_key (\<lambda>it. snd (fst it)) out)"

definition bind_all :: "cut_cell \<Rightarrow> port_map \<Rightarrow> string list \<Rightarrow> vrange list \<Rightarrow> bind_state" where
  "bind_all cell pm allp ranges =
     (let st = foldl (bind_step cell pm allp) \<lparr>b_out = [], b_pos = [], b_problems = []\<rparr> (all_bits cell ranges)
      in if pm_default pm = BY_POSITION then place cell allp (map fst (all_bits cell ranges)) st else st)"

definition bind_bits ::
  "cut_cell \<Rightarrow> port_map option \<Rightarrow> vrange list \<Rightarrow> string list \<Rightarrow> diag list + binding" where
  "bind_bits cell pmo ranges orig_ports =
     (let st = bind_all cell (case pmo of Some p \<Rightarrow> p | None \<Rightarrow> cc_portmap cell) (map py_lower orig_ports) ranges;
          problems = b_problems st @
            map (\<lambda>p. error (cc_origin cell) (''cell '' @ cc_name cell @ '': SPICE port '' @ p @ '' is mapped twice''))
              (twice_mapped [] (sorted_items (b_out st)))
      in if problems \<noteq> [] then Inl problems else Inr (b_out st))"

section \<open>Bits and offsets\<close>

lemma bits_distinct: "distinct (bits rng)"
  by (auto simp: bits_def split: option.split)

lemma bit_of_offset: "b \<in> set (bits rng) \<Longrightarrow> bit_of (offset b rng) rng = b"
  by (auto simp: bits_def offset_def bit_of_def split: option.splits if_splits)

lemma offset_bit_of: "bit_of off rng \<in> set (bits rng) \<Longrightarrow> offset (bit_of off rng) rng = (if rng = None then 0 else off)"
  by (auto simp: offset_def bit_of_def split: option.splits)

lemma offset_inj: "b \<in> set (bits rng) \<Longrightarrow> c \<in> set (bits rng) \<Longrightarrow> offset b rng = offset c rng \<Longrightarrow> b = c"
  using bit_of_offset by metis

lemma length_bits: "length (bits rng) = (case rng of None \<Rightarrow> 1 | Some (l, r) \<Rightarrow> nat (\<bar>l - r\<bar> + 1))"
  by (auto simp: bits_def split: option.split)

lemma offsets_of_bits: "set (map (\<lambda>b. offset b rng) (bits rng)) = {..< length (bits rng)}"
proof (cases rng)
  case (Some lr)
  obtain l r where lr: "lr = (l, r)" by (cases lr)
  have "off \<in> (\<lambda>b. offset b rng) ` set (bits rng)" if "off < length (bits rng)" for off
  proof -
    have "bit_of off rng \<in> set (bits rng)"
      using that by (auto simp: Some lr bit_of_def bits_def)
    then show ?thesis using offset_bit_of [of off rng] Some by force
  qed
  moreover have "offset b rng < length (bits rng)" if "b \<in> set (bits rng)" for b
    using that by (auto simp: Some lr offset_def bits_def split: if_splits)
  ultimately show ?thesis by auto
qed (auto simp: bits_def offset_def)

section \<open>No SPICE port is bound twice\<close>

lemma twice_mapped_Nil:
  "twice_mapped seen items = [] \<Longrightarrow>
   distinct (filter (\<lambda>x. x \<noteq> None) (map snd items)) \<and>
   (\<forall>p \<in> set seen. Some p \<notin> set (map snd items))"
proof (induction seen items rule: twice_mapped.induct)
  case (2 seen k sp items)
  then show ?case by (cases sp) (auto split: if_splits)
qed simp

lemma distinct_filter_inj:
  "distinct (filter P (map f xs)) \<Longrightarrow> x \<in> set xs \<Longrightarrow> y \<in> set xs \<Longrightarrow> f x = f y \<Longrightarrow> P (f x) \<Longrightarrow> x = y"
proof (induction xs)
  case (Cons z xs)
  then show ?case by (auto split: if_splits) (metis image_eqI)+
qed simp

lemma bind_bits_inj:
  assumes "bind_bits cell pmo ranges ports = Inr out"
    and "(k, Some p) \<in> set out" and "(j, Some p) \<in> set out"
  shows "j = k"
proof -
  have t: "twice_mapped [] (sorted_items out) = []"
    using assms(1) by (auto simp: bind_bits_def Let_def split: if_splits)
  have s: "set (sorted_items out) = set out" by (simp add: sorted_items_def)
  have "(k, Some p) = (j, Some p)"
    by (rule distinct_filter_inj [where f = snd and P = "\<lambda>x. x \<noteq> None" and xs = "sorted_items out"])
      (use twice_mapped_Nil [OF t] assms(2, 3) s in auto)
  then show ?thesis by simp
qed

section \<open>Every bit is bound\<close>

lemma bind_step_keys:
  "insert k (fst ` set (b_out st) \<union> set (b_pos st)) =
   fst ` set (b_out (bind_step cell pm allp st (k, r))) \<union> set (b_pos (bind_step cell pm allp st (k, r)))"
  by (auto simp: bind_step_def split: bit_result.split prod.split)

lemma bind_fold_keys:
  "fst ` set (b_out (foldl (bind_step cell pm allp) st bs)) \<union> set (b_pos (foldl (bind_step cell pm allp) st bs)) =
   fst ` set (b_out st) \<union> set (b_pos st) \<union> fst ` set bs"
proof (induction bs arbitrary: st)
  case (Cons kr bs)
  obtain k r where kr: "kr = (k, r)" by (cases kr)
  show ?case
    unfolding foldl_Cons Cons.IH kr using bind_step_keys [of k st cell pm allp r] by auto
qed simp

lemma bind_step_pos:
  "b_pos (bind_step cell pm allp st x) = b_pos st \<or> pm_default pm = BY_POSITION"
  unfolding bind_step_def bind_bit_def Let_def
  by (auto split: option.splits bit_result.splits prod.splits if_splits)

lemma bind_fold_pos:
  "pm_default pm \<noteq> BY_POSITION \<Longrightarrow> b_pos (foldl (bind_step cell pm allp) st bs) = b_pos st"
  using bind_step_pos [of cell pm allp] by (induction bs arbitrary: st) auto

lemma place_fold_keys:
  "\<forall>k \<in> set ks. pos k \<noteq> None \<Longrightarrow>
   fst ` set (foldl (\<lambda>out k. case pos k of None \<Rightarrow> out | Some p \<Rightarrow> dict_set k (Some p) out) out ks) =
   fst ` set out \<union> set ks"
proof (induction ks arbitrary: out)
  case (Cons k ks)
  then obtain p where "pos k = Some p" by auto
  then show ?case using Cons by simp
qed simp

lemma place_keys:
  assumes "length order = length allp" and "set (b_pos st) \<subseteq> set order"
  shows "fst ` set (b_out (place cell allp order st)) = fst ` set (b_out st) \<union> set (b_pos st)"
proof -
  have "fst ` set (zip order allp) = set order" using assms(1) by (metis map_fst_zip set_map)
  then have "\<forall>k \<in> set (b_pos st). map_of (rev (zip order allp)) k \<noteq> None"
    using assms(2) by (auto simp: map_of_eq_None_iff)
  then show ?thesis unfolding place_def Let_def bind_state.simps by (simp add: place_fold_keys)
qed

lemma bind_bits_total:
  assumes "bind_bits cell pmo ranges ports = Inr out"
  shows "fst ` set out = fst ` set (all_bits cell ranges)"
proof -
  define pm where "pm = (case pmo of Some p \<Rightarrow> p | None \<Rightarrow> cc_portmap cell)"
  define allp where "allp = map py_lower ports"
  define order where "order = map fst (all_bits cell ranges)"
  define st where "st = foldl (bind_step cell pm allp) \<lparr>b_out = [], b_pos = [], b_problems = []\<rparr> (all_bits cell ranges)"
  have keys: "fst ` set (b_out st) \<union> set (b_pos st) = fst ` set (all_bits cell ranges)"
    unfolding st_def bind_fold_keys by simp
  have out: "out = b_out (bind_all cell pm allp ranges)" "b_problems (bind_all cell pm allp ranges) = []"
    using assms by (auto simp: bind_bits_def Let_def pm_def allp_def split: if_splits)
  show ?thesis
  proof (cases "pm_default pm = BY_POSITION")
    case True
    then have b: "bind_all cell pm allp ranges = place cell allp order st"
      by (simp add: bind_all_def st_def order_def)
    have "length order = length allp" using out(2) unfolding b by (auto simp: place_def Let_def split: if_splits)
    then show ?thesis
      unfolding out(1) b using keys by (subst place_keys) (auto simp: order_def)
  next
    case False
    then have "bind_all cell pm allp ranges = st" by (simp add: bind_all_def st_def)
    moreover have "b_pos st = []" unfolding st_def using bind_fold_pos [OF False] by simp
    ultimately show ?thesis using out(1) keys by simp
  qed
qed

end
