(* ===== verification/AmsProps.thy ===== *)
theory AmsProps
  imports DeckNames PortMapping
begin

text \<open>
  The properties of the cut's names and of the port mapping, and of the notes every tool of the
  repository reports with.
\<close>

section \<open>Names\<close>

text \<open>C24: names of a deck never collide: a request for a group of names is always answered, and among the
  answers to any sequence of requests no two different requests share a name, up to case, and none
  has a name that was taken before.\<close>

theorem deck_names_never_collide:
  "\<exists>gs u'. allocator.requests u rs = Some (gs, u') \<and>
     (\<forall>g \<in> set gs. \<forall>n \<in> set g. py_lower n \<notin> set u) \<and>
     (\<forall>j < length gs. \<forall>i < j. \<forall>a \<in> set (gs ! i). \<forall>b \<in> set (gs ! j). py_lower a \<noteq> py_lower b)"
proof -
  obtain gs u' where r: "allocator.requests u rs = Some (gs, u')"
    using allocator.requests_total [of u rs] by auto
  show ?thesis using allocator.requests_fresh [OF r] allocator.requests_disjoint [OF r] r by blast
qed

theorem deck_names_never_collide_witness:
  "\<exists>gs u'. allocator.requests [''n_a''] [(''n_a'', [''''])] = Some (gs, u') \<and>
     (\<forall>g \<in> set gs. \<forall>n \<in> set g. py_lower n \<notin> set [''n_a'']) \<and>
     (\<forall>j < length gs. \<forall>i < j. \<forall>a \<in> set (gs ! i). \<forall>b \<in> set (gs ! j). py_lower a \<noteq> py_lower b)"
  by (rule deck_names_never_collide)

text \<open>The loop of \<open>take_group\<close> ends, with the smallest suffix that is free for the whole group, and
  reserves every name of it.\<close>

lemma take_group_smallest:
  "\<exists>k. take_group u base suffixes = Some (group_names base suffixes k, rev (map py_lower (group_names base suffixes k)) @ u) \<and>
     group_free u base suffixes k \<and> (\<forall>i < k. \<not> group_free u base suffixes i)"
  by (rule take_group_spec)

text \<open>Every plan's bridges get names: the loop ends, and no two bridges have the same name, so that
  the registry of the digital side can tell them apart.\<close>

theorem bridge_names_distinct:
  "\<exists>r. build_bridges sha1 plan = Some r \<and> (case r of Inr bs \<Rightarrow> distinct (map br_name bs) | Inl ps \<Rightarrow> ps \<noteq> [])"
proof -
  obtain out where out: "bridges_loop sha1 (ap_analysis plan) [] (ap_nodes plan) = Some out"
    using bridges_loop_total by blast
  then show ?thesis using bridges_loop_names [OF out] by (auto simp: build_bridges_def Let_def)
qed

section \<open>Port mapping\<close>

text \<open>C23: a successful port mapping is one to one: every bit of every port of the cell has an entry, and no
  two bits share a port of the subcircuit.\<close>

theorem port_mapping_one_to_one:
  assumes "bind_bits cell pmo ranges ports = Inr out"
  shows "fst ` set out = fst ` set (all_bits cell ranges) \<and>
         (\<forall>k j p. (k, Some p) \<in> set out \<and> (j, Some p) \<in> set out \<longrightarrow> j = k)"
  using bind_bits_total [OF assms] bind_bits_inj [OF assms] by blast

abbreviation one_bit_cell :: cut_cell where
  "one_bit_cell \<equiv> \<lparr>cc_name = ''inv'', cc_view = ''spice'', cc_subckt = ''inv'',
     cc_ports = [\<lparr>cp_index = 0, cp_verilog = ''a'', cp_kind = LOGIC, cp_declared = INPUT, cp_shell_dir = INPUT,
       cp_range_text = None, cp_msb = None, cp_lsb = None\<rparr>],
     cc_portmap = mk_port_map, cc_connects = [], cc_params = [], cc_origin = []\<rparr>"

theorem port_mapping_one_to_one_witness:
  "fst ` set [((0 :: nat, 0 :: nat), Some ''a'')] = fst ` set (all_bits one_bit_cell [])"
proof -
  have b: "bind_bits one_bit_cell None [] [''a''] = Inr [((0, 0), Some ''a'')]"
    by (simp add: bind_bits_def bind_all_def Let_def all_bits_def port_bits_def rng_of_def bits_def offset_def
        bind_step_def bind_bit_def explicit_of_def mk_port_map_def key_text_def by_name_def OPEN_def
        BY_POSITION_def sorted_items_def py_lower_def lower_char_def code_in_def)
  show ?thesis using port_mapping_one_to_one [OF b] by (rule conjunct1)
qed

text \<open>C25: the offset of a bit from the right bound numbers the bits of a range one to one from 0, for
  ranges in both directions, and \<open>bit_of\<close> inverts it.\<close>

theorem bit_offsets:
  "set (map (\<lambda>b. offset b rng) (bits rng)) = {..< length (bits rng)} \<and>
   (\<forall>b \<in> set (bits rng). bit_of (offset b rng) rng = b)"
  using offsets_of_bits bit_of_offset by blast

theorem bit_offsets_witness:
  "set (map (\<lambda>b. offset b (Some (3, 0))) (bits (Some (3, 0)))) = {..< length (bits (Some (3, 0)))} \<and>
   bit_of (offset 2 (Some (3, 0))) (Some (3, 0)) = 2"
proof -
  have "2 \<in> set (bits (Some (3, 0)))" by (simp add: bits_def)
  then show ?thesis using bit_offsets [of "Some (3, 0)"] by blast
qed

section \<open>Notes\<close>

text \<open>Strict mode turns warnings into errors and changes nothing else: the run fails exactly when a
  note was at least a warning, and every message and origin stays.\<close>

lemma strict_mode:
  "(has_errors (strict ns True) \<longleftrightarrow> (\<exists>n \<in> set ns. WARNING \<le> severity n)) \<and>
   map message (strict ns on) = map message ns \<and> map origin (strict ns on) = map origin ns"
  using has_errors_strict strict_messages by blast

end
