(* ===== verification/PyText.thy ===== *)
theory PyText
  imports PyFloat "HOL-Library.List_Lexorder" "HOL-Library.Char_ord"
begin

text \<open>
  What the modules of the AMS flow use of Python's texts beyond the prelude: \<open>repr\<close> of a text (the
  \<open>%r\<close> of a message), \<open>int\<close> of a text, \<open>rsplit\<close>, the sorted list of a set of texts, and
  \<open>difflib.get_close_matches\<close>. Texts are compared by their code points.
\<close>

section \<open>Texts\<close>

definition hex_digit :: "nat \<Rightarrow> char" where
  "hex_digit d = ''0123456789abcdef'' ! d"

text \<open>One character inside the quotes \<open>q\<close>; what is not printable is written by its code.\<close>

definition repr_char :: "char \<Rightarrow> char \<Rightarrow> string" where
  "repr_char q c =
     (let n = of_char c :: nat in
      if c = q \<or> n = 92 then [char_of (92 :: nat), c]
      else if n = 9 then [char_of (92 :: nat), CHR ''t'']
      else if n = 10 then [char_of (92 :: nat), CHR ''n'']
      else if n = 13 then [char_of (92 :: nat), CHR ''r'']
      else if n < 32 \<or> (127 \<le> n \<and> n \<le> 160) \<or> n = 173
      then [char_of (92 :: nat), CHR ''x'', hex_digit (n div 16), hex_digit (n mod 16)]
      else [c])"

definition py_repr :: "string \<Rightarrow> string" where
  "py_repr s =
     (let single = char_of (39 :: nat); double = char_of (34 :: nat);
          q = (if single \<in> set s \<and> double \<notin> set s then double else single)
      in q # concat (map (repr_char q) s) @ [q])"

text \<open>\<open>int(s)\<close>: white space around, a sign, digits with single underscores between them.\<close>

fun digit_groups :: "bool \<Rightarrow> string \<Rightarrow> string option" where
  "digit_groups after [] = (if after then Some [] else None)"
| "digit_groups after (c # s) =
     (if re_digit c then map_option ((#) c) (digit_groups True s)
      else if c = CHR ''_'' \<and> after then digit_groups False s else None)"

definition py_int :: "string \<Rightarrow> string + int" where
  "py_int s =
     (let (neg, body) = (case py_strip s of
            [] \<Rightarrow> (False, [])
          | c # r \<Rightarrow> if c = CHR ''-'' then (True, r) else if c = CHR ''+'' then (False, r) else (False, c # r))
      in case digit_groups False body of
           None \<Rightarrow> Inl (''invalid literal for int() with base 10: '' @ py_repr s)
         | Some ds \<Rightarrow> Inr (if neg then - int_of_digits ds else int_of_digits ds))"

text \<open>\<open>s.rsplit(c, 1)[0]\<close>: the text before the last \<open>c\<close>, all of it where there is none.\<close>

definition before_last :: "char \<Rightarrow> string \<Rightarrow> string" where
  "before_last c s = (if c \<in> set s then rev (drop 1 (dropWhile (\<lambda>x. x \<noteq> c) (rev s))) else s)"

lemma before_last_append: "c \<notin> set t \<Longrightarrow> before_last c (s @ c # t) = s"
proof -
  assume t: "c \<notin> set t"
  have "dropWhile (\<lambda>x. x \<noteq> c) (rev t @ c # rev s) = c # rev s"
    using t by (subst dropWhile_append2) auto
  then show ?thesis by (simp add: before_last_def)
qed

lemma before_last_none: "c \<notin> set s \<Longrightarrow> before_last c s = s"
  by (simp add: before_last_def)

text \<open>\<open>sorted(set(xs))\<close>.\<close>

definition sorted_set :: "string list \<Rightarrow> string list" where
  "sorted_set xs = sort (remdups xs)"

lemma sorted_set_props [simp]:
  "set (sorted_set xs) = set xs" "distinct (sorted_set xs)" "sorted (sorted_set xs)"
  by (simp_all add: sorted_set_def)

section \<open>Near texts\<close>

text \<open>The common prefix of two texts; characters in \<open>junk\<close> stop it.\<close>

fun common_run :: "char set \<Rightarrow> string \<Rightarrow> string \<Rightarrow> nat" where
  "common_run junk (x # xs) (y # ys) = (if x = y \<and> x \<notin> junk then Suc (common_run junk xs ys) else 0)"
| "common_run junk _ _ = 0"

lemma common_run_le: "common_run junk a b \<le> length a \<and> common_run junk a b \<le> length b"
  by (induction junk a b rule: common_run.induct) auto

text \<open>
  \<open>SequenceMatcher.find_longest_match\<close>: the first longest block, grown at both ends over the popular
  characters that the index leaves out.
\<close>

definition best_run :: "char set \<Rightarrow> string \<Rightarrow> string \<Rightarrow> nat \<times> nat \<times> nat" where
  "best_run junk a b =
     foldl (\<lambda>(bi, bj, k) (i, j). let r = common_run junk (drop i a) (drop j b) in
              if k < r then (i, j, r) else (bi, bj, k))
       (0, 0, 0) (List.product [0..<length a] [0..<length b])"

definition longest_match :: "char set \<Rightarrow> string \<Rightarrow> string \<Rightarrow> nat \<times> nat \<times> nat" where
  "longest_match junk a b =
     (let (i, j, k) = best_run junk a b;
          left = common_run {} (rev (take i a)) (rev (take j b));
          right = common_run {} (drop (i + k) a) (drop (j + k) b)
      in (i - left, j - left, left + k + right))"

text \<open>The characters of a text of 200 or more that the index leaves out.\<close>

definition popular :: "string \<Rightarrow> char set" where
  "popular b = (if length b < 200 then {}
                else set (filter (\<lambda>c. length b div 100 + 1 < count_list b c) b))"

text \<open>The sizes of \<open>get_matching_blocks\<close> added up.\<close>

function matched :: "char set \<Rightarrow> string \<Rightarrow> string \<Rightarrow> nat" where
  "matched junk a b =
     (let (i, j, k) = longest_match junk a b in
      if k = 0 \<or> length a < i + k then 0
      else k + matched junk (take i a) (take j b) + matched junk (drop (i + k) a) (drop (j + k) b))"
  by pat_completeness auto
termination by (relation "measure (\<lambda>(junk, a, b). length a)") auto

declare matched.simps [simp del]

definition ratio :: "string \<Rightarrow> string \<Rightarrow> rat" where
  "ratio a b = (if length a + length b = 0 then 1
                else 2 * of_nat (matched (popular b) a b) / of_nat (length a + length b))"

text \<open>
  \<open>get_close_matches(word, possibilities, n, cutoff)\<close>: the \<open>n\<close> texts of the highest ratio, at least
  the cutoff; of one ratio the text that sorts later comes first.
\<close>

definition get_close_matches :: "string \<Rightarrow> string list \<Rightarrow> nat \<Rightarrow> rat \<Rightarrow> string list" where
  "get_close_matches word possibilities n cutoff =
     take n (rev (sort_key (\<lambda>x. ratio x word)
       (sort (filter (\<lambda>x. cutoff \<le> ratio x word) possibilities))))"

lemma close_matches_subset: "set (get_close_matches w xs n c) \<subseteq> {x \<in> set xs. c \<le> ratio x w}"
  by (auto simp: get_close_matches_def dest: in_set_takeD)

lemma close_matches_length: "length (get_close_matches w xs n c) \<le> n"
  by (simp add: get_close_matches_def)

text \<open>A block never leaves the texts, so the guard of \<open>matched\<close> is only there for its termination.\<close>

lemma best_run_bound:
  "best_run junk a b = (i, j, k) \<Longrightarrow> i + k \<le> length a \<and> j + k \<le> length b"
proof -
  have "case foldl (\<lambda>(bi, bj, k) (i, j). let r = common_run junk (drop i a) (drop j b) in
              if k < r then (i, j, r) else (bi, bj, k)) (x, y, z) ps of
        (i, j, k) \<Rightarrow> i + k \<le> length a \<and> j + k \<le> length b"
    if "x + z \<le> length a \<and> y + z \<le> length b"
      and "\<forall>(i, j) \<in> set ps. i < length a \<and> j < length b" for x y z ps
    using that
  proof (induction ps arbitrary: x y z)
    case (Cons p ps)
    obtain i j where p: "p = (i, j)" by (cases p)
    have "common_run junk (drop i a) (drop j b) + i \<le> length a"
        "common_run junk (drop i a) (drop j b) + j \<le> length b"
      using common_run_le [of junk "drop i a" "drop j b"] Cons.prems p by auto
    then show ?case using Cons p by (auto simp: Let_def add.commute)
  qed simp
  from this [of 0 0 0 "List.product [0..<length a] [0..<length b]"]
  show "best_run junk a b = (i, j, k) \<Longrightarrow> i + k \<le> length a \<and> j + k \<le> length b"
    by (auto simp: best_run_def)
qed

lemma longest_match_bound:
  assumes "longest_match junk a b = (i, j, k)"
  shows "i + k \<le> length a \<and> j + k \<le> length b"
proof -
  obtain p q r where b: "best_run junk a b = (p, q, r)" by (cases "best_run junk a b")
  let ?l = "common_run {} (rev (take p a)) (rev (take q b))"
  let ?u = "common_run {} (drop (p + r) a) (drop (q + r) b)"
  have "?l \<le> p" "?l \<le> q" "?u \<le> length a - (p + r)" "?u \<le> length b - (q + r)"
    using common_run_le [of "{}" "rev (take p a)" "rev (take q b)"]
      common_run_le [of "{}" "drop (p + r) a" "drop (q + r) b"] by simp_all
  then show ?thesis using assms best_run_bound [OF b] b by (auto simp: longest_match_def Let_def)
qed

end
