(* ===== verification/IeConfig.thy ===== *)
theory IeConfig
  imports AmsModel Globs PyText
begin

text \<open>
  \<open>vamos/ams/config.py\<close>: what the reader of the control file fills and the other modules of the flow
  read. A dictionary is a list of pairs in insertion order. \<open>xa\<close> has two kinds of values: the patterns
  of probes, and the case mode.
\<close>

definition TNF :: string where "TNF = ''MSV-IE-OPT-TNF''"

record choose_engine =
  ch_engine :: string
  ch_netlists :: "string list"
  ch_cfgs :: "string list"
  ch_out_prefix :: "string option"
  ch_uic :: bool
  ch_dialect :: string
  ch_options :: "string list"
  ch_origin :: string

definition mk_choose :: "string \<Rightarrow> choose_engine" where
  "mk_choose eng = \<lparr>ch_engine = eng, ch_netlists = [], ch_cfgs = [], ch_out_prefix = None, ch_uic = False,
     ch_dialect = ''hspice'', ch_options = [], ch_origin = []\<rparr>"

record use_spice =
  us_cells :: "(string \<times> string) list"
  us_insts :: "string list"
  us_port_map :: "(string \<times> string) list"
  us_index_order :: "(string \<times> string) list"
  us_origin :: string

definition mk_use_spice :: use_spice where
  "mk_use_spice = \<lparr>us_cells = [], us_insts = [], us_port_map = [], us_index_order = [], us_origin = []\<rparr>"

record port_dir =
  pd_cell :: string
  pd_dirs :: "(string \<times> string) list"
  pd_origin :: string

record port_connect =
  pc_cell :: string
  pc_inst :: "string option"
  pc_conns :: "(string \<times> string \<times> bool) list"
  pc_origin :: string

record ie_rule =
  ir_kind :: string
  ir_params :: "(string \<times> string) list"
  ir_node :: "string option"
  ir_cell :: "string option"
  ir_inst :: "string option"
  ir_port :: "string option"
  ir_library :: "string option"
  ir_origin :: string

definition mk_rule :: "string \<Rightarrow> ie_rule" where
  "mk_rule kind = \<lparr>ir_kind = kind, ir_params = [], ir_node = None, ir_cell = None, ir_inst = None,
     ir_port = None, ir_library = None, ir_origin = []\<rparr>"

datatype xa_value = XaCase "string option" | XaProbes "(string \<times> string) list"

record ams_config =
  ac_choose :: "choose_engine option"
  ac_use_spice :: "use_spice list"
  ac_bus_formats :: "string list"
  ac_port_dirs :: "(string \<times> port_dir) list"
  ac_port_connects :: "port_connect list"
  ac_rules :: "ie_rule list"
  ac_remove_d2a :: "(string \<times> pyfloat option \<times> string) list"
  ac_disable_ie :: "(string \<times> string) list"
  ac_netlist_lines :: "(string \<times> string) list"
  ac_ref_voltages :: "(string \<times> pyfloat option \<times> string) list"
  ac_severity_overrides :: "(string \<times> string) list"
  ac_xa :: "(string \<times> xa_value) list"
  ac_files :: "string list"
  ac_notes :: "diag list"

definition mk_config :: ams_config where
  "mk_config = \<lparr>ac_choose = None, ac_use_spice = [], ac_bus_formats = [], ac_port_dirs = [],
     ac_port_connects = [], ac_rules = [], ac_remove_d2a = [], ac_disable_ie = [], ac_netlist_lines = [],
     ac_ref_voltages = [], ac_severity_overrides = [], ac_xa = [], ac_files = [], ac_notes = []\<rparr>"

definition formats :: "ams_config \<Rightarrow> string list" where
  "formats cfg = (if ac_bus_formats cfg \<noteq> [] then ac_bus_formats cfg else [''[%d]''])"

end
