(* ===== verification/IeCheck.thy ===== *)
theory IeCheck
  imports IeConfig Numbers
begin

text \<open>
  The first half of \<open>vamos/ams/rules.py\<close>: the values of interface-element rules and the check of one
  rule that the control file's reader makes (\<open>check_rule\<close>). What raises \<open>ValueError\<close> is a sum whose
  error is the message.
\<close>

type_synonym 'a valued = "string + 'a"

section \<open>Constants\<close>

definition MIN_RAMP :: pyfloat where "MIN_RAMP = float_dec ''1'' (-15)"
definition SEEN :: string where "SEEN = ''node:''"
definition SEEN_CELL :: string where "SEEN_CELL = ''cell:''"
definition SUPPLY_KEYS :: "string list" where
  "SUPPLY_KEYS = [''vdd'', ''vss'', ''vdd_port'', ''vss_port'']"

datatype vclass =
    CLevel | CRamp | CTime | CX2v | CFlag | CSupply | CSupplyPort | CUnsupported | CXband | CLogic
  | CExcept | CHiz | CStrength | CCeff | CQueue | COhms

definition D2A_CLASSES :: "(string \<times> vclass) list" where
  "D2A_CLASSES =
    [(''hiv'', CLevel), (''lov'', CLevel), (''rf_time'', CRamp), (''rise_time'', CRamp), (''fall_time'', CRamp),
     (''delay'', CTime), (''rise_delay'', CTime), (''fall_delay'', CTime), (''x2v'', CX2v), (''powernet'', CFlag),
     (''vdd'', CSupply), (''vss'', CSupply), (''vdd_port'', CSupplyPort), (''vss_port'', CSupplyPort),
     (''minv'', CUnsupported), (''minv_analog'', CUnsupported), (''vdd_filter'', CUnsupported)]"

definition A2D_CLASSES :: "(string \<times> vclass) list" where
  "A2D_CLASSES =
    [(''loth'', CLevel), (''hith'', CLevel), (''xband'', CXband), (''midv_time'', CTime), (''midv_logic'', CLogic),
     (''vdd'', CSupply), (''vss'', CSupply), (''vdd_port'', CSupplyPort), (''vss_port'', CSupplyPort),
     (''except_port'', CExcept), (''hiz_on'', CHiz), (''hiz_off'', CHiz), (''strength'', CStrength),
     (''ceff'', CCeff), (''queue'', CQueue), (''minv'', CUnsupported), (''minv_logic'', CUnsupported)]"

text \<open>\<open>_KEYS\<close>: the value class of every key, by the kind of the rule.\<close>

definition KEYS :: "string \<rightharpoonup> (string \<rightharpoonup> vclass)" where
  "KEYS kind = (if kind = ''d2a'' then Some (map_of D2A_CLASSES)
                else if kind = ''a2d'' then Some (map_of A2D_CLASSES)
                else if kind = ''map_by_node'' then Some [''r'' \<mapsto> COhms] else None)"

definition LEVEL_KEYS :: "string \<Rightarrow> string list" where
  "LEVEL_KEYS kind = (if kind = ''d2a'' then [''hiv'', ''lov''] else if kind = ''a2d'' then [''loth'', ''hith''] else [])"

definition STRENGTHS :: "string list" where
  "STRENGTHS = [''supply'', ''strong'', ''pull'', ''large'', ''weak'', ''medium'', ''small'', ''hiz'', ''rmap'']"

definition EXCLUSIVE :: "(string \<times> string list) list" where
  "EXCLUSIVE = [(''rf_time'', [''rise_time'', ''fall_time'']), (''delay'', [''rise_delay'', ''fall_delay'']),
                (''vdd'', [''vdd_port'']), (''vss'', [''vss_port''])]"

definition NOT_LEVELS :: "string list" where
  "NOT_LEVELS = SUPPLY_KEYS @ [''except_port'', ''hiz_on'', ''hiz_off'', ''strength'', ''ceff'', ''queue'', ''minv'',
     ''minv_logic'', ''minv_analog'', ''vdd_filter'']"

definition direction_of :: "ie_rule \<Rightarrow> string" where
  "direction_of rule = (if ir_kind rule = ''map_by_node'' then ''d2a'' else ir_kind rule)"

section \<open>Values\<close>

definition number_of :: "string \<Rightarrow> pyfloat valued" where
  "number_of s = (case parse_number s of
     Inl _ \<Rightarrow> Inl (''not a number: '' @ py_repr s) | Inr v \<Rightarrow> Inr v)"

definition not_finite :: "string \<Rightarrow> string" where
  "not_finite raw = ''not a finite number: '' @ py_repr raw"

definition ends_percent :: "string \<Rightarrow> bool" where
  "ends_percent s \<longleftrightarrow> s \<noteq> [] \<and> last s = CHR ''%''"

definition parse_level :: "string \<Rightarrow> (pyfloat \<times> bool) valued" where
  "parse_level raw =
     (let s = py_strip raw in
      rbind (if ends_percent s then rbind (number_of (butlast s)) (\<lambda>v. Inr (fdiv v (float_of_int 100), True))
             else rbind (number_of s) (\<lambda>v. Inr (v, False)))
       (\<lambda>(v, pct). if finite_float v then Inr (v, pct) else Inl (not_finite raw)))"

definition parse_time :: "string \<Rightarrow> pyfloat valued" where
  "parse_time raw =
     (let s = py_strip raw in
      if ends_percent s then Inl (''a time cannot be a percentage: '' @ py_repr raw)
      else rbind (number_of s) (\<lambda>v. if finite_float v then Inr v else Inl (not_finite raw)))"

definition case_sensitive :: "ams_config \<Rightarrow> bool" where
  "case_sensitive cfg = (case map_of (ac_xa cfg) ''case'' of
     Some (XaCase (Some m)) \<Rightarrow> py_lower m = ''sensitive'' | _ \<Rightarrow> False)"

definition selector_text :: "ie_rule \<Rightarrow> string" where
  "selector_text rule = (case ir_node rule of
     Some n \<Rightarrow> ''node='' @ n
   | None \<Rightarrow> py_join '' ''
       ((case ir_cell rule of Some c \<Rightarrow> [''cell='' @ c] | None \<Rightarrow> []) @
        (case ir_inst rule of Some c \<Rightarrow> [''inst='' @ c] | None \<Rightarrow> []) @
        (case ir_port rule of Some c \<Rightarrow> [''port='' @ c] | None \<Rightarrow> [])))"

section \<open>The check of one value\<close>

definition pos_finite :: "pyfloat \<Rightarrow> bool" where
  "pos_finite x \<longleftrightarrow> flt f0 x \<and> finite_float x"

definition check_time :: "string \<Rightarrow> string \<Rightarrow> bool \<Rightarrow> string \<Rightarrow> string \<Rightarrow> (diag list) valued" where
  "check_time kind k ramp v o' =
     rbind (parse_time v) (\<lambda>t. Inr (
       if flt t f0 then [error o' (kind @ '': '' @ k @ ''='' @ v @ '' is negative'')]
       else if ramp \<and> flt t MIN_RAMP
       then [mk_note o' (kind @ '': '' @ k @ ''='' @ v @ '' is below 1 fs and is clamped to 1 fs'')]
       else []))"

definition check_supply_port :: "string \<Rightarrow> string \<Rightarrow> string \<Rightarrow> ie_rule \<Rightarrow> diag list" where
  "check_supply_port kind k v rule =
     (if ir_port rule = None
      then [error (ir_origin rule) (kind @ '': '' @ k @ ''= needs port= (cell= or inst= selectors)'')] else []) @
     (if has_wildcard v \<and> py_startswith v ''../''
      then [error (ir_origin rule) (kind @ '': '' @ k @ ''='' @ v @
              '': a wildcard after ../ is not supported; name the net, or use '' @ take 3 k @
              ''= with the supply net'')] else [])"

definition strong_outputs :: string where
  "strong_outputs = ''A2D outputs are strong on unidirectional nets and pull strength on bidirectional ones''"

definition check_strength :: "string \<Rightarrow> string \<Rightarrow> string \<Rightarrow> diag list" where
  "check_strength kind v o' =
     (let s = py_lower (py_strip v) in
      if s \<notin> set STRENGTHS
      then [error o' (kind @ '': strength='' @ v @ '': expected one of '' @ py_join '' '' STRENGTHS)]
      else if s \<noteq> ''rmap''
      then [warning o' (kind @ '': strength='' @ v @ '' is ignored: '' @ strong_outputs)] else [])"

definition check_queue :: "string \<Rightarrow> string \<Rightarrow> string \<Rightarrow> diag list" where
  "check_queue kind v o' =
     (let q = py_lower (py_strip v) in
      if q = ''nonblocking''
      then [warning o' (kind @ '': queue=nonblocking is ignored: A2D values reach the digital side as ordinary signal updates'')]
      else if q \<noteq> ''blocking'' then [error o' (kind @ '': queue='' @ v @ '': expected blocking or nonblocking'')]
      else [])"

definition check_value :: "string \<Rightarrow> string \<Rightarrow> vclass \<Rightarrow> string \<Rightarrow> ie_rule \<Rightarrow> (diag list) valued" where
  "check_value kind k cls v rule =
     (let o' = ir_origin rule in
      case cls of
        CLevel \<Rightarrow> rbind (parse_level v) (\<lambda>_. Inr [])
      | CTime \<Rightarrow> check_time kind k False v o'
      | CRamp \<Rightarrow> check_time kind k True v o'
      | CX2v \<Rightarrow> Inr (if py_strip v \<notin> {''0'', ''1'', ''2'', ''3'', ''4''}
                  then [error o' (kind @ '': x2v='' @ v @ '': expected 0, 1, 2, 3 or 4'')] else [])
      | CXband \<Rightarrow> rbind (number_of v) (\<lambda>x. Inr (if \<not> pos_finite x
                  then [error o' (kind @ '': xband='' @ v @ '' must be a positive number'')] else []))
      | CLogic \<Rightarrow> Inr (if py_upper (py_strip v) \<notin> {''0'', ''1'', ''X'', ''Z''}
                  then [error o' (kind @ '': midv_logic='' @ v @ '': expected 0, 1, X or Z'')] else [])
      | COhms \<Rightarrow> rbind (number_of v) (\<lambda>x. Inr (if \<not> pos_finite x
                  then [error o' (kind @ '': r='' @ v @ '' must be a positive resistance in ohms'')] else []))
      | CSupply \<Rightarrow> Inr (if has_wildcard v
                  then [error o' (kind @ '': '' @ k @ ''='' @ v @ '': a wildcard supply name is not supported'')] else [])
      | CSupplyPort \<Rightarrow> Inr (check_supply_port kind k v rule)
      | CExcept \<Rightarrow> Inr (if ir_port rule = None
                  then [error o' (kind @ '': except_port= needs port= (cell= or inst= selectors)'')] else [])
      | CStrength \<Rightarrow> Inr (check_strength kind v o')
      | CCeff \<Rightarrow> rbind (number_of v) (\<lambda>c. Inr
                  [if flt c f0 then error o' (kind @ '': ceff='' @ v @ '' is negative'')
                   else warning o' (kind @ '': ceff='' @ v @
                          '' is ignored: no load capacitance is added at the interface net'')])
      | CQueue \<Rightarrow> Inr (check_queue kind v o')
      | CUnsupported \<Rightarrow> Inr [error o' (kind @ '': '' @ k @
                  ''= is not supported in v1 (it only acts on dynamic supplies, which are not supported)'')]
      | _ \<Rightarrow> Inl ''AssertionError'')"

section \<open>The check of one rule\<close>

definition given :: "ie_rule \<Rightarrow> string \<Rightarrow> bool" where
  "given rule k \<longleftrightarrow> k \<in> fst ` set (ir_params rule)"

definition selectors_of :: "ie_rule \<Rightarrow> (string \<times> string option) list" where
  "selectors_of rule = [(''node'', ir_node rule), (''cell'', ir_cell rule), (''inst'', ir_inst rule),
     (''port'', ir_port rule), (''library'', ir_library rule)]"

definition check_map_by_node :: "ie_rule \<Rightarrow> diag list" where
  "check_map_by_node rule =
     (let o' = ir_origin rule;
          extra = map (\<lambda>(s, _). s @ ''='') (filter (\<lambda>(s, x). x \<noteq> None) (tl (selectors_of rule))) in
      (if ir_node rule = None then [error o' ''map_by_node needs node= (map_by_node r=<ohms> node=<net>;)''] else []) @
      (if extra \<noteq> [] then [error o' (''map_by_node selects with node= only, not '' @ py_join '', '' extra)] else []) @
      (if \<not> given rule ''r'' then [error o' ''map_by_node needs r=<ohms>''] else []))"

definition check_shape :: "ie_rule \<Rightarrow> diag list" where
  "check_shape rule =
     (let o' = ir_origin rule; kind = ir_kind rule in
      if kind = ''map_by_node'' then check_map_by_node rule
      else if ir_node rule \<noteq> None then
        (if ir_cell rule \<noteq> None \<or> ir_inst rule \<noteq> None \<or> ir_port rule \<noteq> None
         then [error o' (kind @ '': node= cannot be combined with cell=, inst= or port='')] else [])
      else if ir_cell rule \<noteq> None \<or> ir_inst rule \<noteq> None then
        (if ir_cell rule \<noteq> None \<and> ir_inst rule \<noteq> None
         then [error o' (kind @ '': cell= and inst= are exclusive'')] else []) @
        (if ir_port rule = None
         then [error o' (kind @ '': '' @ (if ir_cell rule \<noteq> None then ''cell='' else ''inst='') @
                 '' needs port= (use port=* for every port)'')] else [])
      else if ir_port rule \<noteq> None then [error o' (kind @ '': port= needs cell= or inst='')]
      else [error o' (kind @ '': no selector: give node=, cell= with port=, or inst= with port= (node=* selects every interface element)'')])"

definition check_empty :: "ie_rule \<Rightarrow> diag list" where
  "check_empty rule = map (\<lambda>(s, _). error (ir_origin rule) (ir_kind rule @ '': '' @ s @ ''= needs a value''))
     (filter (\<lambda>(s, x). x = Some []) (selectors_of rule))"

definition check_library :: "ie_rule \<Rightarrow> diag list" where
  "check_library rule = (case ir_library rule of
     Some lib \<Rightarrow> if lib \<noteq> [] \<and> ir_kind rule \<noteq> ''map_by_node''
       then [mk_note (ir_origin rule) (ir_kind rule @ '': library='' @ lib @
               '' is ignored (one design library in the vcs two-step flow): the rule applies wherever its other selectors match'')]
       else []
   | None \<Rightarrow> [])"

definition check_param :: "ie_rule \<Rightarrow> (string \<rightharpoonup> vclass) \<Rightarrow> string \<times> string \<Rightarrow> diag list" where
  "check_param rule keys = (\<lambda>(k, v).
     let kind = ir_kind rule; o' = ir_origin rule;
         other = (if kind = ''d2a'' then ''a2d'' else ''d2a'') in
     case keys k of
       None \<Rightarrow>
         (if (case KEYS other of Some ks \<Rightarrow> ks k \<noteq> None | None \<Rightarrow> False)
          then [error o' (kind @ '': '' @ k @ ''= is a '' @ other @ '' key, not a '' @ kind @ '' key'')]
          else [error o' (kind @ '': unknown key '' @ (if v = [] then k else k @ ''=''))])
     | Some cls \<Rightarrow>
         if cls = CFlag then
           (if v \<noteq> [] then [error o' (kind @ '': '' @ k @ '' takes no value'')] else [])
         else if cls = CHiz then
           (if v \<noteq> [] then [error o' (kind @ '': '' @ k @ '' takes no value'')]
            else [warning o' (kind @ '': '' @ k @ '' is ignored: '' @ strong_outputs)])
         else if v = [] then [error o' (kind @ '': '' @ k @ ''= needs a value'')]
         else (case check_value kind k cls v rule of
                 Inl e \<Rightarrow> [error o' (kind @ '': bad '' @ k @ ''='' @ v @ '' ('' @ e @ '')'')]
               | Inr ns \<Rightarrow> ns))"

definition check_exclusive :: "ie_rule \<Rightarrow> string \<times> string list \<Rightarrow> diag list" where
  "check_exclusive rule = (\<lambda>(k, alts).
     let both = filter (given rule) alts in
     if given rule k \<and> both \<noteq> []
     then [error (ir_origin rule) (ir_kind rule @ '': '' @ k @ ''= cannot be combined with '' @
             py_join '', '' (map (\<lambda>a. a @ ''='') both))] else [])"

definition supplies_given :: "ie_rule \<Rightarrow> string list" where
  "supplies_given rule = map (\<lambda>k. k @ ''='') (filter (given rule) SUPPLY_KEYS)"

definition check_absolute :: "ie_rule \<Rightarrow> string \<Rightarrow> diag list" where
  "check_absolute rule k =
     (case map_of (ir_params rule) k of
        None \<Rightarrow> []
      | Some v \<Rightarrow>
          (case parse_level v of
             Inl _ \<Rightarrow> []
           | Inr (_, pct) \<Rightarrow>
               if \<not> pct then [error (ir_origin rule) (ir_kind rule @ '': '' @ k @ ''='' @ v @
                   '' cannot be an absolute level in a rule with '' @ py_join '', '' (supplies_given rule) @
                   '': the levels are percentages of that supply (PAMS p190, p207)'')]
               else []))"

definition check_midv :: "ie_rule \<Rightarrow> diag list" where
  "check_midv rule =
     (if ir_kind rule = ''a2d'' \<and> given rule ''xband'' \<and> \<not> given rule ''midv_time''
      then [mk_note (ir_origin rule)
              ''a2d: xband only shapes the midv_time window; it has no effect on a node without midv_time'']
      else [])"

definition check_rule :: "ie_rule \<Rightarrow> diag list" where
  "check_rule rule =
     (case KEYS (ir_kind rule) of
        None \<Rightarrow> [error (ir_origin rule) (''unknown interface-element kind '' @ py_repr (ir_kind rule))]
      | Some keys \<Rightarrow>
          check_shape rule @ check_empty rule @ check_library rule @
          concat (map (check_param rule keys) (ir_params rule)) @
          concat (map (check_exclusive rule) EXCLUSIVE) @
          (if supplies_given rule \<noteq> [] then concat (map (check_absolute rule) (LEVEL_KEYS (ir_kind rule))) else []) @
          check_midv rule)"

end
