(* ===== verification/InitLex.thy ===== *)
theory InitLex
  imports ArgScan IeCheck
begin

text \<open>
  The first part of \<open>vamos/ams/initfile.py\<close>, the reader of the mixed-signal control file: the tables
  of commands with their dispositions, and \<open>lex\<close>, which splits a file into statements.
\<close>

section \<open>Commands\<close>

definition INI_NAME :: string where "INI_NAME = ''snps_vcsAD.ini''"
definition SKIP :: pyfloat where "SKIP = NaN"
definition MAX_INCLUDE_DEPTH :: nat where "MAX_INCLUDE_DEPTH = 32"

definition DEFAULT_ENGINES :: "string list" where
  "DEFAULT_ENGINES = [''xa'', ''finesim'', ''primesim'', ''hsim'', ''nanosim'']"
definition VAMOS_ENGINES :: "string list" where "VAMOS_ENGINES = [''vacask'', ''xyce'']"
definition NETLIST_OPTS :: "string list" where "NETLIST_OPTS = [''-n'', ''-hspice'', ''-nspice'']"
definition VALUE_OPTS :: "string list" where
  "VALUE_OPTS = NETLIST_OPTS @ [''-c'', ''-C'', ''-o'', ''-wavefmt'', ''-afile'']"
definition PORT_MODES :: "string list" where
  "PORT_MODES = [''snps_by_name'', ''snps_by_position'', ''snps_open'']"

definition RAW :: "(string \<times> string) list" where
  "RAW = [(''netlist_commands_begin'', ''netlist_commands_end''), (''xa_commands_begin'', ''xa_commands_end'')]"
definition RAW_ENDS :: "string list" where "RAW_ENDS = map snd RAW"

definition INCLUDE :: string where "INCLUDE = ''`include''"
definition EOL_STATEMENTS :: "string list" where "EOL_STATEMENTS = INCLUDE # map fst RAW"

definition HANDLED_COMMANDS :: "string list" where
  "HANDLED_COMMANDS = [''choose'', ''use_spice'', ''partition'', ''bus_format'', ''set'', ''port_dir'', ''port_connect'',
     ''a2d'', ''d2a'', ''map_by_node'', ''remove_d2a'', ''disable_ie'', ''transient_analysis'',
     ''ie_reference_voltage'', ''downgrade_to_warn'', ''upgrade_to_error'', INCLUDE] @ map fst RAW @ RAW_ENDS"

definition V1_ONLY :: string where "V1_ONLY = ''Verilog-top designs with SPICE cells only in v1''"

definition ERRORS :: "(string \<times> string) list" where
  "ERRORS =
    [(''use_verilog'', ''a Verilog view under a SPICE parent is not supported ('' @ V1_ONLY @ '')''),
     (''use_vcs'', ''a Verilog view under a SPICE parent is not supported ('' @ V1_ONLY @ '')''),
     (''use_vhdl'', ''VHDL views are not supported in v1''),
     (''use_veriloga'', ''Verilog-A views chosen by use_veriloga are not supported in v1 (instantiate the Verilog-A model from the SPICE netlist with .hdl)''),
     (''spice_top'', ''SPICE-top designs are not supported ('' @ V1_ONLY @ '')''),
     (''dynamic_supply_filter'', ''dynamic supplies are not supported in v1'')]"

definition REAL_IE :: string where
  "REAL_IE = ''real-number and nettype interface elements are not supported in v1''"
definition RT_IE :: string where
  "RT_IE = ''runtime interface elements are never created (no $hdl_xmr or force into SPICE in v1)''"
definition RMAP :: string where
  "RMAP = ''the resistance map is not read: a D2A's series resistance is 500.7 ohm (rmap strength 6) unless map_by_node sets it''"
definition UPF_IE :: string where "UPF_IE = ''UPF supply interface elements are not supported''"
definition AMS_FLOW :: string where "AMS_FLOW = ''Verilog-AMS flow command''"

definition WARNINGS :: "(string \<times> string) list" where
  "WARNINGS =
    map (\<lambda>k. (k, REAL_IE)) [''e2r'', ''r2e'', ''e2n'', ''n2e'', ''udn_e2n'', ''udn_n2e'', ''nettype_map''] @
    map (\<lambda>k. (k, UPF_IE)) [''e2u'', ''u2e''] @
    [(''insert_cell'', ''no cell is inserted at the interface net''), (''rmap_file'', RMAP)] @
    map (\<lambda>k. (k, RT_IE)) [''rt_a2d'', ''rt_d2a'', ''rt_e2n'', ''rt_e2r'', ''rt_n2e'', ''rt_r2e''] @
    map (\<lambda>k. (k, AMS_FLOW)) [''ams_cm'', ''ams_set_discipline'', ''ams_supply'', ''ams_cdef_net'', ''ams_cdef_inst'']"

definition NO_XMR :: string where "NO_XMR = ''there are no hierarchical references into SPICE in v1''"
definition RPT_ONLY :: string where "RPT_ONLY = ''only interface_element.rpt is written''"
definition OWN_SHELLS :: string where "OWN_SHELLS = ''vamos builds its own shell modules''"

definition NOTES :: "(string \<times> string) list" where
  "NOTES =
    [(''report_option'', ''interface_element.rpt is always written with its verbose comments''),
     (''ie_activity_rpt'', RPT_ONLY), (''ie_connect_rpt'', RPT_ONLY),
     (''ie_tracing_rpt'', RPT_ONLY @ '' (its '' @ [CHR 0x27] @ ''// levels:'' @ [CHR 0x27] @ '' lines say where every level came from)''),
     (''param_pass'', ''Verilog parameters never reach SPICE (an override on a SPICE instance is an error)''),
     (''resolve_x_inst_prefix'', NO_XMR), (''form_spice_bus'', NO_XMR), (''skip_xmr_name_check'', NO_XMR),
     (''optimize_shadowfile'', OWN_SHELLS), (''shadow_file'', OWN_SHELLS),
     (''shadow_file_dir'', OWN_SHELLS @ ''; edited shadow modules are not read''),
     (''duplicate_net_inst_name'', ''SPICE net and instance names never become Verilog names''),
     (''print_ie_res'', ''no analog drive-strength calculation is made''),
     (''gen_spice_wrapper'', ''vamos reads the Verilog headers itself'')]"

text \<open>The words that end a statement whose semicolon is missing.\<close>

definition RECOVERY :: "string list" where
  "RECOVERY = HANDLED_COMMANDS @ map fst ERRORS @ map fst WARNINGS @ map fst NOTES"

definition py_endswith :: "string \<Rightarrow> string \<Rightarrow> bool" where
  "py_endswith s t \<longleftrightarrow> py_startswith (rev s) (rev t)"

datatype family = FWarning string | FNote string | FUnknown

definition family :: "string \<Rightarrow> family" where
  "family word =
     (if py_startswith word ''ams_'' then FWarning AMS_FLOW
      else if py_startswith word ''ie_'' \<and> py_endswith word ''_rpt'' then FNote RPT_ONLY
      else if py_startswith word ''shadow_file'' then FNote OWN_SHELLS
      else FUnknown)"

section \<open>Words\<close>

text \<open>\<open>`?[A-Za-z_][A-Za-z0-9_]*\<close>: the word and the rest.\<close>

definition cmd_word :: "string \<Rightarrow> (string \<times> string) option" where
  "cmd_word s =
     (let (q, r) = (case s of c # r \<Rightarrow> if c = CHR ''`'' then ([c], r) else ([], s) | [] \<Rightarrow> ([], []))
      in case r of
           [] \<Rightarrow> None
         | c # _ \<Rightarrow> if name_start c then (let (w, t) = py_span name_char r in Some (q @ w, t)) else None)"

text \<open>\<open>(?:\[[^\]]*\]|<[^>]*>)?\s*[=,)}.:]\<close>: an optional index, blanks, and a mark of a list.\<close>

definition after_index :: "string \<Rightarrow> string" where
  "after_index s =
     (case s of
        [] \<Rightarrow> []
      | c # r \<Rightarrow>
          if c = CHR ''['' then (case dropWhile (\<lambda>x. x \<noteq> CHR '']'') r of _ # t \<Rightarrow> t | [] \<Rightarrow> s)
          else if c = CHR ''<'' then (case dropWhile (\<lambda>x. x \<noteq> CHR ''>'') r of _ # t \<Rightarrow> t | [] \<Rightarrow> s)
          else s)"

definition list_item :: "string \<Rightarrow> bool" where
  "list_item s = (case dropWhile re_space (after_index s) of c # _ \<Rightarrow> c \<in> set ''=,)}.:'' | [] \<Rightarrow> False)"

definition bus_format_follows :: "string \<Rightarrow> bool" where
  "bus_format_follows rest =
     (let r = dropWhile re_space rest in
      r \<noteq> rest \<and> py_startswith (py_lower r) ''bus_format'' \<and>
      (case drop 10 r of [] \<Rightarrow> True | c # _ \<Rightarrow> \<not> word_char c))"

definition starts_command :: "string \<Rightarrow> string \<Rightarrow> bool" where
  "starts_command w rest =
     (let word = py_lower w in
      if word \<notin> set RECOVERY then False
      else if list_item (dropWhile re_space rest) then False
      else if word = ''set'' then bus_format_follows rest
      else True)"

section \<open>Statements\<close>

record stmt =
  s_keyword :: string
  s_text :: string
  s_origin :: string
  s_raw :: "(string \<times> string) list"

text \<open>
  The variables of \<open>lex\<close>. \<open>lx_comment\<close> is the origin of an open block comment, \<open>lx_raw\<close> the word that
  ends an open raw block, whose statement is the last of \<open>lx_out\<close>.
\<close>

record lex_state =
  lx_out :: "stmt list"
  lx_cur :: string
  lx_started :: bool
  lx_kw :: string
  lx_line0 :: nat
  lx_depth :: nat
  lx_comment :: "string option"
  lx_raw :: "string option"
  lx_notes :: "diag list"

definition lex_init :: "diag list \<Rightarrow> lex_state" where
  "lex_init ns = \<lparr>lx_out = [], lx_cur = [], lx_started = False, lx_kw = [], lx_line0 = 0, lx_depth = 0,
     lx_comment = None, lx_raw = None, lx_notes = ns\<rparr>"

definition line_origin :: "string \<Rightarrow> nat \<Rightarrow> string" where
  "line_origin label lno = label @ '':'' @ show_int (int lno)"

definition add_cur :: "string \<Rightarrow> lex_state \<Rightarrow> lex_state" where
  "add_cur s lx = lx\<lparr>lx_cur := lx_cur lx @ s\<rparr>"

definition lex_note :: "diag \<Rightarrow> lex_state \<Rightarrow> lex_state" where
  "lex_note n lx = lx\<lparr>lx_notes := lx_notes lx @ [n]\<rparr>"

definition reset_cur :: "lex_state \<Rightarrow> lex_state" where
  "reset_cur lx = lx\<lparr>lx_cur := [], lx_started := False, lx_kw := [], lx_line0 := 0\<rparr>"

definition finish_stmt :: "string \<Rightarrow> lex_state \<Rightarrow> stmt option \<times> lex_state" where
  "finish_stmt label lx =
     (let txt = py_strip (lx_cur lx) in
      if lx_started lx \<and> txt \<noteq> []
      then (let st = \<lparr>s_keyword = lx_kw lx, s_text = txt, s_origin = line_origin label (lx_line0 lx), s_raw = []\<rparr>
            in (Some st, (reset_cur lx)\<lparr>lx_out := lx_out lx @ [st]\<rparr>))
      else (None, reset_cur lx))"

text \<open>\<open>raw.raw.append(...)\<close>: the open raw statement is the last one.\<close>

definition add_raw :: "string \<times> string \<Rightarrow> lex_state \<Rightarrow> lex_state" where
  "add_raw row lx = (case rev (lx_out lx) of
     [] \<Rightarrow> lx
   | st # r \<Rightarrow> lx\<lparr>lx_out := rev r @ [st\<lparr>s_raw := s_raw st @ [row]\<rparr>]\<rparr>)"

definition kw_or :: "lex_state \<Rightarrow> string" where
  "kw_or lx = (if lx_kw lx \<noteq> [] then lx_kw lx else ''statement'')"

definition unterminated :: "string \<Rightarrow> lex_state \<Rightarrow> diag" where
  "unterminated label lx = (let o' = line_origin label (lx_line0 lx) in
     error o' (''unterminated '' @ [CHR 0x27] @ ''('' @ [CHR 0x27] @ '' in '' @ kw_or lx @ '' at '' @ o'))"

text \<open>A command word at the start of a line ends what is open.\<close>

definition begin_line :: "string \<Rightarrow> string \<Rightarrow> lex_state \<Rightarrow> lex_state" where
  "begin_line label s lx =
     (case cmd_word s of
        Some (w, rest) \<Rightarrow>
          if starts_command w rest then
            (if lx_depth lx > 0 then (reset_cur (lex_note (unterminated label lx) lx))\<lparr>lx_depth := 0\<rparr>
             else if lx_started lx then snd (finish_stmt label lx) else lx)
          else lx
      | None \<Rightarrow> lx)"

definition start_stmt :: "nat \<Rightarrow> string \<Rightarrow> lex_state \<Rightarrow> lex_state" where
  "start_stmt lno s lx =
     (if lx_started lx then lx
      else lx\<lparr>lx_started := True, lx_line0 := lno,
              lx_kw := (case cmd_word s of Some (w, _) \<Rightarrow> py_lower w | None \<Rightarrow> [hd s])\<rparr>)"

text \<open>The text after the next end of a block comment.\<close>

fun after_star_slash :: "string \<Rightarrow> string option" where
  "after_star_slash (a # b # r) = (if a = CHR ''*'' \<and> b = CHR ''/'' then Some r else after_star_slash (b # r))"
| "after_star_slash _ = None"

lemma after_star_slash_length: "after_star_slash s = Some r \<Longrightarrow> length r < length s"
proof (induction s rule: after_star_slash.induct)
  case (1 a b r')
  then show ?case by (cases "a = CHR ''*'' \<and> b = CHR ''/''") auto
qed simp_all

definition unbalanced :: "string \<Rightarrow> nat \<Rightarrow> char \<Rightarrow> lex_state \<Rightarrow> diag" where
  "unbalanced label lno c lx = error (line_origin label lno)
     (''unbalanced '' @ [CHR 0x27, c, CHR 0x27] @ (if lx_kw lx \<noteq> [] then '' in '' @ lx_kw lx else []))"

text \<open>A semicolon at depth 0: the state, and whether the rest of the line was taken as raw text.\<close>

definition end_stmt :: "string \<Rightarrow> nat \<Rightarrow> string \<Rightarrow> lex_state \<Rightarrow> lex_state \<times> bool" where
  "end_stmt label lno rest lx =
     (case finish_stmt label lx of
        (Some st, lx1) \<Rightarrow>
          (case map_of RAW (s_keyword st) of
             Some e \<Rightarrow> (let lx2 = lx1\<lparr>lx_raw := Some e\<rparr> in
                       (if py_strip rest \<noteq> [] then add_raw (rest, line_origin label lno) lx2 else lx2, True))
           | None \<Rightarrow> (lx1, False))
      | (None, lx1) \<Rightarrow> (lx1, False))"

text \<open>The loop over the characters of one line, with its flags \<open>at_start\<close> and \<open>quote\<close>.\<close>

function scan_line :: "string \<Rightarrow> nat \<Rightarrow> bool \<Rightarrow> bool \<Rightarrow> string \<Rightarrow> lex_state \<Rightarrow> lex_state \<times> bool" where
  "scan_line label lno at_start quote [] lx = (lx, quote)"
| "scan_line label lno at_start quote (c # s) lx =
     (if lx_comment lx \<noteq> None then
        (case after_star_slash (c # s) of
           None \<Rightarrow> (lx, quote)
         | Some r \<Rightarrow> scan_line label lno at_start quote r (add_cur '' '' (lx\<lparr>lx_comment := None\<rparr>)))
      else if quote then scan_line label lno at_start (c \<noteq> CHR 0x22) s (add_cur [c] lx)
      else if py_isspace c then scan_line label lno at_start quote s (add_cur [c] lx)
      else if py_startswith (c # s) ''//'' then (lx, quote)
      else if py_startswith (c # s) ''/*''
        then scan_line label lno at_start quote (drop 1 s) (lx\<lparr>lx_comment := Some (line_origin label lno)\<rparr>)
      else
        (let lx1 = (if at_start then begin_line label (c # s) lx else lx) in
         if (c = CHR '')'' \<or> c = CHR ''}'') \<and> lx_depth lx1 = 0
           then scan_line label lno False quote s (lex_note (unbalanced label lno c lx1) lx1)
         else
           (let lx2 = start_stmt lno (c # s) lx1 in
            if c = CHR 0x22 then scan_line label lno False True s (add_cur [c] lx2)
            else if c = CHR ''('' \<or> c = CHR ''{''
              then scan_line label lno False quote s (add_cur [c] (lx2\<lparr>lx_depth := lx_depth lx2 + 1\<rparr>))
            else if c = CHR '')'' \<or> c = CHR ''}''
              then scan_line label lno False quote s (add_cur [c] (lx2\<lparr>lx_depth := lx_depth lx2 - 1\<rparr>))
            else if c = CHR '';'' \<and> lx_depth lx2 = 0 then
              (let (lx3, raw) = end_stmt label lno s lx2 in
               if raw then (lx3, quote) else scan_line label lno False quote s lx3)
            else scan_line label lno False quote s (add_cur [c] lx2))))"
  by pat_completeness auto
termination
  by (relation "measure (\<lambda>(label, lno, at_start, quote, s, lx). length s)")
    (auto dest: after_star_slash_length)

text \<open>What follows the end word of a raw block on its line, an optional semicolon taken.\<close>

fun after_word :: "string \<Rightarrow> string \<Rightarrow> string" where
  "after_word w [] = []"
| "after_word w (c # s) = (if py_startswith (py_lower (c # s)) w then drop (length w) (c # s) else after_word w s)"

definition after_raw_end :: "string \<Rightarrow> string \<Rightarrow> string" where
  "after_raw_end w line =
     (let r = after_word w line in
      case dropWhile (\<lambda>x. x = CHR '' '' \<or> x = CHR 0x09) r of
        c # t \<Rightarrow> if c = CHR '';'' then t else r
      | [] \<Rightarrow> r)"

definition first_raw_word :: "string \<Rightarrow> string" where
  "first_raw_word line = py_lower (takeWhile (\<lambda>x. \<not> re_space x \<and> x \<noteq> CHR '';'') (py_strip line))"

text \<open>The end of a line: an open string is closed, and a statement of one line ends.\<close>

definition end_line :: "string \<Rightarrow> nat \<Rightarrow> bool \<Rightarrow> lex_state \<Rightarrow> lex_state" where
  "end_line label lno quote lx =
     (let lx1 = (if quote
                 then add_cur [CHR 0x22] (lex_note (error (line_origin label lno) (''unterminated string in '' @ kw_or lx)) lx)
                 else lx) in
      if lx_raw lx1 = None \<and> lx_started lx1 \<and> lx_kw lx1 \<in> set EOL_STATEMENTS \<and> lx_depth lx1 = 0
      then (case finish_stmt label lx1 of
              (Some st, lx2) \<Rightarrow> (case map_of RAW (s_keyword st) of
                  Some e \<Rightarrow> lx2\<lparr>lx_raw := Some e\<rparr> | None \<Rightarrow> lx2)
            | (None, lx2) \<Rightarrow> lx2)
      else add_cur [CHR ''\<newline>''] lx1)"

definition strip_cr :: "string \<Rightarrow> string" where
  "strip_cr line = (if line \<noteq> [] \<and> last line = CHR 0x0D then butlast line else line)"

definition lex_line :: "string \<Rightarrow> nat \<times> string \<Rightarrow> lex_state \<Rightarrow> lex_state" where
  "lex_line label = (\<lambda>(lno, line0) lx.
     let line = strip_cr line0;
         go = (\<lambda>at_start s lx. let (lx1, quote) = scan_line label lno at_start False s lx in end_line label lno quote lx1) in
     case lx_raw lx of
       Some w \<Rightarrow>
         if first_raw_word line \<noteq> w then add_raw (line, line_origin label lno) lx
         else go False (after_raw_end w line) (lx\<lparr>lx_raw := None\<rparr>)
     | None \<Rightarrow> go True line lx)"

definition end_file :: "string \<Rightarrow> lex_state \<Rightarrow> lex_state" where
  "end_file label lx =
     (let lx1 = (case (lx_raw lx, rev (lx_out lx)) of
            (Some w, st # r) \<Rightarrow> (lex_note (error (s_origin st) (s_keyword st @ '' at '' @ s_origin st @ '' has no '' @ w)) lx)
                               \<lparr>lx_out := rev r\<rparr>
          | _ \<Rightarrow> lx);
          lx2 = (case lx_comment lx1 of Some o' \<Rightarrow> lex_note (error o' ''unterminated /* comment'') lx1 | None \<Rightarrow> lx1) in
      if lx_depth lx2 > 0 then lex_note (unterminated label lx2) lx2
      else if lx_started lx2 then snd (finish_stmt label lx2) else lx2)"

text \<open>The statements of a file, and the notes with the problems appended.\<close>

definition lex_control :: "string \<Rightarrow> string \<Rightarrow> diag list \<Rightarrow> stmt list \<times> diag list" where
  "lex_control text label ns =
     (let lx = end_file label (fold (lex_line label) (enumerate 1 (py_split CHR ''\<newline>'' text)) (lex_init ns))
      in (lx_out lx, lx_notes lx))"

end
