(* ===== verification/InitTokens.thy ===== *)
theory InitTokens
  imports InitLex
begin

text \<open>
  The words of a statement in \<open>vamos/ams/initfile.py\<close>: \<open>tokens\<close>, \<open>_kv\<close>, \<open>_unquote\<close>, \<open>_split_top\<close>,
  \<open>_group_body\<close> and \<open>_expand\<close>. An index into a text is the rest of the text.
\<close>

section \<open>Tokens\<close>

text \<open>\<open>_close\<close>: the group up to its closing bracket, and the rest.\<close>

fun close_span :: "nat \<Rightarrow> bool \<Rightarrow> string \<Rightarrow> string \<times> string" where
  "close_span depth quote [] = ([], [])"
| "close_span depth quote (c # s) =
     (let more' = (\<lambda>d q. let (g, r) = close_span d q s in (c # g, r)) in
      if quote then more' depth (c \<noteq> CHR 0x22)
      else if c = CHR 0x22 then more' depth True
      else if c = CHR ''('' \<or> c = CHR ''{'' then more' (depth + 1) False
      else if c = CHR '')'' \<or> c = CHR ''}'' then (if depth - 1 = 0 then ([c], s) else more' (depth - 1) False)
      else more' depth False)"

lemma close_span_append: "close_span depth quote s = (g, r) \<Longrightarrow> g @ r = s"
proof (induction depth quote s arbitrary: g r rule: close_span.induct)
  case (2 depth quote c s)
  then show ?case by (auto simp: Let_def split: prod.splits if_splits)
qed simp

text \<open>A text up to and with the next \<open>x\<close>, and the rest.\<close>

definition through :: "char \<Rightarrow> string \<Rightarrow> string \<times> string" where
  "through x s = (takeWhile (\<lambda>c. c \<noteq> x) s @ take 1 (dropWhile (\<lambda>c. c \<noteq> x) s), drop 1 (dropWhile (\<lambda>c. c \<noteq> x) s))"

lemma through_append: "through x s = (a, b) \<Longrightarrow> a @ b = s"
  unfolding through_def by (metis append.assoc append_take_drop_id prod.inject takeWhile_dropWhile_id)

definition backslash :: char where "backslash = CHR 0x5C"

definition blank_tab :: "char \<Rightarrow> bool" where
  "blank_tab c \<longleftrightarrow> c = CHR '' '' \<or> c = CHR 0x09"

definition token_stop :: "char \<Rightarrow> bool" where
  "token_stop c \<longleftrightarrow> py_isspace c \<or> c \<in> set '',(){}''"

text \<open>An escaped name: the name, the rest, and whether the word goes on.\<close>

definition escaped_name :: "string \<Rightarrow> string \<times> string \<times> bool" where
  "escaped_name s =
     (let (w, r) = py_span (\<lambda>c. \<not> py_isspace c) s; m = dropWhile blank_tab r in
      case m of
        c # _ \<Rightarrow> if c = CHR ''.'' \<or> c = CHR ''['' then (w, m, True) else (w, r, False)
      | [] \<Rightarrow> (w, r, False))"

lemma escaped_name_length: "escaped_name s = (w, r, go) \<Longrightarrow> length r \<le> length s"
proof -
  assume e: "escaped_name s = (w, r, go)"
  let ?r = "dropWhile (\<lambda>c. \<not> py_isspace c) s"
  have "length ?r \<le> length s" by (rule length_dropWhile_le)
  moreover have "length (dropWhile blank_tab ?r) \<le> length ?r" by (rule length_dropWhile_le)
  moreover have "r = ?r \<or> r = dropWhile blank_tab ?r"
    using e by (auto simp: escaped_name_def py_span_def Let_def split: list.splits if_splits)
  ultimately show ?thesis by auto
qed

lemma through_length: "through x s = (a, b) \<Longrightarrow> length b \<le> length s"
  using through_append by fastforce

function token_word :: "string \<Rightarrow> string \<Rightarrow> string \<times> string" where
  "token_word buf [] = (buf, [])"
| "token_word buf (c # s) =
     (if c = CHR ''$'' \<and> py_startswith s ''{'' then
        (let (a, r) = through CHR ''}'' s in token_word (buf @ c # a) r)
      else if c = CHR 0x22 then (let (a, r) = through CHR 0x22 s in token_word (buf @ c # a) r)
      else if c = backslash then
        (let (w, r, go) = escaped_name s in if go then token_word (buf @ w) r else (buf @ w, r))
      else if token_stop c then (buf, c # s)
      else token_word (buf @ [c]) s)"
  by pat_completeness auto
termination
proof (relation "measure (\<lambda>(buf, s). length s)", goal_cases)
  case (2 buf c s x a r)
  then show ?case using through_length [of _ s a r] by (cases x) (auto simp: less_Suc_eq_le)
next
  case (3 buf c s x a r)
  then show ?case using through_length [of _ s a r] by (cases x) (auto simp: less_Suc_eq_le)
next
  case (4 buf c s x w y r go)
  then show ?case using escaped_name_length [of s w r go] by (auto simp: less_Suc_eq_le)
qed auto

declare token_word.simps(2) [simp del]

text \<open>One step of \<open>token_word\<close>: it stops, or goes on with a shorter text.\<close>

lemma token_word_step:
  "token_word buf (c # s) = (buf, c # s) \<and> token_stop c \<or>
   (\<exists>b r. length r \<le> length s \<and> (token_word buf (c # s) = token_word b r \<or> token_word buf (c # s) = (b, r)))"
proof -
  have th: "\<exists>b r. length r \<le> length s \<and>
      (let (a, r) = through x s in token_word (buf @ c # a) r) = token_word b r" for x
    using through_length [of x s] by (cases "through x s") auto
  obtain w r go where e: "escaped_name s = (w, r, go)" by (cases "escaped_name s")
  have es: "\<exists>b r. length r \<le> length s \<and> ((let (w, r, go) = escaped_name s in
       if go then token_word (buf @ w) r else (buf @ w, r)) = token_word b r \<or> (let (w, r, go) = escaped_name s in
       if go then token_word (buf @ w) r else (buf @ w, r)) = (b, r))"
    using escaped_name_length [OF e] by (auto simp: e)
  have st: "\<exists>b r. length r \<le> length s \<and> token_word (buf @ [c]) s = token_word b r" by blast
  show ?thesis
    unfolding token_word.simps(2) [of buf c s] using th [of "CHR ''}''"] th [of "CHR 0x22"] es st
    by (cases "c = CHR ''$'' \<and> py_startswith s ''{''"; cases "c = CHR 0x22"; cases "c = backslash"; cases "token_stop c")
      (simp_all only: if_True if_False simp_thms, blast+)
qed

lemma token_word_length: "length (snd (token_word buf s)) \<le> length s"
proof (induction s arbitrary: buf rule: length_induct)
  case (1 s)
  show ?case
  proof (cases s)
    case (Cons c t)
    consider "token_word buf s = (buf, s)"
      | b r where "length r \<le> length t" "token_word buf s = token_word b r"
      | b r where "length r \<le> length t" "token_word buf s = (b, r)"
      using token_word_step [of buf c t] Cons by blast
    then show ?thesis
    proof cases
      case 2
      then have "length (snd (token_word b r)) \<le> length r" using 1 Cons by simp
      then show ?thesis using 2 Cons by simp
    qed (simp_all add: Cons)
  qed simp
qed

lemma token_word_shrinks: "\<not> token_stop c \<Longrightarrow> length (snd (token_word buf (c # s))) \<le> length s"
  using token_word_step [of buf c s] token_word_length by (metis le_trans snd_conv)

function tokens :: "string \<Rightarrow> string list" where
  "tokens [] = []"
| "tokens (c # s) =
     (if py_isspace c \<or> c = CHR '','' then tokens s
      else if c = CHR ''('' \<or> c = CHR ''{''
        then fst (close_span 0 False (c # s)) # tokens (snd (close_span 0 False (c # s)))
      else if c = CHR '')'' \<or> c = CHR ''}'' then [c] # tokens s
      else fst (token_word [] (c # s)) # tokens (snd (token_word [] (c # s))))"
  by pat_completeness auto
termination
proof (relation "measure length", goal_cases)
  case (3 c s)
  obtain g r where g: "close_span 0 False (c # s) = (g, r)" by (cases "close_span 0 False (c # s)")
  have "g \<noteq> []" using 3 g by (auto simp: Let_def split: prod.splits)
  then show ?case using close_span_append [OF g] g by (cases g) auto
next
  case (5 c s)
  then have "\<not> token_stop c" by (auto simp: token_stop_def)
  then show ?case using token_word_shrinks [of c "[]" s] by (simp add: less_Suc_eq_le)
qed auto

section \<open>Keys and values\<close>

definition head_in :: "string \<Rightarrow> string \<Rightarrow> bool" where
  "head_in t cs \<longleftrightarrow> t = [] \<or> hd t \<in> set cs"

definition BRACKETS :: string where "BRACKETS = ''({)}''"

fun kv_loop :: "string list \<Rightarrow> string list \<Rightarrow> string list" where
  "kv_loop out [] = out"
| "kv_loop out (t # ts) =
     (let nxt = (case ts of [] \<Rightarrow> None | n # _ \<Rightarrow> Some n) in
      if t = ''='' \<and> out \<noteq> [] \<and> (case nxt of Some n \<Rightarrow> CHR ''='' \<notin> set n | None \<Rightarrow> False)
        then kv_loop (butlast out @ [last out @ ''='' @ the nxt]) (drop 1 ts)
      else if py_startswith t ''='' \<and> \<not> py_startswith t ''=>'' \<and> out \<noteq> []
        then kv_loop (butlast out @ [last out @ t]) ts
      else if py_endswith t ''='' \<and> \<not> py_endswith t ''=>'' \<and>
              (case nxt of Some n \<Rightarrow> CHR ''='' \<notin> set n \<and> \<not> head_in n BRACKETS | None \<Rightarrow> False)
        then kv_loop (out @ [t @ the nxt]) (drop 1 ts)
      else kv_loop (out @ [t]) ts)"

definition kv :: "string list \<Rightarrow> string list" where
  "kv toks = kv_loop [] toks"

definition unquote :: "string \<Rightarrow> string" where
  "unquote s0 = (let s = py_strip s0 in
     if length s \<ge> 2 \<and> hd s = CHR 0x22 \<and> last s = CHR 0x22 then butlast (tl s) else s)"

section \<open>Lists in brackets\<close>

text \<open>\<open>_split_top\<close>, with the part that is open.\<close>

fun split_loop :: "char \<Rightarrow> int \<Rightarrow> bool \<Rightarrow> string \<Rightarrow> string \<Rightarrow> string list" where
  "split_loop sep depth quote part [] = [part]"
| "split_loop sep depth quote part (c # s) =
     (if quote then split_loop sep depth (c \<noteq> CHR 0x22) (part @ [c]) s
      else if c = CHR 0x22 then split_loop sep depth True (part @ [c]) s
      else if c \<in> set ''({['' then split_loop sep (depth + 1) False (part @ [c]) s
      else if c \<in> set '')}]'' then split_loop sep (depth - 1) False (part @ [c]) s
      else if c = sep \<and> depth = 0 then part # split_loop sep depth False [] s
      else split_loop sep depth False (part @ [c]) s)"

definition split_top :: "string \<Rightarrow> char \<Rightarrow> string list" where
  "split_top body sep = split_loop sep 0 False [] body"

definition group_body :: "string \<Rightarrow> string option" where
  "group_body g = (if length g \<ge> 2 \<and> hd g = CHR ''('' \<and> last g = CHR '')'' then Some (butlast (tl g)) else None)"

section \<open>Environment variables\<close>

text \<open>\<open>\$\{(\w+)\}|\$(\w+)\<close> after the dollar: the name and the rest.\<close>

definition var_ref :: "string \<Rightarrow> (string \<times> string) option" where
  "var_ref s =
     (case s of
        [] \<Rightarrow> None
      | c # r \<Rightarrow>
          if c = CHR ''{'' then
            (let (w, t) = py_span word_char r in
             case t of d # t' \<Rightarrow> if w \<noteq> [] \<and> d = CHR ''}'' then Some (w, t') else None | [] \<Rightarrow> None)
          else (let (w, t) = py_span word_char s in if w \<noteq> [] then Some (w, t) else None))"

lemma var_ref_length: "var_ref s = Some (w, t) \<Longrightarrow> length t < length s"
proof -
  assume v: "var_ref s = Some (w, t)"
  then obtain c r where s: "s = c # r" by (cases s) (auto simp: var_ref_def)
  have sp: "py_span word_char xs = (a, b) \<Longrightarrow> length a + length b = length xs" for xs a b
    by (rule py_span_length)
  obtain a b where ab: "py_span word_char r = (a, b)" by (cases "py_span word_char r")
  obtain a' b' where ab': "py_span word_char s = (a', b')" by (cases "py_span word_char s")
  show ?thesis
    using v s ab ab' sp [OF ab] sp [OF ab']
    by (cases a') (auto simp: var_ref_def Let_def split: if_splits list.splits)
qed

text \<open>\<open>_expand\<close>: the text, and the names that are not set.\<close>

function expand_vars :: "(string \<rightharpoonup> string) \<Rightarrow> string \<Rightarrow> string \<times> string list" where
  "expand_vars env [] = ([], [])"
| "expand_vars env (c # s) =
     (case (if c = CHR ''$'' then var_ref s else None) of
        Some (w, t) \<Rightarrow>
          (let (out, missing) = expand_vars env t in
           case env w of Some v \<Rightarrow> (v @ out, missing) | None \<Rightarrow> (out, w # missing))
      | None \<Rightarrow> (let (out, missing) = expand_vars env s in (c # out, missing)))"
  by pat_completeness auto
termination
  by (relation "measure (\<lambda>(env, s). length s)") (auto split: if_splits dest: var_ref_length)

end
