(* ===== verification/InitParse.thy ===== *)
theory InitParse
  imports InitTokens
begin

text \<open>
  The commands of the control file, the methods \<open>cmd_...\<close> of \<open>_Parser\<close> in \<open>vamos/ams/initfile.py\<close>.
  \<open>statement\<close>, which dispatches to them, and the files are in InitFile. The parser's attributes are a
  record; the configuration it fills is one of them, and its notes are the configuration's.
\<close>

record parser =
  ps_cfg :: ams_config
  ps_xa_lines :: "(string \<times> string) list"
  ps_choose_dir :: string
  ps_bus_origin :: string
  ps_stack :: "string list"

definition on_cfg :: "(ams_config \<Rightarrow> ams_config) \<Rightarrow> parser \<Rightarrow> parser" where
  "on_cfg f p = p\<lparr>ps_cfg := f (ps_cfg p)\<rparr>"

definition cfg_notes :: "diag list \<Rightarrow> ams_config \<Rightarrow> ams_config" where
  "cfg_notes ns cfg = cfg\<lparr>ac_notes := ac_notes cfg @ ns\<rparr>"

definition say :: "diag list \<Rightarrow> parser \<Rightarrow> parser" where
  "say ns p = on_cfg (cfg_notes ns) p"

definition quoted :: "string \<Rightarrow> string" where
  "quoted s = CHR 0x27 # s @ [CHR 0x27]"

section \<open>choose\<close>

text \<open>An option with a value: the new choice and the notes.\<close>

definition choose_value :: "string \<Rightarrow> string \<Rightarrow> string \<Rightarrow> choose_engine \<Rightarrow> choose_engine \<times> diag list" where
  "choose_value o' a v ch =
     (if a \<in> set NETLIST_OPTS then (ch\<lparr>ch_netlists := ch_netlists ch @ [v]\<rparr>, [])
      else if a = ''-c'' \<or> a = ''-C'' then (ch\<lparr>ch_cfgs := ch_cfgs ch @ [v]\<rparr>, [])
      else if a = ''-o'' then
        (ch\<lparr>ch_out_prefix := Some v\<rparr>,
         (case ch_out_prefix ch of Some w \<Rightarrow> [mk_note o' (''choose: -o '' @ v @ '' replaces -o '' @ w)] | None \<Rightarrow> []))
      else if a = ''-wavefmt'' then
        (ch\<lparr>ch_options := ch_options ch @ [a @ '' '' @ v]\<rparr>,
         [mk_note o' (''choose: -wavefmt '' @ v @ '' is ignored: the analog output is a SPICE rawfile'')])
      else
        (ch\<lparr>ch_options := ch_options ch @ [a @ '' '' @ v]\<rparr>,
         [warning o' (''choose: -afile '' @ v @ '' is ignored: the file is not read'')]))"

definition choose_flag :: "string \<Rightarrow> string \<Rightarrow> choose_engine \<Rightarrow> choose_engine \<times> diag list" where
  "choose_flag o' a ch =
     (if a = ''-spice'' then
        (ch\<lparr>ch_options := ch_options ch @ [a]\<rparr>,
         [mk_note o' ''choose: -spice (FineSim/PrimeSim SPICE mode) has no effect: the analog engine always runs full SPICE''])
      else if a = ''-skipdc'' then (ch\<lparr>ch_uic := True\<rparr>, [])
      else (ch\<lparr>ch_options := ch_options ch @ [a]\<rparr>,
            [warning o' (''choose: option '' @ a @ '' is ignored (it takes no value here)'')]))"

text \<open>The loop over the arguments; the flag says whether an \<open>-nspice\<close> netlist was seen.\<close>

fun choose_loop :: "string \<Rightarrow> string list \<Rightarrow> choose_engine \<times> bool \<times> diag list \<Rightarrow> choose_engine \<times> bool \<times> diag list" where
  "choose_loop o' [] st = st"
| "choose_loop o' (a # as) (ch, nspice, ns) =
     (if head_in a BRACKETS
        then choose_loop o' as (ch, nspice, ns @ [error o' (''choose: unexpected '' @ quoted a)])
      else if py_startswith a ''-'' \<and> length a > 1 then
        (if a \<in> set VALUE_OPTS then
           (case as of
              [] \<Rightarrow> (ch, nspice, ns @ [error o' (''choose: '' @ a @ '' needs a value'')])
            | w # as' \<Rightarrow>
                (let (ch', ns') = choose_value o' a (unquote w) ch in
                 choose_loop o' as' (ch', nspice \<or> a = ''-nspice'', ns @ ns')))
         else (let (ch', ns') = choose_flag o' a ch in choose_loop o' as (ch', nspice, ns @ ns')))
      else choose_loop o' as (ch\<lparr>ch_netlists := ch_netlists ch @ [unquote a]\<rparr>, nspice, ns))"

definition cmd_choose :: "stmt \<Rightarrow> string list \<Rightarrow> ams_config \<Rightarrow> ams_config" where
  "cmd_choose st toks cfg =
     (let o' = s_origin st in
      case tl toks of
        [] \<Rightarrow> cfg_notes [error o' ''choose needs an analog engine (xa, finesim, primesim, hsim, nanosim, vacask or xyce)''] cfg
      | a # as \<Rightarrow>
          if py_startswith a ''-''
          then cfg_notes [error o' ''choose needs an analog engine (xa, finesim, primesim, hsim, nanosim, vacask or xyce)''] cfg
          else if py_lower a \<notin> set (DEFAULT_ENGINES @ VAMOS_ENGINES)
          then cfg_notes [error o' (''choose: unknown analog engine '' @ quoted a @
                 '' (expected xa, finesim, primesim, hsim, nanosim, vacask or xyce)'')] cfg
          else
            (let (ch, nspice, ns) = choose_loop o' as ((mk_choose (py_lower a))\<lparr>ch_origin := o'\<rparr>, False, []);
                 (ch', ns') = (if nspice then (ch\<lparr>ch_dialect := ''spice''\<rparr>,
                                 [warning o' ''choose: -nspice netlists are parsed as HSPICE in v1'']) else (ch, []));
                 replaced = (case ac_choose cfg of
                    Some old \<Rightarrow> [mk_note o' (''choose replaces the choose at '' @ ch_origin old @ '' (the command read later wins)'')]
                  | None \<Rightarrow> [])
             in (cfg_notes (ns @ ns' @ replaced) cfg)\<lparr>ac_choose := Some ch'\<rparr>))"

section \<open>use_spice\<close>

text \<open>\<open>s.split("=>", 1)\<close> of a text that has the arrow.\<close>

fun split_arrow :: "string \<Rightarrow> (string \<times> string) option" where
  "split_arrow (a # b # s) =
     (if a = CHR ''='' \<and> b = CHR ''>'' then Some ([], s)
      else map_option (\<lambda>(x, y). (a # x, y)) (split_arrow (b # s)))"
| "split_arrow _ = None"

definition id_char :: "char \<Rightarrow> bool" where
  "id_char c \<longleftrightarrow> name_char c \<or> c = CHR ''$''"

text \<open>\<open>[A-Za-z_][A-Za-z0-9_$]*\<close>: the name and the rest.\<close>

definition id_prefix :: "string \<Rightarrow> (string \<times> string) option" where
  "id_prefix s = (case s of c # r \<Rightarrow> if name_start c then Some (py_span id_char s) else None | [] \<Rightarrow> None)"

definition index_text :: "string \<Rightarrow> bool" where
  "index_text s = (case s of
     c # r \<Rightarrow> c = CHR ''['' \<and> r \<noteq> [] \<and> last r = CHR '']'' \<and>
       (let d = butlast r; e = (if py_startswith d ''-'' then tl d else d) in e \<noteq> [] \<and> list_all re_digit e)
   | [] \<Rightarrow> False)"

text \<open>\<open>_PM_SRC\<close>.\<close>

definition pm_source :: "string \<Rightarrow> bool" where
  "pm_source s \<longleftrightarrow> s = ''*'' \<or> (case id_prefix s of Some (_, r) \<Rightarrow> r = [] \<or> index_text r | None \<Rightarrow> False)"

text \<open>\<open>\[[^\]]*:[^\]]*\]\s*$\<close>: the text ends with an index that has a colon.\<close>

definition bus_range :: "string \<Rightarrow> bool" where
  "bus_range s =
     (case rev s of
        c # r \<Rightarrow> c = CHR '']'' \<and>
          (let seg = rev (takeWhile (\<lambda>x. x \<noteq> CHR '']'') r) in CHR '':'' \<in> set (dropWhile (\<lambda>x. x \<noteq> CHR ''['') seg))
      | [] \<Rightarrow> False)"

definition odd_target :: "string \<Rightarrow> bool" where
  "odd_target s \<longleftrightarrow> s = [] \<or> list_ex (\<lambda>c. re_space c \<or> c \<in> set ''(){},'') s"

text \<open>Why a port_map item is refused, \<open>[]\<close> if it is not.\<close>

definition pm_problem :: "string \<Rightarrow> string \<Rightarrow> string" where
  "pm_problem src tgt =
     (let low = py_lower tgt in
      if src = ''*'' then
        (if low \<notin> set PORT_MODES
         then quoted ''* =>'' @ '' takes snps_by_name, snps_by_position or snps_open'' else [])
      else if CHR '':'' \<in> set src then ''a Verilog part-select is not supported; map each bit with v[i] => s''
      else if \<not> pm_source src then ''expected a Verilog port or one bit of it (v or v[i])''
      else if low = ''snps_by_name'' \<or> low = ''snps_by_position''
        then low @ '' is only valid as '' @ quoted (''* => '' @ low)
      else if py_startswith tgt ''{'' then ''a concatenation is not supported; map each bit with v[i] => s''
      else if bus_range tgt then ''a SPICE bus range is not supported; map each bit with v[i] => s''
      else if odd_target tgt then ''expected one SPICE port name''
      else [])"

record item_state =
  is_ok :: bool
  is_seen :: "string list"
  is_notes :: "diag list"

text \<open>One item of the loop of \<open>port_map\<close>; \<open>None\<close> as the new pair adds nothing.\<close>

definition pm_item :: "string \<Rightarrow> string \<Rightarrow> string \<Rightarrow> item_state \<times> (string \<times> string) list \<Rightarrow> item_state \<times> (string \<times> string) list" where
  "pm_item kw o' item = (\<lambda>(st, out).
     let it = py_strip item;
         bad = (\<lambda>msg. (st\<lparr>is_ok := False, is_notes := is_notes st @ [error o' (kw @ '' port_map: '' @ msg)]\<rparr>, out)) in
     if it = [] then (st, out)
     else (case split_arrow it of
       None \<Rightarrow> bad (quoted it @ '' is not '' @ quoted ''verilog => spice'')
     | Some (a, b) \<Rightarrow>
         (let src = filter (\<lambda>c. \<not> re_space c) (py_strip a); tgt = py_strip b; why = pm_problem src tgt in
          if why \<noteq> [] then bad (quoted it @ '': '' @ why)
          else if py_lower src \<in> set (is_seen st) then bad (src @ '' is mapped twice'')
          else (st\<lparr>is_seen := py_lower src # is_seen st\<rparr>, out @ [(src, tgt)]))))"

definition port_map_list :: "string \<Rightarrow> string \<Rightarrow> string \<Rightarrow> (string \<times> string) list \<Rightarrow> bool \<times> diag list \<times> (string \<times> string) list" where
  "port_map_list kw body o' out =
     (let (st, out') = fold (pm_item kw o') (split_top body CHR '','')
             (\<lparr>is_ok = True, is_seen = [], is_notes = []\<rparr>, out)
      in (is_ok st, is_notes st, out'))"

text \<open>\<open>^(\*|[A-Za-z_][A-Za-z0-9_$]*)\s*=>\s*(\w+)$\<close>.\<close>

definition index_item :: "string \<Rightarrow> (string \<times> string) option" where
  "index_item it =
     (case (case it of c # r \<Rightarrow> if c = CHR ''*'' then Some ([c], r) else id_prefix it | [] \<Rightarrow> None) of
        None \<Rightarrow> None
      | Some (a, r) \<Rightarrow>
          (let r1 = dropWhile re_space r in
           if py_startswith r1 ''=>'' then
             (let t = dropWhile re_space (drop 2 r1) in if t \<noteq> [] \<and> list_all word_char t then Some (a, t) else None)
           else None))"

definition index_order_item :: "string \<Rightarrow> string \<Rightarrow> string \<Rightarrow> bool \<times> diag list \<times> (string \<times> string) list \<Rightarrow> bool \<times> diag list \<times> (string \<times> string) list" where
  "index_order_item kw o' item = (\<lambda>(ok, ns, out).
     let it = py_strip item;
         bad = (False, ns @ [error o' (kw @ '' port_index_order: '' @ quoted it @ '' is not '' @
                  quoted ''port => same|dec|inc'')], out) in
     if it = [] then (ok, ns, out)
     else (case index_item it of
       None \<Rightarrow> bad
     | Some (a, m) \<Rightarrow> if py_lower m \<notin> {''same'', ''dec'', ''inc''} then bad else (ok, ns, out @ [(a, py_lower m)])))"

definition index_order :: "string \<Rightarrow> string \<Rightarrow> string \<Rightarrow> (string \<times> string) list \<Rightarrow> bool \<times> diag list \<times> (string \<times> string) list" where
  "index_order kw body o' out = fold (index_order_item kw o') (split_top body CHR '','') (True, [], out)"

datatype us_mode = NoMode | CellMode | InstMode

record us_state =
  uq_us :: use_spice
  uq_bad :: bool
  uq_mode :: us_mode
  uq_groups :: "string list"
  uq_notes :: "diag list"

definition us_fail :: "diag \<Rightarrow> us_state \<Rightarrow> us_state" where
  "us_fail n st = st\<lparr>uq_bad := True, uq_notes := uq_notes st @ [n]\<rparr>"

definition us_group :: "string \<Rightarrow> string \<Rightarrow> string \<Rightarrow> string \<Rightarrow> us_state \<Rightarrow> us_state" where
  "us_group kw o' low body st0 =
     (let st1 = (if low \<in> set (uq_groups st0) then us_fail (error o' (kw @ '': '' @ low @ '' given twice'')) st0 else st0);
          st = st1\<lparr>uq_groups := low # uq_groups st1\<rparr>;
          us = uq_us st in
      if low = ''port_map'' then
        (let (ok, ns, out) = port_map_list kw body o' (us_port_map us) in
         st\<lparr>uq_us := us\<lparr>us_port_map := out\<rparr>, uq_bad := \<not> ok \<or> uq_bad st, uq_notes := uq_notes st @ ns\<rparr>)
      else
        (let (ok, ns, out) = index_order kw body o' (us_index_order us) in
         st\<lparr>uq_us := us\<lparr>us_index_order := out\<rparr>, uq_bad := \<not> ok \<or> uq_bad st, uq_notes := uq_notes st @ ns\<rparr>))"

text \<open>A word that is no option: a cell, an instance or an error.\<close>

definition us_word :: "string \<Rightarrow> string \<Rightarrow> string \<Rightarrow> us_state \<Rightarrow> us_state" where
  "us_word kw o' t st =
     (let us = uq_us st; unexpected = error o' (kw @ '': unexpected '' @ quoted t) in
      if head_in t BRACKETS \<or> py_startswith t ''-'' then (us_fail unexpected st)\<lparr>uq_mode := NoMode\<rparr>
      else (case uq_mode st of
        CellMode \<Rightarrow>
          (let (cell, r) = (takeWhile (\<lambda>c. c \<noteq> CHR '':'') t, dropWhile (\<lambda>c. c \<noteq> CHR '':'') t) in
           if cell = [] \<or> (r \<noteq> [] \<and> tl r = [])
           then us_fail (error o' (kw @ '': bad -cell name '' @ quoted t @ '' (cell or cell:subckt)'')) st
           else st\<lparr>uq_us := us\<lparr>us_cells := us_cells us @ [(cell, drop 1 r)]\<rparr>\<rparr>)
      | InstMode \<Rightarrow> st\<lparr>uq_us := us\<lparr>us_insts := us_insts us @ [t]\<rparr>\<rparr>
      | NoMode \<Rightarrow> us_fail unexpected st))"

fun us_loop :: "string \<Rightarrow> string \<Rightarrow> string list \<Rightarrow> us_state \<Rightarrow> us_state" where
  "us_loop kw o' [] st = st"
| "us_loop kw o' (t # ts) st =
     (let low = py_lower t in
      if low = ''-cell'' then us_loop kw o' ts (st\<lparr>uq_mode := CellMode\<rparr>)
      else if low = ''-inst'' then us_loop kw o' ts (st\<lparr>uq_mode := InstMode\<rparr>)
      else if low = ''port_map'' \<or> low = ''port_index_order'' then
        (case (case ts of g # _ \<Rightarrow> group_body g | [] \<Rightarrow> None) of
           None \<Rightarrow> us_loop kw o' ts ((us_fail (error o' (kw @ '': '' @ low @ '' needs a ( ... ) list'')) st)\<lparr>uq_mode := NoMode\<rparr>)
         | Some body \<Rightarrow> us_loop kw o' (drop 1 ts) (us_group kw o' low body (st\<lparr>uq_mode := NoMode\<rparr>)))
      else us_loop kw o' ts (us_word kw o' t st))"

definition cmd_use_spice :: "stmt \<Rightarrow> string list \<Rightarrow> ams_config \<Rightarrow> ams_config" where
  "cmd_use_spice st toks cfg =
     (let o' = s_origin st; kw = py_lower (hd toks);
          r = us_loop kw o' (tl toks) \<lparr>uq_us = mk_use_spice\<lparr>us_origin := o'\<rparr>, uq_bad = False, uq_mode = NoMode,
                                        uq_groups = [], uq_notes = []\<rparr>;
          r' = (if us_cells (uq_us r) = [] then us_fail (error o' (kw @ '' needs -cell <cell>...'')) r else r);
          cfg' = cfg_notes (uq_notes r') cfg
      in if uq_bad r' then cfg' else cfg'\<lparr>ac_use_spice := ac_use_spice cfg' @ [uq_us r']\<rparr>)"

end
