(* ===== verification/InitRules.thy ===== *)
theory InitRules
  imports InitParse
begin

text \<open>
  The rest of the commands of the control file in \<open>vamos/ams/initfile.py\<close>: bus formats, port
  directions and connections, the interface-element rules, and the commands on single nodes.
\<close>

section \<open>bus_format\<close>

text \<open>\<open>^[<\[_]?%d[>\]]?$\<close>.\<close>

definition bus_format_ok :: "string \<Rightarrow> bool" where
  "bus_format_ok s =
     (let r = (case s of c # t \<Rightarrow> if c \<in> set ''<[_'' then t else s | [] \<Rightarrow> s) in
      py_startswith r ''%d'' \<and> drop 2 r \<in> {[], ''>'', '']''})"

definition bus_format :: "stmt \<Rightarrow> string list \<Rightarrow> parser \<Rightarrow> parser" where
  "bus_format st fmts p =
     (let o' = s_origin st; bad = filter (\<lambda>f. \<not> bus_format_ok f) fmts; old = ac_bus_formats (ps_cfg p) in
      if fmts = [] then say [error o' ''bus_format needs a format such as <%d>''] p
      else if bad \<noteq> [] then say [error o' (''bus_format '' @ py_join '' '' bad @
             '': a format is [open]%d[close] with < > [ ] _ only'')] p
      else
        (on_cfg (\<lambda>cfg. cfg\<lparr>ac_bus_formats := fmts\<rparr>)
          (say (if old \<noteq> [] \<and> old \<noteq> fmts
                then [mk_note o' (''bus_format replaces the bus_format at '' @ ps_bus_origin p)] else []) p))
        \<lparr>ps_bus_origin := o'\<rparr>)"

definition cmd_set :: "stmt \<Rightarrow> string list \<Rightarrow> parser \<Rightarrow> parser" where
  "cmd_set st toks p =
     (case tl toks of
        t # ts \<Rightarrow> if py_lower t = ''bus_format'' then bus_format st ts p
                  else say [error (s_origin st) (''unknown command '' @ quoted (''set '' @ t) @ '' (only '' @
                         quoted ''set bus_format'' @ '' is known)'')] p
      | [] \<Rightarrow> say [error (s_origin st) (''unknown command '' @ quoted ''set '' @ '' (only '' @
                         quoted ''set bus_format'' @ '' is known)'')] p)"

section \<open>port_dir\<close>

text \<open>The cell and the list of a command of the form \<open>-cell c ( ... )\<close>.\<close>

record group_args =
  ga_cell :: "string option"
  ga_insts :: "string list"
  ga_body :: "string option"
  ga_bad :: bool
  ga_notes :: "diag list"

definition ga_fail :: "diag \<Rightarrow> group_args \<Rightarrow> group_args" where
  "ga_fail n g = g\<lparr>ga_bad := True, ga_notes := ga_notes g @ [n]\<rparr>"

definition ga_init :: group_args where
  "ga_init = \<lparr>ga_cell = None, ga_insts = [], ga_body = None, ga_bad = False, ga_notes = []\<rparr>"

definition ga_group :: "string \<Rightarrow> string \<Rightarrow> string \<Rightarrow> group_args \<Rightarrow> group_args" where
  "ga_group kw o' t g = (case group_body t of
     Some b \<Rightarrow> g\<lparr>ga_body := Some b\<rparr>
   | None \<Rightarrow> ga_fail (error o' (kw @ '': unbalanced '' @ quoted ''('')) (g\<lparr>ga_body := None\<rparr>))"

fun pd_args :: "string \<Rightarrow> string list \<Rightarrow> group_args \<Rightarrow> group_args" where
  "pd_args o' [] g = g"
| "pd_args o' (t # ts) g =
     (if py_lower t = ''-cell'' \<and> (case ts of n # _ \<Rightarrow> \<not> head_in n ''({'' | [] \<Rightarrow> False)
      then pd_args o' (drop 1 ts)
             ((if ga_cell g \<noteq> None then ga_fail (error o' ''port_dir: -cell given twice'') g else g)\<lparr>ga_cell := Some (hd ts)\<rparr>)
      else if py_startswith t ''('' \<and> ga_body g = None then pd_args o' ts (ga_group ''port_dir'' o' t g)
      else pd_args o' ts (ga_fail (error o' (''port_dir: unexpected '' @ quoted t)) g))"

text \<open>\<open>[w for w in re.split(r"[\s,]+", s) if w]\<close>.\<close>

fun words_loop :: "string \<Rightarrow> string \<Rightarrow> string list" where
  "words_loop w [] = (if w = [] then [] else [w])"
| "words_loop w (c # s) =
     (if re_space c \<or> c = CHR '','' then (if w = [] then [] else [w]) @ words_loop [] s
      else words_loop (w @ [c]) s)"

record dir_state =
  ds_dirs :: "(string \<times> string) list"
  ds_bad :: bool
  ds_notes :: "diag list"

definition dir_port :: "string \<Rightarrow> string \<Rightarrow> string \<Rightarrow> dir_state \<Rightarrow> dir_state" where
  "dir_port o' d p st =
     (let pl = py_lower p;
          st1 = (case map_of (ds_dirs st) pl of
            Some d0 \<Rightarrow> if d0 \<noteq> d then st\<lparr>ds_bad := True, ds_notes := ds_notes st @
                 [error o' (''port_dir: port '' @ p @ '' is both '' @ d0 @ '' and '' @ d)]\<rparr> else st
          | None \<Rightarrow> st)
      in st1\<lparr>ds_dirs := dict_set pl d (ds_dirs st1)\<rparr>)"

definition dir_group :: "string \<Rightarrow> string \<Rightarrow> dir_state \<Rightarrow> dir_state" where
  "dir_group o' grp st =
     (let fail = (\<lambda>msg. st\<lparr>ds_bad := True, ds_notes := ds_notes st @ [error o' (''port_dir: '' @ msg)]\<rparr>) in
      case words_loop [] (py_strip grp) of
        [] \<Rightarrow> st
      | w # ports \<Rightarrow>
          (let d = py_lower w in
           if d \<notin> {''input'', ''output'', ''inout''}
             then fail (quoted (py_strip grp) @ '' should start with input, output or inout'')
           else if ports = [] then fail (quoted d @ '' lists no ports'')
           else fold (dir_port o' d) ports st))"

definition add_port_dir :: "string \<Rightarrow> string \<Rightarrow> (string \<times> string) list \<Rightarrow> ams_config \<Rightarrow> ams_config" where
  "add_port_dir cell o' dirs cfg =
     (let k = py_lower cell in
      case map_of (ac_port_dirs cfg) k of
        None \<Rightarrow> cfg\<lparr>ac_port_dirs := dict_set k \<lparr>pd_cell = cell, pd_dirs = dirs, pd_origin = o'\<rparr> (ac_port_dirs cfg)\<rparr>
      | Some old \<Rightarrow> cfg\<lparr>ac_port_dirs := dict_set k
            (old\<lparr>pd_dirs := fold (\<lambda>(p, d). dict_set p d) dirs (pd_dirs old), pd_origin := pd_origin old @ '', '' @ o'\<rparr>)
            (ac_port_dirs cfg)\<rparr>)"

definition cmd_port_dir :: "stmt \<Rightarrow> string list \<Rightarrow> ams_config \<Rightarrow> ams_config" where
  "cmd_port_dir st toks cfg =
     (let o' = s_origin st; g = pd_args o' (tl toks) ga_init; cfg1 = cfg_notes (ga_notes g) cfg in
      case ga_cell g of
        None \<Rightarrow> cfg_notes [error o' ''port_dir needs -cell <cell> (input|output|inout ports; ...)''] cfg1
      | Some cell \<Rightarrow>
          (case ga_body g of
             None \<Rightarrow> if ga_bad g then cfg1
                     else cfg_notes [error o' ''port_dir needs -cell <cell> (input|output|inout ports; ...)''] cfg1
           | Some body \<Rightarrow>
               if ga_bad g then cfg1
               else
                 (let ds = fold (dir_group o') (split_top body CHR '';'') \<lparr>ds_dirs = [], ds_bad = False, ds_notes = []\<rparr>;
                      cfg2 = cfg_notes (ds_notes ds) cfg1
                  in if ds_bad ds then cfg2 else add_port_dir cell o' (ds_dirs ds) cfg2)))"

section \<open>port_connect\<close>

text \<open>The names after \<open>-inst\<close>, up to an option or a group.\<close>

definition inst_names :: "string list \<Rightarrow> string list \<times> string list" where
  "inst_names ts = (takeWhile (\<lambda>t. \<not> head_in t ''({)}-'') ts, dropWhile (\<lambda>t. \<not> head_in t ''({)}-'') ts)"

function pc_args :: "string \<Rightarrow> string list \<Rightarrow> group_args \<Rightarrow> group_args" where
  "pc_args o' [] g = g"
| "pc_args o' (t # ts) g =
     (let low = py_lower t in
      if low = ''-cell'' \<and> (case ts of n # _ \<Rightarrow> \<not> head_in n ''({-'' | [] \<Rightarrow> False)
        then pc_args o' (drop 1 ts) (g\<lparr>ga_cell := Some (hd ts)\<rparr>)
      else if low = ''-inst''
        then pc_args o' (snd (inst_names ts)) (g\<lparr>ga_insts := ga_insts g @ fst (inst_names ts)\<rparr>)
      else if py_startswith t ''('' \<and> ga_body g = None then pc_args o' ts (ga_group ''port_connect'' o' t g)
      else pc_args o' ts (ga_fail (error o' (''port_connect: unexpected '' @ quoted t)) g))"
  by pat_completeness auto
termination
  by (relation "measure (\<lambda>(o', ts, g). length ts)") (auto simp: inst_names_def length_dropWhile_le less_Suc_eq_le)

text \<open>\<open>^-inst\s+(\S+)\s*(.*)$\<close> of a stripped item: the instance and what follows, stripped.\<close>

definition inst_item :: "string \<Rightarrow> (string \<times> string) option" where
  "inst_item it =
     (if py_startswith it ''-inst'' then
        (let r = drop 5 it; r1 = dropWhile re_space r; (w, r2) = py_span (\<lambda>c. \<not> re_space c) r1 in
         if r1 \<noteq> r \<and> w \<noteq> [] then Some (w, py_strip r2) else None)
      else None)"

text \<open>\<open>^real\s+(?!=>)(.*)$\<close>: with two blanks or more the lookahead never fails, a blank given back.\<close>

definition real_item :: "string \<Rightarrow> string option" where
  "real_item it =
     (if py_startswith (py_lower it) ''real'' then
        (let r = drop 4 it; (sp, r1) = py_span re_space r in
         if sp \<noteq> [] \<and> (length sp \<ge> 2 \<or> \<not> py_startswith r1 ''=>'') then Some (py_strip r1) else None)
      else None)"

record conn_state =
  cs_conns :: "(string \<times> string \<times> bool) list"
  cs_insts :: "string list"
  cs_seen :: "string list"
  cs_bad :: bool
  cs_notes :: "diag list"

definition conn_pair :: "string \<Rightarrow> string \<Rightarrow> bool \<Rightarrow> string \<Rightarrow> conn_state \<Rightarrow> conn_state" where
  "conn_pair o' item is_real it st =
     (let fail = (\<lambda>msg. st\<lparr>cs_bad := True, cs_notes := cs_notes st @ [error o' (''port_connect: '' @ msg)]\<rparr>);
          bad = fail (quoted (py_strip item) @ '' is not '' @ quoted ''spice_port => net'') in
      case split_arrow it of
        None \<Rightarrow> bad
      | Some (a, b) \<Rightarrow>
          (let p = py_strip a; net = py_strip b in
           if p = [] \<or> net = [] \<or> list_ex re_space (p @ net) then bad
           else if py_lower p \<in> set (cs_seen st) then fail (''port '' @ p @ '' is connected twice'')
           else
             (let net' = unquote net in
              st\<lparr>cs_seen := py_lower p # cs_seen st,
                 cs_conns := cs_conns st @ [(p, if py_lower net' = ''snps_open'' then ''snps_open'' else net', is_real)]\<rparr>)))"

definition conn_item :: "string \<Rightarrow> string \<Rightarrow> conn_state \<Rightarrow> conn_state" where
  "conn_item o' item st =
     (let it = py_strip item in
      if it = [] then st
      else
        (let (st1, it1) = (case inst_item it of
              Some (w, r) \<Rightarrow> (st\<lparr>cs_insts := cs_insts st @ [w]\<rparr>, r) | None \<Rightarrow> (st, it)) in
         if inst_item it \<noteq> None \<and> it1 = [] then st1
         else (case real_item it1 of
                 Some r \<Rightarrow> conn_pair o' item True r st1
               | None \<Rightarrow> conn_pair o' item False it1 st1)))"

definition cmd_port_connect :: "stmt \<Rightarrow> string list \<Rightarrow> ams_config \<Rightarrow> ams_config" where
  "cmd_port_connect st toks cfg =
     (let o' = s_origin st; g = pc_args o' (tl toks) ga_init; cfg1 = cfg_notes (ga_notes g) cfg in
      case (ga_cell g, ga_body g) of
        (Some cell, Some body) \<Rightarrow>
          (let cs = fold (conn_item o') (split_top body CHR '','')
                 \<lparr>cs_conns = [], cs_insts = ga_insts g, cs_seen = [], cs_bad = ga_bad g, cs_notes = []\<rparr>;
               cfg2 = cfg_notes (cs_notes cs) cfg1 in
           if cs_bad cs then cfg2
           else if cs_conns cs = [] then cfg_notes [error o' ''port_connect lists no connection''] cfg2
           else cfg2\<lparr>ac_port_connects := ac_port_connects cfg2 @
                  map (\<lambda>inst. \<lparr>pc_cell = cell, pc_inst = inst, pc_conns = cs_conns cs, pc_origin = o'\<rparr>)
                    (if cs_insts cs = [] then [None] else map Some (cs_insts cs))\<rparr>)
      | _ \<Rightarrow> if ga_bad g then cfg1
             else cfg_notes [error o' ''port_connect needs -cell <cell> (port => net, ...)''] cfg1)"

section \<open>Interface-element rules\<close>

text \<open>One word of \<open>_keyvals\<close>: a pair, or the error.\<close>

definition keyval :: "stmt \<Rightarrow> string \<Rightarrow> diag + string \<times> string" where
  "keyval st t =
     (let fail = (\<lambda>msg. Inl (error (s_origin st) (s_keyword st @ '': '' @ msg))) in
      if head_in t BRACKETS \<or> py_startswith t ''='' then fail (''unexpected '' @ quoted t)
      else if CHR ''='' \<in> set t then
        (let k = takeWhile (\<lambda>c. c \<noteq> CHR ''='') t; v = unquote (tl (dropWhile (\<lambda>c. c \<noteq> CHR ''='') t)) in
         if v = [] then fail (k @ ''= needs a value'') else Inr (py_lower k, v))
      else Inr (py_lower t, []))"

fun keyval_errors :: "(diag + string \<times> string) list \<Rightarrow> diag list" where
  "keyval_errors [] = []"
| "keyval_errors (Inl n # rs) = n # keyval_errors rs"
| "keyval_errors (Inr _ # rs) = keyval_errors rs"

fun keyval_pairs :: "(diag + string \<times> string) list \<Rightarrow> (string \<times> string) list" where
  "keyval_pairs [] = []"
| "keyval_pairs (Inl _ # rs) = keyval_pairs rs"
| "keyval_pairs (Inr x # rs) = x # keyval_pairs rs"

definition keyvals :: "stmt \<Rightarrow> string list \<Rightarrow> (diag list) + (string \<times> string) list" where
  "keyvals st toks =
     (let rs = map (keyval st) (kv (tl toks)) in
      if keyval_errors rs \<noteq> [] then Inl (keyval_errors rs) else Inr (keyval_pairs rs))"

definition SELECTORS :: "string list" where
  "SELECTORS = [''node'', ''cell'', ''inst'', ''port'', ''library'']"

definition get_sel :: "ie_rule \<Rightarrow> string \<Rightarrow> string option" where
  "get_sel r k = (if k = ''node'' then ir_node r else if k = ''cell'' then ir_cell r
     else if k = ''inst'' then ir_inst r else if k = ''port'' then ir_port r else ir_library r)"

definition set_sel :: "string \<Rightarrow> string \<Rightarrow> ie_rule \<Rightarrow> ie_rule" where
  "set_sel k v r = (if k = ''node'' then r\<lparr>ir_node := Some v\<rparr> else if k = ''cell'' then r\<lparr>ir_cell := Some v\<rparr>
     else if k = ''inst'' then r\<lparr>ir_inst := Some v\<rparr> else if k = ''port'' then r\<lparr>ir_port := Some v\<rparr>
     else r\<lparr>ir_library := Some v\<rparr>)"

text \<open>The loop of \<open>cmd_a2d\<close>: the rule and the notes, \<open>Inl\<close> at the early return.\<close>

fun rule_loop :: "stmt \<Rightarrow> (string \<times> string) list \<Rightarrow> ie_rule \<Rightarrow> diag list \<Rightarrow> (diag list) + (ie_rule \<times> diag list)" where
  "rule_loop st [] r ns = Inr (r, ns)"
| "rule_loop st ((k, v) # kvs) r ns =
     (let o' = s_origin st in
      if k \<in> set SELECTORS then
        (if v = [] then Inl (ns @ [error o' (s_keyword st @ '': '' @ k @ '' needs a value'')])
         else rule_loop st kvs (set_sel k v r)
                (ns @ (if get_sel r k \<noteq> None
                       then [mk_note o' (s_keyword st @ '': '' @ k @ ''= given twice; the last value is used'')] else [])))
      else rule_loop st kvs (r\<lparr>ir_params := dict_set k v (ir_params r)\<rparr>)
             (ns @ (if k \<in> fst ` set (ir_params r)
                    then [mk_note o' (s_keyword st @ '': '' @ k @ '' given twice; the last value is used'')] else [])))"

definition cmd_a2d :: "stmt \<Rightarrow> string list \<Rightarrow> ams_config \<Rightarrow> ams_config" where
  "cmd_a2d st toks cfg =
     (case keyvals st toks of
        Inl ns \<Rightarrow> cfg_notes ns cfg
      | Inr kvs \<Rightarrow>
          (case rule_loop st kvs ((mk_rule (s_keyword st))\<lparr>ir_origin := s_origin st\<rparr>) [] of
             Inl ns \<Rightarrow> cfg_notes ns cfg
           | Inr (r, ns) \<Rightarrow>
               (let found = check_rule r; cfg1 = cfg_notes (ns @ found) cfg in
                if has_errors found then cfg1 else cfg1\<lparr>ac_rules := ac_rules cfg1 @ [r]\<rparr>)))"

section \<open>Commands on nodes\<close>

text \<open>One pair of \<open>_node_only\<close>.\<close>

definition node_kv :: "stmt \<Rightarrow> string list \<Rightarrow> string \<times> string \<Rightarrow> diag list \<times> (string \<times> string) list \<Rightarrow> diag list \<times> (string \<times> string) list" where
  "node_kv st allowed = (\<lambda>(k, v) (ns, got).
     if k \<notin> set allowed then (ns @ [error (s_origin st) (s_keyword st @ '': unknown key '' @ k)], got)
     else if v = [] then (ns @ [error (s_origin st) (s_keyword st @ '': '' @ k @ '' needs a value'')], got)
     else (ns, dict_set k v got))"

definition node_only :: "stmt \<Rightarrow> string list \<Rightarrow> string list \<Rightarrow> (diag list) + (string \<times> string) list" where
  "node_only st toks allowed =
     (case keyvals st toks of
        Inl ns \<Rightarrow> Inl ns
      | Inr kvs \<Rightarrow> (let (ns, got) = fold (node_kv st allowed) kvs ([], []) in if ns \<noteq> [] then Inl ns else Inr got))"

definition node_pattern :: "stmt \<Rightarrow> string option \<Rightarrow> diag + string" where
  "node_pattern st node = (case node of
     None \<Rightarrow> Inl (error (s_origin st) (s_keyword st @ '' needs node=''))
   | Some n \<Rightarrow>
       if list_all (\<lambda>c. c = CHR ''*'') n
       then Inl (error (s_origin st) (s_keyword st @ '': node='' @ n @
              '' is not allowed; a partial pattern such as top.din* is (PAMS p210, p264)''))
       else Inr n)"

text \<open>A voltage: \<open>None\<close> for what is none, a percentage among them.\<close>

definition voltage_of :: "string \<Rightarrow> pyfloat option" where
  "voltage_of raw = (case parse_level raw of Inr (v, pct) \<Rightarrow> if pct then None else Some v | Inl _ \<Rightarrow> None)"

definition cmd_remove_d2a :: "stmt \<Rightarrow> string list \<Rightarrow> ams_config \<Rightarrow> ams_config" where
  "cmd_remove_d2a st toks cfg =
     (case node_only st toks [''dc'', ''node''] of
        Inl ns \<Rightarrow> cfg_notes ns cfg
      | Inr got \<Rightarrow>
          (case node_pattern st (map_of got ''node'') of
             Inl n \<Rightarrow> cfg_notes [n] cfg
           | Inr node \<Rightarrow>
               (case map_of got ''dc'' of
                  None \<Rightarrow> cfg\<lparr>ac_remove_d2a := ac_remove_d2a cfg @ [(node, None, s_origin st)]\<rparr>
                | Some raw \<Rightarrow>
                    (case voltage_of raw of
                       None \<Rightarrow> cfg_notes [error (s_origin st) (''remove_d2a: dc='' @ raw @ '' is not a voltage'')] cfg
                     | Some v \<Rightarrow> cfg\<lparr>ac_remove_d2a := ac_remove_d2a cfg @ [(node, Some v, s_origin st)]\<rparr>))))"

definition cmd_disable_ie :: "stmt \<Rightarrow> string list \<Rightarrow> ams_config \<Rightarrow> ams_config" where
  "cmd_disable_ie st toks cfg =
     (case node_only st toks [''node''] of
        Inl ns \<Rightarrow> cfg_notes ns cfg
      | Inr got \<Rightarrow>
          (case node_pattern st (map_of got ''node'') of
             Inl n \<Rightarrow> cfg_notes [n] cfg
           | Inr node \<Rightarrow> cfg\<lparr>ac_disable_ie := ac_disable_ie cfg @ [(node, s_origin st)]\<rparr>))"

definition ref_wildcard :: "(string \<times> string) list \<Rightarrow> (string \<times> string) option" where
  "ref_wildcard got = (case filter (\<lambda>k. case map_of got k of Some v \<Rightarrow> CHR ''*'' \<in> set v | None \<Rightarrow> False)
                              [''node'', ''skip_node''] of
     k # _ \<Rightarrow> Some (k, case map_of got k of Some v \<Rightarrow> v | None \<Rightarrow> []) | [] \<Rightarrow> None)"

definition cmd_ie_reference_voltage :: "stmt \<Rightarrow> string list \<Rightarrow> ams_config \<Rightarrow> ams_config" where
  "cmd_ie_reference_voltage st toks cfg =
     (let o' = s_origin st; add = (\<lambda>row. cfg\<lparr>ac_ref_voltages := ac_ref_voltages cfg @ [row]\<rparr>) in
      case node_only st toks [''node'', ''voltage'', ''skip_node''] of
        Inl ns \<Rightarrow> cfg_notes ns cfg
      | Inr got \<Rightarrow>
          (case ref_wildcard got of
             Some (k, v) \<Rightarrow> cfg_notes [error o' (''ie_reference_voltage: '' @ k @ ''='' @ v @ '': wildcards are not supported'')] cfg
           | None \<Rightarrow>
          (case map_of got ''skip_node'' of
             Some n \<Rightarrow>
               if length got > 1 then cfg_notes [error o'
                 ''ie_reference_voltage: skip_node= cannot be combined with node= or voltage= (PAMS p239)''] cfg
               else add (n, Some SKIP, o')
           | None \<Rightarrow>
          (case map_of got ''node'' of
             None \<Rightarrow> cfg_notes [error o' ''ie_reference_voltage needs node= or skip_node=''] cfg
           | Some n \<Rightarrow>
          (case map_of got ''voltage'' of
             None \<Rightarrow> add (n, None, o')
           | Some raw \<Rightarrow>
               (case voltage_of raw of
                  None \<Rightarrow> cfg_notes [error o' (''ie_reference_voltage: voltage='' @ raw @ '' is not a voltage'')] cfg
                | Some v \<Rightarrow> add (n, Some v, o')))))))"

section \<open>Severities and the end of the run\<close>

definition strip_chars :: "string \<Rightarrow> string \<Rightarrow> string" where
  "strip_chars cs s = rev (dropWhile (\<lambda>c. c \<in> set cs) (rev (dropWhile (\<lambda>c. c \<in> set cs) s)))"

definition message_ids :: "string list \<Rightarrow> string list" where
  "message_ids ts = filter (\<lambda>i. i \<noteq> [])
     (concat (map (\<lambda>t. map (\<lambda>p. py_strip (strip_chars ''[]'' (py_strip p))) (py_split CHR ''|'' t)) ts))"

definition set_severity :: "stmt \<Rightarrow> string list \<Rightarrow> string \<Rightarrow> ams_config \<Rightarrow> ams_config" where
  "set_severity st toks sev cfg =
     (let ids = message_ids (tl toks) in
      if ids = [] then cfg_notes [error (s_origin st) (s_keyword st @ '' needs a message id such as '' @ TNF)] cfg
      else fold (\<lambda>mid cfg.
             if py_upper mid = TNF
             then cfg\<lparr>ac_severity_overrides := dict_set TNF sev (ac_severity_overrides cfg)\<rparr>
             else cfg_notes [mk_note (s_origin st) (s_keyword st @ '' '' @ mid @ '' has no effect: only '' @ TNF @
                    '' is reported by vamos'')] cfg) ids cfg)"

definition cmd_transient_analysis :: "stmt \<Rightarrow> string list \<Rightarrow> ams_config \<Rightarrow> ams_config" where
  "cmd_transient_analysis st toks cfg =
     (let args = map py_lower (tl toks) in
      if args = [''$finish''] \<or> args = [''$stop'']
      then cfg_notes [mk_note (s_origin st) (''transient_analysis '' @ hd args @
             '': the run ends at the analog stop time, and also at $finish or $stop'')] cfg
      else cfg_notes [error (s_origin st) ''transient_analysis takes $finish or $stop''] cfg)"

end
