(* ===== verification/InitFile.thy ===== *)
theory InitFile
  imports InitRules
begin

text \<open>
  The files of \<open>vamos/ams/initfile.py\<close>: the dispatch of a statement, include files, the XA
  configuration files that are mined for probes and the case mode, and \<open>parse_control\<close>. The
  operating system is a record of functions: \<open>realpath\<close>, \<open>isfile\<close>, the text of a file or the reason
  that it cannot be read, \<open>expanduser\<close> and the working directory.
\<close>

record os_env =
  os_realpath :: "string \<Rightarrow> string"
  os_isfile :: "string \<Rightarrow> bool"
  os_open :: "string \<Rightarrow> string + string"
  os_expanduser :: "string \<Rightarrow> string"
  os_getcwd :: string

section \<open>Paths\<close>

definition abspath :: "os_env \<Rightarrow> string \<Rightarrow> string" where
  "abspath os p = normpath (if isabs p then p else path_join (os_getcwd os) p)"

fun common_prefix :: "string list \<Rightarrow> string list \<Rightarrow> nat" where
  "common_prefix (x # xs) (y # ys) = (if x = y then Suc (common_prefix xs ys) else 0)"
| "common_prefix _ _ = 0"

definition path_parts :: "string \<Rightarrow> string list" where
  "path_parts p = filter (\<lambda>c. c \<noteq> []) (py_split slash p)"

text \<open>\<open>os.path.relpath\<close> of a path that is not empty, as \<open>_Parser.label\<close> uses it.\<close>

definition relpath :: "os_env \<Rightarrow> string \<Rightarrow> string \<Rightarrow> string" where
  "relpath os path start =
     (let s = path_parts (abspath os start); p = path_parts (abspath os path); i = common_prefix s p;
          rel = replicate (length s - i) ''..'' @ drop i p
      in if rel = [] then ''.'' else py_join [slash] rel)"

definition label_of :: "os_env \<Rightarrow> string \<Rightarrow> string \<Rightarrow> string" where
  "label_of os cwd path = (if path = [] then path else relpath os path cwd)"

definition expand_path :: "os_env \<Rightarrow> (string \<rightharpoonup> string) \<Rightarrow> string \<Rightarrow> string \<times> string list" where
  "expand_path os env name =
     (let (p, missing) = expand_vars env name;
          home = (case env ''HOME'' of Some h \<Rightarrow> h | None \<Rightarrow> []) in
      (if py_startswith p ''~'' then
         (if home \<noteq> [] \<and> (p = ''~'' \<or> py_startswith p ''~/'') then home @ drop 1 p else os_expanduser os p)
       else p, missing))"

text \<open>\<open>find\<close>: the path, the paths tried, and the note of a second one.\<close>

definition find_path :: "os_env \<Rightarrow> string \<Rightarrow> string \<Rightarrow> string \<Rightarrow> string \<Rightarrow> string option \<times> string list \<times> diag list" where
  "find_path os cwd name other_dir orig =
     (if isabs name then (if os_isfile os name then Some name else None, [name], [])
      else
        (let tried = remdups (rev (map (\<lambda>d. normpath (path_join d name)) [cwd, other_dir]));
             tried' = rev tried; found = filter (os_isfile os) tried' in
         (case found of f # _ \<Rightarrow> Some f | [] \<Rightarrow> None, tried',
          (case found of
             a # b # _ \<Rightarrow> if os_realpath os a \<noteq> os_realpath os b
               then [mk_note orig (name @ '': '' @ label_of os cwd a @ '' is used; '' @ label_of os cwd b @ '' also exists'')]
               else []
           | _ \<Rightarrow> []))))"

section \<open>Dispatch\<close>

text \<open>\<open>"cmd_" + kw\<close> for the words of \<open>_HANDLED\<close> that have such a method.\<close>

definition run_command :: "stmt \<Rightarrow> string list \<Rightarrow> string \<Rightarrow> (parser \<Rightarrow> parser) option" where
  "run_command st toks here =
     (let kw = s_keyword st in
      if kw = ''choose'' then Some (\<lambda>p. on_cfg (cmd_choose st toks) (p\<lparr>ps_choose_dir := here\<rparr>))
      else if kw = ''use_spice'' \<or> kw = ''partition'' then Some (on_cfg (cmd_use_spice st toks))
      else if kw = ''bus_format'' then Some (bus_format st (tl toks))
      else if kw = ''set'' then Some (cmd_set st toks)
      else if kw = ''port_dir'' then Some (on_cfg (cmd_port_dir st toks))
      else if kw = ''port_connect'' then Some (on_cfg (cmd_port_connect st toks))
      else if kw = ''a2d'' \<or> kw = ''d2a'' \<or> kw = ''map_by_node'' then Some (on_cfg (cmd_a2d st toks))
      else if kw = ''remove_d2a'' then Some (on_cfg (cmd_remove_d2a st toks))
      else if kw = ''disable_ie'' then Some (on_cfg (cmd_disable_ie st toks))
      else if kw = ''ie_reference_voltage'' then Some (on_cfg (cmd_ie_reference_voltage st toks))
      else if kw = ''downgrade_to_warn'' then Some (on_cfg (set_severity st toks ''warning''))
      else if kw = ''upgrade_to_error'' then Some (on_cfg (set_severity st toks ''error''))
      else if kw = ''transient_analysis'' then Some (on_cfg (cmd_transient_analysis st toks))
      else None)"

definition is_word :: "string \<Rightarrow> bool" where
  "is_word s = (case cmd_word s of Some (_, r) \<Rightarrow> r = [] | None \<Rightarrow> False)"

text \<open>The words without a method: the tables, the families and the unknown ones.\<close>

definition other_command :: "stmt \<Rightarrow> diag" where
  "other_command st =
     (let kw = s_keyword st; o' = s_origin st in
      case map_of ERRORS kw of Some why \<Rightarrow> error o' (kw @ '': '' @ why) | None \<Rightarrow>
     (case map_of WARNINGS kw of Some why \<Rightarrow> warning o' (kw @ '' is ignored: '' @ why) | None \<Rightarrow>
     (case map_of NOTES kw of Some why \<Rightarrow> mk_note o' (kw @ '' has no effect: '' @ why) | None \<Rightarrow>
     (case family kw of
        FWarning why \<Rightarrow> warning o' (kw @ '' is ignored: '' @ why)
      | FNote why \<Rightarrow> mk_note o' (kw @ '' has no effect: '' @ why)
      | FUnknown \<Rightarrow> if is_word kw then error o' (''unknown command '' @ quoted kw)
                    else error o' (''unrecognised text '' @ py_repr (take 40 (s_text st)))))))"

text \<open>\<open>kw.replace("_end", "_begin")\<close> of the two words that end a raw block.\<close>

definition begin_word :: "string \<Rightarrow> string" where
  "begin_word kw = (case map_of (map (\<lambda>(b, e). (e, b)) RAW) kw of Some b \<Rightarrow> b | None \<Rightarrow> kw)"

definition plain_statement :: "stmt \<Rightarrow> string \<Rightarrow> parser \<Rightarrow> parser" where
  "plain_statement st here p =
     (let kw = s_keyword st; o' = s_origin st in
      if map_of RAW kw \<noteq> None then
        (let extra = py_strip (drop (length kw) (s_text st)) in
         if extra \<noteq> [] then say [error o' (kw @ '' takes no arguments ('' @ py_repr extra @ '')'')] p
         else if kw = ''netlist_commands_begin''
           then on_cfg (\<lambda>cfg. cfg\<lparr>ac_netlist_lines := ac_netlist_lines cfg @ s_raw st\<rparr>) p
         else p\<lparr>ps_xa_lines := ps_xa_lines p @ s_raw st\<rparr>)
      else if kw \<in> set RAW_ENDS then say [error o' (kw @ '' without '' @ begin_word kw)] p
      else (case run_command st (tokens (s_text st)) here of
              Some f \<Rightarrow> f p
            | None \<Rightarrow> say [other_command st] p))"

section \<open>Reading files\<close>

text \<open>The file of an include statement, or the error.\<close>

definition include_file :: "os_env \<Rightarrow> string \<Rightarrow> (string \<rightharpoonup> string) \<Rightarrow> stmt \<Rightarrow> diag + string" where
  "include_file os cwd env st =
     (let o' = s_origin st in
      case tokens (py_strip (drop (length INCLUDE) (s_text st))) of
        [t] \<Rightarrow>
          (let (name, missing) = expand_vars env (unquote t) in
           if missing \<noteq> [] then Inl (error o' (INCLUDE @ '' '' @ t @ '': environment variable '' @
                py_join '', '' (sorted_set missing) @ '' is not set''))
           else
             (let path = (if isabs name then name else normpath (path_join cwd name)) in
              if os_isfile os path then Inr path
              else Inl (error o' (INCLUDE @ '' file '' @ path @
                     '' not found (relative names are taken against the directory vcs runs in)''))))
      | _ \<Rightarrow> Inl (error o' (INCLUDE @ '' takes one file name'')))"

definition begin_file :: "os_env \<Rightarrow> string \<Rightarrow> string \<Rightarrow> string \<Rightarrow> parser \<Rightarrow> stmt list \<times> parser" where
  "begin_file os cwd path text p =
     (let cfg = ps_cfg p; (sts, ns) = lex_control text (label_of os cwd path) (ac_notes cfg) in
      (sts, p\<lparr>ps_cfg := cfg\<lparr>ac_files := ac_files cfg @ [path], ac_notes := ns\<rparr>,
              ps_stack := os_realpath os path # ps_stack p\<rparr>))"

function read_file ::
  "os_env \<Rightarrow> string \<Rightarrow> (string \<rightharpoonup> string) \<Rightarrow> nat \<Rightarrow> string \<Rightarrow> string \<Rightarrow> parser \<Rightarrow> parser" where
  "read_file os cwd env depth path orig p =
     (let o' = (if orig \<noteq> [] then orig else path) in
      if os_realpath os path \<in> set (ps_stack p)
        then say [error o' (INCLUDE @ '' cycle: '' @ label_of os cwd path @ '' includes itself'')] p
      else if depth > MAX_INCLUDE_DEPTH
        then say [error o' (INCLUDE @ '' nested deeper than '' @ show_int (int MAX_INCLUDE_DEPTH))] p
      else (case os_open os path of
        Inl why \<Rightarrow> say [error o' (''cannot read control file '' @ path @ '': '' @ why)] p
      | Inr text \<Rightarrow>
          (let (sts, p1) = begin_file os cwd path text p;
               p2 = fold (\<lambda>st q.
                      if s_keyword st = INCLUDE then
                        (case include_file os cwd env st of
                           Inl n \<Rightarrow> say [n] q
                         | Inr f \<Rightarrow> read_file os cwd env (depth + 1) f (s_origin st) q)
                      else plain_statement st (dirname path) q) sts p1
           in p2\<lparr>ps_stack := tl (ps_stack p2)\<rparr>)))"
  by pat_completeness auto
termination
  by (relation "measure (\<lambda>(os, cwd, env, depth, path, orig, p). MAX_INCLUDE_DEPTH + 1 - depth)") auto

declare read_file.simps [simp del]

section \<open>XA configuration\<close>

definition py_rstrip :: "string \<Rightarrow> string" where
  "py_rstrip s = rev (dropWhile py_isspace (rev s))"

text \<open>Lines that end with a backslash go on with the next one.\<close>

fun join_lines :: "string \<Rightarrow> string \<Rightarrow> (string \<times> string) list \<Rightarrow> (string \<times> string) list" where
  "join_lines pend pend_origin [] = (if pend \<noteq> [] then [(pend, pend_origin)] else [])"
| "join_lines pend pend_origin ((line0, orig0) # rows) =
     (let line = (if pend \<noteq> [] then pend @ '' '' @ line0 else line0); orig = (if pend \<noteq> [] then pend_origin else orig0);
          t = py_rstrip line in
      if t \<noteq> [] \<and> last t = backslash then join_lines (butlast t) orig rows
      else (line, orig) # join_lines [] pend_origin rows)"

text \<open>\<open>"[^"]*"|\S+\<close>.\<close>

function xa_words :: "string \<Rightarrow> string list" where
  "xa_words [] = []"
| "xa_words (c # s) =
     (if re_space c then xa_words s
      else if c = CHR 0x22 \<and> CHR 0x22 \<in> set s
        then unquote (c # fst (through CHR 0x22 s)) # xa_words (snd (through CHR 0x22 s))
      else unquote (takeWhile (\<lambda>x. \<not> re_space x) (c # s)) # xa_words (dropWhile (\<lambda>x. \<not> re_space x) s))"
  by pat_completeness auto
termination
proof (relation "measure length", goal_cases)
  case (3 c s)
  then show ?case using through_length [of "CHR 0x22" s] by (metis in_measure le_imp_less_Suc length_Cons prod.collapse)
next
  case (4 c s)
  then show ?case by (simp add: length_dropWhile_le less_Suc_eq_le)
qed auto

record mined =
  mi_probe_v :: "(string \<times> string) list"
  mi_probe_i :: "(string \<times> string) list"
  mi_case :: "string option"
  mi_notes :: "diag list"
  mi_ignored :: "string list"

definition mined_init :: mined where
  "mined_init = \<lparr>mi_probe_v = [], mi_probe_i = [], mi_case = None, mi_notes = [], mi_ignored = []\<rparr>"

text \<open>The patterns and the options of a probe command.\<close>

fun probe_words :: "string list \<Rightarrow> string list \<times> string list \<Rightarrow> string list \<times> string list" where
  "probe_words [] st = st"
| "probe_words (w # ws) (pats, opts) =
     (if py_startswith w ''-'' \<and> length w > 1 \<and> \<not> is_number w then
        (case ws of
           v # ws' \<Rightarrow> if is_number v then probe_words ws' (pats, opts @ [w @ '' '' @ v])
                      else probe_words ws (pats, opts @ [w])
         | [] \<Rightarrow> (pats, opts @ [w]))
      else probe_words ws (pats @ [w], opts))"

definition mine_probe :: "string \<Rightarrow> string list \<Rightarrow> string \<Rightarrow> mined \<Rightarrow> mined" where
  "mine_probe cmd ws orig m =
     (let (pats, opts) = probe_words ws ([], []); rows = map (\<lambda>p. (p, orig)) pats;
          ns = (if pats = [] then [mk_note orig (cmd @ '' names no node and is ignored'')] else []) @
               (if opts \<noteq> [] then [mk_note orig (cmd @ '': '' @ py_join '' '' opts @
                   '' not applied: every node matching the pattern is saved'')] else []);
          m1 = m\<lparr>mi_notes := mi_notes m @ ns\<rparr> in
      if py_endswith cmd ''voltage'' then m1\<lparr>mi_probe_v := mi_probe_v m1 @ rows\<rparr>
      else m1\<lparr>mi_probe_i := mi_probe_i m1 @ rows\<rparr>)"

definition mine_case :: "string list \<Rightarrow> string \<Rightarrow> mined \<Rightarrow> mined" where
  "mine_case ws orig m =
     (let rest = filter (\<lambda>w. py_lower w \<noteq> ''-case'') ws; v = (case rest of w # _ \<Rightarrow> py_lower w | [] \<Rightarrow> []) in
      if v \<in> {''lower'', ''upper'', ''sensitive''} \<and> length rest = 1 then m\<lparr>mi_case := Some v\<rparr>
      else m\<lparr>mi_notes := mi_notes m @ [warning orig (''set_sim_case '' @ py_join '' '' ws @
             '' is not understood and is ignored (expected -case lower|upper|sensitive)'')]\<rparr>)"

definition mine_line :: "string \<times> string \<Rightarrow> mined \<Rightarrow> mined" where
  "mine_line = (\<lambda>(line, orig) m.
     let s = py_strip line in
     if s = [] \<or> py_startswith s ''#'' \<or> py_startswith s ''//'' then m
     else (case xa_words s of
       [] \<Rightarrow> m
     | w # ws \<Rightarrow>
         (let cmd = py_lower w in
          if cmd = ''probe_waveform_voltage'' \<or> cmd = ''probe_waveform_current'' then mine_probe cmd ws orig m
          else if cmd = ''set_sim_case'' then mine_case ws orig m
          else if cmd \<notin> set (mi_ignored m)
            then m\<lparr>mi_ignored := cmd # mi_ignored m, mi_notes := mi_notes m @
                    [mk_note orig (''XA command '' @ cmd @ '' has no counterpart in vamos and is ignored'')]\<rparr>
          else m)))"

definition mine_lines :: "(string \<times> string) list \<Rightarrow> mined" where
  "mine_lines rows = fold mine_line (join_lines [] [] rows) mined_init"

definition mine_xa_cfg :: "os_env \<Rightarrow> string \<Rightarrow> string \<Rightarrow> mined" where
  "mine_xa_cfg os path label0 =
     (let label = (if label0 \<noteq> [] then label0 else path) in
      case os_open os path of
        Inl why \<Rightarrow> mined_init\<lparr>mi_notes := [error label (''cannot read XA cfg '' @ path @ '': '' @ why)]\<rparr>
      | Inr text \<Rightarrow> mine_lines (map (\<lambda>(k, l). (rstrip_char CHR 0x0D l, label @ '':'' @ show_int (int k)))
                                (enumerate 1 (py_split CHR ''\<newline>'' text))))"

text \<open>One XA file of the choice: the notes of a path that cannot be used, and what is mined.\<close>

definition mine_choice ::
  "os_env \<Rightarrow> string \<Rightarrow> (string \<rightharpoonup> string) \<Rightarrow> string \<Rightarrow> choose_engine \<Rightarrow> string \<Rightarrow> diag list \<times> mined list" where
  "mine_choice os cwd env dir ch name =
     (let (full, missing) = expand_path os env name in
      if missing \<noteq> [] then
        ([error (ch_origin ch) (''choose: XA cfg '' @ name @ '': environment variable '' @
            py_join '', '' (sorted_set missing) @ '' is not set'')], [])
      else
        (let (path, tried, ns) = find_path os cwd full dir (ch_origin ch) in
         case path of
           None \<Rightarrow> (ns @ [error (ch_origin ch) (''choose: XA cfg '' @ name @ '' not found (tried '' @
                           py_join '', '' tried @ '')'')], [])
         | Some f \<Rightarrow> (ns, [mine_xa_cfg os f (label_of os cwd f)])))"

definition mine :: "os_env \<Rightarrow> string \<Rightarrow> (string \<rightharpoonup> string) \<Rightarrow> parser \<Rightarrow> parser" where
  "mine os cwd env p =
     (let rs = (case ac_choose (ps_cfg p) of
            None \<Rightarrow> [] | Some ch \<Rightarrow> map (mine_choice os cwd env (ps_choose_dir p) ch) (ch_cfgs ch));
          found = concat (map snd rs) @ (if ps_xa_lines p \<noteq> [] then [mine_lines (ps_xa_lines p)] else []);
          xa_case = fold (\<lambda>d c. case mi_case d of Some m \<Rightarrow> Some m | None \<Rightarrow> c) found None in
      on_cfg (\<lambda>cfg. cfg\<lparr>ac_xa := [(''probe_v'', XaProbes (concat (map mi_probe_v found))),
                              (''probe_i'', XaProbes (concat (map mi_probe_i found))), (''case'', XaCase xa_case)]\<rparr>)
        (say (concat (map fst rs) @ concat (map mi_notes found)) p))"

definition check_libraries :: "ams_config \<Rightarrow> diag list" where
  "check_libraries cfg =
     (let named = filter (\<lambda>r. case ir_library r of Some l \<Rightarrow> l \<noteq> [] | None \<Rightarrow> False) (ac_rules cfg);
          libs = sorted_set (List.map_filter ir_library named) in
      case (named, libs) of
        (r # _, _ # _ # _) \<Rightarrow> [warning (ir_origin r) (''rules name several libraries ('' @ py_join '', '' libs @
            ''); library= is ignored, so their cell=/port= selectors overlap and the last matching rule wins'')]
      | _ \<Rightarrow> [])"

section \<open>The control files\<close>

definition find_ini :: "os_env \<Rightarrow> string \<Rightarrow> (string \<rightharpoonup> string) \<Rightarrow> string option" where
  "find_ini os cwd env =
     List.find (os_isfile os) (map (\<lambda>d. path_join d INI_NAME)
       (cwd # (case env ''HOME'' of Some h \<Rightarrow> if h \<noteq> [] then [h] else [] | None \<Rightarrow> [])))"

text \<open>One file of \<open>parse_control\<close>: the real paths seen, the labels read, the parser.\<close>

definition control_file ::
  "os_env \<Rightarrow> string \<Rightarrow> (string \<rightharpoonup> string) \<Rightarrow> string \<Rightarrow> string list \<times> string list \<times> parser \<Rightarrow> string list \<times> string list \<times> parser"
where
  "control_file os cwd env name = (\<lambda>(seen, done', p).
     let path = (if isabs name then name else normpath (path_join cwd name)); real = os_realpath os path in
     if real \<in> set seen
       then (seen, done', say [mk_note (label_of os cwd path) (''control file '' @ name @ '' is read once'')] p)
     else if \<not> os_isfile os path
       then (real # seen, done', say [error name (''mixed-signal control file '' @ path @ '' not found'')] p)
     else
       (let p1 = read_file os cwd env 0 path [] p in
        (real # seen,
         if length (ac_files (ps_cfg p)) < length (ac_files (ps_cfg p1)) then done' @ [label_of os cwd path] else done', p1)))"

definition parser_init :: "string \<Rightarrow> parser" where
  "parser_init cwd = \<lparr>ps_cfg = mk_config, ps_xa_lines = [], ps_choose_dir = cwd, ps_bus_origin = [], ps_stack = []\<rparr>"

definition parse_control :: "os_env \<Rightarrow> string list \<Rightarrow> string \<Rightarrow> (string \<rightharpoonup> string) \<Rightarrow> ams_config" where
  "parse_control os paths cwd env =
     (if paths = [] then cfg_notes [error [] ''no mixed-signal control file given''] mk_config
      else
        (let (_, done', p) = fold (control_file os cwd env) paths ([], [], parser_init cwd);
             p1 = say (if length done' > 1
                       then [mk_note (last done') (''[MSV-MC-FRO] mixed-signal commands were read in this order: '' @
                               py_join '', '' done' @ '' (a command read later wins)'')] else []) p;
             p2 = say (if done' \<noteq> [] \<and> ac_choose (ps_cfg p1) = None
                       then [error (last done') ''the mixed-signal control file must contain at least choose''] else []) p1;
             p3 = mine os cwd env p2
         in cfg_notes (check_libraries (ps_cfg p3)) (ps_cfg p3)))"

end
