(* ===== verification/IeResolve.thy ===== *)
theory IeResolve
  imports IeCheck
begin

text \<open>
  The second part of \<open>vamos/ams/rules.py\<close>: which rules match a node, and the levels they give it.
  \<open>resolve_detail\<close> goes through the rules in file order with the counters, notes and merged values as
  its state; the levels are then read from what was merged.
\<close>

section \<open>Matching\<close>

record port5 =
  p_cell :: string
  p_inst :: string
  p_spice :: string
  p_bit :: string
  p_port :: string

definition node_matches :: "string \<Rightarrow> string list \<Rightarrow> bool \<Rightarrow> bool" where
  "node_matches pattern nms cs =
     (case nms of
        [] \<Rightarrow> False
      | canonical # _ \<Rightarrow>
          if has_wildcard pattern then glob_match pattern canonical cs
          else list_ex (\<lambda>n. n \<noteq> [] \<and> glob_match pattern n cs) nms)"

definition port_match :: "string \<Rightarrow> port5 \<Rightarrow> bool \<Rightarrow> bool" where
  "port_match pattern p cs = list_ex (\<lambda>x. x \<noteq> [] \<and> glob_match pattern x cs) [p_spice p, p_bit p, p_port p]"

definition except_of :: "ie_rule \<Rightarrow> string option" where
  "except_of rule = (case map_of (ir_params rule) ''except_port'' of
     Some e \<Rightarrow> if e \<noteq> [] then Some e else None | None \<Rightarrow> None)"

definition opt_glob :: "string option \<Rightarrow> string \<Rightarrow> bool \<Rightarrow> bool" where
  "opt_glob g x cs = (case g of None \<Rightarrow> True | Some p \<Rightarrow> glob_match p x cs)"

definition takes_port :: "ie_rule \<Rightarrow> string \<Rightarrow> bool \<Rightarrow> port5 \<Rightarrow> bool" where
  "takes_port rule portpat cs p \<longleftrightarrow>
     opt_glob (ir_cell rule) (p_cell p) cs \<and> opt_glob (ir_inst rule) (p_inst p) cs \<and>
     port_match portpat p cs \<and>
     (case except_of rule of None \<Rightarrow> True | Some e \<Rightarrow> \<not> port_match e p cs)"

text \<open>\<open>None\<close> where the rule does not match, else the cut ports it selects.\<close>

definition select_ports :: "ie_rule \<Rightarrow> string list \<Rightarrow> port5 list \<Rightarrow> bool \<Rightarrow> port5 list option" where
  "select_ports rule nms ports cs =
     (case ir_node rule of
        Some n \<Rightarrow> if node_matches n nms cs then Some [] else None
      | None \<Rightarrow>
          (case ir_port rule of
             None \<Rightarrow> None
           | Some pat \<Rightarrow>
               if ir_cell rule = None \<and> ir_inst rule = None then None
               else (let out = filter (takes_port rule pat cs) ports in if out = [] then None else Some out)))"

text \<open>
  The net a rule's supply key names: \<open>None\<close> for no such key, the empty text where none can be formed;
  with the problem of a pattern that several ports match.
\<close>

definition supply_name ::
  "ie_rule \<Rightarrow> string \<Rightarrow> port5 list \<Rightarrow> (string \<Rightarrow> string list) option \<Rightarrow> bool \<Rightarrow> string option \<times> string list"
where
  "supply_name rule which sel subckt_ports cs =
     (case map_of (ir_params rule) which of
        Some v \<Rightarrow> (Some v, [])
      | None \<Rightarrow>
     (case map_of (ir_params rule) (which @ ''_port'') of
        None \<Rightarrow> (None, [])
      | Some port \<Rightarrow>
     (case sel of
        [] \<Rightarrow> (Some [], [])
      | p # _ \<Rightarrow>
          (let inst = p_inst p in
           if py_startswith port ''../'' then
             (if CHR ''.'' \<notin> set inst then (Some [], [])
              else (Some (before_last CHR ''.'' inst @ ''.'' @ drop 3 port), []))
           else if has_wildcard port then
             (let nms = (case subckt_ports of None \<Rightarrow> [] | Some f \<Rightarrow> f inst);
                  hits = filter (\<lambda>x. glob_match port x cs) nms in
              case hits of
                [] \<Rightarrow> (Some [], [])
              | [h] \<Rightarrow> (Some (inst @ ''.'' @ h), [])
              | _ \<Rightarrow> (Some [], [which @ ''_port='' @ port @ '' matches '' @ show_int (int (length hits)) @
                             '' ports of '' @ inst @ '' ('' @ py_join '', '' hits @ ''); name one'']))
           else (Some (inst @ ''.'' @ port), [])))))"

definition record_seen :: "string list \<Rightarrow> rule_hits \<Rightarrow> rule_hits" where
  "record_seen nms h = (case nms of n # _ \<Rightarrow> if n \<noteq> [] then mark (SEEN @ n) h else h | [] \<Rightarrow> h)"

definition indexed :: "string \<Rightarrow> nat \<Rightarrow> string" where
  "indexed key i = key @ ''#'' @ show_int (int i)"

section \<open>The roles\<close>

definition ROLE_KINDS :: "role \<Rightarrow> string list" where
  "ROLE_KINDS r = (case r of D2A \<Rightarrow> [''d2a''] | POWERNET \<Rightarrow> [''d2a''] | A2D \<Rightarrow> [''a2d'']
     | BIDIR \<Rightarrow> [''a2d'', ''d2a''] | _ \<Rightarrow> [])"

definition MARK_ONLY :: "role list" where "MARK_ONLY = [DISABLED, REMOVED]"

definition kinds_of :: "role \<Rightarrow> string list" where
  "kinds_of r = ROLE_KINDS r"

definition role_kinds :: "role option \<Rightarrow> string list" where
  "role_kinds r = (case r of None \<Rightarrow> [''a2d'', ''d2a''] | Some x \<Rightarrow> ROLE_KINDS x)"

definition role_marks :: "role option \<Rightarrow> string list" where
  "role_marks r = (case r of Some x \<Rightarrow> if x \<in> set MARK_ONLY then [''a2d'', ''d2a''] else role_kinds r
                           | None \<Rightarrow> role_kinds r)"

section \<open>Supplies\<close>

text \<open>What \<open>dc_of\<close> returns beside its status.\<close>

datatype dc_value = DFloat pyfloat | DText string | DNone

type_synonym dc_of = "string \<Rightarrow> string \<times> dc_value"

definition value_or :: "dc_value \<Rightarrow> string \<Rightarrow> string" where
  "value_or v dflt = (case v of
     DFloat x \<Rightarrow> if fnonzero x then float_repr x else dflt
   | DText t \<Rightarrow> if t \<noteq> [] then t else dflt
   | DNone \<Rightarrow> dflt)"

text \<open>The state of the loop over \<open>vdd\<close> and \<open>vss\<close> of one rule.\<close>

record sup_state =
  ss_hits :: rule_hits
  ss_notes :: "diag list"
  ss_ok :: bool
  ss_sup :: "(string \<times> pyfloat) list"

definition unevaluable_text :: "ie_rule \<Rightarrow> string \<Rightarrow> string \<Rightarrow> dc_value \<Rightarrow> string" where
  "unevaluable_text rule which name volts = ir_kind rule @ '': '' @ which @ ''='' @ name @ '' is held by '' @
     value_or volts ''a V source'' @ '', which cannot be evaluated, so it gives no level; give the levels as '' @
     ''values (hiv=/lov=, loth=/hith=), or name a constant supply''"

definition not_constant_text :: "ie_rule \<Rightarrow> string \<Rightarrow> string \<Rightarrow> string" where
  "not_constant_text rule which name = ir_kind rule @ '': '' @ which @ ''='' @ name @
     '' is not a constant supply; dynamic supplies are not supported in v1''"

definition supply_found ::
  "ie_rule \<Rightarrow> nat \<Rightarrow> bool \<Rightarrow> string \<Rightarrow> string \<Rightarrow> string \<times> dc_value \<Rightarrow> sup_state \<Rightarrow> sup_state" where
  "supply_found rule i applies which name found st =
     (let (status, volts) = found; key = indexed which i; fresh = \<not> hit key (ss_hits st);
          st1 = st\<lparr>ss_hits := mark key (ss_hits st)\<rparr>;
          fail = (\<lambda>msg. st1\<lparr>ss_notes := ss_notes st1 @ (if fresh then [error (ir_origin rule) msg] else []),
                         ss_ok := False\<rparr>) in
      if \<not> applies then st1
      else if status = ''unevaluable'' then fail (unevaluable_text rule which name volts)
      else (case volts of
              DFloat v \<Rightarrow> if status = ''const'' then st1\<lparr>ss_sup := dict_set which v (ss_sup st1)\<rparr>
                          else fail (not_constant_text rule which name)
            | _ \<Rightarrow> fail (not_constant_text rule which name)))"

definition supply_step ::
  "dc_of \<Rightarrow> (string \<Rightarrow> string list) option \<Rightarrow> bool \<Rightarrow> ie_rule \<Rightarrow> nat \<Rightarrow> port5 list \<Rightarrow> bool \<Rightarrow>
   string \<Rightarrow> sup_state \<Rightarrow> sup_state" where
  "supply_step dc subckt_ports cs rule i sel applies which st =
     (case supply_name rule which sel subckt_ports cs of
        (None, _) \<Rightarrow> st
      | (Some name, problem # _) \<Rightarrow>
          (let key = indexed which i in
           st\<lparr>ss_notes := ss_notes st @ (if hit key (ss_hits st) then []
                             else [error (ir_origin rule) (ir_kind rule @ '': '' @ problem)]),
              ss_hits := mark key (ss_hits st), ss_ok := False\<rparr>)
      | (Some name, []) \<Rightarrow>
          if name = [] then st\<lparr>ss_ok := False\<rparr>
          else if fst (dc name) = ''missing'' then st\<lparr>ss_ok := False\<rparr>
          else supply_found rule i applies which name (dc name) st)"

section \<open>The loop over the rules\<close>

type_synonym merged = "string \<rightharpoonup> string \<times> nat"
type_synonym supplies = "string \<rightharpoonup> pyfloat \<times> nat"

record rule_state =
  rs_hits :: rule_hits
  rs_notes :: "diag list"
  rs_applied :: "nat list"
  rs_aliases :: "string list"
  rs_merged :: "string \<Rightarrow> merged"
  rs_supply :: "string \<Rightarrow> supplies"

definition merge_key :: "nat \<Rightarrow> string \<times> string \<Rightarrow> merged \<Rightarrow> merged" where
  "merge_key i = (\<lambda>(k, v) m.
     if k \<in> set NOT_LEVELS then m
     else if k = ''rf_time'' then m(''rise_time'' \<mapsto> (v, i), ''fall_time'' \<mapsto> (v, i))
     else if k = ''delay'' then m(''rise_delay'' \<mapsto> (v, i), ''fall_delay'' \<mapsto> (v, i))
     else m(k \<mapsto> (v, i)))"

definition merge_rule :: "nat \<Rightarrow> ie_rule \<Rightarrow> merged \<Rightarrow> merged" where
  "merge_rule i rule m = fold (merge_key i) (ir_params rule) m"

definition merge_supplies :: "nat \<Rightarrow> (string \<times> pyfloat) list \<Rightarrow> supplies \<Rightarrow> supplies" where
  "merge_supplies i sups s = fold (\<lambda>(which, v) s. s(which \<mapsto> (v, i))) sups s"

definition new_alias :: "ie_rule \<Rightarrow> string \<Rightarrow> bool \<Rightarrow> string list \<Rightarrow> string list" where
  "new_alias rule canonical cs aliases = (case ir_node rule of
     Some n \<Rightarrow> if \<not> has_wildcard n \<and> n \<notin> set aliases \<and> \<not> glob_match n canonical cs then [n] else []
   | None \<Rightarrow> [])"

record rule_env =
  re_names :: "string list"
  re_ports :: "port5 list"
  re_cs :: bool
  re_dc :: dc_of
  re_subckt :: "(string \<Rightarrow> string list) option"
  re_kinds :: "string list"
  re_marks :: "string list"

definition canonical_of :: "string list \<Rightarrow> string" where
  "canonical_of nms = (case nms of n # _ \<Rightarrow> n | [] \<Rightarrow> [])"

definition supplies_of :: "rule_env \<Rightarrow> nat \<Rightarrow> ie_rule \<Rightarrow> port5 list \<Rightarrow> rule_hits \<Rightarrow> diag list \<Rightarrow> sup_state" where
  "supplies_of env i rule sel h ns =
     fold (supply_step (re_dc env) (re_subckt env) (re_cs env) rule i sel (direction_of rule \<in> set (re_kinds env)))
       [''vdd'', ''vss''] \<lparr>ss_hits = h, ss_notes = ns, ss_ok = True, ss_sup = []\<rparr>"

definition apply_rule :: "rule_env \<Rightarrow> nat \<Rightarrow> ie_rule \<Rightarrow> port5 list \<Rightarrow> rule_state \<Rightarrow> rule_state" where
  "apply_rule env i rule sel s =
     (let rk = direction_of rule; applies = rk \<in> set (re_kinds env);
          st = supplies_of env i rule sel (mark (indexed ''rule'' i) (rs_hits s)) (rs_notes s);
          s1 = s\<lparr>rs_hits := ss_hits st, rs_notes := ss_notes st,
                 rs_aliases := rs_aliases s @ (if applies
                    then new_alias rule (canonical_of (re_names env)) (re_cs env) (rs_aliases s) else [])\<rparr> in
      if \<not> ss_ok st \<or> \<not> applies then s1
      else s1\<lparr>rs_applied := rs_applied s1 @ [i],
              rs_supply := (rs_supply s1)(rk := merge_supplies i (ss_sup st) (rs_supply s1 rk)),
              rs_merged := (rs_merged s1)(rk := merge_rule i rule (rs_merged s1 rk))\<rparr>)"

definition rule_step :: "rule_env \<Rightarrow> nat \<times> ie_rule \<Rightarrow> rule_state \<Rightarrow> rule_state" where
  "rule_step env = (\<lambda>(i, rule) s.
     if direction_of rule \<notin> set (re_marks env) then s
     else (case select_ports rule (re_names env) (re_ports env) (re_cs env) of
             None \<Rightarrow> s | Some sel \<Rightarrow> apply_rule env i rule sel s))"

definition see_cells :: "port5 list \<Rightarrow> rule_hits \<Rightarrow> rule_hits" where
  "see_cells ports h = fold (\<lambda>p h. if p_cell p \<noteq> [] \<and> \<not> hit (SEEN_CELL @ p_cell p) h
     then mark (SEEN_CELL @ p_cell p) h else h) ports h"

definition rules_loop :: "rule_env \<Rightarrow> ie_rule list \<Rightarrow> rule_hits \<Rightarrow> rule_state" where
  "rules_loop env rules h = fold (rule_step env) (enumerate 0 rules)
     \<lparr>rs_hits = h, rs_notes = [], rs_applied = [], rs_aliases = [], rs_merged = (\<lambda>_. Map.empty),
      rs_supply = (\<lambda>_. Map.empty)\<rparr>"

section \<open>The levels\<close>

type_synonym origins = "(string \<times> string) list"

text \<open>\<open>vref\<close>: the two voltages and the warning of the fall-back.\<close>

type_synonym vref = "pyfloat \<times> pyfloat \<times> diag option"

record level_ref =
  lr_vss :: pyfloat
  lr_vdd :: pyfloat
  lr_from_vref :: bool

definition origin_of :: "ie_rule list \<Rightarrow> nat \<Rightarrow> string" where
  "origin_of rules i = ir_origin (rules ! i)"

definition reference :: "ie_rule list \<Rightarrow> string \<Rightarrow> supplies \<Rightarrow> vref \<Rightarrow> origins \<Rightarrow> level_ref \<times> origins" where
  "reference rules kind sups vr og =
     (let og1 = (case sups ''vdd'' of Some (_, i) \<Rightarrow> dict_set (kind @ ''.vdd'') (origin_of rules i) og | None \<Rightarrow> og);
          og2 = (case sups ''vss'' of Some (_, i) \<Rightarrow> dict_set (kind @ ''.vss'') (origin_of rules i) og1 | None \<Rightarrow> og1)
      in (\<lparr>lr_vss = (case sups ''vss'' of Some (v, _) \<Rightarrow> v | None \<Rightarrow> fst vr),
           lr_vdd = (case sups ''vdd'' of Some (v, _) \<Rightarrow> v | None \<Rightarrow> fst (snd vr)),
           lr_from_vref = (sups ''vdd'' = None)\<rparr>, og2))"

text \<open>A level: the default, an absolute value, or a fraction of the span.\<close>

definition level_value :: "level_ref \<Rightarrow> pyfloat \<times> bool \<Rightarrow> pyfloat" where
  "level_value lr = (\<lambda>(v, pct). if pct then fadd (lr_vss lr) (fmul v (fsub (lr_vdd lr) (lr_vss lr))) else v)"

definition read_level ::
  "ie_rule list \<Rightarrow> string \<Rightarrow> merged \<Rightarrow> level_ref \<Rightarrow> string \<Rightarrow> pyfloat \<Rightarrow> bool \<Rightarrow> origins \<times> bool \<Rightarrow>
   (pyfloat \<times> origins \<times> bool) valued" where
  "read_level rules kind m lr k dflt uses_vdd = (\<lambda>(og, used).
     case m k of
       None \<Rightarrow> Inr (dflt, og, used \<or> (uses_vdd \<and> lr_from_vref lr))
     | Some (raw, i) \<Rightarrow>
         rbind (parse_level raw) (\<lambda>(v, pct).
           Inr (level_value lr (v, pct), dict_set (kind @ ''.'' @ k) (origin_of rules i) og,
                used \<or> (pct \<and> lr_from_vref lr))))"

definition ramp_time :: "pyfloat \<Rightarrow> pyfloat" where
  "ramp_time t = (if flt t MIN_RAMP then MIN_RAMP else t)"

definition read_time ::
  "ie_rule list \<Rightarrow> merged \<Rightarrow> string \<Rightarrow> pyfloat \<Rightarrow> bool \<Rightarrow> origins \<Rightarrow> (pyfloat \<times> origins) valued" where
  "read_time rules m k dflt ramp og =
     (case m k of
        None \<Rightarrow> Inr (dflt, og)
      | Some (raw, i) \<Rightarrow>
          rbind (parse_time raw) (\<lambda>t. Inr (if ramp then ramp_time t else t,
            dict_set (''d2a.'' @ k) (origin_of rules i) og)))"

definition read_x2v :: "ie_rule list \<Rightarrow> merged \<Rightarrow> d2a_ie \<times> origins \<Rightarrow> (d2a_ie \<times> origins) valued" where
  "read_x2v rules m = (\<lambda>(ie, og). case m ''x2v'' of
     None \<Rightarrow> Inr (ie, og)
   | Some (raw, i) \<Rightarrow> rbind (py_int (py_strip raw)) (\<lambda>n.
       Inr (ie\<lparr>d_x2v := n\<rparr>, dict_set ''d2a.x2v'' (origin_of rules i) og)))"

definition read_powernet :: "ie_rule list \<Rightarrow> merged \<Rightarrow> d2a_ie \<times> origins \<Rightarrow> d2a_ie \<times> origins" where
  "read_powernet rules m = (\<lambda>(ie, og). case m ''powernet'' of
     None \<Rightarrow> (ie, og)
   | Some (_, i) \<Rightarrow> (ie\<lparr>d_powernet := True\<rparr>, dict_set ''d2a.powernet'' (origin_of rules i) og))"

definition read_ohms :: "ie_rule list \<Rightarrow> merged \<Rightarrow> d2a_ie \<times> origins \<Rightarrow> (d2a_ie \<times> origins) valued" where
  "read_ohms rules m = (\<lambda>(ie, og). case m ''r'' of
     None \<Rightarrow> Inr (ie, og)
   | Some (raw, i) \<Rightarrow> rbind (number_of raw) (\<lambda>r.
       Inr (ie\<lparr>d_r_series := r, d_weak_frac := f1\<rparr>, dict_set ''map_by_node.r'' (origin_of rules i) og)))"

definition d2a_levels ::
  "ie_rule list \<Rightarrow> merged \<Rightarrow> supplies \<Rightarrow> vref \<Rightarrow> origins \<Rightarrow> (d2a_ie \<times> origins \<times> bool) valued" where
  "d2a_levels rules m sups vr og0 =
     (let (lr, og1) = reference rules ''d2a'' sups vr og0; ie0 = mk_d2a f0 f0 in
      rbind (read_level rules ''d2a'' m lr ''hiv'' (lr_vdd lr) True (og1, False)) (\<lambda>(hiv, og2, u1).
      rbind (read_level rules ''d2a'' m lr ''lov'' (lr_vss lr) False (og2, u1)) (\<lambda>(lov, og3, u2).
      rbind (read_time rules m ''rise_time'' (d_rise ie0) True og3) (\<lambda>(rise, og4).
      rbind (read_time rules m ''fall_time'' (d_fall ie0) True og4) (\<lambda>(fall, og5).
      rbind (read_time rules m ''rise_delay'' f0 False og5) (\<lambda>(dr, og6).
      rbind (read_time rules m ''fall_delay'' f0 False og6) (\<lambda>(df, og7).
      rbind (read_x2v rules m (ie0\<lparr>d_hiv := hiv, d_lov := lov, d_rise := rise, d_fall := fall,
                                  d_delay_rise := dr, d_delay_fall := df\<rparr>, og7)) (\<lambda>io.
      rbind (read_ohms rules m (read_powernet rules m io)) (\<lambda>(ie, og8). Inr (ie, og8, u2))))))))))"

text \<open>The thresholds: both at the middle of the span unless a rule gives them.\<close>

definition crossed :: "string \<Rightarrow> a2d_ie \<Rightarrow> origins \<Rightarrow> (diag list) valued" where
  "crossed canonical ie og =
     (if \<not> flt (a_hith ie) (a_loth ie) then Inr []
      else (case (fmt (a_loth ie), fmt (a_hith ie)) of
        (Inr lo, Inr hi) \<Rightarrow>
          (let wher = List.map_filter (map_of og) [''a2d.loth'', ''a2d.hith''] in
           Inr [error (if wher \<noteq> [] then last wher else canonical)
                  (''a2d on '' @ canonical @ '': loth='' @ lo @ '' V is above hith='' @ hi @ '' V'')])
      | (Inl _, _) \<Rightarrow> Inl (''cannot print '' @ float_repr (a_loth ie) @ '' into a netlist'')
      | (_, Inl _) \<Rightarrow> Inl (''cannot print '' @ float_repr (a_hith ie) @ '' into a netlist'')))"

definition read_a2d_extra ::
  "ie_rule list \<Rightarrow> merged \<Rightarrow> a2d_ie \<times> origins \<Rightarrow> (a2d_ie \<times> origins) valued" where
  "read_a2d_extra rules m io =
     rbind (case m ''xband'' of None \<Rightarrow> Inr io
            | Some (raw, i) \<Rightarrow> rbind (number_of raw) (\<lambda>x.
                Inr ((fst io)\<lparr>a_xband := Some x\<rparr>, dict_set ''a2d.xband'' (origin_of rules i) (snd io)))) (\<lambda>io1.
     rbind (case m ''midv_time'' of None \<Rightarrow> Inr io1
            | Some (raw, i) \<Rightarrow> rbind (parse_time raw) (\<lambda>x.
                Inr ((fst io1)\<lparr>a_midv_time := Some x\<rparr>, dict_set ''a2d.midv_time'' (origin_of rules i) (snd io1)))) (\<lambda>io2.
     Inr (case m ''midv_logic'' of None \<Rightarrow> io2
          | Some (raw, i) \<Rightarrow> ((fst io2)\<lparr>a_midv_logic := py_upper (py_strip raw)\<rparr>,
              dict_set ''a2d.midv_logic'' (origin_of rules i) (snd io2)))))"

definition a2d_levels ::
  "ie_rule list \<Rightarrow> merged \<Rightarrow> supplies \<Rightarrow> vref \<Rightarrow> string \<Rightarrow> origins \<Rightarrow>
   (a2d_ie \<times> diag list \<times> origins \<times> bool) valued" where
  "a2d_levels rules m sups vr canonical og0 =
     (let (lr, og1) = reference rules ''a2d'' sups vr og0;
          mid = fadd (lr_vss lr) (fmul (float_dec ''0.5'' 0) (fsub (lr_vdd lr) (lr_vss lr))) in
      rbind (read_level rules ''a2d'' m lr ''loth'' mid True (og1, False)) (\<lambda>(loth, og2, u1).
      rbind (read_level rules ''a2d'' m lr ''hith'' mid True (og2, u1)) (\<lambda>(hith, og3, u2).
      rbind (crossed canonical (mk_a2d loth hith) og3) (\<lambda>ns.
      rbind (read_a2d_extra rules m (mk_a2d loth hith, og3)) (\<lambda>(ie, og4).
      Inr (ie, ns, og4, u2))))))"

section \<open>The resolution\<close>

record resolution =
  rn_d2a :: d2a_ie
  rn_a2d :: a2d_ie
  rn_notes :: "diag list"
  rn_rules :: "nat list"
  rn_origins :: origins
  rn_aliases :: "string list"
  rn_used_ref :: bool

definition ideal_note :: "ams_config \<Rightarrow> role option \<Rightarrow> string \<Rightarrow> string \<times> nat \<Rightarrow> diag" where
  "ideal_note cfg r canonical = (\<lambda>(raw, i). warning (origin_of (ac_rules cfg) i)
     (''map_by_node r='' @ raw @ '' has no effect on '' @ canonical @ '': a '' @
      (if r = Some POWERNET then ''supply net'' else ''d2a powernet node'') @
      '' is an ideal source with no series resistance''))"

definition resolve_env ::
  "ams_config \<Rightarrow> string list \<Rightarrow> port5 list \<Rightarrow> dc_of \<Rightarrow> role option \<Rightarrow> (string \<Rightarrow> string list) option \<Rightarrow> rule_env"
where
  "resolve_env cfg nms ports dc r subckt =
     \<lparr>re_names = nms, re_ports = ports, re_cs = case_sensitive cfg, re_dc = dc, re_subckt = subckt,
      re_kinds = role_kinds r, re_marks = role_marks r\<rparr>"

definition resolve_rules ::
  "ams_config \<Rightarrow> string list \<Rightarrow> port5 list \<Rightarrow> dc_of \<Rightarrow> rule_hits \<Rightarrow> role option \<Rightarrow>
   (string \<Rightarrow> string list) option \<Rightarrow> rule_state" where
  "resolve_rules cfg nms ports dc h r subckt =
     rules_loop (resolve_env cfg nms ports dc r subckt) (ac_rules cfg) (see_cells ports (record_seen nms h))"

text \<open>The warning of a \<open>map_by_node\<close> on an ideal source, once per command.\<close>

definition note_ideal ::
  "ams_config \<Rightarrow> role option \<Rightarrow> string \<Rightarrow> (string \<times> nat) option \<Rightarrow> resolution \<times> rule_hits \<Rightarrow> resolution \<times> rule_hits"
where
  "note_ideal cfg r canonical rser = (\<lambda>(res, h).
     case rser of
       None \<Rightarrow> (res, h)
     | Some (raw, i) \<Rightarrow>
         (let key = indexed ''map_by_node_ideal'' i;
              ideal = (r = Some POWERNET \<or> d_powernet (rn_d2a res) \<and> (r = Some D2A \<or> r = None)) in
          if ''d2a'' \<in> set (role_kinds r) \<and> ideal \<and> \<not> hit key h
          then (res\<lparr>rn_notes := rn_notes res @ [ideal_note cfg r canonical (raw, i)]\<rparr>, mark key h)
          else (res, h)))"

definition resolve_levels ::
  "ams_config \<Rightarrow> vref \<Rightarrow> string list \<Rightarrow> string \<Rightarrow> rule_state \<Rightarrow> resolution valued" where
  "resolve_levels cfg vr kinds canonical s =
     (let rules = ac_rules cfg in
      rbind (d2a_levels rules (rs_merged s ''d2a'') (rs_supply s ''d2a'') vr []) (\<lambda>(d, og1, ud).
      rbind (a2d_levels rules (rs_merged s ''a2d'') (rs_supply s ''a2d'') vr canonical og1) (\<lambda>(a, ns, og2, ua).
        let used = ud \<and> ''d2a'' \<in> set kinds \<or> ua \<and> ''a2d'' \<in> set kinds;
            warn = (if used then (case snd (snd vr) of Some n \<Rightarrow> [n] | None \<Rightarrow> []) else []) in
        Inr \<lparr>rn_d2a = d, rn_a2d = a, rn_notes = rs_notes s @ ns @ warn, rn_rules = rs_applied s,
             rn_origins = og2, rn_aliases = rs_aliases s, rn_used_ref = used\<rparr>)))"

definition resolve_detail ::
  "ams_config \<Rightarrow> string list \<Rightarrow> port5 list \<Rightarrow> vref \<Rightarrow> dc_of \<Rightarrow> rule_hits \<Rightarrow> role option \<Rightarrow>
   (string \<Rightarrow> string list) option \<Rightarrow> (resolution \<times> rule_hits) valued" where
  "resolve_detail cfg nms ports vr dc h r subckt =
     (let s = resolve_rules cfg nms ports dc h r subckt; canonical = canonical_of nms in
      rbind (resolve_levels cfg vr (role_kinds r) canonical s) (\<lambda>res.
        Inr (note_ideal cfg r canonical (rs_merged s ''d2a'' ''r'') (res, rs_hits s))))"

definition resolve ::
  "ams_config \<Rightarrow> string list \<Rightarrow> port5 list \<Rightarrow> vref \<Rightarrow> dc_of \<Rightarrow> rule_hits \<Rightarrow> role option \<Rightarrow>
   ((d2a_ie \<times> a2d_ie \<times> diag list) \<times> rule_hits) valued" where
  "resolve cfg nms ports vr dc h r =
     rbind (resolve_detail cfg nms ports vr dc h r None) (\<lambda>(res, h').
       Inr ((rn_d2a res, rn_a2d res, rn_notes res), h'))"

end
