(* ===== verification/IeReport.thy ===== *)
theory IeReport
  imports IeResolve
begin

text \<open>
  The third part of \<open>vamos/ams/rules.py\<close>: the windows of \<open>midv_time\<close>, the commands \<open>remove_d2a\<close>,
  \<open>disable_ie\<close> and \<open>ie_reference_voltage\<close>, the diagnostics of selectors that nothing matched, and the
  control-file lines of the interface-element report.
\<close>

section \<open>Windows\<close>

definition midv_windows :: "a2d_ie \<Rightarrow> (pyfloat \<times> pyfloat) \<times> (pyfloat \<times> pyfloat)" where
  "midv_windows ie =
     (let lo = a_loth ie; hi = a_hith ie in
      case a_xband ie of
        Some x \<Rightarrow> if fnonzero x then (let d = fdiv (fsub hi lo) x in ((lo, fsub hi d), (fadd lo d, hi)))
                  else ((lo, hi), (lo, hi))
      | None \<Rightarrow> ((lo, hi), (lo, hi)))"

section \<open>Removed and disabled nodes, references\<close>

definition removal ::
  "ams_config \<Rightarrow> string list \<Rightarrow> rule_hits \<Rightarrow> (bool \<times> pyfloat option) \<times> rule_hits" where
  "removal cfg nms h =
     fold (\<lambda>(i, sel, dc, _) (out, h).
             if node_matches sel nms (case_sensitive cfg)
             then ((True, dc), mark (indexed ''remove_d2a'' i) h) else (out, h))
       (enumerate 0 (ac_remove_d2a cfg)) ((False, None), record_seen nms h)"

definition disabled :: "ams_config \<Rightarrow> string list \<Rightarrow> rule_hits \<Rightarrow> bool \<times> rule_hits" where
  "disabled cfg nms h =
     fold (\<lambda>(i, sel, _) (found, h).
             if node_matches sel nms (case_sensitive cfg)
             then (True, mark (indexed ''disable_ie'' i) h) else (found, h))
       (enumerate 0 (ac_disable_ie cfg)) (False, record_seen nms h)"

definition is_skip :: "pyfloat option \<Rightarrow> bool" where
  "is_skip volts \<longleftrightarrow> volts = Some NaN"

definition ref_nodes :: "ams_config \<Rightarrow> (string \<times> pyfloat option \<times> nat) list \<times> string list" where
  "ref_nodes cfg =
     fold (\<lambda>(i, n, v, _) (entries, skips).
             if is_skip v then (entries, skips @ [n]) else (entries @ [(n, v, i)], skips))
       (enumerate 0 (ac_ref_voltages cfg)) ([], [])"

section \<open>Option Target Not Found\<close>

definition first_spelling :: "string list \<Rightarrow> (string \<times> string) list" where
  "first_spelling cands = fold (\<lambda>c low. if py_lower c \<in> fst ` set low then low else low @ [(py_lower c, c)]) cands []"

definition nearest :: "string \<Rightarrow> string list \<Rightarrow> nat \<Rightarrow> string list" where
  "nearest target cands n =
     (if cands = [] then []
      else (let t = py_lower (filter (\<lambda>c. c \<noteq> CHR ''*'') target);
                low = first_spelling cands;
                near = get_close_matches t (map fst low) n (1 / 2);
                common = (\<lambda>c. common_run {} c t);
                near' = (if near \<noteq> [] then near
                         else take n (sort_key (\<lambda>c. - int (common c)) (sort (map fst low)))) in
            List.map_filter (map_of low) near'))"

text \<open>The names the counters have under a prefix, and the pools that a message suggests from.\<close>

definition seen_under :: "string \<Rightarrow> rule_hits \<Rightarrow> string list" where
  "seen_under prefix h = sort (map (drop (length prefix)) (filter (\<lambda>k. py_startswith k prefix) (map fst h)))"

record pools =
  po_nodes :: "string list"
  po_insts :: "string list"
  po_cells :: "string list"

definition pools_of :: "rule_hits \<Rightarrow> string list option \<Rightarrow> pools" where
  "pools_of h nms =
     (let cands = (case nms of None \<Rightarrow> seen_under SEEN h | Some xs \<Rightarrow> sorted_set xs) in
      \<lparr>po_nodes = cands,
       po_insts = sorted_set (map (before_last CHR ''.'') (filter (\<lambda>c. CHR ''.'' \<in> set c) cands)),
       po_cells = seen_under SEEN_CELL h\<rparr>)"

datatype pool = PNode | PInst | PCell

definition pool_names :: "pools \<Rightarrow> pool \<Rightarrow> string list" where
  "pool_names ps p = (case p of PNode \<Rightarrow> po_nodes ps | PInst \<Rightarrow> po_insts ps | PCell \<Rightarrow> po_cells ps)"

definition pool_what :: "pool \<Rightarrow> string" where
  "pool_what p = (case p of PNode \<Rightarrow> ''interface-element names'' | PInst \<Rightarrow> ''instances'' | PCell \<Rightarrow> ''cells'')"

text \<open>A selector without a target: origin, command, target, the probe and the pool of the suggestions.\<close>

record tnf =
  tn_origin :: string
  tn_command :: string
  tn_target :: string
  tn_probe :: string
  tn_pool :: pool

definition mk_tnf :: "string \<Rightarrow> string \<Rightarrow> string \<Rightarrow> string \<Rightarrow> pool \<Rightarrow> tnf" where
  "mk_tnf orig command target probe p =
     \<lparr>tn_origin = orig, tn_command = command, tn_target = target, tn_probe = probe, tn_pool = p\<rparr>"

definition tnf_note :: "ams_config \<Rightarrow> pools \<Rightarrow> tnf \<Rightarrow> diag" where
  "tnf_note cfg ps t =
     (let sev = (case map_of (ac_severity_overrides cfg) TNF of Some s \<Rightarrow> s | None \<Rightarrow> ''error'');
          mk = (if sev = ''warning'' then warning else error);
          what = pool_what (tn_pool t); near = nearest (tn_probe t) (pool_names ps (tn_pool t)) 3;
          tail = (if near \<noteq> [] then ''nearest '' @ what @ '': '' @ py_join '', '' near else ''there are no '' @ what) in
      mk (tn_origin t) (''['' @ TNF @ ''] Option Target Not Found: \"'' @ tn_command t @
        ''\" command, option target \"'' @ tn_target t @ ''\" was not found; the command is ignored ('' @ tail @ '')''))"

definition rule_target :: "ie_rule \<Rightarrow> tnf" where
  "rule_target r = (case ir_node r of
     Some n \<Rightarrow> mk_tnf (ir_origin r) (ir_kind r) (selector_text r) n PNode
   | None \<Rightarrow>
       (case ir_inst r of
          Some n \<Rightarrow> mk_tnf (ir_origin r) (ir_kind r) (selector_text r) n PInst
        | None \<Rightarrow> mk_tnf (ir_origin r) (ir_kind r) (selector_text r)
                   (case ir_cell r of Some c \<Rightarrow> c | None \<Rightarrow> []) PCell))"

text \<open>The supply key of a rule that is there: \<open>vdd\<close> or else \<open>vdd_port\<close>.\<close>

definition supply_given :: "ie_rule \<Rightarrow> string \<Rightarrow> (string \<times> string) option" where
  "supply_given r which = (case map_of (ir_params r) which of
     Some g \<Rightarrow> Some (which, g)
   | None \<Rightarrow> (case map_of (ir_params r) (which @ ''_port'') of
       Some g \<Rightarrow> Some (which @ ''_port'', g) | None \<Rightarrow> None))"

definition tnf_supply :: "rule_hits \<Rightarrow> nat \<Rightarrow> ie_rule \<Rightarrow> string \<Rightarrow> tnf list" where
  "tnf_supply h i r which = (case supply_given r which of
     Some (k, g) \<Rightarrow> if \<not> hit (indexed which i) h
       then [mk_tnf (ir_origin r) (ir_kind r) (k @ ''='' @ g) g PNode] else []
   | None \<Rightarrow> [])"

definition tnf_rule :: "rule_hits \<Rightarrow> nat \<times> ie_rule \<Rightarrow> tnf list" where
  "tnf_rule h = (\<lambda>(i, r).
     if \<not> hit (indexed ''rule'' i) h then [rule_target r]
     else tnf_supply h i r ''vdd'' @ tnf_supply h i r ''vss'')"

definition tnf_use_spice :: "rule_hits \<Rightarrow> nat \<times> use_spice \<Rightarrow> tnf list" where
  "tnf_use_spice h = (\<lambda>(i, us). concat (map (\<lambda>(j, inst).
     if \<not> hit (indexed ''use_spice_inst'' i @ ''.'' @ show_int (int j)) h
     then [mk_tnf (us_origin us) ''use_spice'' (''-inst '' @ inst) inst PInst] else [])
     (enumerate 0 (us_insts us))))"

definition tnf_port_connect :: "rule_hits \<Rightarrow> nat \<times> port_connect \<Rightarrow> tnf list" where
  "tnf_port_connect h = (\<lambda>(i, pc). case pc_inst pc of
     Some inst \<Rightarrow> if inst \<noteq> [] \<and> \<not> hit (indexed ''port_connect_inst'' i) h
       then [mk_tnf (pc_origin pc) ''port_connect'' (''-inst '' @ inst) inst PInst] else []
   | None \<Rightarrow> [])"

definition tnf_targets :: "ams_config \<Rightarrow> rule_hits \<Rightarrow> tnf list" where
  "tnf_targets cfg h =
     concat (map (tnf_rule h) (enumerate 0 (ac_rules cfg))) @
     concat (map (\<lambda>(i, sel, _, o').
       if \<not> hit (indexed ''remove_d2a'' i) h then [mk_tnf o' ''remove_d2a'' (''node='' @ sel) sel PNode] else [])
       (enumerate 0 (ac_remove_d2a cfg))) @
     concat (map (\<lambda>(i, sel, o').
       if \<not> hit (indexed ''disable_ie'' i) h then [mk_tnf o' ''disable_ie'' (''node='' @ sel) sel PNode] else [])
       (enumerate 0 (ac_disable_ie cfg))) @
     concat (map (\<lambda>(i, n, v, o').
       if \<not> is_skip v \<and> \<not> hit (indexed ''ref_voltage'' i) h
       then [mk_tnf o' ''ie_reference_voltage'' (''node='' @ n) n PNode] else [])
       (enumerate 0 (ac_ref_voltages cfg))) @
     concat (map (tnf_use_spice h) (enumerate 0 (ac_use_spice cfg))) @
     concat (map (tnf_port_connect h) (enumerate 0 (ac_port_connects cfg)))"

definition unmatched :: "ams_config \<Rightarrow> rule_hits \<Rightarrow> string list option \<Rightarrow> diag list" where
  "unmatched cfg h nms = map (tnf_note cfg (pools_of h nms)) (tnf_targets cfg h)"

section \<open>Report lines\<close>

datatype ie_value = IeD d2a_ie | IeA a2d_ie
datatype paste_err = WrongClass | BadKind string | CannotWrite pyfloat

definition put :: "pyfloat \<Rightarrow> paste_err + string" where
  "put x = (case fmt x of Inl _ \<Rightarrow> Inl (CannotWrite x) | Inr t \<Rightarrow> Inr t)"

text \<open>\<open>"key=" + fmt(x)\<close> for several keys.\<close>

definition put_keys :: "(string \<times> pyfloat) list \<Rightarrow> paste_err + string list" where
  "put_keys kvs = rmap (\<lambda>(k, x). rbind (put x) (\<lambda>t. Inr (k @ ''='' @ t))) kvs"

definition d2a_timing :: "d2a_ie \<Rightarrow> (string \<times> pyfloat) list" where
  "d2a_timing ie =
     (if feq (d_rise ie) (d_fall ie) then [(''rf_time'', d_rise ie)]
      else [(''rise_time'', d_rise ie), (''fall_time'', d_fall ie)]) @
     (if fnonzero (d_delay_rise ie) \<or> fnonzero (d_delay_fall ie) then
        (if feq (d_delay_rise ie) (d_delay_fall ie) then [(''delay'', d_delay_rise ie)]
         else [(''rise_delay'', d_delay_rise ie), (''fall_delay'', d_delay_fall ie)])
      else [])"

definition d2a_keys :: "d2a_ie \<Rightarrow> paste_err + string list" where
  "d2a_keys ie =
     rbind (put_keys ([(''hiv'', d_hiv ie), (''lov'', d_lov ie)] @ d2a_timing ie)) (\<lambda>ks.
       Inr ((if d_powernet ie then [''powernet''] else []) @ ks @ [''x2v='' @ show_int (d_x2v ie)]))"

definition a2d_keys :: "a2d_ie \<Rightarrow> paste_err + string list" where
  "a2d_keys ie =
     rbind (put_keys ([(''loth'', a_loth ie), (''hith'', a_hith ie)] @
         (case a_xband ie of Some x \<Rightarrow> [(''xband'', x)] | None \<Rightarrow> []) @
         (case a_midv_time ie of Some x \<Rightarrow> [(''midv_time'', x)] | None \<Rightarrow> []))) (\<lambda>ks.
       Inr (ks @ (if a_midv_time ie \<noteq> None \<or> a_midv_logic ie \<noteq> ''X''
                  then [''midv_logic='' @ a_midv_logic ie] else [])))"

definition line_of :: "string \<Rightarrow> string list \<Rightarrow> string \<Rightarrow> string" where
  "line_of kind ks canonical = kind @ '' '' @ py_join '' '' ks @ '' node='' @ canonical @ '';''"

definition paste_line :: "string \<Rightarrow> string \<Rightarrow> ie_value \<Rightarrow> paste_err + string" where
  "paste_line kind canonical ie =
     (if kind = ''d2a'' \<or> kind = ''map_by_node'' then
        (case ie of
           IeA _ \<Rightarrow> Inl WrongClass
         | IeD d \<Rightarrow>
             if kind = ''map_by_node''
             then rbind (put (d_r_series d)) (\<lambda>t. Inr (''map_by_node r='' @ t @ '' node='' @ canonical @ '';''))
             else rbind (d2a_keys d) (\<lambda>ks. Inr (line_of kind ks canonical)))
      else if kind = ''a2d'' then
        (case ie of
           IeD _ \<Rightarrow> Inl WrongClass
         | IeA a \<Rightarrow> rbind (a2d_keys a) (\<lambda>ks. Inr (line_of kind ks canonical)))
      else Inl (BadKind kind))"

definition DEFAULT_D2A :: d2a_ie where "DEFAULT_D2A = mk_d2a f0 f0"

definition gated_series :: "role \<Rightarrow> d2a_ie \<Rightarrow> bool" where
  "gated_series r d \<longleftrightarrow> (r = BIDIR \<or> \<not> d_powernet d) \<and>
     (\<not> feq (d_r_series d) (d_r_series DEFAULT_D2A) \<or> \<not> feq (d_weak_frac d) (d_weak_frac DEFAULT_D2A))"

text \<open>The lines a node gets, as the calls of \<open>paste_line\<close>, and the lines themselves.\<close>

definition line_calls :: "role \<Rightarrow> d2a_ie option \<Rightarrow> a2d_ie option \<Rightarrow> (string \<times> ie_value) list" where
  "line_calls r d2a a2d =
     (case d2a of
        Some d \<Rightarrow> if r = D2A \<or> r = BIDIR
          then (''d2a'', IeD d) # (if gated_series r d then [(''map_by_node'', IeD d)] else []) else []
      | None \<Rightarrow> []) @
     (case a2d of Some a \<Rightarrow> if r = A2D \<or> r = BIDIR then [(''a2d'', IeA a)] else [] | None \<Rightarrow> []) @
     (case d2a of Some d \<Rightarrow> if r = POWERNET then [(''d2a'', IeD (d\<lparr>d_powernet := True\<rparr>))] else [] | None \<Rightarrow> [])"

definition ie_lines :: "role \<Rightarrow> string \<Rightarrow> d2a_ie option \<Rightarrow> a2d_ie option \<Rightarrow> paste_err + string list" where
  "ie_lines r canonical d2a a2d = rmap (\<lambda>(kind, ie). paste_line kind canonical ie) (line_calls r d2a a2d)"

end
