(* ===== verification/FloatText.thy ===== *)
theory FloatText
  imports Numbers
begin

text \<open>
  The texts that \<open>repr\<close> writes read back: seventeen digits always reach a double, so the search of
  \<open>shortest_dec\<close> finds a decimal; each of the four layouts is a literal of \<open>parse_number\<close> with the
  value of the decimal; so \<open>parse_number\<close> of what \<open>fmt\<close> writes is the same double, a negative zero
  apart.
\<close>

section \<open>Decimals next to a double\<close>

lemma rmag_spacing:
  assumes "q = of_int n * ulp y" "y > 0" "\<bar>y - q\<bar> < ulp y / 2"
  shows "rmag y = q"
proof -
  have "y / ulp y - of_int n = (y - q) / ulp y"
    using assms(1) ulp_pos [of y] by (metis diff_divide_distrib less_irrefl nonzero_mult_div_cancel_right)
  then have "\<bar>y / ulp y - of_int n\<bar> = \<bar>y - q\<bar> / ulp y" by (simp add: abs_divide less_imp_le)
  also have "\<dots> < 1 / 2" using assms(3) ulp_pos [of y] by (simp add: pos_divide_less_eq)
  finally have "rne (y / ulp y) = n" by (rule rne_unique)
  then show ?thesis using assms by (simp add: rmag_def)
qed

lemma rmag_near:
  assumes q: "q > 0" "rmag q = q" and near: "\<bar>y - q\<bar> * 2 ^ 54 < q"
  shows "rmag y = q"
proof -
  define e where "e = max (ilog 2 q) emin"
  define u :: rat where "u = 2 powi (e - 52)"
  have uq: "ulp q = u" by (simp add: ulp_def u_def e_def)
  have u0: "u > 0" by (simp add: u_def)
  obtain n where n: "q = of_int n * u"
    using q by (metis linorder_not_less rmag_def uq)
  have top: "2 powi (e + 1) = of_int (2 ^ 53) * u" "2 powi e = of_int (2 ^ 52) * u"
    using two_powi_split [of "e - 52" "e + 1"] two_powi_split [of "e - 52" e] by (simp_all add: u_def)
  have "2 powi (ilog 2 q + 1) \<le> (2::rat) powi (e + 1)" by (subst two_powi_le) (simp add: e_def)
  then have q_hi: "q < 2 powi (e + 1)" using ilog2_bounds [OF q(1)] by linarith
  then have "of_int n * u < of_int (2 ^ 53) * u" using n top by simp
  then have "(of_int n :: rat) < of_int (2 ^ 53)" using u0 by (simp only: mult_less_cancel_right_pos)
  then have n_hi: "n + 1 \<le> 2 ^ 53" by (simp only: of_int_less_iff)
  have half: "\<bar>y - q\<bar> < u / 2"
  proof -
    have "\<bar>y - q\<bar> * 2 ^ 54 < 2 ^ 53 * u" using near q_hi top by simp
    then show ?thesis by (simp add: field_simps)
  qed
  have y0: "y > 0" using near q(1) by (simp add: abs_if split: if_splits)
  have "of_int (n + 1) * u \<le> of_int (2 ^ 53) * u"
    using n_hi u0 by (intro mult_right_mono) (simp_all only: of_int_le_iff less_imp_le)
  then have "q + u \<le> 2 powi (e + 1)" using n top by (simp add: distrib_right)
  then have y_hi: "y < 2 powi (e + 1)" using half u0 by (simp add: abs_if split: if_splits)
  then have "(2::rat) powi ilog 2 y < 2 powi (e + 1)" using ilog2_bounds [OF y0] by linarith
  then have ie: "ilog 2 y \<le> e" by simp
  show ?thesis
  proof (cases "max (ilog 2 y) emin = e")
    case True
    then have "ulp y = u" by (simp add: ulp_def u_def)
    then show ?thesis using rmag_spacing [of q n y] n y0 half by simp
  next
    case False
    then have lt: "ilog 2 y < e" and em: "emin < e" using ie by (auto simp: e_def max_def split: if_splits)
    then have eq: "e = ilog 2 q" by (simp add: e_def max_def split: if_splits)
    have "y < 2 powi e"
    proof -
      have "(2::rat) powi (ilog 2 y + 1) \<le> 2 powi e" using lt by (subst two_powi_le) simp
      then show ?thesis using ilog2_bounds [OF y0] by linarith
    qed
    moreover have "2 powi e \<le> q" using ilog2_bounds [OF q(1)] eq by simp
    moreover have "n \<le> 2 ^ 52"
    proof (rule ccontr)
      assume "\<not> n \<le> 2 ^ 52"
      then have "2 ^ 52 + 1 \<le> n" by simp
      then have "(of_int (2 ^ 52 + 1) :: rat) \<le> of_int n" by (simp only: of_int_le_iff)
      then have "of_int (2 ^ 52 + 1) * u \<le> of_int n * u"
        using u0 by (intro mult_right_mono) simp_all
      then have "2 powi e + u \<le> q" using n top by (simp add: distrib_right)
      then show False using half \<open>y < 2 powi e\<close> u0 by (simp add: abs_if split: if_splits)
    qed
    ultimately have qe: "q = 2 powi e"
    proof -
      have "of_int n * u \<le> of_int (2 ^ 52) * u"
        using \<open>n \<le> 2 ^ 52\<close> u0 by (intro mult_right_mono) (simp_all only: of_int_le_iff less_imp_le)
      then show ?thesis using n top \<open>2 powi e \<le> q\<close> by simp
    qed
    have half_e: "(2::rat) powi e = 2 * 2 powi (e - 1)"
      using two_powi_split [of "e - 1" e] by simp
    have "2 powi (e - 1) \<le> y"
      using near qe half_e by (simp add: abs_if split: if_splits)
    then have iy: "ilog 2 y = e - 1"
      using \<open>y < 2 powi e\<close> by (intro ilog2_unique) simp_all
    have uy: "ulp y = u / 2"
    proof -
      have "max (ilog 2 y) emin = e - 1" using iy em by simp
      then have "ulp y = 2 powi (e - 1 - 52)" by (simp only: ulp_def)
      moreover have "u = 2 * 2 powi (e - 1 - 52)"
        using two_powi_split [of "e - 1 - 52" "e - 52"] by (simp add: u_def)
      ultimately show ?thesis by simp
    qed
    have q53: "q = of_int (2 ^ 53) * (u / 2)" using qe top by simp
    have "\<bar>y - q\<bar> < u / 4"
    proof -
      have "\<bar>y - q\<bar> * 2 ^ 54 < 2 ^ 52 * u" using near qe top by simp
      then show ?thesis by (simp add: field_simps)
    qed
    then show ?thesis using rmag_spacing [of q "2 ^ 53" y] q53 uy y0 by simp
  qed
qed


lemma shortest_dec_some:
  assumes q: "q > 0" "rmag q = q"
  obtains m j where "shortest_dec q = Some (m, j)" "m > 0" "rmag (of_int m * 10 powi j) = q"
proof -
  let ?P = "\<lambda>(m, j). rmag (of_int m * 10 powi j) = q"
  let ?xs = "concat (map (dec_candidates q) [1..<18])"
  define j where "j = ilog 10 q - 16"
  define y :: rat where "y = of_int (rne (q / 10 powi j)) * 10 powi j"
  have t0: "(0::rat) < 10 powi j" by (simp add: zero_less_power_int)
  have "10 powi ilog 10 q \<le> q" using ilog_bounds [of 10 q] q by simp
  moreover have "(10::rat) powi ilog 10 q = 10 ^ 16 * 10 powi j"
    by (simp add: j_def power_int_diff)
  ultimately have big: "10 ^ 16 * 10 powi j \<le> q" by simp
  have "y - q = (of_int (rne (q / 10 powi j)) - q / 10 powi j) * 10 powi j"
    using t0 by (simp add: y_def left_diff_distrib)
  then have "\<bar>y - q\<bar> = \<bar>q / 10 powi j - of_int (rne (q / 10 powi j))\<bar> * 10 powi j"
    using t0 by (simp add: abs_mult abs_minus_commute)
  also have "\<dots> \<le> 1 / 2 * 10 powi j"
    using t0 by (intro mult_right_mono rne_error) simp
  finally have "\<bar>y - q\<bar> * 2 ^ 54 \<le> 2 ^ 53 * 10 powi j" by simp
  also have "\<dots> < 10 ^ 16 * 10 powi j" using t0 by simp
  also have "\<dots> \<le> q" by (rule big)
  finally have "rmag y = q" using rmag_near [OF q] by blast
  moreover have "(rne (q / 10 powi j), j) \<in> set (dec_candidates q 17)"
    by (simp add: dec_candidates_def Let_def j_def)
  ultimately have ex: "\<exists>c \<in> set ?xs. ?P c"
    by (auto simp: y_def intro!: bexI [of _ 17])
  then obtain c where c: "find ?P ?xs = Some c"
    by (metis (mono_tags, lifting) find_None_iff option.exhaust)
  obtain m i where mi: "c = (m, i)" by (cases c)
  have r: "rmag (of_int m * 10 powi i) = q"
    using c mi by (auto simp: find_Some_iff)
  have "m > 0"
  proof (rule ccontr)
    assume "\<not> m > 0"
    then have "of_int m * (10::rat) powi i \<le> 0"
      by (intro mult_nonpos_nonneg) (simp_all add: zero_le_power_int)
    then show False using r q by (simp add: rmag_def)
  qed
  then show thesis using that c mi r by (simp add: shortest_dec_def)
qed

lemma strip_zeros_value:
  "m > 0 \<Longrightarrow> strip_zeros m j = (m', j') \<Longrightarrow> m' > 0 \<and> of_int m' * (10::rat) powi j' = of_int m * 10 powi j"
proof (induction m j rule: strip_zeros.induct)
  case (1 m j)
  show ?case
  proof (cases "m mod 10 = 0")
    case True
    then have m: "m = 10 * (m div 10)" by auto
    then have "m div 10 > 0" using 1(2) by linarith
    moreover have "strip_zeros (m div 10) (j + 1) = (m', j')"
      using 1(2,3) True by (simp add: strip_zeros.simps [of m j])
    ultimately have "m' > 0 \<and> of_int m' * (10::rat) powi j' = of_int (m div 10) * 10 powi (j + 1)"
      using 1(1) 1(2) True by blast
    moreover have "of_int (m div 10) * (10::rat) powi (j + 1) = of_int m * 10 powi j"
      by (subst (2) m) (simp add: power_int_add)
    ultimately show ?thesis by simp
  next
    case False
    then show ?thesis using 1(2,3) by (simp add: strip_zeros.simps [of m j])
  qed
qed


section \<open>Digits\<close>

lemma digit_char_digit: "0 \<le> d \<Longrightarrow> d < 10 \<Longrightarrow> re_digit (digit_char d)"
proof -
  assume d: "0 \<le> d" "d < 10"
  have "(of_char (digit_char d) :: int) = 48 + d"
    using of_char_digit [OF d] by (simp add: digit_val_def)
  then have "int (of_char (digit_char d)) = 48 + d" by (simp add: of_nat_of_char)
  then show ?thesis using d by (simp add: re_digit_def code_in_def)
qed

lemma show_digits_digits: "0 \<le> n \<Longrightarrow> list_all re_digit (show_digits n)"
proof (induction n rule: show_digits.induct)
  case (1 n)
  then show ?case using digit_char_digit [of n] digit_char_digit [of "n mod 10"]
    by (cases "n < 10") (simp_all add: show_digits.simps [of n])
qed

lemma int_of_digits_append: "int_of_digits (a @ b) = int_of_digits a * 10 ^ length b + int_of_digits b"
  by (induction b rule: rev_induct) (simp_all add: int_of_digits_snoc int_of_digits_def flip: append_assoc)

lemma int_of_digits_Nil [simp]: "int_of_digits [] = 0"
  by (simp add: int_of_digits_def)

lemma int_of_digits_zeros [simp]: "int_of_digits (replicate k CHR ''0'') = 0"
  by (induction k) (simp_all add: int_of_digits_def digit_val_def)

text \<open>A mantissa: digits, and the digits after a point where there are any.\<close>

definition dec_mant :: "string \<Rightarrow> string \<Rightarrow> string" where
  "dec_mant ip fp = ip @ (if fp = [] then [] else CHR ''.'' # fp)"

lemma not_digit [simp]: "\<not> re_digit CHR ''.''" "\<not> re_digit CHR ''e''" "\<not> re_digit CHR ''-''"
    "\<not> re_digit CHR ''+''"
  by (simp_all add: re_digit_def code_in_def)

lemma digit_not: "re_digit c \<Longrightarrow> c \<noteq> CHR ''.'' \<and> c \<noteq> CHR ''-'' \<and> c \<noteq> CHR ''+'' \<and> \<not> re_space c"
  by (auto simp: char_simps)

lemma span_digits:
  "list_all re_digit ds \<Longrightarrow> r = [] \<or> \<not> re_digit (hd r) \<Longrightarrow> py_span re_digit (ds @ r) = (ds, r)"
  by (intro py_span_append) (auto simp: list_all_iff)

lemma mant_val_dec:
  assumes "list_all re_digit ip" "list_all re_digit fp"
  shows "mant_val (dec_mant ip fp) = of_int (int_of_digits (ip @ fp)) / 10 ^ length fp"
proof -
  have "takeWhile re_digit (ip @ r) = ip \<and> dropWhile re_digit (ip @ r) = r"
    if "r = [] \<or> \<not> re_digit (hd r)" for r
    using span_digits [OF assms(1) that] by (simp add: py_span_def)
  from this [of "if fp = [] then [] else CHR ''.'' # fp"] show ?thesis
    by (simp add: mant_val_def dec_mant_def Let_def)
qed

section \<open>Reading a literal\<close>

lemma read_mag_dec:
  assumes "list_all re_digit ip" "ip \<noteq> []" "list_all re_digit fp"
    and "r = [] \<or> (\<not> re_digit (hd r) \<and> hd r \<noteq> CHR ''.'')"
  shows "read_mag (dec_mant ip fp @ r) = Some (dec_mant ip fp, r)"
proof (cases "fp = []")
  case True
  then have "py_span re_digit (dec_mant ip fp @ r) = (ip, r)"
    using span_digits [OF assms(1), of r] assms(4) by (auto simp: dec_mant_def)
  then show ?thesis using assms True by (cases r) (auto simp: read_mag_def dec_mant_def)
next
  case False
  then have "py_span re_digit (dec_mant ip fp @ r) = (ip, CHR ''.'' # fp @ r)"
    using span_digits [OF assms(1), of "CHR ''.'' # fp @ r"] by (auto simp: dec_mant_def)
  moreover have "py_span re_digit (fp @ r) = (fp, r)"
    using span_digits [OF assms(3)] assms(4) by auto
  ultimately show ?thesis using assms False by (simp add: read_mag_def dec_mant_def)
qed

lemma read_mant_dec:
  assumes "list_all re_digit ip" "ip \<noteq> []" "list_all re_digit fp"
    and "r = [] \<or> (\<not> re_digit (hd r) \<and> hd r \<noteq> CHR ''.'')" and "sg = [] \<or> sg = ''-''"
  shows "read_mant (dropWhile re_space (sg @ dec_mant ip fp @ r)) = Some (sg @ dec_mant ip fp, r)"
proof -
  obtain c ip' where c: "ip = c # ip'" "re_digit c" using assms(1,2) by (cases ip) auto
  have neg: "\<not> re_space CHR ''-''" by (simp add: re_space_def code_in_def)
  have "read_mant (sg @ dec_mant ip fp @ r) = Some (sg @ dec_mant ip fp, r)"
    using read_mag_dec [OF assms(1-4)] assms(5) digit_not [OF c(2)] c(1)
    by (auto simp: read_mant_def dec_mant_def)
  moreover have "dropWhile re_space (sg @ dec_mant ip fp @ r) = sg @ dec_mant ip fp @ r"
    using assms(5) digit_not [OF c(2)] c(1) neg by (auto simp: dec_mant_def)
  ultimately show ?thesis by simp
qed

text \<open>The exponent part that \<open>repr\<close> writes, and its value.\<close>

definition exp_part :: "int option \<Rightarrow> string" where
  "exp_part e = (case e of None \<Rightarrow> []
     | Some n \<Rightarrow> CHR ''e'' # (if n < 0 then CHR ''-'' else CHR ''+'') # pad2 (show_digits \<bar>n\<bar>))"

definition exp_of :: "int option \<Rightarrow> int" where
  "exp_of e = (case e of None \<Rightarrow> 0 | Some n \<Rightarrow> n)"

lemma pad2_digits: "0 \<le> n \<Longrightarrow> list_all re_digit (pad2 (show_digits n)) \<and> pad2 (show_digits n) \<noteq> [] \<and>
    int_of_digits (pad2 (show_digits n)) = n"
  using show_digits_digits [of n] int_of_digits_append [of "''0''" "show_digits n"] int_of_show_digits [of n]
  by (auto simp: pad2_def re_digit_def code_in_def int_of_digits_def digit_val_def)

lemma match_dec:
  assumes "list_all re_digit ip" "ip \<noteq> []" "list_all re_digit fp" and "sg = [] \<or> sg = ''-''"
  shows "\<exists>ex. match_number ''eE'' name_start (sg @ dec_mant ip fp @ exp_part e) =
           Some (sg @ dec_mant ip fp, ex, []) \<and> exp_value ex = exp_of e"
proof (cases e)
  case None
  then show ?thesis using read_mant_dec [OF assms(1-3) _ assms(4), of "[]"]
    by (simp add: match_number_def exp_part_def read_exp_def read_tail_def exp_value_def exp_of_def)
next
  case (Some n)
  let ?s = "if n < 0 then CHR ''-'' else CHR ''+''" and ?ds = "pad2 (show_digits \<bar>n\<bar>)"
  have sp: "py_span re_digit ?ds = (?ds, [])"
    using span_digits [of ?ds "[]"] pad2_digits [of "\<bar>n\<bar>"] by simp
  then have ex: "read_exp ''eE'' (exp_part e) = (Some (?s # ?ds), [])"
    using Some pad2_digits [of "\<bar>n\<bar>"] by (auto simp: read_exp_def exp_part_def)
  have "exp_value (Some (?s # ?ds)) = n"
    using pad2_digits [of "\<bar>n\<bar>"] pad2_digits [of n]
    by (cases "n < 0") (simp_all add: exp_value_def int_of_text_def split_sign_def)
  moreover have "match_number ''eE'' name_start (sg @ dec_mant ip fp @ exp_part e) =
           Some (sg @ dec_mant ip fp, Some (?s # ?ds), [])"
    using read_mant_dec [OF assms(1-3) _ assms(4), of "exp_part e"] ex Some
    by (simp add: match_number_def exp_part_def read_tail_def)
  ultimately show ?thesis using Some by (auto simp: exp_of_def)
qed

lemma parse_dec:
  assumes "list_all re_digit ip" "ip \<noteq> []" "list_all re_digit fp" and "sg = [] \<or> sg = ''-''"
  shows "parse_number (sg @ dec_mant ip fp @ exp_part e) =
           Inr (mkfloat (sg \<noteq> []) (of_int (int_of_digits (ip @ fp)) / 10 ^ length fp * 10 powi exp_of e))"
proof -
  obtain ex where ex: "match_number ''eE'' name_start (sg @ dec_mant ip fp @ exp_part e) =
           Some (sg @ dec_mant ip fp, ex, [])" "exp_value ex = exp_of e"
    using match_dec [OF assms] by blast
  obtain c ip' where c: "ip = c # ip'" "re_digit c" using assms(1,2) by (cases ip) auto
  have "split_sign (sg @ dec_mant ip fp) = (sg \<noteq> [], dec_mant ip fp)"
    using assms(4) digit_not [OF c(2)] c(1) by (auto simp: split_sign_def dec_mant_def)
  then show ?thesis using ex mant_val_dec [OF assms(1,3)]
    by (simp add: parse_number_def scaled_def SCALES_def float_dec_def)
qed


section \<open>The layouts\<close>

lemma powi_split: "(10::rat) powi (a + b) = 10 powi a * 10 powi b"
  by (simp add: power_int_add)

lemma powi_nonpos: "j \<le> 0 \<Longrightarrow> (10::rat) powi j = inverse (10 ^ nat (- j))"
  by (cases "j = 0") (simp_all add: power_int_def power_one_over inverse_eq_divide)

text \<open>Each layout is a mantissa and an exponent part, and their value is that of the decimal.\<close>

lemma layout_dec_shape:
  assumes m: "m > 0"
  obtains ip fp e where "layout_dec m j = dec_mant ip fp @ exp_part e"
    "list_all re_digit ip" "ip \<noteq> []" "list_all re_digit fp"
    "of_int (int_of_digits (ip @ fp)) / 10 ^ length fp * 10 powi exp_of e = (of_int m * 10 powi j :: rat)"
proof -
  define ds where "ds = show_digits m"
  define n where "n = length ds"
  define p where "p = int n + j"
  have ds: "list_all re_digit ds" "int_of_digits ds = m" "ds \<noteq> []" "n > 0"
    using m show_digits_digits [of m] int_of_show_digits [of m] by (auto simp: ds_def n_def)
  have zero: "re_digit CHR ''0''" by (simp add: re_digit_def code_in_def)
  have zs: "list_all re_digit (replicate k CHR ''0'')" for k
    using zero by (induction k) simp_all
  have lay: "layout_dec m j =
     (if -4 < p \<and> p \<le> 16 then
       (if p \<le> 0 then ''0.'' @ replicate (nat (- p)) CHR ''0'' @ ds
        else if int n \<le> p then ds @ replicate (nat p - n) CHR ''0'' @ ''.0''
        else take (nat p) ds @ ''.'' @ drop (nat p) ds)
     else hd ds # (if n = 1 then [] else CHR ''.'' # tl ds) @ ''e'' @
          (if p - 1 < 0 then ''-'' else ''+'') @ pad2 (show_digits \<bar>p - 1\<bar>))"
    by (simp add: layout_dec_def Let_def ds_def n_def p_def)
  consider (point) "-4 < p" "p \<le> 0" | (whole) "0 < p" "p \<le> 16" "int n \<le> p" | (mid) "0 < p" "p \<le> 16" "p < int n"
    | (sci) "\<not> (-4 < p \<and> p \<le> 16)" by linarith
  then show thesis
  proof cases
    case point
    let ?z = "replicate (nat (- p)) CHR ''0''"
    have "layout_dec m j = dec_mant ''0'' (?z @ ds) @ exp_part None"
      using point ds by (simp add: lay dec_mant_def exp_part_def)
    moreover have "int_of_digits (''0'' @ ?z @ ds) = m"
      using ds int_of_digits_append [of "CHR ''0'' # ?z" ds] int_of_digits_zeros [of "Suc (nat (- p))"]
      by simp
    moreover have "(of_int m :: rat) / 10 ^ length (?z @ ds) = of_int m * 10 powi j"
    proof -
      have "length (?z @ ds) = nat (- j)" using point by (simp add: n_def p_def)
      moreover have "(10::rat) powi j = inverse (10 ^ nat (- j))"
        using point by (intro powi_nonpos) (simp add: p_def)
      ultimately show ?thesis by (simp add: divide_inverse)
    qed
    ultimately show ?thesis using that [of "''0''" "?z @ ds" None] ds zs zero by (simp add: exp_of_def)
  next
    case whole
    let ?z = "replicate (nat p - n) CHR ''0''"
    have "layout_dec m j = dec_mant (ds @ ?z) ''0'' @ exp_part None"
      using whole by (simp add: lay dec_mant_def exp_part_def)
    moreover have "int_of_digits ((ds @ ?z) @ ''0'') = m * 10 ^ (nat p - n) * 10"
      using ds by (simp add: int_of_digits_append del: append_assoc) (simp add: int_of_digits_def digit_val_def)
    moreover have "(10::rat) powi j = 10 ^ (nat p - n)"
      using whole by (simp add: power_int_def p_def nat_diff_distrib)
    ultimately show ?thesis using that [of "ds @ ?z" "''0''" None] ds zs zero by (simp add: exp_of_def)
  next
    case mid
    have "layout_dec m j = dec_mant (take (nat p) ds) (drop (nat p) ds) @ exp_part None"
      using mid by (simp add: lay dec_mant_def exp_part_def n_def)
    moreover have "(of_int m :: rat) / 10 ^ length (drop (nat p) ds) = of_int m * 10 powi j"
    proof -
      have "length (drop (nat p) ds) = nat (- j)" using mid by (simp add: n_def p_def)
      moreover have "(10::rat) powi j = inverse (10 ^ nat (- j))"
        using mid by (intro powi_nonpos) (simp add: p_def)
      ultimately show ?thesis by (simp add: divide_inverse)
    qed
    moreover have "list_all re_digit (take (nat p) ds)" "list_all re_digit (drop (nat p) ds)"
      using ds by (auto simp: list_all_iff dest: in_set_takeD in_set_dropD)
    ultimately show ?thesis using that [of "take (nat p) ds" "drop (nat p) ds" None] ds mid
      by (simp add: exp_of_def)
  next
    case sci
    obtain d r where d: "ds = d # r" using ds by (cases ds) auto
    have "layout_dec m j = dec_mant [d] r @ exp_part (Some (p - 1))"
      using sci d by (auto simp: lay dec_mant_def exp_part_def n_def)
    moreover have "(of_int m :: rat) / 10 ^ length r * 10 powi (p - 1) = of_int m * 10 powi j"
    proof -
      have "p - 1 = int (length r) + j" using d by (simp add: p_def n_def)
      then show ?thesis by (simp add: powi_split)
    qed
    ultimately show ?thesis using that [of "[d]" r "Some (p - 1)"] ds d by (simp add: exp_of_def)
  qed
qed

section \<open>Reading back\<close>

text \<open>A negative zero is written as zero.\<close>

definition plain_zero :: "pyfloat \<Rightarrow> pyfloat" where
  "plain_zero x = (if x = Fin True 0 then Fin False 0 else x)"

lemma parse_repr_mag:
  assumes "dbl_mag q" "sg = [] \<or> sg = ''-''"
  shows "parse_number (sg @ repr_mag q) = Inr (Fin (sg \<noteq> []) q)"
proof (cases "q = 0")
  case True
  have d: "list_all re_digit ''0''" by (simp add: re_digit_def code_in_def)
  have "sg @ repr_mag q = sg @ dec_mant ''0'' ''0'' @ exp_part None"
    using True by (simp add: repr_mag_def dec_mant_def exp_part_def)
  moreover have "mkfloat (sg \<noteq> []) 0 = Fin (sg \<noteq> []) 0" by (intro mkfloat_fixed) simp
  moreover have "int_of_digits ''00'' = 0" by (simp add: int_of_digits_def digit_val_def)
  ultimately show ?thesis using parse_dec [OF d _ d assms(2), of None] True by simp
next
  case False
  then have q: "q > 0" "rmag q = q" using assms(1) by (auto simp: dbl_mag_def)
  obtain m j where mj: "shortest_dec q = Some (m, j)" "m > 0" "rmag (of_int m * 10 powi j) = q"
    using shortest_dec_some [OF q] by metis
  obtain m' j' where z: "strip_zeros m j = (m', j')" by (cases "strip_zeros m j")
  note v = strip_zeros_value [OF mj(2) z]
  obtain ip fp e where l: "layout_dec m' j' = dec_mant ip fp @ exp_part e"
      "list_all re_digit ip" "ip \<noteq> []" "list_all re_digit fp"
      "of_int (int_of_digits (ip @ fp)) / 10 ^ length fp * 10 powi exp_of e = (of_int m' * 10 powi j' :: rat)"
    using layout_dec_shape [of m' j'] v by blast
  have "repr_mag q = dec_mant ip fp @ exp_part e" using False mj z l by (simp add: repr_mag_def)
  then have "parse_number (sg @ repr_mag q) = Inr (mkfloat (sg \<noteq> []) (of_int m * 10 powi j))"
    using parse_dec [OF l(2-4) assms(2), of e] l(5) v by simp
  moreover have "mkfloat (sg \<noteq> []) (of_int m * 10 powi j) = mkfloat (sg \<noteq> []) q"
    using mj(3) q by (simp add: mkfloat_def Let_def)
  ultimately show ?thesis using mkfloat_fixed [OF assms(1)] by simp
qed

lemma fmt_reads_back:
  assumes "is_double x" "finite_float x"
  obtains t where "fmt x = Inr t" "parse_number t = Inr (plain_zero x)"
proof -
  obtain s q where x: "x = Fin s q" using assms(2) by (auto simp: finite_float_iff)
  then have d: "dbl_mag q" using assms(1) by simp
  define t where "t = (if float_repr x = ''-0.0'' then ''0.0'' else float_repr x)"
  have f: "fmt x = Inr t" using assms(2) by (simp add: fmt_def t_def Let_def)
  have p: "parse_number (float_repr x) = Inr x"
    using parse_repr_mag [OF d, of "if s then ''-'' else []"] x by simp
  have z: "parse_number ''0.0'' = Inr (Fin False 0)" "parse_number ''-0.0'' = Inr (Fin True 0)"
    using parse_repr_mag [of 0 "[]"] parse_repr_mag [of 0 "''-''"] by (simp_all add: repr_mag_def)
  have "parse_number t = Inr (plain_zero x)"
  proof (cases "float_repr x = ''-0.0''")
    case True
    then have "x = Fin True 0" using p z by simp
    then show ?thesis using z True by (simp add: t_def plain_zero_def)
  next
    case False
    have "x \<noteq> Fin True 0"
    proof
      assume "x = Fin True 0"
      then have "float_repr x = ''-0.0''" by (simp add: repr_mag_def)
      with False show False by simp
    qed
    then show ?thesis using False p by (simp add: t_def plain_zero_def)
  qed
  with f show thesis by (rule that)
qed

end
