(* ===== verification/IeResolveProps.thy ===== *)
theory IeResolveProps
  imports IeReport FloatText
begin

text \<open>
  Lemmas on the resolution of interface-element rules: which counters a resolution marks, what the
  merged values are in terms of the applied rules, and that the values of checked rules can be read.
\<close>

section \<open>Loops over numbered lists\<close>

lemma fold_enumerate_induct:
  assumes "P 0 s"
    and "\<And>i s. i < length xs \<Longrightarrow> P i s \<Longrightarrow> P (Suc i) (f (i, xs ! i) s)"
  shows "P (length xs) (fold f (enumerate 0 xs) s)"
proof -
  have "P (length (take n xs)) (fold f (enumerate 0 (take n xs)) s)" if "n \<le> length xs" for n
    using that
  proof (induction n)
    case (Suc n)
    then have "take (Suc n) xs = take n xs @ [xs ! n]" by (simp add: take_Suc_conv_app_nth)
    moreover have "P (Suc n) (f (n, xs ! n) (fold f (enumerate 0 (take n xs)) s))"
      using Suc assms(2) by simp
    ultimately show ?case using Suc.prems by (simp add: enumerate_append_eq)
  qed (simp add: assms(1))
  from this [of "length xs"] show ?thesis by simp
qed

section \<open>The counters\<close>

lemma show_int_nat_inj: "show_int (int i) = show_int (int j) \<longleftrightarrow> i = j"
  by (metis int_of_show_digits int_ops(1) not_less of_nat_0_le_iff of_nat_eq_iff show_int_def)

lemma indexed_inj [simp]: "indexed k i = indexed k j \<longleftrightarrow> i = j"
  by (simp add: indexed_def show_int_nat_inj)

lemma indexed_neq:
  "hd k \<noteq> hd k' \<Longrightarrow> k \<noteq> [] \<Longrightarrow> k' \<noteq> [] \<Longrightarrow> indexed k i \<noteq> indexed k' j"
  by (cases k; cases k') (simp_all add: indexed_def)

lemma seen_neq: "k \<noteq> [] \<Longrightarrow> hd k \<noteq> CHR ''n'' \<Longrightarrow> SEEN @ x \<noteq> indexed k i"
  by (cases k) (simp_all add: SEEN_def indexed_def)

lemma seen_cell_neq: "k \<noteq> [] \<Longrightarrow> hd k \<noteq> CHR ''c'' \<Longrightarrow> SEEN_CELL @ x \<noteq> indexed k i"
  by (cases k) (simp_all add: SEEN_CELL_def indexed_def)

lemma hit_record_seen: "k \<noteq> [] \<Longrightarrow> hd k \<noteq> CHR ''n'' \<Longrightarrow> hit (indexed k i) (record_seen nms h) \<longleftrightarrow> hit (indexed k i) h"
  by (auto simp: record_seen_def hit_mark seen_neq split: list.splits)

lemma hit_see_cells:
  "k \<noteq> [] \<Longrightarrow> hd k \<noteq> CHR ''c'' \<Longrightarrow> hit (indexed k i) (see_cells ports h) \<longleftrightarrow> hit (indexed k i) h"
  unfolding see_cells_def by (induction ports arbitrary: h) (auto simp: hit_mark seen_cell_neq)

lemma hit_supply_step:
  assumes "hd k \<noteq> CHR ''v''" "k \<noteq> []" "which \<in> {''vdd'', ''vss''}"
  shows "hit (indexed k j) (ss_hits (supply_step dc subckt cs rule i sel applies which st)) \<longleftrightarrow>
         hit (indexed k j) (ss_hits st)"
proof -
  have n: "indexed which i \<noteq> indexed k j" using assms by (intro indexed_neq) auto
  show ?thesis
    by (auto simp: supply_step_def supply_found_def Let_def hit_mark n
        split: prod.splits option.splits list.splits dc_value.splits)
qed

definition rule_matches :: "rule_env \<Rightarrow> ie_rule \<Rightarrow> bool" where
  "rule_matches env rule \<longleftrightarrow> direction_of rule \<in> set (re_marks env) \<and>
     select_ports rule (re_names env) (re_ports env) (re_cs env) \<noteq> None"

lemma hit_apply_rule:
  "hit (indexed ''rule'' k) (rs_hits (apply_rule env i rule sel s)) \<longleftrightarrow> k = i \<or> hit (indexed ''rule'' k) (rs_hits s)"
proof -
  have "hit (indexed ''rule'' k) (ss_hits (supplies_of env i rule sel h ns)) \<longleftrightarrow> hit (indexed ''rule'' k) h" for h ns
    by (simp add: supplies_of_def hit_supply_step)
  then show ?thesis by (auto simp: apply_rule_def Let_def hit_mark)
qed

lemma hit_rule_step:
  "hit (indexed ''rule'' k) (rs_hits (rule_step env (i, rule) s)) \<longleftrightarrow>
     hit (indexed ''rule'' k) (rs_hits s) \<or> (k = i \<and> rule_matches env rule)"
  by (auto simp: rule_step_def rule_matches_def hit_apply_rule split: option.splits)

lemma hit_rules_loop:
  "hit (indexed ''rule'' k) (rs_hits (rules_loop env rules h)) \<longleftrightarrow>
     hit (indexed ''rule'' k) h \<or> (k < length rules \<and> rule_matches env (rules ! k))"
  unfolding rules_loop_def
  by (rule fold_enumerate_induct
      [where P = "\<lambda>n s. hit (indexed ''rule'' k) (rs_hits s) \<longleftrightarrow> hit (indexed ''rule'' k) h \<or> (k < n \<and> rule_matches env (rules ! k))"])
    (auto simp: hit_rule_step less_Suc_eq)

lemma resolve_detail_hits:
  assumes "resolve_detail cfg nms ports vr dc h r subckt = Inr (res, h')"
  shows "hit (indexed ''rule'' k) h' \<longleftrightarrow> hit (indexed ''rule'' k) h \<or>
     (k < length (ac_rules cfg) \<and> rule_matches (resolve_env cfg nms ports dc r subckt) (ac_rules cfg ! k))"
proof -
  let ?s = "resolve_rules cfg nms ports dc h r subckt"
  have n: "indexed ''map_by_node_ideal'' i \<noteq> indexed ''rule'' k" for i
    by (intro indexed_neq) simp_all
  have "hit (indexed ''rule'' k) (snd (note_ideal cfg r c rser (x, h1))) \<longleftrightarrow> hit (indexed ''rule'' k) h1" for c rser x h1
    by (simp add: note_ideal_def Let_def hit_mark n split: option.split)
  then have "hit (indexed ''rule'' k) h' \<longleftrightarrow> hit (indexed ''rule'' k) (rs_hits ?s)"
    using assms by (auto simp: resolve_detail_def Let_def res_simps simp del: split_paired_All) (metis snd_conv)+
  then show ?thesis
    by (simp add: resolve_rules_def hit_rules_loop hit_see_cells hit_record_seen)
qed


section \<open>What the merged values are\<close>

text \<open>
  The documented reading: the settings of the applied rules of one direction in file order, the two
  combined keys spelled out; the last setting of a key counts.
\<close>

definition expand_param :: "nat \<Rightarrow> string \<times> string \<Rightarrow> (string \<times> string \<times> nat) list" where
  "expand_param i = (\<lambda>(k, v).
     if k \<in> set NOT_LEVELS then []
     else if k = ''rf_time'' then [(''rise_time'', v, i), (''fall_time'', v, i)]
     else if k = ''delay'' then [(''rise_delay'', v, i), (''fall_delay'', v, i)]
     else [(k, v, i)])"

definition rule_settings :: "ie_rule list \<Rightarrow> string \<Rightarrow> nat \<Rightarrow> (string \<times> string \<times> nat) list" where
  "rule_settings rules rk i =
     (if direction_of (rules ! i) = rk then concat (map (expand_param i) (ir_params (rules ! i))) else [])"

definition settings_of_rules :: "ie_rule list \<Rightarrow> string \<Rightarrow> nat list \<Rightarrow> (string \<times> string \<times> nat) list" where
  "settings_of_rules rules rk is' = concat (map (rule_settings rules rk) is')"

lemma merge_key_expand: "merge_key i p m = m ++ map_of (rev (expand_param i p))"
  by (cases p) (auto simp: merge_key_def expand_param_def fun_upd_twist)

lemma merge_rule_expand:
  "merge_rule i rule m = m ++ map_of (rev (concat (map (expand_param i) (ir_params rule))))"
proof -
  have "fold (merge_key i) ps m = m ++ map_of (rev (concat (map (expand_param i) ps)))" for ps
    by (induction ps arbitrary: m) (simp_all add: merge_key_expand)
  then show ?thesis by (simp add: merge_rule_def)
qed

definition applied_inv :: "rule_env \<Rightarrow> ie_rule list \<Rightarrow> nat \<Rightarrow> rule_state \<Rightarrow> bool" where
  "applied_inv env rules n s \<longleftrightarrow>
     (\<forall>rk. rs_merged s rk = map_of (rev (settings_of_rules rules rk (rs_applied s)))) \<and>
     sorted_wrt (<) (rs_applied s) \<and>
     (\<forall>i \<in> set (rs_applied s). i < n \<and> rule_matches env (rules ! i) \<and>
        direction_of (rules ! i) \<in> set (re_kinds env))"

lemma applied_inv_step:
  assumes "applied_inv env rules n s" "n < length rules"
  shows "applied_inv env rules (Suc n) (rule_step env (n, rules ! n) s)"
proof -
  have keep: "applied_inv env rules (Suc n) t"
    if "rs_merged t = rs_merged s" "rs_applied t = rs_applied s" for t
    using assms(1) that by (auto simp: applied_inv_def)
  show ?thesis
  proof (cases "rule_matches env (rules ! n)")
    case False
    then show ?thesis using keep [of s] by (auto simp: rule_step_def rule_matches_def split: option.split)
  next
    case True
    then obtain sel where sel: "select_ports (rules ! n) (re_names env) (re_ports env) (re_cs env) = Some sel"
        and step: "rule_step env (n, rules ! n) s = apply_rule env n (rules ! n) sel s"
      by (auto simp: rule_matches_def rule_step_def)
    let ?t = "apply_rule env n (rules ! n) sel s"
    have "(rs_merged ?t = rs_merged s \<and> rs_applied ?t = rs_applied s) \<or>
        (direction_of (rules ! n) \<in> set (re_kinds env) \<and> rs_applied ?t = rs_applied s @ [n] \<and>
         rs_merged ?t = (rs_merged s)(direction_of (rules ! n) :=
            merge_rule n (rules ! n) (rs_merged s (direction_of (rules ! n)))))"
      by (auto simp: apply_rule_def Let_def)
    then show ?thesis
    proof (elim disjE)
      assume "direction_of (rules ! n) \<in> set (re_kinds env) \<and> rs_applied ?t = rs_applied s @ [n] \<and>
         rs_merged ?t = (rs_merged s)(direction_of (rules ! n) :=
            merge_rule n (rules ! n) (rs_merged s (direction_of (rules ! n))))"
      then show ?thesis using assms True
        by (auto simp: step applied_inv_def sorted_wrt_append settings_of_rules_def rule_settings_def
            merge_rule_expand less_Suc_eq)
    qed (simp add: step keep)
  qed
qed

lemma applied_inv_loop: "applied_inv env rules (length rules) (rules_loop env rules h)"
  unfolding rules_loop_def
  by (rule fold_enumerate_induct [where P = "applied_inv env rules"])
    (simp_all add: applied_inv_step, simp add: applied_inv_def settings_of_rules_def)

lemma merged_setting:
  assumes "rs_merged (rules_loop env rules h) rk k = Some (v, i)"
  shows "i < length rules \<and> direction_of (rules ! i) = rk \<and>
     (\<exists>p \<in> set (ir_params (rules ! i)). (k, v, i) \<in> set (expand_param i p))"
proof -
  let ?s = "rules_loop env rules h"
  note inv = applied_inv_loop [of env rules h, unfolded applied_inv_def]
  have "(k, v, i) \<in> set (settings_of_rules rules rk (rs_applied ?s))"
    using assms inv by (auto dest: map_of_SomeD)
  then obtain j p where j: "j \<in> set (rs_applied ?s)" "direction_of (rules ! j) = rk"
      and p: "p \<in> set (ir_params (rules ! j))" "(k, v, i) \<in> set (expand_param j p)"
    by (auto simp: settings_of_rules_def rule_settings_def split: if_splits)
  have "i = j" using p(2) by (auto simp: expand_param_def split: prod.splits if_splits)
  then show ?thesis using j p inv by auto
qed


section \<open>Checked rules can be read\<close>

lemma has_errors_simps [simp]:
  "\<not> has_errors []"
  "has_errors (n # ns) \<longleftrightarrow> severity n = ERROR \<or> has_errors ns"
  "has_errors (ns @ ms) \<longleftrightarrow> has_errors ns \<or> has_errors ms"
  "severity (error orig msg) = ERROR"
  "severity (warning orig msg) = WARNING"
  "severity (mk_note orig msg) = NOTE"
  by (auto simp: has_errors_def error_def warning_def mk_note_def)

lemma has_errors_concat: "has_errors (concat nss) \<longleftrightarrow> (\<exists>ns \<in> set nss. has_errors ns)"
  by (induction nss) auto

definition readable :: "vclass \<Rightarrow> string \<Rightarrow> bool" where
  "readable cls v = (case cls of
     CLevel \<Rightarrow> isl (parse_level v) = False
   | CRamp \<Rightarrow> isl (parse_time v) = False
   | CTime \<Rightarrow> isl (parse_time v) = False
   | CXband \<Rightarrow> isl (number_of v) = False
   | COhms \<Rightarrow> isl (number_of v) = False
   | CX2v \<Rightarrow> isl (py_int (py_strip v)) = False
   | _ \<Rightarrow> True)"

lemma x2v_int: "s \<in> {''0'', ''1'', ''2'', ''3'', ''4''} \<Longrightarrow> isl (py_int s) = False"
  by (auto simp: py_int_def py_strip_def char_simps)

lemma py_strip_idem [simp]: "py_strip (py_strip s) = py_strip s"
proof -
  have d: "dropWhile P (rev (dropWhile P (rev (dropWhile P xs)))) = rev (dropWhile P (rev (dropWhile P xs)))"
    for P and xs :: string
  proof (cases "rev (dropWhile P (rev (dropWhile P xs)))")
    case (Cons a ys)
    let ?d = "dropWhile P xs"
    have "rev ?d = takeWhile P (rev ?d) @ dropWhile P (rev ?d)" by simp
    then have "rev (rev ?d) = rev (dropWhile P (rev ?d)) @ rev (takeWhile P (rev ?d))"
      by (metis rev_append)
    then have "?d = a # ys @ rev (takeWhile P (rev ?d))" by (simp add: Cons)
    then have "?d \<noteq> [] \<and> a = hd ?d" by (metis list.distinct(1) list.sel(1))
    then have "\<not> P a" using hd_dropWhile [of P xs] by metis
    then show ?thesis by (simp add: Cons)
  next
    case Nil
    show ?thesis unfolding Nil by simp
  qed
  show ?thesis unfolding py_strip_def d by (simp add: dropWhile_idem [where P = py_isspace])
qed

lemma check_value_readable:
  assumes "check_value kind k cls v rule = Inr ns" "\<not> has_errors ns"
  shows "readable cls v"
proof (cases cls)
  case CX2v
  then have "py_strip v \<in> {''0'', ''1'', ''2'', ''3'', ''4''}"
    using assms by (auto simp: check_value_def Let_def split: if_splits)
  then show ?thesis using CX2v x2v_int by (simp add: readable_def)
qed (use assms in \<open>auto simp: check_value_def check_time_def readable_def Let_def res_simps isl_def\<close>)

definition checked :: "ams_config \<Rightarrow> bool" where
  "checked cfg \<longleftrightarrow> (\<forall>rule \<in> set (ac_rules cfg). \<not> has_errors (check_rule rule))"

lemma check_rule_params:
  assumes "\<not> has_errors (check_rule rule)" "(k, v) \<in> set (ir_params rule)"
  obtains keys cls where "KEYS (ir_kind rule) = Some keys" "keys k = Some cls" "readable cls v"
proof -
  obtain keys where keys: "KEYS (ir_kind rule) = Some keys"
    using assms(1) by (auto simp: check_rule_def split: option.splits)
  then have "\<not> has_errors (concat (map (check_param rule keys) (ir_params rule)))"
    using assms(1) by (simp add: check_rule_def)
  then have p: "\<not> has_errors (check_param rule keys (k, v))"
    using assms(2) by (auto simp: has_errors_concat)
  then obtain cls where cls: "keys k = Some cls"
    by (auto simp: check_param_def Let_def split: option.splits if_splits)
  have "readable cls v"
  proof (cases "cls = CFlag \<or> cls = CHiz")
    case True
    then show ?thesis by (auto simp: readable_def)
  next
    case False
    then obtain ns where "check_value (ir_kind rule) k cls v rule = Inr ns" "\<not> has_errors ns"
      using p cls by (auto simp: check_param_def Let_def split: if_splits sum.splits)
    then show ?thesis by (rule check_value_readable)
  qed
  then show thesis using that keys cls by blast
qed

text \<open>The class of a key after the combined keys are spelled out.\<close>

definition merged_class :: "string \<Rightarrow> string \<rightharpoonup> vclass" where
  "merged_class rk = (if rk = ''d2a'' then (map_of D2A_CLASSES)(''r'' \<mapsto> COhms) else map_of A2D_CLASSES)"

lemma expand_param_class:
  assumes "(k, v, i) \<in> set (expand_param i (k0, v0))" "map_of cs k0 = Some cls"
    and "cs = D2A_CLASSES \<or> cs = A2D_CLASSES \<or> cs = [(''r'', COhms)]"
  shows "v = v0 \<and> map_of cs k = Some cls"
proof (cases "k0 = ''rf_time'' \<or> k0 = ''delay''")
  case True
  then have v: "v = v0" and k: "k0 = ''rf_time'' \<and> k \<in> {''rise_time'', ''fall_time''} \<or>
      k0 = ''delay'' \<and> k \<in> {''rise_delay'', ''fall_delay''}"
    using assms(1) by (auto simp: expand_param_def split: if_splits)
  have d: "map_of D2A_CLASSES ''rf_time'' = Some CRamp" "map_of D2A_CLASSES ''rise_time'' = Some CRamp"
      "map_of D2A_CLASSES ''fall_time'' = Some CRamp" "map_of D2A_CLASSES ''delay'' = Some CTime"
      "map_of D2A_CLASSES ''rise_delay'' = Some CTime" "map_of D2A_CLASSES ''fall_delay'' = Some CTime"
    by (simp_all add: D2A_CLASSES_def)
  have a: "map_of A2D_CLASSES ''rf_time'' = None" "map_of A2D_CLASSES ''delay'' = None"
    by (simp_all add: A2D_CLASSES_def)
  from assms(3) show ?thesis
  proof (elim disjE)
    assume "cs = D2A_CLASSES"
    then show ?thesis using v k assms(2) d by auto
  next
    assume "cs = A2D_CLASSES"
    then show ?thesis using k assms(2) a by auto
  next
    assume "cs = [(''r'', COhms)]"
    then show ?thesis using k assms(2) by auto
  qed
next
  case False
  then have "k = k0 \<and> v = v0" using assms(1) by (auto simp: expand_param_def split: if_splits)
  then show ?thesis using assms(2) by simp
qed

lemma KEYS_cases:
  assumes "KEYS kind = Some keys"
  shows "(kind = ''d2a'' \<and> keys = map_of D2A_CLASSES) \<or> (kind = ''a2d'' \<and> keys = map_of A2D_CLASSES) \<or>
     (kind = ''map_by_node'' \<and> keys = map_of [(''r'', COhms)])"
  using assms by (simp add: KEYS_def split: if_splits)

lemma merged_readable:
  assumes "checked cfg" "rk \<in> {''d2a'', ''a2d''}"
    and "rs_merged (rules_loop env (ac_rules cfg) h) rk k = Some (v, i)"
  obtains cls where "merged_class rk k = Some cls" "readable cls v"
proof -
  let ?r = "ac_rules cfg ! i"
  note m = merged_setting [OF assms(3)]
  then obtain k0 v0 where p: "(k0, v0) \<in> set (ir_params ?r)" "(k, v, i) \<in> set (expand_param i (k0, v0))"
    by auto
  have "\<not> has_errors (check_rule ?r)" using assms(1) m by (simp add: checked_def)
  from check_rule_params [OF this p(1)] obtain keys cls
    where c: "KEYS (ir_kind ?r) = Some keys" "keys k0 = Some cls" "readable cls v0" .
  have kind: "ir_kind ?r = rk \<or> (rk = ''d2a'' \<and> ir_kind ?r = ''map_by_node'')"
    using m by (auto simp: direction_of_def split: if_splits)
  have r: "map_of D2A_CLASSES ''r'' = None" by (simp add: D2A_CLASSES_def)
  from KEYS_cases [OF c(1)] have "v = v0 \<and> merged_class rk k = Some cls"
  proof (elim disjE conjE)
    assume "ir_kind ?r = ''d2a''" "keys = map_of D2A_CLASSES"
    then show ?thesis using expand_param_class [OF p(2), of D2A_CLASSES cls] c(2) kind r
      by (auto simp: merged_class_def)
  next
    assume "ir_kind ?r = ''a2d''" "keys = map_of A2D_CLASSES"
    then show ?thesis using expand_param_class [OF p(2), of A2D_CLASSES cls] c(2) kind
      by (auto simp: merged_class_def)
  next
    assume "ir_kind ?r = ''map_by_node''" "keys = map_of [(''r'', COhms)]"
    then show ?thesis using expand_param_class [OF p(2), of "[(''r'', COhms)]" cls] c(2) kind
      using assms(2) by (auto simp: merged_class_def split: if_splits)
  qed
  then show thesis using that c(3) by simp
qed


section \<open>Levels of readable values\<close>

text \<open>A merged map all of whose values can be read.\<close>

definition reads :: "string \<Rightarrow> merged \<Rightarrow> bool" where
  "reads rk m \<longleftrightarrow> (\<forall>k v i. m k = Some (v, i) \<longrightarrow> (\<exists>cls. merged_class rk k = Some cls \<and> readable cls v))"

lemma reads_class: "reads rk m \<Longrightarrow> m k = Some (v, i) \<Longrightarrow> merged_class rk k = Some cls \<Longrightarrow> readable cls v"
  unfolding reads_def by (metis option.inject)

lemma rbind_total: "\<exists>x. m = Inr x \<Longrightarrow> (\<And>x. \<exists>y. f x = Inr y) \<Longrightarrow> \<exists>y. rbind m f = Inr y"
  by auto

lemma readable_level: "readable CLevel v \<Longrightarrow> \<exists>x. parse_level v = Inr x"
  by (cases "parse_level v") (auto simp: readable_def)

lemma readable_time: "readable CTime v \<or> readable CRamp v \<Longrightarrow> \<exists>x. parse_time v = Inr x"
  by (cases "parse_time v") (auto simp: readable_def)

lemma readable_number: "readable COhms v \<or> readable CXband v \<Longrightarrow> \<exists>x. number_of v = Inr x"
  by (cases "number_of v") (auto simp: readable_def)

lemma readable_x2v: "readable CX2v v \<Longrightarrow> \<exists>x. py_int (py_strip v) = Inr x"
  by (cases "py_int (py_strip v)") (auto simp: readable_def)

lemma read_level_total:
  assumes "reads kind m" "merged_class kind k = Some CLevel"
  shows "\<exists>x. read_level rules kind m lr k dflt u st = Inr x"
proof (cases "m k")
  case (Some vi)
  then obtain v i where vi: "m k = Some (v, i)" by (cases vi) auto
  obtain x where "parse_level v = Inr x" using readable_level [OF reads_class [OF assms(1) vi assms(2)]] by blast
  then show ?thesis by (cases x; cases st) (simp add: read_level_def vi)
qed (cases st; simp add: read_level_def)

lemma read_time_total:
  assumes "reads ''d2a'' m" "merged_class ''d2a'' k = Some CTime \<or> merged_class ''d2a'' k = Some CRamp"
  shows "\<exists>x. read_time rules m k dflt ramp og = Inr x"
proof (cases "m k")
  case (Some vi)
  then obtain v i where vi: "m k = Some (v, i)" by (cases vi) auto
  obtain x where "parse_time v = Inr x" using readable_time reads_class [OF assms(1) vi] assms(2) by blast
  then show ?thesis by (simp add: read_time_def vi)
qed (simp add: read_time_def)

lemma d2a_classes [simp]:
  "merged_class ''d2a'' ''hiv'' = Some CLevel" "merged_class ''d2a'' ''lov'' = Some CLevel"
  "merged_class ''d2a'' ''rise_time'' = Some CRamp" "merged_class ''d2a'' ''fall_time'' = Some CRamp"
  "merged_class ''d2a'' ''rise_delay'' = Some CTime" "merged_class ''d2a'' ''fall_delay'' = Some CTime"
  "merged_class ''d2a'' ''x2v'' = Some CX2v" "merged_class ''d2a'' ''r'' = Some COhms"
  by (simp_all add: merged_class_def D2A_CLASSES_def)

lemma a2d_classes [simp]:
  "merged_class ''a2d'' ''loth'' = Some CLevel" "merged_class ''a2d'' ''hith'' = Some CLevel"
  "merged_class ''a2d'' ''xband'' = Some CXband" "merged_class ''a2d'' ''midv_time'' = Some CTime"
  by (simp_all add: merged_class_def A2D_CLASSES_def)

lemma read_x2v_total: "reads ''d2a'' m \<Longrightarrow> \<exists>x. read_x2v rules m io = Inr x"
proof (cases "m ''x2v''")
  case (Some vi)
  assume r: "reads ''d2a'' m"
  obtain v i where vi: "m ''x2v'' = Some (v, i)" using Some by (cases vi) auto
  obtain x where "py_int (py_strip v) = Inr x"
    using readable_x2v [OF reads_class [OF r vi]] by auto
  then show ?thesis by (cases io) (simp add: read_x2v_def vi)
qed (cases io; simp add: read_x2v_def)

lemma read_ohms_total: "reads ''d2a'' m \<Longrightarrow> \<exists>x. read_ohms rules m io = Inr x"
proof (cases "m ''r''")
  case (Some vi)
  assume r: "reads ''d2a'' m"
  obtain v i where vi: "m ''r'' = Some (v, i)" using Some by (cases vi) auto
  obtain x where "number_of v = Inr x"
    using readable_number [of v] reads_class [OF r vi] by auto
  then show ?thesis by (cases io) (simp add: read_ohms_def vi)
qed (cases io; simp add: read_ohms_def)

lemma d2a_levels_total:
  assumes "reads ''d2a'' m"
  shows "\<exists>x. d2a_levels rules m sups vr og = Inr x"
proof -
  obtain lr og1 where r: "reference rules ''d2a'' sups vr og = (lr, og1)" by fastforce
  show ?thesis unfolding d2a_levels_def Let_def r split_conv
    by (auto simp del: split_paired_Ex split: prod.split intro!: rbind_total read_level_total read_time_total read_x2v_total
        read_ohms_total assms)
qed

lemma fmt_Inl: "fmt x = Inl e \<Longrightarrow> \<not> finite_float x"
  by (auto simp: fmt_def Let_def split: if_splits)

definition cannot_print :: "pyfloat \<Rightarrow> string" where
  "cannot_print x = ''cannot print '' @ float_repr x @ '' into a netlist''"

lemma crossed_cases:
  "(\<exists>ns. crossed canonical ie og = Inr ns) \<or>
   (\<exists>x. \<not> finite_float x \<and> crossed canonical ie og = Inl (cannot_print x))"
  by (auto simp: crossed_def cannot_print_def Let_def split: sum.splits dest: fmt_Inl)

lemma read_a2d_extra_total: 
  assumes r: "reads ''a2d'' m"
  shows "\<exists>x. read_a2d_extra rules m io = Inr x"
proof -
  have n: "\<exists>x. number_of v = Inr x" if "m ''xband'' = Some (v, i)" for v i
    using readable_number [of v] reads_class [OF r that] by auto
  have t: "\<exists>x. parse_time v = Inr x" if "m ''midv_time'' = Some (v, i)" for v i
    using readable_time [of v] reads_class [OF r that] by auto
  show ?thesis unfolding read_a2d_extra_def
    by (intro rbind_total) (auto split: option.split dest!: n t)
qed

lemma a2d_levels_cases:
  assumes "reads ''a2d'' m"
  shows "(\<exists>x. a2d_levels rules m sups vr canonical og = Inr x) \<or>
    (\<exists>x. \<not> finite_float x \<and> a2d_levels rules m sups vr canonical og = Inl (cannot_print x))"
proof -
  obtain lr og1 where r: "reference rules ''a2d'' sups vr og = (lr, og1)" by fastforce
  let ?mid = "fadd (lr_vss lr) (fmul (float_dec ''0.5'' 0) (fsub (lr_vdd lr) (lr_vss lr)))"
  obtain loth og2 u1 where 1: "read_level rules ''a2d'' m lr ''loth'' ?mid True (og1, False) = Inr (loth, og2, u1)"
    using read_level_total [OF assms a2d_classes(1)] by (metis prod_cases3)
  obtain hith og3 u2 where 2: "read_level rules ''a2d'' m lr ''hith'' ?mid True (og2, u1) = Inr (hith, og3, u2)"
    using read_level_total [OF assms a2d_classes(2)] by (metis prod_cases3)
  obtain x where 3: "read_a2d_extra rules m (mk_a2d loth hith, og3) = Inr x"
    using read_a2d_extra_total [OF assms] by blast
  from crossed_cases [of canonical "mk_a2d loth hith" og3] show ?thesis
    by (elim disjE exE conjE; cases x) (auto simp: a2d_levels_def Let_def r 1 2 3)
qed

lemma checked_resolves:
  assumes "checked cfg"
  shows "(\<exists>res h'. resolve_detail cfg nms ports vr dc h r subckt = Inr (res, h')) \<or>
    (\<exists>x. \<not> finite_float x \<and> resolve_detail cfg nms ports vr dc h r subckt = Inl (cannot_print x))"
proof -
  let ?s = "resolve_rules cfg nms ports dc h r subckt"
  have rd: "reads rk (rs_merged ?s rk)" if "rk \<in> {''d2a'', ''a2d''}" for rk
    unfolding reads_def resolve_rules_def using merged_readable [OF assms that] by blast
  obtain d og1 ud where d: "d2a_levels (ac_rules cfg) (rs_merged ?s ''d2a'') (rs_supply ?s ''d2a'') vr [] = Inr (d, og1, ud)"
    using d2a_levels_total [OF rd] by (metis insertI1 prod_cases3)
  from a2d_levels_cases [OF rd, of "ac_rules cfg" "rs_supply ?s ''a2d''" vr "canonical_of nms" og1] show ?thesis
    by (auto simp: resolve_detail_def resolve_levels_def Let_def d)
qed

end
