(* ===== verification/InitProps.thy ===== *)
theory InitProps
  imports InitFile IeResolveProps
begin

text \<open>
  Lemmas on the control file: what the commands do to the rules and to the other parts of the
  configuration, and the report lines read back.
\<close>

section \<open>Every rule was checked\<close>

lemma rules_cfg_notes [simp]: "ac_rules (cfg_notes ns cfg) = ac_rules cfg"
  by (simp add: cfg_notes_def)

lemma rules_say [simp]: "ac_rules (ps_cfg (say ns p)) = ac_rules (ps_cfg p)"
  by (simp add: say_def on_cfg_def)

lemma cfg_on_cfg [simp]: "ps_cfg (on_cfg f p) = f (ps_cfg p)"
  by (simp add: on_cfg_def)

lemma rules_choose [simp]: "ac_rules (cmd_choose st toks cfg) = ac_rules cfg"
  by (simp add: cmd_choose_def Let_def split: list.split prod.split)

lemma rules_use_spice [simp]: "ac_rules (cmd_use_spice st toks cfg) = ac_rules cfg"
  by (simp add: cmd_use_spice_def Let_def)

lemma rules_bus_format [simp]: "ac_rules (ps_cfg (bus_format st fmts p)) = ac_rules (ps_cfg p)"
  by (simp add: bus_format_def Let_def)

lemma rules_set [simp]: "ac_rules (ps_cfg (cmd_set st toks p)) = ac_rules (ps_cfg p)"
  by (simp add: cmd_set_def split: list.split)

lemma rules_add_port_dir [simp]: "ac_rules (add_port_dir cell o' dirs cfg) = ac_rules cfg"
  by (simp add: add_port_dir_def Let_def split: option.split)

lemma rules_port_dir [simp]: "ac_rules (cmd_port_dir st toks cfg) = ac_rules cfg"
  by (simp add: cmd_port_dir_def Let_def split: option.split)

lemma rules_port_connect [simp]: "ac_rules (cmd_port_connect st toks cfg) = ac_rules cfg"
  by (simp add: cmd_port_connect_def Let_def split: option.split)

lemma rules_remove [simp]: "ac_rules (cmd_remove_d2a st toks cfg) = ac_rules cfg"
  by (simp add: cmd_remove_d2a_def split: sum.split option.split)

lemma rules_disable [simp]: "ac_rules (cmd_disable_ie st toks cfg) = ac_rules cfg"
  by (simp add: cmd_disable_ie_def split: sum.split)

lemma rules_reference [simp]: "ac_rules (cmd_ie_reference_voltage st toks cfg) = ac_rules cfg"
  by (simp add: cmd_ie_reference_voltage_def Let_def split: sum.split option.split)

lemma rules_severity [simp]: "ac_rules (set_severity st toks sev cfg) = ac_rules cfg"
proof -
  have "ac_rules (fold (\<lambda>mid cfg. if py_upper mid = TNF
      then cfg\<lparr>ac_severity_overrides := dict_set TNF sev (ac_severity_overrides cfg)\<rparr>
      else cfg_notes [f mid] cfg) ids cfg) = ac_rules cfg" for ids f
    by (induction ids arbitrary: cfg) simp_all
  then show ?thesis by (simp add: set_severity_def Let_def)
qed

lemma rules_transient [simp]: "ac_rules (cmd_transient_analysis st toks cfg) = ac_rules cfg"
  by (simp add: cmd_transient_analysis_def Let_def)

lemma checked_a2d: "checked cfg \<Longrightarrow> checked (cmd_a2d st toks cfg)"
  by (auto simp: cmd_a2d_def checked_def Let_def split: sum.split prod.split)

lemma checked_rules: "ac_rules cfg' = ac_rules cfg \<Longrightarrow> checked cfg' = checked cfg"
  by (simp add: checked_def)

lemma checked_command:
  assumes "run_command st toks here = Some f" "checked (ps_cfg p)"
  shows "checked (ps_cfg (f p))"
  using assms by (auto simp: run_command_def Let_def checked_a2d cong: checked_rules split: if_splits)

lemma checked_statement: "checked (ps_cfg p) \<Longrightarrow> checked (ps_cfg (plain_statement st here p))"
  by (auto simp: plain_statement_def Let_def checked_command split: option.split)
    (simp_all add: checked_def)

lemma checked_read: "checked (ps_cfg p) \<Longrightarrow> checked (ps_cfg (read_file os cwd env depth path orig p))"
proof (induction os cwd env depth path orig p rule: read_file.induct)
  case (1 os cwd env depth path orig p)
  have say: "checked (ps_cfg (say ns q))" if "checked (ps_cfg q)" for ns q
    using that by (simp add: checked_def)
  show ?case
  proof (cases "os_realpath os path \<in> set (ps_stack p) \<or> depth > MAX_INCLUDE_DEPTH \<or> isl (os_open os path)")
    case True
    then show ?thesis using 1(2) say
      by (subst read_file.simps) (auto simp: Let_def isl_def)
  next
    case False
    then obtain body where o: "os_open os path = Inr body" by (cases "os_open os path") auto
    obtain sts p1 where b: "begin_file os cwd path body p = (sts, p1)" by fastforce
    have p1: "checked (ps_cfg p1)"
      using 1(2) b by (auto simp: begin_file_def Let_def checked_def split: prod.splits)
    let ?f = "\<lambda>st q. if s_keyword st = INCLUDE then
          (case include_file os cwd env st of Inl n \<Rightarrow> say [n] q
           | Inr f \<Rightarrow> read_file os cwd env (depth + 1) f (s_origin st) q)
        else plain_statement st (dirname path) q"
    have step: "checked (ps_cfg (?f st q))" if "st \<in> set sts" "checked (ps_cfg q)" for st q
      using 1(1) [OF refl _ _ o refl b [symmetric] that(1)] that False say checked_statement
      by (auto split: sum.split)
    have "checked (ps_cfg (fold ?f ss p1))" if "set ss \<subseteq> set sts" for ss
      using that p1 by (induction ss arbitrary: p1) (simp_all add: step)
    from this [OF subset_refl] show ?thesis using False o b
      by (subst read_file.simps) (simp add: Let_def)
  qed
qed

lemma checked_parse: "checked (parse_control os paths cwd env)"
proof -
  have say: "checked (ps_cfg (say ns q)) = checked (ps_cfg q)" for ns q by (simp add: checked_def)
  have m: "checked (ps_cfg (mine os cwd env q)) = checked (ps_cfg q)" for q
    by (simp add: mine_def Let_def checked_def)
  have step: "checked (ps_cfg (snd (snd (control_file os cwd env name s))))"
    if "checked (ps_cfg (snd (snd s)))" for name s
    using that by (auto simp: control_file_def Let_def say checked_read split: prod.split)
  have "checked (ps_cfg (snd (snd (fold (control_file os cwd env) ns s))))"
    if "checked (ps_cfg (snd (snd s)))" for ns s
    using that by (induction ns arbitrary: s) (simp_all add: step)
  from this [of "([], [], parser_init cwd)" paths]
  have "checked (ps_cfg (snd (snd (fold (control_file os cwd env) paths ([], [], parser_init cwd)))))"
    by (simp add: parser_init_def mk_config_def checked_def)
  moreover have "checked (cfg_notes ns c) = checked c" for ns c by (simp add: checked_def)
  ultimately show ?thesis
    by (auto simp: parse_control_def Let_def say m split: prod.split) (simp add: mk_config_def checked_def)
qed

end
