(* ===== verification/IePaste.thy ===== *)
theory IePaste
  imports InitProps
begin

text \<open>
  The report lines that \<open>paste_line\<close> writes, read back by the control file's reader: the lexer gives
  one statement, its words are the keys, the rule passes the check, and resolving the node with it
  gives the levels of the line.
\<close>

section \<open>The texts of numbers\<close>

lemma printable_space: "code_in 33 126 c \<Longrightarrow> \<not> re_space c"
proof -
  assume "code_in 33 126 c"
  then have "\<not> code_in 9 13 c \<and> \<not> code_in 28 32 c \<and> of_char c \<notin> {133, 160 :: nat}"
    by (auto simp: code_in_def)
  then show ?thesis by (simp add: re_space_def)
qed

definition num_char :: "char \<Rightarrow> bool" where
  "num_char c \<longleftrightarrow> re_digit c \<or> c \<in> set ''.e+-''"

lemma num_digits: "list_all re_digit ds \<Longrightarrow> list_all num_char ds"
  by (auto simp: num_char_def list_all_iff)

lemma exp_part_chars: "list_all num_char (exp_part e)"
  using pad2_digits [of "\<bar>the e\<bar>"] num_digits [of "pad2 (show_digits \<bar>the e\<bar>)"]
  by (cases e) (auto simp: exp_part_def num_char_def)

lemma repr_mag_chars: "dbl_mag q \<Longrightarrow> repr_mag q \<noteq> [] \<and> list_all num_char (repr_mag q)"
proof (cases "q = 0")
  case False
  assume "dbl_mag q"
  then have q: "q > 0" "rmag q = q" using False by (auto simp: dbl_mag_def)
  obtain m j where mj: "shortest_dec q = Some (m, j)" "m > 0"
    using shortest_dec_some [OF q] by metis
  obtain m' j' where z: "strip_zeros m j = (m', j')" by (cases "strip_zeros m j")
  obtain ip fp e where l: "layout_dec m' j' = dec_mant ip fp @ exp_part e"
      "list_all re_digit ip" "ip \<noteq> []" "list_all re_digit fp"
    using layout_dec_shape [of m' j'] strip_zeros_value [OF mj(2) z] by blast
  then have "list_all num_char (layout_dec m' j')" "layout_dec m' j' \<noteq> []"
    using num_digits exp_part_chars by (auto simp: dec_mant_def num_char_def)
  then show ?thesis using False mj z by (simp add: repr_mag_def)
qed (simp add: repr_mag_def num_char_def re_digit_def code_in_def)

text \<open>A finite double that is not the negative zero.\<close>

definition writable :: "pyfloat \<Rightarrow> bool" where
  "writable x \<longleftrightarrow> is_double x \<and> finite_float x \<and> plain_zero x = x"

definition fmt_text :: "pyfloat \<Rightarrow> string" where
  "fmt_text x = (case fmt x of Inr t \<Rightarrow> t | Inl _ \<Rightarrow> [])"

lemma fmt_text: "writable x \<Longrightarrow> fmt x = Inr (fmt_text x)"
  by (auto simp: writable_def fmt_def fmt_text_def Let_def)

lemma fmt_text_chars: "writable x \<Longrightarrow> fmt_text x \<noteq> [] \<and> list_all num_char (fmt_text x)"
proof -
  assume w: "writable x"
  then obtain sg q where x: "x = Fin sg q" "dbl_mag q" by (cases x) (auto simp: writable_def)
  define t where "t = float_repr x"
  have "t \<noteq> [] \<and> list_all num_char t"
    using repr_mag_chars [OF x(2)] by (simp add: t_def x(1) num_char_def)
  moreover have "list_all num_char ''0.0''" by (simp add: num_char_def re_digit_def code_in_def)
  moreover have "fmt_text x = (if t = ''-0.0'' then ''0.0'' else t)"
    by (simp only: fmt_text_def fmt_def t_def Let_def) (simp add: x(1))
  ultimately show ?thesis by simp
qed

lemma parse_fmt_text: "writable x \<Longrightarrow> parse_number (fmt_text x) = Inr x"
proof -
  assume w: "writable x"
  then obtain t where "fmt x = Inr t" "parse_number t = Inr (plain_zero x)"
    using fmt_reads_back [of x] by (metis writable_def)
  then show ?thesis using w by (simp add: writable_def fmt_text_def)
qed

lemma no_space: "list_all num_char t \<Longrightarrow> py_strip t = t"
proof -
  assume t: "list_all num_char t"
  have s: "\<not> py_isspace c" if "num_char c" for c
  proof (rule printable_space)
    from that consider "code_in 48 57 c" | "c \<in> set ''.e+-''"
      unfolding num_char_def re_digit_def by auto
    then show "code_in 33 126 c" by cases (auto simp: code_in_def)
  qed
  have d: "dropWhile py_isspace u = u" if "list_all num_char u" for u
    using that s by (cases u) auto
  show ?thesis using t d [of t] d [of "rev t"] by (simp add: py_strip_def list_all_iff)
qed

lemma number_fmt_text: "writable x \<Longrightarrow> number_of (fmt_text x) = Inr x"
  by (simp add: number_of_def parse_fmt_text)

lemma not_percent: "list_all num_char t \<Longrightarrow> \<not> ends_percent t"
proof -
  assume t: "list_all num_char t"
  have "\<not> num_char CHR ''%''" by (simp add: num_char_def re_digit_def code_in_def)
  then show ?thesis using t last_in_set [of t] unfolding ends_percent_def list_all_iff by metis
qed

lemma parse_level_fmt: "writable x \<Longrightarrow> parse_level (fmt_text x) = Inr (x, False)"
  using fmt_text_chars [of x] number_fmt_text [of x]
  by (simp add: parse_level_def Let_def no_space not_percent writable_def)

lemma parse_time_fmt: "writable x \<Longrightarrow> parse_time (fmt_text x) = Inr x"
  using fmt_text_chars [of x] number_fmt_text [of x]
  by (simp add: parse_time_def Let_def no_space not_percent writable_def)

section \<open>Words and statements\<close>

text \<open>Characters that neither the lexer nor \<open>tokens\<close> treats specially.\<close>

definition plain_char :: "char \<Rightarrow> bool" where
  "plain_char c \<longleftrightarrow> name_char c \<or> c \<in> set ''.[]+-''"

definition pair_char :: "char \<Rightarrow> bool" where
  "pair_char c \<longleftrightarrow> plain_char c \<or> c = CHR ''=''"

lemma num_plain: "num_char c \<Longrightarrow> plain_char c"
proof -
  assume "num_char c"
  then consider "re_digit c" | "c = CHR ''e''" | "c \<in> set ''.+-''" by (auto simp: num_char_def)
  then show ?thesis by cases (simp_all add: plain_char_def name_char_def ascii_letter_def code_in_def, blast)
qed

lemma not_pair_char:
  "\<not> pair_char CHR ''$''" "\<not> pair_char CHR 0x22" "\<not> pair_char backslash" "\<not> pair_char CHR '',''"
  "\<not> pair_char CHR ''(''" "\<not> pair_char CHR '')''" "\<not> pair_char CHR ''{''" "\<not> pair_char CHR ''}''"
  "\<not> pair_char CHR '';''" "\<not> pair_char CHR ''/''" "\<not> pair_char CHR ''\<newline>''" "\<not> pair_char CHR 0x0D"
  "\<not> pair_char CHR ''*''"
  by (simp_all add: pair_char_def plain_char_def name_char_def ascii_letter_def re_digit_def code_in_def backslash_def)

lemma pair_char_space: "pair_char c \<Longrightarrow> \<not> py_isspace c"
proof (rule printable_space)
  assume "pair_char c"
  then consider "code_in 48 57 c" | "code_in 65 90 c" | "code_in 97 122 c" | "c = CHR ''_''" | "c \<in> set ''.[]+-=''"
    unfolding pair_char_def plain_char_def name_char_def ascii_letter_def re_digit_def by auto
  then show "code_in 33 126 c" by cases (auto simp: code_in_def)
qed

lemma pair_char_simps:
  assumes "pair_char c"
  shows "\<not> py_isspace c" "\<not> token_stop c" "c \<noteq> CHR ''$''" "c \<noteq> CHR 0x22" "c \<noteq> backslash" "c \<noteq> CHR '',''"
    "c \<noteq> CHR ''(''" "c \<noteq> CHR '')''" "c \<noteq> CHR ''{''" "c \<noteq> CHR ''}''" "c \<noteq> CHR '';''" "c \<noteq> CHR ''/''"
    "c \<noteq> CHR ''\<newline>''" "c \<noteq> CHR 0x0D" "c \<noteq> CHR ''*''"
  using assms not_pair_char pair_char_space [OF assms] by (auto simp: token_stop_def)

lemma token_word_plain:
  assumes "list_all pair_char w" "r = [] \<or> token_stop (hd r) \<and> hd r \<noteq> CHR ''$'' \<and> hd r \<noteq> CHR 0x22 \<and> hd r \<noteq> backslash"
  shows "token_word buf (w @ r) = (buf @ w, r)"
  using assms
proof (induction w arbitrary: buf)
  case Nil
  then show ?case by (cases r) (auto simp: token_word.simps(2))
next
  case (Cons c w)
  then show ?case using pair_char_simps [of c] by (simp add: token_word.simps(2))
qed

lemma tokens_word:
  assumes "list_all pair_char w" "w \<noteq> []" "r = [] \<or> hd r = CHR '' ''"
  shows "tokens (w @ r) = w # tokens r"
proof -
  obtain c w' where w: "w = c # w'" using assms(2) by (cases w) auto
  have stop: "token_stop CHR '' ''" "CHR '' '' \<noteq> backslash"
    by (simp_all add: token_stop_def backslash_def re_space_def code_in_def)
  have "token_word [] (w @ r) = (w, r)"
    using token_word_plain [OF assms(1), of r "[]"] assms(3) stop by auto
  then show ?thesis using pair_char_simps [of c] assms(1) w by simp
qed

lemma tokens_join:
  "(\<And>w. w \<in> set ws \<Longrightarrow> w \<noteq> [] \<and> list_all pair_char w) \<Longrightarrow> tokens (py_join '' '' ws) = ws"
proof (induction ws rule: induct_list012)
  case (2 w)
  then show ?case using tokens_word [of w "[]"] by simp
next
  case (3 w v ws)
  have "py_isspace CHR '' ''" by (simp add: re_space_def code_in_def)
  then show ?case using 3 tokens_word [of w "CHR '' '' # py_join '' '' (v # ws)"] by simp
qed simp


section \<open>One statement on one line\<close>

definition line_char :: "char \<Rightarrow> bool" where
  "line_char c \<longleftrightarrow> pair_char c \<or> c = CHR '' ''"

lemma line_char_simps:
  assumes "line_char c"
  shows "c \<noteq> CHR 0x22" "c \<noteq> CHR ''(''" "c \<noteq> CHR '')''" "c \<noteq> CHR ''{''" "c \<noteq> CHR ''}''" "c \<noteq> CHR '';''"
    "c \<noteq> CHR ''/''" "c \<noteq> CHR ''\<newline>''" "c \<noteq> CHR 0x0D"
proof -
  have "\<not> line_char CHR 0x22" "\<not> line_char CHR ''(''" "\<not> line_char CHR '')''" "\<not> line_char CHR ''{''"
      "\<not> line_char CHR ''}''" "\<not> line_char CHR '';''" "\<not> line_char CHR ''/''" "\<not> line_char CHR ''\<newline>''"
      "\<not> line_char CHR 0x0D"
    by (simp_all add: line_char_def not_pair_char)
  then show "c \<noteq> CHR 0x22" "c \<noteq> CHR ''(''" "c \<noteq> CHR '')''" "c \<noteq> CHR ''{''" "c \<noteq> CHR ''}''" "c \<noteq> CHR '';''"
    "c \<noteq> CHR ''/''" "c \<noteq> CHR ''\<newline>''" "c \<noteq> CHR 0x0D"
    using assms by metis+
qed

lemma start_stmt_started [simp]: "lx_started lx \<Longrightarrow> start_stmt lno s lx = lx"
  by (simp add: start_stmt_def)

lemma add_cur_simps [simp]:
  "lx_started (add_cur s lx) = lx_started lx" "lx_comment (add_cur s lx) = lx_comment lx"
  "lx_depth (add_cur s lx) = lx_depth lx" "lx_cur (add_cur s lx) = lx_cur lx @ s"
  "add_cur t (add_cur s lx) = add_cur (s @ t) lx"
  by (simp_all add: add_cur_def)

lemma scan_plain:
  assumes "list_all line_char w" "lx_started lx" "lx_comment lx = None" "lx_depth lx = 0"
  shows "scan_line label lno False False (w @ r) lx = scan_line label lno False False r (add_cur w lx)"
  using assms
proof (induction w arbitrary: lx)
  case Nil
  then show ?case by (simp add: add_cur_def)
next
  case (Cons c w)
  then show ?case using line_char_simps [of c] by simp
qed

lemma begin_line_idle: "lx_depth lx = 0 \<Longrightarrow> \<not> lx_started lx \<Longrightarrow> begin_line label s lx = lx"
  by (simp add: begin_line_def split: option.split)

text \<open>A line \<open>kw ...;\<close> of plain characters is one statement.\<close>

lemma cmd_word_kw:
  assumes "list_all name_char kw" "kw \<noteq> []" "name_start (hd kw)"
  shows "cmd_word (kw @ CHR '' '' # r) = Some (kw, CHR '' '' # r)"
proof -
  obtain c k where k: "kw = c # k" using assms(2) by (cases kw) auto
  have "c \<noteq> CHR ''`''" using assms(3) k by (auto simp: name_start_def ascii_letter_def code_in_def)
  moreover have "py_span name_char (kw @ CHR '' '' # r) = (kw, CHR '' '' # r)"
    using assms(1) by (intro py_span_append) (auto simp: list_all_iff name_char_def ascii_letter_def re_digit_def code_in_def)
  ultimately show ?thesis using assms(3) k by (simp add: cmd_word_def)
qed

text \<open>A command of plain characters: its word and the rest of its text.\<close>

definition plain_line :: "string \<times> string \<Rightarrow> bool" where
  "plain_line = (\<lambda>(kw, w). list_all name_char kw \<and> kw \<noteq> [] \<and> name_start (hd kw) \<and> py_lower kw = kw \<and>
     map_of RAW kw = None \<and> list_all line_char w \<and> py_strip (kw @ CHR '' '' # w) = kw @ CHR '' '' # w)"

definition cmd_line :: "string \<times> string \<Rightarrow> string" where
  "cmd_line = (\<lambda>(kw, w). kw @ CHR '' '' # w @ '';'')"

definition line_stmt :: "string \<Rightarrow> nat \<times> string \<times> string \<Rightarrow> stmt" where
  "line_stmt label = (\<lambda>(i, kw, w).
     \<lparr>s_keyword = kw, s_text = kw @ CHR '' '' # w, s_origin = line_origin label i, s_raw = []\<rparr>)"

lemma strip_blank: "list_all py_isspace b \<Longrightarrow> py_strip (b @ t) = py_strip t"
proof -
  assume "list_all py_isspace b"
  then have "dropWhile py_isspace (b @ t) = dropWhile py_isspace t"
    by (simp add: list_all_iff)
  then show ?thesis by (simp add: py_strip_def)
qed

lemma scan_statement:
  assumes cl: "plain_line (kw, w)" and i: "\<not> lx_started lx" "lx_comment lx = None" "lx_depth lx = 0"
    and b: "list_all py_isspace (lx_cur lx)"
  shows "scan_line label lno True False (cmd_line (kw, w)) lx =
    ((reset_cur lx)\<lparr>lx_out := lx_out lx @ [line_stmt label (lno, kw, w)]\<rparr>, False)"
proof -
  have kw: "list_all name_char kw" "kw \<noteq> []" "name_start (hd kw)" "py_lower kw = kw" "map_of RAW kw = None"
    and w: "list_all line_char w" and strip: "py_strip (kw @ CHR '' '' # w) = kw @ CHR '' '' # w"
    using cl by (simp_all add: plain_line_def)
  obtain c k where k: "kw = c # k" using kw(2) by (cases kw) auto
  have nc: "line_char x" if "name_char x" for x using that by (simp add: line_char_def pair_char_def plain_char_def)
  have c: "line_char c" "pair_char c" using kw(1) k nc by (auto simp: pair_char_def plain_char_def)
  let ?r = "CHR '' '' # w @ '';''"
  let ?lx = "lx\<lparr>lx_started := True, lx_line0 := lno, lx_kw := kw\<rparr>"
  have st: "start_stmt lno (kw @ ?r) lx = ?lx"
    using cmd_word_kw [OF kw(1-3), of "w @ '';''"] kw(4) i by (simp add: start_stmt_def)
  have "scan_line label lno True False (kw @ ?r) lx =
      scan_line label lno False False (k @ ?r) (add_cur [c] (start_stmt lno (kw @ ?r) lx))"
    using line_char_simps [OF c(1)] pair_char_simps [OF c(2)] i begin_line_idle [OF i(3,1)] st
    by (simp add: k)
  also have "\<dots> = scan_line label lno False False ((k @ CHR '' '' # w) @ '';'') (add_cur [c] ?lx)" by (simp add: st)
  also have "\<dots> = scan_line label lno False False '';'' (add_cur (k @ CHR '' '' # w) (add_cur [c] ?lx))"
    using kw(1) k w nc i by (intro scan_plain) (auto simp: list_all_iff line_char_def)
  also have "\<dots> = scan_line label lno False False '';'' (add_cur (kw @ CHR '' '' # w) ?lx)" by (simp add: k)
  finally have s: "scan_line label lno True False (cmd_line (kw, w)) lx =
      scan_line label lno False False '';'' (add_cur (kw @ CHR '' '' # w) ?lx)" by (simp add: cmd_line_def)
  have "py_strip (lx_cur lx @ kw @ CHR '' '' # w) = kw @ CHR '' '' # w"
    using strip strip_blank [OF b, of "kw @ CHR '' '' # w"] by simp
  then have f: "finish_stmt label (add_cur (kw @ CHR '' '' # w) ?lx) =
      (Some (line_stmt label (lno, kw, w)), (reset_cur lx)\<lparr>lx_out := lx_out lx @ [line_stmt label (lno, kw, w)]\<rparr>)"
    by (simp add: finish_stmt_def add_cur_def reset_cur_def line_stmt_def Let_def)
  show ?thesis unfolding s using kw(5) i f
    by (simp add: end_stmt_def re_space_def code_in_def line_stmt_def)
qed

text \<open>The state between two lines: nothing open, and only blanks since the last statement.\<close>

definition idle :: "diag list \<Rightarrow> lex_state \<Rightarrow> bool" where
  "idle ns lx \<longleftrightarrow> lx = (lex_init ns)\<lparr>lx_out := lx_out lx, lx_cur := lx_cur lx\<rparr> \<and> list_all py_isspace (lx_cur lx)"

lemma idle_simps:
  assumes "idle ns lx"
  shows "\<not> lx_started lx" "lx_comment lx = None" "lx_depth lx = 0" "lx_raw lx = None" "lx_kw lx = []"
    "lx_notes lx = ns" "list_all py_isspace (lx_cur lx)"
proof -
  obtain out cur where "lx = (lex_init ns)\<lparr>lx_out := out, lx_cur := cur\<rparr>" "list_all py_isspace cur"
    using assms unfolding idle_def by metis
  then show "\<not> lx_started lx" "lx_comment lx = None" "lx_depth lx = 0" "lx_raw lx = None" "lx_kw lx = []"
    "lx_notes lx = ns" "list_all py_isspace (lx_cur lx)"
    by (simp_all add: lex_init_def)
qed

lemma idle_line:
  assumes "idle ns lx" "plain_line c"
  shows "idle ns (lex_line label (lno, cmd_line c) lx) \<and>
    lx_out (lex_line label (lno, cmd_line c) lx) = lx_out lx @ [line_stmt label (lno, c)]"
proof -
  obtain kw w where c: "c = (kw, w)" by (cases c)
  note i = idle_simps [OF assms(1)]
  have cr: "strip_cr (cmd_line c) = cmd_line c" by (simp add: strip_cr_def c cmd_line_def)
  have nl: "py_isspace CHR ''\<newline>''" by (simp add: re_space_def code_in_def)
  obtain out cur where lx: "lx = (lex_init ns)\<lparr>lx_out := out, lx_cur := cur\<rparr>"
    using assms(1) unfolding idle_def by metis
  have "lex_line label (lno, cmd_line c) lx =
      add_cur [CHR ''\<newline>''] ((reset_cur lx)\<lparr>lx_out := lx_out lx @ [line_stmt label (lno, c)]\<rparr>)"
    using scan_statement [OF assms(2) [unfolded c] i(1-3,7), of label lno] i
    by (simp add: lex_line_def cr c Let_def end_line_def reset_cur_def strip_cr_def cmd_line_def)
  then show ?thesis using nl by (simp add: idle_def lx lex_init_def reset_cur_def add_cur_def)
qed

lemma idle_lines:
  assumes "list_all plain_line cs" "idle ns lx"
  shows "idle ns (fold (lex_line label) (enumerate k (map cmd_line cs)) lx) \<and>
    lx_out (fold (lex_line label) (enumerate k (map cmd_line cs)) lx) = lx_out lx @ map (line_stmt label) (enumerate k cs)"
  using assms
proof (induction cs arbitrary: k lx)
  case (Cons c cs)
  let ?lx = "lex_line label (k, cmd_line c) lx"
  have "idle ns ?lx" "lx_out ?lx = lx_out lx @ [line_stmt label (k, c)]"
    using idle_line [OF Cons.prems(2)] Cons.prems(1) by simp_all
  then show ?case using Cons.IH [of ?lx "Suc k"] Cons.prems(1) by simp
qed simp

lemma plain_line_chars:
  assumes "plain_line c"
  shows "CHR ''\<newline>'' \<notin> set (cmd_line c)"
proof -
  obtain kw w where c: "c = (kw, w)" by (cases c)
  have nc: "line_char x" if "name_char x" for x using that by (simp add: line_char_def pair_char_def plain_char_def)
  have "line_char x \<or> x = CHR '' '' \<or> x = CHR '';''" if "x \<in> set (cmd_line c)" for x
    using that assms nc by (auto simp: c cmd_line_def plain_line_def list_all_iff)
  then show ?thesis using line_char_simps(8) by blast
qed

lemma lex_plain_lines:
  assumes "list_all plain_line cs" "cs \<noteq> []"
  shows "lex_control (py_join [CHR ''\<newline>''] (map cmd_line cs)) label ns =
    (map (line_stmt label) (enumerate 1 cs), ns)"
proof -
  have s: "py_split CHR ''\<newline>'' (py_join [CHR ''\<newline>''] (map cmd_line cs)) = map cmd_line cs"
    using assms plain_line_chars by (intro py_split_join) (auto simp: list_all_iff)
  let ?lx = "fold (lex_line label) (enumerate 1 (map cmd_line cs)) (lex_init ns)"
  have "idle ns (lex_init ns)" by (simp add: idle_def lex_init_def)
  then have i: "idle ns ?lx" "lx_out ?lx = map (line_stmt label) (enumerate 1 cs)"
    using idle_lines [OF assms(1), of ns "lex_init ns" label 1] by (simp_all add: lex_init_def)
  have "end_file label ?lx = ?lx"
    using idle_simps [OF i(1)] by (simp add: end_file_def)
  then show ?thesis using i idle_simps(6) [OF i(1)] by (simp add: lex_control_def s)
qed


section \<open>Keys and values\<close>

text \<open>A pair as a word: a flag has no value.\<close>

definition pair_word :: "string \<times> string \<Rightarrow> string" where
  "pair_word = (\<lambda>(k, v). if v = [] then k else k @ CHR ''='' # v)"

definition good_pair :: "string \<times> string \<Rightarrow> bool" where
  "good_pair = (\<lambda>(k, v). k \<noteq> [] \<and> list_all name_char k \<and> py_lower k = k \<and> list_all plain_char v)"

lemma plain_not: "plain_char c \<Longrightarrow> c \<noteq> CHR ''=''"
proof -
  have "\<not> plain_char CHR ''=''" by (simp add: plain_char_def name_char_def ascii_letter_def re_digit_def code_in_def)
  then show "plain_char c \<Longrightarrow> c \<noteq> CHR ''=''" by blast
qed

lemma name_plain: "name_char c \<Longrightarrow> plain_char c"
  by (simp add: plain_char_def)

lemma pair_word_chars:
  assumes "good_pair p"
  shows "pair_word p \<noteq> []" "list_all pair_char (pair_word p)" "hd (pair_word p) \<noteq> CHR ''=''" "last (pair_word p) \<noteq> CHR ''=''"
proof -
  obtain k v where p: "p = (k, v)" by (cases p)
  obtain c k' where k: "k = c # k'" using assms p by (cases k) (auto simp: good_pair_def)
  have all: "list_all plain_char k" "list_all plain_char v"
    using assms p name_plain by (auto simp: good_pair_def list_all_iff)
  show "pair_word p \<noteq> []" by (simp add: p k pair_word_def)
  show "list_all pair_char (pair_word p)"
    using all by (auto simp: p pair_word_def list_all_iff pair_char_def)
  show "hd (pair_word p) \<noteq> CHR ''=''" using all k plain_not by (simp add: p pair_word_def)
  have "plain_char (last (pair_word p))"
    using all k last_in_set [of k] last_in_set [of v] by (auto simp: p pair_word_def list_all_iff)
  then show "last (pair_word p) \<noteq> CHR ''=''" by (rule plain_not)
qed

lemma endswith_last: "py_endswith t [c] \<longleftrightarrow> t \<noteq> [] \<and> last t = c"
  by (cases t rule: rev_cases) (auto simp: py_endswith_def)

lemma startswith_hd: "py_startswith t [c] \<longleftrightarrow> t \<noteq> [] \<and> hd t = c"
  by (cases t) auto

lemma kv_words: "list_all good_pair ps \<Longrightarrow> kv_loop out (map pair_word ps) = out @ map pair_word ps"
proof (induction ps arbitrary: out)
  case (Cons p ps)
  then have g: "good_pair p" by simp
  have "pair_word p \<noteq> ''=''" using pair_word_chars(3) [OF g] by auto
  then show ?case using Cons pair_word_chars [OF g] endswith_last [of "pair_word p" "CHR ''=''"]
      startswith_hd [of "pair_word p" "CHR ''=''"] by simp
qed simp

lemma plain_space: "plain_char c \<Longrightarrow> \<not> py_isspace c"
  by (rule pair_char_space) (simp add: pair_char_def)

lemma strip_plain: "list_all plain_char v \<Longrightarrow> py_strip v = v"
proof -
  assume v: "list_all plain_char v"
  have d: "dropWhile py_isspace u = u" if "list_all plain_char u" for u
    using that plain_space by (cases u) auto
  show ?thesis using v d [of v] d [of "rev v"] by (simp add: py_strip_def list_all_iff)
qed

lemma unquote_plain: "list_all plain_char v \<Longrightarrow> unquote v = v"
proof -
  assume v: "list_all plain_char v"
  have "\<not> plain_char CHR 0x22" by (simp add: plain_char_def name_char_def ascii_letter_def re_digit_def code_in_def)
  then have "v \<noteq> [] \<Longrightarrow> hd v \<noteq> CHR 0x22" using v by (cases v) auto
  then show ?thesis using strip_plain [OF v] by (cases v) (auto simp: unquote_def Let_def)
qed

lemma keyval_pair:
  assumes "good_pair p"
  shows "keyval st (pair_word p) = Inr p"
proof -
  obtain k v where p: "p = (k, v)" by (cases p)
  have g: "k \<noteq> []" "list_all name_char k" "py_lower k = k" "list_all plain_char v"
    using assms by (auto simp: p good_pair_def)
  have b: "\<not> head_in (pair_word p) BRACKETS"
    using pair_word_chars(1,2) [OF assms] pair_char_simps [of "hd (pair_word p)"]
    by (cases "pair_word p") (auto simp: head_in_def BRACKETS_def)
  have s: "\<not> py_startswith (pair_word p) ''=''"
    using pair_word_chars(3) [OF assms] startswith_hd by blast
  have kn: "CHR ''='' \<notin> set k" using g(2) plain_not name_plain by (auto simp: list_all_iff)
  then have tw: "takeWhile (\<lambda>c. c \<noteq> CHR ''='') (k @ CHR ''='' # v) = k"
    "dropWhile (\<lambda>c. c \<noteq> CHR ''='') (k @ CHR ''='' # v) = CHR ''='' # v"
    by (induction k) auto
  show ?thesis
  proof (cases "v = []")
    case True
    then show ?thesis using b s kn g by (simp add: keyval_def p pair_word_def)
  next
    case False
    then show ?thesis using b s g tw unquote_plain [OF g(4)]
      by (simp add: keyval_def p pair_word_def)
  qed
qed

lemma keyvals_pairs:
  assumes "list_all good_pair ps"
  shows "keyvals st (kw # map pair_word ps) = Inr ps"
proof -
  have "map (keyval st) (map pair_word ps) = map Inr ps"
    using assms by (auto simp: list_all_iff keyval_pair)
  moreover have "keyval_errors (map Inr ps) = []" "keyval_pairs (map Inr ps) = ps" for ps :: "(string \<times> string) list"
    by (induction ps) auto
  ultimately show ?thesis using kv_words [OF assms, of "[]"] by (simp add: keyvals_def kv_def del: map_map)
qed

lemma dict_set_fresh: "k \<notin> fst ` set d \<Longrightarrow> dict_set k v d = d @ [(k, v)]"
  by (induction d) auto

lemma rule_loop_params:
  assumes "distinct (map fst ps)" "set (map fst ps) \<inter> set SELECTORS = {}" "fst ` set (ir_params r) \<inter> set (map fst ps) = {}"
  shows "rule_loop st (ps @ kvs) r ns = rule_loop st kvs (r\<lparr>ir_params := ir_params r @ ps\<rparr>) ns"
  using assms
proof (induction ps arbitrary: r)
  case (Cons p ps)
  obtain k v where p: "p = (k, v)" by (cases p)
  have "k \<notin> fst ` set (ir_params r)" "k \<notin> set SELECTORS" using Cons.prems p by auto
  then have "rule_loop st ((p # ps) @ kvs) r ns =
      rule_loop st (ps @ kvs) (r\<lparr>ir_params := ir_params r @ [p]\<rparr>) ns"
    by (simp add: p dict_set_fresh)
  also have "\<dots> = rule_loop st kvs (r\<lparr>ir_params := ir_params r @ p # ps\<rparr>) ns"
    using Cons.prems by (subst Cons.IH) (auto simp: p)
  finally show ?case .
qed simp

text \<open>The rule of a line with the keys \<open>ps\<close> and the node last.\<close>

definition pasted_rule :: "string \<Rightarrow> (string \<times> string) list \<Rightarrow> string \<Rightarrow> string \<Rightarrow> ie_rule" where
  "pasted_rule kind ps canonical orig =
     (mk_rule kind)\<lparr>ir_origin := orig, ir_params := ps, ir_node := Some canonical\<rparr>"

lemma cmd_a2d_pasted:
  assumes "list_all good_pair ps" "distinct (map fst ps)" "set (map fst ps) \<inter> set SELECTORS = {}"
    and "good_pair (''node'', canonical)" "canonical \<noteq> []"
    and "\<not> has_errors (check_rule (pasted_rule (s_keyword st) ps canonical (s_origin st)))"
  shows "\<exists>ns. \<not> has_errors ns \<and> cmd_a2d st (kw # map pair_word (ps @ [(''node'', canonical)])) cfg =
     (cfg_notes ns cfg)\<lparr>ac_rules := ac_rules cfg @ [pasted_rule (s_keyword st) ps canonical (s_origin st)]\<rparr>"
proof -
  let ?r = "(mk_rule (s_keyword st))\<lparr>ir_origin := s_origin st\<rparr>"
  have "list_all good_pair (ps @ [(''node'', canonical)])" using assms(1,4) by simp
  then have kv: "keyvals st (kw # map pair_word (ps @ [(''node'', canonical)])) = Inr (ps @ [(''node'', canonical)])"
    by (rule keyvals_pairs)
  have "rule_loop st (ps @ [(''node'', canonical)]) ?r [] =
      Inr (pasted_rule (s_keyword st) ps canonical (s_origin st), [])"
    using assms(5) by (subst rule_loop_params [OF assms(2,3)])
      (simp_all add: mk_rule_def SELECTORS_def get_sel_def set_sel_def pasted_rule_def)
  then show ?thesis using assms(6) unfolding cmd_a2d_def kv
    by (intro exI [of _ "check_rule (pasted_rule (s_keyword st) ps canonical (s_origin st))"])
      (simp add: Let_def)
qed


section \<open>Pasting a line back\<close>

lemma join_cons: "ws \<noteq> [] \<Longrightarrow> py_join '' '' (w # ws) = w @ CHR '' '' # py_join '' '' ws"
  by (cases ws) simp_all

lemma join_line_chars: "(\<And>w. w \<in> set ws \<Longrightarrow> list_all pair_char w) \<Longrightarrow> list_all line_char (py_join '' '' ws)"
proof (induction ws rule: induct_list012)
  case (2 w)
  then show ?case by (auto simp: line_char_def list_all_iff)
next
  case (3 w v ws)
  then have "list_all pair_char w" "list_all line_char (py_join '' '' (v # ws))" by simp_all
  then show ?case by (auto simp: line_char_def list_all_iff)
qed simp

lemma join_last: "last ws \<noteq> [] \<Longrightarrow> ws \<noteq> [] \<Longrightarrow> py_join '' '' ws \<noteq> [] \<and> last (py_join '' '' ws) = last (last ws)"
  by (induction ws rule: induct_list012) auto

lemma strip_ends: "\<not> py_isspace (hd t) \<Longrightarrow> \<not> py_isspace (last t) \<Longrightarrow> py_strip t = t"
proof -
  assume t: "\<not> py_isspace (hd t)" "\<not> py_isspace (last t)"
  have "dropWhile py_isspace t = t" using t(1) by (cases t) simp_all
  moreover have "dropWhile py_isspace (rev t) = rev t" using t(2) by (cases t rule: rev_cases) simp_all
  ultimately show ?thesis by (simp add: py_strip_def)
qed

lemma join_snoc: "ws \<noteq> [] \<Longrightarrow> py_join '' '' (ws @ [w]) = py_join '' '' ws @ '' '' @ w"
  by (induction ws rule: induct_list012) simp_all

lemma run_rule: "s_keyword st = ''d2a'' \<or> s_keyword st = ''a2d'' \<Longrightarrow> run_command st ts here = Some (on_cfg (cmd_a2d st ts))"
  by (elim disjE) (simp_all add: run_command_def)

text \<open>A report line is a plain line.\<close>

definition paste_text :: "(string \<times> string) list \<Rightarrow> string \<Rightarrow> string" where
  "paste_text ps canonical = py_join '' '' (map pair_word (ps @ [(''node'', canonical)]))"

lemma pasted_plain:
  assumes kind: "kind = ''d2a'' \<or> kind = ''a2d''"
    and ps: "list_all good_pair ps" "ps \<noteq> []"
    and c: "list_all plain_char canonical" "canonical \<noteq> []"
  shows "plain_line (kind, paste_text ps canonical)"
    "line_of kind (map pair_word ps) canonical = cmd_line (kind, paste_text ps canonical)"
    "tokens (kind @ CHR '' '' # paste_text ps canonical) = kind # map pair_word (ps @ [(''node'', canonical)])"
proof -
  let ?qs = "ps @ [(''node'', canonical)]"
  have node: "good_pair (''node'', canonical)"
    using c by (simp add: good_pair_def name_char_def ascii_letter_def code_in_def lower_char_def)
  have q: "list_all good_pair ?qs" using ps(1) node by simp
  have words: "w \<noteq> [] \<and> list_all pair_char w" if "w \<in> set (map pair_word ?qs)" for w
    using that q pair_word_chars by (auto simp: list_all_iff)
  have kw: "list_all name_char kind" "kind \<noteq> []" "name_start (hd kind)" "py_lower kind = kind" "map_of RAW kind = None"
    using kind by (auto simp: name_char_def name_start_def ascii_letter_def re_digit_def code_in_def lower_char_def
        RAW_def)
  have kp: "list_all pair_char kind"
    using kw(1) by (auto simp: list_all_iff pair_char_def plain_char_def)
  let ?w = "paste_text ps canonical"
  show "line_of kind (map pair_word ps) canonical = cmd_line (kind, ?w)"
    using ps(2) c(2) join_snoc [of "map pair_word ps" "pair_word (''node'', canonical)"]
    by (simp add: line_of_def cmd_line_def paste_text_def pair_word_def)
  have lw: "list_all line_char ?w" unfolding paste_text_def using words by (intro join_line_chars) blast
  have "last (pair_word (''node'', canonical)) = last canonical" using c(2) by (simp add: pair_word_def)
  then have "?w \<noteq> [] \<and> last ?w = last canonical"
    using join_last [of "map pair_word ?qs"] pair_word_chars(1) [OF node] by (simp add: paste_text_def)
  moreover have "\<not> py_isspace (last canonical)"
    using c last_in_set [of canonical] plain_space by (auto simp: list_all_iff)
  moreover have "\<not> py_isspace (hd kind)"
    using kp kw(2) pair_char_space by (cases kind) auto
  ultimately have "py_strip (kind @ CHR '' '' # ?w) = kind @ CHR '' '' # ?w" using kw(2) by (intro strip_ends) simp_all
  then show "plain_line (kind, ?w)" using kw lw by (simp add: plain_line_def)
  have "kind @ CHR '' '' # ?w = py_join '' '' (kind # map pair_word ?qs)" by (subst join_cons) (simp_all add: paste_text_def)
  then show "tokens (kind @ CHR '' '' # ?w) = kind # map pair_word ?qs"
    using words kp kw(2) by (simp only:) (intro tokens_join, auto)
qed

lemma pasted_rule_read:
  assumes kind: "kind = ''d2a'' \<or> kind = ''a2d''"
    and ps: "list_all good_pair ps" "distinct (map fst ps)" "set (map fst ps) \<inter> set SELECTORS = {}" "ps \<noteq> []"
    and c: "list_all plain_char canonical" "canonical \<noteq> []"
    and check: "\<And>orig. \<not> has_errors (check_rule (pasted_rule kind ps canonical orig))"
  shows "\<exists>ns. \<not> has_errors ns \<and>
     plain_statement (line_stmt label (i, kind, paste_text ps canonical)) here p = p\<lparr>ps_cfg := (cfg_notes ns (ps_cfg p))
        \<lparr>ac_rules := ac_rules (ps_cfg p) @ [pasted_rule kind ps canonical (line_origin label i)]\<rparr>\<rparr>"
proof -
  let ?qs = "ps @ [(''node'', canonical)]" and ?st = "line_stmt label (i, kind, paste_text ps canonical)"
  have node: "good_pair (''node'', canonical)"
    using c by (simp add: good_pair_def name_char_def ascii_letter_def code_in_def lower_char_def)
  have raw: "map_of RAW kind = None" "kind \<notin> set RAW_ENDS"
    using kind by (auto simp: RAW_def RAW_ENDS_def)
  have st: "s_keyword ?st = kind" "s_origin ?st = line_origin label i" "tokens (s_text ?st) = kind # map pair_word ?qs"
    using pasted_plain(3) [OF kind ps(1,4) c] by (simp_all add: line_stmt_def)
  have "run_command ?st (tokens (s_text ?st)) here = Some (on_cfg (cmd_a2d ?st (kind # map pair_word ?qs)))"
    unfolding st(3) using kind by (intro run_rule) (auto simp: st(1))
  then have step: "plain_statement ?st here p = on_cfg (cmd_a2d ?st (kind # map pair_word ?qs)) p"
    using raw by (simp add: plain_statement_def st(1))
  obtain ns where "\<not> has_errors ns" "cmd_a2d ?st (kind # map pair_word ?qs) (ps_cfg p) =
      (cfg_notes ns (ps_cfg p))\<lparr>ac_rules := ac_rules (ps_cfg p) @ [pasted_rule kind ps canonical (line_origin label i)]\<rparr>"
    using cmd_a2d_pasted [OF ps(1-3) node c(2), of ?st kind "ps_cfg p"] check st(1,2) by auto
  then show ?thesis using step by (intro exI [of _ ns]) (simp add: on_cfg_def)
qed

end
