(* ===== verification/PasteLevels.thy ===== *)
theory PasteLevels
  imports IePaste
begin

text \<open>
  What the report lines of a node say of its levels: the pairs that \<open>paste_line\<close> writes for a driver
  or a receiver pass the rule check, and a node resolved with the rule of the line has these levels.
\<close>

section \<open>The line as pairs\<close>

definition texts :: "(string \<times> pyfloat) list \<Rightarrow> (string \<times> string) list" where
  "texts kvs = map (\<lambda>(k, x). (k, fmt_text x)) kvs"

definition d2a_pairs :: "d2a_ie \<Rightarrow> (string \<times> string) list" where
  "d2a_pairs d = (if d_powernet d then [(''powernet'', [])] else []) @
     texts ([(''hiv'', d_hiv d), (''lov'', d_lov d)] @ d2a_timing d) @ [(''x2v'', show_int (d_x2v d))]"

definition a2d_pairs :: "a2d_ie \<Rightarrow> (string \<times> string) list" where
  "a2d_pairs a = texts ([(''loth'', a_loth a), (''hith'', a_hith a)] @
       (case a_xband a of Some x \<Rightarrow> [(''xband'', x)] | None \<Rightarrow> []) @
       (case a_midv_time a of Some x \<Rightarrow> [(''midv_time'', x)] | None \<Rightarrow> [])) @
     (if a_midv_time a \<noteq> None \<or> a_midv_logic a \<noteq> ''X'' then [(''midv_logic'', a_midv_logic a)] else [])"

lemma put_writable: "writable x \<Longrightarrow> put x = Inr (fmt_text x)"
  using fmt_text [of x] by (simp add: put_def)

lemma put_keys_texts:
  "(\<And>k x. (k, x) \<in> set kvs \<Longrightarrow> writable x) \<Longrightarrow> put_keys kvs = Inr (map pair_word (texts kvs))"
proof (induction kvs)
  case (Cons p kvs)
  obtain k x where p: "p = (k, x)" by (cases p)
  have w: "writable x" using Cons.prems [of k x] p by simp
  have "put_keys kvs = Inr (map pair_word (texts kvs))"
  proof (rule Cons.IH)
    show "writable y" if "(j, y) \<in> set kvs" for j y
      using Cons.prems [of j y] that by simp
  qed
  then show ?case using put_writable [OF w] fmt_text_chars [OF w]
    by (simp add: put_keys_def texts_def p pair_word_def)
qed (simp add: put_keys_def texts_def)

lemma good_texts:
  assumes "\<And>k x. (k, x) \<in> set kvs \<Longrightarrow> writable x \<and> k \<noteq> [] \<and> list_all name_char k \<and> py_lower k = k"
  shows "list_all good_pair (texts kvs)"
  using assms fmt_text_chars num_plain by (fastforce simp: texts_def good_pair_def list_all_iff)

section \<open>Drivers and receivers that a report can hold\<close>

text \<open>Levels that resolving gives: finite, the ramps at least the shortest one, no negative delay.\<close>

definition good_d2a :: "d2a_ie \<Rightarrow> bool" where
  "good_d2a d \<longleftrightarrow> list_all writable [d_hiv d, d_lov d, d_rise d, d_fall d, d_delay_rise d, d_delay_fall d] \<and>
     list_all (\<lambda>t. \<not> flt t f0 \<and> \<not> flt t MIN_RAMP) [d_rise d, d_fall d] \<and>
     list_all (\<lambda>t. \<not> flt t f0) [d_delay_rise d, d_delay_fall d] \<and> d_x2v d \<in> {0, 1, 2, 3, 4} \<and>
     d_r_series d = d_r_series DEFAULT_D2A \<and> d_weak_frac d = d_weak_frac DEFAULT_D2A"

definition good_a2d :: "a2d_ie \<Rightarrow> bool" where
  "good_a2d a \<longleftrightarrow> writable (a_loth a) \<and> writable (a_hith a) \<and>
     (case a_xband a of Some x \<Rightarrow> writable x \<and> flt f0 x | None \<Rightarrow> True) \<and>
     (case a_midv_time a of Some x \<Rightarrow> writable x \<and> \<not> flt x f0 | None \<Rightarrow> True) \<and>
     a_midv_logic a \<in> {''0'', ''1'', ''X'', ''Z''}"

lemma writable_eq: "writable x \<Longrightarrow> writable y \<Longrightarrow> feq x y \<longleftrightarrow> x = y"
  by (cases x; cases y) (auto simp: writable_def plain_zero_def fval_def dbl_mag_def split: if_splits)

lemma writable_zero: "writable x \<Longrightarrow> \<not> fnonzero x \<longleftrightarrow> x = f0"
  using writable_eq [of x f0] by (auto simp: fnonzero_def writable_def plain_zero_def f0_def)

lemma show_digit: "n \<in> {0, 1, 2, 3, 4} \<Longrightarrow> show_int n \<in> {''0'', ''1'', ''2'', ''3'', ''4''}"
proof -
  have "show_int 0 = ''0''" "show_int 1 = ''1''" "show_int 2 = ''2''" "show_int 3 = ''3''" "show_int 4 = ''4''"
    by code_simp+
  then show "n \<in> {0, 1, 2, 3, 4} \<Longrightarrow> show_int n \<in> {''0'', ''1'', ''2'', ''3'', ''4''}" by auto
qed

lemma read_digit: "n \<in> {0, 1, 2, 3, 4} \<Longrightarrow> py_int (py_strip (show_int n)) = Inr n"
proof -
  have "py_int (py_strip (show_int 0)) = Inr 0" "py_int (py_strip (show_int 1)) = Inr 1"
    "py_int (py_strip (show_int 2)) = Inr 2" "py_int (py_strip (show_int 3)) = Inr 3"
    "py_int (py_strip (show_int 4)) = Inr 4"
    by code_simp+
  then show "n \<in> {0, 1, 2, 3, 4} \<Longrightarrow> py_int (py_strip (show_int n)) = Inr n" by auto
qed

lemma timing_writable: "good_d2a d \<Longrightarrow> (k, x) \<in> set (d2a_timing d) \<Longrightarrow> writable x"
  by (auto simp: good_d2a_def d2a_timing_def split: if_splits)

lemma d2a_line:
  assumes "good_d2a d"
  shows "paste_line ''d2a'' canonical (IeD d) = Inr (line_of ''d2a'' (map pair_word (d2a_pairs d)) canonical)"
proof -
  have "put_keys ([(''hiv'', d_hiv d), (''lov'', d_lov d)] @ d2a_timing d) =
      Inr (map pair_word (texts ([(''hiv'', d_hiv d), (''lov'', d_lov d)] @ d2a_timing d)))"
    using assms timing_writable [OF assms] by (intro put_keys_texts) (auto simp: good_d2a_def)
  moreover have "pair_word (''powernet'', []) = ''powernet''" by (simp add: pair_word_def)
  moreover have "show_int (d_x2v d) \<noteq> []" using assms show_digit [of "d_x2v d"] by (auto simp: good_d2a_def)
  then have "pair_word (''x2v'', show_int (d_x2v d)) = ''x2v='' @ show_int (d_x2v d)" by (simp add: pair_word_def)
  ultimately show ?thesis by (simp add: paste_line_def d2a_keys_def d2a_pairs_def)
qed

lemma a2d_line:
  assumes "good_a2d a"
  shows "paste_line ''a2d'' canonical (IeA a) = Inr (line_of ''a2d'' (map pair_word (a2d_pairs a)) canonical)"
proof -
  let ?kvs = "[(''loth'', a_loth a), (''hith'', a_hith a)] @
       (case a_xband a of Some x \<Rightarrow> [(''xband'', x)] | None \<Rightarrow> []) @
       (case a_midv_time a of Some x \<Rightarrow> [(''midv_time'', x)] | None \<Rightarrow> [])"
  have "put_keys ?kvs = Inr (map pair_word (texts ?kvs))"
    using assms by (intro put_keys_texts) (auto simp: good_a2d_def split: option.splits)
  moreover have "a_midv_logic a \<noteq> []" using assms by (auto simp: good_a2d_def)
  then have "pair_word (''midv_logic'', a_midv_logic a) = ''midv_logic='' @ a_midv_logic a" by (simp add: pair_word_def)
  ultimately show ?thesis by (simp add: paste_line_def a2d_keys_def a2d_pairs_def)
qed

section \<open>The check of the rule\<close>

lemma check_pasted:
  assumes "KEYS kind = Some keys" "kind \<noteq> ''map_by_node''" "canonical \<noteq> []"
    and "\<And>p. p \<in> set ps \<Longrightarrow> \<not> has_errors (check_param (pasted_rule kind ps canonical orig) keys p)"
    and "\<And>e. e \<in> set EXCLUSIVE \<Longrightarrow> check_exclusive (pasted_rule kind ps canonical orig) e = []"
    and "fst ` set ps \<inter> set SUPPLY_KEYS = {}"
  shows "\<not> has_errors (check_rule (pasted_rule kind ps canonical orig))"
proof -
  let ?r = "pasted_rule kind ps canonical orig"
  have r: "ir_kind ?r = kind" "ir_params ?r = ps" "ir_node ?r = Some canonical" "ir_cell ?r = None"
      "ir_inst ?r = None" "ir_port ?r = None" "ir_library ?r = None"
    by (simp_all add: pasted_rule_def mk_rule_def)
  have "filter (given ?r) SUPPLY_KEYS = []"
    using assms(6) by (auto simp: filter_empty_conv given_def r)
  then have s: "supplies_given ?r = []" by (simp add: supplies_given_def)
  have m: "\<not> has_errors (check_midv ?r)" by (simp add: check_midv_def)
  have sh: "check_shape ?r = []" using assms(2) by (simp add: check_shape_def r)
  have em: "check_empty ?r = []" using assms(3) by (simp add: check_empty_def selectors_of_def r)
  have li: "check_library ?r = []" by (simp add: check_library_def r)
  have ex: "concat (map (check_exclusive ?r) EXCLUSIVE) = []" using assms(5) by simp
  have pa: "\<not> has_errors (concat (map (check_param ?r keys) ps))" using assms(4) by (auto simp: has_errors_concat)
  show ?thesis
    by (simp only: check_rule_def r assms(1) option.case s sh em li ex if_False append_Nil not_True_eq_False
        has_errors_simps m pa) simp
qed

lemma check_class:
  assumes "keys k = Some cls" "cls \<notin> {CFlag, CHiz}" "v \<noteq> []"
    and "check_value (ir_kind r) k cls v r = Inr ns" "\<not> has_errors ns"
  shows "\<not> has_errors (check_param r keys (k, v))"
  using assms by (simp add: check_param_def)

lemma check_fmt_level: "keys k = Some CLevel \<Longrightarrow> writable x \<Longrightarrow> \<not> has_errors (check_param r keys (k, fmt_text x))"
  using fmt_text_chars [of x] parse_level_fmt [of x] by (intro check_class [of keys k CLevel _ r "[]"]) (simp_all add: check_value_def)

lemma check_fmt_time:
  assumes "keys k = Some cls" "cls = CTime \<or> cls = CRamp" "writable x" "\<not> flt x f0"
  shows "\<not> has_errors (check_param r keys (k, fmt_text x))"
proof -
  have "check_time (ir_kind r) k ramp (fmt_text x) (ir_origin r) = Inr (if ramp \<and> flt x MIN_RAMP
      then [mk_note (ir_origin r) (ir_kind r @ '': '' @ k @ ''='' @ fmt_text x @ '' is below 1 fs and is clamped to 1 fs'')] else [])" for ramp
    using assms parse_time_fmt [of x] by (simp add: check_time_def)
  then have "\<exists>ns. check_value (ir_kind r) k cls (fmt_text x) r = Inr ns \<and> \<not> has_errors ns"
    using assms(2) by (auto simp: check_value_def)
  then show ?thesis using assms fmt_text_chars [of x] check_class [of keys k cls "fmt_text x" r] by auto
qed

lemma d2a_pairs_cases:
  assumes "p \<in> set (d2a_pairs d)"
  obtains "p = (''powernet'', [])" "d_powernet d" | "p = (''hiv'', fmt_text (d_hiv d))" | "p = (''lov'', fmt_text (d_lov d))"
  | k x where "k \<in> {''rf_time'', ''rise_time'', ''fall_time''}" "x \<in> {d_rise d, d_fall d}" "p = (k, fmt_text x)"
  | k x where "k \<in> {''delay'', ''rise_delay'', ''fall_delay''}" "x \<in> {d_delay_rise d, d_delay_fall d}" "p = (k, fmt_text x)"
  | "p = (''x2v'', show_int (d_x2v d))"
proof -
  have t: "(k \<in> {''rf_time'', ''rise_time'', ''fall_time''} \<and> x \<in> {d_rise d, d_fall d}) \<or>
      (k \<in> {''delay'', ''rise_delay'', ''fall_delay''} \<and> x \<in> {d_delay_rise d, d_delay_fall d})"
    if "(k, x) \<in> set (d2a_timing d)" for k x
    using that by (auto simp: d2a_timing_def split: if_splits)
  have "(p = (''powernet'', []) \<and> d_powernet d) \<or>
      (\<exists>k x. p = (k, fmt_text x) \<and> (k, x) \<in> set ([(''hiv'', d_hiv d), (''lov'', d_lov d)] @ d2a_timing d)) \<or>
      p = (''x2v'', show_int (d_x2v d))"
    using assms unfolding d2a_pairs_def texts_def by (auto split: if_splits)
  then consider "p = (''powernet'', [])" "d_powernet d" | "p = (''x2v'', show_int (d_x2v d))"
      | k x where "p = (k, fmt_text x)" "(k, x) \<in> {(''hiv'', d_hiv d), (''lov'', d_lov d)}"
      | k x where "p = (k, fmt_text x)" "(k, x) \<in> set (d2a_timing d)"
    by auto
  then show thesis
  proof cases
    case (4 k x)
    then show ?thesis using t [OF 4(2)] that(4,5) by blast
  qed (use that in auto)
qed

lemma d2a_pairs_shape:
  obtains pn rf dl where "map fst (d2a_pairs d) = pn @ [''hiv'', ''lov''] @ rf @ dl @ [''x2v'']"
    "pn = [] \<or> pn = [''powernet'']" "rf = [''rf_time''] \<or> rf = [''rise_time'', ''fall_time'']"
    "dl = [] \<or> dl = [''delay''] \<or> dl = [''rise_delay'', ''fall_delay'']"
proof -
  define pn rf dl where "pn = (if d_powernet d then [''powernet''] else [])"
    and "rf = (if feq (d_rise d) (d_fall d) then [''rf_time''] else [''rise_time'', ''fall_time''])"
    and "dl = (if fnonzero (d_delay_rise d) \<or> fnonzero (d_delay_fall d) then
      (if feq (d_delay_rise d) (d_delay_fall d) then [''delay''] else [''rise_delay'', ''fall_delay'']) else [])"
  have "map fst (d2a_pairs d) = pn @ [''hiv'', ''lov''] @ rf @ dl @ [''x2v'']"
    by (simp add: d2a_pairs_def texts_def d2a_timing_def pn_def rf_def dl_def)
  moreover have "pn = [] \<or> pn = [''powernet'']" "rf = [''rf_time''] \<or> rf = [''rise_time'', ''fall_time'']"
    "dl = [] \<or> dl = [''delay''] \<or> dl = [''rise_delay'', ''fall_delay'']"
    by (simp_all add: pn_def rf_def dl_def)
  ultimately show thesis by (rule that)
qed

lemma d2a_pairs_good:
  assumes "good_d2a d"
  shows "list_all good_pair (d2a_pairs d)"
proof -
  have c: "list_all name_char k \<and> py_lower k = k \<and> k \<noteq> []" if "k \<in> set (map fst D2A_CLASSES)" for k
    using that by (auto simp: D2A_CLASSES_def name_char_def ascii_letter_def re_digit_def code_in_def lower_char_def)
  have w: "good_pair (k, fmt_text x)" if "writable x" "k \<in> set (map fst D2A_CLASSES)" for k x
    using fmt_text_chars [OF that(1)] num_plain c [OF that(2)] by (auto simp: good_pair_def list_all_iff)
  have x: "list_all plain_char (show_int (d_x2v d))"
    using assms show_digit [of "d_x2v d"]
    by (auto simp: good_d2a_def plain_char_def name_char_def re_digit_def code_in_def)
  have "good_pair p" if "p \<in> set (d2a_pairs d)" for p
    using that
  proof (cases rule: d2a_pairs_cases)
    case 1
    then show ?thesis using c [of "''powernet''"] by (simp add: good_pair_def D2A_CLASSES_def)
  next
    case 6
    then show ?thesis using x c [of "''x2v''"] by (simp add: good_pair_def D2A_CLASSES_def)
  qed (use assms w in \<open>auto simp: good_d2a_def D2A_CLASSES_def\<close>)
  then show ?thesis by (simp add: list_all_iff)
qed

definition D2A_WRITTEN :: "string list" where
  "D2A_WRITTEN = [''powernet'', ''hiv'', ''lov'', ''rf_time'', ''rise_time'', ''fall_time'', ''delay'', ''rise_delay'',
     ''fall_delay'', ''x2v'']"

lemma written_disjoint: "set D2A_WRITTEN \<inter> set SELECTORS = {}" "set D2A_WRITTEN \<inter> set SUPPLY_KEYS = {}"
  by (simp_all add: D2A_WRITTEN_def SELECTORS_def SUPPLY_KEYS_def)

lemma d2a_pairs_keys:
  "distinct (map fst (d2a_pairs d))" "set (map fst (d2a_pairs d)) \<inter> set SELECTORS = {}"
  "fst ` set (d2a_pairs d) \<inter> set SUPPLY_KEYS = {}" "d2a_pairs d \<noteq> []"
proof -
  have "fst p \<in> set D2A_WRITTEN" if "p \<in> set (d2a_pairs d)" for p
    using that by (cases rule: d2a_pairs_cases) (auto simp: D2A_WRITTEN_def)
  then have k: "fst ` set (d2a_pairs d) \<subseteq> set D2A_WRITTEN" by blast
  show "set (map fst (d2a_pairs d)) \<inter> set SELECTORS = {}" "fst ` set (d2a_pairs d) \<inter> set SUPPLY_KEYS = {}"
    using k written_disjoint by auto
  show "d2a_pairs d \<noteq> []" by (simp add: d2a_pairs_def)
  show "distinct (map fst (d2a_pairs d))"
    by (rule d2a_pairs_shape [of d]) (elim disjE, simp_all)
qed

lemma d2a_exclusive:
  "''rf_time'' \<in> set (map fst (d2a_pairs d)) \<Longrightarrow>
     ''rise_time'' \<notin> set (map fst (d2a_pairs d)) \<and> ''fall_time'' \<notin> set (map fst (d2a_pairs d))"
  "''delay'' \<in> set (map fst (d2a_pairs d)) \<Longrightarrow>
     ''rise_delay'' \<notin> set (map fst (d2a_pairs d)) \<and> ''fall_delay'' \<notin> set (map fst (d2a_pairs d))"
  "''vdd'' \<notin> set (map fst (d2a_pairs d)) \<and> ''vss'' \<notin> set (map fst (d2a_pairs d))"
  by (rule d2a_pairs_shape [of d], elim disjE, simp_all del: set_map)+

lemma d2a_check:
  assumes "good_d2a d" "canonical \<noteq> []"
  shows "\<not> has_errors (check_rule (pasted_rule ''d2a'' (d2a_pairs d) canonical orig))"
proof (rule check_pasted)
  let ?r = "pasted_rule ''d2a'' (d2a_pairs d) canonical orig" and ?keys = "map_of D2A_CLASSES"
  show "KEYS ''d2a'' = Some ?keys" by (simp add: KEYS_def)
  show "\<not> has_errors (check_param ?r ?keys p)" if "p \<in> set (d2a_pairs d)" for p
    using that
  proof (cases rule: d2a_pairs_cases)
    case 1
    then show ?thesis by (simp add: check_param_def D2A_CLASSES_def)
  next
    case 6
    have v: "show_int (d_x2v d) \<in> {''0'', ''1'', ''2'', ''3'', ''4''}"
      using assms(1) show_digit [of "d_x2v d"] by (simp add: good_d2a_def)
    have "py_strip ''0'' = ''0''" "py_strip ''1'' = ''1''" "py_strip ''2'' = ''2''" "py_strip ''3'' = ''3''"
      "py_strip ''4'' = ''4''"
      by code_simp+
    then have "check_value (ir_kind ?r) ''x2v'' CX2v (show_int (d_x2v d)) ?r = Inr []"
      using v by (auto simp: check_value_def)
    then show ?thesis unfolding 6 using v
      by (intro check_class [of ?keys "''x2v''" CX2v _ ?r "[]"]) (auto simp: D2A_CLASSES_def)
  next
    case (4 k x)
    have "?keys k = Some CRamp" using 4(1) by (elim insertE emptyE) (simp_all add: D2A_CLASSES_def)
    moreover have "writable x" "\<not> flt x f0" using 4(2) assms(1) by (auto simp: good_d2a_def)
    ultimately show ?thesis unfolding 4(3) by (intro check_fmt_time [of ?keys k CRamp]) simp_all
  next
    case (5 k x)
    have "?keys k = Some CTime" using 5(1) by (elim insertE emptyE) (simp_all add: D2A_CLASSES_def)
    moreover have "writable x" "\<not> flt x f0" using 5(2) assms(1) by (auto simp: good_d2a_def)
    ultimately show ?thesis unfolding 5(3) by (intro check_fmt_time [of ?keys k CTime]) simp_all
  next
    case 2
    then show ?thesis using assms(1) unfolding 2
      by (intro check_fmt_level) (simp_all add: good_d2a_def D2A_CLASSES_def)
  next
    case 3
    then show ?thesis using assms(1) unfolding 3
      by (intro check_fmt_level) (simp_all add: good_d2a_def D2A_CLASSES_def)
  qed
  show "check_exclusive ?r e = []" if "e \<in> set EXCLUSIVE" for e
  proof -
    have g: "given ?r k \<longleftrightarrow> k \<in> set (map fst (d2a_pairs d))" for k
      by (simp add: given_def pasted_rule_def)
    from that consider "e = (''rf_time'', [''rise_time'', ''fall_time''])" | "e = (''delay'', [''rise_delay'', ''fall_delay''])"
        | "e = (''vdd'', [''vdd_port''])" | "e = (''vss'', [''vss_port''])"
      by (auto simp: EXCLUSIVE_def)
    then show ?thesis using d2a_exclusive [of d] by cases (simp_all add: check_exclusive_def g del: set_map)
  qed
qed (use assms d2a_pairs_keys in auto)

end
