(* ===== verification/PasteRead.thy ===== *)
theory PasteRead
  imports PasteLevels
begin

text \<open>
  Resolving a node with the one rule of a report line gives the levels of the line.
\<close>

section \<open>One rule\<close>

lemma no_supplies:
  "fst ` set (ir_params r) \<inter> set SUPPLY_KEYS = {} \<Longrightarrow> supplies_of env i r sel h ns =
     \<lparr>ss_hits = h, ss_notes = ns, ss_ok = True, ss_sup = []\<rparr>"
proof -
  assume a: "fst ` set (ir_params r) \<inter> set SUPPLY_KEYS = {}"
  have "map_of (ir_params r) k = None" if "k \<in> set SUPPLY_KEYS" for k
    using a that by (auto simp: map_of_eq_None_iff)
  then have "supply_name r ''vdd'' s sp cs = (None, [])" "supply_name r ''vss'' s sp cs = (None, [])" for s sp cs
    by (simp_all add: supply_name_def SUPPLY_KEYS_def)
  then show ?thesis by (simp add: supplies_of_def supply_step_def)
qed

lemma pasted_step:
  assumes "kind \<noteq> ''map_by_node''" "kind \<in> set (re_kinds env)" "kind \<in> set (re_marks env)"
    and "re_names env = canonical # aliases" "CHR ''*'' \<notin> set canonical" "canonical \<noteq> []"
    and "fst ` set ps \<inter> set SUPPLY_KEYS = {}"
  shows "rs_merged (rule_step env (i, pasted_rule kind ps canonical orig) s) =
       (rs_merged s)(kind := fold (merge_key i) ps (rs_merged s kind)) \<and>
     rs_supply (rule_step env (i, pasted_rule kind ps canonical orig) s) = rs_supply s"
proof -
  let ?r = "pasted_rule kind ps canonical orig"
  have r: "direction_of ?r = kind" "ir_params ?r = ps" "ir_node ?r = Some canonical"
    using assms(1) by (simp_all add: pasted_rule_def mk_rule_def direction_of_def)
  have "node_matches canonical (canonical # aliases) cs" for cs
    using assms(5,6) by (simp add: node_matches_def has_wildcard_def glob_match_self)
  then have sel: "select_ports ?r (re_names env) (re_ports env) (re_cs env) = Some []"
    by (simp add: select_ports_def r assms(4))
  have sup: "supplies_of env i ?r [] h' ns = \<lparr>ss_hits = h', ss_notes = ns, ss_ok = True, ss_sup = []\<rparr>" for h' ns
    using assms(7) by (intro no_supplies) (simp add: r)
  show ?thesis
    using assms(2,3) by (simp add: rule_step_def sel r apply_rule_def Let_def sup merge_supplies_def merge_rule_def)
qed

text \<open>The rules of a node's report lines, one or two of different kinds.\<close>

lemma one_rule:
  assumes "ac_rules cfg = [pasted_rule kind ps canonical orig]" "kind \<noteq> ''map_by_node''"
    and "kind \<in> set (role_kinds ro)" "kind \<in> set (role_marks ro)"
    and "CHR ''*'' \<notin> set canonical" "canonical \<noteq> []" "fst ` set ps \<inter> set SUPPLY_KEYS = {}"
  shows "rs_merged (resolve_rules cfg (canonical # aliases) ports dc h ro subckt) =
       (\<lambda>_. Map.empty)(kind := fold (merge_key 0) ps Map.empty) \<and>
     rs_supply (resolve_rules cfg (canonical # aliases) ports dc h ro subckt) = (\<lambda>_. Map.empty)"
proof -
  have e: "kind \<in> set (re_kinds (resolve_env cfg (canonical # aliases) ports dc ro subckt))"
    "kind \<in> set (re_marks (resolve_env cfg (canonical # aliases) ports dc ro subckt))"
    "re_names (resolve_env cfg (canonical # aliases) ports dc ro subckt) = canonical # aliases"
    using assms(3,4) by (simp_all add: resolve_env_def)
  show ?thesis
    by (simp add: resolve_rules_def rules_loop_def assms(1) pasted_step [OF assms(2) e assms(5-7)])
qed

lemma two_rules:
  assumes "ac_rules cfg = [pasted_rule ''d2a'' ps canonical orig, pasted_rule ''a2d'' qs canonical orig']"
    and "CHR ''*'' \<notin> set canonical" "canonical \<noteq> []"
    and "fst ` set ps \<inter> set SUPPLY_KEYS = {}" "fst ` set qs \<inter> set SUPPLY_KEYS = {}"
  shows "rs_merged (resolve_rules cfg (canonical # aliases) ports dc h (Some BIDIR) subckt) =
       (\<lambda>_. Map.empty)(''d2a'' := fold (merge_key 0) ps Map.empty, ''a2d'' := fold (merge_key (Suc 0)) qs Map.empty) \<and>
     rs_supply (resolve_rules cfg (canonical # aliases) ports dc h (Some BIDIR) subckt) = (\<lambda>_. Map.empty)"
proof -
  let ?env = "resolve_env cfg (canonical # aliases) ports dc (Some BIDIR) subckt"
  have e: "''d2a'' \<in> set (re_kinds ?env)" "''d2a'' \<in> set (re_marks ?env)" "re_names ?env = canonical # aliases"
    "''a2d'' \<in> set (re_kinds ?env)" "''a2d'' \<in> set (re_marks ?env)"
    by (simp_all add: resolve_env_def role_kinds_def role_marks_def ROLE_KINDS_def MARK_ONLY_def)
  have k: "''d2a'' \<noteq> ''map_by_node''" "''a2d'' \<noteq> ''map_by_node''" by simp_all
  show ?thesis
    by (simp add: resolve_rules_def rules_loop_def assms(1) pasted_step [OF k(1) e(1-3) assms(2,3,4)]
        pasted_step [OF k(2) e(4,5,3) assms(2,3,5)])
qed

section \<open>The levels of a driver\<close>

lemma merged_d2a:
  fixes i :: nat
  assumes "good_d2a d"
  defines "m \<equiv> fold (merge_key i) (d2a_pairs d) Map.empty"
  shows "m ''hiv'' = Some (fmt_text (d_hiv d), i)" "m ''lov'' = Some (fmt_text (d_lov d), i)"
    "m ''rise_time'' = Some (fmt_text (d_rise d), i)" "m ''fall_time'' = Some (fmt_text (d_fall d), i)"
    "m ''rise_delay'' = Some (fmt_text (d_delay_rise d), i) \<or> m ''rise_delay'' = None \<and> d_delay_rise d = f0"
    "m ''fall_delay'' = Some (fmt_text (d_delay_fall d), i) \<or> m ''fall_delay'' = None \<and> d_delay_fall d = f0"
    "m ''x2v'' = Some (show_int (d_x2v d), i)" "m ''r'' = None"
    "m ''powernet'' = (if d_powernet d then Some ([], i) else None)"
proof -
  have w: "writable (d_rise d)" "writable (d_fall d)" "writable (d_delay_rise d)" "writable (d_delay_fall d)"
    using assms(1) by (simp_all add: good_d2a_def)
  define pn where "pn = (if d_powernet d then [''powernet'' \<mapsto> ([]::string, i::nat)] else Map.empty)"
  define hl where "hl = pn(''hiv'' \<mapsto> (fmt_text (d_hiv d), i), ''lov'' \<mapsto> (fmt_text (d_lov d), i))"
  define rf where "rf = hl(''rise_time'' \<mapsto> (fmt_text (d_rise d), i), ''fall_time'' \<mapsto> (fmt_text (d_fall d), i))"
  define dl where "dl = (if fnonzero (d_delay_rise d) \<or> fnonzero (d_delay_fall d)
      then rf(''rise_delay'' \<mapsto> (fmt_text (d_delay_rise d), i), ''fall_delay'' \<mapsto> (fmt_text (d_delay_fall d), i)) else rf)"
  have nl: "k \<in> set D2A_WRITTEN \<Longrightarrow> k \<notin> set NOT_LEVELS" for k
    by (auto simp: D2A_WRITTEN_def NOT_LEVELS_def SUPPLY_KEYS_def)
  have k: "merge_key i (''powernet'', v) = (\<lambda>m. m(''powernet'' \<mapsto> (v, i)))"
    "merge_key i (''hiv'', v) = (\<lambda>m. m(''hiv'' \<mapsto> (v, i)))" "merge_key i (''lov'', v) = (\<lambda>m. m(''lov'' \<mapsto> (v, i)))"
    "merge_key i (''x2v'', v) = (\<lambda>m. m(''x2v'' \<mapsto> (v, i)))"
    "merge_key i (''rf_time'', v) = (\<lambda>m. m(''rise_time'' \<mapsto> (v, i), ''fall_time'' \<mapsto> (v, i)))"
    "merge_key i (''delay'', v) = (\<lambda>m. m(''rise_delay'' \<mapsto> (v, i), ''fall_delay'' \<mapsto> (v, i)))"
    "merge_key i (''rise_time'', v) = (\<lambda>m. m(''rise_time'' \<mapsto> (v, i)))"
    "merge_key i (''fall_time'', v) = (\<lambda>m. m(''fall_time'' \<mapsto> (v, i)))"
    "merge_key i (''rise_delay'', v) = (\<lambda>m. m(''rise_delay'' \<mapsto> (v, i)))"
    "merge_key i (''fall_delay'', v) = (\<lambda>m. m(''fall_delay'' \<mapsto> (v, i)))" for v
    by (intro ext; simp add: merge_key_def NOT_LEVELS_def SUPPLY_KEYS_def)+
  have t1: "fold (merge_key i) (texts (if feq (d_rise d) (d_fall d) then [(''rf_time'', d_rise d)]
      else [(''rise_time'', d_rise d), (''fall_time'', d_fall d)])) hl = rf"
    using writable_eq [OF w(1,2)] by (simp add: texts_def k rf_def)
  have t2: "fold (merge_key i) (texts (if fnonzero (d_delay_rise d) \<or> fnonzero (d_delay_fall d) then
        (if feq (d_delay_rise d) (d_delay_fall d) then [(''delay'', d_delay_rise d)]
         else [(''rise_delay'', d_delay_rise d), (''fall_delay'', d_delay_fall d)])
      else [])) rf = dl"
    using writable_eq [OF w(3,4)] by (simp add: texts_def k dl_def)
  have p: "fold (merge_key i) (if d_powernet d then [(''powernet'', [])] else []) Map.empty = pn"
    by (simp add: k pn_def)
  have ta: "texts (a @ b) = texts a @ texts b" for a b by (simp add: texts_def)
  have h: "fold (merge_key i) (texts [(''hiv'', d_hiv d), (''lov'', d_lov d)]) pn = hl"
    by (simp add: texts_def k hl_def)
  have m: "m = dl(''x2v'' \<mapsto> (show_int (d_x2v d), i))"
    unfolding m_def d2a_pairs_def d2a_timing_def ta fold_append comp_apply p h t1 t2 by (simp add: k)
  show "m ''hiv'' = Some (fmt_text (d_hiv d), i)" "m ''lov'' = Some (fmt_text (d_lov d), i)"
    "m ''rise_time'' = Some (fmt_text (d_rise d), i)" "m ''fall_time'' = Some (fmt_text (d_fall d), i)"
    "m ''x2v'' = Some (show_int (d_x2v d), i)" "m ''r'' = None"
    "m ''powernet'' = (if d_powernet d then Some ([], i) else None)"
    by (simp_all add: m dl_def rf_def hl_def pn_def)
  show "m ''rise_delay'' = Some (fmt_text (d_delay_rise d), i) \<or> m ''rise_delay'' = None \<and> d_delay_rise d = f0"
    "m ''fall_delay'' = Some (fmt_text (d_delay_fall d), i) \<or> m ''fall_delay'' = None \<and> d_delay_fall d = f0"
    using writable_zero [OF w(3)] writable_zero [OF w(4)] by (auto simp: m dl_def rf_def hl_def pn_def)
qed

lemma read_level_text:
  "m k = Some (fmt_text x, i) \<Longrightarrow> writable x \<Longrightarrow>
     \<exists>og' u'. read_level rules kind m lr k dflt uv (og, u) = Inr (x, og', u')"
  by (simp add: read_level_def parse_level_fmt level_value_def)

lemma read_time_text:
  "m k = Some (fmt_text x, i) \<Longrightarrow> writable x \<Longrightarrow> ramp \<longrightarrow> \<not> flt x MIN_RAMP \<Longrightarrow>
     \<exists>og'. read_time rules m k dflt ramp og = Inr (x, og')"
  by (auto simp: read_time_def parse_time_fmt ramp_time_def)

lemma read_delay:
  "m k = Some (fmt_text x, i) \<or> m k = None \<and> x = f0 \<Longrightarrow> writable x \<Longrightarrow>
     \<exists>og'. read_time rules m k f0 False og = Inr (x, og')"
  by (auto simp: read_time_def parse_time_fmt)

lemma d2a_levels_read:
  assumes "good_d2a d"
  shows "\<exists>og u. d2a_levels rules (fold (merge_key i) (d2a_pairs d) Map.empty) Map.empty vr og0 = Inr (d, og, u)"
proof -
  let ?m = "fold (merge_key i) (d2a_pairs d) Map.empty"
  note m = merged_d2a [OF assms]
  note g = assms [unfolded good_d2a_def, simplified]
  obtain lr og1 where r: "reference rules ''d2a'' Map.empty vr og0 = (lr, og1)" by fastforce
  obtain og2 u1 where 2: "read_level rules ''d2a'' ?m lr ''hiv'' (lr_vdd lr) True (og1, False) = Inr (d_hiv d, og2, u1)"
    using read_level_text [where m = ?m, OF m(1)] g by blast
  obtain og3 u2 where 3: "read_level rules ''d2a'' ?m lr ''lov'' (lr_vss lr) False (og2, u1) = Inr (d_lov d, og3, u2)"
    using read_level_text [where m = ?m, OF m(2)] g by blast
  obtain og4 where 4: "read_time rules ?m ''rise_time'' (d_rise (mk_d2a f0 f0)) True og3 = Inr (d_rise d, og4)"
    using read_time_text [where m = ?m, OF m(3)] g by blast
  obtain og5 where 5: "read_time rules ?m ''fall_time'' (d_fall (mk_d2a f0 f0)) True og4 = Inr (d_fall d, og5)"
    using read_time_text [where m = ?m, OF m(4)] g by blast
  obtain og6 where 6: "read_time rules ?m ''rise_delay'' f0 False og5 = Inr (d_delay_rise d, og6)"
    using read_delay [where m = ?m, OF m(5)] g by blast
  obtain og7 where 7: "read_time rules ?m ''fall_delay'' f0 False og6 = Inr (d_delay_fall d, og7)"
    using read_delay [where m = ?m, OF m(6)] g by blast
  let ?ie = "(mk_d2a f0 f0)\<lparr>d_hiv := d_hiv d, d_lov := d_lov d, d_rise := d_rise d, d_fall := d_fall d,
      d_delay_rise := d_delay_rise d, d_delay_fall := d_delay_fall d\<rparr>"
  obtain og8 where 8: "read_x2v rules ?m (?ie, og7) = Inr (?ie\<lparr>d_x2v := d_x2v d\<rparr>, og8)"
    using m(7) read_digit [of "d_x2v d"] g by (simp add: read_x2v_def)
  obtain og9 where 9: "read_powernet rules ?m (?ie\<lparr>d_x2v := d_x2v d\<rparr>, og8) = (?ie\<lparr>d_x2v := d_x2v d, d_powernet := d_powernet d\<rparr>, og9)"
    using m(9) by (cases "d_powernet d") (simp_all add: read_powernet_def mk_d2a_def)
  have "?ie\<lparr>d_x2v := d_x2v d, d_powernet := d_powernet d\<rparr> = d"
    using g by (simp add: mk_d2a_def DEFAULT_D2A_def)
  then show ?thesis using m(8)
    by (simp add: d2a_levels_def r 2 3 4 5 6 7 8 9 read_ohms_def)
qed

lemma d2a_levels_default:
  "\<exists>d og u. d2a_levels rules Map.empty Map.empty vr og0 = Inr (d, og, u)"
  by (simp add: d2a_levels_def reference_def read_level_def read_time_def read_x2v_def read_powernet_def
      read_ohms_def Let_def) (rule exI [of _ True], simp)

lemma flt_irrefl: "\<not> flt x x"
  by (cases x) (auto split: if_splits)

lemma a2d_levels_default:
  "\<exists>a ns og u. a2d_levels rules Map.empty Map.empty vr canonical og0 = Inr (a, ns, og, u)"
  by (simp add: a2d_levels_def reference_def read_level_def crossed_def mk_a2d_def read_a2d_extra_def Let_def flt_irrefl)
    (rule exI [of _ True], simp)

lemma d2a_resolves:
  assumes "ac_rules cfg = [pasted_rule ''d2a'' (d2a_pairs d) canonical orig]" "good_d2a d"
    and "CHR ''*'' \<notin> set canonical" "canonical \<noteq> []" "ro \<in> {None, Some D2A, Some BIDIR, Some POWERNET}"
  shows "\<exists>res h'. resolve_detail cfg (canonical # aliases) ports vr dc h ro subckt = Inr (res, h') \<and> rn_d2a res = d"
proof -
  let ?s = "resolve_rules cfg (canonical # aliases) ports dc h ro subckt"
  have m: "rs_merged ?s = (\<lambda>_. Map.empty)(''d2a'' := fold (merge_key 0) (d2a_pairs d) Map.empty)"
      "rs_supply ?s = (\<lambda>_. Map.empty)"
    using one_rule [OF assms(1) _ _ _ assms(3,4) d2a_pairs_keys(3), of ro] assms(5)
    by (auto simp: role_kinds_def role_marks_def ROLE_KINDS_def MARK_ONLY_def)
  obtain og u where d: "d2a_levels (ac_rules cfg) (fold (merge_key 0) (d2a_pairs d) Map.empty) Map.empty vr [] = Inr (d, og, u)"
    using d2a_levels_read [OF assms(2)] by blast
  obtain a ns og' u' where a: "a2d_levels (ac_rules cfg) Map.empty Map.empty vr canonical og = Inr (a, ns, og', u')"
    using a2d_levels_default by blast
  show ?thesis using merged_d2a(8) [OF assms(2)]
    by (simp add: resolve_detail_def Let_def canonical_of_def m resolve_levels_def d a note_ideal_def)
qed

section \<open>The levels of a receiver\<close>

definition A2D_WRITTEN :: "string list" where
  "A2D_WRITTEN = [''loth'', ''hith'', ''xband'', ''midv_time'', ''midv_logic'']"

lemma a2d_pairs_cases:
  assumes "p \<in> set (a2d_pairs a)"
  obtains "p = (''loth'', fmt_text (a_loth a))" | "p = (''hith'', fmt_text (a_hith a))"
  | x where "a_xband a = Some x" "p = (''xband'', fmt_text x)"
  | x where "a_midv_time a = Some x" "p = (''midv_time'', fmt_text x)"
  | "p = (''midv_logic'', a_midv_logic a)"
proof -
  have ta: "texts (x @ y) = texts x @ texts y" for x y by (simp add: texts_def)
  have o: "p \<in> set (texts (case z of Some x \<Rightarrow> [(k, x)] | None \<Rightarrow> [])) \<Longrightarrow> \<exists>x. z = Some x \<and> p = (k, fmt_text x)" for z k
    by (cases z) (simp_all add: texts_def)
  have "p \<in> set (texts [(''loth'', a_loth a), (''hith'', a_hith a)]) \<or>
      p \<in> set (texts (case a_xband a of Some x \<Rightarrow> [(''xband'', x)] | None \<Rightarrow> [])) \<or>
      p \<in> set (texts (case a_midv_time a of Some x \<Rightarrow> [(''midv_time'', x)] | None \<Rightarrow> [])) \<or>
      p = (''midv_logic'', a_midv_logic a)"
    using assms unfolding a2d_pairs_def ta by (simp only: set_append Un_iff split: if_splits) auto
  then consider (levels) "p \<in> set (texts [(''loth'', a_loth a), (''hith'', a_hith a)])"
      | (band) "p \<in> set (texts (case a_xband a of Some x \<Rightarrow> [(''xband'', x)] | None \<Rightarrow> []))"
      | (time) "p \<in> set (texts (case a_midv_time a of Some x \<Rightarrow> [(''midv_time'', x)] | None \<Rightarrow> []))"
      | (logic) "p = (''midv_logic'', a_midv_logic a)"
    by (elim disjE)
  then show thesis
  proof cases
    case levels
    then have "p = (''loth'', fmt_text (a_loth a)) \<or> p = (''hith'', fmt_text (a_hith a))" by (simp add: texts_def)
    then show thesis using that(1,2) by (elim disjE)
  next
    case band
    from o [OF this] show thesis using that(3) by (elim exE conjE)
  next
    case time
    from o [OF this] show thesis using that(4) by (elim exE conjE)
  qed (rule that(5))
qed

lemma a2d_pairs_keys:
  "distinct (map fst (a2d_pairs a))" "set (map fst (a2d_pairs a)) \<inter> set SELECTORS = {}"
  "fst ` set (a2d_pairs a) \<inter> set SUPPLY_KEYS = {}" "a2d_pairs a \<noteq> []"
proof -
  have "fst p \<in> set A2D_WRITTEN" if "p \<in> set (a2d_pairs a)" for p
    using that by (cases rule: a2d_pairs_cases) (auto simp: A2D_WRITTEN_def)
  then have k: "fst ` set (a2d_pairs a) \<subseteq> set A2D_WRITTEN" by blast
  have "set A2D_WRITTEN \<inter> set SELECTORS = {}" "set A2D_WRITTEN \<inter> set SUPPLY_KEYS = {}"
    by (simp_all add: A2D_WRITTEN_def SELECTORS_def SUPPLY_KEYS_def)
  then show "set (map fst (a2d_pairs a)) \<inter> set SELECTORS = {}" "fst ` set (a2d_pairs a) \<inter> set SUPPLY_KEYS = {}"
    using k by auto
  show "a2d_pairs a \<noteq> []" by (simp add: a2d_pairs_def texts_def)
  show "distinct (map fst (a2d_pairs a))"
    by (cases "a_xband a"; cases "a_midv_time a") (simp_all add: a2d_pairs_def texts_def)
qed

lemma a2d_pairs_good:
  assumes "good_a2d a"
  shows "list_all good_pair (a2d_pairs a)"
proof -
  have c: "list_all name_char k \<and> py_lower k = k \<and> k \<noteq> []" if "k \<in> set A2D_WRITTEN" for k
    using that by (auto simp: A2D_WRITTEN_def name_char_def ascii_letter_def re_digit_def code_in_def lower_char_def)
  have w: "good_pair (k, fmt_text x)" if "writable x" "k \<in> set A2D_WRITTEN" for k x
    using fmt_text_chars [OF that(1)] num_plain c [OF that(2)] by (auto simp: good_pair_def list_all_iff)
  have x: "list_all plain_char (a_midv_logic a)"
    using assms by (auto simp: good_a2d_def plain_char_def name_char_def ascii_letter_def re_digit_def code_in_def)
  have "good_pair p" if "p \<in> set (a2d_pairs a)" for p
    using that
  proof (cases rule: a2d_pairs_cases)
    case 5
    then show ?thesis using x c [of "''midv_logic''"] by (simp add: good_pair_def A2D_WRITTEN_def)
  qed (use assms w in \<open>simp_all add: good_a2d_def A2D_WRITTEN_def\<close>)
  then show ?thesis by (simp add: list_all_iff)
qed

lemma logic_value:
  "v \<in> {''0'', ''1'', ''X'', ''Z''} \<Longrightarrow> py_upper (py_strip v) = v"
proof -
  have "py_upper (py_strip ''0'') = ''0''" "py_upper (py_strip ''1'') = ''1''" "py_upper (py_strip ''X'') = ''X''"
    "py_upper (py_strip ''Z'') = ''Z''"
    by code_simp+
  then show "v \<in> {''0'', ''1'', ''X'', ''Z''} \<Longrightarrow> py_upper (py_strip v) = v" by auto
qed

lemma a2d_check:
  assumes "good_a2d a" "canonical \<noteq> []"
  shows "\<not> has_errors (check_rule (pasted_rule ''a2d'' (a2d_pairs a) canonical orig))"
proof (rule check_pasted)
  let ?r = "pasted_rule ''a2d'' (a2d_pairs a) canonical orig" and ?keys = "map_of A2D_CLASSES"
  show "KEYS ''a2d'' = Some ?keys" by (simp add: KEYS_def)
  note g = assms(1) [unfolded good_a2d_def]
  show "\<not> has_errors (check_param ?r ?keys p)" if "p \<in> set (a2d_pairs a)" for p
    using that
  proof (cases rule: a2d_pairs_cases)
    case 1
    then show ?thesis using g unfolding 1 by (intro check_fmt_level) (simp_all add: A2D_CLASSES_def)
  next
    case 2
    then show ?thesis using g unfolding 2 by (intro check_fmt_level) (simp_all add: A2D_CLASSES_def)
  next
    case (3 x)
    then have x: "writable x" "pos_finite x" using g by (simp_all add: pos_finite_def writable_def)
    then have "check_value (ir_kind ?r) ''xband'' CXband (fmt_text x) ?r = Inr []"
      using number_fmt_text [OF x(1)] by (simp add: check_value_def)
    then show ?thesis using fmt_text_chars [OF x(1)] unfolding 3(2)
      by (intro check_class [of ?keys "''xband''" CXband _ ?r "[]"]) (simp_all add: A2D_CLASSES_def)
  next
    case (4 x)
    then have "writable x" "\<not> flt x f0" using g by simp_all
    then show ?thesis unfolding 4(2)
      by (intro check_fmt_time [of ?keys "''midv_time''" CTime]) (simp_all add: A2D_CLASSES_def)
  next
    case 5
    have v: "a_midv_logic a \<in> {''0'', ''1'', ''X'', ''Z''}" using g by simp
    then have "check_value (ir_kind ?r) ''midv_logic'' CLogic (a_midv_logic a) ?r = Inr []" "a_midv_logic a \<noteq> []"
      using logic_value [OF v] by (auto simp: check_value_def)
    then show ?thesis unfolding 5
      by (intro check_class [of ?keys "''midv_logic''" CLogic _ ?r "[]"]) (simp_all add: A2D_CLASSES_def)
  qed
  have "k \<in> set A2D_WRITTEN" if "given ?r k" for k
  proof -
    have "k \<in> fst ` set (a2d_pairs a)" using that by (simp add: given_def pasted_rule_def)
    then obtain v where "(k, v) \<in> set (a2d_pairs a)" by force
    then show ?thesis by (cases rule: a2d_pairs_cases) (auto simp: A2D_WRITTEN_def)
  qed
  then have no: "\<not> given ?r ''rf_time''" "\<not> given ?r ''delay''" "\<not> given ?r ''vdd''" "\<not> given ?r ''vss''"
    by (force simp: A2D_WRITTEN_def)+
  show "check_exclusive ?r e = []" if "e \<in> set EXCLUSIVE" for e
    using that no by (auto simp: EXCLUSIVE_def check_exclusive_def)
qed (use assms a2d_pairs_keys in auto)

lemma merged_a2d:
  fixes a :: a2d_ie and i :: nat
  defines "m \<equiv> fold (merge_key i) (a2d_pairs a) Map.empty"
  shows "m ''loth'' = Some (fmt_text (a_loth a), i)" "m ''hith'' = Some (fmt_text (a_hith a), i)"
    "m ''xband'' = map_option (\<lambda>x. (fmt_text x, i)) (a_xband a)"
    "m ''midv_time'' = map_option (\<lambda>x. (fmt_text x, i)) (a_midv_time a)"
    "m ''midv_logic'' = Some (a_midv_logic a, i) \<or> m ''midv_logic'' = None \<and> a_midv_logic a = ''X''"
proof -
  have k': "merge_key i (''loth'', v) = (\<lambda>m. m(''loth'' \<mapsto> (v, i)))" "merge_key i (''hith'', v) = (\<lambda>m. m(''hith'' \<mapsto> (v, i)))"
    "merge_key i (''xband'', v) = (\<lambda>m. m(''xband'' \<mapsto> (v, i)))"
    "merge_key i (''midv_time'', v) = (\<lambda>m. m(''midv_time'' \<mapsto> (v, i)))"
    "merge_key i (''midv_logic'', v) = (\<lambda>m. m(''midv_logic'' \<mapsto> (v, i)))" for v
    by (intro ext; simp add: merge_key_def NOT_LEVELS_def SUPPLY_KEYS_def)+
  show "m ''loth'' = Some (fmt_text (a_loth a), i)" "m ''hith'' = Some (fmt_text (a_hith a), i)"
    "m ''xband'' = map_option (\<lambda>x. (fmt_text x, i)) (a_xband a)"
    "m ''midv_time'' = map_option (\<lambda>x. (fmt_text x, i)) (a_midv_time a)"
    "m ''midv_logic'' = Some (a_midv_logic a, i) \<or> m ''midv_logic'' = None \<and> a_midv_logic a = ''X''"
    by (cases "a_xband a"; cases "a_midv_time a"; simp add: m_def a2d_pairs_def texts_def k')+
qed

lemma a2d_levels_read:
  assumes "good_a2d a"
  shows "\<exists>ns og u. a2d_levels rules (fold (merge_key i) (a2d_pairs a) Map.empty) Map.empty vr canonical og0 = Inr (a, ns, og, u)"
proof -
  let ?m = "fold (merge_key i) (a2d_pairs a) Map.empty"
  note m = merged_a2d [where a = a and i = i]
  note g = assms [unfolded good_a2d_def]
  obtain lr og1 where r: "reference rules ''a2d'' Map.empty vr og0 = (lr, og1)" by fastforce
  let ?mid = "fadd (lr_vss lr) (fmul (float_dec ''0.5'' 0) (fsub (lr_vdd lr) (lr_vss lr)))"
  obtain og2 u1 where 1: "read_level rules ''a2d'' ?m lr ''loth'' ?mid True (og1, False) = Inr (a_loth a, og2, u1)"
    using read_level_text [where m = ?m, OF m(1)] g by blast
  obtain og3 u2 where 2: "read_level rules ''a2d'' ?m lr ''hith'' ?mid True (og2, u1) = Inr (a_hith a, og3, u2)"
    using read_level_text [where m = ?m, OF m(2)] g by blast
  let ?ie = "mk_a2d (a_loth a) (a_hith a)"
  have "fmt (a_loth a) = Inr (fmt_text (a_loth a))" "fmt (a_hith a) = Inr (fmt_text (a_hith a))"
    using g fmt_text by blast+
  then obtain ns where 3: "crossed canonical ?ie og3 = Inr ns"
    by (cases "flt (a_hith a) (a_loth a)") (simp_all add: crossed_def mk_a2d_def Let_def)
  obtain og4 where 4: "(case ?m ''xband'' of None \<Rightarrow> Inr (?ie, og3)
      | Some (raw, i) \<Rightarrow> rbind (number_of raw) (\<lambda>x.
          Inr (?ie\<lparr>a_xband := Some x\<rparr>, dict_set ''a2d.xband'' (origin_of rules i) og3))) =
      Inr (?ie\<lparr>a_xband := a_xband a\<rparr>, og4)"
    using m(3) g number_fmt_text by (cases "a_xband a") (simp_all add: mk_a2d_def)
  let ?ie2 = "?ie\<lparr>a_xband := a_xband a\<rparr>"
  obtain og5 where 5: "(case ?m ''midv_time'' of None \<Rightarrow> Inr (?ie2, og4)
      | Some (raw, i) \<Rightarrow> rbind (parse_time raw) (\<lambda>x.
          Inr (?ie2\<lparr>a_midv_time := Some x\<rparr>, dict_set ''a2d.midv_time'' (origin_of rules i) og4))) =
      Inr (?ie2\<lparr>a_midv_time := a_midv_time a\<rparr>, og5)"
    using m(4) g parse_time_fmt by (cases "a_midv_time a") (simp_all add: mk_a2d_def)
  let ?ie3 = "?ie2\<lparr>a_midv_time := a_midv_time a\<rparr>"
  have "?ie3\<lparr>a_midv_logic := a_midv_logic a\<rparr> = a" by (simp add: mk_a2d_def)
  then obtain og6 where 6: "(case ?m ''midv_logic'' of None \<Rightarrow> (?ie3, og5)
      | Some (raw, i) \<Rightarrow> (?ie3\<lparr>a_midv_logic := py_upper (py_strip raw)\<rparr>,
          dict_set ''a2d.midv_logic'' (origin_of rules i) og5)) = (a, og6)"
    using m(5) g logic_value [of "a_midv_logic a"] by (auto simp: mk_a2d_def)
  have "read_a2d_extra rules ?m (?ie, og3) = Inr (a, og6)"
    unfolding read_a2d_extra_def fst_conv snd_conv 4 rbind_simps 5 6 ..
  then show ?thesis by (simp add: a2d_levels_def r Let_def 1 2 3)
qed

lemma a2d_resolves:
  assumes "ac_rules cfg = [pasted_rule ''a2d'' (a2d_pairs a) canonical orig]" "good_a2d a"
    and "CHR ''*'' \<notin> set canonical" "canonical \<noteq> []" "ro \<in> {None, Some A2D, Some BIDIR}"
  shows "\<exists>res h'. resolve_detail cfg (canonical # aliases) ports vr dc h ro subckt = Inr (res, h') \<and> rn_a2d res = a"
proof -
  let ?s = "resolve_rules cfg (canonical # aliases) ports dc h ro subckt"
  have m: "rs_merged ?s = (\<lambda>_. Map.empty)(''a2d'' := fold (merge_key 0) (a2d_pairs a) Map.empty)"
      "rs_supply ?s = (\<lambda>_. Map.empty)"
    using one_rule [OF assms(1) _ _ _ assms(3,4) a2d_pairs_keys(3), of ro] assms(5)
    by (auto simp: role_kinds_def role_marks_def ROLE_KINDS_def MARK_ONLY_def)
  obtain d og u where d: "d2a_levels (ac_rules cfg) Map.empty Map.empty vr [] = Inr (d, og, u)"
    using d2a_levels_default by blast
  obtain ns og' u' where a: "a2d_levels (ac_rules cfg) (fold (merge_key 0) (a2d_pairs a) Map.empty) Map.empty vr canonical og = Inr (a, ns, og', u')"
    using a2d_levels_read [OF assms(2)] by blast
  show ?thesis
    by (simp add: resolve_detail_def Let_def canonical_of_def m resolve_levels_def d a note_ideal_def)
qed

section \<open>The report of a node that is read and driven\<close>

lemma bidir_resolves:
  assumes "ac_rules cfg = [pasted_rule ''d2a'' (d2a_pairs d) canonical orig, pasted_rule ''a2d'' (a2d_pairs a) canonical orig']"
    and "good_d2a d" "good_a2d a" "CHR ''*'' \<notin> set canonical" "canonical \<noteq> []"
  shows "\<exists>res h'. resolve_detail cfg (canonical # aliases) ports vr dc h (Some BIDIR) subckt = Inr (res, h') \<and>
    rn_d2a res = d \<and> rn_a2d res = a"
proof -
  let ?s = "resolve_rules cfg (canonical # aliases) ports dc h (Some BIDIR) subckt"
  have m: "rs_merged ?s = (\<lambda>_. Map.empty)(''d2a'' := fold (merge_key 0) (d2a_pairs d) Map.empty,
        ''a2d'' := fold (merge_key (Suc 0)) (a2d_pairs a) Map.empty)"
      "rs_supply ?s = (\<lambda>_. Map.empty)"
    using two_rules [OF assms(1,4,5) d2a_pairs_keys(3) a2d_pairs_keys(3)] by auto
  obtain og u where d: "d2a_levels (ac_rules cfg) (fold (merge_key 0) (d2a_pairs d) Map.empty) Map.empty vr [] = Inr (d, og, u)"
    using d2a_levels_read [OF assms(2)] by blast
  obtain ns og' u' where a: "a2d_levels (ac_rules cfg) (fold (merge_key (Suc 0)) (a2d_pairs a) Map.empty) Map.empty vr canonical og = Inr (a, ns, og', u')"
    using a2d_levels_read [OF assms(3)] by blast
  show ?thesis using merged_d2a(8) [OF assms(2), of 0]
    by (simp add: resolve_detail_def Let_def canonical_of_def m resolve_levels_def d a note_ideal_def)
qed

section \<open>The report as a control file\<close>

lemma rules_mine [simp]: "ac_rules (ps_cfg (mine os cwd env p)) = ac_rules (ps_cfg p)"
  by (simp add: mine_def Let_def)

lemma plain_not_include: "plain_line c \<Longrightarrow> s_keyword (line_stmt label (i, c)) \<noteq> INCLUDE"
  by (auto simp: plain_line_def line_stmt_def INCLUDE_def name_char_def ascii_letter_def re_digit_def code_in_def
      split: prod.splits)

lemma one_file_rules:
  assumes "isabs path" "os_isfile os path" "os_open os path = Inr (py_join [CHR ''\<newline>''] (map cmd_line cs))"
    and "list_all plain_line cs" "cs \<noteq> []"
  shows "\<exists>p. ac_rules (ps_cfg p) = [] \<and> ac_rules (parse_control os [path] cwd env) =
    ac_rules (ps_cfg (fold (\<lambda>st. plain_statement st (dirname path))
      (map (line_stmt (label_of os cwd path)) (enumerate 1 cs)) p))"
proof -
  let ?sts = "map (line_stmt (label_of os cwd path)) (enumerate 1 cs)"
  let ?p = "(parser_init cwd)\<lparr>ps_cfg := mk_config\<lparr>ac_files := [path]\<rparr>, ps_stack := [os_realpath os path]\<rparr>"
  have b: "begin_file os cwd path (py_join [CHR ''\<newline>''] (map cmd_line cs)) (parser_init cwd) = (?sts, ?p)"
    by (simp add: begin_file_def parser_init_def mk_config_def lex_plain_lines [OF assms(4,5)])
  have inc: "s_keyword st \<noteq> INCLUDE" if "st \<in> set ?sts" for st
  proof -
    obtain ic where "ic \<in> set (enumerate 1 cs)" "st = line_stmt (label_of os cwd path) ic"
      using \<open>st \<in> set ?sts\<close> by auto
    moreover obtain i c where "ic = (i, c)" by (cases ic)
    ultimately have "c \<in> set cs" "st = line_stmt (label_of os cwd path) (i, c)"
      by (auto simp: in_set_enumerate_eq)
    then show ?thesis using plain_not_include assms(4) by (simp add: list_all_iff)
  qed
  have "fold (\<lambda>st q. if s_keyword st = INCLUDE then F st q else plain_statement st (dirname path) q) ?sts p =
      fold (\<lambda>st. plain_statement st (dirname path)) ?sts p" for F p
    using inc by (intro fold_cong) auto
  then have r: "read_file os cwd env 0 path [] (parser_init cwd) =
      (fold (\<lambda>st. plain_statement st (dirname path)) ?sts ?p)
        \<lparr>ps_stack := tl (ps_stack (fold (\<lambda>st. plain_statement st (dirname path)) ?sts ?p))\<rparr>"
    by (subst read_file.simps) (simp add: Let_def assms(3) b, simp add: parser_init_def)
  have "ac_rules (parse_control os [path] cwd env) = ac_rules (ps_cfg (read_file os cwd env 0 path [] (parser_init cwd)))"
    using assms(1,2) by (simp add: parse_control_def control_file_def Let_def)
  then show ?thesis by (intro exI [of _ ?p]) (simp add: r mk_config_def)
qed

definition paste_cmds :: "string \<Rightarrow> (string \<times> (string \<times> string) list) list \<Rightarrow> (string \<times> string) list" where
  "paste_cmds canonical = map (\<lambda>(kind, ps). (kind, paste_text ps canonical))"

lemma pasted_rules:
  assumes "isabs path" "os_isfile os path"
    and "os_open os path = Inr (py_join [CHR ''\<newline>''] (map cmd_line (paste_cmds canonical ks)))"
    and "ks \<noteq> []" "list_all plain_char canonical" "canonical \<noteq> []"
    and ks: "\<And>kind ps. (kind, ps) \<in> set ks \<Longrightarrow> (kind = ''d2a'' \<or> kind = ''a2d'') \<and> list_all good_pair ps \<and>
      distinct (map fst ps) \<and> set (map fst ps) \<inter> set SELECTORS = {} \<and> ps \<noteq> [] \<and>
      (\<forall>orig. \<not> has_errors (check_rule (pasted_rule kind ps canonical orig)))"
  shows "\<exists>origs. length origs = length ks \<and> ac_rules (parse_control os [path] cwd env) =
    map (\<lambda>((kind, ps), orig). pasted_rule kind ps canonical orig) (zip ks origs)"
proof -
  let ?cs = "paste_cmds canonical ks" and ?l = "label_of os cwd path"
  let ?f = "\<lambda>st. plain_statement st (dirname path)"
  have plain: "list_all plain_line ?cs"
    using pasted_plain(1) [OF _ _ _ assms(5,6)] ks by (auto simp: list_all_iff paste_cmds_def)
  have "?cs \<noteq> []" using assms(4) by (simp add: paste_cmds_def)
  then obtain p where p: "ac_rules (ps_cfg p) = []" "ac_rules (parse_control os [path] cwd env) =
      ac_rules (ps_cfg (fold ?f (map (line_stmt ?l) (enumerate 1 ?cs)) p))"
    using one_file_rules [OF assms(1-3) plain] by blast
  have "\<exists>origs. length origs = length js \<and>
      ac_rules (ps_cfg (fold ?f (map (line_stmt ?l) (enumerate k (paste_cmds canonical js))) q)) =
      ac_rules (ps_cfg q) @ map (\<lambda>((kind, ps), orig). pasted_rule kind ps canonical orig) (zip js origs)"
    if "set js \<subseteq> set ks" for js k q
    using that
  proof (induction js arbitrary: k q)
    case (Cons j js)
    obtain kind ps where j: "j = (kind, ps)" by (cases j)
    then have g: "(kind = ''d2a'' \<or> kind = ''a2d'')" "list_all good_pair ps" "distinct (map fst ps)"
        "set (map fst ps) \<inter> set SELECTORS = {}" "ps \<noteq> []"
        "\<And>orig. \<not> has_errors (check_rule (pasted_rule kind ps canonical orig))"
      using ks [of kind ps] Cons.prems by auto
    let ?q = "?f (line_stmt ?l (k, kind, paste_text ps canonical)) q"
    have q: "ac_rules (ps_cfg ?q) = ac_rules (ps_cfg q) @ [pasted_rule kind ps canonical (line_origin ?l k)]"
      using pasted_rule_read [OF g(1-5) assms(5,6) g(6), of ?l k "dirname path" q] by auto
    obtain origs where "length origs = length js"
      "ac_rules (ps_cfg (fold ?f (map (line_stmt ?l) (enumerate (Suc k) (paste_cmds canonical js))) ?q)) =
        ac_rules (ps_cfg ?q) @ map (\<lambda>((kind, ps), orig). pasted_rule kind ps canonical orig) (zip js origs)"
      using Cons.IH [of "Suc k" ?q] Cons.prems by auto
    then show ?case using q by (intro exI [of _ "line_origin ?l k # origs"]) (simp add: j paste_cmds_def)
  qed (simp add: paste_cmds_def)
  from this [OF subset_refl, of 1 p] show ?thesis using p by simp
qed

text \<open>The pairs of a node's report lines, by the role of the node.\<close>

definition report_pairs :: "role \<Rightarrow> d2a_ie \<Rightarrow> a2d_ie \<Rightarrow> (string \<times> (string \<times> string) list) list" where
  "report_pairs ro d a =
     (if ro = D2A \<or> ro = BIDIR then [(''d2a'', d2a_pairs d)] else []) @
     (if ro = A2D \<or> ro = BIDIR then [(''a2d'', a2d_pairs a)] else []) @
     (if ro = POWERNET then [(''d2a'', d2a_pairs (d\<lparr>d_powernet := True\<rparr>))] else [])"

lemma mkfloat_finite: 
  assumes "0 < q" "q < 2 powi 1023"
  shows "finite_float (mkfloat s q)"
proof -
  have q: "\<bar>q - rmag q\<bar> \<le> ulp q / 2" using assms by (intro rmag_error) simp
  have il: "ilog 2 q < 1023"
  proof -
    have "(2::rat) powi ilog 2 q < 2 powi 1023" using ilog2_bounds [OF assms(1)] assms(2) by linarith
    then show ?thesis by (subst (asm) powi_less_cancel) simp_all
  qed
  have "ulp q \<le> 2 powi 1023"
    unfolding ulp_def using il by (subst two_powi_le) (simp add: emin_def)
  then have "rmag q \<le> q + 2 powi 1023 / 2" using q by linarith
  also have "\<dots> < 2 powi 1024"
  proof -
    have "(2::rat) powi 1024 = 2 * 2 powi 1023" using power_int_add [of "2::rat" 1 1023] by simp
    then show ?thesis using assms by linarith
  qed
  finally have r: "rmag q < 2 powi 1024" .
  have "\<not> (rmag q \<noteq> 0 \<and> ilog 2 (rmag q) \<ge> 1024)"
  proof
    assume a: "rmag q \<noteq> 0 \<and> ilog 2 (rmag q) \<ge> 1024"
    then have "rmag q > 0" using rmag_nonneg [of q] by linarith
    then have "2 powi ilog 2 (rmag q) \<le> rmag q" using ilog2_bounds by blast
    moreover have "(2::rat) powi 1024 \<le> 2 powi ilog 2 (rmag q)" using a by (subst two_powi_le) simp
    ultimately show False using r by linarith
  qed
  then show ?thesis by (simp add: mkfloat_def Let_def)
qed

lemma feq_refl: "feq x x \<longleftrightarrow> x \<noteq> NaN" by (cases x) auto

lemma fdiv_not_nan: "finite_float x \<Longrightarrow> finite_float y \<Longrightarrow> fdiv x y \<noteq> NaN"
  by (cases x; cases y) (auto simp: mkfloat_def Let_def)

lemma ohms: "finite_float (float_dec ''500.7'' 0)" "finite_float (float_dec ''3500.2'' 0)"
proof -
  have b: "(5007::rat) / 10 < 2 powi 1023" "(35002::rat) / 10 < 2 powi 1023"
  proof -
    have "(2::rat) powi 12 \<le> 2 powi 1023" by (subst two_powi_le) simp
    then show "(5007::rat) / 10 < 2 powi 1023" "(35002::rat) / 10 < 2 powi 1023" by simp_all
  qed
  have d: "mant_val ''500.7'' = 5007 / 10" "mant_val ''3500.2'' = 35002 / 10" by code_simp+
  show "finite_float (float_dec ''500.7'' 0)" "finite_float (float_dec ''3500.2'' 0)"
    using b by (simp_all add: float_dec_def split_sign_def d mkfloat_finite)
qed

lemma default_ohms: "feq (d_r_series DEFAULT_D2A) (d_r_series DEFAULT_D2A)" "feq (d_weak_frac DEFAULT_D2A) (d_weak_frac DEFAULT_D2A)"
  using ohms fdiv_not_nan [OF ohms] by (auto simp: feq_refl DEFAULT_D2A_def mk_d2a_def simp del: fdiv.simps)

lemma good_powernet: "good_d2a d \<Longrightarrow> good_d2a (d\<lparr>d_powernet := True\<rparr>)"
  by (simp add: good_d2a_def)

lemma d2a_text:
  assumes "good_d2a d" "list_all plain_char canonical" "canonical \<noteq> []"
  shows "paste_line ''d2a'' canonical (IeD d) = Inr (cmd_line (''d2a'', paste_text (d2a_pairs d) canonical))"
  using d2a_line [OF assms(1)] pasted_plain(2) [OF _ d2a_pairs_good [OF assms(1)] d2a_pairs_keys(4) assms(2,3), of "''d2a''"]
  by simp

lemma a2d_text:
  assumes "good_a2d a" "list_all plain_char canonical" "canonical \<noteq> []"
  shows "paste_line ''a2d'' canonical (IeA a) = Inr (cmd_line (''a2d'', paste_text (a2d_pairs a) canonical))"
  using a2d_line [OF assms(1)] pasted_plain(2) [OF _ a2d_pairs_good [OF assms(1)] a2d_pairs_keys(4) assms(2,3), of "''a2d''"]
  by simp

lemma ie_lines_text:
  assumes "good_d2a d" "good_a2d a" "list_all plain_char canonical" "canonical \<noteq> []"
    and "ro \<in> {D2A, A2D, BIDIR, POWERNET}"
  shows "ie_lines ro canonical (Some d) (Some a) = Inr (map cmd_line (paste_cmds canonical (report_pairs ro d a)))"
proof -
  have g: "\<not> gated_series r d" for r
    using assms(1) default_ohms by (simp add: gated_series_def good_d2a_def)
  note t = d2a_text [OF assms(1,3,4)] a2d_text [OF assms(2,3,4)] d2a_text [OF good_powernet [OF assms(1)] assms(3,4)]
  from assms(5) show ?thesis
    by (elim insertE emptyE) (simp_all add: ie_lines_def line_calls_def g t report_pairs_def paste_cmds_def)
qed

lemma report_pairs_good:
  assumes "good_d2a d" "good_a2d a" "canonical \<noteq> []" "(kind, ps) \<in> set (report_pairs ro d a)"
  shows "(kind = ''d2a'' \<or> kind = ''a2d'') \<and> list_all good_pair ps \<and>
      distinct (map fst ps) \<and> set (map fst ps) \<inter> set SELECTORS = {} \<and> ps \<noteq> [] \<and>
      (\<forall>orig. \<not> has_errors (check_rule (pasted_rule kind ps canonical orig)))"
proof -
  from assms(4) consider (d) "kind = ''d2a''" "ps = d2a_pairs d" | (a) "kind = ''a2d''" "ps = a2d_pairs a"
    | (p) "kind = ''d2a''" "ps = d2a_pairs (d\<lparr>d_powernet := True\<rparr>)"
    by (auto simp: report_pairs_def split: if_splits)
  then show ?thesis
  proof cases
    case d
    then show ?thesis
      using d2a_pairs_good [OF assms(1)] d2a_pairs_keys [of d] d2a_check [OF assms(1,3)] by simp
  next
    case a
    then show ?thesis
      using a2d_pairs_good [OF assms(2)] a2d_pairs_keys [of a] a2d_check [OF assms(2,3)] by simp
  next
    case p
    let ?d = "d\<lparr>d_powernet := True\<rparr>"
    show ?thesis using d2a_pairs_good [OF good_powernet [OF assms(1)]] d2a_pairs_keys [of ?d]
        d2a_check [OF good_powernet [OF assms(1)] assms(3)] p by simp
  qed
qed

lemma plain_no_star: "list_all plain_char t \<Longrightarrow> CHR ''*'' \<notin> set t"
  using not_pair_char by (auto simp: list_all_iff pair_char_def)

text \<open>A node whose control file is its report has the levels of the report.\<close>

lemma report_levels:
  assumes g: "good_d2a d" "good_a2d a" and c: "list_all plain_char canonical" "canonical \<noteq> []"
    and ro: "ro \<in> {D2A, A2D, BIDIR, POWERNET}"
    and f: "isabs path" "os_isfile os path" "ie_lines ro canonical (Some d) (Some a) = Inr ls"
      "os_open os path = Inr (py_join [CHR ''\<newline>''] ls)"
  shows "\<exists>res h'. resolve_detail (parse_control os [path] cwd env) (canonical # aliases) ports vr dc h (Some ro) subckt =
      Inr (res, h') \<and>
    (ro = D2A \<or> ro = BIDIR \<longrightarrow> rn_d2a res = d) \<and> (ro = A2D \<or> ro = BIDIR \<longrightarrow> rn_a2d res = a) \<and>
    (ro = POWERNET \<longrightarrow> rn_d2a res = d\<lparr>d_powernet := True\<rparr>)"
proof -
  let ?cfg = "parse_control os [path] cwd env" and ?ks = "report_pairs ro d a"
  have star: "CHR ''*'' \<notin> set canonical" by (rule plain_no_star [OF c(1)])
  have ls: "ls = map cmd_line (paste_cmds canonical ?ks)" using ie_lines_text [OF g c ro] f(3) by simp
  have "?ks \<noteq> []" using ro by (auto simp: report_pairs_def)
  then obtain origs where o: "length origs = length ?ks"
      "ac_rules ?cfg = map (\<lambda>((kind, ps), orig). pasted_rule kind ps canonical orig) (zip ?ks origs)"
    using pasted_rules [OF f(1,2) f(4) [unfolded ls] _ c report_pairs_good [OF g c(2), of _ _ ro]] by blast
  from ro show ?thesis
  proof (elim insertE emptyE)
    assume r: "ro = D2A"
    then obtain q where "ac_rules ?cfg = [pasted_rule ''d2a'' (d2a_pairs d) canonical q]"
      using o by (auto simp: report_pairs_def length_Suc_conv)
    from d2a_resolves [OF this g(1) star c(2), of "Some ro"] show ?thesis using r by simp
  next
    assume r: "ro = A2D"
    then obtain q where "ac_rules ?cfg = [pasted_rule ''a2d'' (a2d_pairs a) canonical q]"
      using o by (auto simp: report_pairs_def length_Suc_conv)
    from a2d_resolves [OF this g(2) star c(2), of "Some ro"] show ?thesis using r by simp
  next
    assume r: "ro = BIDIR"
    then obtain q q' where "ac_rules ?cfg = [pasted_rule ''d2a'' (d2a_pairs d) canonical q,
        pasted_rule ''a2d'' (a2d_pairs a) canonical q']"
      using o by (auto simp: report_pairs_def length_Suc_conv)
    from bidir_resolves [OF this g star c(2)] show ?thesis using r by simp
  next
    assume r: "ro = POWERNET"
    then obtain q where "ac_rules ?cfg = [pasted_rule ''d2a'' (d2a_pairs (d\<lparr>d_powernet := True\<rparr>)) canonical q]"
      using o by (auto simp: report_pairs_def length_Suc_conv)
    from d2a_resolves [OF this good_powernet [OF g(1)] star c(2), of "Some ro"] show ?thesis using r by simp
  qed
qed

end
