(* ===== verification/IeProps.thy ===== *)
theory IeProps
  imports PasteRead
begin

text \<open>
  The properties of the interface-element rules and of the numbers they are written with.
\<close>

section \<open>Numbers\<close>

text \<open>C9: what \<open>fmt\<close> writes, \<open>parse_number\<close> reads back as the same double, for every finite double; a
  negative zero is written as zero.\<close>

theorem fmt_round_trip:
  assumes "is_double x" and "finite_float x"
  shows "\<exists>t. fmt x = Inr t \<and> parse_number t = Inr (plain_zero x)"
  using fmt_reads_back [OF assms] by metis

theorem fmt_round_trip_witness:
  "\<exists>t. fmt (Fin False (3 / 4)) = Inr t \<and> parse_number t = Inr (Fin False (3 / 4))"
proof -
  have "dbl_mag (3 / 4)"
    using dbl_magI [of 3 "-2"] by (simp add: emin_def power_int_def power2_eq_square)
  then show ?thesis using fmt_round_trip [of "Fin False (3 / 4)"] by (simp add: plain_zero_def)
qed

section \<open>Rules\<close>

text \<open>C13: the value merged for a key is that of the last setting of the key, in file order, among the
  rules applied to the node; these are rules of the node's direction that match it. A later rule
  overrides an earlier one key by key, and \<open>rf_time\<close> and \<open>delay\<close> set both of their keys in place.\<close>

theorem later_rule_wins:
  "rs_merged (resolve_rules cfg nms ports dc h r subckt) rk =
     map_of (rev (settings_of_rules (ac_rules cfg) rk (rs_applied (resolve_rules cfg nms ports dc h r subckt)))) \<and>
   sorted_wrt (<) (rs_applied (resolve_rules cfg nms ports dc h r subckt)) \<and>
   set (rs_applied (resolve_rules cfg nms ports dc h r subckt)) \<subseteq>
     {i. i < length (ac_rules cfg) \<and> rule_matches (resolve_env cfg nms ports dc r subckt) (ac_rules cfg ! i) \<and>
         direction_of (ac_rules cfg ! i) \<in> set (role_kinds r)}"
  using applied_inv_loop [of "resolve_env cfg nms ports dc r subckt" "ac_rules cfg" "see_cells ports (record_seen nms h)"]
  by (auto simp: applied_inv_def resolve_rules_def resolve_env_def)

text \<open>C14: whatever the control files, their includes and the environment hold, every node resolves
  under the configuration that \<open>parse_control\<close> returns: no rule that it keeps fails to be read, unless a
  threshold pair in the wrong order has an infinite level that the message cannot print.\<close>

theorem control_files_resolve:
  "(\<exists>res h'. resolve_detail (parse_control os paths cwd env) nms ports vr dc h r subckt = Inr (res, h')) \<or>
   (\<exists>x. \<not> finite_float x \<and>
     resolve_detail (parse_control os paths cwd env) nms ports vr dc h r subckt = Inl (cannot_print x))"
  by (rule checked_resolves [OF checked_parse])






text \<open>The counters after several nodes were resolved, as the deck's writer resolves them.\<close>

record node_query =
  nq_names :: "string list"
  nq_ports :: "port5 list"
  nq_vref :: vref
  nq_role :: "role option"

fun resolve_nodes ::
  "ams_config \<Rightarrow> dc_of \<Rightarrow> (string \<Rightarrow> string list) option \<Rightarrow> node_query list \<Rightarrow> rule_hits \<Rightarrow> rule_hits valued"
where
  "resolve_nodes cfg dc subckt [] h = Inr h"
| "resolve_nodes cfg dc subckt (q # qs) h =
     rbind (resolve_detail cfg (nq_names q) (nq_ports q) (nq_vref q) dc h (nq_role q) subckt)
       (\<lambda>(res, h'). resolve_nodes cfg dc subckt qs h')"

definition query_env :: "ams_config \<Rightarrow> dc_of \<Rightarrow> (string \<Rightarrow> string list) option \<Rightarrow> node_query \<Rightarrow> rule_env" where
  "query_env cfg dc subckt q = resolve_env cfg (nq_names q) (nq_ports q) dc (nq_role q) subckt"

lemma resolve_nodes_hits:
  "resolve_nodes cfg dc subckt qs h = Inr h' \<Longrightarrow> k < length (ac_rules cfg) \<Longrightarrow>
     hit (indexed ''rule'' k) h' \<longleftrightarrow> hit (indexed ''rule'' k) h \<or>
       (\<exists>q \<in> set qs. rule_matches (query_env cfg dc subckt q) (ac_rules cfg ! k))"
proof (induction qs arbitrary: h)
  case (Cons q qs)
  then obtain res h1 where r: "resolve_detail cfg (nq_names q) (nq_ports q) (nq_vref q) dc h (nq_role q) subckt = Inr (res, h1)"
      and h1: "resolve_nodes cfg dc subckt qs h1 = Inr h'"
    by (auto simp: res_simps)
  show ?case using Cons.IH [OF h1 Cons.prems(2)] resolve_detail_hits [OF r, of k] Cons.prems(2)
    by (auto simp: query_env_def)
qed simp

lemma rule_target_text: "tn_target (rule_target r) = selector_text r"
  by (simp add: rule_target_def mk_tnf_def split: option.split)

lemma selector_text_start: "selector_text r = [] \<or> hd (selector_text r) \<noteq> CHR ''v''"
  by (auto simp: selector_text_def py_join_def split: option.split)

lemma tnf_supply_text:
  assumes "t \<in> set (tnf_supply h k r which)" "which \<in> {''vdd'', ''vss''}"
  shows "tn_target t \<noteq> [] \<and> hd (tn_target t) = CHR ''v''"
  using assms by (auto simp: tnf_supply_def supply_given_def mk_tnf_def split: option.splits if_splits)

lemma rule_target_reported:
  "rule_target r \<in> set (tnf_rule h (k, r)) \<longleftrightarrow> \<not> hit (indexed ''rule'' k) h"
proof (cases "hit (indexed ''rule'' k) h")
  case True
  have "rule_target r \<notin> set (tnf_supply h k r which)" if "which \<in> {''vdd'', ''vss''}" for which
    using tnf_supply_text [OF _ that, of "rule_target r"] selector_text_start [of r] rule_target_text [of r]
    by metis
  then show ?thesis using True by (simp add: tnf_rule_def)
qed (simp add: tnf_rule_def)

text \<open>C16: after any nodes were resolved, \<open>unmatched\<close> reports a rule's selector as not found exactly when
  none of the nodes matched the rule in a direction its role marks.\<close>

theorem tnf_exact:
  assumes "resolve_nodes cfg dc subckt qs [] = Inr h" and "k < length (ac_rules cfg)"
  shows "(rule_target (ac_rules cfg ! k) \<in> set (tnf_rule h (k, ac_rules cfg ! k)) \<longleftrightarrow>
           \<not> (\<exists>q \<in> set qs. rule_matches (query_env cfg dc subckt q) (ac_rules cfg ! k))) \<and>
         set (tnf_rule h (k, ac_rules cfg ! k)) \<subseteq> set (tnf_targets cfg h)"
proof
  show "rule_target (ac_rules cfg ! k) \<in> set (tnf_rule h (k, ac_rules cfg ! k)) \<longleftrightarrow>
      \<not> (\<exists>q \<in> set qs. rule_matches (query_env cfg dc subckt q) (ac_rules cfg ! k))"
    using resolve_nodes_hits [OF assms] by (simp add: rule_target_reported hit_def)
  have "(k, ac_rules cfg ! k) \<in> set (enumerate 0 (ac_rules cfg))"
    using assms(2) by (simp add: in_set_enumerate_eq)
  then show "set (tnf_rule h (k, ac_rules cfg ! k)) \<subseteq> set (tnf_targets cfg h)"
    by (auto simp: tnf_targets_def)
qed

theorem tnf_exact_witness:
  "\<exists>h. resolve_nodes (mk_config\<lparr>ac_rules := [mk_rule ''d2a'' \<lparr>ir_node := Some ''a''\<rparr>]\<rparr>) (\<lambda>_. (''missing'', DNone)) None
         [\<lparr>nq_names = [''b''], nq_ports = [], nq_vref = (f0, f1, None), nq_role = Some D2A\<rparr>] [] = Inr h \<and>
       set (tnf_targets (mk_config\<lparr>ac_rules := [mk_rule ''d2a'' \<lparr>ir_node := Some ''a''\<rparr>]\<rparr>) h) \<noteq> {}"
proof -
  let ?r = "mk_rule ''d2a'' \<lparr>ir_node := Some ''a''\<rparr>"
  let ?cfg = "mk_config\<lparr>ac_rules := [?r]\<rparr>" and ?dc = "\<lambda>_::string. (''missing'', DNone)"
  let ?q = "\<lparr>nq_names = [''b''], nq_ports = [], nq_vref = (f0, f1, None), nq_role = Some D2A\<rparr>"
  have no: "\<not> rule_matches (query_env ?cfg ?dc None ?q) ?r"
    by (simp add: rule_matches_def query_env_def resolve_env_def select_ports_def mk_rule_def
        node_matches_def has_wildcard_def glob_match_def case_sensitive_def mk_config_def
        lower_char_def code_in_def)
  have s: "resolve_rules ?cfg [''b''] [] ?dc [] (Some D2A) None =
      \<lparr>rs_hits = see_cells [] (record_seen [''b''] []), rs_notes = [], rs_applied = [], rs_aliases = [],
       rs_merged = (\<lambda>_. Map.empty), rs_supply = (\<lambda>_. Map.empty)\<rparr>"
    using no by (auto simp: resolve_rules_def rules_loop_def mk_config_def rule_step_def rule_matches_def
        query_env_def split: option.split)
  have "\<exists>h. resolve_nodes ?cfg ?dc None [?q] [] = Inr h"
    by (simp add: resolve_detail_def s resolve_levels_def d2a_levels_def a2d_levels_def reference_def Let_def
        read_level_def read_time_def read_x2v_def read_powernet_def read_ohms_def crossed_def mk_a2d_def
        flt_irrefl read_a2d_extra_def note_ideal_def)
  then obtain h where h: "resolve_nodes ?cfg ?dc None [?q] [] = Inr h" by blast
  have "rule_target ?r \<in> set (tnf_rule h (0, ?r)) \<and> set (tnf_rule h (0, ?r)) \<subseteq> set (tnf_targets ?cfg h)"
    using tnf_exact [OF h, of 0] no by (simp add: mk_config_def)
  then show ?thesis using h by (intro exI [of _ h]) auto
qed

end
