(* ===== verification/NetlistIr.thy ===== *)
theory NetlistIr
  imports ExprAst Notes
begin

text \<open>
  The analog netlist of \<open>vamos/netlist/ir.py\<close>: its dataclasses field by field, the walks over items
  and analyses, and the look-ups that every consumer shares. An item body that may hold any kind of
  item is a list of one datatype, so a \<open>Subckt\<close> and a \<open>Cond\<close>, which hold items, are datatypes with
  the class's fields as selectors; the other classes are records.
\<close>

section \<open>Options and leaves\<close>

definition MODEL_KINDS :: "string list" where
  "MODEL_KINDS = [''nmos'', ''pmos'', ''npn'', ''pnp'', ''njf'', ''pjf'', ''d'', ''r'', ''c'', ''l'']"

text \<open>A Spectre parameter value: an expression or a vector of them.\<close>

datatype ir_value = VExpr expr | VList "expr list"

record parse_opts =
  po_dialect :: string
  po_case :: string
  po_parhier_local :: bool
  po_synth_step :: pyfloat
  po_synth_stop :: pyfloat
  po_search :: "string list"

definition mk_parse_opts :: parse_opts where
  "mk_parse_opts = \<lparr>po_dialect = ''hspice'', po_case = ''lower'', po_parhier_local = False,
     po_synth_step = float_dec ''1'' (-11), po_synth_stop = float_of_int 3600, po_search = []\<rparr>"

record param =
  pa_name :: string
  pa_expr :: expr
  pa_origin :: string

record model =
  mo_name :: string
  mo_kind :: string
  mo_level :: "pyfloat option"
  mo_params :: "(string \<times> expr) list"
  mo_origin :: string
  mo_base :: "string option"
  mo_bin_index :: "int option"
  mo_bin_rule :: "string option"
  mo_prim :: string

record wave_source =
  ws_dc :: "expr option"
  ws_ac :: "(expr \<times> expr) option"
  ws_wave :: "string option"
  ws_args :: "(string \<times> expr) list"
  ws_points :: "(expr \<times> expr) list"
  ws_code_uri :: "string option"
  ws_spectre :: "(string \<times> ir_value) list"

definition mk_source :: wave_source where
  "mk_source = \<lparr>ws_dc = None, ws_ac = None, ws_wave = None, ws_args = [], ws_points = [], ws_code_uri = None,
     ws_spectre = []\<rparr>"

record inst =
  in_name :: string
  in_kind :: string
  in_nodes :: "string list"
  in_master :: "string option"
  in_value :: "expr option"
  in_params :: "(string \<times> expr) list"
  in_source :: "wave_source option"
  in_expr :: "expr option"
  in_expr_kind :: "string option"
  in_ctrl :: "string list"
  in_origin :: string
  in_prim :: string
  in_folded :: "string list"

definition mk_inst :: "string \<Rightarrow> string \<Rightarrow> string list \<Rightarrow> inst" where
  "mk_inst name kind nodes = \<lparr>in_name = name, in_kind = kind, in_nodes = nodes, in_master = None, in_value = None,
     in_params = [], in_source = None, in_expr = None, in_expr_kind = None, in_ctrl = [], in_origin = [],
     in_prim = [], in_folded = []\<rparr>"

record param_test =
  pt_name :: string
  pt_tests :: "(string \<times> expr) list"
  pt_message :: string
  pt_severity :: string
  pt_origin :: string

section \<open>Items\<close>

datatype item =
    ItInst inst
  | ItModel model
  | ItParam param
  | ItSubckt subckt
  | ItCond cond
  | ItTest param_test
and subckt =
    Subckt (sk_name: string) (sk_ports: "string list") (sk_params: "param list") (sk_body: "item list")
      (sk_orig_ports: "string list") (sk_gnd_ports: "nat list") (sk_origin: string)
      (sk_spelling: "(string \<times> string) list") (sk_inline: bool)
and cond =
    Cond (cd_branches: "(expr \<times> item list) list") (cd_default: "item list") (cd_origin: string)

text \<open>\<open>Subckt(name, ports, params, body)\<close> with the defaults of the other fields.\<close>

definition mk_subckt :: "string \<Rightarrow> string list \<Rightarrow> param list \<Rightarrow> item list \<Rightarrow> subckt" where
  "mk_subckt name ports params body = Subckt name ports params body [] [] [] [] False"

text \<open>\<open>flat_items\<close>: a \<open>Cond\<close> is followed by the items of its branches; a \<open>Subckt\<close> is not entered.\<close>

fun flat_item :: "item \<Rightarrow> item list" where
  "flat_item (ItCond (Cond brs dflt orig)) =
     ItCond (Cond brs dflt orig) # concat (map (\<lambda>(c, body). concat (map flat_item body)) brs) @ concat (map flat_item dflt)"
| "flat_item it = [it]"

definition flat_items :: "item list \<Rightarrow> item list" where
  "flat_items items = concat (map flat_item items)"

section \<open>Analyses and the Spectre classes\<close>

record va_module =
  vm_name :: string
  vm_path :: string
  vm_params :: "string list option"
  vm_attrs :: "(string \<times> string) list"

record sweep_spec =
  sw_target :: string
  sw_name :: string
  sw_param :: string
  sw_mode :: string
  sw_start :: "expr option"
  sw_stop :: "expr option"
  sw_step :: "expr option"
  sw_count :: "int option"
  sw_values :: "expr list"
  sw_origin :: string

record save_spec =
  sv_items :: "string list"
  sv_depth :: "int option"
  sv_sigtype :: string
  sv_devtype :: "string option"
  sv_subckt :: "string option"
  sv_exclude :: "string list"
  sv_probelvl :: "int option"
  sv_time_window :: "pyfloat list"
  sv_ports :: bool
  sv_filter :: string
  sv_origin :: string

record vary =
  vy_param :: string
  vy_dist :: string
  vy_std :: "expr option"
  vy_n :: "expr option"
  vy_percent :: bool
  vy_origin :: string

record correlate =
  co_params :: "string list"
  co_devs :: "string list"
  co_cc :: "expr option"
  co_origin :: string

record stat_block =
  sb_kind :: string
  sb_varies :: "vary list"
  sb_correlates :: "correlate list"
  sb_truncate :: "expr option"
  sb_origin :: string

text \<open>An argument of an analysis: a float or flag of the HSPICE path, or a Spectre value.\<close>

datatype arg_value = AFloat pyfloat | ABool bool | AValue ir_value

datatype analysis =
  Analysis (an_kind: string) (an_args: "(string \<times> arg_value) list") (an_origin: string) (an_name: string)
    (an_sweep: "sweep_spec option") (an_nodes: "string list") (an_children: "analysis list") (an_spice: bool)

fun flat_analysis :: "analysis \<Rightarrow> analysis list" where
  "flat_analysis (Analysis k args orig nm sw nds chs sp) =
     Analysis k args orig nm sw nds chs sp # concat (map flat_analysis chs)"

definition flat_analyses :: "analysis list \<Rightarrow> analysis list" where
  "flat_analyses as = concat (map flat_analysis as)"

section \<open>The netlist\<close>

datatype ic_value = IcFloat pyfloat | IcExpr expr

record netlist =
  nl_title :: string
  nl_body :: "item list"
  nl_globals :: "string list"
  nl_options :: "(string \<times> expr) list"
  nl_temp :: "pyfloat option"
  nl_tnom :: "pyfloat option"
  nl_parhier :: string
  nl_analyses :: "analysis list"
  nl_probes :: "(string \<times> string \<times> string) list"
  nl_ics :: "(string \<times> ic_value) list"
  nl_nodesets :: "(string \<times> ic_value) list"
  nl_hdl :: "string list"
  nl_values :: "(string \<times> pyfloat) list"
  nl_spelling :: "(string \<times> string) list"
  nl_notes :: "diag list"
  nl_dialect :: string
  nl_saves :: "save_spec list"
  nl_statistics :: "stat_block list"
  nl_left_out :: "(string \<times> diag) list"
  nl_va_modules :: "(string \<times> va_module) list"

definition mk_netlist :: netlist where
  "mk_netlist = \<lparr>nl_title = [], nl_body = [], nl_globals = [], nl_options = [], nl_temp = None, nl_tnom = None,
     nl_parhier = ''global'', nl_analyses = [], nl_probes = [], nl_ics = [], nl_nodesets = [], nl_hdl = [],
     nl_values = [], nl_spelling = [], nl_notes = [], nl_dialect = ''hspice'', nl_saves = [], nl_statistics = [],
     nl_left_out = [], nl_va_modules = []\<rparr>"

fun body_insts :: "item list \<Rightarrow> inst list" where
  "body_insts [] = []"
| "body_insts (it # its) = (case it of ItInst i \<Rightarrow> i # body_insts its | _ \<Rightarrow> body_insts its)"

fun body_subckts :: "item list \<Rightarrow> subckt list" where
  "body_subckts [] = []"
| "body_subckts (it # its) = (case it of ItSubckt s \<Rightarrow> s # body_subckts its | _ \<Rightarrow> body_subckts its)"

fun body_models :: "item list \<Rightarrow> model list" where
  "body_models [] = []"
| "body_models (it # its) = (case it of ItModel m \<Rightarrow> m # body_models its | _ \<Rightarrow> body_models its)"

text \<open>\<open>subckts\<close>: a later definition of a name replaces an earlier one.\<close>

definition subckts :: "netlist \<Rightarrow> string \<rightharpoonup> subckt" where
  "subckts nl = map_of (rev (map (\<lambda>s. (sk_name s, s)) (body_subckts (nl_body nl))))"

text \<open>\<open>models\<close>: a card at the top replaces what is there, one in a subckt body does not.\<close>

definition models :: "netlist \<Rightarrow> (string \<times> model) list" where
  "models nl = fold (\<lambda>it out. case it of
       ItModel m \<Rightarrow> dict_set (mo_name m) m out
     | ItSubckt s \<Rightarrow> fold (\<lambda>m out. if mo_name m \<in> fst ` set out then out else dict_set (mo_name m) m out)
                      (body_models (sk_body s)) out
     | _ \<Rightarrow> out) (nl_body nl) []"

definition instances_of :: "netlist \<Rightarrow> inst list" where
  "instances_of nl = body_insts (nl_body nl)"

definition tran_of :: "netlist \<Rightarrow> analysis option" where
  "tran_of nl = List.find (\<lambda>a. an_kind a = ''tran'') (nl_analyses nl)"

definition scale_of :: "netlist \<Rightarrow> pyfloat" where
  "scale_of nl = (case map_of (nl_options nl) ''scale'' of Some (Num x) \<Rightarrow> x | _ \<Rightarrow> f1)"

end
