(* ===== verification/Supply.thy ===== *)
theory Supply
  imports NetlistIr
begin

text \<open>
  Reference-supply tracing, \<open>vamos/ams/supply.py\<close>: the graph of a deck with its X instances expanded,
  the levels of its voltage sources, and the staged trace that finds the supply of a node. A graph
  node is a scope (the X-instance names from the top) and a name. The expression evaluator is an
  argument of the graph, as in the code; a call of it that raises is the left side with the text of
  the exception. The order in which Python iterates a set of scopes is an argument too. The caches
  of the class are left out: what they hold is recomputed.
\<close>

section \<open>Numbers in messages\<close>

text \<open>\<open>"%g" % x\<close>: six significant digits, trailing zeros dropped.\<close>

definition g_digits :: "rat \<Rightarrow> int \<times> int" where
  "g_digits q = (let e = ilog 10 q; m = rne (q / 10 powi (e - 5)) in if m = 10 ^ 6 then (10 ^ 5, e + 1) else (m, e))"

definition drop_zeros :: "string \<Rightarrow> string" where
  "drop_zeros s = rev (dropWhile (\<lambda>c. c = CHR ''0'') (rev s))"

definition g_mag :: "rat \<Rightarrow> string" where
  "g_mag q =
     (if q = 0 then ''0''
      else (let (m, e) = g_digits q; ds = show_digits m; frac = (\<lambda>f. if f = [] then [] else CHR ''.'' # f) in
        if e < -4 \<or> e \<ge> 6 then
          take 1 ds @ frac (drop_zeros (drop 1 ds)) @ ''e'' @ (if e < 0 then ''-'' else ''+'') @ pad2 (show_digits \<bar>e\<bar>)
        else if e \<ge> 0 then take (nat e + 1) ds @ frac (drop_zeros (drop (nat e + 1) ds))
        else ''0.'' @ replicate (nat (- e) - 1) CHR ''0'' @ drop_zeros ds))"

definition format_g :: "pyfloat \<Rightarrow> string" where
  "format_g x = (case x of NaN \<Rightarrow> ''nan'' | Inf s \<Rightarrow> (if s then ''-inf'' else ''inf'')
     | Fin s q \<Rightarrow> (if s then ''-'' else []) @ g_mag q)"

text \<open>\<open>max\<close> and \<open>min\<close> of a list that is not empty: the first of the largest, the first of the smallest.\<close>

definition max_by :: "('a \<Rightarrow> pyfloat) \<Rightarrow> 'a list \<Rightarrow> 'a" where
  "max_by key xs = fold (\<lambda>x m. if flt (key m) (key x) then x else m) (tl xs) (hd xs)"

definition min_by :: "('a \<Rightarrow> pyfloat) \<Rightarrow> 'a list \<Rightarrow> 'a" where
  "min_by key xs = fold (\<lambda>x m. if flt (key x) (key m) then x else m) (tl xs) (hd xs)"

section \<open>Data\<close>

type_synonym path_scope = "string list"
type_synonym snode = "path_scope \<times> string"

definition GROUND :: string where "GROUND = ''0''"
definition TOP :: path_scope where "TOP = []"

datatype level_kind = LConst | LDynamic | LUneval

record level =
  lv_kind :: level_kind
  lv_value :: "pyfloat option"
  lv_source :: string
  lv_origin :: string
  lv_why :: string

definition mk_level :: "level_kind \<Rightarrow> pyfloat option \<Rightarrow> string \<Rightarrow> level" where
  "mk_level k v src = \<lparr>lv_kind = k, lv_value = v, lv_source = src, lv_origin = [], lv_why = []\<rparr>"

type_synonym ref_entry = "pyfloat option \<times> string \<times> nat"

record trace_result =
  tr_vdd :: pyfloat
  tr_source :: string
  tr_path :: "string list"
  tr_dynamic :: bool
  tr_visited :: "snode list"
  tr_ref_name :: "string option"
  tr_ref_index :: int
  tr_ref_dynamic :: bool
  tr_unevaluable :: "level list"
  tr_notes :: "diag list"

definition fmt_node :: "snode \<Rightarrow> string" where
  "fmt_node n = py_join ''.'' (fst n @ [snd n])"

type_synonym evaluator = "expr \<Rightarrow> (string \<rightharpoonup> pyfloat) \<Rightarrow> string + pyfloat"

record graph =
  g_eval :: evaluator
  g_order :: "path_scope list \<Rightarrow> path_scope list"
  g_globals :: "string list"
  g_top :: "inst list"
  g_values :: "string \<rightharpoonup> pyfloat"
  g_body :: "item list"
  g_subckts :: "string \<rightharpoonup> subckt"
  g_powernets :: "(string \<times> pyfloat) list"
  g_dynamic :: "(string \<times> pyfloat) list"
  g_labels :: "(string \<times> string) list"
  g_skip :: "snode list"
  g_refs :: "(snode \<times> ref_entry) list"

text \<open>The constructor.\<close>

definition mk_graph ::
  "evaluator \<Rightarrow> (path_scope list \<Rightarrow> path_scope list) \<Rightarrow> netlist \<Rightarrow> inst list \<Rightarrow> (string \<times> pyfloat) list \<Rightarrow>
   snode list \<Rightarrow> (string \<times> pyfloat) list \<Rightarrow> (string \<times> string) list \<Rightarrow> (snode \<times> ref_entry) list \<Rightarrow> graph"
where
  "mk_graph evalf order nl extra powernets skip dynamic labels refs =
     \<lparr>g_eval = evalf, g_order = order, g_globals = map py_lower (nl_globals nl) @ [GROUND],
      g_top = instances_of nl @ extra, g_values = map_of (nl_values nl), g_body = nl_body nl,
      g_subckts = subckts nl, g_powernets = powernets,
      g_dynamic = filter (\<lambda>(k, v). k \<notin> fst ` set powernets) dynamic, g_labels = labels, g_skip = skip,
      g_refs = refs\<rparr>"

section \<open>Scopes\<close>

definition canon :: "graph \<Rightarrow> path_scope \<Rightarrow> string \<Rightarrow> snode" where
  "canon G scope name = (let n = py_lower name in if n \<in> set (g_globals G) then (TOP, n) else (scope, n))"

record scope_info =
  si_insts :: "inst list"
  si_vals :: "string \<rightharpoonup> pyfloat"
  si_binding :: "string \<rightharpoonup> snode"
  si_body :: "item list"

definition no_scope :: scope_info where
  "no_scope = \<lparr>si_insts = [], si_vals = Map.empty, si_binding = Map.empty, si_body = []\<rparr>"

definition top_scope :: "graph \<Rightarrow> scope_info" where
  "top_scope G = \<lparr>si_insts = g_top G, si_vals = g_values G, si_binding = Map.empty, si_body = g_body G\<rparr>"

text \<open>
  \<open>_subckt_def\<close>, with the infos of the scope and its parents, the innermost first and the top last: a
  definition nested in one of the bodies wins over a top-level one.
\<close>

definition subckt_def :: "graph \<Rightarrow> scope_info list \<Rightarrow> string \<Rightarrow> subckt option" where
  "subckt_def G ch master =
     (let m = py_lower master in
      case List.find (\<lambda>s. sk_name s = m) (concat (map (\<lambda>i. body_subckts (si_body i)) (butlast ch))) of
        Some s \<Rightarrow> Some s | None \<Rightarrow> g_subckts G m)"

text \<open>The parameter values of a subcircuit: an override is evaluated in the parent.\<close>

definition sub_param ::
  "graph \<Rightarrow> (string \<rightharpoonup> pyfloat) \<Rightarrow> (string \<rightharpoonup> expr) \<Rightarrow> param \<Rightarrow> (string \<rightharpoonup> pyfloat) \<Rightarrow> (string \<rightharpoonup> pyfloat)" where
  "sub_param G pvals over p vals =
     (case over (pa_name p) of
        Some e \<Rightarrow> vals(pa_name p := (case g_eval G e pvals of Inr x \<Rightarrow> Some x | Inl _ \<Rightarrow> None))
      | None \<Rightarrow> vals(pa_name p := (case g_eval G (pa_expr p) vals of Inr x \<Rightarrow> Some x | Inl _ \<Rightarrow> None)))"

definition overrides_of :: "inst \<Rightarrow> string \<rightharpoonup> expr" where
  "overrides_of xi = map_of (rev (map (\<lambda>(k, v). (py_lower k, v)) (in_params xi)))"

definition ports_binding :: "graph \<Rightarrow> path_scope \<Rightarrow> subckt \<Rightarrow> inst \<Rightarrow> string \<rightharpoonup> snode" where
  "ports_binding G parent s xi =
     map_of (rev (map (\<lambda>(formal, actual). (py_lower formal, canon G parent actual)) (zip (sk_ports s) (in_nodes xi))))"

text \<open>The scope of an X instance, from the infos of its parents.\<close>

definition enter_scope :: "graph \<Rightarrow> path_scope \<Rightarrow> scope_info list \<Rightarrow> string \<Rightarrow> scope_info" where
  "enter_scope G parent ch name =
     (let p = hd ch in
      case List.find (\<lambda>i. in_kind i = ''x'' \<and> in_name i = name) (si_insts p) of
        None \<Rightarrow> no_scope
      | Some xi \<Rightarrow>
          (case in_master xi of
             None \<Rightarrow> no_scope
           | Some m \<Rightarrow>
               (case subckt_def G ch m of
                  None \<Rightarrow> no_scope
                | Some s \<Rightarrow>
                    \<lparr>si_insts = body_insts (sk_body s),
                     si_vals = fold (sub_param G (si_vals p) (overrides_of xi)) (sk_params s) (si_vals p),
                     si_binding = ports_binding G parent s xi, si_body = sk_body s\<rparr>)))"

fun chain_loop :: "graph \<Rightarrow> path_scope \<Rightarrow> string list \<Rightarrow> scope_info list \<Rightarrow> scope_info list" where
  "chain_loop G parent [] ch = ch"
| "chain_loop G parent (x # xs) ch = chain_loop G (parent @ [x]) xs (enter_scope G parent ch x # ch)"

definition scope_chain :: "graph \<Rightarrow> path_scope \<Rightarrow> scope_info list" where
  "scope_chain G scope = chain_loop G TOP scope [top_scope G]"

definition scope_of :: "graph \<Rightarrow> path_scope \<Rightarrow> scope_info" where
  "scope_of G scope = hd (scope_chain G scope)"

lemma chain_loop_snoc:
  "chain_loop G parent (xs @ [x]) ch =
     enter_scope G (parent @ xs) (chain_loop G parent xs ch) x # chain_loop G parent xs ch"
  by (induction xs arbitrary: parent ch) simp_all

lemma scope_chain_snoc: "scope_chain G (s @ [x]) = enter_scope G s (scope_chain G s) x # scope_chain G s"
  by (simp add: scope_chain_def chain_loop_snoc TOP_def)

lemma canon_cases: "canon G s x = (TOP, y) \<or> canon G s x = (s, y)" if "y = py_lower x" for y
  using that by (auto simp: canon_def Let_def)

text \<open>A port is bound to a node of the parent, or of the top.\<close>

lemma binding_parent:
  assumes "si_binding (scope_of G scope) f = Some n"
  shows "scope \<noteq> [] \<and> (fst n = TOP \<or> fst n = butlast scope)"
proof (cases scope rule: rev_cases)
  case Nil
  then show ?thesis using assms by (simp add: scope_of_def scope_chain_def top_scope_def)
next
  case (snoc s x)
  then have "si_binding (enter_scope G s (scope_chain G s) x) f = Some n"
    using assms by (simp add: scope_of_def scope_chain_snoc)
  then obtain sub xi where "ports_binding G s sub xi f = Some n"
    by (auto simp: enter_scope_def no_scope_def Let_def split: option.splits)
  then obtain a where "n = canon G s a"
    by (auto simp: ports_binding_def dest!: map_of_SomeD)
  then show ?thesis using canon_cases [of "py_lower a" a G s] snoc by auto
qed

text \<open>\<open>_node\<close>: a port is its parent's node.\<close>

function node_up :: "graph \<Rightarrow> snode \<Rightarrow> snode" where
  "node_up G n =
     (if fst n = [] then n
      else (case si_binding (scope_of G (fst n)) (snd n) of Some m \<Rightarrow> node_up G m | None \<Rightarrow> n))"
  by pat_completeness auto
termination
proof (relation "measure (\<lambda>(G, n). length (fst n))")
  fix G n m
  assume "fst n \<noteq> []" "si_binding (scope_of G (fst n)) (snd n) = Some m"
  then show "((G, m), G, n) \<in> measure (\<lambda>(G, n). length (fst n))"
    using binding_parent [of G "fst n" "snd n" m] by (auto simp: TOP_def)
qed simp

declare node_up.simps [simp del]

definition node_at :: "graph \<Rightarrow> path_scope \<Rightarrow> string \<Rightarrow> snode" where
  "node_at G scope name = node_up G (canon G scope name)"

section \<open>Elements\<close>

definition channel :: "inst \<Rightarrow> (string \<times> string) option" where
  "channel i =
     (if (in_kind i = ''r'' \<or> in_kind i = ''l'') \<and> length (in_nodes i) \<ge> 2 then Some (in_nodes i ! 0, in_nodes i ! 1)
      else if (in_kind i = ''m'' \<or> in_kind i = ''j'') \<and> length (in_nodes i) \<ge> 3
      then Some (in_nodes i ! 0, in_nodes i ! 2) else None)"

text \<open>The entries that an instance adds to the adjacency: at a node, the element and the other node.\<close>

definition inst_links :: "graph \<Rightarrow> path_scope \<Rightarrow> inst \<Rightarrow> (snode \<times> string \<times> snode) list" where
  "inst_links G scope i = (case channel i of
     None \<Rightarrow> []
   | Some (x, y) \<Rightarrow>
       (let a = node_at G scope x; b = node_at G scope y; how = fmt_node (scope, in_name i) in
        [(a, how, b), (b, how, a)]))"

definition inst_gates :: "graph \<Rightarrow> path_scope \<Rightarrow> inst \<Rightarrow> (snode \<times> snode \<times> snode) list" where
  "inst_gates G scope i =
     (if in_kind i = ''m'' \<and> length (in_nodes i) \<ge> 3
      then [(node_at G scope (in_nodes i ! 1), node_at G scope (in_nodes i ! 0), node_at G scope (in_nodes i ! 2))]
      else [])"

definition children_of :: "graph \<Rightarrow> path_scope \<Rightarrow> path_scope list" where
  "children_of G scope = map (\<lambda>i. scope @ [in_name i])
     (filter (\<lambda>i. in_kind i = ''x'' \<and> (case in_master i of None \<Rightarrow> False
                   | Some m \<Rightarrow> subckt_def G (scope_chain G scope) m \<noteq> None)) (si_insts (scope_of G scope)))"

text \<open>The values that a wave takes, and the level of a source.\<close>

definition eval_opt :: "graph \<Rightarrow> (string \<rightharpoonup> pyfloat) \<Rightarrow> expr option \<Rightarrow> string + pyfloat" where
  "eval_opt G vals e = (case e of None \<Rightarrow> Inr f0 | Some x \<Rightarrow> g_eval G x vals)"

definition two_levels :: "graph \<Rightarrow> (string \<rightharpoonup> pyfloat) \<Rightarrow> wave_source \<Rightarrow> string + pyfloat list" where
  "two_levels G vals src = rmap (\<lambda>k. eval_opt G vals (map_of (ws_args src) k)) [''v1'', ''v2'']"

definition wave_levels :: "graph \<Rightarrow> (string \<rightharpoonup> pyfloat) \<Rightarrow> wave_source \<Rightarrow> string \<Rightarrow> string + pyfloat list" where
  "wave_levels G vals src w =
     (if w = ''pulse'' \<or> w = ''exp'' then two_levels G vals src
      else if w = ''sin'' then
        rbind (eval_opt G vals (map_of (ws_args src) ''vo'')) (\<lambda>vo.
        rbind (eval_opt G vals (map_of (ws_args src) ''va'')) (\<lambda>va.
          Inr [fsub vo (fabs va), fadd vo (fabs va)]))
      else if w = ''pwl'' then
        rbind (rmap (\<lambda>(_, v). eval_opt G vals (Some v)) (ws_points src)) (\<lambda>lv.
          if lv \<noteq> [] then Inr lv else rbind (eval_opt G vals (ws_dc src)) (\<lambda>d. Inr [d]))
      else Inl (''a '' @ w @ '' wave''))"

definition source_of :: "inst \<Rightarrow> wave_source" where
  "source_of i = (case in_source i of Some s \<Rightarrow> s | None \<Rightarrow> mk_source\<lparr>ws_dc := in_value i\<rparr>)"

definition level_of :: "graph \<Rightarrow> path_scope \<Rightarrow> inst \<Rightarrow> level" where
  "level_of G scope i =
     (let vals = si_vals (scope_of G scope); src = source_of i;
          lev = (\<lambda>k v why. \<lparr>lv_kind = k, lv_value = v, lv_source = fmt_node (scope, in_name i),
                            lv_origin = in_origin i, lv_why = why\<rparr>) in
      case ws_code_uri src of
        Some (c # u) \<Rightarrow> lev LUneval None ''a co-simulation source''
      | _ \<Rightarrow>
     (case ws_wave src of
        Some (c # w) \<Rightarrow>
          (case wave_levels G vals src (c # w) of
             Inl why \<Rightarrow> lev LUneval None why
           | Inr lv \<Rightarrow> if feq (max_by id lv) (min_by id lv) then lev LConst (Some (hd lv)) []
                       else lev LDynamic (Some (max_by id lv)) [])
      | _ \<Rightarrow>
          (case eval_opt G vals (ws_dc src) of
             Inl why \<Rightarrow> lev LUneval None why
           | Inr v \<Rightarrow> lev LConst (Some v) [])))"

definition neg_level :: "level \<Rightarrow> level" where
  "neg_level lv = lv\<lparr>lv_value := map_option fneg (lv_value lv)\<rparr>"

text \<open>The node that a V source to ground holds, and its level there.\<close>

definition ground_node :: snode where "ground_node = (TOP, GROUND)"

definition held :: "graph \<Rightarrow> path_scope \<Rightarrow> inst \<Rightarrow> (snode \<times> level) option" where
  "held G scope i =
     (case in_nodes i of
        x # y # _ \<Rightarrow>
          (let p = node_at G scope x; n = node_at G scope y; lv = level_of G scope i in
           if in_kind i \<noteq> ''v'' then None
           else if n = ground_node \<and> p \<noteq> ground_node then Some (p, lv)
           else if p = ground_node \<and> n \<noteq> ground_node then Some (n, neg_level lv)
           else None)
      | _ \<Rightarrow> None)"

definition is_uneval :: "level \<Rightarrow> bool" where
  "is_uneval lv \<longleftrightarrow> lv_kind lv = LUneval"

text \<open>\<open>_hits\<close> and \<open>_uneval\<close> of a scope: the sources with a value, and those without.\<close>

definition held_by :: "(level \<Rightarrow> bool) \<Rightarrow> graph \<Rightarrow> path_scope \<Rightarrow> (snode \<times> level) list" where
  "held_by P G scope =
     fold (\<lambda>(n, lv) d. if P lv then dict_set n lv d else d)
       (List.map_filter (held G scope) (si_insts (scope_of G scope))) []"

definition hits_of :: "graph \<Rightarrow> path_scope \<Rightarrow> (snode \<times> level) list" where
  "hits_of = held_by (\<lambda>lv. \<not> is_uneval lv)"

definition uneval_of :: "graph \<Rightarrow> path_scope \<Rightarrow> (snode \<times> level) list" where
  "uneval_of = held_by is_uneval"

text \<open>\<open>_all_scopes\<close>. The list of scopes to do has the next one first. A deck whose subcircuits
  instantiate themselves has no end of them.\<close>

partial_function (option) scopes_loop :: "graph \<Rightarrow> path_scope list \<Rightarrow> path_scope list \<Rightarrow> path_scope list option" where
  "scopes_loop G out todo =
     (case todo of
        [] \<Rightarrow> Some out
      | s # rest \<Rightarrow> scopes_loop G (out @ [s]) (rev (children_of G s) @ rest))"

definition all_scopes :: "graph \<Rightarrow> path_scope list option" where
  "all_scopes G = scopes_loop G [] [TOP]"

section \<open>The indexes\<close>

text \<open>\<open>_index\<close>: the scopes that touch a node, the channels at it, and the drains and sources that it
  gates; they are computed from the scopes \<open>ss\<close> of the deck.\<close>

definition touches :: "graph \<Rightarrow> path_scope \<Rightarrow> snode \<Rightarrow> bool" where
  "touches G s n \<longleftrightarrow> list_ex (\<lambda>i. list_ex (\<lambda>x. node_at G s x = n) (in_nodes i)) (si_insts (scope_of G s))"

definition touching :: "graph \<Rightarrow> path_scope list \<Rightarrow> snode \<Rightarrow> path_scope list" where
  "touching G ss n = filter (\<lambda>s. touches G s n) (remdups ss)"

definition all_links :: "graph \<Rightarrow> path_scope list \<Rightarrow> (snode \<times> string \<times> snode) list" where
  "all_links G ss = concat (map (\<lambda>s. concat (map (inst_links G s) (si_insts (scope_of G s)))) ss)"

definition adj_at :: "graph \<Rightarrow> path_scope list \<Rightarrow> snode \<Rightarrow> snode list" where
  "adj_at G ss n = map (\<lambda>(a, how, b). b) (filter (\<lambda>(a, how, b). a = n) (all_links G ss))"

definition all_gates :: "graph \<Rightarrow> path_scope list \<Rightarrow> (snode \<times> snode \<times> snode) list" where
  "all_gates G ss = concat (map (\<lambda>s. concat (map (inst_gates G s) (si_insts (scope_of G s)))) ss)"

definition gated_at :: "graph \<Rightarrow> path_scope list \<Rightarrow> snode \<Rightarrow> snode list" where
  "gated_at G ss g = concat (map (\<lambda>(a, d, s). [d, s]) (filter (\<lambda>(a, d, s). a = g) (all_gates G ss)))"

definition scopes_touching :: "graph \<Rightarrow> path_scope list \<Rightarrow> snode \<Rightarrow> path_scope list" where
  "scopes_touching G ss n = sort_key length (g_order G (touching G ss n))"

section \<open>Queries\<close>

definition powernet_label :: "graph \<Rightarrow> string \<Rightarrow> string" where
  "powernet_label G n = (case map_of (g_labels G) n of Some l \<Rightarrow> l | None \<Rightarrow> ''powernet '' @ n)"

definition is_powernet :: "graph \<Rightarrow> snode \<Rightarrow> bool" where
  "is_powernet G n \<longleftrightarrow> fst n = TOP \<and> (snd n \<in> fst ` set (g_powernets G) \<or> snd n \<in> fst ` set (g_dynamic G))"

text \<open>The first level that one of the scopes has for a node.\<close>

fun first_level :: "(path_scope \<Rightarrow> (snode \<times> level) list) \<Rightarrow> snode \<Rightarrow> path_scope list \<Rightarrow> level option" where
  "first_level f n [] = None"
| "first_level f n (s # ss) = (case map_of (f s) n of Some lv \<Rightarrow> Some lv | None \<Rightarrow> first_level f n ss)"

definition hit_at :: "graph \<Rightarrow> path_scope list \<Rightarrow> snode \<Rightarrow> level option" where
  "hit_at G ss n =
     (case (if fst n = TOP then map_of (g_powernets G) (snd n) else None) of
        Some v \<Rightarrow> Some (mk_level LConst (Some v) (powernet_label G (snd n)))
      | None \<Rightarrow>
     (case (if fst n = TOP then map_of (g_dynamic G) (snd n) else None) of
        Some v \<Rightarrow> Some (mk_level LDynamic (Some v) (powernet_label G (snd n)))
      | None \<Rightarrow> first_level (hits_of G) n (scopes_touching G ss n)))"

definition unevaluable_at :: "graph \<Rightarrow> path_scope list \<Rightarrow> snode \<Rightarrow> level option" where
  "unevaluable_at G ss n = first_level (uneval_of G) n (scopes_touching G ss n)"

definition unevaluable_sources :: "graph \<Rightarrow> path_scope list \<Rightarrow> level list" where
  "unevaluable_sources G ss = concat (map (\<lambda>s. map snd (uneval_of G s)) ss)"

definition SOURCE_KINDS :: "string list" where
  "SOURCE_KINDS = [''v'', ''i'', ''e'', ''f'', ''g'', ''h'', ''b'', ''y'']"

definition touches_source :: "graph \<Rightarrow> path_scope list \<Rightarrow> snode \<Rightarrow> bool" where
  "touches_source G ss n =
     list_ex (\<lambda>s. list_ex (\<lambda>i. in_kind i \<in> set SOURCE_KINDS \<and> list_ex (\<lambda>x. node_at G s x = n) (in_nodes i))
       (si_insts (scope_of G s))) (touching G ss n)"

datatype net_status = SConst pyfloat | SDynamic | SMissing

definition constant_value :: "graph \<Rightarrow> path_scope list \<Rightarrow> snode \<Rightarrow> net_status" where
  "constant_value G ss n =
     (if n = ground_node then SConst f0
      else if touching G ss n = [] \<and> \<not> is_powernet G n then SMissing
      else (case hit_at G ss n of
              None \<Rightarrow> SDynamic
            | Some lv \<Rightarrow> (case (lv_kind lv, lv_value lv) of (LConst, Some v) \<Rightarrow> SConst v | _ \<Rightarrow> SDynamic)))"

definition better :: "pyfloat \<times> string \<Rightarrow> (pyfloat \<times> string) option \<Rightarrow> (pyfloat \<times> string) option" where
  "better c best = (case best of None \<Rightarrow> Some c | Some b \<Rightarrow> if flt (fst b) (fst c) then Some c else best)"

definition highest_constant :: "graph \<Rightarrow> path_scope list \<Rightarrow> (pyfloat \<times> string) option" where
  "highest_constant G ss =
     (let levels = concat (map (\<lambda>s. map snd (hits_of G s)) ss);
          consts = List.map_filter (\<lambda>lv. case (lv_kind lv, lv_value lv) of
                     (LConst, Some v) \<Rightarrow> Some (v, lv_source lv) | _ \<Rightarrow> None) levels;
          best = fold better consts None
      in fold (\<lambda>(n, v) b. better (v, powernet_label G n) b) (g_powernets G) best)"

section \<open>The trace\<close>

text \<open>What the trace finds at a node.\<close>

datatype found = Blocked | FoundRef ref_entry | FoundHit pyfloat level | FoundUneval level | Passed

definition held_at :: "graph \<Rightarrow> path_scope list \<Rightarrow> snode \<Rightarrow> found" where
  "held_at G ss n =
     (case (case hit_at G ss n of Some lv \<Rightarrow> map_option (\<lambda>v. (v, lv)) (lv_value lv) | None \<Rightarrow> None) of
        Some (v, lv) \<Rightarrow> FoundHit v lv
      | None \<Rightarrow> (case unevaluable_at G ss n of Some un \<Rightarrow> FoundUneval un | None \<Rightarrow> Passed))"

definition found_at :: "graph \<Rightarrow> path_scope list \<Rightarrow> snode \<Rightarrow> snode \<Rightarrow> found" where
  "found_at G ss start n =
     (if n = ground_node \<or> n \<in> set (g_skip G) then Blocked
      else (case map_of (g_refs G) n of
              Some r \<Rightarrow> if n = start \<and> fst r = None then held_at G ss n else FoundRef r
            | None \<Rightarrow> held_at G ss n))"

text \<open>The variables of a stage. \<open>sg_parent\<close> is the dictionary \<open>parent\<close> of the whole trace.\<close>

record stage =
  sg_visited :: "snode list"
  sg_parent :: "(snode \<times> snode option) list"
  sg_queue :: "snode list"
  sg_region :: "snode list"
  sg_hits :: "(pyfloat \<times> level \<times> snode) list"
  sg_refs :: "(snode \<times> ref_entry) list"
  sg_uneval :: "level list"

definition set_default :: "snode \<Rightarrow> snode \<Rightarrow> (snode \<times> snode option) list \<Rightarrow> (snode \<times> snode option) list" where
  "set_default m g par = (if m \<in> fst ` set par then par else par @ [(m, Some g)])"

definition see_node :: "snode \<Rightarrow> snode \<Rightarrow> stage \<Rightarrow> stage" where
  "see_node n m st = (if m \<in> set (sg_visited st) then st
     else st\<lparr>sg_visited := sg_visited st @ [m], sg_parent := set_default m n (sg_parent st),
             sg_queue := sg_queue st @ [m]\<rparr>)"

definition visit_node :: "graph \<Rightarrow> path_scope list \<Rightarrow> snode \<Rightarrow> snode \<Rightarrow> stage \<Rightarrow> stage" where
  "visit_node G ss start n st =
     (case found_at G ss start n of
        Blocked \<Rightarrow> st
      | FoundRef r \<Rightarrow> st\<lparr>sg_refs := sg_refs st @ [(n, r)]\<rparr>
      | FoundHit v lv \<Rightarrow> st\<lparr>sg_hits := sg_hits st @ [(v, lv, n)]\<rparr>
      | FoundUneval lv \<Rightarrow> st\<lparr>sg_uneval := sg_uneval st @ [lv]\<rparr>
      | Passed \<Rightarrow> fold (see_node n) (adj_at G ss n) (st\<lparr>sg_region := sg_region st @ [n]\<rparr>))"

partial_function (option) stage_loop :: "graph \<Rightarrow> path_scope list \<Rightarrow> snode \<Rightarrow> stage \<Rightarrow> stage option" where
  "stage_loop G ss start st =
     (case sg_queue st of
        [] \<Rightarrow> Some st
      | n # q \<Rightarrow> stage_loop G ss start (visit_node G ss start n (st\<lparr>sg_queue := q\<rparr>)))"

definition enter_node :: "snode \<Rightarrow> stage \<Rightarrow> stage" where
  "enter_node f st = (if f \<in> set (sg_visited st) then st
     else st\<lparr>sg_visited := sg_visited st @ [f], sg_queue := sg_queue st @ [f]\<rparr>)"

definition begin_stage :: "snode list \<Rightarrow> snode list \<Rightarrow> (snode \<times> snode option) list \<Rightarrow> stage" where
  "begin_stage frontier visited par = fold enter_node frontier
     \<lparr>sg_visited = visited, sg_parent = par, sg_queue = [], sg_region = [], sg_hits = [], sg_refs = [], sg_uneval = []\<rparr>"

text \<open>The next frontier: the drains and sources that the region gates.\<close>

definition gate_node :: "snode list \<Rightarrow> snode \<times> snode \<Rightarrow> snode list \<times> (snode \<times> snode option) list \<Rightarrow>
  snode list \<times> (snode \<times> snode option) list" where
  "gate_node visited = (\<lambda>(g, m) (nxt, par).
     if m \<in> set visited then (nxt, par) else (nxt @ [m], set_default m g par))"

definition next_frontier :: "graph \<Rightarrow> path_scope list \<Rightarrow> stage \<Rightarrow> snode list \<times> (snode \<times> snode option) list" where
  "next_frontier G ss st = fold (gate_node (sg_visited st))
     (concat (map (\<lambda>g. map (Pair g) (gated_at G ss g)) (sg_region st))) ([], sg_parent st)"

text \<open>\<open>path_to\<close>, the last node first. A chain of parents is no longer than the dictionary.\<close>

fun path_nodes :: "(snode \<times> snode option) list \<Rightarrow> nat \<Rightarrow> snode \<Rightarrow> snode list" where
  "path_nodes par 0 n = []"
| "path_nodes par (Suc k) n = n # (case map_of par n of Some (Some g) \<Rightarrow> path_nodes par k g | _ \<Rightarrow> [])"

definition path_to :: "(snode \<times> snode option) list \<Rightarrow> snode \<Rightarrow> string list" where
  "path_to par n = map fmt_node (rev (path_nodes par (Suc (length par)) n))"

definition varying_note :: "snode \<Rightarrow> level \<Rightarrow> pyfloat \<Rightarrow> diag" where
  "varying_note start lv v = warning (lv_source lv) (''supply trace from '' @ fmt_node start @
     '' reached a varying source; its highest level '' @ format_g v @ '' V is used'')"

definition ref_result :: "stage \<Rightarrow> trace_result" where
  "ref_result st =
     (let unknown = filter (\<lambda>r. fst (snd r) = None) (sg_refs st);
          (n, rv, name, idx) = (case unknown of r # _ \<Rightarrow> r
            | [] \<Rightarrow> max_by (\<lambda>r. case fst (snd r) of Some v \<Rightarrow> v | None \<Rightarrow> NaN) (sg_refs st)) in
      \<lparr>tr_vdd = (case rv of Some v \<Rightarrow> v | None \<Rightarrow> f0), tr_source = ''ie_reference_voltage '' @ name,
       tr_path = path_to (sg_parent st) n, tr_dynamic = False, tr_visited = sg_visited st, tr_ref_name = Some name,
       tr_ref_index = int idx, tr_ref_dynamic = (rv = None), tr_unevaluable = [], tr_notes = []\<rparr>)"

definition hit_result :: "snode \<Rightarrow> stage \<Rightarrow> trace_result" where
  "hit_result start st =
     (let (v, lv, n) = max_by fst (sg_hits st) in
      \<lparr>tr_vdd = v, tr_source = lv_source lv, tr_path = path_to (sg_parent st) n,
       tr_dynamic = (lv_kind lv = LDynamic), tr_visited = sg_visited st, tr_ref_name = None, tr_ref_index = -1,
       tr_ref_dynamic = False, tr_unevaluable = sg_uneval st,
       tr_notes = (if lv_kind lv = LDynamic \<and> sg_uneval st = [] then [varying_note start lv v] else [])\<rparr>)"

definition uneval_result :: "stage \<Rightarrow> trace_result" where
  "uneval_result st =
     \<lparr>tr_vdd = f0, tr_source = lv_source (hd (sg_uneval st)), tr_path = [], tr_dynamic = False,
      tr_visited = sg_visited st, tr_ref_name = None, tr_ref_index = -1, tr_ref_dynamic = False,
      tr_unevaluable = sg_uneval st, tr_notes = []\<rparr>"

definition decide_stage :: "snode \<Rightarrow> stage \<Rightarrow> trace_result option" where
  "decide_stage start st =
     (if sg_refs st \<noteq> [] then Some (ref_result st)
      else if sg_hits st \<noteq> [] then Some (hit_result start st)
      else if sg_uneval st \<noteq> [] then Some (uneval_result st)
      else None)"

partial_function (option) trace_loop ::
  "graph \<Rightarrow> path_scope list \<Rightarrow> snode \<Rightarrow> snode list \<Rightarrow> snode list \<Rightarrow> (snode \<times> snode option) list \<Rightarrow>
   (trace_result option) option" where
  "trace_loop G ss start frontier visited par =
     (if frontier = [] then Some None
      else Option.bind (stage_loop G ss start (begin_stage frontier visited par)) (\<lambda>st.
        case decide_stage start st of
          Some r \<Rightarrow> Some (Some r)
        | None \<Rightarrow> trace_loop G ss start (fst (next_frontier G ss st)) (sg_visited st) (snd (next_frontier G ss st))))"

definition trace :: "graph \<Rightarrow> path_scope list \<Rightarrow> snode \<Rightarrow> (trace_result option) option" where
  "trace G ss start = trace_loop G ss start [start] [] [(start, None)]"

end
