(* ===== verification/SupplyProps.thy ===== *)
theory SupplyProps
  imports Supply
begin

text \<open>
  The trace against what the module's documentation says of it: the stages as an inductive reading of
  the deck graph, the trace's return, the first stage that holds a supply decides, and the highest
  supply of that stage, with a path of elements that leads there.
\<close>

section \<open>The stages\<close>

inductive staged :: "graph \<Rightarrow> path_scope list \<Rightarrow> snode \<Rightarrow> nat \<Rightarrow> snode \<Rightarrow> bool" for G ss start where
  first: "staged G ss start 0 start"
| chan: "staged G ss start k n \<Longrightarrow> found_at G ss start n = Passed \<Longrightarrow> m \<in> set (adj_at G ss n) \<Longrightarrow>
    staged G ss start k m"
| gate: "staged G ss start k n \<Longrightarrow> found_at G ss start n = Passed \<Longrightarrow> m \<in> set (gated_at G ss n) \<Longrightarrow>
    staged G ss start (Suc k) m"

definition stops :: "graph \<Rightarrow> path_scope list \<Rightarrow> snode \<Rightarrow> snode \<Rightarrow> bool" where
  "stops G ss start n \<longleftrightarrow> found_at G ss start n \<noteq> Blocked \<and> found_at G ss start n \<noteq> Passed"

text \<open>A step of a path: through a channel, or from a gate to the channel it opens.\<close>

definition path_step :: "graph \<Rightarrow> path_scope list \<Rightarrow> snode \<Rightarrow> snode \<Rightarrow> snode \<Rightarrow> bool" where
  "path_step G ss start n m \<longleftrightarrow>
     found_at G ss start n = Passed \<and> m \<in> set (adj_at G ss n) \<union> set (gated_at G ss n)"

section \<open>The largest of a list\<close>

lemma flt_trans: "flt x y \<Longrightarrow> flt y z \<Longrightarrow> flt x z"
  by (cases x; cases y; cases z) (auto split: if_splits)

lemma fold_max:
  assumes "\<And>x. x \<in> set seen \<Longrightarrow> \<not> flt (key m) (key x)"
  shows "fold (\<lambda>x m. if flt (key m) (key x) then x else m) xs m \<in> insert m (set xs) \<and>
    (\<forall>x \<in> set seen \<union> insert m (set xs).
       \<not> flt (key (fold (\<lambda>x m. if flt (key m) (key x) then x else m) xs m)) (key x))"
  using assms
proof (induction xs arbitrary: m seen)
  case Nil
  have "\<not> flt x x" for x by (cases x) (auto split: if_splits)
  then show ?case using Nil by auto
next
  case (Cons y ys)
  have irr: "\<not> flt x x" for x by (cases x) (auto split: if_splits)
  show ?case
  proof (cases "flt (key m) (key y)")
    case True
    have "\<not> flt (key y) (key x)" if "x \<in> insert m (set seen)" for x
      using that Cons.prems True flt_trans irr by blast
    then show ?thesis using Cons.IH [of "m # seen" y] True by auto
  next
    case False
    have "\<not> flt (key m) (key x)" if "x \<in> insert y (set seen)" for x
      using that Cons.prems False by blast
    then show ?thesis using Cons.IH [of "y # seen" m] False by auto
  qed
qed

lemma max_by_max: "xs \<noteq> [] \<Longrightarrow> max_by key xs \<in> set xs \<and> (\<forall>x \<in> set xs. \<not> flt (key (max_by key xs)) (key x))"
  using fold_max [of "[]" key "hd xs" "tl xs"] by (cases xs) (auto simp: max_by_def)

section \<open>One stage\<close>

text \<open>The nodes of a stage that began with the nodes \<open>V\<close> visited: the closure of the frontier.\<close>

inductive_set closure :: "graph \<Rightarrow> path_scope list \<Rightarrow> snode \<Rightarrow> snode set \<Rightarrow> snode set \<Rightarrow> snode set"
  for G ss start V F where
  base: "f \<in> F \<Longrightarrow> f \<notin> V \<Longrightarrow> f \<in> closure G ss start V F"
| step: "n \<in> closure G ss start V F \<Longrightarrow> found_at G ss start n = Passed \<Longrightarrow> m \<in> set (adj_at G ss n) \<Longrightarrow> m \<notin> V \<Longrightarrow>
    m \<in> closure G ss start V F"

text \<open>The invariant: \<open>D\<close> are the nodes taken from the queue.\<close>

definition sorted_finds :: "graph \<Rightarrow> path_scope list \<Rightarrow> snode \<Rightarrow> snode set \<Rightarrow> stage \<Rightarrow> bool" where
  "sorted_finds G ss start D st \<longleftrightarrow>
     set (sg_region st) = {n \<in> D. found_at G ss start n = Passed} \<and>
     set (sg_hits st) = {(v, lv, n). n \<in> D \<and> found_at G ss start n = FoundHit v lv} \<and>
     set (sg_refs st) = {(n, r). n \<in> D \<and> found_at G ss start n = FoundRef r} \<and>
     set (sg_uneval st) = {lv. \<exists>n \<in> D. found_at G ss start n = FoundUneval lv}"

definition stage_inv ::
  "graph \<Rightarrow> path_scope list \<Rightarrow> snode \<Rightarrow> snode set \<Rightarrow> snode set \<Rightarrow> snode set \<Rightarrow> stage \<Rightarrow> bool" where
  "stage_inv G ss start V F D st \<longleftrightarrow> sorted_finds G ss start D st \<and>
     set (sg_visited st) = V \<union> D \<union> set (sg_queue st) \<and> D \<union> set (sg_queue st) \<subseteq> closure G ss start V F \<and>
     F \<subseteq> set (sg_visited st) \<and>
     (\<forall>n \<in> D. found_at G ss start n = Passed \<longrightarrow> set (adj_at G ss n) \<subseteq> set (sg_visited st))"

lemma fold_see:
  "let st' = fold (see_node n) ms st in
     set (sg_visited st') = set (sg_visited st) \<union> set ms \<and>
     set (sg_queue st') = set (sg_queue st) \<union> (set ms - set (sg_visited st)) \<and>
     sg_region st' = sg_region st \<and> sg_hits st' = sg_hits st \<and> sg_refs st' = sg_refs st \<and> sg_uneval st' = sg_uneval st"
proof (induction ms arbitrary: st)
  case (Cons m ms)
  show ?case using Cons.IH [of "see_node n m st"] by (auto simp: Let_def see_node_def)
qed (simp add: Let_def)

lemma visit_finds:
  assumes "sorted_finds G ss start D st"
  shows "sorted_finds G ss start (insert n D) (visit_node G ss start n st)"
proof (cases "found_at G ss start n")
  case Passed
  show ?thesis
    using fold_see [of n "adj_at G ss n" "st\<lparr>sg_region := sg_region st @ [n]\<rparr>"] assms Passed
    unfolding sorted_finds_def visit_node_def by (simp add: Let_def) auto
next
  case (FoundRef r)
  then show ?thesis using assms unfolding sorted_finds_def visit_node_def by (simp, intro conjI; auto)
next
  case (FoundHit v lv)
  then show ?thesis using assms unfolding sorted_finds_def visit_node_def by (simp, intro conjI; auto)
next
  case (FoundUneval lv)
  then show ?thesis using assms unfolding sorted_finds_def visit_node_def by (simp, intro conjI; auto)
next
  case Blocked
  then show ?thesis using assms unfolding sorted_finds_def visit_node_def by (simp, intro conjI; auto)
qed

lemma visit_seen:
  "set (sg_visited (visit_node G ss start n st)) =
     set (sg_visited st) \<union> (if found_at G ss start n = Passed then set (adj_at G ss n) else {})"
  "set (sg_queue (visit_node G ss start n st)) = set (sg_queue st) \<union>
     (if found_at G ss start n = Passed then set (adj_at G ss n) - set (sg_visited st) else {})"
  using fold_see [of n "adj_at G ss n" "st\<lparr>sg_region := sg_region st @ [n]\<rparr>"]
  by (simp_all add: visit_node_def Let_def split: found.split)

lemma visit_inv:
  assumes "stage_inv G ss start V F D st" "sg_queue st = n # q"
  shows "stage_inv G ss start V F (insert n D) (visit_node G ss start n (st\<lparr>sg_queue := q\<rparr>))"
proof -
  let ?st = "st\<lparr>sg_queue := q\<rparr>"
  have f: "sorted_finds G ss start D ?st" using assms(1) by (simp add: stage_inv_def sorted_finds_def)
  have i: "set (sg_visited st) = V \<union> D \<union> insert n (set q)" "insert n (D \<union> set q) \<subseteq> closure G ss start V F"
      "F \<subseteq> set (sg_visited st)"
      "\<forall>n \<in> D. found_at G ss start n = Passed \<longrightarrow> set (adj_at G ss n) \<subseteq> set (sg_visited st)"
    using assms(1) unfolding stage_inv_def assms(2) list.set by blast+
  let ?P = "found_at G ss start n = Passed"
  let ?A = "if ?P then set (adj_at G ss n) else {}"
  have new: "?A - set (sg_visited st) \<subseteq> closure G ss start V F"
    using i(1,2) closure.step [of n G ss start V F] by (auto split: if_splits)
  have vis: "set (sg_visited (visit_node G ss start n ?st)) = set (sg_visited st) \<union> ?A"
    by (simp add: visit_seen)
  have que: "set (sg_queue (visit_node G ss start n ?st)) = set q \<union> (?A - set (sg_visited st))"
    by (simp add: visit_seen)
  have "set (sg_visited st) \<union> ?A = V \<union> insert n D \<union> (set q \<union> (?A - set (sg_visited st)))"
    using i(1) by blast
  moreover have "insert n D \<union> (set q \<union> (?A - set (sg_visited st))) \<subseteq> closure G ss start V F"
    using i(2) new by blast
  moreover have "F \<subseteq> set (sg_visited st) \<union> ?A" using i(3) by blast
  moreover have "\<forall>k \<in> insert n D. found_at G ss start k = Passed \<longrightarrow> set (adj_at G ss k) \<subseteq> set (sg_visited st) \<union> ?A"
    using i(4) by auto
  ultimately show ?thesis
    unfolding stage_inv_def vis que using visit_finds [OF f, of n] by blast
qed

text \<open>The nodes of the deck are finitely many, so a stage ends.\<close>

definition deck_nodes :: "graph \<Rightarrow> path_scope list \<Rightarrow> snode \<Rightarrow> snode set" where
  "deck_nodes G ss start = insert start ((\<lambda>l. snd (snd l)) ` set (all_links G ss) \<union>
     (\<Union>l \<in> set (all_gates G ss). {fst (snd l), snd (snd l)}))"

lemma deck_finite: "finite (deck_nodes G ss start)"
  by (auto simp: deck_nodes_def)

lemma adj_deck: "set (adj_at G ss n) \<subseteq> deck_nodes G ss start"
  by (force simp: adj_at_def deck_nodes_def)

lemma gated_deck: "set (gated_at G ss n) \<subseteq> deck_nodes G ss start"
  by (force simp: gated_at_def deck_nodes_def)

definition unseen :: "graph \<Rightarrow> path_scope list \<Rightarrow> snode \<Rightarrow> snode list \<Rightarrow> nat" where
  "unseen G ss start visited = card (deck_nodes G ss start - set visited)"

lemma unseen_add:
  assumes "m \<in> deck_nodes G ss start" "m \<notin> set visited"
  shows "Suc (unseen G ss start (visited @ [m])) = unseen G ss start visited"
proof -
  have "deck_nodes G ss start - set (visited @ [m]) = (deck_nodes G ss start - set visited) - {m}" by auto
  then show ?thesis unfolding unseen_def using assms deck_finite card_Suc_Diff1 [of "deck_nodes G ss start - set visited" m] by simp
qed

lemma fold_see_measure:
  assumes "set ms \<subseteq> deck_nodes G ss start"
  shows "unseen G ss start (sg_visited (fold (see_node n) ms st)) + length (sg_queue (fold (see_node n) ms st)) =
    unseen G ss start (sg_visited st) + length (sg_queue st)"
  using assms
proof (induction ms arbitrary: st)
  case (Cons m ms)
  have "unseen G ss start (sg_visited (see_node n m st)) + length (sg_queue (see_node n m st)) =
      unseen G ss start (sg_visited st) + length (sg_queue st)"
    using unseen_add [of m G ss start "sg_visited st"] Cons.prems by (auto simp: see_node_def)
  then show ?case using Cons by simp
qed simp

lemma visit_measure:
  "unseen G ss start (sg_visited (visit_node G ss start n st)) + length (sg_queue (visit_node G ss start n st)) =
     unseen G ss start (sg_visited st) + length (sg_queue st)"
  using fold_see_measure [OF adj_deck [of G ss n start], of n "st\<lparr>sg_region := sg_region st @ [n]\<rparr>"]
  by (simp add: visit_node_def split: found.split)

lemma stage_loop_end:
  assumes "stage_inv G ss start V F D st"
  shows "\<exists>st' D'. stage_loop G ss start st = Some st' \<and> sg_queue st' = [] \<and> stage_inv G ss start V F D' st'"
  using assms
proof (induction "unseen G ss start (sg_visited st) + length (sg_queue st)" arbitrary: st D rule: less_induct)
  case less
  show ?case
  proof (cases "sg_queue st")
    case Nil
    then show ?thesis using less.prems by (intro exI [of _ st] exI [of _ D]) (simp add: stage_loop.simps)
  next
    case (Cons n q)
    let ?st = "visit_node G ss start n (st\<lparr>sg_queue := q\<rparr>)"
    have "unseen G ss start (sg_visited ?st) + length (sg_queue ?st) <
        unseen G ss start (sg_visited st) + length (sg_queue st)"
      using visit_measure [of G ss start n "st\<lparr>sg_queue := q\<rparr>"] Cons by simp
    from less.hyps [OF this visit_inv [OF less.prems Cons]] show ?thesis
      using Cons by (simp add: stage_loop.simps)
  qed
qed

text \<open>What a finished stage holds.\<close>

lemma stage_closed:
  assumes "stage_inv G ss start V F D st" "sg_queue st = []"
  shows "D = closure G ss start V F" "set (sg_visited st) = V \<union> closure G ss start V F"
proof -
  have "n \<in> D" if "n \<in> closure G ss start V F" for n
    using that
  proof induction
    case (base f)
    then show ?case using assms by (auto simp: stage_inv_def)
  next
    case (step n m)
    then have "m \<in> set (sg_visited st)" using assms unfolding stage_inv_def by blast
    then show ?case using step.hyps(4) assms by (auto simp: stage_inv_def)
  qed
  then show "D = closure G ss start V F" using assms by (auto simp: stage_inv_def)
  then show "set (sg_visited st) = V \<union> closure G ss start V F" using assms by (auto simp: stage_inv_def)
qed

section \<open>Parents\<close>

text \<open>The dictionary of parents grows by nodes one step away from a node that it has.\<close>

inductive parents :: "graph \<Rightarrow> path_scope list \<Rightarrow> snode \<Rightarrow> (snode \<times> snode option) list \<Rightarrow> bool" for G ss start where
  root: "parents G ss start [(start, None)]"
| add: "parents G ss start par \<Longrightarrow> m \<notin> fst ` set par \<Longrightarrow> g \<in> fst ` set par \<Longrightarrow> path_step G ss start g m \<Longrightarrow>
    parents G ss start (par @ [(m, Some g)])"

definition is_path :: "graph \<Rightarrow> path_scope list \<Rightarrow> snode \<Rightarrow> snode list \<Rightarrow> bool" where
  "is_path G ss start ns \<longleftrightarrow> ns \<noteq> [] \<and> hd ns = start \<and> successively (path_step G ss start) ns"

lemma parent_key: "parents G ss start par \<Longrightarrow> map_of par n = Some (Some g) \<Longrightarrow> g \<in> fst ` set par"
proof (induction arbitrary: n g rule: parents.induct)
  case (add par m g')
  then show ?case by (cases "map_of par n") (auto simp: map_add_def split: if_splits)
qed (auto split: if_splits)

lemma path_nodes_append:
  assumes "parents G ss start par" "n \<in> fst ` set par"
  shows "path_nodes (par @ [x]) k n = path_nodes par k n"
  using assms(2)
proof (induction k arbitrary: n)
  case (Suc k)
  then obtain y where y: "map_of par n = Some y" by (cases "map_of par n") (auto simp: map_of_eq_None_iff)
  then have "map_of (par @ [x]) n = Some y" by (simp add: map_add_def)
  then show ?case using y Suc.IH parent_key [OF assms(1)] by (cases y) auto
qed simp

lemma path_nodes_path:
  assumes "parents G ss start par" "n \<in> fst ` set par" "length par \<le> k"
  shows "is_path G ss start (rev (path_nodes par k n)) \<and> hd (path_nodes par k n) = n"
  using assms
proof (induction arbitrary: n k rule: parents.induct)
  case root
  then show ?case by (cases k) (auto simp: is_path_def)
next
  case (add par m g)
  show ?case
  proof (cases "n = m")
    case True
    obtain j where j: "k = Suc j" "length par \<le> j" using add.prems(2) by (cases k) auto
    have "map_of (par @ [(m, Some g)]) m = Some (Some g)"
      using add.hyps(2) by (simp add: map_add_def map_of_eq_None_iff [THEN iffD2])
    then have p: "path_nodes (par @ [(m, Some g)]) k n = m # path_nodes par j g"
      using True j path_nodes_append [OF add.hyps(1,3)] by simp
    have r: "is_path G ss start (rev (path_nodes par j g))" "hd (path_nodes par j g) = g"
      using add.IH [OF add.hyps(3) j(2)] by simp_all
    then have "path_nodes par j g \<noteq> []" "last (rev (path_nodes par j g)) = g"
      by (auto simp: is_path_def last_rev)
    then show ?thesis
      using r add.hyps(4) True unfolding p is_path_def by (simp add: successively_append_iff)
  next
    case False
    then have "n \<in> fst ` set par" using add.prems(1) by auto
    then show ?thesis using add.IH [of n k] add.prems(2) path_nodes_append [OF add.hyps(1)] by simp
  qed
qed

definition rooted :: "graph \<Rightarrow> path_scope list \<Rightarrow> snode \<Rightarrow> (snode \<times> snode option) list \<Rightarrow> snode list \<Rightarrow> bool" where
  "rooted G ss start par ns \<longleftrightarrow> parents G ss start par \<and> set ns \<subseteq> fst ` set par"

lemma set_default_rooted:
  assumes "rooted G ss start par ns" "g \<in> fst ` set par" "path_step G ss start g m"
  shows "rooted G ss start (set_default m g par) (ns @ [m])"
proof (cases "m \<in> fst ` set par")
  case True
  then show ?thesis using assms(1) by (auto simp: rooted_def set_default_def)
next
  case False
  then have "parents G ss start (par @ [(m, Some g)])" using assms parents.add by (simp add: rooted_def)
  then show ?thesis using assms(1) False by (auto simp: rooted_def set_default_def)
qed

lemma set_default_keys: "fst ` set par \<subseteq> fst ` set (set_default m g par)"
  by (auto simp: set_default_def)

lemma fold_see_rooted:
  assumes "rooted G ss start (sg_parent st) (sg_visited st)" "n \<in> fst ` set (sg_parent st)"
      "\<forall>m \<in> set ms. path_step G ss start n m"
  shows "rooted G ss start (sg_parent (fold (see_node n) ms st)) (sg_visited (fold (see_node n) ms st))"
  using assms
proof (induction ms arbitrary: st)
  case (Cons m ms)
  let ?st = "see_node n m st"
  have r: "rooted G ss start (sg_parent ?st) (sg_visited ?st)"
    using Cons.prems set_default_rooted by (simp add: see_node_def)
  have k: "n \<in> fst ` set (sg_parent ?st)"
    using Cons.prems(2) set_default_keys [of "sg_parent st" m n] by (simp add: see_node_def) blast
  show ?case using Cons.IH [OF r k] Cons.prems(3) by simp
qed simp

lemma visit_rooted:
  assumes "rooted G ss start (sg_parent st) (sg_visited st)" "n \<in> set (sg_visited st)"
  shows "rooted G ss start (sg_parent (visit_node G ss start n st)) (sg_visited (visit_node G ss start n st))"
proof (cases "found_at G ss start n = Passed")
  case True
  have "n \<in> fst ` set (sg_parent st)" using assms by (auto simp: rooted_def)
  moreover have "\<forall>m \<in> set (adj_at G ss n). path_step G ss start n m" using True by (simp add: path_step_def)
  ultimately show ?thesis
    using fold_see_rooted [of G ss start "st\<lparr>sg_region := sg_region st @ [n]\<rparr>" n "adj_at G ss n"] assms(1) True
    by (simp add: visit_node_def)
next
  case False
  then show ?thesis using assms(1) by (simp add: visit_node_def split: found.split)
qed

section \<open>The stages of the trace\<close>

lemma stage_loop_rooted:
  assumes "stage_inv G ss start V F D st" "rooted G ss start (sg_parent st) (sg_visited st)"
  shows "\<exists>st'. stage_loop G ss start st = Some st' \<and> sg_queue st' = [] \<and>
    stage_inv G ss start V F (closure G ss start V F) st' \<and> rooted G ss start (sg_parent st') (sg_visited st')"
  using assms
proof (induction "unseen G ss start (sg_visited st) + length (sg_queue st)" arbitrary: st D rule: less_induct)
  case less
  show ?case
  proof (cases "sg_queue st")
    case Nil
    have "D = closure G ss start V F" by (rule stage_closed(1) [OF less.prems(1) Nil])
    then show ?thesis using less.prems Nil by (intro exI [of _ st]) (simp add: stage_loop.simps)
  next
    case (Cons n q)
    let ?st = "visit_node G ss start n (st\<lparr>sg_queue := q\<rparr>)"
    have m: "unseen G ss start (sg_visited ?st) + length (sg_queue ?st) <
        unseen G ss start (sg_visited st) + length (sg_queue st)"
      using visit_measure [of G ss start n "st\<lparr>sg_queue := q\<rparr>"] Cons by simp
    have "n \<in> set (sg_visited st)" using less.prems(1) Cons by (simp add: stage_inv_def)
    then have "rooted G ss start (sg_parent ?st) (sg_visited ?st)"
      using visit_rooted [of G ss start "st\<lparr>sg_queue := q\<rparr>" n] less.prems(2) by simp
    from less.hyps [OF m visit_inv [OF less.prems(1) Cons] this] show ?thesis
      using Cons by (simp add: stage_loop.simps)
  qed
qed

lemma fold_enter:
  "set (sg_visited (fold enter_node fs st)) = set (sg_visited st) \<union> set fs \<and>
   set (sg_queue (fold enter_node fs st)) = set (sg_queue st) \<union> (set fs - set (sg_visited st)) \<and>
   sg_region (fold enter_node fs st) = sg_region st \<and> sg_hits (fold enter_node fs st) = sg_hits st \<and>
   sg_refs (fold enter_node fs st) = sg_refs st \<and> sg_uneval (fold enter_node fs st) = sg_uneval st \<and>
   sg_parent (fold enter_node fs st) = sg_parent st"
proof (induction fs arbitrary: st)
  case (Cons f fs)
  show ?case using Cons.IH [of "enter_node f st"] by (simp add: enter_node_def) auto
qed simp

lemma begin_stage_inv:
  "stage_inv G ss start (set visited) (set frontier) {} (begin_stage frontier visited par)"
  unfolding stage_inv_def sorted_finds_def begin_stage_def
  by (simp add: fold_enter) (auto intro: closure.base)

lemma begin_stage_rooted:
  assumes "rooted G ss start par (visited @ frontier)"
  shows "rooted G ss start (sg_parent (begin_stage frontier visited par)) (sg_visited (begin_stage frontier visited par))"
  using assms by (simp add: rooted_def begin_stage_def fold_enter)

lemma gate_nodes:
  assumes "rooted G ss start par (vs @ nxt)" "\<forall>(g, m) \<in> set gs. g \<in> set vs \<and> path_step G ss start g m"
  shows "rooted G ss start (snd (fold (gate_node vs) gs (nxt, par))) (vs @ fst (fold (gate_node vs) gs (nxt, par))) \<and>
    set (fst (fold (gate_node vs) gs (nxt, par))) = set nxt \<union> (snd ` set gs - set vs)"
  using assms
proof (induction gs arbitrary: nxt par)
  case (Cons p gs)
  obtain g m where p: "p = (g, m)" by (cases p)
  have rest: "\<forall>(g, m) \<in> set gs. g \<in> set vs \<and> path_step G ss start g m" using Cons.prems(2) by simp
  show ?case
  proof (cases "m \<in> set vs")
    case True
    have "fold (gate_node vs) (p # gs) (nxt, par) = fold (gate_node vs) gs (nxt, par)"
      using True by (simp add: p gate_node_def)
    then show ?thesis using Cons.IH [OF Cons.prems(1) rest] True p by simp
  next
    case False
    have "g \<in> fst ` set par" "path_step G ss start g m" using Cons.prems p by (auto simp: rooted_def)
    then have "rooted G ss start (set_default m g par) (vs @ (nxt @ [m]))"
      using set_default_rooted [OF Cons.prems(1)] by simp
    moreover have "fold (gate_node vs) (p # gs) (nxt, par) = fold (gate_node vs) gs (nxt @ [m], set_default m g par)"
      using False by (simp add: p gate_node_def)
    ultimately show ?thesis using Cons.IH [OF _ rest] False p by simp blast
  qed
qed simp

lemma next_frontier_nodes:
  assumes "rooted G ss start (sg_parent st) (sg_visited st)" "set (sg_region st) \<subseteq> set (sg_visited st)"
      "\<forall>n \<in> set (sg_region st). found_at G ss start n = Passed"
  shows "rooted G ss start (snd (next_frontier G ss st)) (sg_visited st @ fst (next_frontier G ss st)) \<and>
    set (fst (next_frontier G ss st)) = (\<Union>g \<in> set (sg_region st). set (gated_at G ss g)) - set (sg_visited st)"
proof -
  let ?gs = "concat (map (\<lambda>g. map (Pair g) (gated_at G ss g)) (sg_region st))"
  have "\<forall>(g, m) \<in> set ?gs. g \<in> set (sg_visited st) \<and> path_step G ss start g m"
    using assms(2,3) unfolding path_step_def by fastforce
  moreover have "snd ` set ?gs = (\<Union>g \<in> set (sg_region st). set (gated_at G ss g))" by (force simp: image_iff)
  ultimately show ?thesis
    using gate_nodes [of G ss start "sg_parent st" "sg_visited st" "[]" ?gs] assms(1)
    by (simp add: next_frontier_def)
qed

lemma staged_deck: "staged G ss start k n \<Longrightarrow> n \<in> deck_nodes G ss start"
proof (induction rule: staged.induct)
  case first
  then show ?case by (simp add: deck_nodes_def)
next
  case (chan k n m)
  then show ?case using adj_deck by blast
next
  case (gate k n m)
  then show ?case using gated_deck by blast
qed

definition before :: "graph \<Rightarrow> path_scope list \<Rightarrow> snode \<Rightarrow> nat \<Rightarrow> snode set" where
  "before G ss start K = {n. \<exists>k < K. staged G ss start k n}"

lemma beforeI: "staged G ss start k n \<Longrightarrow> k < K \<Longrightarrow> n \<in> before G ss start K"
  unfolding before_def by blast

lemma before_Suc: "before G ss start K \<subseteq> before G ss start (Suc K)"
  unfolding before_def using less_SucI by blast

text \<open>The invariant of the trace at the beginning of the stage \<open>K\<close>.\<close>

definition trace_inv ::
  "graph \<Rightarrow> path_scope list \<Rightarrow> snode \<Rightarrow> nat \<Rightarrow> snode list \<Rightarrow> snode list \<Rightarrow> (snode \<times> snode option) list \<Rightarrow> bool" where
  "trace_inv G ss start K frontier visited par \<longleftrightarrow>
     set visited = before G ss start K \<and> (\<forall>n \<in> before G ss start K. \<not> stops G ss start n) \<and>
     start \<in> set visited \<union> set frontier \<and> (\<forall>m \<in> set frontier. staged G ss start K m) \<and>
     (\<forall>n \<in> before G ss start K. found_at G ss start n = Passed \<longrightarrow>
        set (gated_at G ss n) \<subseteq> set visited \<union> set frontier) \<and>
     set frontier \<inter> set visited = {} \<and> rooted G ss start par (visited @ frontier)"

lemma stage_nodes:
  assumes "trace_inv G ss start K frontier visited par"
  shows "set visited \<union> closure G ss start (set visited) (set frontier) = before G ss start (Suc K)"
    "n \<in> closure G ss start (set visited) (set frontier) \<Longrightarrow> staged G ss start K n"
proof -
  let ?C = "closure G ss start (set visited) (set frontier)"
  have c: "staged G ss start K n" if "n \<in> ?C" for n
    using that
  proof induction
    case (base f)
    then show ?case using assms by (simp add: trace_inv_def)
  next
    case (step n m)
    show ?case by (rule staged.chan [OF step.IH step.hyps(2,3)])
  qed
  have s: "n \<in> set visited \<union> ?C" if "staged G ss start k n" "k < Suc K" for k n
    using that
  proof induction
    case first
    then show ?case using assms closure.base unfolding trace_inv_def by blast
  next
    case (chan k n m)
    then consider "n \<in> set visited" | "n \<in> ?C" by blast
    then show ?case
    proof cases
      case 1
      then obtain j where "j < K" "staged G ss start j n" using assms by (auto simp: trace_inv_def before_def)
      then have "m \<in> before G ss start K" using staged.chan [OF _ chan.hyps(2,3)] by (auto simp: before_def)
      then show ?thesis using assms by (simp add: trace_inv_def)
    next
      case 2
      then show ?thesis using closure.step [OF 2 chan.hyps(2,3)] by blast
    qed
  next
    case (gate k n m)
    then have "n \<in> before G ss start K" by (auto simp: before_def)
    then have "m \<in> set visited \<union> set frontier" using assms gate.hyps(2,3) unfolding trace_inv_def by blast
    then show ?case using closure.base by blast
  qed
  have v: "set visited = before G ss start K" using assms by (simp add: trace_inv_def)
  show "set visited \<union> ?C = before G ss start (Suc K)"
  proof
    show "set visited \<union> ?C \<subseteq> before G ss start (Suc K)"
      using c unfolding v before_def by (auto intro: less_SucI)
    show "before G ss start (Suc K) \<subseteq> set visited \<union> ?C"
      using s unfolding before_def by blast
  qed
  show "staged G ss start K n" if "n \<in> ?C" using c [OF that] .
qed

section \<open>The decision\<close>

text \<open>
  What the documentation of the module promises of a result: it is of the first stage \<open>K\<close> that has a
  reference, a supply or an unevaluable source. References outrank supplies; one without a value
  decides, and otherwise the highest does. Then the highest supply of the stage decides, and the
  unevaluable sources of the stage are reported. The path leads from the start to the deciding node.
\<close>

definition leads_to :: "graph \<Rightarrow> path_scope list \<Rightarrow> snode \<Rightarrow> snode \<Rightarrow> string list \<Rightarrow> bool" where
  "leads_to G ss start n p \<longleftrightarrow> (\<exists>ns. is_path G ss start ns \<and> List.last ns = n \<and> p = List.map fmt_node ns)"

definition ref_decides :: "graph \<Rightarrow> path_scope list \<Rightarrow> snode \<Rightarrow> nat \<Rightarrow> trace_result \<Rightarrow> bool" where
  "ref_decides G ss start K r \<longleftrightarrow>
     (\<exists>n rv name idx. staged G ss start K n \<and> found_at G ss start n = FoundRef (rv, name, idx) \<and>
        leads_to G ss start n (tr_path r) \<and> tr_ref_name r = Some name \<and> tr_ref_index r = int idx \<and>
        tr_ref_dynamic r = (rv = None) \<and> tr_vdd r = (case rv of Some v \<Rightarrow> v | None \<Rightarrow> f0) \<and>
        (\<forall>v. rv = Some v \<longrightarrow> (\<forall>n' rv' x. staged G ss start K n' \<longrightarrow> found_at G ss start n' = FoundRef (rv', x) \<longrightarrow>
           (\<exists>v'. rv' = Some v' \<and> \<not> flt v v'))))"

definition unevaluable_in :: "graph \<Rightarrow> path_scope list \<Rightarrow> snode \<Rightarrow> nat \<Rightarrow> level set" where
  "unevaluable_in G ss start K = {lv. \<exists>n. staged G ss start K n \<and> found_at G ss start n = FoundUneval lv}"

definition hit_decides :: "graph \<Rightarrow> path_scope list \<Rightarrow> snode \<Rightarrow> nat \<Rightarrow> trace_result \<Rightarrow> bool" where
  "hit_decides G ss start K r \<longleftrightarrow>
     (\<exists>n v lv. staged G ss start K n \<and> found_at G ss start n = FoundHit v lv \<and>
        leads_to G ss start n (tr_path r) \<and> tr_vdd r = v \<and> tr_source r = lv_source lv \<and>
        tr_dynamic r = (lv_kind lv = LDynamic) \<and> tr_ref_name r = None \<and>
        set (tr_unevaluable r) = unevaluable_in G ss start K \<and>
        (\<forall>n' v' lv'. staged G ss start K n' \<longrightarrow> found_at G ss start n' = FoundHit v' lv' \<longrightarrow> \<not> flt v v'))"

definition decides :: "graph \<Rightarrow> path_scope list \<Rightarrow> snode \<Rightarrow> nat \<Rightarrow> trace_result \<Rightarrow> bool" where
  "decides G ss start K r \<longleftrightarrow>
     (\<forall>n \<in> before G ss start K. \<not> stops G ss start n) \<and>
     (if \<exists>n x. staged G ss start K n \<and> found_at G ss start n = FoundRef x then ref_decides G ss start K r
      else if \<exists>n v lv. staged G ss start K n \<and> found_at G ss start n = FoundHit v lv then hit_decides G ss start K r
      else set (tr_unevaluable r) = unevaluable_in G ss start K \<and> tr_unevaluable r \<noteq> [] \<and>
        tr_path r = [] \<and> tr_ref_name r = None)"

lemma leads_to_path:
  assumes "rooted G ss start par ns" "n \<in> set ns"
  shows "leads_to G ss start n (path_to par n)"
proof -
  have "parents G ss start par" "n \<in> fst ` set par" using assms by (auto simp: rooted_def)
  note p = path_nodes_path [OF this, of "Suc (length par)"]
  then have "path_nodes par (Suc (length par)) n \<noteq> []" by (auto simp: is_path_def)
  then show ?thesis using p unfolding leads_to_def path_to_def
    by (intro exI [of _ "rev (path_nodes par (Suc (length par)) n)"]) (auto simp: last_rev)
qed

text \<open>What a finished stage of the trace holds.\<close>

definition stage_holds :: "graph \<Rightarrow> path_scope list \<Rightarrow> snode \<Rightarrow> nat \<Rightarrow> stage \<Rightarrow> bool" where
  "stage_holds G ss start K st \<longleftrightarrow>
     set (sg_visited st) = before G ss start (Suc K) \<and>
     set (sg_region st) \<subseteq> {n \<in> set (sg_visited st). staged G ss start K n \<and> found_at G ss start n = Passed} \<and>
     (\<forall>n \<in> set (sg_visited st). found_at G ss start n = Passed \<longrightarrow> n \<in> before G ss start K \<or> n \<in> set (sg_region st)) \<and>
     set (sg_hits st) = {(v, lv, n). staged G ss start K n \<and> found_at G ss start n = FoundHit v lv} \<and>
     set (sg_refs st) = {(n, r). staged G ss start K n \<and> found_at G ss start n = FoundRef r} \<and>
     set (sg_uneval st) = unevaluable_in G ss start K \<and>
     rooted G ss start (sg_parent st) (sg_visited st)"

lemma stage_runs:
  assumes "trace_inv G ss start K frontier visited par"
  shows "\<exists>st. stage_loop G ss start (begin_stage frontier visited par) = Some st \<and> stage_holds G ss start K st"
proof -
  let ?C = "closure G ss start (set visited) (set frontier)"
  have "rooted G ss start par (visited @ frontier)" using assms by (simp add: trace_inv_def)
  from stage_loop_rooted [OF begin_stage_inv begin_stage_rooted [OF this]] obtain st where
    st: "stage_loop G ss start (begin_stage frontier visited par) = Some st" "sg_queue st = []"
      "stage_inv G ss start (set visited) (set frontier) ?C st" "rooted G ss start (sg_parent st) (sg_visited st)"
    by blast
  have v: "set (sg_visited st) = before G ss start (Suc K)"
    using stage_closed(2) [OF st(3,2)] stage_nodes(1) [OF assms] by simp
  have old: "set visited = before G ss start K" "\<forall>n \<in> before G ss start K. \<not> stops G ss start n"
    using assms by (simp_all add: trace_inv_def)
  have in_stage: "n \<in> ?C \<longleftrightarrow> staged G ss start K n" if "stops G ss start n" for n
  proof
    show "n \<in> ?C" if "staged G ss start K n"
      using stage_nodes(1) [OF assms] old \<open>stops G ss start n\<close> that unfolding before_def by blast
  qed (rule stage_nodes(2) [OF assms])
  have f: "sorted_finds G ss start ?C st" using st(3) by (simp add: stage_inv_def)
  have "set (sg_hits st) = {(v, lv, n). staged G ss start K n \<and> found_at G ss start n = FoundHit v lv}"
      "set (sg_refs st) = {(n, r). staged G ss start K n \<and> found_at G ss start n = FoundRef r}"
    using f in_stage unfolding sorted_finds_def stops_def by auto
  moreover have "set (sg_uneval st) = unevaluable_in G ss start K"
  proof -
    have "n \<in> ?C \<and> found_at G ss start n = FoundUneval lv \<longleftrightarrow> staged G ss start K n \<and> found_at G ss start n = FoundUneval lv"
      for n lv using in_stage [of n] by (auto simp: stops_def)
    then show ?thesis using f unfolding sorted_finds_def unevaluable_in_def Bex_def by presburger
  qed
  moreover have "set (sg_region st) \<subseteq> {n \<in> set (sg_visited st). staged G ss start K n \<and> found_at G ss start n = Passed}"
    using f stage_nodes(2) [OF assms] stage_closed(2) [OF st(3,2)] unfolding sorted_finds_def by auto
  moreover have "\<forall>n \<in> set (sg_visited st). found_at G ss start n = Passed \<longrightarrow>
      n \<in> before G ss start K \<or> n \<in> set (sg_region st)"
    using f old(1) stage_closed(2) [OF st(3,2)] unfolding sorted_finds_def by auto
  ultimately show ?thesis using st(1,4) v unfolding stage_holds_def by blast
qed

text \<open>The three kinds of decision.\<close>

lemma ref_result_decides:
  assumes "stage_holds G ss start K st" "sg_refs st \<noteq> []"
  shows "ref_decides G ss start K (ref_result st)"
proof -
  let ?key = "\<lambda>r :: snode \<times> ref_entry. case fst (snd r) of Some v \<Rightarrow> v | None \<Rightarrow> NaN"
  let ?unknown = "filter (\<lambda>r. fst (snd r) = None) (sg_refs st)"
  let ?r = "case ?unknown of r # _ \<Rightarrow> r | [] \<Rightarrow> max_by ?key (sg_refs st)"
  have refs: "set (sg_refs st) = {(n, r). staged G ss start K n \<and> found_at G ss start n = FoundRef r}"
    using assms(1) by (simp add: stage_holds_def)
  obtain n rv name idx where r: "?r = (n, rv, name, idx)" by (cases ?r)
  have mem: "(n, rv, name, idx) \<in> set (sg_refs st)"
  proof (cases ?unknown)
    case Nil
    then show ?thesis using max_by_max [OF assms(2), of ?key] r by simp
  next
    case (Cons u us)
    then have "u \<in> set ?unknown" by simp
    then have "u \<in> set (sg_refs st)" by simp
    then show ?thesis using Cons r by simp
  qed
  then have n: "staged G ss start K n" "found_at G ss start n = FoundRef (rv, name, idx)" using refs by auto
  have "n \<in> set (sg_visited st)" using n(1) assms(1) by (auto simp: stage_holds_def before_def)
  moreover have "rooted G ss start (sg_parent st) (sg_visited st)" using assms(1) by (simp add: stage_holds_def)
  ultimately have p: "leads_to G ss start n (path_to (sg_parent st) n)" by (intro leads_to_path)
  have best: "\<exists>v'. rv' = Some v' \<and> \<not> flt v v'"
    if "rv = Some v" "staged G ss start K n'" "found_at G ss start n' = FoundRef (rv', x)" for v n' rv' x
  proof -
    have "?unknown = []"
    proof (rule ccontr)
      assume "?unknown \<noteq> []"
      then obtain u us where u: "?unknown = u # us" by (cases ?unknown) simp_all
      then have "u \<in> set ?unknown" by simp
      then have "fst (snd u) = None" by simp
      then show False using u r that(1) by simp
    qed
    then have some: "\<forall>r \<in> set (sg_refs st). fst (snd r) \<noteq> None" by (simp add: filter_empty_conv)
    have m: "max_by ?key (sg_refs st) = (n, rv, name, idx)" using \<open>?unknown = []\<close> r by simp
    have q: "(n', rv', x) \<in> set (sg_refs st)" using that(2,3) refs by simp
    then obtain v' where "rv' = Some v'" using some by fastforce
    then show ?thesis using max_by_max [OF assms(2), of ?key] q m that(1) by fastforce
  qed
  have u: "ref_result st = \<lparr>tr_vdd = (case rv of Some v \<Rightarrow> v | None \<Rightarrow> f0), tr_source = ''ie_reference_voltage '' @ name,
       tr_path = path_to (sg_parent st) n, tr_dynamic = False, tr_visited = sg_visited st, tr_ref_name = Some name,
       tr_ref_index = int idx, tr_ref_dynamic = (rv = None), tr_unevaluable = [], tr_notes = []\<rparr>"
    using r by (simp add: ref_result_def Let_def)
  show ?thesis unfolding ref_decides_def u using n p best by (intro exI [of _ n] exI [of _ rv] exI [of _ name] exI [of _ idx]) simp
qed

lemma hit_result_decides:
  assumes "stage_holds G ss start K st" "sg_hits st \<noteq> []"
  shows "hit_decides G ss start K (hit_result start st)"
proof -
  have hits: "set (sg_hits st) = {(v, lv, n). staged G ss start K n \<and> found_at G ss start n = FoundHit v lv}"
    using assms(1) by (simp add: stage_holds_def)
  obtain v lv n where m: "max_by fst (sg_hits st) = (v, lv, n)" by (cases "max_by fst (sg_hits st)")
  note mx = max_by_max [OF assms(2), of fst, unfolded m]
  have n: "staged G ss start K n" "found_at G ss start n = FoundHit v lv" using mx hits by auto
  have "n \<in> set (sg_visited st)" using n(1) assms(1) by (auto simp: stage_holds_def before_def)
  moreover have "rooted G ss start (sg_parent st) (sg_visited st)" using assms(1) by (simp add: stage_holds_def)
  ultimately have p: "leads_to G ss start n (path_to (sg_parent st) n)" by (intro leads_to_path)
  have best: "\<not> flt v v'" if "staged G ss start K n'" "found_at G ss start n' = FoundHit v' lv'" for n' v' lv'
  proof -
    have "(v', lv', n') \<in> set (sg_hits st)" using that hits by simp
    then show ?thesis using mx by fastforce
  qed
  have u: "set (sg_uneval st) = unevaluable_in G ss start K" using assms(1) by (simp add: stage_holds_def)
  show ?thesis
    unfolding hit_decides_def using n p best u m
    by (intro exI [of _ n] exI [of _ v] exI [of _ lv]) (simp add: hit_result_def)
qed

lemma decide_stage_decides:
  assumes "stage_holds G ss start K st" "\<forall>n \<in> before G ss start K. \<not> stops G ss start n"
      "decide_stage start st = Some r"
  shows "decides G ss start K r"
proof -
  have "set (sg_hits st) = {(v, lv, n). staged G ss start K n \<and> found_at G ss start n = FoundHit v lv}"
      "set (sg_refs st) = {(n, r). staged G ss start K n \<and> found_at G ss start n = FoundRef r}"
    using assms(1) by (simp_all add: stage_holds_def)
  then have some: "(\<exists>n x. staged G ss start K n \<and> found_at G ss start n = FoundRef x) \<longleftrightarrow> sg_refs st \<noteq> []"
      "(\<exists>n v lv. staged G ss start K n \<and> found_at G ss start n = FoundHit v lv) \<longleftrightarrow> sg_hits st \<noteq> []"
    unfolding set_empty [symmetric] by (simp_all only:) blast+
  have u: "set (sg_uneval st) = unevaluable_in G ss start K" using assms(1) by (simp add: stage_holds_def)
  show ?thesis
    using assms(2,3) ref_result_decides [OF assms(1)] hit_result_decides [OF assms(1)] u
    unfolding decides_def some by (auto simp: decide_stage_def uneval_result_def split: if_splits)
qed

lemma decide_stage_none:
  assumes "stage_holds G ss start K st" "\<forall>n \<in> before G ss start K. \<not> stops G ss start n"
      "decide_stage start st = None"
  shows "\<forall>n \<in> before G ss start (Suc K). \<not> stops G ss start n"
proof (rule ccontr)
  assume "\<not> (\<forall>n \<in> before G ss start (Suc K). \<not> stops G ss start n)"
  then obtain n where n: "n \<in> before G ss start (Suc K)" "stops G ss start n" by blast
  then have k: "staged G ss start K n" using assms(2) less_Suc_eq unfolding before_def by blast
  have none: "sg_refs st = []" "sg_hits st = []" "sg_uneval st = []"
    using assms(3) by (simp_all add: decide_stage_def split: if_splits)
  have sets: "set (sg_hits st) = {(v, lv, n). staged G ss start K n \<and> found_at G ss start n = FoundHit v lv}"
      "set (sg_refs st) = {(n, r). staged G ss start K n \<and> found_at G ss start n = FoundRef r}"
      "set (sg_uneval st) = unevaluable_in G ss start K"
    using assms(1) by (simp_all add: stage_holds_def)
  show False
  proof (cases "found_at G ss start n")
    case (FoundRef r)
    then have "(n, r) \<in> set (sg_refs st)" using k sets(2) by simp
    then show False using none by simp
  next
    case (FoundHit v lv)
    then have "(v, lv, n) \<in> set (sg_hits st)" using k sets(1) by simp
    then show False using none by simp
  next
    case (FoundUneval lv)
    then have "lv \<in> unevaluable_in G ss start K" using k unfolding unevaluable_in_def by blast
    then show False using none sets(3) by simp
  qed (use n(2) in \<open>simp_all add: stops_def\<close>)
qed

lemma next_inv:
  assumes "trace_inv G ss start K frontier visited par" "stage_holds G ss start K st" "decide_stage start st = None"
  shows "trace_inv G ss start (Suc K) (fst (next_frontier G ss st)) (sg_visited st) (snd (next_frontier G ss st))"
proof -
  let ?nx = "fst (next_frontier G ss st)"
  have v: "set (sg_visited st) = before G ss start (Suc K)" using assms(2) by (simp add: stage_holds_def)
  have reg: "set (sg_region st) \<subseteq> set (sg_visited st)"
      "\<forall>n \<in> set (sg_region st). staged G ss start K n \<and> found_at G ss start n = Passed"
      "\<And>n. n \<in> set (sg_visited st) \<Longrightarrow> found_at G ss start n = Passed \<Longrightarrow>
        n \<in> before G ss start K \<or> n \<in> set (sg_region st)"
    using assms(2) unfolding stage_holds_def by blast+
  have nx: "rooted G ss start (snd (next_frontier G ss st)) (sg_visited st @ ?nx)"
      "set ?nx = (\<Union>g \<in> set (sg_region st). set (gated_at G ss g)) - set (sg_visited st)"
    using next_frontier_nodes [OF _ reg(1)] reg(2) assms(2) unfolding stage_holds_def by blast+
  have old: "\<forall>n \<in> before G ss start K. \<not> stops G ss start n" using assms(1) by (simp add: trace_inv_def)
  have "\<forall>m \<in> set ?nx. staged G ss start (Suc K) m" using nx(2) reg(2) staged.gate by blast
  moreover have "start \<in> set (sg_visited st)" unfolding v by (rule beforeI [OF staged.first]) simp
  moreover have "set (gated_at G ss n) \<subseteq> set (sg_visited st) \<union> set ?nx"
    if n: "n \<in> before G ss start (Suc K)" "found_at G ss start n = Passed" for n
  proof (cases "n \<in> before G ss start K")
    case True
    then have "set (gated_at G ss n) \<subseteq> set visited \<union> set frontier" using assms(1) n(2) unfolding trace_inv_def by blast
    moreover have "set visited \<union> set frontier \<subseteq> set (sg_visited st)"
      using assms(1) unfolding v trace_inv_def before_def by (auto intro: less_SucI)
    ultimately show ?thesis by blast
  next
    case False
    then show ?thesis using reg(3) n v nx(2) by blast
  qed
  ultimately show ?thesis
    unfolding trace_inv_def using v nx decide_stage_none [OF assms(2) old assms(3)] by blast
qed

lemma trace_loop_decides:
  assumes "trace_inv G ss start K frontier visited par"
  shows "case trace_loop G ss start frontier visited par of
      None \<Rightarrow> False
    | Some None \<Rightarrow> \<not> (\<exists>k n. staged G ss start k n \<and> stops G ss start n)
    | Some (Some r) \<Rightarrow> (\<exists>K. decides G ss start K r)"
  using assms
proof (induction "unseen G ss start visited" arbitrary: K frontier visited par rule: less_induct)
  case less
  have old: "\<forall>n \<in> before G ss start K. \<not> stops G ss start n" using less.prems by (simp add: trace_inv_def)
  show ?case
  proof (cases frontier)
    case Nil
    have "n \<in> before G ss start K" if "staged G ss start k n" for k n
      using that
    proof induction
      case first
      then show ?case using less.prems Nil unfolding trace_inv_def by auto
    next
      case (chan k n m)
      then obtain j where "j < K" "staged G ss start j n" by (auto simp: before_def)
      then show ?case using staged.chan [OF _ chan.hyps(2,3)] by (auto simp: before_def)
    next
      case (gate k n m)
      then show ?case using less.prems Nil unfolding trace_inv_def by auto
    qed
    then show ?thesis using old Nil by (auto simp: trace_loop.simps)
  next
    case (Cons f fs)
    obtain st where st: "stage_loop G ss start (begin_stage frontier visited par) = Some st" "stage_holds G ss start K st"
      using stage_runs [OF less.prems] by blast
    show ?thesis
    proof (cases "decide_stage start st")
      case (Some r)
      then show ?thesis using st Cons decide_stage_decides [OF st(2) old Some]
        by (auto simp: trace_loop.simps)
    next
      case None
      have k: "staged G ss start K f" "f \<notin> set visited" using less.prems unfolding trace_inv_def Cons by auto
      have vs: "set visited = before G ss start K" "set (sg_visited st) = before G ss start (Suc K)"
        using less.prems st(2) by (simp_all add: trace_inv_def stage_holds_def)
      have f: "f \<in> deck_nodes G ss start" by (rule staged_deck [OF k(1)])
      have "f \<in> set (sg_visited st)" unfolding vs by (rule beforeI [OF k(1)]) simp
      moreover have "set visited \<subseteq> set (sg_visited st)" unfolding vs by (rule before_Suc)
      ultimately have "deck_nodes G ss start - set (sg_visited st) \<subset> deck_nodes G ss start - set visited" using f k(2) by blast
      then have "unseen G ss start (sg_visited st) < unseen G ss start visited"
        unfolding unseen_def using deck_finite by (simp add: psubset_card_mono)
      from less.hyps [OF this next_inv [OF less.prems st(2) None]] show ?thesis
        using st(1) Cons None by (simp add: trace_loop.simps [of G ss start "f # fs"])
    qed
  qed
qed

lemma trace_begins: "trace_inv G ss start 0 [start] [] [(start, None)]"
  by (simp add: trace_inv_def before_def rooted_def staged.first parents.root)

lemma trace_decides:
  "case trace G ss start of
      None \<Rightarrow> False
    | Some None \<Rightarrow> \<not> (\<exists>k n. staged G ss start k n \<and> stops G ss start n)
    | Some (Some r) \<Rightarrow> (\<exists>K. decides G ss start K r)"
  using trace_loop_decides [OF trace_begins] by (simp add: trace_def)


section \<open>The scopes of a deck\<close>

inductive_set deck_scopes :: "graph \<Rightarrow> path_scope set" for G where
  whole: "TOP \<in> deck_scopes G"
| child: "s \<in> deck_scopes G \<Longrightarrow> c \<in> set (children_of G s) \<Longrightarrow> c \<in> deck_scopes G"

inductive_set under :: "graph \<Rightarrow> path_scope \<Rightarrow> path_scope set" for G s where
  self: "s \<in> under G s"
| child: "t \<in> under G s \<Longrightarrow> c \<in> set (children_of G t) \<Longrightarrow> c \<in> under G s"

lemma under_child: "c \<in> set (children_of G s) \<Longrightarrow> t \<in> under G c \<Longrightarrow> t \<in> under G s"
  by (rotate_tac, induction rule: under.induct) (auto intro: under.intros)

lemma under_step: "under G s = insert s (\<Union>c \<in> set (children_of G s). under G c)"
proof
  show "insert s (\<Union>c \<in> set (children_of G s). under G c) \<subseteq> under G s"
    using under_child by (auto intro: under.self)
  show "under G s \<subseteq> insert s (\<Union>c \<in> set (children_of G s). under G c)"
  proof
    fix t
    assume "t \<in> under G s"
    then show "t \<in> insert s (\<Union>c \<in> set (children_of G s). under G c)"
      by induction (blast intro: under.intros)+
  qed
qed

lemma deck_scopes_under: "deck_scopes G = under G TOP"
proof
  show "deck_scopes G \<subseteq> under G TOP"
  proof
    fix t assume "t \<in> deck_scopes G"
    then show "t \<in> under G TOP" by induction (blast intro: under.intros)+
  qed
  show "under G TOP \<subseteq> deck_scopes G"
  proof
    fix t assume "t \<in> under G TOP"
    then show "t \<in> deck_scopes G" by induction (blast intro: deck_scopes.intros)+
  qed
qed

lemma child_length: "c \<in> set (children_of G s) \<Longrightarrow> length c = Suc (length s)"
  by (auto simp: children_of_def)

lemma scopes_loop_list:
  assumes "\<And>s out rest. s \<in> set xs \<Longrightarrow>
      \<exists>out'. scopes_loop G out (s # rest) = scopes_loop G out' rest \<and> set out' = set out \<union> under G s"
  shows "\<exists>out'. scopes_loop G out (xs @ rest) = scopes_loop G out' rest \<and> set out' = set out \<union> (\<Union>s \<in> set xs. under G s)"
  using assms
proof (induction xs arbitrary: out)
  case Nil
  show ?case by (intro exI [of _ out]) simp
next
  case (Cons x xs)
  obtain o1 where o1: "scopes_loop G out (x # xs @ rest) = scopes_loop G o1 (xs @ rest)" "set o1 = set out \<union> under G x"
    using Cons.prems [of x out "xs @ rest"] by auto
  obtain o2 where "scopes_loop G o1 (xs @ rest) = scopes_loop G o2 rest" "set o2 = set o1 \<union> (\<Union>s \<in> set xs. under G s)"
    using Cons.IH [of o1] Cons.prems by auto
  then show ?case using o1 by (intro exI [of _ o2]) auto
qed

lemma scopes_loop_bounded:
  assumes "\<forall>t \<in> under G s. length t \<le> d"
  shows "\<exists>out'. scopes_loop G out (s # rest) = scopes_loop G out' rest \<and> set out' = set out \<union> under G s"
  using assms
proof (induction "d - length s" arbitrary: s out rest rule: less_induct)
  case less
  have one: "\<exists>out'. scopes_loop G out (c # rest) = scopes_loop G out' rest \<and> set out' = set out \<union> under G c"
    if "c \<in> set (rev (children_of G s))" for c out rest
  proof -
    have c: "c \<in> set (children_of G s)" using that by simp
    have "length c \<le> d" using less.prems under_child [OF c under.self] by blast
    then have "d - length c < d - length s" using child_length [OF c] by simp
    moreover have "\<forall>t \<in> under G c. length t \<le> d" using less.prems under_child [OF c] by blast
    ultimately show ?thesis using less.hyps by blast
  qed
  obtain o1 where o1: "scopes_loop G (out @ [s]) (rev (children_of G s) @ rest) = scopes_loop G o1 rest"
      "set o1 = set (out @ [s]) \<union> (\<Union>c \<in> set (rev (children_of G s)). under G c)"
    using scopes_loop_list [of "rev (children_of G s)" G "out @ [s]" rest, OF one] by blast
  have "scopes_loop G out (s # rest) = scopes_loop G o1 rest"
    using o1(1) by (simp add: scopes_loop.simps [of G out "s # rest"])
  moreover have "set o1 = set out \<union> under G s" using o1(2) by (subst under_step) auto
  ultimately show ?case by blast
qed

lemma scopes_loop_all:
  assumes "scopes_loop G out todo = Some ss"
  shows "set ss = set out \<union> (\<Union>s \<in> set todo. under G s)"
proof (rule scopes_loop.raw_induct [where P = "\<lambda>G out todo ss. set ss = set out \<union> (\<Union>s \<in> set todo. under G s)", OF _ assms])
  fix loop G out todo ss
  assume ih: "\<And>G out todo ss. loop G out todo = Some ss \<Longrightarrow> set ss = set out \<union> (\<Union>s \<in> set todo. under G s)"
    and r: "(case todo of [] \<Rightarrow> Some out | s # rest \<Rightarrow> loop G (out @ [s]) (rev (children_of G s) @ rest)) = Some ss"
  show "set ss = set out \<union> (\<Union>s \<in> set todo. under G s)"
  proof (cases todo)
    case (Cons s rest)
    then have "set ss = set (out @ [s]) \<union> (\<Union>t \<in> set (rev (children_of G s) @ rest). under G t)"
      using ih r by simp
    then show ?thesis using under_step [of G s] Cons by auto
  qed (use r in simp)
qed

lemma scopes_returned:
  "if finite (deck_scopes G) then (\<exists>ss. all_scopes G = Some ss \<and> set ss = deck_scopes G) else all_scopes G = None"
proof (cases "finite (deck_scopes G)")
  case True
  then have "\<forall>t \<in> under G TOP. length t \<le> Max (length ` under G TOP)" by (simp add: deck_scopes_under)
  from scopes_loop_bounded [OF this, of "[]" "[]"] show ?thesis
    using True by (auto simp: all_scopes_def deck_scopes_under scopes_loop.simps [of G _ "[]"])
next
  case False
  have "all_scopes G \<noteq> Some ss" for ss
  proof
    assume "all_scopes G = Some ss"
    then have "deck_scopes G = set ss" using scopes_loop_all by (fastforce simp: all_scopes_def deck_scopes_under)
    then show False using False by simp
  qed
  then have "all_scopes G = None" using not_Some_eq by blast
  then show ?thesis using False by simp
qed

section \<open>Properties\<close>

text \<open>C17: the supply trace always returns, and it is the first stage that decides: without a result no
  node of any stage holds a reference, a supply or an unevaluable source; a result is of the first
  stage that has one, where references outrank supplies and the highest one decides, with a path of
  channels and gates from the start to the deciding node, none of whose inner nodes is held.\<close>

theorem trace_first_stage:
  "case trace G ss start of
      None \<Rightarrow> False
    | Some None \<Rightarrow> \<not> (\<exists>k n. staged G ss start k n \<and> stops G ss start n)
    | Some (Some r) \<Rightarrow> (\<exists>K. decides G ss start K r)"
  by (rule trace_decides)


text \<open>C19: the scopes listed for a deck are exactly those that instances of known subcircuits open, whenever the
  hierarchy is finite; the walk does not end when a subcircuit instantiates itself.\<close>

theorem all_scopes_exact:
  "if finite (deck_scopes G) then \<exists>ss. all_scopes G = Some ss \<and> set ss = deck_scopes G else all_scopes G = None"
  by (rule scopes_returned)

end
