(* ===== verification/RawFile.thy ===== *)
theory RawFile
  imports PyText Numbers Escape
begin

text \<open>
  SPICE rawfiles, the reader of \<open>vamos/netlist/rawfile.py\<close>: the header, the variable list and the
  data of every plot, and the look-ups of a plot by name. A file is its bytes, as characters up to
  code 255. A header line is decoded as UTF-8, or as Latin-1 where that fails; a character beyond
  code 255, which a text cannot hold here, is read as the character 255. An error is a value of
  \<open>raw_err\<close> with what its message prints; the path that begins every message is left out.
\<close>

section \<open>Numbers\<close>

text \<open>\<open>float(s)\<close> of a text: white space around, a sign, infinity, nan, or a decimal with single
  underscores between digits.\<close>

fun drop_underscores :: "bool \<Rightarrow> string \<Rightarrow> string option" where
  "drop_underscores after [] = Some []"
| "drop_underscores after (c # s) =
     (if c = CHR ''_'' then (if after \<and> s \<noteq> [] \<and> re_digit (hd s) then drop_underscores False s else None)
      else map_option ((#) c) (drop_underscores (re_digit c) s))"

definition py_float :: "string \<Rightarrow> pyfloat option" where
  "py_float s =
     (let (neg, r) = split_sign (py_strip s); w = py_lower r in
      if w = ''inf'' \<or> w = ''infinity'' then Some (Inf neg)
      else if w = ''nan'' then Some NaN
      else Option.bind (drop_underscores False (py_strip s)) (\<lambda>t. Option.bind (read_mant t) (\<lambda>(m, t1).
        case read_exp ''eE'' t1 of (ex, t2) \<Rightarrow> if t2 = [] then Some (float_dec m (exp_value ex)) else None)))"

text \<open>A little-endian IEEE double, \<open>struct\<close>'s \<open><d\<close>.\<close>

definition le_nat :: "string \<Rightarrow> nat" where
  "le_nat bs = foldr (\<lambda>c n. of_char c + 256 * n) bs 0"

definition le_double :: "string \<Rightarrow> pyfloat" where
  "le_double bs =
     (let n = le_nat bs; neg = n div 2 ^ 63 = 1; ex = n div 2 ^ 52 mod 2048; fr = n mod 2 ^ 52 in
      if ex = 2047 then (if fr = 0 then Inf neg else NaN)
      else if ex = 0 then Fin neg (of_nat fr * 2 powi (- 1074))
      else Fin neg (of_nat (2 ^ 52 + fr) * 2 powi (int ex - 1075)))"

section \<open>Bytes\<close>

abbreviation newline :: char where "newline \<equiv> CHR 0x0A"
abbreviation carriage :: char where "carriage \<equiv> CHR 0x0D"

text \<open>White space of bytes: \<open>bytes.strip\<close> and the classes \<open>\s\<close> and \<open>\S\<close> of a bytes pattern.\<close>

definition byte_space :: "char \<Rightarrow> bool" where
  "byte_space c \<longleftrightarrow> code_in 9 13 c \<or> c = CHR '' ''"

definition byte_blank :: "string \<Rightarrow> bool" where
  "byte_blank bs \<longleftrightarrow> list_all byte_space bs"

definition slice :: "'a list \<Rightarrow> nat \<Rightarrow> nat \<Rightarrow> 'a list" where
  "slice data a b = take (b - a) (drop a data)"

definition find_newline :: "string \<Rightarrow> nat \<Rightarrow> nat option" where
  "find_newline data pos = map_option (\<lambda>k. pos + k) (find_char newline (drop pos data))"

lemma find_newline_Some: "find_newline data pos = Some e \<Longrightarrow> pos \<le> e \<and> e < length data"
  using find_char_Some [of newline "drop pos data"] by (auto simp: find_newline_def)

text \<open>\<open>_text\<close>.\<close>

definition raw_text :: "string \<Rightarrow> string" where
  "raw_text bs = (case utf8_decode (map of_char bs) of
     Some us \<Rightarrow> if list_ex (\<lambda>u. 0xD800 \<le> u \<and> u < 0xE000) us then bs else map (\<lambda>u. char_of (min u 255)) us
   | None \<Rightarrow> bs)"

text \<open>A text in ASCII is its bytes; evaluation decodes nothing else.\<close>

lemma utf8_decode_ascii: "\<forall>b \<in> set bs. b < 128 \<Longrightarrow> utf8_decode bs = Some bs"
  by (induction bs) (simp_all add: utf8_decode.simps [of "[]"] utf8_decode.simps [of "_ # _"] utf8_first_def)

lemma raw_text_code [code]:
  "raw_text bs = (if list_all (\<lambda>c. of_char c < (128 :: nat)) bs then bs
     else (case utf8_decode (map of_char bs) of
       Some us \<Rightarrow> if list_ex (\<lambda>u. 0xD800 \<le> u \<and> u < 0xE000) us then bs else map (\<lambda>u. char_of (min u 255)) us
     | None \<Rightarrow> bs))"
proof (cases "list_all (\<lambda>c. of_char c < (128 :: nat)) bs")
  case True
  then have all: "\<forall>b \<in> set (map of_char bs). b < (128 :: nat)" by (auto simp: list_all_iff)
  then have "\<not> list_ex (\<lambda>u. 0xD800 \<le> u \<and> u < 0xE000) (map of_char bs :: nat list)"
    by (fastforce simp: list_ex_iff)
  moreover have "map (\<lambda>u. char_of (min u (255 :: nat))) (map of_char bs) = bs"
    using all by (auto simp: min_def intro!: map_idI)
  ultimately show ?thesis using True utf8_decode_ascii [OF all] by (simp add: raw_text_def)
qed (simp add: raw_text_def)

definition strip_carriage :: "string \<Rightarrow> string" where
  "strip_carriage s = rev (dropWhile (\<lambda>c. c = carriage) (rev s))"

text \<open>\<open>_PLOT_START\<close>, at a position.\<close>

definition plot_start :: "string \<Rightarrow> nat \<Rightarrow> bool" where
  "plot_start data pos =
     (let r = dropWhile (\<lambda>c. c = carriage \<or> c = newline) (drop pos data) in
      list_ex (\<lambda>w. map lower_char (take (length w) r) = w) [''title:'', ''plotname:'', ''date:''])"

section \<open>Errors\<close>

datatype raw_err =
    EmptyFile
  | NoHeaderLine string
  | LongLine nat
  | OddFlags "string list"
  | BadVarCount string
  | VarsFirst
  | NoSection
  | VarMismatch
  | VarsEnd
  | BadVarLine string
  | PyValueErr string
  | ExpectedIndex nat string
  | BadRawValue string nat
  | NoTimeScale string
  | OutsideRun pyfloat "(pyfloat \<times> pyfloat) option"
  | NoExact string
  | NoVariable string
  | ManyVariables string "string list"
  | NoPlot nat nat
  | NoPlotByte nat int nat
  | NoColumn nat int nat
  | NotTable nat string
  | RowFields nat nat nat
  | BadRow nat string
  | NoTable

section \<open>A plot\<close>

datatype raw_value = Rv pyfloat | Cv pyfloat pyfloat

text \<open>The real part of a value, \<open>v.real\<close>.\<close>

fun real_part :: "raw_value \<Rightarrow> pyfloat" where
  "real_part (Rv x) = x"
| "real_part (Cv x y) = x"

record raw_data =
  rd_title :: string
  rd_date :: string
  rd_plotname :: string
  rd_flags :: "string list"
  rd_variables :: "(string \<times> string) list"
  rd_points :: "raw_value list list"
  rd_declared :: "int option"
  rd_binary :: bool
  rd_header :: "(string \<times> string) list"

definition new_raw :: raw_data where
  "new_raw = \<lparr>rd_title = [], rd_date = [], rd_plotname = [], rd_flags = [], rd_variables = [], rd_points = [],
     rd_declared = None, rd_binary = True, rd_header = []\<rparr>"

definition rd_complex :: "raw_data \<Rightarrow> bool" where
  "rd_complex r \<longleftrightarrow> ''complex'' \<in> set (rd_flags r)"

definition var_names :: "raw_data \<Rightarrow> string list" where
  "var_names r = map fst (rd_variables r)"

text \<open>\<open>_Plot\<close>: the span of the point count, with whether a blank stands before it, the end of the
  line of the variable count, where the data begin and where the next plot does.\<close>

type_synonym count_field = "(nat \<times> nat \<times> bool) option"

record file_plot =
  fp_raw :: raw_data
  fp_field :: count_field
  fp_nvars_end :: "nat option"
  fp_data :: nat
  fp_next :: "nat option"

section \<open>The header\<close>

definition LAYOUT_FLAGS :: "string list" where
  "LAYOUT_FLAGS = [''real'', ''complex'', ''padded'', ''unpadded'', ''double'']"

definition header_char :: "char \<Rightarrow> bool" where
  "header_char c \<longleftrightarrow> ascii_letter c \<or> c = CHR ''.'' \<or> c = CHR '' ''"

text \<open>\<open>_HEADER_LINE\<close>: the key in lower case and the value, both stripped.\<close>

definition header_match :: "string \<Rightarrow> (string \<times> string) option" where
  "header_match line = (case dropWhile re_space line of
     [] \<Rightarrow> None
   | c # r \<Rightarrow>
       if \<not> ascii_letter c then None
       else (case py_span header_char r of (k, t) \<Rightarrow>
         (case t of
            d # v \<Rightarrow> if d = CHR '':'' then Some (py_lower (py_strip (c # k)), py_strip v) else None
          | [] \<Rightarrow> None)))"

text \<open>The line at a position and its end.\<close>

definition line_end_at :: "string \<Rightarrow> nat \<Rightarrow> nat" where
  "line_end_at data pos = (case find_newline data pos of Some e \<Rightarrow> e | None \<Rightarrow> length data)"

definition line_at :: "string \<Rightarrow> nat \<Rightarrow> string" where
  "line_at data pos = strip_carriage (raw_text (slice data pos (line_end_at data pos)))"

lemma line_end_at_ge: "pos \<le> length data \<Longrightarrow> pos \<le> line_end_at data pos \<and> line_end_at data pos \<le> length data"
  using find_newline_Some [of data pos] by (auto simp: line_end_at_def split: option.splits)

text \<open>The lines of the variable list: as many that are not blank as there are variables.\<close>

function variable_lines :: "string \<Rightarrow> nat \<Rightarrow> int \<Rightarrow> string list \<Rightarrow> raw_err + (string list \<times> nat)" where
  "variable_lines data pos nvars lines =
     (if nvars \<le> int (length lines) then Inr (lines, pos)
      else (case find_newline data pos of
              None \<Rightarrow> Inl VarsEnd
            | Some e \<Rightarrow> (let line = line_at data pos in
                variable_lines data (e + 1) nvars (if py_strip line = [] then lines else lines @ [line]))))"
  by pat_completeness auto
termination
  by (relation "measure (\<lambda>(data, pos, n, ls). length data - pos)") (auto dest!: find_newline_Some)

declare variable_lines.simps [simp del]

definition variable_fields :: "string \<Rightarrow> string list" where
  "variable_fields line =
     (if CHR 0x09 \<in> set (py_strip line)
      then filter (\<lambda>f. f \<noteq> []) (map py_strip (py_split CHR 0x09 line)) else py_words line)"

definition all_py_digits :: "string \<Rightarrow> bool" where
  "all_py_digits s \<longleftrightarrow> s \<noteq> [] \<and> list_all py_isdigit s"

text \<open>One line of the list: its index, the name and the type. \<open>isdigit\<close> accepts a superscript digit, which
  \<open>int\<close> refuses with a \<open>ValueError\<close>.\<close>

definition variable_of :: "nat \<times> string \<Rightarrow> raw_err + string \<times> string" where
  "variable_of = (\<lambda>(k, line).
     (case variable_fields line of
        i # n # rest \<Rightarrow>
          (if \<not> all_py_digits i then Inl (BadVarLine line)
           else (case py_int i of
                   Inl why \<Rightarrow> Inl (PyValueErr why)
                 | Inr j \<Rightarrow> if j = int k then Inr (n, case rest of t # _ \<Rightarrow> t | [] \<Rightarrow> [])
                            else Inl (BadVarLine line)))
      | _ \<Rightarrow> Inl (BadVarLine line)))"

definition read_variables ::
  "string \<Rightarrow> nat \<Rightarrow> int \<Rightarrow> string \<Rightarrow> raw_err + ((string \<times> string) list \<times> nat)" where
  "read_variables data pos nvars first =
     rbind (variable_lines data pos nvars (if first = [] then [] else [first])) (\<lambda>(lines, pos').
     rbind (rmap variable_of (zip [0..<length lines] lines)) (\<lambda>vs. Inr (vs, pos')))"

lemma variable_lines_pos: "variable_lines data pos nvars lines = Inr (ls, p) \<Longrightarrow> pos \<le> p"
proof (induction data pos nvars lines rule: variable_lines.induct)
  case (1 data pos nvars lines)
  then show ?case
    by (subst (asm) variable_lines.simps) (fastforce dest: find_newline_Some split: if_splits option.splits)
qed

text \<open>The span of a point count: after the colon, and the blank that follows it.\<close>

definition points_field :: "string \<Rightarrow> nat \<Rightarrow> string \<Rightarrow> nat \<Rightarrow> nat \<times> nat \<times> bool" where
  "points_field data start line e =
     (let a = start + the (find_char CHR '':'' line) + 1;
          spaced = slice data a (a + 1) = '' '';
          a' = (if spaced then a + 1 else a);
          b = (if slice data (e - 1) e = [carriage] then e - 1 else e)
      in (a', max a' b, spaced))"

definition count_of :: "string \<Rightarrow> int option" where
  "count_of v = (if v = [] then None else res_val (py_int v))"

text \<open>The state of the header loop.\<close>

record head_state =
  hs_raw :: raw_data
  hs_field :: count_field
  hs_nvars :: "int option"
  hs_nvars_end :: "nat option"

definition head_flags :: "string \<Rightarrow> head_state \<Rightarrow> raw_err + head_state" where
  "head_flags v st =
     (let fl = py_words (py_lower v); odd = filter (\<lambda>f. f \<notin> set LAYOUT_FLAGS) fl in
      if odd \<noteq> [] then Inl (OddFlags odd) else Inr (st\<lparr>hs_raw := (hs_raw st)\<lparr>rd_flags := fl\<rparr>\<rparr>))"

text \<open>A header line other than the list of variables and the marker of the data.\<close>

definition head_line :: "string \<Rightarrow> nat \<Rightarrow> string \<Rightarrow> string \<Rightarrow> head_state \<Rightarrow> raw_err + head_state" where
  "head_line data pos key v st =
     (let r = hs_raw st; e = line_end_at data pos in
      if key = ''title'' then Inr (st\<lparr>hs_raw := r\<lparr>rd_title := v\<rparr>\<rparr>)
      else if key = ''date'' then Inr (st\<lparr>hs_raw := r\<lparr>rd_date := v\<rparr>\<rparr>)
      else if key = ''plotname'' then Inr (st\<lparr>hs_raw := r\<lparr>rd_plotname := v\<rparr>\<rparr>)
      else if key = ''flags'' then head_flags v st
      else if key = ''no. variables'' then
        (case py_int v of Inl _ \<Rightarrow> Inl (BadVarCount v)
         | Inr n \<Rightarrow> Inr (st\<lparr>hs_nvars := Some n, hs_nvars_end := Some (e + 1)\<rparr>))
      else if key = ''no. points'' then
        Inr (st\<lparr>hs_field := Some (points_field data pos (line_at data pos) e),
                hs_raw := r\<lparr>rd_declared := count_of v\<rparr>\<rparr>)
      else Inr (st\<lparr>hs_raw := r\<lparr>rd_header := dict_set key v (rd_header r)\<rparr>\<rparr>))"

text \<open>The loop ends at the marker: the state, where the data begin, and whether they are binary.\<close>

lemma line_advance:
  assumes "\<not> length data \<le> pos" "line_end_at data pos + 1 \<le> p"
  shows "length data - p < length data - pos"
  using assms line_end_at_ge [of pos data] by linarith

function read_header :: "string \<Rightarrow> nat \<Rightarrow> head_state \<Rightarrow> raw_err + (head_state \<times> nat \<times> bool)" where
  "read_header data pos st =
     (if length data \<le> pos then Inl NoSection
      else
        (let line = line_at data pos; e = line_end_at data pos in
         if py_strip line = [] then read_header data (e + 1) st
         else (case header_match line of
                 None \<Rightarrow> Inl (NoHeaderLine (take 80 line))
               | Some (key, v) \<Rightarrow>
                   if key = ''variables'' then
                     (case hs_nvars st of
                        None \<Rightarrow> Inl VarsFirst
                      | Some n \<Rightarrow>
                          (case read_variables data (e + 1) n v of
                             Inl err \<Rightarrow> Inl err
                           | Inr (vs, p) \<Rightarrow> read_header data p
                               (st\<lparr>hs_raw := (hs_raw st)\<lparr>rd_variables := rd_variables (hs_raw st) @ vs\<rparr>\<rparr>)))
                   else if key = ''binary'' \<or> key = ''values'' then Inr (st, e + 1, key = ''binary'')
                   else (case head_line data pos key v st of
                           Inl err \<Rightarrow> Inl err
                         | Inr st' \<Rightarrow> read_header data (e + 1) st'))))"
  by pat_completeness auto
termination
proof (relation "measure (\<lambda>(data, pos, st). length data - pos)", goal_cases)
  case 1
  then show ?case by simp
next
  case (2 data pos st line e)
  then show ?case using line_advance by simp
next
  case (3 data pos st line e kv key v n r vs p)
  then have "e + 1 \<le> p"
    using variable_lines_pos by (fastforce simp: read_variables_def Inr_rbind_iff rbind_Inr_iff)
  then show ?case using 3 line_advance by simp
next
  case (4 data pos st line e kv key v st')
  then show ?case using line_advance by simp
qed

declare read_header.simps [simp del]

section \<open>Binary data\<close>

text \<open>A list in groups of \<open>k\<close>.\<close>

function chunks :: "nat \<Rightarrow> 'a list \<Rightarrow> 'a list list" where
  "chunks k xs = (if k = 0 \<or> xs = [] then [] else take k xs # chunks k (drop k xs))"
  by pat_completeness auto
termination
  by (relation "measure (\<lambda>(k, xs). length xs)") auto

declare chunks.simps [simp del]

definition row_size :: "nat \<Rightarrow> bool \<Rightarrow> nat" where
  "row_size nvars cplx = nvars * (if cplx then 2 else 1) * 8"

text \<open>The points the data hold and where the next plot begins: the header's count is taken when the
  data have that many rows and nothing, or the header of another plot, follows them.\<close>

definition binary_count :: "string \<Rightarrow> nat \<Rightarrow> nat \<Rightarrow> int option \<Rightarrow> int \<times> nat option" where
  "binary_count data start row declared =
     (let avail = int (length data) - int start; counted = avail div int row in
      case declared of
        None \<Rightarrow> (counted, None)
      | Some n \<Rightarrow>
          if \<not> (0 \<le> n \<and> n * int row \<le> avail) then (counted, None)
          else
            (let e = start + nat n * row in
             if e < length data \<and> \<not> byte_blank (drop e data)
             then (if plot_start data e then (n, Some e) else (counted, None))
             else (n, None)))"

fun pair_up :: "pyfloat list \<Rightarrow> raw_value list" where
  "pair_up (x # y # r) = Cv x y # pair_up r"
| "pair_up _ = []"

definition row_values :: "bool \<Rightarrow> string \<Rightarrow> raw_value list" where
  "row_values cplx bs = (let ds = map le_double (chunks 8 bs) in if cplx then pair_up ds else map Rv ds)"

definition read_binary :: "string \<Rightarrow> nat \<Rightarrow> nat \<Rightarrow> bool \<Rightarrow> int option \<Rightarrow> raw_value list list \<times> nat option" where
  "read_binary data start nvars cplx declared =
     (let row = row_size nvars cplx; (n, nxt) = binary_count data start row declared in
      (chunks nvars (row_values cplx (slice data start (nat (int start + n * int row)))), nxt))"

section \<open>Text data\<close>

text \<open>The matches of \<open>_TOKEN\<close>, each with its position.\<close>

function byte_tokens :: "nat \<Rightarrow> string \<Rightarrow> (nat \<times> string) list" where
  "byte_tokens p s =
     (let k = length (takeWhile byte_space s); t = dropWhile byte_space s;
          w = takeWhile (\<lambda>c. \<not> byte_space c) t in
      if t = [] then [] else (p + k, w) # byte_tokens (p + k + length w) (drop (length w) t))"
  by pat_completeness auto
termination
proof (relation "measure (\<lambda>(p, s). length s)", goal_cases)
  case (2 p s k t w)
  have "t \<noteq> []" using 2 by simp
  then obtain c r where t: "t = c # r" by (meson neq_Nil_conv)
  then have "\<not> byte_space c" using 2 by (metis hd_dropWhile list.distinct(1) list.sel(1))
  then have "0 < length w" using t 2 by simp
  moreover have "length t \<le> length s" using 2 by (simp add: length_dropWhile_le)
  ultimately show ?case using t by (cases "length w") auto
qed simp

declare byte_tokens.simps [simp del]

definition tokens_from :: "string \<Rightarrow> nat \<Rightarrow> (nat \<times> string) list" where
  "tokens_from data start = byte_tokens start (drop start data)"

definition all_digits :: "string \<Rightarrow> bool" where
  "all_digits s \<longleftrightarrow> s \<noteq> [] \<and> list_all re_digit s"

text \<open>A token that ends with a comma goes on with the next one.\<close>

fun join_commas :: "string \<Rightarrow> (nat \<times> string) list \<Rightarrow> string \<times> (nat \<times> string) list" where
  "join_commas s [] = (s, [])"
| "join_commas s ((p, t) # r) =
     (if s \<noteq> [] \<and> List.last s = CHR '','' then join_commas (s @ t) r else (s, (p, t) # r))"

lemma join_commas_length: "join_commas s r = (s', r') \<Longrightarrow> length r' \<le> length r"
  by (induction s r rule: join_commas.induct) (fastforce split: if_splits)+

text \<open>\<open>_value\<close>.\<close>

definition raw_value_of :: "bool \<Rightarrow> string \<Rightarrow> raw_value option" where
  "raw_value_of cplx s =
     (if cplx then
        (let re = takeWhile (\<lambda>c. c \<noteq> CHR '','') s; im = drop 1 (dropWhile (\<lambda>c. c \<noteq> CHR '','') s) in
         Option.bind (py_float re) (\<lambda>x. if im = [] then Some (Cv x f0) else map_option (Cv x) (py_float im)))
      else map_option Rv (py_float s))"

text \<open>The values of point number \<open>n\<close>, until there are \<open>nvars\<close> or the tokens end.\<close>

function point_values ::
  "bool \<Rightarrow> nat \<Rightarrow> nat \<Rightarrow> raw_value list \<Rightarrow> (nat \<times> string) list \<Rightarrow> raw_err + (raw_value list \<times> (nat \<times> string) list)"
where
  "point_values cplx nvars n vals toks =
     (case toks of
        [] \<Rightarrow> Inr (vals, [])
      | (p, t) # r \<Rightarrow>
          (case join_commas t r of (s, r') \<Rightarrow>
             (case raw_value_of cplx s of
                None \<Rightarrow> Inl (BadRawValue s n)
              | Some v \<Rightarrow> if length vals + 1 = nvars then Inr (vals @ [v], r')
                          else point_values cplx nvars n (vals @ [v]) r')))"
  by pat_completeness auto
termination
  by (relation "measure (\<lambda>(c, v, n, vs, ts). length ts)") (auto dest!: join_commas_length [OF sym])

declare point_values.simps [simp del]

lemma point_values_simps:
  "point_values cplx nvars n vals [] = Inr (vals, [])"
  "point_values cplx nvars n vals ((p, t) # ts) =
     (case raw_value_of cplx (fst (join_commas t ts)) of
        None \<Rightarrow> Inl (BadRawValue (fst (join_commas t ts)) n)
      | Some v \<Rightarrow> if length vals + 1 = nvars then Inr (vals @ [v], snd (join_commas t ts))
                  else point_values cplx nvars n (vals @ [v]) (snd (join_commas t ts)))"
  by (simp_all add: point_values.simps [of cplx nvars n vals] case_prod_beta)

text \<open>An induction over the tokens that the values use up.\<close>

lemma token_induct [case_names Nil Cons]:
  assumes "P []" "\<And>p t ts. (\<And>r. length r \<le> length ts \<Longrightarrow> P r) \<Longrightarrow> P ((p, t) # ts)"
  shows "P (toks :: (nat \<times> string) list)"
proof (induction "length toks" arbitrary: toks rule: less_induct)
  case less
  show ?case
  proof (cases toks)
    case (Cons a ts)
    obtain p t where "a = (p, t)" by (cases a)
    moreover have "P r" if "length r \<le> length ts" for r using less that Cons by simp
    ultimately show ?thesis using assms(2) Cons by simp
  qed (simp add: assms(1))
qed

lemma join_commas_rest: "length (snd (join_commas s r)) \<le> length r" "set (snd (join_commas s r)) \<subseteq> set r"
  by (induction s r rule: join_commas.induct) auto

lemma point_values_rest:
  "point_values cplx nvars n vals toks = Inr (vs, r) \<Longrightarrow> length r \<le> length toks \<and> set r \<subseteq> set toks"
proof (induction toks arbitrary: vals rule: token_induct)
  case (Cons p t ts)
  let ?j = "join_commas t ts"
  obtain v where v: "raw_value_of cplx (fst ?j) = Some v"
    using Cons.prems by (cases "raw_value_of cplx (fst ?j)") (simp_all add: point_values_simps)
  show ?case
  proof (cases "length vals + 1 = nvars")
    case True
    then show ?thesis using Cons.prems v join_commas_rest [of t ts] by (auto simp: point_values_simps)
  next
    case False
    then have "point_values cplx nvars n (vals @ [v]) (snd ?j) = Inr (vs, r)"
      using Cons.prems v by (simp add: point_values_simps)
    from Cons.IH [OF join_commas_rest(1) this] show ?thesis using join_commas_rest [of t ts] by auto
  qed
qed (simp add: point_values_simps)

lemmas point_values_length = point_values_rest [THEN conjunct1]

text \<open>The points: an index, then the values; a truncated last point is left out.\<close>

function text_points ::
  "string \<Rightarrow> bool \<Rightarrow> nat \<Rightarrow> raw_value list list \<Rightarrow> (nat \<times> string) list \<Rightarrow>
   raw_err + (raw_value list list \<times> nat option)"
where
  "text_points data cplx nvars pts toks =
     (case toks of
        [] \<Rightarrow> Inr (pts, None)
      | (p, t) # r \<Rightarrow>
          if \<not> all_digits t then
            (if plot_start data p then Inr (pts, Some p) else Inl (ExpectedIndex p (take 40 t)))
          else (case point_values cplx nvars (length pts) [] r of
                  Inl e \<Rightarrow> Inl e
                | Inr (vs, r') \<Rightarrow> if length vs < nvars then Inr (pts, None)
                                  else text_points data cplx nvars (pts @ [vs]) r'))"
  by pat_completeness auto
termination
  by (relation "measure (\<lambda>(d, c, v, ps, ts). length ts)") (auto dest!: point_values_length point_values_length [OF sym])

declare text_points.simps [simp del]

section \<open>Plots\<close>

definition start_head :: head_state where
  "start_head = \<lparr>hs_raw = new_raw, hs_field = None, hs_nvars = None, hs_nvars_end = None\<rparr>"

text \<open>\<open>_parse_plot\<close>.\<close>

definition read_plot :: "string \<Rightarrow> nat \<Rightarrow> raw_err + file_plot" where
  "read_plot data pos =
     rbind (read_header data pos start_head) (\<lambda>(st, start, bin).
       (let r = (hs_raw st)\<lparr>rd_binary := bin\<rparr> in
        case hs_nvars st of
          None \<Rightarrow> Inl VarMismatch
        | Some n \<Rightarrow>
            if n < 1 \<or> int (length (rd_variables r)) \<noteq> n then Inl VarMismatch
            else rbind (if bin then Inr (read_binary data start (nat n) (rd_complex r) (rd_declared r))
                        else text_points data (rd_complex r) (nat n) [] (tokens_from data start))
                   (\<lambda>(pts, nxt). Inr \<lparr>fp_raw = r\<lparr>rd_points := pts\<rparr>, fp_field = hs_field st,
                       fp_nvars_end = hs_nvars_end st, fp_data = start, fp_next = nxt\<rparr>)))"

text \<open>A plot ends after it began, so the next one is further on.\<close>

lemma read_header_pos: "read_header data pos st = Inr (st', p, b) \<Longrightarrow> pos < p"
proof (induction data pos st rule: read_header.induct)
  case (1 data pos st)
  have len: "pos < length data"
  proof (rule ccontr)
    assume "\<not> pos < length data"
    then show False using "1.prems" by (simp add: read_header.simps [of data pos])
  qed
  then have e: "pos \<le> line_end_at data pos" using line_end_at_ge [of pos data] by simp
  show ?case
  proof (cases "py_strip (line_at data pos) = []")
    case True
    then have "read_header data (line_end_at data pos + 1) st = Inr (st', p, b)"
      using "1.prems" len by (simp add: read_header.simps [of data pos] Let_def)
    from "1.IH"(1) [OF _ refl refl True this] show ?thesis using len e by simp
  next
    case False
    note step = "1.prems" [unfolded read_header.simps [of data pos] Let_def]
    obtain key v where kv: "header_match (line_at data pos) = Some (key, v)"
      using step len False by (auto split: option.splits)
    consider (vars) "key = ''variables''" | (mark) "key = ''binary'' \<or> key = ''values''"
      | (other) "key \<noteq> ''variables''" "\<not> (key = ''binary'' \<or> key = ''values'')" by blast
    then show ?thesis
    proof cases
      case vars
      then obtain n vs q where q: "hs_nvars st = Some n" "read_variables data (line_end_at data pos + 1) n v = Inr (vs, q)"
        using step len False kv by (auto split: option.splits sum.splits)
      then have "read_header data q (st\<lparr>hs_raw := (hs_raw st)\<lparr>rd_variables := rd_variables (hs_raw st) @ vs\<rparr>\<rparr>) = Inr (st', p, b)"
        using step len False kv vars by simp
      from "1.IH"(2) [OF _ refl refl False kv refl vars q refl this]
      have "q < p" using len by simp
      moreover have "line_end_at data pos + 1 \<le> q"
        using q(2) variable_lines_pos by (fastforce simp: read_variables_def rbind_Inr_iff)
      ultimately show ?thesis using e by simp
    next
      case mark
      then have "p = line_end_at data pos + 1" using step len False kv by auto
      then show ?thesis using e by simp
    next
      case other
      then obtain st1 where s1: "head_line data pos key v st = Inr st1"
        using step len False kv by (auto split: sum.splits)
      then have "read_header data (line_end_at data pos + 1) st1 = Inr (st', p, b)"
        using step len False kv other by simp
      from "1.IH"(3) [OF _ refl refl False kv refl other s1 this] show ?thesis using len e by simp
    qed
  qed
qed

lemma byte_tokens_pos: "(q, t) \<in> set (byte_tokens p s) \<Longrightarrow> p \<le> q \<and> q < p + length s"
proof (induction p s rule: byte_tokens.induct)
  case (1 p s)
  let ?k = "length (takeWhile byte_space s)"
  let ?t = "dropWhile byte_space s"
  let ?w = "takeWhile (\<lambda>c. \<not> byte_space c) ?t"
  have ne: "?t \<noteq> []" using "1.prems" by (auto simp: byte_tokens.simps [of p s] Let_def split: if_splits)
  have len: "?k + length ?t = length s" by (metis length_append takeWhile_dropWhile_id)
  have w: "length ?w \<le> length ?t" by (rule length_takeWhile_le)
  have "byte_tokens p s = (p + ?k, ?w) # byte_tokens (p + ?k + length ?w) (drop (length ?w) ?t)"
    using ne by (subst byte_tokens.simps) (simp only: Let_def if_False)
  then consider "q = p + ?k" | "(q, t) \<in> set (byte_tokens (p + ?k + length ?w) (drop (length ?w) ?t))"
    using "1.prems" by auto
  then show ?case
  proof cases
    case 1
    then show ?thesis using len ne by (cases ?t) auto
  next
    case 2
    from "1.IH" [OF refl refl refl ne 2] show ?thesis using len w by simp
  qed
qed

lemma text_points_simps:
  "text_points data cplx nvars pts [] = Inr (pts, None)"
  "text_points data cplx nvars pts ((p, t) # r) =
     (if \<not> all_digits t then
        (if plot_start data p then Inr (pts, Some p) else Inl (ExpectedIndex p (take 40 t)))
      else (case point_values cplx nvars (length pts) [] r of
              Inl e \<Rightarrow> Inl e
            | Inr (vs, r') \<Rightarrow> if length vs < nvars then Inr (pts, None)
                              else text_points data cplx nvars (pts @ [vs]) r'))"
  by (simp_all add: text_points.simps [of data cplx nvars pts])

lemma text_points_next: "text_points data cplx nvars pts toks = Inr (ps, Some q) \<Longrightarrow> q \<in> fst ` set toks"
proof (induction toks arbitrary: pts rule: token_induct)
  case (Cons p t ts)
  show ?case
  proof (cases "all_digits t")
    case True
    obtain vs r where v: "point_values cplx nvars (length pts) [] ts = Inr (vs, r)"
      using Cons.prems True by (auto simp: text_points_simps split: sum.splits)
    then have "text_points data cplx nvars (pts @ [vs]) r = Inr (ps, Some q)"
      using Cons.prems True by (simp add: text_points_simps split: if_splits)
    from Cons.IH [OF _ this] show ?thesis using point_values_rest [OF v] by auto
  next
    case False
    then show ?thesis using Cons.prems by (simp add: text_points_simps split: if_splits)
  qed
qed (simp add: text_points_simps)

lemma binary_count_next: "binary_count data start row declared = (n, Some q) \<Longrightarrow> start \<le> q \<and> q < length data"
  by (auto simp: binary_count_def Let_def split: option.splits if_splits)

lemma read_plot_next:
  assumes "read_plot data pos = Inr p" "fp_next p = Some q"
  shows "pos < q \<and> q < length data"
proof -
  obtain st start bin where h: "read_header data pos start_head = Inr (st, start, bin)"
    using assms(1) by (auto simp: read_plot_def rbind_Inr_iff)
  have pos: "pos < start" by (rule read_header_pos [OF h])
  obtain n where n: "hs_nvars st = Some n" using assms(1) h by (cases "hs_nvars st") (simp_all add: read_plot_def)
  let ?r = "(hs_raw st)\<lparr>rd_binary := bin\<rparr>"
  show ?thesis
  proof (cases bin)
    case True
    then obtain pts where "read_binary data start (nat n) (rd_complex ?r) (rd_declared ?r) = (pts, Some q)"
      using assms h n by (auto simp: read_plot_def Let_def split: if_splits prod.splits)
    then obtain k where "binary_count data start (row_size (nat n) (rd_complex ?r)) (rd_declared ?r) = (k, Some q)"
      by (auto simp: read_binary_def Let_def split: prod.splits)
    from binary_count_next [OF this] show ?thesis using pos by simp
  next
    case False
    then obtain pts where "text_points data (rd_complex ?r) (nat n) [] (tokens_from data start) = Inr (pts, Some q)"
      using assms h n by (auto simp: read_plot_def Let_def rbind_Inr_iff split: if_splits)
    from text_points_next [OF this] obtain t where "(q, t) \<in> set (byte_tokens start (drop start data))"
      by (auto simp: tokens_from_def)
    from byte_tokens_pos [OF this] show ?thesis using pos by auto
  qed
qed

text \<open>\<open>_parse\<close>, \<open>read_all\<close> and \<open>read\<close>.\<close>

function read_plots :: "string \<Rightarrow> nat \<Rightarrow> raw_err + file_plot list" where
  "read_plots data pos =
     (case read_plot data pos of
        Inl e \<Rightarrow> Inl e
      | Inr p \<Rightarrow> (case fp_next p of
                    None \<Rightarrow> Inr [p]
                  | Some q \<Rightarrow> rbind (read_plots data q) (\<lambda>ps. Inr (p # ps))))"
  by pat_completeness auto
termination
proof (relation "measure (\<lambda>(data, pos). length data - pos)", goal_cases)
  case (2 data pos p q)
  then have "pos < q \<and> q < length data" by (intro read_plot_next [of data pos p q]) simp_all
  then show ?case by auto
qed simp

declare read_plots.simps [simp del]

definition read_raw_file :: "string \<Rightarrow> raw_err + file_plot list" where
  "read_raw_file data = (if byte_blank data then Inl EmptyFile else read_plots data 0)"

definition read_all :: "string \<Rightarrow> raw_err + raw_data list" where
  "read_all data = rbind (read_raw_file data) (\<lambda>ps. Inr (map fp_raw ps))"

definition read_first :: "string \<Rightarrow> raw_err + raw_data" where
  "read_first data = rbind (read_all data) (\<lambda>rs. Inr (hd rs))"

end
