(* ===== verification/RawScan.thy ===== *)
theory RawScan
  imports RawFile
begin

text \<open>
  The scanner of \<open>vamos/netlist/rawfile.py\<close>: \<open>scan\<close> with its parts, \<open>iter_rows\<close> and the repair of the
  point counts. It goes over the mapped file a second time with code of its own, so its header loop,
  its binary count and its walk over text points are definitions of their own.
\<close>

definition MAX_HEADER_LINE :: nat where "MAX_HEADER_LINE = 65536"

record scanned =
  sp_declared :: "int option"
  sp_n :: int
  sp_first :: "pyfloat option"
  sp_last :: "pyfloat option"
  sp_time_scale :: bool
  sp_field :: count_field
  sp_nvars_end :: "nat option"
  sp_next :: "nat option"

definition new_scanned :: scanned where
  "new_scanned = \<lparr>sp_declared = None, sp_n = 0, sp_first = None, sp_last = None, sp_time_scale = False,
     sp_field = None, sp_nvars_end = None, sp_next = None\<rparr>"

record raw_layout =
  ly_start :: nat
  ly_nvars :: nat
  ly_cplx :: bool
  ly_binary :: bool

section \<open>The header\<close>

text \<open>\<open>_header_line\<close>: the line at a position, refused when it is too long.\<close>

definition raw_line :: "string \<Rightarrow> nat \<Rightarrow> raw_err + string" where
  "raw_line data pos =
     (if line_end_at data pos - pos > MAX_HEADER_LINE then Inl (LongLine pos) else Inr (line_at data pos))"

lemma raw_line_code [code]:
  "raw_line data pos = (if int (line_end_at data pos - pos) > 65536 then Inl (LongLine pos) else Inr (line_at data pos))"
  by (simp add: raw_line_def MAX_HEADER_LINE_def)

function scan_lines :: "string \<Rightarrow> nat \<Rightarrow> int \<Rightarrow> string list \<Rightarrow> raw_err + (string list \<times> nat)" where
  "scan_lines data pos nvars lines =
     (if nvars \<le> int (length lines) then Inr (lines, pos)
      else if length data \<le> pos \<or> find_newline data pos = None then Inl VarsEnd
      else (case raw_line data pos of
              Inl e \<Rightarrow> Inl e
            | Inr line \<Rightarrow>
                scan_lines data (line_end_at data pos + 1) nvars (if py_strip line = [] then lines else lines @ [line])))"
  by pat_completeness auto
termination
  by (relation "measure (\<lambda>(data, pos, n, ls). length data - pos)")
    (auto intro: line_advance)

declare scan_lines.simps [simp del]

text \<open>The check of a line of the list is the reader's; of the first one the scanner keeps whether it is
  the time.\<close>

definition scan_variables :: "string \<Rightarrow> nat \<Rightarrow> int \<Rightarrow> string \<Rightarrow> raw_err + (nat \<times> bool)" where
  "scan_variables data pos nvars first =
     rbind (scan_lines data pos nvars (if first = [] then [] else [first])) (\<lambda>(lines, pos').
     rbind (rmap variable_of (zip [0..<length lines] lines)) (\<lambda>vs.
       Inr (pos', (case vs of [] \<Rightarrow> False | (n, t) # _ \<Rightarrow> py_lower n = ''time'' \<or> py_lower t = ''time''))))"

lemma scan_lines_pos: "scan_lines data pos nvars lines = Inr (ls, p) \<Longrightarrow> pos \<le> p"
proof (induction data pos nvars lines rule: scan_lines.induct)
  case (1 data pos nvars lines)
  show ?case
  proof (cases "nvars \<le> int (length lines)")
    case True
    then show ?thesis using "1.prems" by (simp add: scan_lines.simps [of data pos])
  next
    case False
    then have open_: "\<not> (length data \<le> pos \<or> find_newline data pos = None)"
      using "1.prems" by (auto simp: scan_lines.simps [of data pos] split: if_splits)
    then obtain line where l: "raw_line data pos = Inr line"
      using "1.prems" False by (cases "raw_line data pos") (auto simp: scan_lines.simps [of data pos] split: if_splits)
    have "pos \<le> line_end_at data pos" using open_ line_end_at_ge [of pos data] by simp
    moreover have "line_end_at data pos + 1 \<le> p"
      using "1.IH" [OF False open_ l] "1.prems" False open_ l by (simp add: scan_lines.simps [of data pos])
    ultimately show ?thesis by simp
  qed
qed

text \<open>The state of the header loop: the plot, and the local variables.\<close>

record scan_state =
  ss_plot :: scanned
  ss_nvars :: "int option"
  ss_cplx :: bool
  ss_listed :: bool

definition scan_head :: "string \<Rightarrow> nat \<Rightarrow> string \<Rightarrow> string \<Rightarrow> scan_state \<Rightarrow> raw_err + scan_state" where
  "scan_head data pos key v st =
     (let e = line_end_at data pos in
      if key = ''flags'' then
        (let fl = py_words (py_lower v); odd = filter (\<lambda>f. f \<notin> set LAYOUT_FLAGS) fl in
         if odd \<noteq> [] then Inl (OddFlags odd) else Inr (st\<lparr>ss_cplx := ''complex'' \<in> set fl\<rparr>))
      else if key = ''no. variables'' then
        (case py_int v of Inl _ \<Rightarrow> Inl (BadVarCount v)
         | Inr n \<Rightarrow> Inr (st\<lparr>ss_nvars := Some n, ss_plot := (ss_plot st)\<lparr>sp_nvars_end := Some (e + 1)\<rparr>\<rparr>))
      else if key = ''no. points'' then
        Inr (st\<lparr>ss_plot := (ss_plot st)\<lparr>sp_field := Some (points_field data pos (line_at data pos) e),
                                       sp_declared := count_of v\<rparr>\<rparr>)
      else Inr st)"

function scan_header :: "string \<Rightarrow> nat \<Rightarrow> scan_state \<Rightarrow> raw_err + (scan_state \<times> nat \<times> bool)" where
  "scan_header data pos st =
     (if length data \<le> pos then Inl NoSection
      else
        (case raw_line data pos of
           Inl err \<Rightarrow> Inl err
         | Inr line \<Rightarrow>
            (let e = line_end_at data pos in
             if py_strip line = [] then scan_header data (e + 1) st
             else (case header_match line of
                     None \<Rightarrow> Inl (NoHeaderLine (take 80 line))
                   | Some (key, v) \<Rightarrow>
                       if key = ''variables'' then
                         (case ss_nvars st of
                            None \<Rightarrow> Inl VarsFirst
                          | Some n \<Rightarrow>
                              (case scan_variables data (e + 1) n v of
                                 Inl err \<Rightarrow> Inl err
                               | Inr (p, tm) \<Rightarrow> scan_header data p
                                   (st\<lparr>ss_plot := (ss_plot st)\<lparr>sp_time_scale := tm\<rparr>, ss_listed := True\<rparr>)))
                       else if key = ''binary'' \<or> key = ''values'' then Inr (st, e + 1, key = ''binary'')
                       else (case scan_head data pos key v st of
                               Inl err \<Rightarrow> Inl err
                             | Inr st' \<Rightarrow> scan_header data (e + 1) st')))))"
  by pat_completeness auto
termination
proof (relation "measure (\<lambda>(data, pos, st). length data - pos)", goal_cases)
  case 1
  then show ?case by simp
next
  case (2 data pos st line e)
  then show ?case using line_advance by simp
next
  case (3 data pos st line e kv key v n r p tm)
  then have "e + 1 \<le> p"
    using scan_lines_pos by (fastforce simp: scan_variables_def Inr_rbind_iff rbind_Inr_iff)
  then show ?case using 3 line_advance by simp
next
  case (4 data pos st line e kv key v st')
  then show ?case using line_advance by simp
qed

declare scan_header.simps [simp del]

section \<open>The data\<close>

text \<open>\<open>_scan_binary\<close>: the room after the header is never negative here.\<close>

definition scan_binary :: "string \<Rightarrow> nat \<Rightarrow> nat \<Rightarrow> bool \<Rightarrow> scanned \<Rightarrow> scanned" where
  "scan_binary data start nvars cplx plot =
     (let row = row_size nvars cplx; avail = length data - start; counted = int (avail div row);
          (n, nxt) =
            (case sp_declared plot of
               None \<Rightarrow> (counted, None)
             | Some n \<Rightarrow>
                 if \<not> (0 \<le> n \<and> n * int row \<le> int avail) then (counted, None)
                 else
                   (let e = start + nat n * row in
                    if e < length data \<and> \<not> byte_blank (drop e data)
                    then (if plot_start data e then (n, Some e) else (counted, None))
                    else (n, None)));
          p = plot\<lparr>sp_n := n, sp_next := nxt\<rparr>
      in if n = 0 then p
         else p\<lparr>sp_first := Some (le_double (slice data start (start + 8))),
                sp_last := Some (le_double (slice data (start + (nat n - 1) * row) (start + (nat n - 1) * row + 8)))\<rparr>)"

text \<open>The values of a point are read and counted; the first is kept.\<close>

function count_values ::
  "bool \<Rightarrow> nat \<Rightarrow> int \<Rightarrow> nat \<Rightarrow> pyfloat option \<Rightarrow> (nat \<times> string) list \<Rightarrow>
   raw_err + (nat \<times> pyfloat option \<times> (nat \<times> string) list)"
where
  "count_values cplx nvars n got t0 toks =
     (case toks of
        [] \<Rightarrow> Inr (got, t0, [])
      | (p, t) # r \<Rightarrow>
          (case join_commas t r of (s, r') \<Rightarrow>
             (case raw_value_of cplx s of
                None \<Rightarrow> Inl (BadRawValue s (nat n))
              | Some v \<Rightarrow>
                  (let t0' = (if got = 0 then Some (real_part v) else t0) in
                   if got + 1 = nvars then Inr (got + 1, t0', r')
                   else count_values cplx nvars n (got + 1) t0' r'))))"
  by pat_completeness auto
termination
  by (relation "measure (\<lambda>(c, v, n, g, t, ts). length ts)") (auto dest!: join_commas_length [OF sym])

declare count_values.simps [simp del]

lemma count_values_simps:
  "count_values cplx nvars n got t0 [] = Inr (got, t0, [])"
  "count_values cplx nvars n got t0 ((p, t) # ts) =
     (case raw_value_of cplx (fst (join_commas t ts)) of
        None \<Rightarrow> Inl (BadRawValue (fst (join_commas t ts)) (nat n))
      | Some v \<Rightarrow>
          (let t0' = (if got = 0 then Some (real_part v) else t0) in
           if got + 1 = nvars then Inr (got + 1, t0', snd (join_commas t ts))
           else count_values cplx nvars n (got + 1) t0' (snd (join_commas t ts))))"
  by (simp_all add: count_values.simps [of cplx nvars n got t0] case_prod_beta)

lemma count_values_rest:
  "count_values cplx nvars n got t0 toks = Inr (g, t, r) \<Longrightarrow> length r \<le> length toks \<and> set r \<subseteq> set toks"
proof (induction toks arbitrary: got t0 rule: token_induct)
  case (Cons p t' ts)
  let ?j = "join_commas t' ts"
  obtain v where v: "raw_value_of cplx (fst ?j) = Some v"
    using Cons.prems by (cases "raw_value_of cplx (fst ?j)") (simp_all add: count_values_simps)
  let ?t = "if got = 0 then Some (real_part v) else t0"
  show ?case
  proof (cases "got + 1 = nvars")
    case True
    then show ?thesis using Cons.prems v join_commas_rest [of t' ts] by (auto simp: count_values_simps Let_def)
  next
    case False
    then have "count_values cplx nvars n (got + 1) ?t (snd ?j) = Inr (g, t, r)"
      using Cons.prems v by (simp add: count_values_simps Let_def)
    from Cons.IH [OF join_commas_rest(1) this] show ?thesis using join_commas_rest [of t' ts] by auto
  qed
qed (simp add: count_values_simps)

text \<open>\<open>_count_points\<close>.\<close>

definition add_count :: "pyfloat option \<Rightarrow> scanned \<Rightarrow> scanned" where
  "add_count t0 plot = plot\<lparr>sp_n := sp_n plot + 1,
     sp_first := (if sp_first plot = None then t0 else sp_first plot), sp_last := t0\<rparr>"

function count_points ::
  "string \<Rightarrow> bool \<Rightarrow> nat \<Rightarrow> scanned \<Rightarrow> (nat \<times> string) list \<Rightarrow> raw_err + scanned"
where
  "count_points data cplx nvars plot toks =
     (case toks of
        [] \<Rightarrow> Inr plot
      | (p, t) # r \<Rightarrow>
          if \<not> all_digits t then
            (if plot_start data p then Inr (plot\<lparr>sp_next := Some p\<rparr>) else Inl (ExpectedIndex p (take 40 t)))
          else (case count_values cplx nvars (sp_n plot) 0 None r of
                  Inl e \<Rightarrow> Inl e
                | Inr (got, t0, r') \<Rightarrow>
                    if got < nvars then Inr plot
                    else count_points data cplx nvars
                      (add_count t0 plot) r'))"
  by pat_completeness auto
termination
  by (relation "measure (\<lambda>(d, c, v, p, ts). length ts)") (auto dest!: count_values_rest count_values_rest [OF sym])

declare count_points.simps [simp del]

text \<open>\<open>_scan_header\<close> with its last check, and \<open>_scan_plot\<close>.\<close>

definition start_scan :: scan_state where
  "start_scan = \<lparr>ss_plot = new_scanned, ss_nvars = None, ss_cplx = False, ss_listed = False\<rparr>"

definition scan_layout :: "string \<Rightarrow> nat \<Rightarrow> raw_err + (scanned \<times> raw_layout)" where
  "scan_layout data pos =
     rbind (scan_header data pos start_scan) (\<lambda>(st, start, bin).
       case ss_nvars st of
         None \<Rightarrow> Inl VarMismatch
       | Some n \<Rightarrow>
           if n < 1 \<or> \<not> ss_listed st then Inl VarMismatch
           else Inr (ss_plot st, \<lparr>ly_start = start, ly_nvars = nat n, ly_cplx = ss_cplx st, ly_binary = bin\<rparr>))"

definition scan_plot :: "string \<Rightarrow> nat \<Rightarrow> raw_err + scanned" where
  "scan_plot data pos =
     rbind (scan_layout data pos) (\<lambda>(plot, ly).
       if ly_binary ly then Inr (scan_binary data (ly_start ly) (ly_nvars ly) (ly_cplx ly) plot)
       else count_points data (ly_cplx ly) (ly_nvars ly) plot (tokens_from data (ly_start ly)))"

text \<open>A scanned plot ends after it began.\<close>

lemma raw_line_at: "raw_line data pos = Inr line \<Longrightarrow> line = line_at data pos"
  by (simp add: raw_line_def split: if_splits)

lemma scan_head_next: "scan_head data pos key v st = Inr st' \<Longrightarrow> sp_next (ss_plot st') = sp_next (ss_plot st)"
  by (auto simp: scan_head_def Let_def split: if_splits sum.splits)

lemma scan_header_moves:
  "scan_header data pos st = Inr (st', p, b) \<Longrightarrow> pos < p \<and> sp_next (ss_plot st') = sp_next (ss_plot st)"
proof (induction data pos st rule: scan_header.induct)
  case (1 data pos st)
  have len: "pos < length data"
  proof (rule ccontr)
    assume "\<not> pos < length data"
    then show False using "1.prems" by (simp add: scan_header.simps [of data pos])
  qed
  then have e: "pos \<le> line_end_at data pos" using line_end_at_ge [of pos data] by simp
  obtain line where l: "raw_line data pos = Inr line"
    using "1.prems" len by (cases "raw_line data pos") (simp_all add: scan_header.simps [of data pos])
  have open_: "\<not> length data \<le> pos" using len by simp
  show ?case
  proof (cases "py_strip line = []")
    case True
    then have "scan_header data (line_end_at data pos + 1) st = Inr (st', p, b)"
      using "1.prems" len l by (simp add: scan_header.simps [of data pos] Let_def)
    from "1.IH"(1) [OF open_ l refl True this] show ?thesis using e by simp
  next
    case False
    note step = "1.prems" [unfolded scan_header.simps [of data pos] Let_def]
    obtain key v where kv: "header_match line = Some (key, v)"
      using step len l False by (auto split: option.splits)
    consider (vars) "key = ''variables''" | (mark) "key = ''binary'' \<or> key = ''values''"
      | (other) "key \<noteq> ''variables''" "\<not> (key = ''binary'' \<or> key = ''values'')" by blast
    then show ?thesis
    proof cases
      case vars
      then obtain n q tm where q: "ss_nvars st = Some n" "scan_variables data (line_end_at data pos + 1) n v = Inr (q, tm)"
        using step len l False kv by (auto split: option.splits sum.splits)
      then have "scan_header data q (st\<lparr>ss_plot := (ss_plot st)\<lparr>sp_time_scale := tm\<rparr>, ss_listed := True\<rparr>) = Inr (st', p, b)"
        using step len l False kv vars by simp
      from "1.IH"(2) [OF open_ l refl False kv refl vars q refl this] have "q < p \<and> sp_next (ss_plot st') = sp_next (ss_plot st)" by simp
      moreover have "line_end_at data pos + 1 \<le> q"
        using q(2) scan_lines_pos by (fastforce simp: scan_variables_def rbind_Inr_iff)
      ultimately show ?thesis using e by simp
    next
      case mark
      then have "p = line_end_at data pos + 1 \<and> st' = st" using step len l False kv by auto
      then show ?thesis using e by simp
    next
      case other
      then obtain st1 where s1: "scan_head data pos key v st = Inr st1"
        using step len l False kv by (auto split: sum.splits)
      then have "scan_header data (line_end_at data pos + 1) st1 = Inr (st', p, b)"
        using step len l False kv other by simp
      from "1.IH"(3) [OF open_ l refl False kv refl other s1 this] show ?thesis
        using e scan_head_next [OF s1] by simp
    qed
  qed
qed

lemma count_points_simps:
  "count_points data cplx nvars plot [] = Inr plot"
  "count_points data cplx nvars plot ((p, t) # r) =
     (if \<not> all_digits t then
        (if plot_start data p then Inr (plot\<lparr>sp_next := Some p\<rparr>) else Inl (ExpectedIndex p (take 40 t)))
      else (case count_values cplx nvars (sp_n plot) 0 None r of
              Inl e \<Rightarrow> Inl e
            | Inr (got, t0, r') \<Rightarrow>
                if got < nvars then Inr plot
                else count_points data cplx nvars
                  (add_count t0 plot) r'))"
  by (simp_all add: count_points.simps [of data cplx nvars plot])

lemma count_points_next:
  "count_points data cplx nvars plot toks = Inr p' \<Longrightarrow> sp_next plot = None \<Longrightarrow> sp_next p' = Some q \<Longrightarrow>
     q \<in> fst ` set toks"
proof (induction toks arbitrary: plot rule: token_induct)
  case (Cons p t ts)
  show ?case
  proof (cases "all_digits t")
    case True
    obtain got t0 r where v: "count_values cplx nvars (sp_n plot) 0 None ts = Inr (got, t0, r)"
      using Cons.prems True by (auto simp: count_points_simps split: sum.splits)
    then have "count_points data cplx nvars (add_count t0 plot) r = Inr p'"
      using Cons.prems True by (simp add: count_points_simps split: if_splits)
    from Cons.IH [OF _ this] show ?thesis using count_values_rest [OF v] Cons.prems by (auto simp: add_count_def)
  next
    case False
    then show ?thesis using Cons.prems by (auto simp: count_points_simps split: if_splits)
  qed
qed (simp add: count_points_simps)

lemma scan_plot_next:
  assumes "scan_plot data pos = Inr p" "sp_next p = Some q"
  shows "pos < q \<and> q < length data"
proof -
  obtain st start bin where h: "scan_header data pos start_scan = Inr (st, start, bin)"
    using assms(1) by (auto simp: scan_plot_def scan_layout_def rbind_Inr_iff)
  have pos: "pos < start" and none: "sp_next (ss_plot st) = None"
    using scan_header_moves [OF h] by (simp_all add: start_scan_def new_scanned_def)
  obtain n where n: "ss_nvars st = Some n"
    using assms(1) h by (cases "ss_nvars st") (simp_all add: scan_plot_def scan_layout_def)
  show ?thesis
  proof (cases bin)
    case True
    then have "p = scan_binary data start (nat n) (ss_cplx st) (ss_plot st)"
      using assms h n by (auto simp: scan_plot_def scan_layout_def split: if_splits)
    then have "start \<le> q \<and> q < length data"
      using assms(2) none by (auto simp: scan_binary_def Let_def split: if_splits option.splits)
    then show ?thesis using pos by simp
  next
    case False
    then have "count_points data (ss_cplx st) (nat n) (ss_plot st) (tokens_from data start) = Inr p"
      using assms h n by (auto simp: scan_plot_def scan_layout_def rbind_Inr_iff split: if_splits)
    from count_points_next [OF this none assms(2)] obtain t where "(q, t) \<in> set (byte_tokens start (drop start data))"
      by (auto simp: tokens_from_def)
    from byte_tokens_pos [OF this] show ?thesis using pos by auto
  qed
qed

text \<open>\<open>scan\<close>.\<close>

function scan_plots :: "string \<Rightarrow> nat \<Rightarrow> raw_err + scanned list" where
  "scan_plots data pos =
     (case scan_plot data pos of
        Inl e \<Rightarrow> Inl e
      | Inr p \<Rightarrow> (case sp_next p of
                    None \<Rightarrow> Inr [p]
                  | Some q \<Rightarrow> rbind (scan_plots data q) (\<lambda>ps. Inr (p # ps))))"
  by pat_completeness auto
termination
proof (relation "measure (\<lambda>(data, pos). length data - pos)", goal_cases)
  case (2 data pos p q)
  then have "pos < q \<and> q < length data" by (intro scan_plot_next [of data pos p q]) simp_all
  then show ?case by auto
qed simp

declare scan_plots.simps [simp del]

definition scan_file :: "string \<Rightarrow> raw_err + scanned list" where
  "scan_file data = (if byte_blank data then Inl EmptyFile else scan_plots data 0)"

section \<open>Rows\<close>

text \<open>What a generator gives: the rows it yields, and the error that ends it.\<close>

type_synonym row_gen = "raw_value list list \<times> raw_err option"

definition pick :: "nat list \<Rightarrow> 'a list \<Rightarrow> 'a list" where
  "pick cols vals = map (\<lambda>c. vals ! c) cols"

definition binary_row :: "string \<Rightarrow> raw_layout \<Rightarrow> nat list \<Rightarrow> nat \<Rightarrow> raw_value list" where
  "binary_row data ly cols i =
     (let size = row_size (ly_nvars ly) (ly_cplx ly);
          vals = map le_double (chunks 8 (slice data (ly_start ly + i * size) (ly_start ly + i * size + size)))
      in if ly_cplx ly then map (\<lambda>c. Cv (vals ! (2 * c)) (vals ! (2 * c + 1))) cols else map (\<lambda>c. Rv (vals ! c)) cols)"

definition binary_rows :: "string \<Rightarrow> scanned \<Rightarrow> raw_layout \<Rightarrow> nat list \<Rightarrow> nat \<Rightarrow> row_gen" where
  "binary_rows data plot ly cols first =
     (let p = scan_binary data (ly_start ly) (ly_nvars ly) (ly_cplx ly) plot in
      (map (binary_row data ly cols) [first..<nat (sp_n p)], None))"

text \<open>\<open>_ascii_rows\<close>: \<open>n\<close> rows have been read.\<close>

function text_rows ::
  "string \<Rightarrow> bool \<Rightarrow> nat \<Rightarrow> nat list \<Rightarrow> nat \<Rightarrow> nat \<Rightarrow> (nat \<times> string) list \<Rightarrow> row_gen"
where
  "text_rows data cplx nvars cols first n toks =
     (case toks of
        [] \<Rightarrow> ([], None)
      | (p, t) # r \<Rightarrow>
          if \<not> all_digits t then
            (if plot_start data p then ([], None) else ([], Some (ExpectedIndex p (take 40 t))))
          else (case point_values cplx nvars n [] r of
                  Inl e \<Rightarrow> ([], Some e)
                | Inr (vs, r') \<Rightarrow>
                    if length vs < nvars then ([], None)
                    else (case text_rows data cplx nvars cols first (n + 1) r' of
                            (rows, e) \<Rightarrow> ((if first < n + 1 then [pick cols vs] else []) @ rows, e))))"
  by pat_completeness auto
termination
  by (relation "measure (\<lambda>(d, c, v, cs, f, n, ts). length ts)") (auto dest!: point_values_length point_values_length [OF sym])

declare text_rows.simps [simp del]

text \<open>The position of plot number \<open>k\<close>: the plots before it are scanned.\<close>

fun skip_plots :: "string \<Rightarrow> nat \<Rightarrow> nat \<Rightarrow> nat \<Rightarrow> raw_err + nat" where
  "skip_plots data plot pos 0 = Inr pos"
| "skip_plots data plot pos (Suc k) =
     rbind (scan_plot data pos) (\<lambda>b. case sp_next b of
        None \<Rightarrow> Inl (NoPlot plot (plot - k))
      | Some q \<Rightarrow> skip_plots data plot q k)"

definition iter_rows :: "string \<Rightarrow> nat \<Rightarrow> int list \<Rightarrow> int option \<Rightarrow> int \<Rightarrow> row_gen" where
  "iter_rows data plot cols start first =
     (if byte_blank data then ([], Some EmptyFile)
      else
        (case (case start of
                 None \<Rightarrow> skip_plots data plot 0 plot
               | Some p \<Rightarrow> if \<not> (0 \<le> p \<and> p < int (length data)) then Inl (NoPlotByte plot p (length data)) else Inr (nat p)) of
           Inl e \<Rightarrow> ([], Some e)
         | Inr pos \<Rightarrow>
             (case scan_layout data pos of
                Inl e \<Rightarrow> ([], Some e)
              | Inr (head, ly) \<Rightarrow>
                  (case filter (\<lambda>c. \<not> (0 \<le> c \<and> c < int (ly_nvars ly))) cols of
                     c # _ \<Rightarrow> ([], Some (NoColumn plot c (ly_nvars ly)))
                   | [] \<Rightarrow>
                       if ly_binary ly then binary_rows data head ly (map nat cols) (nat first)
                       else text_rows data (ly_cplx ly) (ly_nvars ly) (map nat cols) (nat first) 0
                              (tokens_from data (ly_start ly))))))"

section \<open>Repair\<close>

text \<open>An edit: the bytes from a position to another are replaced.\<close>

type_synonym edit = "nat \<times> nat \<times> string"

definition count_edit :: "scanned \<Rightarrow> edit option" where
  "count_edit p =
     (let digits = show_int (sp_n p) in
      case sp_field p of
        None \<Rightarrow> (case sp_nvars_end p of Some e \<Rightarrow> Some (e, e, ''No. Points: '' @ digits @ [newline]) | None \<Rightarrow> None)
      | Some (a, b, spaced) \<Rightarrow>
          if sp_declared p = Some (sp_n p) then None
          else if length digits \<le> b - a then Some (a, b, digits @ replicate (b - a - length digits) CHR '' '')
          else Some (a, b, (if spaced then digits else CHR '' '' # digits)))"

definition edits_of :: "scanned list \<Rightarrow> edit list" where
  "edits_of ps = List.map_filter count_edit ps"

definition edit_key :: "edit \<Rightarrow> nat list" where
  "edit_key = (\<lambda>(s, e, rep). s # e # map of_char rep)"

text \<open>In place: \<open>seek\<close> and \<open>write\<close>, one edit after the other.\<close>

definition write_at :: "edit \<Rightarrow> string \<Rightarrow> string" where
  "write_at = (\<lambda>(s, e, rep) data. take s data @ rep @ drop (s + length rep) data)"

text \<open>The rewrite: the parts between the edits, in the order of their positions.\<close>

fun rewrite_from :: "string \<Rightarrow> nat \<Rightarrow> edit list \<Rightarrow> string" where
  "rewrite_from data prev [] = drop prev data"
| "rewrite_from data prev ((s, e, rep) # es) = slice data prev s @ rep @ rewrite_from data e es"

definition in_place :: "edit list \<Rightarrow> bool" where
  "in_place es \<longleftrightarrow> list_all (\<lambda>(s, e, rep). length rep = e - s) es"

text \<open>Whether the file changed, and its bytes.\<close>

definition fix_scanned :: "string \<Rightarrow> scanned list \<Rightarrow> bool \<times> string" where
  "fix_scanned data ps =
     (let es = edits_of ps in
      if es = [] then (False, data)
      else if in_place es then (True, fold write_at es data)
      else (True, rewrite_from data 0 (sort_key edit_key es)))"

definition fix_points :: "string \<Rightarrow> raw_err + (bool \<times> string)" where
  "fix_points data = rbind (scan_file data) (\<lambda>ps. Inr (fix_scanned data ps))"

end
