(* ===== verification/RawLook.thy ===== *)
theory RawLook
  imports RawFile
begin

text \<open>
  The look-ups of a plot (the methods of \<open>Raw\<close> in \<open>vamos/netlist/rawfile.py\<close>) and the tables of
  Xyce's \<open>.PRINT\<close> (\<open>read_prn\<close>). Interpolation and crossings are modelled for real columns.
\<close>

section \<open>Names\<close>

text \<open>The first of a list that a test accepts, with its index.\<close>

definition first_index :: "('a \<Rightarrow> bool) \<Rightarrow> 'a list \<Rightarrow> nat option" where
  "first_index P xs = List.find (\<lambda>k. P (xs ! k)) [0..<length xs]"

definition indices :: "('a \<Rightarrow> bool) \<Rightarrow> 'a list \<Rightarrow> nat list" where
  "indices P xs = filter (\<lambda>k. P (xs ! k)) [0..<length xs]"

definition exact_index :: "raw_data \<Rightarrow> string \<Rightarrow> raw_err + nat" where
  "exact_index r name =
     (case first_index (\<lambda>v. fst v = name) (rd_variables r) of Some k \<Rightarrow> Inr k | None \<Rightarrow> Inl (NoExact name))"

text \<open>\<open>_ACCESS\<close>: v or i, and what is between the first parenthesis and the last one, at the end.\<close>

definition access_of :: "string \<Rightarrow> (char \<times> string) option" where
  "access_of s = (case s of
     c # d # r \<Rightarrow>
       if (c = CHR ''v'' \<or> c = CHR ''i'') \<and> d = CHR ''('' \<and> r \<noteq> [] \<and> List.last r = CHR '')'' \<and> newline \<notin> set (butlast r)
       then Some (c, butlast r) else None
   | _ \<Rightarrow> None)"

definition colons :: "string \<Rightarrow> string" where
  "colons s = map (\<lambda>c. if c = CHR ''.'' then CHR '':'' else c) s"

definition FLOW :: string where "FLOW = '':flow(br)''"

definition ends_with :: "string \<Rightarrow> string \<Rightarrow> bool" where
  "ends_with s t \<longleftrightarrow> length t \<le> length s \<and> drop (length s - length t) s = t"

text \<open>\<open>_key\<close>: the kind (v, i or none) and the node.\<close>

definition key_of :: "string \<Rightarrow> string \<Rightarrow> string \<times> string" where
  "key_of name typ =
     (case access_of name of
        Some (c, inner) \<Rightarrow> ([c], colons (filter (\<lambda>x. x \<noteq> CHR '' '') inner))
      | None \<Rightarrow>
          if ends_with name FLOW then (''i'', colons (take (length name - length FLOW) name))
          else if name = ''time'' \<or> name = ''frequency'' \<or> py_lower typ = ''time'' \<or> py_lower typ = ''frequency''
          then ([], name)
          else (''v'', colons name))"

text \<open>\<open>s.rpartition(c)\<close> without the separator: what is before its last occurrence, and after it.\<close>

definition split_last :: "char \<Rightarrow> string \<Rightarrow> string \<times> string" where
  "split_last c s = (let t = rev (takeWhile (\<lambda>x. x \<noteq> c) (rev s)) in (take (length s - length t - 1) s, t))"

definition keys_of :: "string \<Rightarrow> string \<Rightarrow> (string \<times> string) list" where
  "keys_of name typ =
     (let own = key_of name typ; (kind, inner) = own; (head, lst) = split_last CHR '':'' inner in
      [own] @
      (if ends_with name ''.i'' \<and> 2 < length name then [(''i'', colons (take (length name - 2) name))] else []) @
      (if kind = ''i'' \<and> 1 < length lst \<and> hd lst = CHR ''b''
       then [(''i'', (if head \<noteq> [] then head @ '':'' else []) @ drop 1 lst)] else []))"

definition find_index :: "raw_data \<Rightarrow> string \<Rightarrow> raw_err + nat" where
  "find_index r name =
     (let low = py_lower (py_strip name) in
      case indices (\<lambda>v. py_lower (fst v) = low) (rd_variables r) of
        [k] \<Rightarrow> Inr k
      | _ \<Rightarrow>
          (case indices (\<lambda>v. key_of low [] \<in> set (keys_of (py_lower (fst v)) (snd v))) (rd_variables r) of
             [k] \<Rightarrow> Inr k
           | [] \<Rightarrow> Inl (NoVariable name)
           | ks \<Rightarrow> Inl (ManyVariables name (map (\<lambda>k. fst (rd_variables r ! k)) ks))))"

section \<open>Columns\<close>

definition column_at :: "raw_data \<Rightarrow> nat \<Rightarrow> raw_value list" where
  "column_at r k = map (\<lambda>p. p ! k) (rd_points r)"

fun value_sub :: "raw_value \<Rightarrow> raw_value \<Rightarrow> raw_value" where
  "value_sub (Rv x) (Rv y) = Rv (fsub x y)"
| "value_sub (Cv x x') (Cv y y') = Cv (fsub x y) (fsub x' y')"
| "value_sub (Cv x x') (Rv y) = Cv (fsub x y) (fsub x' f0)"
| "value_sub (Rv x) (Cv y y') = Cv (fsub x y) (fsub f0 y')"

text \<open>\<open>column\<close>: a column, or \<open>v(a,b)\<close> as a difference. The nodes of a difference have no comma, so the
  look-ups it makes are of one column.\<close>

definition plain_column :: "raw_data \<Rightarrow> string \<Rightarrow> raw_err + raw_value list" where
  "plain_column r name = rbind (find_index r name) (\<lambda>k. Inr (column_at r k))"

definition column :: "raw_data \<Rightarrow> string \<Rightarrow> raw_err + raw_value list" where
  "column r name =
     (case find_index r name of
        Inr k \<Rightarrow> Inr (column_at r k)
      | Inl e \<Rightarrow>
          (case (case access_of (py_lower (py_strip name)) of
                   Some (c, inner) \<Rightarrow> if c = CHR ''v'' then py_split CHR '','' inner else []
                 | None \<Rightarrow> []) of
             [a, b] \<Rightarrow>
               rbind (plain_column r (''v('' @ py_strip a @ '')'')) (\<lambda>ca.
               rbind (if py_strip b = ''0'' then Inr (replicate (length ca) (Rv f0))
                      else plain_column r (''v('' @ py_strip b @ '')'')) (\<lambda>cb.
                 Inr (map (\<lambda>(x, y). value_sub x y) (zip ca cb))))
           | _ \<Rightarrow> Inl e))"

definition time_of :: "raw_data \<Rightarrow> raw_err + pyfloat list" where
  "time_of r =
     (case rd_variables r of
        (n, t) # _ \<Rightarrow>
          if py_lower n = ''time'' \<or> py_lower t = ''time'' then Inr (map real_part (column_at r 0))
          else Inl (NoTimeScale (rd_plotname r))
      | [] \<Rightarrow> Inl (NoTimeScale (rd_plotname r)))"

definition last_time :: "raw_data \<Rightarrow> raw_err + pyfloat option" where
  "last_time r = rbind (time_of r) (\<lambda>t. Inr (if t = [] then None else Some (List.last t)))"

section \<open>Interpolation and crossings\<close>

text \<open>The bisection of \<open>at\<close>: the last point at or before the time, with its successor.\<close>

function bisect :: "pyfloat list \<Rightarrow> pyfloat \<Rightarrow> nat \<Rightarrow> nat \<Rightarrow> nat \<times> nat" where
  "bisect ts t lo hi =
     (if hi \<le> lo + 1 then (lo, hi)
      else (let mid = (lo + hi) div 2 in if fle (ts ! mid) t then bisect ts t mid hi else bisect ts t lo mid))"
  by pat_completeness auto
termination
  by (relation "measure (\<lambda>(ts, t, lo, hi). hi - lo)") auto

declare bisect.simps [simp del]

definition interpolate :: "pyfloat list \<Rightarrow> pyfloat list \<Rightarrow> pyfloat \<Rightarrow> nat \<times> nat \<Rightarrow> pyfloat" where
  "interpolate ts ys t = (\<lambda>(lo, hi).
     if fle (ts ! hi) t then ys ! hi
     else if feq (ts ! hi) (ts ! lo) then ys ! lo
     else fadd (ys ! lo) (fdiv (fmul (fsub (ys ! hi) (ys ! lo)) (fsub t (ts ! lo))) (fsub (ts ! hi) (ts ! lo))))"

definition value_at :: "pyfloat list \<Rightarrow> pyfloat list \<Rightarrow> pyfloat \<Rightarrow> raw_err + pyfloat" where
  "value_at ts ys t =
     (if ts = [] then Inl (OutsideRun t None)
      else if flt t (hd ts) \<or> flt (List.last ts) t then Inl (OutsideRun t (Some (hd ts, List.last ts)))
      else Inr (interpolate ts ys t (bisect ts t 0 (length ts - 1))))"

text \<open>\<open>at\<close>, of a plot of real values.\<close>

definition at_time :: "raw_data \<Rightarrow> string \<Rightarrow> pyfloat \<Rightarrow> raw_err + pyfloat" where
  "at_time r name t =
     rbind (time_of r) (\<lambda>ts. rbind (column r name) (\<lambda>ys. value_at ts (map real_part ys) t))"

definition crosses :: "int \<Rightarrow> pyfloat \<Rightarrow> pyfloat \<Rightarrow> bool" where
  "crosses direction a b \<longleftrightarrow>
     (flt a f0 \<and> fle f0 b \<and> 0 \<le> direction) \<or> (flt f0 a \<and> fle b f0 \<and> direction \<le> 0)"

definition crossing_times :: "pyfloat list \<Rightarrow> pyfloat list \<Rightarrow> pyfloat \<Rightarrow> int \<Rightarrow> pyfloat list" where
  "crossing_times ts ys lvl direction =
     List.map_filter (\<lambda>k. let a = fsub (ys ! (k - 1)) lvl; b = fsub (ys ! k) lvl in
         if crosses direction a b
         then Some (fadd (ts ! (k - 1)) (fdiv (fmul (fsub (ts ! k) (ts ! (k - 1))) a) (fsub a b)))
         else None) [1..<length ts]"

definition crossings :: "raw_data \<Rightarrow> string \<Rightarrow> pyfloat \<Rightarrow> int \<Rightarrow> raw_err + pyfloat list" where
  "crossings r name lvl direction =
     rbind (time_of r) (\<lambda>ts. rbind (column r name) (\<lambda>ys. Inr (crossing_times ts (map real_part ys) lvl direction)))"

section \<open>Xyce tables\<close>

definition prn_type :: "string \<Rightarrow> string" where
  "prn_type name = (let n = py_lower name in
     if n = ''time'' then ''time'' else if n = ''freq'' \<or> n = ''frequency'' then ''frequency'' else [])"

definition prn_end :: "string \<Rightarrow> bool" where
  "prn_end s \<longleftrightarrow> py_startswith (py_lower s) ''end of xyce(tm)''"

text \<open>A row: its index and its values.\<close>

definition prn_row :: "nat \<Rightarrow> string \<Rightarrow> nat \<Rightarrow> raw_err + (int \<times> pyfloat list)" where
  "prn_row lineno line width =
     (let fields = py_words line in
      if length fields \<noteq> width then Inl (RowFields lineno (length fields) width)
      else (case (py_int (hd fields), those (map py_float (tl fields))) of
              (Inr i, Some vs) \<Rightarrow> Inr (i, vs)
            | _ \<Rightarrow> Inl (BadRow lineno (take 80 (py_strip line)))))"

record prn_state =
  pn_header :: "string list option"
  pn_plots :: "raw_value list list list"
  pn_prev :: "int option"

text \<open>A table begins at the first row and where the index does not grow.\<close>

definition add_row :: "int \<times> pyfloat list \<Rightarrow> prn_state \<Rightarrow> prn_state" where
  "add_row = (\<lambda>(i, vs) st.
     let new = (case pn_prev st of None \<Rightarrow> True | Some j \<Rightarrow> i \<le> j);
         ps = (if new then pn_plots st @ [[]] else pn_plots st)
     in st\<lparr>pn_plots := butlast ps @ [List.last ps @ [map Rv vs]], pn_prev := Some i\<rparr>)"

fun prn_lines :: "(nat \<times> string) list \<Rightarrow> prn_state \<Rightarrow> raw_err + prn_state" where
  "prn_lines [] st = Inr st"
| "prn_lines ((k, line) # r) st =
     (let t = py_strip line in
      if t = [] then prn_lines r st
      else if prn_end t then Inr st
      else (case pn_header st of
              None \<Rightarrow>
                if py_lower (hd (py_words line)) \<noteq> ''index'' then Inl (NotTable k (take 80 t))
                else prn_lines r (st\<lparr>pn_header := Some (py_words line)\<rparr>)
            | Some h \<Rightarrow> rbind (prn_row k line (length h)) (\<lambda>row. prn_lines r (add_row row st))))"

definition prn_plot :: "string list \<Rightarrow> nat \<Rightarrow> raw_value list list \<Rightarrow> raw_data" where
  "prn_plot h k pts = new_raw\<lparr>rd_plotname := ''Xyce .PRINT table '' @ show_int (int k), rd_flags := [''real''],
     rd_binary := False, rd_variables := map (\<lambda>n. (n, prn_type n)) (drop 1 h), rd_points := pts,
     rd_declared := Some (int (length pts))\<rparr>"

definition read_prn :: "string \<Rightarrow> raw_err + raw_data list" where
  "read_prn data =
     (let lines = split_lines (raw_text data) in
      rbind (prn_lines (zip [1..<Suc (length lines)] lines) \<lparr>pn_header = None, pn_plots = [], pn_prev = None\<rparr>) (\<lambda>st.
        case pn_header st of
          None \<Rightarrow> Inl NoTable
        | Some h \<Rightarrow> (let ps = (if pn_plots st = [] then [[]] else pn_plots st) in
                     Inr (map (\<lambda>(k, p). prn_plot h k p) (zip [1..<Suc (length ps)] ps)))))"

end
