(* ===== verification/RawSim.thy ===== *)
theory RawSim
  imports RawScan RawLook
begin

text \<open>
  The scanner of rawfiles against the reader: the header loops agree on the state they share, the
  counts and the walks over the data agree with the points that are read.
\<close>

section \<open>Headers\<close>

text \<open>What the two header loops share. Nothing but the header is known of the scanned plot yet.\<close>

definition heads_agree :: "head_state \<Rightarrow> scan_state \<Rightarrow> bool" where
  "heads_agree st ss \<longleftrightarrow>
     hs_nvars st = ss_nvars ss \<and> hs_field st = sp_field (ss_plot ss) \<and>
     hs_nvars_end st = sp_nvars_end (ss_plot ss) \<and> rd_declared (hs_raw st) = sp_declared (ss_plot ss) \<and>
     rd_complex (hs_raw st) = ss_cplx ss \<and> (ss_listed ss \<or> rd_variables (hs_raw st) = []) \<and>
     sp_n (ss_plot ss) = 0 \<and> sp_first (ss_plot ss) = None \<and> sp_last (ss_plot ss) = None \<and>
     sp_next (ss_plot ss) = None"

fun is_long :: "raw_err \<Rightarrow> bool" where
  "is_long (LongLine p) = True"
| "is_long _ = False"

lemma raw_line_long: "raw_line data pos = Inl e \<Longrightarrow> is_long e"
  by (auto simp: raw_line_def split: if_splits)

lemma lines_agree:
  "(\<exists>e. scan_lines data pos n ls = Inl e \<and> is_long e) \<or> scan_lines data pos n ls = variable_lines data pos n ls"
proof (induction data pos n ls rule: scan_lines.induct)
  case (1 data pos n ls)
  show ?case
  proof (cases "n \<le> int (length ls)")
    case True
    then show ?thesis by (simp add: scan_lines.simps [of data pos] variable_lines.simps [of data pos])
  next
    case False
    show ?thesis
    proof (cases "length data \<le> pos \<or> find_newline data pos = None")
      case True
      then have "find_newline data pos = None" by (auto simp: find_newline_def)
      then show ?thesis using False by (simp add: scan_lines.simps [of data pos] variable_lines.simps [of data pos])
    next
      case open_: False
      then obtain e where e: "find_newline data pos = Some e" by auto
      then have le: "line_end_at data pos = e" by (simp add: line_end_at_def)
      show ?thesis
      proof (cases "raw_line data pos")
        case (Inl err)
        then show ?thesis using False open_ raw_line_long by (auto simp: scan_lines.simps [of data pos])
      next
        case (Inr line)
        let ?ls = "if py_strip line = [] then ls else ls @ [line]"
        have "scan_lines data pos n ls = scan_lines data (line_end_at data pos + 1) n ?ls"
          using False open_ Inr e by (simp add: scan_lines.simps [of data pos])
        moreover have "variable_lines data pos n ls = variable_lines data (line_end_at data pos + 1) n ?ls"
          using False e le raw_line_at [OF Inr] by (simp add: variable_lines.simps [of data pos] Let_def)
        ultimately show ?thesis using "1.IH" [OF False open_ Inr] by simp
      qed
    qed
  qed
qed

lemma variables_agree:
  "case scan_variables data pos n v of
     Inl e \<Rightarrow> is_long e \<or> read_variables data pos n v = Inl e
   | Inr (p, tm) \<Rightarrow> \<exists>vs. read_variables data pos n v = Inr (vs, p)"
proof -
  let ?ls = "if v = [] then [] else [v]"
  note la = lines_agree [of data pos n ?ls]
  show ?thesis
  proof (cases "scan_lines data pos n ?ls")
    case (Inl e)
    have S: "scan_variables data pos n v = Inl e" unfolding scan_variables_def Inl by simp
    consider "is_long e" | "variable_lines data pos n ?ls = Inl e" using la Inl by auto
    then show ?thesis
    proof cases
      case 2
      then have "read_variables data pos n v = Inl e" unfolding read_variables_def by simp
      then show ?thesis using S by simp
    qed (simp add: S)
  next
    case (Inr r)
    obtain ls p where r: "r = (ls, p)" by (cases r)
    have v: "variable_lines data pos n ?ls = Inr (ls, p)" using la Inr r by auto
    show ?thesis
      unfolding scan_variables_def read_variables_def Inr v r
      by (cases "rmap variable_of (zip [0..<length ls] ls)") simp_all
  qed
qed

lemma head_agree:
  assumes "heads_agree st ss"
  shows "case scan_head data pos key v ss of
     Inl e \<Rightarrow> head_line data pos key v st = Inl e
   | Inr ss' \<Rightarrow> \<exists>st'. head_line data pos key v st = Inr st' \<and> heads_agree st' ss'"
proof -
  note defs = scan_head_def head_line_def head_flags_def heads_agree_def rd_complex_def Let_def
  show ?thesis
  proof (cases "key = ''flags''")
    case True
    then show ?thesis using assms by (simp add: defs)
  next
    case f: False
    show ?thesis
    proof (cases "key = ''no. variables''")
      case True
      then show ?thesis using assms by (cases "py_int v") (simp_all add: defs)
    next
      case n: False
      show ?thesis
      proof (cases "key = ''no. points''")
        case True
        then show ?thesis using assms by (simp add: defs)
      next
        case p: False
        have "scan_head data pos key v ss = Inr ss" using f n p by (simp add: scan_head_def Let_def)
        moreover have "\<exists>st'. head_line data pos key v st = Inr st' \<and> heads_agree st' ss"
          using f n p assms
          by (cases "key = ''title''"; cases "key = ''date''"; cases "key = ''plotname''") (simp_all add: defs)
        ultimately show ?thesis by simp
      qed
    qed
  qed
qed

lemma headers_agree:
  assumes "heads_agree st ss"
  shows "case scan_header data pos ss of
     Inl e \<Rightarrow> is_long e \<or> read_header data pos st = Inl e
   | Inr (ss', p, b) \<Rightarrow> \<exists>st'. read_header data pos st = Inr (st', p, b) \<and> heads_agree st' ss'"
  using assms
proof (induction data pos ss arbitrary: st rule: scan_header.induct)
  case (1 data pos ss)
  show ?case
  proof (cases "length data \<le> pos")
    case True
    then show ?thesis by (simp add: scan_header.simps [of data pos] read_header.simps [of data pos])
  next
    case open_: False
    show ?thesis
    proof (cases "raw_line data pos")
      case (Inl e)
      then show ?thesis using open_ raw_line_long by (simp add: scan_header.simps [of data pos])
    next
      case line: (Inr line)
      have at: "line_at data pos = line" using raw_line_at [OF line] by simp
      note eqs = scan_header.simps [of data pos] read_header.simps [of data pos] Let_def at line open_
      show ?thesis
      proof (cases "py_strip line = []")
        case True
        note ih = "1.IH"(1) [OF open_ line refl True "1.prems"]
        have S: "scan_header data pos ss = scan_header data (line_end_at data pos + 1) ss" using True by (simp add: eqs)
        have R: "read_header data pos st = read_header data (line_end_at data pos + 1) st" using True by (simp add: eqs)
        show ?thesis unfolding S R by (rule ih)
      next
        case nonblank: False
        show ?thesis
        proof (cases "header_match line")
          case None
          then show ?thesis using nonblank by (simp add: eqs)
        next
          case (Some kv)
          obtain key v where kv: "kv = (key, v)" by (cases kv)
          note m = Some [unfolded kv]
          consider (vars) "key = ''variables''" | (mark) "key \<noteq> ''variables''" "key = ''binary'' \<or> key = ''values''"
            | (other) "key \<noteq> ''variables''" "\<not> (key = ''binary'' \<or> key = ''values'')" by blast
          then show ?thesis
          proof cases
            case vars
            show ?thesis
            proof (cases "ss_nvars ss")
              case None
              then show ?thesis using nonblank m vars "1.prems" by (simp add: eqs heads_agree_def)
            next
              case n: (Some n)
              have n': "hs_nvars st = Some n" using "1.prems" n by (simp add: heads_agree_def)
              note va = variables_agree [of data "line_end_at data pos + 1" n v]
              show ?thesis
              proof (cases "scan_variables data (line_end_at data pos + 1) n v")
                case (Inl e)
                then show ?thesis using va nonblank m vars n n' by (auto simp: eqs)
              next
                case (Inr r)
                obtain p tm where r: "r = (p, tm)" by (cases r)
                obtain vs where vs: "read_variables data (line_end_at data pos + 1) n v = Inr (vs, p)"
                  using va Inr r by auto
                let ?ss = "ss\<lparr>ss_plot := (ss_plot ss)\<lparr>sp_time_scale := tm\<rparr>, ss_listed := True\<rparr>"
                let ?st = "st\<lparr>hs_raw := (hs_raw st)\<lparr>rd_variables := rd_variables (hs_raw st) @ vs\<rparr>\<rparr>"
                have "heads_agree ?st ?ss" using "1.prems" by (simp add: heads_agree_def rd_complex_def)
                note ih = "1.IH"(2) [OF open_ line refl nonblank m refl vars n Inr [unfolded r] refl this]
                have S: "scan_header data pos ss = scan_header data p ?ss" using nonblank m vars n Inr r by (simp add: eqs)
                have R: "read_header data pos st = read_header data p ?st" using nonblank m vars n' vs by (simp add: eqs)
                show ?thesis unfolding S R by (rule ih)
              qed
            qed
          next
            case mark
            then show ?thesis using nonblank m "1.prems" by (auto simp: eqs)
          next
            case other
            note ha = head_agree [OF "1.prems", of data pos key v]
            show ?thesis
            proof (cases "scan_head data pos key v ss")
              case (Inl e)
              then show ?thesis using ha nonblank m other by (simp add: eqs)
            next
              case (Inr ss')
              then obtain st' where st': "head_line data pos key v st = Inr st'" "heads_agree st' ss'"
                using ha by auto
              note ih = "1.IH"(3) [OF open_ line refl nonblank m refl other Inr st'(2)]
              have S: "scan_header data pos ss = scan_header data (line_end_at data pos + 1) ss'"
                using nonblank m other Inr by (simp add: eqs)
              have R: "read_header data pos st = read_header data (line_end_at data pos + 1) st'"
                using nonblank m other st'(1) by (simp add: eqs)
              show ?thesis unfolding S R by (rule ih)
            qed
          qed
        qed
      qed
    qed
  qed
qed

section \<open>Text data\<close>

definition first_time :: "raw_value list \<Rightarrow> pyfloat option" where
  "first_time vs = (case vs of [] \<Rightarrow> None | v # _ \<Rightarrow> Some (real_part v))"

lemma values_agree:
  "count_values cplx nvars (int n) (length vals) (first_time vals) toks =
     (case point_values cplx nvars n vals toks of
        Inl e \<Rightarrow> Inl e | Inr (vs, r) \<Rightarrow> Inr (length vs, first_time vs, r))"
proof (induction toks arbitrary: vals rule: token_induct)
  case (Cons p t ts)
  let ?j = "join_commas t ts"
  show ?case
  proof (cases "raw_value_of cplx (fst ?j)")
    case None
    then show ?thesis by (simp add: count_values_simps point_values_simps)
  next
    case (Some v)
    have f: "(if length vals = 0 then Some (real_part v) else first_time vals) = first_time (vals @ [v])"
      by (cases vals) (simp_all add: first_time_def)
    show ?thesis
    proof (cases "length vals + 1 = nvars")
      case True
      then show ?thesis using Some f by (simp add: count_values_simps point_values_simps Let_def)
    next
      case False
      have C: "count_values cplx nvars (int n) (length vals) (first_time vals) ((p, t) # ts) =
          count_values cplx nvars (int n) (length (vals @ [v])) (first_time (vals @ [v])) (snd ?j)"
        unfolding f [symmetric] using Some False by (simp add: count_values_simps Let_def)
      have P: "point_values cplx nvars n vals ((p, t) # ts) = point_values cplx nvars n (vals @ [v]) (snd ?j)"
        using Some False by (simp add: point_values_simps)
      show ?thesis unfolding C P by (rule Cons.IH [OF join_commas_rest(1)])
    qed
  qed
qed (simp add: count_values_simps point_values_simps)

text \<open>The counts that go with points: their number, and the time of the first and of the last.\<close>

definition summary :: "scanned \<Rightarrow> raw_value list list \<Rightarrow> nat option \<Rightarrow> scanned" where
  "summary plot pts nxt = plot\<lparr>sp_n := int (length pts),
     sp_first := (case pts of [] \<Rightarrow> None | p # _ \<Rightarrow> first_time p),
     sp_last := (if pts = [] then None else first_time (List.last pts)), sp_next := nxt\<rparr>"

lemma point_values_count:
  "point_values cplx nvars n vals toks = Inr (vs, r) \<Longrightarrow> length vals < nvars \<Longrightarrow>
     length vs \<le> nvars \<and> length vals \<le> length vs"
proof (induction toks arbitrary: vals rule: token_induct)
  case (Cons p t ts)
  let ?j = "join_commas t ts"
  obtain v where v: "raw_value_of cplx (fst ?j) = Some v"
    using Cons.prems by (cases "raw_value_of cplx (fst ?j)") (simp_all add: point_values_simps)
  show ?case
  proof (cases "length vals + 1 = nvars")
    case True
    then show ?thesis using Cons.prems v by (auto simp: point_values_simps)
  next
    case False
    then have "point_values cplx nvars n (vals @ [v]) (snd ?j) = Inr (vs, r)"
      using Cons.prems v by (simp add: point_values_simps)
    from Cons.IH [OF join_commas_rest(1) this] show ?thesis using Cons.prems(2) False by simp
  qed
qed (auto simp: point_values_simps)

lemma points_agree:
  assumes "1 \<le> nvars" "\<forall>p \<in> set pts. p \<noteq> []"
  shows "count_points data cplx nvars (summary plot pts None) toks =
    (case text_points data cplx nvars pts toks of
       Inl e \<Rightarrow> Inl e | Inr (ps, nxt) \<Rightarrow> Inr (summary plot ps nxt))"
  using assms(2)
proof (induction toks arbitrary: pts rule: token_induct)
  case (Cons p t ts)
  let ?plot = "summary plot pts None"
  have n: "sp_n ?plot = int (length pts)" by (simp add: summary_def)
  show ?case
  proof (cases "all_digits t")
    case False
    then show ?thesis by (simp add: count_points_simps text_points_simps summary_def)
  next
    case True
    have va: "count_values cplx nvars (sp_n ?plot) 0 None ts = (case point_values cplx nvars (length pts) [] ts of
        Inl e \<Rightarrow> Inl e | Inr (vs, r) \<Rightarrow> Inr (length vs, first_time vs, r))"
      unfolding n using values_agree [of cplx nvars "length pts" "[]" ts] by (simp add: first_time_def)
    show ?thesis
    proof (cases "point_values cplx nvars (length pts) [] ts")
      case (Inl e)
      then show ?thesis using True va by (simp add: count_points_simps text_points_simps)
    next
      case (Inr vr)
      obtain vs r where vr: "vr = (vs, r)" by (cases vr)
      note pv = Inr [unfolded vr]
      show ?thesis
      proof (cases "length vs < nvars")
        case less: True
        then show ?thesis using True va pv by (simp add: count_points_simps text_points_simps)
      next
        case False
        then have vs: "vs \<noteq> []" using assms(1) by auto
        have s: "add_count (first_time vs) ?plot = summary plot (pts @ [vs]) None"
          using Cons.prems vs
          by (cases pts) (auto simp: add_count_def summary_def first_time_def split: list.split)
        have C: "count_points data cplx nvars ?plot ((p, t) # ts) =
            count_points data cplx nvars (summary plot (pts @ [vs]) None) r"
          using True va pv False s by (simp add: count_points_simps)
        have T: "text_points data cplx nvars pts ((p, t) # ts) = text_points data cplx nvars (pts @ [vs]) r"
          using True pv False by (simp add: text_points_simps)
        have "length r \<le> length ts" using point_values_rest [OF pv] by simp
        then show ?thesis unfolding C T using Cons.IH [of r "pts @ [vs]"] Cons.prems vs by simp
      qed
    qed
  qed
qed (simp add: count_points_simps text_points_simps)

lemma text_points_full:
  "text_points data cplx nvars pts toks = Inr (ps, nxt) \<Longrightarrow> \<forall>p \<in> set pts. length p = nvars \<Longrightarrow> 1 \<le> nvars \<Longrightarrow>
     \<forall>p \<in> set ps. length p = nvars"
proof (induction toks arbitrary: pts rule: token_induct)
  case (Cons p t ts)
  show ?case
  proof (cases "all_digits t")
    case True
    obtain vs r where v: "point_values cplx nvars (length pts) [] ts = Inr (vs, r)"
      using Cons.prems True by (auto simp: text_points_simps split: sum.splits)
    show ?thesis
    proof (cases "length vs < nvars")
      case less: True
      then show ?thesis using Cons.prems True v by (simp add: text_points_simps)
    next
      case False
      then have l: "length vs = nvars" using point_values_count [OF v] Cons.prems(3) by simp
      have "text_points data cplx nvars (pts @ [vs]) r = Inr (ps, nxt)"
        using Cons.prems True v False by (simp add: text_points_simps)
      from Cons.IH [OF _ this] show ?thesis using point_values_rest [OF v] Cons.prems l by auto
    qed
  next
    case False
    then show ?thesis using Cons.prems by (auto simp: text_points_simps split: if_splits)
  qed
qed (auto simp: text_points_simps)

section \<open>Binary data\<close>

lemma chunks_append: "length xs = k \<Longrightarrow> 0 < k \<Longrightarrow> chunks k (xs @ ys) = xs # chunks k ys"
  by (subst chunks.simps) auto

lemma chunks_step: "k \<le> length xs \<Longrightarrow> 0 < k \<Longrightarrow> chunks k xs = take k xs # chunks k (drop k xs)"
  by (subst chunks.simps) auto

lemma chunks_Nil: "chunks k [] = []"
  by (simp add: chunks.simps)

lemma chunks_join:
  "length xs = m * k \<Longrightarrow> 0 < k \<Longrightarrow> chunks k (xs @ ys) = chunks k xs @ chunks k ys"
proof (induction m arbitrary: xs)
  case (Suc m)
  have x: "xs = take k xs @ drop k xs" "length (take k xs) = k" using Suc.prems by simp_all
  have "chunks k (xs @ ys) = take k xs # chunks k (drop k xs @ ys)"
    using chunks_append [OF x(2) Suc.prems(2), of "drop k xs @ ys"] x(1) by (metis append.assoc)
  moreover have "chunks k xs = take k xs # chunks k (drop k xs)"
    using chunks_append [OF x(2) Suc.prems(2), of "drop k xs"] x(1) by simp
  moreover have "length (drop k xs) = m * k" using Suc.prems by simp
  ultimately show ?case using Suc.IH [of "drop k xs"] Suc.prems(2) by simp
qed (simp add: chunks_Nil)

lemma chunks_length: "length xs = m * k \<Longrightarrow> 0 < k \<Longrightarrow> length (chunks k xs) = m"
proof (induction m arbitrary: xs)
  case (Suc m)
  have "chunks k xs = take k xs # chunks k (drop k xs)"
    using chunks_append [of "take k xs" k "drop k xs"] Suc.prems by simp
  then show ?case using Suc by simp
qed (simp add: chunks_Nil)

lemma pair_up_append: "even (length xs) \<Longrightarrow> pair_up (xs @ ys) = pair_up xs @ pair_up ys"
  by (induction xs rule: pair_up.induct) auto

lemma pair_up_length: "length (pair_up xs) = length xs div 2"
  by (induction xs rule: pair_up.induct) auto

lemma row_values_append:
  assumes "length xs = row_size nvars cplx"
  shows "row_values cplx (xs @ ys) = row_values cplx xs @ row_values cplx ys"
proof -
  let ?m = "nvars * (if cplx then 2 else 1)"
  have l: "length xs = ?m * 8" using assms by (simp add: row_size_def)
  have "chunks 8 (xs @ ys) = chunks 8 xs @ chunks 8 ys" by (rule chunks_join [OF l]) simp
  moreover have "length (chunks 8 xs) = ?m" by (rule chunks_length [OF l]) simp
  ultimately show ?thesis by (cases cplx) (simp_all add: row_values_def pair_up_append)
qed

lemma row_values_length:
  assumes "length xs = row_size nvars cplx"
  shows "length (row_values cplx xs) = nvars"
proof -
  have "length (chunks 8 xs) = nvars * (if cplx then 2 else 1)"
    using assms by (intro chunks_length) (simp_all add: row_size_def)
  then show ?thesis by (simp add: row_values_def Let_def pair_up_length)
qed

lemma row_size_pos: "1 \<le> nvars \<Longrightarrow> 0 < row_size nvars cplx"
  by (simp add: row_size_def)

text \<open>The rows of binary data, one by one.\<close>

lemma binary_points:
  assumes "length bs = n * row_size nvars cplx" "1 \<le> nvars"
  shows "chunks nvars (row_values cplx bs) = map (\<lambda>i. row_values cplx (slice bs (i * row_size nvars cplx) (i * row_size nvars cplx + row_size nvars cplx))) [0..<n]"
  using assms(1)
proof (induction n arbitrary: bs)
  case (Suc n)
  let ?r = "row_size nvars cplx"
  let ?x = "take ?r bs"
  let ?y = "drop ?r bs"
  have x: "length ?x = ?r" "bs = ?x @ ?y" using Suc.prems by simp_all
  have "chunks nvars (row_values cplx bs) = row_values cplx ?x # chunks nvars (row_values cplx ?y)"
    using row_values_append [OF x(1), of ?y] chunks_append [OF row_values_length [OF x(1)]] assms(2) x(2) by simp
  also have "\<dots> = row_values cplx ?x # map (\<lambda>i. row_values cplx (slice ?y (i * ?r) (i * ?r + ?r))) [0..<n]"
    using Suc.IH [of ?y] Suc.prems by simp
  also have "\<dots> = map (\<lambda>i. row_values cplx (slice bs (i * ?r) (i * ?r + ?r))) [0..<Suc n]"
    by (simp add: upt_conv_Cons map_Suc_upt [symmetric] slice_def add.commute del: upt_Suc)
  finally show ?case .
qed (simp add: row_values_def chunks_Nil chunks.simps [of nvars "[]"])

text \<open>The first double of a row is the time of the point.\<close>

lemma row_time:
  assumes "length xs = row_size nvars cplx" "1 \<le> nvars"
  shows "first_time (row_values cplx xs) = Some (le_double (take 8 xs))"
proof -
  have l: "8 \<le> length xs" using assms by (cases nvars) (auto simp: row_size_def)
  have c: "chunks 8 xs = take 8 xs # chunks 8 (drop 8 xs)"
    using chunks_step [OF l] by simp
  show ?thesis
  proof (cases cplx)
    case True
    then have l2: "8 \<le> length (drop 8 xs)" using assms by (cases nvars) (auto simp: row_size_def)
    have "chunks 8 (drop 8 xs) = take 8 (drop 8 xs) # chunks 8 (drop 8 (drop 8 xs))"
      using chunks_step [OF l2] by simp
    then show ?thesis using True c by (simp add: row_values_def first_time_def)
  next
    case False
    then show ?thesis using c by (simp add: row_values_def first_time_def)
  qed
qed

text \<open>The points of binary data are the rows of the file, and the scanner finds as many.\<close>

definition data_row :: "string \<Rightarrow> nat \<Rightarrow> nat \<Rightarrow> bool \<Rightarrow> nat \<Rightarrow> string" where
  "data_row data start nvars cplx i =
     slice data (start + i * row_size nvars cplx) (start + i * row_size nvars cplx + row_size nvars cplx)"

lemma room_rows:
  assumes "1 \<le> nvars" "start + m * row_size nvars cplx \<le> length data"
  shows "chunks nvars (row_values cplx (slice data start (start + m * row_size nvars cplx))) =
      map (\<lambda>i. row_values cplx (data_row data start nvars cplx i)) [0..<m]"
    "i < m \<Longrightarrow> length (data_row data start nvars cplx i) = row_size nvars cplx"
proof -
  let ?row = "row_size nvars cplx"
  let ?bs = "slice data start (start + m * ?row)"
  have lb: "length ?bs = m * ?row" using assms(2) by (simp add: slice_def)
  have le: "i * ?row + ?row \<le> m * ?row" if "i < m" for i
    using that by (metis Suc_leI add.commute mult_Suc mult_le_mono1)
  have sl: "slice ?bs (i * ?row) (i * ?row + ?row) = data_row data start nvars cplx i" if "i < m" for i
    using le [OF that] by (simp add: slice_def data_row_def drop_take add.commute min_def)
  show "chunks nvars (row_values cplx ?bs) = map (\<lambda>i. row_values cplx (data_row data start nvars cplx i)) [0..<m]"
    unfolding binary_points [OF lb assms(1)] using sl by simp
  show "length (data_row data start nvars cplx i) = ?row" if "i < m" for i
    using le [OF that] assms(2) by (simp add: slice_def data_row_def)
qed

text \<open>Where the data begin inside the file, both counts are of the rows that fit.\<close>

lemma binary_count_room:
  assumes "binary_count data start row declared = (n, nxt)" "start \<le> length data" "0 < row"
  shows "\<exists>m. n = int m \<and> start + m * row \<le> length data"
proof -
  let ?avail = "length data - start"
  have av: "int (length data) - int start = int ?avail" using assms(2) by simp
  have dv: "int ?avail div int row = int (?avail div row)" by (simp add: zdiv_int)
  have n: "0 \<le> n \<and> n * int row \<le> int ?avail"
  proof (cases "n = int (?avail div row)")
    case True
    have "int (?avail div row * row) \<le> int ?avail" by (intro of_nat_mono div_times_less_eq_dividend)
    then show ?thesis using True by simp
  next
    case False
    then show ?thesis using assms(1) unfolding binary_count_def av dv Let_def by (auto split: option.splits if_splits)
  qed
  obtain m where m: "n = int m" using n nonneg_int_cases by blast
  have "m * row \<le> ?avail" using n unfolding m of_nat_mult [symmetric] of_nat_le_iff by simp
  then show ?thesis using m assms(2) by (intro exI [of _ m]) simp
qed

lemma binary_count_beyond:
  assumes "binary_count data start row declared = (n, nxt)" "\<not> start \<le> length data" "0 < row"
  shows "nxt = None \<and> n \<le> 0"
proof -
  let ?avail = "int (length data) - int start"
  have neg: "?avail < 0" using assms(2) by simp
  have no: "\<not> (0 \<le> d \<and> d * int row \<le> ?avail)" for d
  proof
    assume "0 \<le> d \<and> d * int row \<le> ?avail"
    moreover from this have "0 \<le> d * int row" by simp
    ultimately show False using neg by linarith
  qed
  have "binary_count data start row declared = (?avail div int row, None)"
    unfolding binary_count_def Let_def if_P [OF no] by (simp split: option.split)
  then show ?thesis using assms(1) div_neg_pos_less0 [OF neg, of "int row"] assms(3) by auto
qed

lemma read_binary_rows:
  assumes "1 \<le> nvars" "read_binary data start nvars cplx declared = (pts, nxt)"
  shows "pts = map (\<lambda>i. row_values cplx (data_row data start nvars cplx i)) [0..<length pts]"
    "i < length pts \<Longrightarrow> length (data_row data start nvars cplx i) = row_size nvars cplx"
    "fst (binary_count data start (row_size nvars cplx) declared) = int (length pts) \<or>
       \<not> start \<le> length data \<and> pts = []"
    "snd (binary_count data start (row_size nvars cplx) declared) = nxt"
proof -
  let ?row = "row_size nvars cplx"
  have row: "0 < ?row" by (rule row_size_pos [OF assms(1)])
  obtain n where bc: "binary_count data start ?row declared = (n, nxt)"
      and pts: "pts = chunks nvars (row_values cplx (slice data start (nat (int start + n * int ?row))))"
    using assms(2) by (auto simp: read_binary_def Let_def split: prod.splits)
  have all: "pts = map (\<lambda>i. row_values cplx (data_row data start nvars cplx i)) [0..<length pts] \<and>
      (\<forall>i < length pts. length (data_row data start nvars cplx i) = ?row) \<and>
      (n = int (length pts) \<or> \<not> start \<le> length data \<and> pts = [])"
  proof (cases "start \<le> length data")
    case True
    from binary_count_room [OF bc True row] obtain m where m: "n = int m" "start + m * ?row \<le> length data" by blast
    have "nat (int start + n * int ?row) = start + m * ?row" by (simp add: m(1) nat_add_distrib nat_mult_distrib)
    then have p: "pts = map (\<lambda>i. row_values cplx (data_row data start nvars cplx i)) [0..<m]"
      unfolding pts using room_rows(1) [OF assms(1) m(2)] by simp
    then have "length pts = m" by simp
    then show ?thesis using p m(1) room_rows(2) [OF assms(1) m(2)] by simp
  next
    case False
    then have "n \<le> 0" using binary_count_beyond [OF bc _ row] by simp
    then have "int start + n * int ?row \<le> int start" by (simp add: mult_le_0_iff)
    then have "nat (int start + n * int ?row) \<le> start" by simp
    then have "pts = []" unfolding pts by (simp add: slice_def row_values_def chunks_Nil)
    then show ?thesis using False by simp
  qed
  then show "pts = map (\<lambda>i. row_values cplx (data_row data start nvars cplx i)) [0..<length pts]"
    "i < length pts \<Longrightarrow> length (data_row data start nvars cplx i) = ?row"
    "fst (binary_count data start ?row declared) = int (length pts) \<or> \<not> start \<le> length data \<and> pts = []"
    by (simp_all add: bc)
  show "snd (binary_count data start ?row declared) = nxt" by (simp add: bc)
qed

lemma binary_agree:
  assumes "1 \<le> nvars" "sp_next plot = None" "sp_first plot = None" "sp_last plot = None"
      "read_binary data start nvars cplx (sp_declared plot) = (pts, nxt)"
  shows "scan_binary data start nvars cplx plot = summary plot pts nxt"
proof -
  let ?row = "row_size nvars cplx"
  have row: "0 < ?row" by (rule row_size_pos [OF assms(1)])
  note rb = read_binary_rows [OF assms(1,5)]
  obtain n where bc: "binary_count data start ?row (sp_declared plot) = (n, nxt)"
    using rb(4) by (cases "binary_count data start ?row (sp_declared plot)") simp
  show ?thesis
  proof (cases "start \<le> length data")
    case le: True
    let ?avail = "length data - start"
    have av: "int (length data) - int start = int ?avail" using le by simp
    have dv: "int ?avail div int ?row = int (?avail div ?row)" by (simp add: zdiv_int)
    let ?m = "length pts"
    have n: "n = int ?m" using rb(3) bc le by simp
    have t8: "take 8 (data_row data start nvars cplx i) = slice data (start + i * ?row) (start + i * ?row + 8)" for i
      using assms(1) by (cases nvars) (auto simp: slice_def row_size_def data_row_def)
    have "pts ! i = row_values cplx (data_row data start nvars cplx i)" if "i < ?m" for i
      using that by (subst rb(1)) simp
    then have time: "first_time (pts ! i) = Some (le_double (slice data (start + i * ?row) (start + i * ?row + 8)))"
      if "i < ?m" for i
      using row_time [OF rb(2) [OF that] assms(1)] that by (simp add: t8)
    have cnt: "scan_binary data start nvars cplx plot =
        (let q = plot\<lparr>sp_n := n, sp_next := nxt\<rparr> in
         if n = 0 then q
         else q\<lparr>sp_first := Some (le_double (slice data start (start + 8))),
                sp_last := Some (le_double (slice data (start + (nat n - 1) * ?row) (start + (nat n - 1) * ?row + 8)))\<rparr>)"
      using bc unfolding scan_binary_def binary_count_def av dv Let_def
      by (auto split: option.splits if_splits)
    show ?thesis
    proof (cases "?m = 0")
      case True
      then show ?thesis using n assms(3,4) by (simp add: cnt summary_def Let_def)
    next
      case False
      then have "pts \<noteq> []" "first_time (hd pts) = Some (le_double (slice data start (start + 8)))"
          "first_time (List.last pts) = Some (le_double (slice data (start + (?m - 1) * ?row) (start + (?m - 1) * ?row + 8)))"
        using time [of 0] time [of "?m - 1"] by (auto simp: hd_conv_nth last_conv_nth)
      moreover from this have "summary plot pts nxt = plot\<lparr>sp_n := n, sp_first := first_time (hd pts),
          sp_last := first_time (List.last pts), sp_next := nxt\<rparr>"
        using n by (cases pts) (simp_all add: summary_def)
      moreover have "n \<noteq> 0" "nat n = ?m" using False n by simp_all
      ultimately show ?thesis by (simp add: cnt Let_def)
    qed
  next
    case False
    then have "pts = []" using rb(3) binary_count_beyond [OF bc False row] bc by auto
    moreover have "nxt = None" using binary_count_beyond [OF bc False row] by simp
    ultimately show ?thesis
      using False row assms(3,4) by (auto simp: scan_binary_def summary_def Let_def mult_le_0_iff split: option.splits)
  qed
qed

section \<open>Plots and files\<close>

text \<open>A scanned plot counts what the reader reads.\<close>

definition counts :: "file_plot \<Rightarrow> scanned \<Rightarrow> bool" where
  "counts p q \<longleftrightarrow>
     sp_declared q = rd_declared (fp_raw p) \<and> sp_n q = int (length (rd_points (fp_raw p))) \<and>
     sp_first q = (case rd_points (fp_raw p) of [] \<Rightarrow> None | v # _ \<Rightarrow> first_time v) \<and>
     sp_last q = (if rd_points (fp_raw p) = [] then None else first_time (List.last (rd_points (fp_raw p)))) \<and>
     sp_field q = fp_field p \<and> sp_nvars_end q = fp_nvars_end p \<and> sp_next q = fp_next p"

text \<open>How the two passes over one plot, or over a file, may differ: the scanner refuses a header line
  that is too long, and the reader a variable list that does not have the declared length.\<close>

fun passes_agree :: "('a \<Rightarrow> 'b \<Rightarrow> bool) \<Rightarrow> raw_err + 'a \<Rightarrow> raw_err + 'b \<Rightarrow> bool" where
  "passes_agree R r (Inl e) \<longleftrightarrow> is_long e \<or> r = Inl e \<or> r = Inl VarMismatch"
| "passes_agree R r (Inr q) \<longleftrightarrow> (\<exists>p. r = Inr p \<and> R p q) \<or> r = Inl VarMismatch"

text \<open>The layout of a plot, where both passes find it.\<close>

lemma layout_agree:
  "case scan_layout data pos of
     Inl e \<Rightarrow> is_long e \<or> read_plot data pos = Inl e \<or> read_plot data pos = Inl VarMismatch
   | Inr (plot, ly) \<Rightarrow> read_plot data pos = Inl VarMismatch \<or>
       (\<exists>st. heads_agree st \<lparr>ss_plot = plot, ss_nvars = Some (int (ly_nvars ly)), ss_cplx = ly_cplx ly, ss_listed = True\<rparr> \<and>
          1 \<le> ly_nvars ly \<and> length (rd_variables (hs_raw st)) = ly_nvars ly \<and>
          read_plot data pos =
            rbind (if ly_binary ly then Inr (read_binary data (ly_start ly) (ly_nvars ly) (ly_cplx ly) (sp_declared plot))
                   else text_points data (ly_cplx ly) (ly_nvars ly) [] (tokens_from data (ly_start ly)))
              (\<lambda>(pts, nxt). Inr \<lparr>fp_raw = (hs_raw st)\<lparr>rd_binary := ly_binary ly, rd_points := pts\<rparr>, fp_field = hs_field st,
                 fp_nvars_end = hs_nvars_end st, fp_data = ly_start ly, fp_next = nxt\<rparr>))"
proof -
  have "heads_agree start_head start_scan"
    by (simp add: heads_agree_def start_head_def start_scan_def new_raw_def new_scanned_def rd_complex_def)
  note ha = headers_agree [OF this, of data pos]
  show ?thesis
  proof (cases "scan_header data pos start_scan")
    case (Inl e)
    then have S: "scan_layout data pos = Inl e" by (simp add: scan_layout_def)
    consider "is_long e" | "read_header data pos start_head = Inl e" using ha Inl by auto
    then show ?thesis
    proof cases
      case 2
      then have "read_plot data pos = Inl e" by (simp add: read_plot_def)
      then show ?thesis using S by simp
    qed (simp add: S)
  next
    case (Inr r)
    obtain ss p b where r: "r = (ss, p, b)" by (cases r)
    obtain st where st: "read_header data pos start_head = Inr (st, p, b)" "heads_agree st ss"
      using ha Inr r by auto
    have nv: "hs_nvars st = ss_nvars ss" using st(2) by (simp add: heads_agree_def)
    show ?thesis
    proof (cases "ss_nvars ss")
      case None
      then have "scan_layout data pos = Inl VarMismatch" "read_plot data pos = Inl VarMismatch"
        using Inr r st(1) nv by (simp_all add: scan_layout_def read_plot_def)
      then show ?thesis by simp
    next
      case (Some n)
      show ?thesis
      proof (cases "n < 1 \<or> int (length (rd_variables (hs_raw st))) \<noteq> n")
        case True
        then have "read_plot data pos = Inl VarMismatch"
          using Some nv st(1) by (simp add: read_plot_def Let_def)
        then show ?thesis by (simp split: sum.split)
      next
        case False
        then have "rd_variables (hs_raw st) \<noteq> []" by auto
        then have li: "ss_listed ss" using st(2) by (simp add: heads_agree_def)
        let ?ly = "\<lparr>ly_start = p, ly_nvars = nat n, ly_cplx = ss_cplx ss, ly_binary = b\<rparr>"
        have S: "scan_layout data pos = Inr (ss_plot ss, ?ly)" using Inr r Some False li by (simp add: scan_layout_def)
        have "ss = \<lparr>ss_plot = ss_plot ss, ss_nvars = Some (int (ly_nvars ?ly)), ss_cplx = ly_cplx ?ly, ss_listed = True\<rparr>"
          using Some li False by (cases ss) simp
        then have h: "heads_agree st \<lparr>ss_plot = ss_plot ss, ss_nvars = Some (int (ly_nvars ?ly)), ss_cplx = ly_cplx ?ly, ss_listed = True\<rparr>"
          using st(2) by simp
        have cx: "rd_complex ((hs_raw st)\<lparr>rd_binary := b'\<rparr>) = ss_cplx ss" for b'
          using st(2) by (simp add: heads_agree_def rd_complex_def)
        have "rd_declared (hs_raw st) = sp_declared (ss_plot ss)" using st(2) by (simp add: heads_agree_def)
        then have R: "read_plot data pos =
            rbind (if ly_binary ?ly then Inr (read_binary data (ly_start ?ly) (ly_nvars ?ly) (ly_cplx ?ly) (sp_declared (ss_plot ss)))
                   else text_points data (ly_cplx ?ly) (ly_nvars ?ly) [] (tokens_from data (ly_start ?ly)))
              (\<lambda>(pts, nxt). Inr \<lparr>fp_raw = (hs_raw st)\<lparr>rd_binary := ly_binary ?ly, rd_points := pts\<rparr>, fp_field = hs_field st,
                 fp_nvars_end = hs_nvars_end st, fp_data = ly_start ?ly, fp_next = nxt\<rparr>)"
          using st(1) nv Some False by (simp add: read_plot_def Let_def cx)
        have "1 \<le> ly_nvars ?ly" "length (rd_variables (hs_raw st)) = ly_nvars ?ly" using False by (simp, linarith)+
        then show ?thesis unfolding S using h R by auto
      qed
    qed
  qed
qed

lemma plot_agrees: "passes_agree counts (read_plot data pos) (scan_plot data pos)"
proof -
  note la = layout_agree [of data pos]
  show ?thesis
  proof (cases "scan_layout data pos")
    case (Inl e)
    then have "scan_plot data pos = Inl e" by (simp add: scan_plot_def)
    then show ?thesis using la Inl by simp
  next
    case (Inr r)
    obtain plot ly where r: "r = (plot, ly)" by (cases r)
    let ?ss = "\<lparr>ss_plot = plot, ss_nvars = Some (int (ly_nvars ly)), ss_cplx = ly_cplx ly, ss_listed = True\<rparr>"
    show ?thesis
    proof (cases "read_plot data pos = Inl VarMismatch")
      case True
      then show ?thesis by (cases "scan_plot data pos") simp_all
    next
      case False
      then obtain st where st: "heads_agree st ?ss" "1 \<le> ly_nvars ly"
          and R: "read_plot data pos =
            rbind (if ly_binary ly then Inr (read_binary data (ly_start ly) (ly_nvars ly) (ly_cplx ly) (sp_declared plot))
                   else text_points data (ly_cplx ly) (ly_nvars ly) [] (tokens_from data (ly_start ly)))
              (\<lambda>(pts, nxt). Inr \<lparr>fp_raw = (hs_raw st)\<lparr>rd_binary := ly_binary ly, rd_points := pts\<rparr>, fp_field = hs_field st,
                 fp_nvars_end = hs_nvars_end st, fp_data = ly_start ly, fp_next = nxt\<rparr>)"
        using la Inr r by auto
      have empty: "sp_n plot = 0" "sp_first plot = None" "sp_last plot = None" "sp_next plot = None"
        using st(1) by (simp_all add: heads_agree_def)
      have c: "counts \<lparr>fp_raw = (hs_raw st)\<lparr>rd_binary := b, rd_points := pts\<rparr>, fp_field = hs_field st,
                 fp_nvars_end = hs_nvars_end st, fp_data = ly_start ly, fp_next = nxt\<rparr> (summary plot pts nxt)" for b pts nxt
        using st(1) by (simp add: counts_def summary_def heads_agree_def)
      show ?thesis
      proof (cases "ly_binary ly")
        case True
        obtain pts nxt where b: "read_binary data (ly_start ly) (ly_nvars ly) (ly_cplx ly) (sp_declared plot) = (pts, nxt)"
          by (cases "read_binary data (ly_start ly) (ly_nvars ly) (ly_cplx ly) (sp_declared plot)")
        then have "scan_plot data pos = Inr (summary plot pts nxt)"
          using binary_agree [OF st(2) empty(4,2,3) b] Inr r True by (simp add: scan_plot_def)
        then show ?thesis using R b True c [where b = True and pts = pts and nxt = nxt] by simp
      next
        case False
        have "summary plot [] None = plot" using empty by (cases plot) (simp add: summary_def)
        then have S: "scan_plot data pos = count_points data (ly_cplx ly) (ly_nvars ly) (summary plot [] None) (tokens_from data (ly_start ly))"
          using Inr r False by (simp add: scan_plot_def)
        note pa = points_agree [OF st(2), of "[]" data "ly_cplx ly" plot "tokens_from data (ly_start ly)"]
        show ?thesis
        proof (cases "text_points data (ly_cplx ly) (ly_nvars ly) [] (tokens_from data (ly_start ly))")
          case (Inl e)
          then show ?thesis using R S pa False by simp
        next
          case (Inr t)
          obtain pts nxt where t: "t = (pts, nxt)" by (cases t)
          show ?thesis using R S pa False Inr t c [where b = False and pts = pts and nxt = nxt] by simp
        qed
      qed
    qed
  qed
qed

lemma plots_agree: "passes_agree (list_all2 counts) (read_plots data pos) (scan_plots data pos)"
proof (induction data pos rule: scan_plots.induct)
  case (1 data pos)
  note pa = plot_agrees [of data pos]
  note eqs = scan_plots.simps [of data pos] read_plots.simps [of data pos]
  show ?case
  proof (cases "read_plot data pos = Inl VarMismatch")
    case True
    then have "read_plots data pos = Inl VarMismatch" by (simp add: eqs)
    then show ?thesis by (cases "scan_plots data pos") simp_all
  next
    case ok: False
    show ?thesis
    proof (cases "scan_plot data pos")
      case (Inl e)
      then show ?thesis using pa ok by (auto simp: eqs)
    next
      case (Inr q)
      then obtain p where p: "read_plot data pos = Inr p" "counts p q" using pa ok by auto
      have nx: "sp_next q = fp_next p" using p(2) by (simp add: counts_def)
      show ?thesis
      proof (cases "fp_next p")
        case None
        then show ?thesis using Inr p nx by (simp add: eqs)
      next
        case (Some k)
        note ih = "1.IH" [OF Inr nx [unfolded Some]]
        have S: "scan_plots data pos = rbind (scan_plots data k) (\<lambda>ps. Inr (q # ps))" using Inr nx Some by (simp add: eqs)
        have R: "read_plots data pos = rbind (read_plots data k) (\<lambda>ps. Inr (p # ps))" using p(1) Some by (simp add: eqs)
        show ?thesis unfolding S R using ih p(2) by (cases "scan_plots data k") auto
      qed
    qed
  qed
qed

lemma files_agree: "passes_agree (list_all2 counts) (read_raw_file data) (scan_file data)"
  using plots_agree [of data 0] by (simp add: scan_file_def read_raw_file_def)

end
