(* ===== verification/RawProps.thy ===== *)
theory RawProps
  imports RawSim
begin

text \<open>
  What holds of rawfiles: the scanner counts what the reader reads, the streamed rows are the rows that
  are read, the repair changes the point counts only, and the look-ups and tables are exact.
\<close>

section \<open>Streamed rows\<close>

lemma pair_up_nth: "c < length (pair_up ds) \<Longrightarrow> pair_up ds ! c = Cv (ds ! (2 * c)) (ds ! (2 * c + 1))"
proof (induction ds arbitrary: c rule: pair_up.induct)
  case (1 x y r)
  then show ?case by (cases c) simp_all
qed auto

lemma binary_row_values:
  assumes "length (data_row data (ly_start ly) (ly_nvars ly) (ly_cplx ly) i) = row_size (ly_nvars ly) (ly_cplx ly)"
      "\<forall>c \<in> set cols. c < ly_nvars ly"
  shows "binary_row data ly cols i = pick cols (row_values (ly_cplx ly) (data_row data (ly_start ly) (ly_nvars ly) (ly_cplx ly) i))"
proof -
  let ?ds = "map le_double (chunks 8 (data_row data (ly_start ly) (ly_nvars ly) (ly_cplx ly) i))"
  have l: "length (row_values (ly_cplx ly) (data_row data (ly_start ly) (ly_nvars ly) (ly_cplx ly) i)) = ly_nvars ly"
    by (rule row_values_length [OF assms(1)])
  show ?thesis
  proof (cases "ly_cplx ly")
    case True
    have "length (pair_up ?ds) = ly_nvars ly" using l True by (simp add: row_values_def)
    then have "pair_up ?ds ! c = Cv (?ds ! (2 * c)) (?ds ! (2 * c + 1))" if "c \<in> set cols" for c
      using that assms(2) by (intro pair_up_nth) simp
    then show ?thesis using True by (simp add: binary_row_def row_values_def pick_def data_row_def Let_def)
  next
    case False
    have "length ?ds = ly_nvars ly" using l False by (simp add: row_values_def)
    then show ?thesis using False assms(2)
      by (auto simp: binary_row_def row_values_def pick_def data_row_def Let_def)
  qed
qed

lemma text_rows_simps:
  "text_rows data cplx nvars cols first n [] = ([], None)"
  "text_rows data cplx nvars cols first n ((p, t) # r) =
     (if \<not> all_digits t then
        (if plot_start data p then ([], None) else ([], Some (ExpectedIndex p (take 40 t))))
      else (case point_values cplx nvars n [] r of
              Inl e \<Rightarrow> ([], Some e)
            | Inr (vs, r') \<Rightarrow>
                if length vs < nvars then ([], None)
                else (case text_rows data cplx nvars cols first (n + 1) r' of
                        (rows, e) \<Rightarrow> ((if first < n + 1 then [pick cols vs] else []) @ rows, e))))"
  by (simp_all add: text_rows.simps [of data cplx nvars cols first n])

lemma text_rows_points:
  "text_points data cplx nvars pts toks = Inr (ps, nxt) \<Longrightarrow>
   \<exists>rest. ps = pts @ rest \<and>
     text_rows data cplx nvars cols first (length pts) toks = (map (pick cols) (drop (first - length pts) rest), None)"
proof (induction toks arbitrary: pts rule: token_induct)
  case (Cons p t ts)
  show ?case
  proof (cases "all_digits t")
    case False
    then show ?thesis using Cons.prems by (auto simp: text_points_simps text_rows_simps split: if_splits)
  next
    case True
    obtain vs r where v: "point_values cplx nvars (length pts) [] ts = Inr (vs, r)"
      using Cons.prems True by (auto simp: text_points_simps split: sum.splits)
    show ?thesis
    proof (cases "length vs < nvars")
      case less: True
      then show ?thesis using Cons.prems True v by (simp add: text_points_simps text_rows_simps)
    next
      case False
      have "text_points data cplx nvars (pts @ [vs]) r = Inr (ps, nxt)"
        using Cons.prems True v False by (simp add: text_points_simps)
      from Cons.IH [OF _ this] obtain rest where rest: "ps = (pts @ [vs]) @ rest"
          "text_rows data cplx nvars cols first (length (pts @ [vs])) r =
             (map (pick cols) (drop (first - length (pts @ [vs])) rest), None)"
        using point_values_rest [OF v] by auto
      have "text_rows data cplx nvars cols first (length pts) ((p, t) # ts) =
          ((if first < length pts + 1 then [pick cols vs] else []) @ map (pick cols) (drop (first - (length pts + 1)) rest), None)"
        using True v False rest(2) by (simp add: text_rows_simps)
      moreover have "(if first < length pts + 1 then [pick cols vs] else []) @ map (pick cols) (drop (first - (length pts + 1)) rest) =
          map (pick cols) (drop (first - length pts) (vs # rest))"
        by (cases "first < length pts + 1") (auto simp: drop_Cons' Suc_diff_Suc)
      ultimately show ?thesis using rest(1) by (intro exI [of _ "vs # rest"]) simp
    qed
  qed
qed (simp add: text_points_simps text_rows_simps)

text \<open>The rows of one plot, from where its header begins.\<close>

lemma plot_rows:
  assumes "read_plot data pos = Inr p" "scan_plot data pos = Inr q"
      "\<forall>c \<in> set cols. 0 \<le> c \<and> c < int (length (rd_variables (fp_raw p)))"
  shows "\<exists>plot ly. scan_layout data pos = Inr (plot, ly) \<and>
      filter (\<lambda>c. \<not> (0 \<le> c \<and> c < int (ly_nvars ly))) cols = [] \<and>
      (if ly_binary ly then binary_rows data plot ly (map nat cols) first
       else text_rows data (ly_cplx ly) (ly_nvars ly) (map nat cols) first 0 (tokens_from data (ly_start ly))) =
      (map (pick (map nat cols)) (drop first (rd_points (fp_raw p))), None)"
proof -
  obtain plot ly where ly: "scan_layout data pos = Inr (plot, ly)"
    using assms(2) by (auto simp: scan_plot_def rbind_Inr_iff)
  let ?ss = "\<lparr>ss_plot = plot, ss_nvars = Some (int (ly_nvars ly)), ss_cplx = ly_cplx ly, ss_listed = True\<rparr>"
  obtain st where st: "heads_agree st ?ss" "1 \<le> ly_nvars ly" "length (rd_variables (hs_raw st)) = ly_nvars ly"
      and R: "read_plot data pos =
            rbind (if ly_binary ly then Inr (read_binary data (ly_start ly) (ly_nvars ly) (ly_cplx ly) (sp_declared plot))
                   else text_points data (ly_cplx ly) (ly_nvars ly) [] (tokens_from data (ly_start ly)))
              (\<lambda>(pts, nxt). Inr \<lparr>fp_raw = (hs_raw st)\<lparr>rd_binary := ly_binary ly, rd_points := pts\<rparr>, fp_field = hs_field st,
                 fp_nvars_end = hs_nvars_end st, fp_data = ly_start ly, fp_next = nxt\<rparr>)"
    using layout_agree [of data pos] ly assms(1) by auto
  have nv: "length (rd_variables (fp_raw p)) = ly_nvars ly"
    using assms(1) R st(3) by (auto simp: rbind_Inr_iff split: if_splits)
  have cols: "\<forall>c \<in> set (map nat cols). c < ly_nvars ly" using assms(3) nv by auto
  have empty: "sp_first plot = None" "sp_last plot = None" "sp_next plot = None"
    using st(1) by (simp_all add: heads_agree_def)
  show ?thesis
  proof (intro exI conjI)
    show "scan_layout data pos = Inr (plot, ly)" by (rule ly)
    show "filter (\<lambda>c. \<not> (0 \<le> c \<and> c < int (ly_nvars ly))) cols = []"
      using assms(3) nv by (auto simp: filter_empty_conv)
    show "(if ly_binary ly then binary_rows data plot ly (map nat cols) first
       else text_rows data (ly_cplx ly) (ly_nvars ly) (map nat cols) first 0 (tokens_from data (ly_start ly))) =
      (map (pick (map nat cols)) (drop first (rd_points (fp_raw p))), None)"
    proof (cases "ly_binary ly")
      case True
      let ?pts = "rd_points (fp_raw p)"
      obtain nxt where b: "read_binary data (ly_start ly) (ly_nvars ly) (ly_cplx ly) (sp_declared plot) = (?pts, nxt)"
        using assms(1) R True by (auto split: prod.splits)
      note rb = read_binary_rows [OF st(2) b]
      have n: "sp_n (scan_binary data (ly_start ly) (ly_nvars ly) (ly_cplx ly) plot) = int (length ?pts)"
        using binary_agree [OF st(2) empty(3,1,2) b] by (simp add: summary_def)
      have row: "binary_row data ly (map nat cols) i = pick (map nat cols) (?pts ! i)" if "i < length ?pts" for i
        using binary_row_values [OF rb(2) [OF that] cols] that by (subst rb(1)) simp
      have "map (binary_row data ly (map nat cols)) [first..<length ?pts] = map (pick (map nat cols)) (drop first ?pts)"
        by (rule nth_equalityI) (simp_all add: row)
      then show ?thesis using True n by (simp add: binary_rows_def)
    next
      case False
      obtain nxt where "text_points data (ly_cplx ly) (ly_nvars ly) [] (tokens_from data (ly_start ly)) = Inr (rd_points (fp_raw p), nxt)"
        using assms(1) R False by (auto simp: rbind_Inr_iff)
      from text_rows_points [OF this, of "map nat cols" first] show ?thesis using False by simp
    qed
  qed
qed

text \<open>Where plot number \<open>k\<close> of a file begins.\<close>

definition plot_pos :: "file_plot list \<Rightarrow> nat \<Rightarrow> nat \<Rightarrow> nat" where
  "plot_pos ps pos k = (if k = 0 then pos else the (fp_next (ps ! (k - 1))))"

lemma plots_pos:
  "read_plots data pos = Inr ps \<Longrightarrow> scan_plots data pos = Inr qs \<Longrightarrow> k < length ps \<Longrightarrow> pos < length data \<Longrightarrow>
     read_plot data (plot_pos ps pos k) = Inr (ps ! k) \<and> plot_pos ps pos k < length data \<and>
     (\<exists>q. scan_plot data (plot_pos ps pos k) = Inr q) \<and> skip_plots data plot pos k = Inr (plot_pos ps pos k)"
proof (induction data pos arbitrary: ps qs k rule: read_plots.induct)
  case (1 data pos)
  obtain p where p: "read_plot data pos = Inr p"
    using "1.prems"(1) by (cases "read_plot data pos") (simp_all add: read_plots.simps [of data pos])
  obtain q where q: "scan_plot data pos = Inr q"
    using "1.prems"(2) by (cases "scan_plot data pos") (simp_all add: scan_plots.simps [of data pos])
  have nx: "sp_next q = fp_next p" using plot_agrees [of data pos] p q by (simp add: counts_def)
  show ?case
  proof (cases k)
    case 0
    have "ps ! 0 = p"
      using "1.prems"(1) p by (auto simp: read_plots.simps [of data pos] rbind_Inr_iff split: option.splits)
    then show ?thesis using 0 p q "1.prems"(4) by (simp add: plot_pos_def)
  next
    case (Suc j)
    obtain n where n: "fp_next p = Some n"
      using "1.prems"(1,3) p Suc by (cases "fp_next p") (auto simp: read_plots.simps [of data pos])
    obtain ps' where ps': "read_plots data n = Inr ps'" "ps = p # ps'"
      using "1.prems"(1) p n by (auto simp: read_plots.simps [of data pos] rbind_Inr_iff)
    obtain qs' where qs': "scan_plots data n = Inr qs'"
      using "1.prems"(2) q nx n by (auto simp: scan_plots.simps [of data pos] rbind_Inr_iff)
    have "n < length data" using read_plot_next [OF p n] by simp
    from "1.IH" [OF p n ps'(1) qs' _ this, of j] show ?thesis
      using Suc "1.prems"(3) ps'(2) q nx n by (cases j) (simp_all add: plot_pos_def)
  qed
qed

lemma file_rows:
  assumes "read_raw_file data = Inr ps" "scan_file data = Inr qs" "k < length ps"
      "\<forall>c \<in> set cols. 0 \<le> c \<and> c < int (length (rd_variables (fp_raw (ps ! k))))"
  shows "iter_rows data k cols None first = (map (pick (map nat cols)) (drop (nat first) (rd_points (fp_raw (ps ! k)))), None)"
    "iter_rows data k cols (Some (int (plot_pos ps 0 k))) first =
       (map (pick (map nat cols)) (drop (nat first) (rd_points (fp_raw (ps ! k)))), None)"
proof -
  have nb: "\<not> byte_blank data" using assms(1) by (auto simp: read_raw_file_def)
  then have "data \<noteq> []" by (auto simp: byte_blank_def)
  then have len: "0 < length data" by simp
  have rs: "read_plots data 0 = Inr ps" "scan_plots data 0 = Inr qs"
    using assms(1,2) nb by (simp_all add: read_raw_file_def scan_file_def)
  from plots_pos [OF rs assms(3) len, of k] obtain q where
      r: "read_plot data (plot_pos ps 0 k) = Inr (ps ! k)" and l: "plot_pos ps 0 k < length data"
      and q: "scan_plot data (plot_pos ps 0 k) = Inr q" and s: "skip_plots data k 0 k = Inr (plot_pos ps 0 k)"
    by blast
  from plot_rows [OF r q assms(4), of "nat first"] obtain plot ly where
      ly: "scan_layout data (plot_pos ps 0 k) = Inr (plot, ly)"
        "filter (\<lambda>c. \<not> (0 \<le> c \<and> c < int (ly_nvars ly))) cols = []"
        "(if ly_binary ly then binary_rows data plot ly (map nat cols) (nat first)
          else text_rows data (ly_cplx ly) (ly_nvars ly) (map nat cols) (nat first) 0 (tokens_from data (ly_start ly))) =
         (map (pick (map nat cols)) (drop (nat first) (rd_points (fp_raw (ps ! k)))), None)"
    by blast
  show "iter_rows data k cols None first = (map (pick (map nat cols)) (drop (nat first) (rd_points (fp_raw (ps ! k)))), None)"
    using nb s ly by (simp add: iter_rows_def)
  show "iter_rows data k cols (Some (int (plot_pos ps 0 k))) first =
       (map (pick (map nat cols)) (drop (nat first) (rd_points (fp_raw (ps ! k)))), None)"
    using nb l ly by (simp add: iter_rows_def)
qed

section \<open>Tables\<close>

text \<open>A table split where its index does not grow.\<close>

fun index_runs :: "(int \<times> 'a) list \<Rightarrow> (int \<times> 'a) list list" where
  "index_runs [] = []"
| "index_runs [x] = [[x]]"
| "index_runs (x # y # r) =
     (if fst y \<le> fst x then [x] # index_runs (y # r)
      else (x # hd (index_runs (y # r))) # tl (index_runs (y # r)))"

lemma index_runs_Nil [simp]: "index_runs xs = [] \<longleftrightarrow> xs = []"
  by (cases xs rule: index_runs.cases) auto

lemma index_runs_snoc:
  "index_runs (xs @ [x]) =
     (if xs = [] \<or> fst x \<le> fst (List.last xs) then index_runs xs @ [[x]]
      else butlast (index_runs xs) @ [List.last (index_runs xs) @ [x]])"
proof (induction xs rule: index_runs.induct)
  case (3 a b r)
  obtain g gs where g: "index_runs (b # r) = g # gs" by (cases "index_runs (b # r)") auto
  show ?case using "3.IH" g by (cases gs) auto
qed auto

lemma index_runs_concat: "concat (index_runs xs) = xs"
proof (induction xs rule: index_runs.induct)
  case (3 a b r)
  obtain g gs where g: "index_runs (b # r) = g # gs" by (cases "index_runs (b # r)") auto
  show ?case using "3.IH" g by auto
qed auto

lemma index_runs_head: "index_runs (y # r) = g # gs \<Longrightarrow> g \<noteq> [] \<and> hd g = y"
  by (cases r) (auto split: if_splits)

lemma index_runs_increasing: "g \<in> set (index_runs xs) \<Longrightarrow> g \<noteq> [] \<and> successively (\<lambda>a b. fst a < fst b) g"
proof (induction xs arbitrary: g rule: index_runs.induct)
  case (3 a b r)
  obtain h hs where h: "index_runs (b # r) = h # hs" by (cases "index_runs (b # r)") auto
  have hb: "h \<noteq> [] \<and> hd h = b" by (rule index_runs_head [OF h])
  have "h \<noteq> [] \<and> successively (\<lambda>a b. fst a < fst b) h" using "3.IH" h by (cases "fst b \<le> fst a") auto
  then show ?case using "3.prems" "3.IH" h hb by (cases h) (auto split: if_splits)
qed auto

definition table_start :: prn_state where
  "table_start = \<lparr>pn_header = None, pn_plots = [], pn_prev = None\<rparr>"

lemma add_rows:
  "fold add_row rows (table_start\<lparr>pn_header := h\<rparr>) =
     \<lparr>pn_header = h, pn_plots = map (map (\<lambda>(i, vs). map Rv vs)) (index_runs rows),
      pn_prev = (if rows = [] then None else Some (fst (List.last rows)))\<rparr>"
proof (induction rows rule: rev_induct)
  case (snoc x rows)
  obtain i vs where x: "x = (i, vs)" by (cases x)
  show ?case
    using snoc by (auto simp: add_row_def index_runs_snoc x map_butlast last_map Let_def table_start_def)
qed (simp add: table_start_def)

text \<open>The lines of a table: those that are not blank, up to the end mark.\<close>

definition table_lines :: "(nat \<times> string) list \<Rightarrow> (nat \<times> string) list" where
  "table_lines ls = takeWhile (\<lambda>(k, l). \<not> prn_end (py_strip l)) (filter (\<lambda>(k, l). py_strip l \<noteq> []) ls)"

lemma prn_lines_rows:
  "pn_header st = Some h \<Longrightarrow>
   prn_lines ls st = rbind (rmap (\<lambda>(k, l). prn_row k l (length h)) (table_lines ls)) (\<lambda>rows. Inr (fold add_row rows st))"
proof (induction ls arbitrary: st)
  case (Cons a ls)
  obtain k l where a: "a = (k, l)" by (cases a)
  show ?case
  proof (cases "py_strip l = []")
    case True
    then show ?thesis using Cons a by (simp add: table_lines_def)
  next
    case text_: False
    show ?thesis
    proof (cases "prn_end (py_strip l)")
      case True
      then show ?thesis using text_ a by (simp add: table_lines_def Let_def)
    next
      case False
      have t: "table_lines (a # ls) = (k, l) # table_lines ls" using text_ False a by (simp add: table_lines_def)
      show ?thesis
      proof (cases "prn_row k l (length h)")
        case (Inl e)
        then show ?thesis using text_ False a Cons.prems t by (simp add: Let_def)
      next
        case (Inr row)
        have "pn_header (add_row row st) = Some h" using Cons.prems by (cases row) (simp add: add_row_def Let_def)
        from Cons.IH [OF this] show ?thesis
          using text_ False a Cons.prems t Inr by (simp add: Let_def rbind_assoc)
      qed
    qed
  qed
qed (simp add: table_lines_def)

text \<open>The tables of a file, from its lines.\<close>

definition tables_of :: "(nat \<times> string) list \<Rightarrow> raw_err + raw_data list" where
  "tables_of ls =
     (case table_lines ls of
        [] \<Rightarrow> Inl NoTable
      | (k, l) # rest \<Rightarrow>
          if py_lower (hd (py_words l)) \<noteq> ''index'' then Inl (NotTable k (take 80 (py_strip l)))
          else rbind (rmap (\<lambda>(k, r). prn_row k r (length (py_words l))) rest) (\<lambda>rows.
            Inr (map (\<lambda>(j, run). prn_plot (py_words l) j (map (\<lambda>(i, vs). map Rv vs) run))
                  (let runs = (if rows = [] then [[]] else index_runs rows) in zip [1..<Suc (length runs)] runs))))"

lemma prn_lines_table:
  "prn_lines ls table_start =
     (case table_lines ls of
        [] \<Rightarrow> Inr table_start
      | (k, l) # rest \<Rightarrow>
          if py_lower (hd (py_words l)) \<noteq> ''index'' then Inl (NotTable k (take 80 (py_strip l)))
          else rbind (rmap (\<lambda>(k, r). prn_row k r (length (py_words l))) rest)
                 (\<lambda>rows. Inr (fold add_row rows (table_start\<lparr>pn_header := Some (py_words l)\<rparr>))))"
proof (induction ls)
  case (Cons a ls)
  obtain k l where a: "a = (k, l)" by (cases a)
  show ?case
  proof (cases "py_strip l = []")
    case True
    then show ?thesis using Cons a by (simp add: table_lines_def)
  next
    case text_: False
    show ?thesis
    proof (cases "prn_end (py_strip l)")
      case True
      then show ?thesis using text_ a by (simp add: table_lines_def Let_def)
    next
      case False
      have t: "table_lines (a # ls) = (k, l) # table_lines ls" using text_ False a by (simp add: table_lines_def)
      have h: "pn_header table_start = None" by (simp add: table_start_def)
      have g: "pn_header (table_start\<lparr>pn_header := Some (py_words l)\<rparr>) = Some (py_words l)" by simp
      show ?thesis using text_ False a t h prn_lines_rows [OF g, of ls] by (simp add: Let_def)
    qed
  qed
qed (simp add: table_lines_def)

lemma read_prn_tables:
  "read_prn data = (let lines = split_lines (raw_text data) in tables_of (zip [1..<Suc (length lines)] lines))"
proof -
  let ?ls = "zip [1..<Suc (length (split_lines (raw_text data)))] (split_lines (raw_text data))"
  have start: "\<lparr>pn_header = None, pn_plots = [], pn_prev = None\<rparr> = table_start" by (simp add: table_start_def)
  have r: "read_prn data = rbind (prn_lines ?ls table_start) (\<lambda>st.
        case pn_header st of
          None \<Rightarrow> Inl NoTable
        | Some h \<Rightarrow> (let ps = (if pn_plots st = [] then [[]] else pn_plots st) in
                     Inr (map (\<lambda>(k, p). prn_plot h k p) (zip [1..<Suc (length ps)] ps))))"
    by (simp add: read_prn_def Let_def start)
  have zm: "zip ks (map f xs) = map (\<lambda>(k, x). (k, f x)) (zip ks xs)" for ks :: "nat list" and f and xs
    by (rule zip_map2)
  show ?thesis
  proof (cases "table_lines ?ls")
    case Nil
    then show ?thesis unfolding r prn_lines_table by (simp add: tables_of_def table_start_def Let_def)
  next
    case (Cons a rest)
    obtain k l where a: "a = (k, l)" by (cases a)
    show ?thesis
    proof (cases "py_lower (hd (py_words l)) \<noteq> ''index''")
      case True
      then show ?thesis using Cons a unfolding r prn_lines_table by (simp add: tables_of_def Let_def)
    next
      case False
      show ?thesis
      proof (cases "rmap (\<lambda>(k, r). prn_row k r (length (py_words l))) rest")
        case (Inl e)
        then show ?thesis using Cons a False unfolding r prn_lines_table by (simp add: tables_of_def Let_def)
      next
        case (Inr rows)
        have "map (\<lambda>(k, p). prn_plot (py_words l) k p) (zip ks (map (map (\<lambda>(i, vs). map Rv vs)) runs)) =
            map (\<lambda>(j, run). prn_plot (py_words l) j (map (\<lambda>(i, vs). map Rv vs) run)) (zip ks runs)" for ks runs
          by (simp add: zip_map2 case_prod_beta')
        moreover have "[Suc 0..<Suc (Suc 0)] = [Suc 0]" by simp
        ultimately show ?thesis using Cons a False Inr unfolding r prn_lines_table
          by (cases "rows = []") (simp_all add: tables_of_def Let_def add_rows del: upt_Suc)
      qed
    qed
  qed
qed

section \<open>Interpolation\<close>

lemma bisect_brackets:
  assumes "bisect ts t lo hi = (l, h)" "lo \<le> hi"
  shows "lo \<le> l \<and> l \<le> h \<and> h \<le> hi \<and> h \<le> l + 1 \<and> (l = lo \<or> fle (ts ! l) t) \<and> (h = hi \<or> \<not> fle (ts ! h) t)"
  using assms
proof (induction ts t lo hi rule: bisect.induct)
  case (1 ts t lo hi)
  show ?case
  proof (cases "hi \<le> lo + 1")
    case True
    then show ?thesis using "1.prems" by (auto simp: bisect.simps [of ts t lo])
  next
    case False
    let ?m = "(lo + hi) div 2"
    have m: "lo \<le> ?m" "?m \<le> hi" using False by auto
    show ?thesis
    proof (cases "fle (ts ! ?m) t")
      case True
      then have "bisect ts t ?m hi = (l, h)" using "1.prems"(1) False by (simp add: bisect.simps [of ts t lo] Let_def)
      from "1.IH"(1) [OF False refl True this m(2)] show ?thesis using m True by auto
    next
      case gt: False
      then have "bisect ts t lo ?m = (l, h)" using "1.prems"(1) False by (simp add: bisect.simps [of ts t lo] Let_def)
      from "1.IH"(2) [OF False refl gt this m(1)] show ?thesis using m gt by auto
    qed
  qed
qed

section \<open>Properties\<close>

text \<open>C20: one pass over the mapped file counts what reading it finds: for any bytes, the scan and the
  reader give the same plots with the same declared counts, points, first and last times, fields and
  offsets, or the same error; but for a header line over the scanner's limit, and a variable list
  that does not have the declared length, which only the reader refuses.\<close>

theorem scan_counts_points: "passes_agree (list_all2 counts) (read_raw_file data) (scan_file data)"
  by (rule files_agree)

text \<open>C21: the rows streamed for a plot are the columns of the points that reading the whole file gives,
  from the first row asked for, whether the plot is found by its number or by its offset.\<close>

theorem streamed_rows:
  assumes "read_raw_file data = Inr ps" "scan_file data = Inr qs" "k < length ps"
      "\<forall>c \<in> set cols. 0 \<le> c \<and> c < int (length (rd_variables (fp_raw (ps ! k))))"
  shows "iter_rows data k cols None first = (map (pick (map nat cols)) (drop (nat first) (rd_points (fp_raw (ps ! k)))), None) \<and>
    iter_rows data k cols (Some (int (plot_pos ps 0 k))) first = iter_rows data k cols None first"
  using file_rows [OF assms] by simp

definition sample_file :: string where
  "sample_file = ''Flags: real'' @ [newline] @ ''No. Variables: 1'' @ [newline] @ ''Variables:'' @ [newline] @
     ''0 v v'' @ [newline] @ ''Values:'' @ [newline] @ ''0 inf'' @ [newline] @ ''1 nan'' @ [newline]"

definition sample_plot :: file_plot where
  "sample_plot = \<lparr>fp_raw = new_raw\<lparr>rd_flags := [''real''], rd_variables := [(''v'', ''v'')],
      rd_points := [[Rv (Inf False)], [Rv NaN]], rd_binary := False\<rparr>,
     fp_field = None, fp_nvars_end = Some 29, fp_data = 54, fp_next = None\<rparr>"

definition sample_scan :: scanned where
  "sample_scan = new_scanned\<lparr>sp_n := 2, sp_first := Some (Inf False), sp_last := Some NaN, sp_nvars_end := Some 29\<rparr>"

definition sample_head :: head_state where
  "sample_head = \<lparr>hs_raw = new_raw\<lparr>rd_flags := [''real''], rd_variables := [(''v'', ''v'')]\<rparr>, hs_field = None,
     hs_nvars = Some 1, hs_nvars_end = Some 29\<rparr>"

definition sample_state :: scan_state where
  "sample_state = \<lparr>ss_plot = new_scanned\<lparr>sp_nvars_end := Some 29\<rparr>, ss_nvars = Some 1, ss_cplx = False, ss_listed = True\<rparr>"

lemma sample_blank: "\<not> byte_blank sample_file"
  by code_simp

lemma sample_header: "read_header sample_file 0 start_head = Inr (sample_head, 54, False)"
  by code_simp

lemma sample_scan_header: "scan_header sample_file 0 start_scan = Inr (sample_state, 54, False)"
  by code_simp

lemma sample_points: "text_points sample_file False 1 [] (tokens_from sample_file 54) = Inr ([[Rv (Inf False)], [Rv NaN]], None)"
  by code_simp

lemmas sample_parts = sample_blank sample_header sample_scan_header sample_points

lemma sample_counted: "count_points sample_file False 1 (ss_plot sample_state) (tokens_from sample_file 54) = Inr sample_scan"
  by code_simp

lemma sample_read: "read_raw_file sample_file = Inr [sample_plot]"
  using sample_parts
  by (simp add: read_raw_file_def read_plots.simps [of sample_file 0] read_plot_def Let_def sample_head_def sample_plot_def
    rd_complex_def)

lemma sample_scanned: "scan_file sample_file = Inr [sample_scan]"
  using sample_parts sample_counted
  by (simp add: scan_file_def scan_plots.simps [of sample_file 0] scan_plot_def scan_layout_def sample_state_def sample_scan_def
    new_scanned_def)

theorem streamed_rows_witness:
  "iter_rows sample_file 0 [0] None 1 = ([[Rv NaN]], None) \<and>
   iter_rows sample_file 0 [0] (Some 0) 1 = iter_rows sample_file 0 [0] None 1"
proof -
  have "iter_rows sample_file 0 [0] None 1 =
      (map (pick (map nat [0])) (drop (nat 1) (rd_points (fp_raw ([sample_plot] ! 0)))), None) \<and>
    iter_rows sample_file 0 [0] (Some (int (plot_pos [sample_plot] 0 0))) 1 = iter_rows sample_file 0 [0] None 1"
    by (rule streamed_rows [OF sample_read sample_scanned]) (simp_all add: sample_plot_def)
  then show ?thesis by (simp add: sample_plot_def pick_def plot_pos_def)
qed

text \<open>C22: a Xyce table with steps is split exactly where its index does not grow: the rows of the plots
  in order are the rows of the file, and within a plot the index grows from row to row; every error
  is that of the first bad line.\<close>

theorem tables_split:
  "read_prn data = (let lines = split_lines (raw_text data) in tables_of (zip [1..<Suc (length lines)] lines)) \<and>
   concat (index_runs rows) = rows \<and>
   list_all (\<lambda>run. run \<noteq> [] \<and> successively (\<lambda>a b. fst a < fst b) run) (index_runs rows)"
  using read_prn_tables index_runs_concat index_runs_increasing by (auto simp: list_all_iff)

text \<open>Interpolation takes the two neighbouring points: the bisection ends with the last point that it
  found at or before the time and the next one, after it.\<close>

lemma value_between:
  assumes "value_at ts ys t = Inr y"
  shows "\<exists>lo hi. lo \<le> hi \<and> hi \<le> lo + 1 \<and> hi < length ts \<and> (lo = 0 \<or> fle (ts ! lo) t) \<and>
    (hi = length ts - 1 \<or> \<not> fle (ts ! hi) t) \<and> y = interpolate ts ys t (lo, hi)"
proof -
  have ts: "ts \<noteq> []" and y: "y = interpolate ts ys t (bisect ts t 0 (length ts - 1))"
    using assms by (auto simp: value_at_def split: if_splits)
  obtain l h where b: "bisect ts t 0 (length ts - 1) = (l, h)" by (cases "bisect ts t 0 (length ts - 1)")
  show ?thesis
    using bisect_brackets [OF b] y b ts by (intro exI [of _ l] exI [of _ h]) (cases ts; auto)
qed

end
