(* ===== verification/SpiceLex.thy ===== *)
theory SpiceLex
  imports InitFile
begin

text \<open>
  The lexical layer of \<open>vamos/netlist/spice.py\<close>, the reader of HSPICE netlists: physical lines become
  statements (comments dropped, continuations joined), a statement becomes fields, and a file is
  indexed by its \<open>.lib\<close> sections. \<open>_LexError\<close> is the left side of a sum. Python's own
  \<open>AttributeError\<close>, which \<open>_lex\<close> raises when \<open>_PLAIN\<close> matches nothing, is a value of the same error
  type.
\<close>

section \<open>Names\<close>

definition GROUND_ALIASES :: "string list" where
  "GROUND_ALIASES = [''0'', ''gnd'', ''gnd!'', ''ground'']"

text \<open>\<open>str.isdigit\<close> of a text.\<close>

definition text_isdigit :: "string \<Rightarrow> bool" where
  "text_isdigit s \<longleftrightarrow> s \<noteq> [] \<and> list_all py_isdigit s"

definition fold_ground :: "string \<Rightarrow> string" where
  "fold_ground name =
     (let low = py_lower name in
      if low \<in> set GROUND_ALIASES \<or> (text_isdigit low \<and> list_all (\<lambda>c. c = CHR ''0'') low) then ''0'' else name)"

section \<open>Statements\<close>

definition py_lstrip :: "string \<Rightarrow> string" where
  "py_lstrip s = dropWhile py_isspace s"

text \<open>\<open>_DOT_KW.match\<close>, lowercased by the caller.\<close>

definition dot_kw :: "string \<Rightarrow> string option" where
  "dot_kw s = (case s of
     p # c # r \<Rightarrow> if p = CHR ''.'' \<and> name_start c then Some (p # c # takeWhile name_char r) else None
   | _ \<Rightarrow> None)"

definition keyword :: "string \<Rightarrow> string" where
  "keyword s = (if py_startswith s ''.'' then (case dot_kw s of Some m \<Rightarrow> py_lower m | None \<Rightarrow> ''.'')
                else py_lower (take 1 s))"

record sp_stmt =
  st_text :: string
  st_origin :: string
  st_kw :: string

definition mk_stmt :: "string \<Rightarrow> string \<Rightarrow> sp_stmt" where
  "mk_stmt s orig = \<lparr>st_text = py_strip s, st_origin = orig, st_kw = keyword (py_strip s)\<rparr>"

definition quote_char :: "char \<Rightarrow> bool" where
  "quote_char c \<longleftrightarrow> c = CHR 0x27 \<or> c = CHR 0x22"

definition tab_blank :: "char \<Rightarrow> bool" where
  "tab_blank c \<longleftrightarrow> c = CHR '' '' \<or> c = CHR 0x09"

text \<open>
  The loop of \<open>_strip_comment\<close>: \<open>q\<close> is the open quote, \<open>b\<close> tells whether the text so far is empty or ends
  with a blank.
\<close>

fun strip_from :: "char option \<Rightarrow> bool \<Rightarrow> string \<Rightarrow> string \<times> char option" where
  "strip_from q b [] = ([], q)"
| "strip_from q b (c # s) =
     (case q of
        Some x \<Rightarrow> apfst ((#) c) (strip_from (if c = x then None else q) (tab_blank c) s)
      | None \<Rightarrow>
          if quote_char c then apfst ((#) c) (strip_from (Some c) (tab_blank c) s)
          else if c = CHR '';'' then ([], None)
          else if c = CHR ''$'' \<and> b then ([], None)
          else if c = CHR ''/'' \<and> py_startswith s ''/'' \<and> b then ([], None)
          else apfst ((#) c) (strip_from None (tab_blank c) s))"

definition strip_comment :: "string \<Rightarrow> char option \<Rightarrow> string \<times> char option" where
  "strip_comment s q =
     (if q = None \<and> list_all (\<lambda>c. c \<noteq> CHR ''$'' \<and> c \<noteq> CHR '';'' \<and> c \<noteq> CHR ''/'' \<and> \<not> quote_char c) s then (s, None)
      else strip_from q True s)"

section \<open>Fields\<close>

type_synonym field = "string option \<times> string"

datatype field_err = LexText string | NoMatch

text \<open>\<open>_brace_end\<close>: the index of the brace that closes the first one, from the depth so far.\<close>

fun brace_end :: "nat \<Rightarrow> string \<Rightarrow> nat option" where
  "brace_end d [] = None"
| "brace_end d (c # s) =
     (if c = CHR ''{'' then map_option Suc (brace_end (Suc d) s)
      else if c = CHR ''}'' then (if d = 1 then Some 0 else map_option Suc (brace_end (d - 1) s))
      else map_option Suc (brace_end d s))"

text \<open>The characters of \<open>_PLAIN\<close>, and the blanks that \<open>_lex\<close> tests for.\<close>

definition plain_field_char :: "char \<Rightarrow> bool" where
  "plain_field_char c \<longleftrightarrow> \<not> re_space c \<and> \<not> quote_char c \<and> c \<notin> {CHR ''{'', CHR ''}'', CHR ''('', CHR '')'', CHR ''='', CHR '',''}"

definition lex_blank :: "char \<Rightarrow> bool" where
  "lex_blank c \<longleftrightarrow> code_in 9 13 c \<or> c = CHR '' ''"

definition unterminated_quote :: "char \<Rightarrow> field_err" where
  "unterminated_quote c = LexText (''unterminated '' @ c # '' quote'')"

text \<open>An equals sign: part of a comparison, the end of a key, or the end of a key written before blanks.\<close>

definition lex_equals ::
  "string \<Rightarrow> string option \<Rightarrow> nat \<Rightarrow> field list \<Rightarrow> string \<Rightarrow> field_err + (string \<times> string option \<times> field list)" where
  "lex_equals cur key depth out s =
     (if depth \<noteq> 0 \<or> py_startswith s ''='' \<or> (cur \<noteq> [] \<and> last cur \<in> {CHR ''<'', CHR ''>'', CHR ''!'', CHR ''=''})
        then Inr (cur @ ''='', key, out)
      else if cur \<noteq> [] then
        (case key of Some k \<Rightarrow> Inl (LexText (''unexpected '' @ quoted ''='' @ '' in '' @ k @ ''='' @ cur @ ''=''))
                   | None \<Rightarrow> Inr ([], Some cur, out))
      else (case (key, rev out) of
              (None, (None, w) # r) \<Rightarrow> Inr ([], Some w, rev r)
            | _ \<Rightarrow> Inl (LexText (quoted ''='' @ '' without a name before it''))))"

text \<open>The end of a field at a blank or a comma outside parentheses.\<close>

definition end_field :: "string \<Rightarrow> string option \<Rightarrow> field list \<Rightarrow> string option \<times> field list" where
  "end_field cur key out = (if cur \<noteq> [] then (None, out @ [(key, cur)]) else (key, out))"

lemma find_char_less: "find_char x s = Some k \<Longrightarrow> length (drop (Suc k) s) < Suc (length s)"
  by simp

function lex_go :: "string \<Rightarrow> string option \<Rightarrow> nat \<Rightarrow> field list \<Rightarrow> string \<Rightarrow> field_err + field list" where
  "lex_go cur key depth out [] =
     (if depth \<noteq> 0 then Inl (LexText (''unclosed '' @ quoted ''(''))
      else Inr (if cur \<noteq> [] \<or> key \<noteq> None then out @ [(key, cur)] else out))"
| "lex_go cur key depth out (c # s) =
     (if quote_char c then
        (case find_char c s of
           None \<Rightarrow> Inl (unterminated_quote c)
         | Some k \<Rightarrow> lex_go (cur @ c # take (Suc k) s) key depth out (drop (Suc k) s))
      else if c = CHR ''{'' then
        (case brace_end 1 s of
           None \<Rightarrow> Inl (LexText (''unclosed '' @ quoted ''{''))
         | Some k \<Rightarrow> lex_go (cur @ c # take (Suc k) s) key depth out (drop (Suc k) s))
      else if c = CHR ''}'' then Inl (LexText (''unbalanced '' @ quoted ''}''))
      else if c = CHR ''('' then lex_go (cur @ [c]) key (Suc depth) out s
      else if c = CHR '')'' then
        (if depth = 0 then Inl (LexText (''unbalanced '' @ quoted '')''))
         else lex_go (cur @ [c]) key (depth - 1) out s)
      else if lex_blank c then
        (if depth \<noteq> 0 then lex_go (cur @ '' '') key depth out (dropWhile re_space s)
         else (let (k, o') = end_field cur key out in lex_go [] k depth o' (dropWhile re_space s)))
      else if c = CHR '','' then
        (if depth \<noteq> 0 then lex_go (cur @ [c]) key depth out s
         else (let (k, o') = end_field cur key out in lex_go [] k depth o' s))
      else if c = CHR ''='' then
        (case lex_equals cur key depth out s of
           Inl e \<Rightarrow> Inl e
         | Inr (cur', key', out') \<Rightarrow> lex_go cur' key' depth out' s)
      else if plain_field_char c then
        lex_go (cur @ c # takeWhile plain_field_char s) key depth out (dropWhile plain_field_char s)
      else Inl NoMatch)"
  by pat_completeness auto
termination
  by (relation "measure (\<lambda>(cur, key, depth, out, s). length s)") (auto simp: length_dropWhile_le less_Suc_eq_le)

declare lex_go.simps [simp del]

definition lex_fields :: "string \<Rightarrow> field_err + field list" where
  "lex_fields s = lex_go [] None 0 [] s"

text \<open>
  \<open>_star_comment\<close>: \<open>pre\<close> is the text before the rest \<open>s\<close>. A \<open>_LexError\<close> of the fields leaves the line as it
  is; the other error is not caught.
\<close>

fun star_from :: "string \<Rightarrow> string \<Rightarrow> char option \<Rightarrow> int \<Rightarrow> string \<Rightarrow> field_err + string" where
  "star_from whole pre q depth [] = Inr whole"
| "star_from whole pre q depth (c # s) =
     (let b = (pre = [] \<or> tab_blank (last pre)) in
      case q of
        Some x \<Rightarrow> star_from whole (pre @ [c]) (if c = x then None else q) depth s
      | None \<Rightarrow>
          if quote_char c then star_from whole (pre @ [c]) (Some c) depth s
          else if c = CHR ''('' \<or> c = CHR ''{'' then star_from whole (pre @ [c]) q (depth + 1) s
          else if c = CHR '')'' \<or> c = CHR ''}'' then star_from whole (pre @ [c]) q (depth - 1) s
          else if c = CHR '';'' \<or> ((c = CHR ''$'' \<or> py_startswith (c # s) ''//'') \<and> b) then Inr whole
          else if c = CHR ''*'' \<and> depth = 0 \<and> pre \<noteq> [] \<and> b then
            (let prefix = py_rstrip pre in
             case lex_fields prefix of
               Inl NoMatch \<Rightarrow> Inl NoMatch
             | Inl (LexText _) \<Rightarrow> Inr whole
             | Inr fs \<Rightarrow>
                 Inr (if 2 \<le> length fs \<and> fst (last fs) = None \<and> \<not> py_endswith prefix ''='' then prefix else whole))
          else star_from whole (pre @ [c]) q depth s)"

definition star_comment :: "string \<Rightarrow> field_err + string" where
  "star_comment s = (if CHR ''*'' \<notin> set s then Inr s else star_from s [] None 0 s)"

section \<open>Logical lines\<close>

text \<open>\<open>_file_of\<close>: the text before the last colon, where a line number follows it.\<close>

definition file_of :: "string \<Rightarrow> string" where
  "file_of orig =
     (let (a, line) = rsplit_at CHR '':'' orig in
      if a \<noteq> [] \<and> text_isdigit (py_strip line) then butlast a else orig)"

definition rstrip_crlf :: "string \<Rightarrow> string" where
  "rstrip_crlf s = rev (dropWhile (\<lambda>c. c = CHR 0x0D \<or> c = CHR ''\<newline>'') (rev s))"

lemma rstrip_crlf_plain: "s = [] \<or> last s \<noteq> CHR 0x0D \<and> last s \<noteq> CHR ''\<newline>'' \<Longrightarrow> rstrip_crlf s = s"
  by (cases s rule: rev_cases) (auto simp: rstrip_crlf_def)

type_synonym phys = "(string \<times> string) list"

definition BOUNDARY :: string where
  "BOUNDARY = ''a statement cannot continue across a file boundary (UG p.73)''"

text \<open>
  The inner loop of \<open>_logical\<close>: a line that ends with a backslash goes on with the next physical one. The
  result is the line, the physical lines after it, and the notes.
\<close>

fun join_back :: "bool \<Rightarrow> char option \<Rightarrow> string \<Rightarrow> string \<Rightarrow> phys \<Rightarrow> string \<times> phys \<times> diag list" where
  "join_back sp q orig line [] = (line, [], [])"
| "join_back sp q orig line ((nxt, o') # rest) =
     (let s = py_rstrip line in
      if \<not> py_endswith s [backslash] \<or> py_startswith (py_lstrip s) ''*'' then (line, (nxt, o') # rest, [])
      else if \<not> py_endswith (py_rstrip (fst (strip_comment s q))) [backslash] then (line, (nxt, o') # rest, [])
      else if sp \<and> file_of o' \<noteq> file_of orig then
        (butlast s, (nxt, o') # rest,
         [error orig (''the statement continues with '' @ quoted [backslash] @ '' into another file ('' @ o' @
                      ''): '' @ BOUNDARY)])
      else
        (let n = rstrip_crlf nxt in
         join_back sp q orig
           (if py_endswith s [backslash, backslash] then py_rstrip (take (length s - 2) s) @ py_lstrip n
            else butlast s @ n) rest))"

lemma join_back_length: "join_back sp q orig line rest = (l, r, ns) \<Longrightarrow> length r \<le> length rest"
  by (induction sp q orig line rest rule: join_back.induct)
    (fastforce simp: Let_def split: if_splits)+

text \<open>The local variables of \<open>_logical\<close>.\<close>

record lines_state =
  ls_stmts :: "sp_stmt list"
  ls_notes :: "diag list"
  ls_parts :: "string list option"
  ls_first :: string
  ls_quote :: "char option"

definition lines_init :: lines_state where
  "lines_init = \<lparr>ls_stmts = [], ls_notes = [], ls_parts = None, ls_first = [], ls_quote = None\<rparr>"

definition ls_note :: "diag \<Rightarrow> lines_state \<Rightarrow> lines_state" where
  "ls_note d st = st\<lparr>ls_notes := ls_notes st @ [d]\<rparr>"

text \<open>The statement that is being collected ends.\<close>

definition flush_parts :: "lines_state \<Rightarrow> lines_state" where
  "flush_parts st = (case ls_parts st of
     None \<Rightarrow> st
   | Some ps \<Rightarrow> st\<lparr>ls_stmts := ls_stmts st @ [mk_stmt (py_join '' '' ps) (ls_first st)]\<rparr>)"

definition continue_line :: "bool \<Rightarrow> string \<Rightarrow> string \<Rightarrow> lines_state \<Rightarrow> lines_state" where
  "continue_line sp orig t st =
     (let (body, q) = strip_comment t (ls_quote st); st1 = st\<lparr>ls_quote := q\<rparr> in
      case ls_parts st1 of
        None \<Rightarrow> ls_note (error orig (''continuation line '' @ quoted ''+'' @ '' without a statement before it'')) st1
      | Some ps \<Rightarrow>
          if sp \<and> file_of orig \<noteq> file_of (ls_first st1)
            then ls_note (error orig (''continuation line '' @ quoted ''+'' @ '' would continue the statement at '' @
                   ls_first st1 @ '', which is in another file: '' @ BOUNDARY)) st1
          else st1\<lparr>ls_parts := Some (ps @ [body])\<rparr>)"

definition comment_line :: "bool \<Rightarrow> string \<Rightarrow> string \<Rightarrow> lines_state \<Rightarrow> lines_state" where
  "comment_line sp orig t st =
     (if sp \<and> py_startswith (py_lower (py_lstrip (drop 1 t))) ''spectre:''
      then ls_note (error orig (quoted ''* spectre:'' @ '' carries Spectre text hidden from SPICE, which v1 does not read; the element or parameter it carries would be lost ('' @ [CHR 0xA7] @ ''3.13)'')) st
      else st)"

definition start_line :: "bool \<Rightarrow> string \<Rightarrow> string \<Rightarrow> lines_state \<Rightarrow> field_err + lines_state" where
  "start_line sp orig t st =
     rbind (if sp \<and> hd t \<noteq> CHR ''.'' then star_comment t else Inr t) (\<lambda>t'.
       let (body, q) = strip_comment t' None in
       Inr ((flush_parts st)\<lparr>ls_parts := Some [body], ls_first := orig, ls_quote := q\<rparr>))"

definition logical_line :: "bool \<Rightarrow> string \<Rightarrow> string \<Rightarrow> lines_state \<Rightarrow> field_err + lines_state" where
  "logical_line sp orig line st =
     (let t = py_lstrip line in
      if t = [] \<or> hd t = CHR ''*'' then Inr (comment_line sp orig t st)
      else if hd t = CHR ''+'' then Inr (continue_line sp orig (tl t) st)
      else start_line sp orig t st)"

function logical_loop :: "bool \<Rightarrow> phys \<Rightarrow> lines_state \<Rightarrow> field_err + lines_state" where
  "logical_loop sp [] st = Inr st"
| "logical_loop sp ((line, orig) # rest) st =
     (let (l, rest', ns) = join_back sp (ls_quote st) orig (rstrip_crlf line) rest in
      rbind (logical_line sp orig l (st\<lparr>ls_notes := ls_notes st @ ns\<rparr>)) (logical_loop sp rest'))"
  by pat_completeness auto
termination
  by (relation "measure (\<lambda>(sp, rest, st). length rest)")
    (auto dest!: sym [of "(_, _, _)"] join_back_length)

declare logical_loop.simps [simp del]

definition logical :: "bool \<Rightarrow> phys \<Rightarrow> field_err + (sp_stmt list \<times> diag list)" where
  "logical sp ps = rbind (logical_loop sp ps lines_init) (\<lambda>st.
     Inr (filter (\<lambda>s. st_text s \<noteq> []) (ls_stmts (flush_parts st)), ls_notes st))"

text \<open>In the HSPICE dialect the lines are always read.\<close>

lemma start_line_hspice:
  "start_line False orig t st = Inr ((flush_parts st)\<lparr>ls_parts := Some [fst (strip_comment t None)], ls_first := orig,
     ls_quote := snd (strip_comment t None)\<rparr>)"
  by (simp add: start_line_def split_beta)

lemma logical_line_hspice: "\<exists>s. logical_line False orig l st = Inr s"
  by (simp add: logical_line_def Let_def start_line_hspice)

lemma logical_hspice: "\<exists>r. logical False ps = Inr r"
proof -
  have "\<exists>r. logical_loop False ps st = Inr r" for st
  proof (induction False ps st rule: logical_loop.induct)
    case (2 line orig rest st)
    obtain l r ns where j: "join_back False (ls_quote st) orig (rstrip_crlf line) rest = (l, r, ns)"
      by (metis prod_cases3)
    obtain s where "logical_line False orig l (st\<lparr>ls_notes := ls_notes st @ ns\<rparr>) = Inr s"
      using logical_line_hspice [of orig l "st\<lparr>ls_notes := ls_notes st @ ns\<rparr>"] by (elim exE)
    then show ?case using 2 [OF j [symmetric]] by (simp add: logical_loop.simps j)
  qed (simp add: logical_loop.simps)
  from this [of lines_init] show ?thesis by (elim exE) (simp add: logical_def)
qed

section \<open>Files\<close>

text \<open>\<open>_path_args\<close>.\<close>

function path_args :: "string \<Rightarrow> field_err + string list" where
  "path_args [] = Inr []"
| "path_args (c # s) =
     (if tab_blank c \<or> c = CHR '','' then path_args s
      else if quote_char c then
        (case find_char c s of
           None \<Rightarrow> Inl (unterminated_quote c)
         | Some k \<Rightarrow> rbind (path_args (drop (Suc k) s)) (\<lambda>ws. Inr (take k s # ws)))
      else
        rbind (path_args (dropWhile (\<lambda>x. \<not> (tab_blank x \<or> x = CHR '','')) s))
          (\<lambda>ws. Inr ((c # takeWhile (\<lambda>x. \<not> (tab_blank x \<or> x = CHR '','')) s) # ws)))"
  by pat_completeness auto
termination
  by (relation "measure length") (auto simp: length_dropWhile_le less_Suc_eq_le)

declare path_args.simps [simp del]

record sp_file =
  fl_path :: string
  fl_stmts :: "sp_stmt list"
  fl_sections :: "(string \<times> nat \<times> nat \<times> string) list"
  fl_skip :: "(nat \<times> nat) list"
  fl_notes :: "diag list"

type_synonym opened = "(string \<times> nat \<times> string) option"

definition close_section :: "string \<times> nat \<times> string \<Rightarrow> nat \<Rightarrow> sp_file \<Rightarrow> sp_file" where
  "close_section op n f =
     (let (name, start, orig) = op; f1 = f\<lparr>fl_skip := dict_set start n (fl_skip f)\<rparr> in
      case map_of (fl_sections f1) name of
        Some (_, _, o') \<Rightarrow> f1\<lparr>fl_notes := fl_notes f1 @
          [mk_note orig (''section '' @ name @ '' is defined again (first at '' @ o' @ ''); the first definition is used'')]\<rparr>
      | None \<Rightarrow> f1\<lparr>fl_sections := dict_set name (start + 1, n, orig) (fl_sections f1)\<rparr>)"

definition index_stmt :: "nat \<times> sp_stmt \<Rightarrow> opened \<times> sp_file \<Rightarrow> opened \<times> sp_file" where
  "index_stmt = (\<lambda>(idx, st) (opened, f).
     if st_kw st = ''.lib'' then
       (case path_args (drop 4 (st_text st)) of
          Inl _ \<Rightarrow> (opened, f)
        | Inr args \<Rightarrow>
            if length args = 1 \<and> opened = None then (Some (py_lower (hd args), idx, st_origin st), f) else (opened, f))
     else if st_kw st = ''.endl'' then
       (case opened of Some op \<Rightarrow> (None, close_section op idx f) | None \<Rightarrow> (opened, f))
     else (opened, f))"

definition mk_file :: "string \<Rightarrow> sp_stmt list \<Rightarrow> sp_file" where
  "mk_file path stmts =
     (let (opened, f) = fold index_stmt (enumerate 0 stmts)
            (None, \<lparr>fl_path = path, fl_stmts = stmts, fl_sections = [], fl_skip = [], fl_notes = []\<rparr>) in
      case opened of
        None \<Rightarrow> f
      | Some (name, start, orig) \<Rightarrow>
          close_section (name, start, orig) (length stmts)
            (f\<lparr>fl_notes := fl_notes f @ [error orig (''.lib '' @ name @ '' has no .endl'')]\<rparr>))"

end
