(* ===== verification/VaPre.thy ===== *)
theory VaPre
  imports SpiceLex NetlistIr
begin

text \<open>
  The Verilog-A module discovery of \<open>vamos/netlist/spice.py\<close>: the preprocessor \<open>_VaPre\<close> (macros with and
  without arguments, conditionals, includes on a search list, comments removed) and the scan of module
  headers and parameter declarations. The regular expressions are functions on characters; a search is
  a recursion that carries the character before, which \<open>\b\<close> looks at.
\<close>

section \<open>Texts\<close>

definition dollar_char :: "char \<Rightarrow> bool" where
  "dollar_char c \<longleftrightarrow> name_char c \<or> c = CHR ''$''"

text \<open>\<open>[A-Za-z_][A-Za-z0-9_$]*\<close> at the start of a text, and what follows it.\<close>

definition va_ident :: "string \<Rightarrow> (string \<times> string) option" where
  "va_ident s = (case s of
     [] \<Rightarrow> None
   | c # r \<Rightarrow> if name_start c then Some (c # takeWhile dollar_char r, dropWhile dollar_char r) else None)"

lemma va_ident_length: "va_ident s = Some (w, t) \<Longrightarrow> length t < length s"
  by (cases s) (auto simp: va_ident_def length_dropWhile_le less_Suc_eq_le split: if_splits)

text \<open>The text before and after the first occurrence of \<open>p\<close>.\<close>

fun split_first :: "string \<Rightarrow> string \<Rightarrow> (string \<times> string) option" where
  "split_first p [] = (if p = [] then Some ([], []) else None)"
| "split_first p (c # s) =
     (if py_startswith (c # s) p then Some ([], drop (length p) (c # s))
      else map_option (apfst ((#) c)) (split_first p s))"

lemma split_first_append: "split_first p s = Some (a, b) \<Longrightarrow> s = a @ p @ b"
proof (induction s arbitrary: a)
  case (Cons c s)
  show ?case
  proof (cases "py_startswith (c # s) p")
    case True
    then show ?thesis using Cons.prems py_startswith_drop [OF True] by simp
  next
    case False
    then show ?thesis using Cons by (cases "split_first p s") auto
  qed
qed (simp split: if_splits)

lemma split_first_length: "split_first p s = Some (a, b) \<Longrightarrow> length b \<le> length s"
  using split_first_append [of p s a b] by simp

text \<open>\<open>\b\<close> between two characters, where there are such.\<close>

definition wordy :: "char option \<Rightarrow> bool" where
  "wordy c = (case c of None \<Rightarrow> False | Some x \<Rightarrow> word_char x)"

definition first_char :: "string \<Rightarrow> char option" where
  "first_char s = (case s of [] \<Rightarrow> None | c # _ \<Rightarrow> Some c)"

definition boundary :: "char option \<Rightarrow> char option \<Rightarrow> bool" where
  "boundary a b \<longleftrightarrow> wordy a \<noteq> wordy b"

text \<open>\<open>_VA_COMMENT.sub\<close>: a comment becomes a blank, or the line ends in it.\<close>

definition comment_text :: "string \<Rightarrow> string" where
  "comment_text s = (if CHR ''\<newline>'' \<in> set s then filter (\<lambda>c. c = CHR ''\<newline>'') s else '' '')"

function va_comments :: "string \<Rightarrow> string" where
  "va_comments [] = []"
| "va_comments (c # s) =
     (if py_startswith (c # s) ''//'' then '' '' @ va_comments (dropWhile (\<lambda>x. x \<noteq> CHR ''\<newline>'') s)
      else if py_startswith (c # s) ''/*'' then
        (case split_first ''*/'' (tl s) of
           Some (a, b) \<Rightarrow> comment_text a @ va_comments b
         | None \<Rightarrow> c # va_comments s)
      else c # va_comments s)"
  by pat_completeness auto
termination
  by (relation "measure length") (auto simp: length_dropWhile_le less_Suc_eq_le dest!: split_first_length)

declare va_comments.simps [simp del]

section \<open>The preprocessor\<close>

type_synonym macro_def = "string list option \<times> string"

record va_state =
  va_macros :: "string \<rightharpoonup> macro_def"
  va_files :: "string list"
  va_trouble :: "string list"
  va_out :: "string list"

definition va_trouble_add :: "string \<Rightarrow> va_state \<Rightarrow> va_state" where
  "va_trouble_add msg st = st\<lparr>va_trouble := va_trouble st @ [msg]\<rparr>"

text \<open>\<open>_VaPre.__init__\<close>: \<open>NAME\<close> or \<open>NAME=value\<close>.\<close>

definition define_arg :: "string \<Rightarrow> string \<times> macro_def" where
  "define_arg d = (case find_char CHR ''='' d of
     None \<Rightarrow> (py_strip d, None, ''1'')
   | Some k \<Rightarrow> (py_strip (take k d), None, py_strip (drop (Suc k) d)))"

definition va_init :: "string list \<Rightarrow> va_state" where
  "va_init defines = \<lparr>va_macros = map_of (rev (map define_arg defines)), va_files = [], va_trouble = [], va_out = []\<rparr>"

definition VA_DIRECTIVES :: "string list" where
  "VA_DIRECTIVES = [''define'', ''undef'', ''ifdef'', ''ifndef'', ''elsif'', ''else'', ''endif'', ''include'']"

definition backtick :: char where "backtick = CHR 0x60"

text \<open>\<open>_VA_DIRECTIVE.match\<close>: the word and the rest of the line.\<close>

definition va_directive :: "string \<Rightarrow> (string \<times> string) option" where
  "va_directive line = (case dropWhile re_space line of
     [] \<Rightarrow> None
   | c # r \<Rightarrow>
       (let (w, t) = py_span word_char r in
        if c = backtick \<and> w \<in> set VA_DIRECTIVES then Some (w, t) else None))"

definition first_word :: "string \<Rightarrow> string" where
  "first_word s = (case py_words s of [] \<Rightarrow> [] | w # _ \<Rightarrow> w)"

text \<open>\<open>define\<close>.\<close>

definition macro_args :: "string \<Rightarrow> string list" where
  "macro_args s = filter (\<lambda>a. a \<noteq> []) (map py_strip (py_split CHR '','' s))"

definition va_define :: "string \<Rightarrow> string \<Rightarrow> va_state \<Rightarrow> va_state" where
  "va_define rest path st =
     (case va_ident (dropWhile re_space rest) of
        None \<Rightarrow> va_trouble_add (path @ '': malformed '' @ [backtick] @ ''define '' @ take 40 (py_strip rest)) st
      | Some (name, t) \<Rightarrow>
          (case t of
             c # r \<Rightarrow>
               if c = CHR ''('' \<and> CHR '')'' \<in> set r
               then st\<lparr>va_macros := (va_macros st)(name \<mapsto> (Some (macro_args (takeWhile (\<lambda>x. x \<noteq> CHR '')'') r)),
                         py_strip (drop 1 (dropWhile (\<lambda>x. x \<noteq> CHR '')'') r))))\<rparr>
               else st\<lparr>va_macros := (va_macros st)(name \<mapsto> (None, py_strip t))\<rparr>
           | [] \<Rightarrow> st\<lparr>va_macros := (va_macros st)(name \<mapsto> (None, []))\<rparr>))"

text \<open>A definition goes on with the next line after a backslash.\<close>

fun define_text :: "string \<Rightarrow> string list \<Rightarrow> string \<times> string list" where
  "define_text rest [] = (rest, [])"
| "define_text rest (l # ls) =
     (if py_endswith (py_rstrip rest) [backslash] then define_text (butlast (py_rstrip rest) @ CHR ''\<newline>'' # l) ls
      else (rest, l # ls))"

lemma define_text_length: "define_text r ls = (a, b) \<Longrightarrow> length b \<le> length ls"
  by (induction r ls rule: define_text.induct) (auto simp: le_SucI split: if_splits)

fun find_quoted :: "string \<Rightarrow> string option" where
  "find_quoted [] = None"
| "find_quoted (c # s) =
     (let w = takeWhile (\<lambda>x. x \<noteq> CHR 0x22) s in
      if c = CHR 0x22 \<and> w \<noteq> [] \<and> CHR 0x22 \<in> set s then Some w else find_quoted s)"

definition VA_STD_HEADER :: "string list" where
  "VA_STD_HEADER = [''.vams'', ''discipline.h'', ''disciplines.h'', ''constants.h'']"
definition VA_MAX_DEPTH :: nat where "VA_MAX_DEPTH = 64"

text \<open>The head of \<open>read\<close>: a file that was not read yet, and its lines without comments.\<close>

definition va_open :: "os_env \<Rightarrow> string \<Rightarrow> va_state \<Rightarrow> (string \<times> string list) option \<times> va_state" where
  "va_open os p st =
     (let path = abspath os p in
      if path \<in> set (va_files st) then (None, st)
      else
        (let st1 = st\<lparr>va_files := va_files st @ [path]\<rparr> in
         case os_open os path of
           Inl why \<Rightarrow> (None, va_trouble_add (''cannot read '' @ path @ '': '' @ why) st1)
         | Inr s \<Rightarrow> (Some (path, py_split CHR ''\<newline>'' (va_comments s)), st1)))"

text \<open>\<open>include\<close>: the file to read one level deeper, or none.\<close>

definition va_include ::
  "os_env \<Rightarrow> string list \<Rightarrow> string \<Rightarrow> nat \<Rightarrow> string \<Rightarrow> va_state \<Rightarrow> (string \<times> string list) option \<times> va_state" where
  "va_include os search path depth rest st =
     (case find_quoted rest of
        None \<Rightarrow> (None, va_trouble_add (path @ '': '' @ [backtick] @ ''include without a quoted file name'') st)
      | Some name \<Rightarrow>
          if list_ex (py_endswith name) VA_STD_HEADER then (None, st)
          else if VA_MAX_DEPTH \<le> depth
            then (None, va_trouble_add (path @ '': '' @ [backtick] @ ''include nesting deeper than 64'') st)
          else
            (let cands = (if isabs name then [name]
                          else path_join (dirname path) name # map (\<lambda>d. path_join d name) search) in
             case List.find (os_isfile os) cands of
               Some c \<Rightarrow> va_open os c st
             | None \<Rightarrow> (None, va_trouble_add (path @ '': '' @ [backtick] @ ''include '' @ [CHR 0x22] @ name @ [CHR 0x22] @
                         '' not found (tried '' @ py_join '', '' cands @ '')'') st)))"

lemma va_include_depth: "va_include os search path depth rest st = (Some x, st') \<Longrightarrow> depth < VA_MAX_DEPTH"
  by (auto simp: va_include_def split: option.splits if_splits)

lemma include_measure:
  "(Some x, st') = va_include os search path depth rest st \<Longrightarrow> VA_MAX_DEPTH - Suc depth < VA_MAX_DEPTH - depth"
  using va_include_depth [of os search path depth rest st x st'] by simp

lemma define_text_measure: "(a, b) = define_text r ls \<Longrightarrow> length b \<le> length ls"
  using define_text_length [of r ls a b] by simp

type_synonym cond_stack = "(bool \<times> bool) list"

definition active :: "cond_stack \<Rightarrow> bool" where
  "active cond = list_all fst cond"

text \<open>The directives of conditionals: the stack has the innermost one first.\<close>

definition va_cond :: "string \<Rightarrow> string \<Rightarrow> string \<Rightarrow> cond_stack \<Rightarrow> va_state \<Rightarrow> cond_stack \<times> va_state" where
  "va_cond what rest path cond st =
     (let defd = first_word rest \<in> dom (va_macros st) in
      if what = ''ifdef'' \<or> what = ''ifndef'' then
        (let taken = (defd = (what = ''ifdef'')) in ((active cond \<and> taken, taken) # cond, st))
      else
        (case cond of
           [] \<Rightarrow> ([], va_trouble_add (path @ '': '' @ [backtick] @ what @ '' without '' @ [backtick] @ ''ifdef'') st)
         | (_, taken) # outer \<Rightarrow>
             if what = ''elsif'' then
               (let now = (\<not> taken \<and> defd) in ((active outer \<and> now, taken \<or> now) # outer, st))
             else if what = ''else'' then ((active outer \<and> \<not> taken, True) # outer, st)
             else (outer, st)))"

function va_lines ::
  "os_env \<Rightarrow> string list \<Rightarrow> string \<Rightarrow> nat \<Rightarrow> string list \<Rightarrow> cond_stack \<Rightarrow> va_state \<Rightarrow> va_state" where
  "va_lines os search path depth [] cond st =
     (if cond \<noteq> [] then va_trouble_add (path @ '': unbalanced '' @ [backtick] @ ''ifdef at the end of the file'') st else st)"
| "va_lines os search path depth (line # lines) cond st =
     (case va_directive line of
        None \<Rightarrow> va_lines os search path depth lines cond (if active cond then st\<lparr>va_out := va_out st @ [line]\<rparr> else st)
      | Some (what, rest) \<Rightarrow>
          if what \<in> {''ifdef'', ''ifndef'', ''elsif'', ''else'', ''endif''} then
            (let (cond', st') = va_cond what rest path cond st in va_lines os search path depth lines cond' st')
          else if \<not> active cond then va_lines os search path depth lines cond st
          else if what = ''define'' then
            (let (r, lines') = define_text rest lines in va_lines os search path depth lines' cond (va_define r path st))
          else if what = ''undef'' then
            va_lines os search path depth lines cond (st\<lparr>va_macros := (va_macros st)(first_word rest := None)\<rparr>)
          else
            (case va_include os search path depth rest st of
               (None, st') \<Rightarrow> va_lines os search path depth lines cond st'
             | (Some (path', lines'), st') \<Rightarrow>
                 va_lines os search path depth lines cond (va_lines os search path' (Suc depth) lines' [] st')))"
  by pat_completeness auto
termination
proof (relation "measures [\<lambda>(os, search, path, depth, lines, cond, st). VA_MAX_DEPTH - depth,
                          \<lambda>(os, search, path, depth, lines, cond, st). length lines]", goal_cases)
  case 1
  then show ?case by simp
qed (simp_all add: less_Suc_eq_le define_text_measure include_measure)

declare va_lines.simps [simp del]

definition va_read :: "os_env \<Rightarrow> string list \<Rightarrow> string \<Rightarrow> va_state \<Rightarrow> va_state" where
  "va_read os search p st = (case va_open os p st of
     (None, st') \<Rightarrow> st'
   | (Some (path, lines), st') \<Rightarrow> va_lines os search path 0 lines [] st')"

section \<open>Macro uses\<close>

text \<open>\<open>_split_args\<close>: the arguments so far and the one being read, and the rest after the last parenthesis.\<close>

fun split_args :: "int \<Rightarrow> string list \<Rightarrow> string \<Rightarrow> bool \<Rightarrow> string \<Rightarrow> string list \<times> string option" where
  "split_args depth args cur quote [] = (args, None)"
| "split_args depth args cur quote (c # s) =
     (if quote then split_args depth args (cur @ [c]) (c \<noteq> CHR 0x22) s
      else if c = CHR 0x22 then split_args depth args (cur @ [c]) True s
      else if c \<in> {CHR ''('', CHR ''['', CHR ''{''} then
        split_args (depth + 1) args (if 0 < depth then cur @ [c] else cur) quote s
      else if c \<in> {CHR '')'', CHR '']'', CHR ''}''} then
        (if depth = 1 then (args @ [py_strip cur], Some s) else split_args (depth - 1) args (cur @ [c]) quote s)
      else if c = CHR '','' \<and> depth = 1 then split_args depth (args @ [py_strip cur]) [] quote s
      else split_args depth args (cur @ [c]) quote s)"

lemma split_args_length: "split_args d as cur q s = (bs, Some r) \<Longrightarrow> length r < length s"
  by (induction d as cur q s rule: split_args.induct) (auto simp: less_SucI split: if_splits)

text \<open>\<open>_VA_MACRO_USE.search\<close>: the text before the use, its name, and the rest.\<close>

fun find_use :: "string \<Rightarrow> (string \<times> string \<times> string) option" where
  "find_use [] = None"
| "find_use (c # s) =
     (case (if c = backtick then va_ident s else None) of
        Some (w, t) \<Rightarrow> Some ([], w, t)
      | None \<Rightarrow> map_option (apfst ((#) c)) (find_use s))"

lemma find_use_length: "find_use s = Some (pre, w, t) \<Longrightarrow> length t < length s"
  by (induction s arbitrary: pre) (auto split: option.splits if_splits dest: va_ident_length)

text \<open>\<open>re.sub\<close> of a formal argument between word boundaries, the character before the text given.\<close>

function sub_formal :: "string \<Rightarrow> string \<Rightarrow> char option \<Rightarrow> string \<Rightarrow> string" where
  "sub_formal f a prev [] = []"
| "sub_formal f a prev (c # s) =
     (let r = drop (length f) (c # s) in
      if f \<noteq> [] \<and> py_startswith (c # s) f \<and> boundary prev (Some c) \<and> boundary (Some (last f)) (first_char r)
      then a @ sub_formal f a (Some (last f)) r
      else c # sub_formal f a (Some c) s)"
  by pat_completeness auto
termination
  by (relation "measure (\<lambda>(f, a, prev, s). length s)") (auto simp: Suc_diff_le less_Suc_eq_le neq_Nil_conv)

definition call_text :: "string list \<Rightarrow> string list \<Rightarrow> string \<Rightarrow> string" where
  "call_text formals actuals body =
     fold (\<lambda>(f, a) s. sub_formal f a None s) (zip formals (actuals @ replicate (length formals - length actuals) [])) body"

lemma find_use_measure: "find_use line = Some x \<Longrightarrow> (pre, y) = x \<Longrightarrow> (name, rest) = y \<Longrightarrow> length rest < length line"
  using find_use_length by blast

lemma call_measure:
  "find_use line = Some x \<Longrightarrow> (pre, y) = x \<Longrightarrow> (name, rest) = y \<Longrightarrow> r = dropWhile P rest \<Longrightarrow>
   z = split_args 0 [] [] False r \<Longrightarrow> (as, w) = z \<Longrightarrow> w = Some rest' \<Longrightarrow> length rest' < length line"
  using find_use_length [of line pre name rest] split_args_length [of 0 "[]" "[]" False r as rest']
    length_dropWhile_le [of P rest] by simp

function va_expand :: "(string \<rightharpoonup> macro_def) \<Rightarrow> nat \<Rightarrow> string \<Rightarrow> string" where
  "va_expand m depth line =
     (if backtick \<notin> set line \<or> VA_MAX_DEPTH < depth then line
      else
        (case find_use line of
           None \<Rightarrow> line
         | Some (pre, name, rest) \<Rightarrow>
             (case m name of
                None \<Rightarrow> pre @ backtick # name @ va_expand m depth rest
              | Some (None, body) \<Rightarrow> pre @ va_expand m (Suc depth) body @ va_expand m depth rest
              | Some (Some formals, body) \<Rightarrow>
                  (let r = dropWhile tab_blank rest in
                   if r = [] \<or> hd r \<noteq> CHR ''('' then pre @ va_expand m (Suc depth) body @ va_expand m depth rest
                   else
                     (case split_args 0 [] [] False r of
                        (_, None) \<Rightarrow> pre @ backtick # name @ va_expand m depth rest
                      | (actuals, Some rest') \<Rightarrow>
                          pre @ va_expand m (Suc depth) (call_text formals actuals body) @ va_expand m depth rest')))))"
  by pat_completeness auto
termination
proof (relation "measures [\<lambda>(m, depth, line). Suc VA_MAX_DEPTH - depth, \<lambda>(m, depth, line). length line]", goal_cases)
  case 1
  then show ?case by simp
qed (simp_all add: find_use_measure call_measure Suc_diff_le)

declare va_expand.simps [simp del]

section \<open>Declarations\<close>

text \<open>\<open>_VA_ATTR_BLOCK.sub(" ", ...)\<close>.\<close>

function drop_attr_blocks :: "string \<Rightarrow> string" where
  "drop_attr_blocks [] = []"
| "drop_attr_blocks (c # s) =
     (case (if py_startswith (c # s) ''(*'' then split_first ''*)'' (tl s) else None) of
        Some (a, b) \<Rightarrow> CHR '' '' # drop_attr_blocks b
      | None \<Rightarrow> c # drop_attr_blocks s)"
  by pat_completeness auto
termination
  by (relation "measure length") (auto simp: less_Suc_eq_le split: if_splits dest!: split_first_length)

declare drop_attr_blocks.simps [simp del]

text \<open>The first place where one of the words stands between word boundaries: what is before, the word, the rest.\<close>

fun find_word :: "(string \<Rightarrow> bool) \<Rightarrow> string list \<Rightarrow> char option \<Rightarrow> string \<Rightarrow> (string \<times> string \<times> string) option" where
  "find_word P ws prev [] = None"
| "find_word P ws prev (c # s) =
     (case List.find (\<lambda>w. py_startswith (c # s) w \<and> boundary prev (Some c) \<and>
                          boundary (Some (last w)) (first_char (drop (length w) (c # s))) \<and> P (drop (length w) (c # s))) ws of
        Some w \<Rightarrow> Some ([], w, drop (length w) (c # s))
      | None \<Rightarrow> map_option (apfst ((#) c)) (find_word P ws (Some c) s))"

text \<open>\<open>_split_decls\<close>.\<close>

fun split_decls :: "int \<Rightarrow> string \<Rightarrow> string \<Rightarrow> string list" where
  "split_decls depth cur [] = [cur]"
| "split_decls depth cur (c # s) =
     (let d = (if c \<in> {CHR ''('', CHR ''['', CHR ''{''} then depth + 1
               else if c \<in> {CHR '')'', CHR '']'', CHR ''}''} then depth - 1 else depth) in
      if c = CHR '','' \<and> d = 0 then cur # split_decls d [] s else split_decls d (cur @ [c]) s)"

definition DECL_WORDS :: "string list" where
  "DECL_WORDS = [''parameter'', ''aliasparam'', ''localparam'']"

text \<open>\<open>re.sub(r"^(real|integer|string)\b", "", decl).strip()\<close>.\<close>

definition drop_type :: "string \<Rightarrow> string" where
  "drop_type decl =
     py_strip (case List.find (\<lambda>w. py_startswith decl w \<and> boundary (Some (last w)) (first_char (drop (length w) decl)))
                 [''real'', ''integer'', ''string''] of
       Some w \<Rightarrow> drop (length w) decl
     | None \<Rightarrow> decl)"

definition decl_names :: "string \<Rightarrow> string list" where
  "decl_names decl = List.map_filter (\<lambda>p. map_option fst (va_ident (py_strip p))) (split_decls 0 [] (drop_type (py_strip decl)))"

text \<open>
  The loop of \<open>_va_params\<close> over the statements, each with its position: the names, and the macro that was
  not expanded, if the loop ended there.
\<close>

fun param_loop :: "nat \<Rightarrow> nat \<Rightarrow> string list \<Rightarrow> string list \<times> string option" where
  "param_loop decl_end pos [] = ([], None)"
| "param_loop decl_end pos (stmt # stmts) =
     (let s = py_strip stmt; start = pos + (length stmt - length (py_lstrip stmt)); next = pos + length stmt + 1 in
      if s = [] then param_loop decl_end next stmts
      else if decl_end \<le> start then ([], None)
      else if py_startswith s [backtick] then ([], Some (first_word s))
      else
        (case find_word (\<lambda>_. True) DECL_WORDS None s of
           None \<Rightarrow> param_loop decl_end next stmts
         | Some (head, kind, rest) \<Rightarrow>
             if decl_end \<le> start + length head then ([], None)
             else if backtick \<in> set (py_strip head) then ([], Some (py_strip head))
             else if kind = ''localparam'' then param_loop decl_end next stmts
             else apfst (append (decl_names rest)) (param_loop decl_end next stmts)))"

text \<open>What may not follow \<open>analog\<close> in the Spectre dialects: an analog function.\<close>

definition analog_here :: "bool \<Rightarrow> string \<Rightarrow> bool" where
  "analog_here spectre rest \<longleftrightarrow>
     \<not> (spectre \<and> rest \<noteq> [] \<and> re_space (hd rest) \<and> py_startswith (dropWhile re_space rest) ''function'' \<and>
        \<not> wordy (first_char (drop 8 (dropWhile re_space rest))))"

definition va_params :: "string \<Rightarrow> bool \<Rightarrow> string list \<times> string option" where
  "va_params body spectre =
     (let s = drop_attr_blocks body;
          decl_end = (case find_word (analog_here spectre) [''analog''] None s of Some (pre, _) \<Rightarrow> length pre | None \<Rightarrow> length s)
      in param_loop decl_end 0 (py_split CHR '';'' s))"

section \<open>Modules\<close>

text \<open>\<open>(?:module|macromodule)\s+name\<close>: the name and the rest.\<close>

definition module_keyword :: "string \<Rightarrow> string option" where
  "module_keyword s = List.find (py_startswith s) [''module'', ''macromodule'']"

definition module_word :: "string \<Rightarrow> (string \<times> string) option" where
  "module_word s =
     (case module_keyword s of
        None \<Rightarrow> None
      | Some w \<Rightarrow>
          (let r = drop (length w) s in
           if r \<noteq> [] \<and> re_space (hd r) then va_ident (dropWhile re_space r) else None))"

text \<open>A block of attributes that a module follows: it ends at the first place where one does.\<close>

function attrs_then :: "(string \<Rightarrow> 'a option) \<Rightarrow> string \<Rightarrow> string \<Rightarrow> (string \<times> 'a) option" where
  "attrs_then P pre s =
     (case split_first ''*)'' s of
        None \<Rightarrow> None
      | Some (a, b) \<Rightarrow>
          (case P (dropWhile re_space b) of
             Some x \<Rightarrow> Some (pre @ a, x)
           | None \<Rightarrow> attrs_then P (pre @ a @ ''*'') (CHR '')'' # b)))"
  by pat_completeness auto
termination
proof (relation "measure (\<lambda>(P, pre, s). length s)", goal_cases)
  case (2 P pre s x a b)
  then have "s = a @ ''*)'' @ b" using split_first_append by blast
  then show ?case by simp
qed simp

declare attrs_then.simps [simp del]

text \<open>
  \<open>_VA_MODULE_HEAD.search\<close>: the attributes where there are some, the name, and the rest. The character
  before the text decides whether a word starts there.
\<close>

fun find_module :: "char option \<Rightarrow> string \<Rightarrow> (string option \<times> string \<times> string) option" where
  "find_module prev [] = None"
| "find_module prev (c # s) =
     (case (if py_startswith (c # s) ''(*'' then attrs_then module_word [] (tl s) else None) of
        Some (a, name, r) \<Rightarrow> Some (Some a, name, r)
      | None \<Rightarrow>
          (case (if boundary prev (Some c) then module_word (c # s) else None) of
             Some (name, r) \<Rightarrow> Some (None, name, r)
           | None \<Rightarrow> find_module (Some c) s))"

text \<open>\<open>_VA_ATTR.findall\<close> with the quotes of the values removed.\<close>

definition strip_quotes :: "string \<Rightarrow> string" where
  "strip_quotes s = (let q = (\<lambda>c. c = CHR 0x22) in rev (dropWhile q (rev (dropWhile q s))))"

definition attr_value :: "string \<Rightarrow> (string \<times> string) option" where
  "attr_value s =
     (case s of
        [] \<Rightarrow> None
      | c # r \<Rightarrow>
          if c = CHR 0x22 \<and> CHR 0x22 \<in> set r
          then Some (c # takeWhile (\<lambda>x. x \<noteq> CHR 0x22) r @ [CHR 0x22], drop 1 (dropWhile (\<lambda>x. x \<noteq> CHR 0x22) r))
          else
            (let ok = (\<lambda>x. \<not> re_space x \<and> x \<noteq> CHR '','') in
             if ok c then Some (takeWhile ok s, dropWhile ok s) else None))"

definition attr_at :: "string \<Rightarrow> (string \<times> string \<times> string) option" where
  "attr_at s =
     (case va_ident s of
        None \<Rightarrow> None
      | Some (k, t) \<Rightarrow>
          (case dropWhile re_space t of
             [] \<Rightarrow> None
           | c # u \<Rightarrow>
               if c = CHR ''='' then map_option (\<lambda>(v, r). (k, strip_quotes v, r)) (attr_value (dropWhile re_space u))
               else None))"

lemma attr_value_length: "attr_value s = Some (v, r) \<Longrightarrow> length r \<le> length s"
proof (cases s)
  case (Cons c t)
  assume "attr_value s = Some (v, r)"
  then consider "r = drop 1 (dropWhile (\<lambda>x. x \<noteq> CHR 0x22) t)"
    | "r = dropWhile (\<lambda>x. \<not> re_space x \<and> x \<noteq> CHR '','') s"
    using Cons by (auto simp: attr_value_def Let_def split: if_splits)
  then show ?thesis
  proof cases
    case 1
    then show ?thesis using Cons length_dropWhile_le [of "\<lambda>x. x \<noteq> CHR 0x22" t] by simp
  next
    case 2
    then show ?thesis by (simp only: length_dropWhile_le)
  qed
qed (simp add: attr_value_def)

lemma attr_at_length: "attr_at s = Some (k, v, r) \<Longrightarrow> length r < length s"
proof -
  assume a: "attr_at s = Some (k, v, r)"
  then obtain t u where i: "va_ident s = Some (k, t)" and d: "dropWhile re_space t = CHR ''='' # u"
      and v: "\<exists>w. attr_value (dropWhile re_space u) = Some (w, r)"
    by (auto simp: attr_at_def split: option.splits list.splits if_splits)
  have "length r \<le> length u" using v attr_value_length length_dropWhile_le [of re_space u] le_trans by blast
  also have "length u < length (dropWhile re_space t)" using d by simp
  also have "\<dots> \<le> length t" by (rule length_dropWhile_le)
  also have "length t < length s" using i by (rule va_ident_length)
  finally show ?thesis .
qed

function find_attrs :: "string \<Rightarrow> (string \<times> string) list" where
  "find_attrs [] = []"
| "find_attrs (c # s) =
     (case attr_at (c # s) of
        Some (k, v, r) \<Rightarrow> (k, v) # find_attrs r
      | None \<Rightarrow> find_attrs s)"
  by pat_completeness auto
termination
  by (relation "measure length") (auto dest: attr_at_length)

declare find_attrs.simps [simp del]

text \<open>\<open>_VA_POST_PORT_ATTRS.match\<close>: the attributes after the port list, which may itself be missing.\<close>

definition semicolon :: "string \<Rightarrow> unit option" where
  "semicolon s = (if py_startswith s '';'' then Some () else None)"

definition attrs_here :: "string \<Rightarrow> string option" where
  "attrs_here s =
     (let t = dropWhile re_space s in
      if py_startswith t ''(*'' then map_option fst (attrs_then semicolon [] (drop 2 t)) else None)"

definition post_attrs :: "string \<Rightarrow> string option" where
  "post_attrs body =
     (let t = dropWhile re_space body;
          inner = (\<lambda>x. x \<notin> {CHR '';'', CHR ''('', CHR '')''});
          after = dropWhile inner (tl t) in
      case (if py_startswith t ''('' \<and> py_startswith after '')'' then attrs_here (tl after) else None) of
        Some a \<Rightarrow> Some a
      | None \<Rightarrow> attrs_here t)"

definition module_attrs :: "string option \<Rightarrow> bool \<Rightarrow> string \<Rightarrow> (string \<times> string) list" where
  "module_attrs attrs spectre body =
     (let a1 = (case attrs of Some a \<Rightarrow> fold (\<lambda>(k, v). dict_set k v) (find_attrs a) [] | None \<Rightarrow> []) in
      case (if spectre then post_attrs body else None) of
        Some a \<Rightarrow> fold (\<lambda>(k, v) d. if k \<in> fst ` set d then d else dict_set k v d) (find_attrs a) a1
      | None \<Rightarrow> a1)"

definition va_reason :: "string option \<Rightarrow> string list \<Rightarrow> string option" where
  "va_reason bad trouble =
     (case bad of
        Some b \<Rightarrow> Some (''an undefined macro at a parameter declaration ('' @ take 40 (py_strip b) @ '')'')
      | None \<Rightarrow> (case trouble of t # _ \<Rightarrow> Some t | [] \<Rightarrow> None))"

definition mk_module ::
  "string \<Rightarrow> string option \<Rightarrow> string \<Rightarrow> string \<Rightarrow> string list \<Rightarrow> bool \<Rightarrow> va_module" where
  "mk_module path attrs name body trouble spectre =
     (let (params, bad) = va_params body spectre; as = module_attrs attrs spectre body in
      case va_reason bad trouble of
        Some why \<Rightarrow> \<lparr>vm_name = name, vm_path = path, vm_params = None, vm_attrs = dict_set ''vamos_unknown_params'' why as\<rparr>
      | None \<Rightarrow> \<lparr>vm_name = name, vm_path = path, vm_params = Some params, vm_attrs = as\<rparr>)"

lemma module_word_length: "module_word s = Some (n, r) \<Longrightarrow> length r < length s"
proof -
  assume "module_word s = Some (n, r)"
  then obtain w :: string where "va_ident (dropWhile re_space (drop (length w) s)) = Some (n, r)"
    by (cases "module_keyword s") (auto simp: module_word_def Let_def split: if_splits)
  then have "length r < length (dropWhile re_space (drop (length w) s))" by (rule va_ident_length)
  also have "\<dots> \<le> length (drop (length w) s)" by (rule length_dropWhile_le)
  finally show ?thesis by simp
qed

lemma attrs_then_module: "attrs_then module_word pre s = Some (a, n, r) \<Longrightarrow> length r < length s"
proof (induction "module_word :: string \<Rightarrow> (string \<times> string) option" pre s rule: attrs_then.induct)
  case (1 pre s)
  obtain p b where s: "split_first ''*)'' s = Some (p, b)"
    using "1.prems" by (cases "split_first ''*)'' s") (auto simp: attrs_then.simps [of _ pre s])
  then have l: "length b + 2 \<le> length s" using split_first_append [OF s] by simp
  show ?case
  proof (cases "module_word (dropWhile re_space b)")
    case None
    then have "length r < length (CHR '')'' # b)"
      using 1 s by (simp add: attrs_then.simps [of _ pre s])
    then show ?thesis using l by simp
  next
    case (Some x)
    then have "length r < length (dropWhile re_space b)"
      using "1.prems" s module_word_length by (simp add: attrs_then.simps [of _ pre s])
    then show ?thesis using l length_dropWhile_le [of re_space b] by simp
  qed
qed

lemma find_module_length: "find_module prev s = Some (a, n, r) \<Longrightarrow> length r < length s"
proof (induction prev s rule: find_module.induct)
  case (2 prev c s)
  show ?case
    using 2 module_word_length [of "c # s" n r] attrs_then_module [of "[]" "tl s" _ n r]
    by (auto split: option.splits if_splits)
qed simp

text \<open>The loop of \<open>_va_modules\<close> over the module heads; the first module of a lowercased name is kept.\<close>

function module_loop ::
  "string \<Rightarrow> string list \<Rightarrow> bool \<Rightarrow> char option \<Rightarrow> string \<Rightarrow> (string \<times> va_module) list \<Rightarrow> (string \<times> va_module) list" where
  "module_loop path trouble spectre prev s out =
     (case find_module prev s of
        None \<Rightarrow> out
      | Some (attrs, name, r) \<Rightarrow>
          (let (body, rest) = (case split_first ''endmodule'' r of Some (a, b) \<Rightarrow> (a, b) | None \<Rightarrow> (r, []));
               key = py_lower name;
               out' = (if key \<in> fst ` set out then out
                       else dict_set key (mk_module path attrs name body trouble spectre) out)
           in module_loop path trouble spectre (Some CHR ''e'') rest out'))"
  by pat_completeness auto
termination
  by (relation "measure (\<lambda>(path, trouble, spectre, prev, s, out). length s)")
    (auto split: option.splits dest!: find_module_length split_first_length)

declare module_loop.simps [simp del]

definition va_modules ::
  "os_env \<Rightarrow> string \<Rightarrow> string list \<Rightarrow> string list \<Rightarrow> bool \<Rightarrow> (string \<times> va_module) list \<times> string list" where
  "va_modules os path search defines spectre =
     (let pre = va_read os (map (abspath os) search) path (va_init defines);
          s = va_expand (va_macros pre) 0 (py_join [CHR ''\<newline>''] (va_out pre))
      in (module_loop (abspath os path) (va_trouble pre) spectre None s [], va_files pre))"

end
