(* ===== verification/SpiceRead.thy ===== *)
theory SpiceRead
  imports VaPre
begin

text \<open>
  Pass 1 of the parser in \<open>vamos/netlist/spice.py\<close>: files, sections, subcircuit scopes and dot statements.
  The scopes are objects with identity, so they are a list and a scope is an index of it; index 0 is
  the top level. \<open>_Parser\<close> is the record \<open>sp_state\<close> with the fields that this pass sets; \<open>sp_conf\<close> has
  what does not change. \<open>run\<close> may read files for ever (a file that includes itself in a subcircuit), so
  it is a partial function whose value \<open>None\<close> means that it does not return.
\<close>

section \<open>State\<close>

record sp_conf =
  cf_os :: os_env
  cf_isdir :: "string \<Rightarrow> bool"
  cf_environ :: "string \<rightharpoonup> string"
  cf_cwd :: string
  cf_case :: string
  cf_sp :: bool

datatype sc_item = StmtItem sp_stmt | ScopeItem nat

record sp_scope =
  sc_name :: "string option"
  sc_parent :: "nat option"
  sc_stmt :: "sp_stmt option"
  sc_items :: "sc_item list"

record sp_state =
  ss_notes :: "diag list"
  ss_scopes :: "sp_scope list"
  ss_scope :: nat
  ss_files :: "string \<rightharpoonup> sp_file"
  ss_expanded :: "string \<times> string option \<times> nat \<rightharpoonup> string"
  ss_search :: "string list"
  ss_title :: string
  ss_options :: "(string \<times> string option \<times> string) list"
  ss_controls :: "(string \<times> sp_stmt) list"
  ss_globals_raw :: "(string \<times> string) list"
  ss_hdl :: "string list"
  ss_va_modules :: "(string \<times> string) list"
  ss_va_mods :: "(string \<times> va_module) list"
  ss_spelling_def :: "string \<rightharpoonup> string"
  ss_spelling_use :: "string \<rightharpoonup> string"

definition sp_fold :: "sp_conf \<Rightarrow> string \<Rightarrow> string" where
  "sp_fold cf s = (if cf_case cf = ''lower'' then py_lower s else if cf_case cf = ''upper'' then py_upper s else s)"

definition sp_init :: "sp_conf \<Rightarrow> string list \<Rightarrow> sp_state" where
  "sp_init cf search =
     \<lparr>ss_notes = [], ss_scopes = [\<lparr>sc_name = None, sc_parent = None, sc_stmt = None, sc_items = []\<rparr>], ss_scope = 0,
      ss_files = (\<lambda>_. None), ss_expanded = (\<lambda>_. None),
      ss_search = map (\<lambda>d. normpath (path_join (cf_cwd cf) (os_expanduser (cf_os cf) d))) search,
      ss_title = [], ss_options = [], ss_controls = [], ss_globals_raw = [], ss_hdl = [], ss_va_modules = [],
      ss_va_mods = [], ss_spelling_def = (\<lambda>_. None), ss_spelling_use = (\<lambda>_. None)\<rparr>"

definition ss_note :: "diag \<Rightarrow> sp_state \<Rightarrow> sp_state" where
  "ss_note d ss = ss\<lparr>ss_notes := ss_notes ss @ [d]\<rparr>"

abbreviation ss_err :: "string \<Rightarrow> string \<Rightarrow> sp_state \<Rightarrow> sp_state" where
  "ss_err o' msg \<equiv> ss_note (error o' msg)"

definition setdefault :: "'k \<Rightarrow> 'v \<Rightarrow> ('k \<rightharpoonup> 'v) \<Rightarrow> ('k \<rightharpoonup> 'v)" where
  "setdefault k v m = (case m k of Some _ \<Rightarrow> m | None \<Rightarrow> m(k \<mapsto> v))"

definition spell :: "string \<Rightarrow> string \<Rightarrow> bool \<Rightarrow> sp_state \<Rightarrow> sp_state" where
  "spell name orig defn ss =
     (if defn then ss\<lparr>ss_spelling_def := setdefault name orig (ss_spelling_def ss)\<rparr>
      else ss\<lparr>ss_spelling_use := setdefault name orig (ss_spelling_use ss)\<rparr>)"

definition add_item :: "sc_item \<Rightarrow> sp_state \<Rightarrow> sp_state" where
  "add_item it ss = (let i = ss_scope ss; s = ss_scopes ss ! i in
     ss\<lparr>ss_scopes := (ss_scopes ss)[i := s\<lparr>sc_items := sc_items s @ [it]\<rparr>]\<rparr>)"

section \<open>Paths\<close>

text \<open>\<open>os.path.expandvars\<close>: a variable that is not set stays as it is written.\<close>

function expandvars :: "(string \<rightharpoonup> string) \<Rightarrow> string \<Rightarrow> string" where
  "expandvars env [] = []"
| "expandvars env (c # s) =
     (if c \<noteq> CHR ''$'' then c # expandvars env s
      else if s \<noteq> [] \<and> hd s = CHR ''{'' \<and> CHR ''}'' \<in> set s then
        (let name = takeWhile (\<lambda>x. x \<noteq> CHR ''}'') (tl s); r = drop 1 (dropWhile (\<lambda>x. x \<noteq> CHR ''}'') (tl s)) in
         (case env name of Some v \<Rightarrow> v | None \<Rightarrow> ''${'' @ name @ ''}'') @ expandvars env r)
      else
        (let name = takeWhile name_char s; r = dropWhile name_char s in
         if name = [] then c # expandvars env s
         else (case env name of Some v \<Rightarrow> v | None \<Rightarrow> c # name) @ expandvars env r))"
  by pat_completeness auto
termination
proof (relation "measure (\<lambda>(env, s). length s)", goal_cases)
  case (3 env c s name r)
  then show ?case using length_dropWhile_le [of "\<lambda>x. x \<noteq> CHR ''}''" "tl s"] by (cases s) auto
next
  case (5 env c s name r)
  then show ?case using length_dropWhile_le [of name_char s] by simp
qed simp_all

declare expandvars.simps [simp del]

text \<open>\<open>origin_dir\<close>: the directory of the file that an origin names.\<close>

definition origin_dir :: "sp_conf \<Rightarrow> string \<Rightarrow> string option" where
  "origin_dir cf orig =
     (let (a, line) = rsplit_at CHR '':'' orig; name = butlast a in
      if a = [] \<or> name = [] \<or> \<not> text_isdigit (py_strip line) then None
      else Some (dirname (normpath (path_join (cf_cwd cf) name))))"

definition or_text :: "string \<Rightarrow> string \<Rightarrow> string" where
  "or_text a b = (if a \<noteq> [] then a else b)"

text \<open>The texts of a list in the order of their first occurrences.\<close>

definition once_each :: "string list \<Rightarrow> string list" where
  "once_each xs = rev (remdups (rev xs))"

definition candidates :: "sp_conf \<Rightarrow> string list \<Rightarrow> string \<Rightarrow> string option \<Rightarrow> string list" where
  "candidates cf search txt base =
     (let p = os_expanduser (cf_os cf) (expandvars (cf_environ cf) txt) in
      once_each
        (if isabs p then [normpath p]
         else normpath (path_join (cf_cwd cf) p) #
           (case base of Some b \<Rightarrow> if b \<noteq> [] then [normpath (path_join b p)] else [] | None \<Rightarrow> []) @
           map (\<lambda>d. normpath (path_join d p)) search))"

definition resolve_ref ::
  "sp_conf \<Rightarrow> string \<Rightarrow> string option \<Rightarrow> string \<Rightarrow> string \<Rightarrow> sp_state \<Rightarrow> string option \<times> sp_state" where
  "resolve_ref cf txt base orig what ss =
     (let os = cf_os cf; seen = candidates cf (ss_search ss) txt base; found = filter (os_isfile os) seen in
      case found of
        [] \<Rightarrow> (None, ss_err (or_text orig txt) (what @ '' '' @ txt @ '' not found; tried '' @ py_join '', '' seen) ss)
      | use # rest \<Rightarrow>
          (let others = filter (\<lambda>c. os_realpath os c \<noteq> os_realpath os use) rest in
           (Some (abspath os use),
            if others \<noteq> [] then ss_note (mk_note (or_text orig txt)
                (what @ '' '' @ txt @ '': using '' @ use @ '' (also found: '' @ py_join '', '' others @ '')'')) ss
            else ss)))"

section \<open>Loading\<close>

text \<open>\<open>_FAST_NUM\<close> and the test of a title that looks like a statement.\<close>

definition letters_only :: "string \<Rightarrow> bool" where
  "letters_only s \<longleftrightarrow> list_all name_start s"

definition num_tail :: "string \<Rightarrow> bool" where
  "num_tail s \<longleftrightarrow> letters_only s \<or>
     (case s of
        [] \<Rightarrow> False
      | e # r \<Rightarrow> e \<in> set ''eEdD'' \<and>
          (let t = (if r \<noteq> [] \<and> (hd r = CHR ''+'' \<or> hd r = CHR ''-'') then tl r else r) in
           takeWhile re_digit t \<noteq> [] \<and> letters_only (dropWhile re_digit t)))"

definition fast_num :: "string \<Rightarrow> bool" where
  "fast_num s =
     (let t = (if s \<noteq> [] \<and> (hd s = CHR ''+'' \<or> hd s = CHR ''-'') then tl s else s);
          d = takeWhile re_digit t; r = dropWhile re_digit t in
      if d \<noteq> [] then num_tail (if r \<noteq> [] \<and> hd r = CHR ''.'' then dropWhile re_digit (tl r) else r)
      else r \<noteq> [] \<and> hd r = CHR ''.'' \<and> takeWhile re_digit (tl r) \<noteq> [] \<and> num_tail (dropWhile re_digit (tl r)))"

definition DOT :: "(string \<times> string) list" where
  "DOT =
    [(''.include'', ''.inc''), (''.inc'', ''.inc''), (''.incl'', ''.inc''), (''.lib'', ''.lib''), (''.endl'', ''.endl''),
     (''.subckt'', ''.subckt''), (''.macro'', ''.subckt''), (''.ends'', ''.ends''), (''.eom'', ''.ends''),
     (''.param'', ''.param''), (''.parameter'', ''.param''), (''.parameters'', ''.param''), (''.model'', ''.model''),
     (''.global'', ''.global''), (''.option'', ''.option''), (''.options'', ''.option''), (''.opt'', ''.option''),
     (''.temp'', ''.temp''), (''.tran'', ''.tran''), (''.op'', ''.op''), (''.dc'', ''.dc''), (''.ac'', ''.ac''),
     (''.print'', ''.print''), (''.probe'', ''.print''), (''.ic'', ''.ic''), (''.dcvolt'', ''.ic''),
     (''.nodeset'', ''.nodeset''), (''.hdl'', ''.hdl''), (''.end'', ''.end''), (''.title'', ''.title''),
     (''.measure'', ''.measure''), (''.meas'', ''.measure''), (''.alter'', ''.alter''), (''.data'', ''.data''),
     (''.enddata'', ''.enddata''), (''.if'', ''.if''), (''.elseif'', ''.if''), (''.else'', ''.if''), (''.endif'', ''.if''),
     (''.protect'', ''.protect''), (''.prot'', ''.protect''), (''.unprotect'', ''.protect''), (''.unprot'', ''.protect'')]"

definition dot_canon :: "string \<Rightarrow> string option" where
  "dot_canon kw = map_of DOT kw"

definition looks_like_statement :: "string \<Rightarrow> bool" where
  "looks_like_statement t =
     (let words = py_words t in
      (case dot_kw t of Some m \<Rightarrow> dot_canon (py_lower m) \<noteq> None | None \<Rightarrow> False) \<or>
      (3 \<le> length words \<and> lower_char (hd (hd words)) \<in> set ''rclkvieghfdqmjx'' \<and>
       list_ex (\<lambda>w. CHR ''='' \<in> set w \<or> fast_num w) (drop 2 words)))"

definition check_title :: "string \<Rightarrow> sp_state \<Rightarrow> sp_state" where
  "check_title path ss =
     (if ss_title ss \<noteq> [] \<and> looks_like_statement (ss_title ss)
      then ss_note (mk_note (path @ '':1'') (''line 1 is the title and is not parsed: '' @ ss_title ss)) ss
      else ss)"

text \<open>
  \<open>load\<close>. A byte-order mark is a character beyond the model's. The lines of a file are read in the HSPICE
  dialect, in which \<open>_logical\<close> always returns.
\<close>

definition text_stmts :: "string \<Rightarrow> bool \<Rightarrow> string \<Rightarrow> sp_stmt list \<times> diag list" where
  "text_stmts path title s =
     (case logical False (map (\<lambda>(i, l). (l, line_origin path (i + 1)))
             (drop (if title then 1 else 0) (enumerate 0 (py_split CHR ''\<newline>'' s)))) of
        Inr r \<Rightarrow> r | Inl _ \<Rightarrow> ([], []))"

definition load_file :: "sp_conf \<Rightarrow> string \<Rightarrow> bool \<Rightarrow> sp_state \<Rightarrow> sp_file \<times> sp_state" where
  "load_file cf path title ss =
     (let key = path @ (if title then CHR 0x00 # ''title'' else []) in
      case ss_files ss key of
        Some f \<Rightarrow> (f, ss)
      | None \<Rightarrow>
          (case os_open (cf_os cf) path of
             Inl why \<Rightarrow>
               (let f = mk_file path [] in
                (f, (ss_err path (''cannot read '' @ path @ '': '' @ why) ss)\<lparr>ss_files := (ss_files ss)(key \<mapsto> f)\<rparr>))
           | Inr s \<Rightarrow>
               (let ss1 = (if title then check_title path (ss\<lparr>ss_title := py_strip (hd (py_split CHR ''\<newline>'' s))\<rparr>) else ss);
                    (stmts, ns) = text_stmts path title s;
                    f = mk_file path stmts
                in (f, ss1\<lparr>ss_notes := ss_notes ss1 @ ns @ fl_notes f, ss_files := (ss_files ss)(key \<mapsto> f)\<rparr>))))"

section \<open>Dot statements\<close>

definition DOT_OTHER_ANALYSES :: "string list" where
  "DOT_OTHER_ANALYSES = [''.noise'', ''.four'', ''.fft'', ''.disto'', ''.pz'', ''.sens'', ''.tf'', ''.net'', ''.lstb'', ''.hb'',
     ''.hbac'', ''.hbnoise'', ''.hbxf'', ''.shooting'', ''.sn'', ''.snac'', ''.snnoise'', ''.snxf'', ''.acmatch'', ''.dcmatch'',
     ''.loadpull'']"

definition DOT_NOTED :: "(string \<times> string option) list" where
  "DOT_NOTED = [(''.width'', Some ''output formatting''), (''.graph'', Some ''graphical output''),
     (''.plot'', Some ''printer plots''), (''.save'', Some ''saving the operating point''),
     (''.biaschk'', Some ''bias checks''), (''.dellib'', None)]"

definition DOT_ERRORS :: "(string \<times> string) list" where
  "DOT_ERRORS = [(''.connect'', ''shorting two nodes''), (''.load'', ''loading an operating point''),
     (''.vec'', ''digital vector files''), (''.stim'', ''stimulus output''), (''.malias'', ''model aliases''),
     (''.alias'', ''aliases''), (''.del'', ''library deletion (.del lib)''),
     (''.func'', ''functions (write .param f(x)='' @ quoted ''...'' @ '')''), (''.step'', ''parameter steps''),
     (''.lin'', ''linear network extraction''), (''.sample'', ''sampling''), (''.dout'', ''digital output''),
     (''.tout'', ''digital output''), (''.stimulus'', ''stimulus files''), (''.sweepblock'', ''sweep blocks'')]"

definition CONTROLS_TOP_ONLY :: "string list" where
  "CONTROLS_TOP_ONLY = [''.tran'', ''.op'', ''.dc'', ''.ac'', ''.print'', ''.ic'', ''.nodeset'', ''.measure'']"

text \<open>What a statement does: go on, read a section of a file first, or raise what nothing catches.\<close>

datatype outcome = Go sp_state | Enter sp_file "string option" sp_state | Crash field_err

definition with_args :: "sp_stmt \<Rightarrow> nat \<Rightarrow> string \<Rightarrow> (string list \<Rightarrow> outcome) \<Rightarrow> sp_state \<Rightarrow> outcome" where
  "with_args st n label k ss =
     (case path_args (drop n (st_text st)) of
        Inl (LexText why) \<Rightarrow> Go (ss_err (st_origin st) (label @ '': '' @ why) ss)
      | Inl NoMatch \<Rightarrow> Crash NoMatch
      | Inr args \<Rightarrow> k args)"

definition with_fields :: "sp_stmt \<Rightarrow> string \<Rightarrow> (field list \<Rightarrow> sp_state) \<Rightarrow> sp_state \<Rightarrow> outcome" where
  "with_fields st label k ss =
     (case lex_fields (st_text st) of
        Inl (LexText why) \<Rightarrow> Go (ss_err (st_origin st) (label @ '': '' @ why) ss)
      | Inl NoMatch \<Rightarrow> Crash NoMatch
      | Inr fs \<Rightarrow> Go (k (drop 1 fs)))"

text \<open>\<open>expand\<close>: every file or section once in a scope.\<close>

definition sorted_names :: "sp_file \<Rightarrow> string list" where
  "sorted_names f = sort (map fst (fl_sections f))"

definition expand_file :: "sp_conf \<Rightarrow> sp_stmt \<Rightarrow> string \<Rightarrow> string option \<Rightarrow> string option \<Rightarrow> sp_state \<Rightarrow> outcome" where
  "expand_file cf st name sec base ss =
     (let orig = st_origin st;
          (found, ss1) = resolve_ref cf name base orig
            (if sec \<noteq> None \<and> sec \<noteq> Some [] then ''.lib file'' else ''include file'') ss in
      case found of
        None \<Rightarrow> Go ss1
      | Some path \<Rightarrow>
          (let key = (os_realpath (cf_os cf) path, sec, ss_scope ss1);
               what = (case sec of Some s \<Rightarrow> if s \<noteq> [] then ''section '' @ s @ '' of '' @ path else path | None \<Rightarrow> path) in
           case ss_expanded ss1 key of
             Some o' \<Rightarrow> Go (ss_note (mk_note orig (what @ '' already read at '' @ o' @ ''; not read again'')) ss1)
           | None \<Rightarrow>
               (let (f, ss2) = load_file cf path False (ss1\<lparr>ss_expanded := (ss_expanded ss1)(key \<mapsto> orig)\<rparr>) in
                case sec of
                  Some s \<Rightarrow>
                    if s \<notin> fst ` set (fl_sections f)
                    then Go (ss_err orig (''.lib '' @ name @ '' '' @ s @ '': the file has no section '' @ s @
                               (if fl_sections f \<noteq> [] then '' (sections: '' @ py_join '' '' (sorted_names f) @ '')'' else [])) ss2)
                    else Enter f sec ss2
                | None \<Rightarrow> Enter f None ss2)))"

definition d_include :: "sp_conf \<Rightarrow> sp_stmt \<Rightarrow> string option \<Rightarrow> sp_state \<Rightarrow> outcome" where
  "d_include cf st base ss =
     with_args st (length (st_kw st)) (st_kw st) (\<lambda>args.
       if length args \<noteq> 1 then Go (ss_err (st_origin st) (st_kw st @ '' takes one file name'') ss)
       else expand_file cf st (hd args) None base ss) ss"

definition LIB_USAGE :: string where
  "LIB_USAGE = ''.lib needs a file name and a section name ('' @ quoted (''.lib '' @ [CHR 0x22] @ ''file'' @ [CHR 0x22] @ '' sec'') @ '')''"

text \<open>\<open>.lib other\<close> inside a section calls another section of the same file.\<close>

definition own_section :: "sp_conf \<Rightarrow> string \<Rightarrow> sp_file \<Rightarrow> string \<Rightarrow> sp_state \<Rightarrow> outcome" where
  "own_section cf orig f a ss =
     (let sec = py_lower a; key = (os_realpath (cf_os cf) (fl_path f), Some sec, ss_scope ss) in
      if sec \<notin> fst ` set (fl_sections f)
        then Go (ss_err orig (''.lib '' @ a @ '': no section '' @ a @ '' in '' @ fl_path f) ss)
      else
        (case ss_expanded ss key of
           Some o' \<Rightarrow> Go (ss_note (mk_note orig (''section '' @ sec @ '' of '' @ fl_path f @
             '' already read at '' @ o' @ ''; not read again'')) ss)
         | None \<Rightarrow> Enter f (Some sec) (ss\<lparr>ss_expanded := (ss_expanded ss)(key \<mapsto> orig)\<rparr>)))"

definition lib_args ::
  "sp_conf \<Rightarrow> sp_stmt \<Rightarrow> sp_file \<Rightarrow> string option \<Rightarrow> string option \<Rightarrow> string list \<Rightarrow> sp_state \<Rightarrow> outcome" where
  "lib_args cf st f base section args ss =
     (if length args = 2 then expand_file cf st (args ! 0) (Some (py_lower (args ! 1))) base ss
      else if length args = 1 \<and> section \<noteq> None then own_section cf (st_origin st) f (args ! 0) ss
      else Go (ss_err (st_origin st) LIB_USAGE ss))"

definition d_lib :: "sp_conf \<Rightarrow> sp_stmt \<Rightarrow> sp_file \<Rightarrow> string option \<Rightarrow> string option \<Rightarrow> sp_state \<Rightarrow> outcome" where
  "d_lib cf st f base section ss = with_args st 4 ''.lib'' (\<lambda>args. lib_args cf st f base section args ss) ss"

definition d_subckt :: "sp_conf \<Rightarrow> sp_stmt \<Rightarrow> sp_state \<Rightarrow> sp_state" where
  "d_subckt cf st ss =
     (let words = py_words (st_text st);
          (name, ss1) = (if length words < 2 then (''?'', ss_err (st_origin st) (st_kw st @ '' needs a name'') ss)
                         else (sp_fold cf (words ! 1), spell (sp_fold cf (words ! 1)) (words ! 1) True ss));
          child = length (ss_scopes ss1);
          ss2 = add_item (ScopeItem child) ss1
      in ss2\<lparr>ss_scopes := ss_scopes ss2 @ [\<lparr>sc_name = Some name, sc_parent = Some (ss_scope ss2), sc_stmt = Some st, sc_items = []\<rparr>],
             ss_scope := child\<rparr>)"

definition scope_name :: "sp_state \<Rightarrow> nat \<Rightarrow> string" where
  "scope_name ss i = (case sc_name (ss_scopes ss ! i) of Some n \<Rightarrow> n | None \<Rightarrow> ''None'')"

definition scope_origin :: "sp_state \<Rightarrow> nat \<Rightarrow> string" where
  "scope_origin ss i = (case sc_stmt (ss_scopes ss ! i) of Some st \<Rightarrow> st_origin st | None \<Rightarrow> [])"

definition scope_parent :: "sp_state \<Rightarrow> nat \<Rightarrow> nat" where
  "scope_parent ss i = (case sc_parent (ss_scopes ss ! i) of Some q \<Rightarrow> q | None \<Rightarrow> 0)"

definition d_ends :: "sp_conf \<Rightarrow> sp_stmt \<Rightarrow> sp_state \<Rightarrow> sp_state" where
  "d_ends cf st ss =
     (if ss_scope ss = 0 then ss_err (st_origin st) (st_kw st @ '' without .subckt'') ss
      else
        (let words = py_words (st_text st);
             ss1 = (if 1 < length words \<and> sp_fold cf (words ! 1) \<noteq> scope_name ss (ss_scope ss)
                    then ss_err (st_origin st) (st_kw st @ '' '' @ words ! 1 @ '' closes .subckt '' @ scope_name ss (ss_scope ss) @
                           '' ('' @ scope_origin ss (ss_scope ss) @ '')'') ss
                    else ss)
         in ss1\<lparr>ss_scope := scope_parent ss1 (ss_scope ss1)\<rparr>))"

text \<open>\<open>text.strip("'\"")\<close>.\<close>

definition strip_both_quotes :: "string \<Rightarrow> string" where
  "strip_both_quotes s = rev (dropWhile quote_char (rev (dropWhile quote_char s)))"

definition add_search :: "sp_conf \<Rightarrow> string \<Rightarrow> string \<Rightarrow> string option \<Rightarrow> sp_state \<Rightarrow> sp_state" where
  "add_search cf orig val base ss =
     (let d0 = os_expanduser (cf_os cf) (expandvars (cf_environ cf) (strip_both_quotes val));
          d1 = (if isabs d0 then d0
                else
                  (let cand = path_join (cf_cwd cf) d0 in
                   case base of
                     Some b \<Rightarrow> if \<not> cf_isdir cf cand \<and> b \<noteq> [] then path_join b d0 else cand
                   | None \<Rightarrow> cand));
          d = normpath d1
      in if \<not> cf_isdir cf d then ss_note (warning orig (''.option search='' @ val @ '': no such directory'')) ss
         else if d \<notin> set (ss_search ss) then ss\<lparr>ss_search := ss_search ss @ [d]\<rparr> else ss)"

definition option_field :: "sp_conf \<Rightarrow> string \<Rightarrow> string option \<Rightarrow> field \<Rightarrow> sp_state \<Rightarrow> sp_state" where
  "option_field cf orig base = (\<lambda>(k, v) ss.
     let key = py_lower (case k of None \<Rightarrow> v | Some k' \<Rightarrow> k'); val = (case k of None \<Rightarrow> None | Some _ \<Rightarrow> Some v) in
     if key = ''search'' then
       (case val of
          None \<Rightarrow> ss_err orig ''.option search needs a directory'' ss
        | Some v' \<Rightarrow> add_search cf orig v' base ss)
     else ss\<lparr>ss_options := ss_options ss @ [(key, val, orig)]\<rparr>)"

definition d_option :: "sp_conf \<Rightarrow> sp_stmt \<Rightarrow> string option \<Rightarrow> sp_state \<Rightarrow> outcome" where
  "d_option cf st base ss =
     with_fields st (st_kw st) (\<lambda>fs. fold (option_field cf (st_origin st) base) fs ss) ss"

definition global_field :: "string \<Rightarrow> field \<Rightarrow> sp_state \<Rightarrow> sp_state" where
  "global_field orig = (\<lambda>(k, w) ss.
     case k of
       Some key \<Rightarrow> ss_err orig (''.global: '' @ key @ ''='' @ w @ '' is not a node name'') ss
     | None \<Rightarrow> ss\<lparr>ss_globals_raw := ss_globals_raw ss @ [(w, orig)]\<rparr>)"

definition d_global :: "sp_stmt \<Rightarrow> sp_state \<Rightarrow> outcome" where
  "d_global st ss = with_fields st ''.global'' (\<lambda>fs. fold (global_field (st_origin st)) fs ss) ss"

definition alist_default :: "string \<Rightarrow> 'v \<Rightarrow> (string \<times> 'v) list \<Rightarrow> (string \<times> 'v) list" where
  "alist_default k v d = (if k \<in> fst ` set d then d else d @ [(k, v)])"

definition add_module :: "string \<times> va_module \<Rightarrow> sp_state \<Rightarrow> sp_state" where
  "add_module = (\<lambda>(low, vm) ss. ss\<lparr>ss_va_modules := alist_default low (vm_name vm) (ss_va_modules ss),
                                   ss_va_mods := alist_default low vm (ss_va_mods ss)\<rparr>)"

definition load_modules :: "sp_conf \<Rightarrow> string \<Rightarrow> string \<Rightarrow> sp_state \<Rightarrow> sp_state" where
  "load_modules cf orig path ss =
     (let ss1 = (if path \<in> set (ss_hdl ss) then ss else ss\<lparr>ss_hdl := ss_hdl ss @ [path]\<rparr>);
          (mods, files) = va_modules (cf_os cf) path (ss_search ss1) [] (cf_sp cf);
          ss2 = (if mods = [] then ss_err orig (path @ '' declares no Verilog-A module'' @
                   (if 1 < length files then '' (files read: '' @ py_join '', '' files @ '')'' else [])) ss1
                 else ss1)
      in fold add_module mods ss2)"

definition hdl_args :: "sp_conf \<Rightarrow> string \<Rightarrow> string option \<Rightarrow> string list \<Rightarrow> sp_state \<Rightarrow> sp_state" where
  "hdl_args cf orig base args ss =
     (case args of
        [] \<Rightarrow> ss_err orig ''.hdl needs a Verilog-A file name'' ss
      | a # rest \<Rightarrow>
          (let ss1 = (if rest \<noteq> [] then ss_note (mk_note orig (''.hdl: extra arguments ignored: '' @ py_join '' '' rest)) ss else ss);
               (found, ss2) = resolve_ref cf a base orig ''Verilog-A file'' ss1
           in case found of None \<Rightarrow> ss2 | Some path \<Rightarrow> load_modules cf orig path ss2))"

definition d_hdl :: "sp_conf \<Rightarrow> sp_stmt \<Rightarrow> string option \<Rightarrow> sp_state \<Rightarrow> outcome" where
  "d_hdl cf st base ss = with_args st 4 ''.hdl'' (\<lambda>args. Go (hdl_args cf (st_origin st) base args ss)) ss"

section \<open>Statements\<close>

definition sp_supported :: "string list" where
  "sp_supported = [''.subckt'', ''.ends'', ''.param'', ''.model'', ''.inc'', ''.lib'', ''.endl'', ''.data'', ''.enddata'', ''.if'', ''.alter'']"

text \<open>The Spectre dialect hands every other dot statement on.\<close>

definition sp_control :: "sp_stmt \<Rightarrow> sp_state \<Rightarrow> sp_state" where
  "sp_control st ss =
     (let kw = st_kw st; canon = dot_canon kw; inner = (ss_scope ss \<noteq> 0); name = scope_name ss (ss_scope ss) in
      if (\<exists>c \<in> set CONTROLS_TOP_ONLY. canon = Some c) \<and> inner then
        ss_err (st_origin st) (kw @ '' inside .subckt '' @ name @ '' is not supported'') ss
      else if canon = Some ''.option'' \<and> inner then
        ss_err (st_origin st) (kw @ '' inside .subckt '' @ name @ '': Spectre'' @ [CHR 0x27] @ ''s multi-technology mode scopes options '' @
          ''given in a subcircuit to it, which v1 does not model ('' @ [CHR 0xA7] @ ''3.6)'') ss
      else if canon = None \<and> kw \<notin> set DOT_OTHER_ANALYSES \<and> kw \<notin> fst ` set DOT_NOTED \<and> kw \<notin> fst ` set DOT_ERRORS then
        ss_err (st_origin st) (''unsupported dot-command '' @ kw) ss
      else ss\<lparr>ss_controls := ss_controls ss @ [(case canon of Some c \<Rightarrow> c | None \<Rightarrow> kw, st)]\<rparr>)"

definition unknown_dot :: "sp_stmt \<Rightarrow> diag" where
  "unknown_dot st =
     (let kw = st_kw st; orig = st_origin st in
      if kw \<in> set DOT_OTHER_ANALYSES then
        warning orig (kw @ '' ignored: only the first .tran is simulated in a co-simulation'')
      else case map_of DOT_NOTED kw of
        Some why \<Rightarrow> mk_note orig (kw @ '' ignored ('' @ (case why of Some w \<Rightarrow> w | None \<Rightarrow> ''library control'') @ '')'')
      | None \<Rightarrow>
          (case map_of DOT_ERRORS kw of
             Some why \<Rightarrow> error orig (kw @ '' is not supported ('' @ why @ '')'')
           | None \<Rightarrow> error orig (''unsupported dot-command '' @ kw)))"

definition statement :: "sp_conf \<Rightarrow> sp_stmt \<Rightarrow> sp_file \<Rightarrow> string option \<Rightarrow> string option \<Rightarrow> sp_state \<Rightarrow> outcome" where
  "statement cf st f base section ss =
     (let kw = st_kw st in
      if \<not> py_startswith kw ''.'' then Go (add_item (StmtItem st) ss)
      else if cf_sp cf \<and> (\<forall>c \<in> set sp_supported. dot_canon kw \<noteq> Some c) then Go (sp_control st ss)
      else if cf_sp cf \<and> (\<exists>c \<in> {''.inc'', ''.lib'', ''.endl''}. dot_canon kw = Some c) then
        Go (ss_err (st_origin st) (kw @ '' was not spliced in before the SPICE region was read (internal)'') ss)
      else case dot_canon kw of
        None \<Rightarrow> Go (ss_note (unknown_dot st) ss)
      | Some canon \<Rightarrow>
          if canon \<in> set CONTROLS_TOP_ONLY \<and> ss_scope ss \<noteq> 0 then
            Go (ss_err (st_origin st) (kw @ '' inside .subckt '' @ scope_name ss (ss_scope ss) @ '' is not supported'') ss)
          else if canon = ''.inc'' then d_include cf st base ss
          else if canon = ''.lib'' then d_lib cf st f base section ss
          else if canon = ''.subckt'' then Go (d_subckt cf st ss)
          else if canon = ''.ends'' then Go (d_ends cf st ss)
          else if canon = ''.param'' \<or> canon = ''.model'' then Go (add_item (StmtItem st) ss)
          else if canon = ''.option'' then d_option cf st base ss
          else if canon = ''.global'' then d_global st ss
          else if canon = ''.hdl'' then d_hdl cf st base ss
          else if canon = ''.title'' then Go (ss\<lparr>ss_title := py_strip (drop (length kw) (st_text st))\<rparr>)
          else if canon = ''.protect'' then Go ss
          else if canon = ''.measure'' then Go (ss_note (warning (st_origin st) ''.measure is not supported and is ignored'') ss)
          else if canon = ''.enddata'' then Go (ss_err (st_origin st) ''.enddata without .data'' ss)
          else Go (ss\<lparr>ss_controls := ss_controls ss @ [(canon, st)]\<rparr>))"

section \<open>Running a file\<close>

definition head_word :: "sp_stmt \<Rightarrow> string" where
  "head_word st = hd (py_words (st_text st))"

text \<open>\<open>skip_to\<close>: how many statements to skip, or none where the closing word is missing.\<close>

fun skip_count :: "string list \<Rightarrow> string list \<Rightarrow> nat \<Rightarrow> sp_stmt list \<Rightarrow> nat option" where
  "skip_count closers openers depth [] = None"
| "skip_count closers openers depth (st # sts) =
     (let t = py_lower (head_word st) in
      if t \<in> set closers then (if depth = 0 then Some 1 else map_option Suc (skip_count closers openers (depth - 1) sts))
      else map_option Suc (skip_count closers openers (if t \<in> set openers then Suc depth else depth) sts))"

definition skip_to :: "sp_file \<Rightarrow> nat \<Rightarrow> nat \<Rightarrow> string list \<Rightarrow> string list \<Rightarrow> sp_state \<Rightarrow> nat \<times> sp_state" where
  "skip_to f i n closers openers ss =
     (case skip_count closers openers 0 (drop (Suc i) (take n (fl_stmts f))) of
        Some k \<Rightarrow> (Suc i + k, ss)
      | None \<Rightarrow> (n, ss_err (st_origin (fl_stmts f ! i)) (head_word (fl_stmts f ! i) @ '' has no '' @ hd closers) ss))"

text \<open>One turn of the loop of \<open>run\<close>.\<close>

datatype turn = Stop sp_state | Jump nat sp_state | Read sp_file "string option" sp_state | Fails field_err

definition ignored_after_end :: "nat \<Rightarrow> string" where
  "ignored_after_end n = ''ignored after .end ('' @ show_int (int n) @ '' statement'' @ (if n = 1 then [] else ''s'') @ '')''"

definition end_turn :: "sp_conf \<Rightarrow> sp_stmt \<Rightarrow> sp_stmt list \<Rightarrow> string option \<Rightarrow> sp_state \<Rightarrow> sp_state" where
  "end_turn cf st rest section ss =
     (let orig = st_origin st; kw = st_kw st;
          ss1 = (if kw = ''.alter'' then ss_err orig ''.alter is not supported (one simulation per run)'' ss else ss);
          ss2 = (if section \<noteq> None \<and> kw = ''.end'' then ss_err orig ''a .lib section cannot contain .end'' ss1 else ss1);
          ss3 = (if cf_sp cf \<and> kw = ''.end'' then ss2\<lparr>ss_controls := ss_controls ss2 @ [(''.end'', st)]\<rparr> else ss2)
      in if rest \<noteq> [] \<and> kw = ''.end'' then ss_note (mk_note (st_origin (hd rest)) (ignored_after_end (length rest))) ss3 else ss3)"

definition run_turn :: "sp_conf \<Rightarrow> sp_file \<Rightarrow> string option \<Rightarrow> nat \<Rightarrow> nat \<Rightarrow> sp_state \<Rightarrow> turn" where
  "run_turn cf f section i n ss =
     (case (if section = None then map_of (fl_skip f) i else None) of
        Some j \<Rightarrow> Jump (Suc j) ss
      | None \<Rightarrow>
          (let st = fl_stmts f ! i; kw = st_kw st; orig = st_origin st; canon = dot_canon kw in
           if (canon = Some ''.if'' \<or> canon = Some ''.data'' \<or> canon = Some ''.enddata'') \<and> kw \<noteq> ''.if'' \<and> kw \<noteq> ''.data'' then
             Jump (Suc i) (ss_err orig (kw @ '' without '' @ (if canon = Some ''.if'' then ''.if'' else ''.data'')) ss)
           else if kw = ''.end'' \<or> kw = ''.alter'' then
             Stop (end_turn cf st (drop (Suc i) (take n (fl_stmts f))) section ss)
           else if kw = ''.data'' then
             (let (j, ss') = skip_to f i n [''.enddata''] [] (ss_err orig ''.data is not supported'' ss) in Jump j ss')
           else if kw = ''.if'' then
             (let (j, ss') = skip_to f i n [''.endif''] [''.if'']
                (ss_err orig (head_word st @ '' is not supported (conditional netlists, .if binning)'') ss) in Jump j ss')
           else if kw = ''.endl'' then Jump (Suc i) (ss_err orig ''.endl without a .lib section'' ss)
           else
             (case statement cf st f (if fl_path f \<noteq> [] then Some (dirname (fl_path f)) else origin_dir cf orig) section ss of
                Go ss' \<Rightarrow> Jump (Suc i) ss'
              | Enter g sec ss' \<Rightarrow> Read g sec ss'
              | Crash e \<Rightarrow> Fails e)))"

text \<open>The statements of a file, or of one of its sections.\<close>

definition section_range :: "sp_file \<Rightarrow> string option \<Rightarrow> nat \<times> nat" where
  "section_range f section =
     (case section of
        None \<Rightarrow> (0, length (fl_stmts f))
      | Some s \<Rightarrow> (case map_of (fl_sections f) s of Some (first, n, _) \<Rightarrow> (first, n) | None \<Rightarrow> (0, 0)))"

type_synonym run_result = "field_err + sp_state"

definition and_then :: "run_result option \<Rightarrow> (sp_state \<Rightarrow> run_result option) \<Rightarrow> run_result option" where
  "and_then m k = Option.bind m (\<lambda>r. case r of Inl e \<Rightarrow> Some (Inl e) | Inr ss \<Rightarrow> k ss)"

partial_function (option) run_from ::
  "sp_conf \<Rightarrow> sp_file \<Rightarrow> string option \<Rightarrow> nat \<Rightarrow> nat \<Rightarrow> sp_state \<Rightarrow> run_result option" where
  "run_from cf f section i n ss =
     (if n \<le> i then Some (Inr ss)
      else case run_turn cf f section i n ss of
        Stop ss' \<Rightarrow> Some (Inr ss')
      | Jump j ss' \<Rightarrow> run_from cf f section j n ss'
      | Fails e \<Rightarrow> Some (Inl e)
      | Read g sec ss' \<Rightarrow>
          Option.bind (run_from cf g sec (fst (section_range g sec)) (snd (section_range g sec)) ss')
            (\<lambda>r. case r of Inl e \<Rightarrow> Some (Inl e) | Inr ss'' \<Rightarrow> run_from cf f section (Suc i) n ss''))"

definition run_file :: "sp_conf \<Rightarrow> sp_file \<Rightarrow> string option \<Rightarrow> sp_state \<Rightarrow> run_result option" where
  "run_file cf f section ss = run_from cf f section (fst (section_range f section)) (snd (section_range f section)) ss"

section \<open>Reading\<close>

text \<open>\<open>close_scopes\<close>: from the current scope up its parents.\<close>

fun close_scopes :: "nat \<Rightarrow> string \<Rightarrow> sp_state \<Rightarrow> sp_state" where
  "close_scopes 0 whr ss = ss"
| "close_scopes (Suc fuel) whr ss =
     (if ss_scope ss = 0 then ss
      else close_scopes fuel whr
        ((ss_err (scope_origin ss (ss_scope ss)) (''.subckt '' @ scope_name ss (ss_scope ss) @ '' has no .ends (end of '' @ whr @ '')'') ss)
           \<lparr>ss_scope := scope_parent ss (ss_scope ss)\<rparr>))"

definition close_all :: "string \<Rightarrow> sp_state \<Rightarrow> sp_state" where
  "close_all whr ss = close_scopes (length (ss_scopes ss)) whr ss"

definition read_netlist :: "sp_conf \<Rightarrow> nat \<times> string \<times> string \<Rightarrow> sp_state \<Rightarrow> run_result option" where
  "read_netlist cf = (\<lambda>(k, p, orig) ss.
     let (found, ss1) = resolve_ref cf p (origin_dir cf orig) orig ''netlist'' ss in
     case found of
       None \<Rightarrow> Some (Inr ss1)
     | Some path \<Rightarrow>
         (let key = (os_realpath (cf_os cf) path, None, 0) in
          case ss_expanded ss1 key of
            Some o' \<Rightarrow> Some (Inr (ss_note (mk_note (or_text orig path) (''netlist '' @ p @ '' already read ('' @ o' @
              ''); not read again'')) ss1))
          | None \<Rightarrow>
              (let (f, ss2) = load_file cf path (k = 0) (ss1\<lparr>ss_expanded := (ss_expanded ss1)(key \<mapsto> path)\<rparr>) in
               and_then (run_file cf f None ss2) (\<lambda>ss3. Some (Inr (close_all path ss3))))))"

fun read_netlists :: "sp_conf \<Rightarrow> (nat \<times> string \<times> string) list \<Rightarrow> sp_state \<Rightarrow> run_result option" where
  "read_netlists cf [] ss = Some (Inr ss)"
| "read_netlists cf (r # rs) ss = and_then (read_netlist cf r ss) (read_netlists cf rs)"

definition read_extra :: "sp_conf \<Rightarrow> phys \<Rightarrow> sp_state \<Rightarrow> run_result option" where
  "read_extra cf extra ss =
     (if extra = [] then Some (Inr ss)
      else case logical (cf_sp cf) extra of
        Inl e \<Rightarrow> Some (Inl e)
      | Inr (stmts, ns) \<Rightarrow>
          (let f = mk_file [] stmts in
           and_then (run_file cf f None (ss\<lparr>ss_notes := ss_notes ss @ ns @ fl_notes f\<rparr>))
             (\<lambda>ss'. Some (Inr (close_all (snd (hd extra)) ss')))))"

text \<open>\<open>read\<close>: the netlists, each a path and the origin of the command that chose it, then the fragment.\<close>

definition read_spice :: "sp_conf \<Rightarrow> (string \<times> string) list \<Rightarrow> phys \<Rightarrow> sp_state \<Rightarrow> run_result option" where
  "read_spice cf paths extra ss =
     and_then (read_netlists cf (enumerate 0 paths) ss) (read_extra cf extra)"

end
