(* ===== verification/SpiceLexProps.thy ===== *)
theory SpiceLexProps
  imports SpiceLex
begin

text \<open>
  What the lexical layer of the HSPICE reader guarantees: fields keep the text of a statement, a
  statement that is written over several lines with comment lines between them is read as the fields
  that were written, and the sections of a file are intervals of its statements.
\<close>

section \<open>One step of the fields\<close>

lemma space_not:
  "re_space c \<Longrightarrow> \<not> quote_char c \<and> \<not> plain_field_char c \<and> c \<noteq> CHR ''{'' \<and> c \<noteq> CHR ''}'' \<and> c \<noteq> CHR ''('' \<and>
     c \<noteq> CHR '')'' \<and> c \<noteq> CHR '','' \<and> c \<noteq> CHR ''=''"
  by (auto simp: plain_field_char_def re_space_def quote_char_def code_in_def)

lemma lex_go_quote:
  "quote_char c \<Longrightarrow> lex_go cur key depth out (c # s) =
     (case find_char c s of
        None \<Rightarrow> Inl (unterminated_quote c)
      | Some k \<Rightarrow> lex_go (cur @ c # take (Suc k) s) key depth out (drop (Suc k) s))"
  by (simp add: lex_go.simps(2))

lemma not_quote:
  "\<not> quote_char CHR ''{''" "\<not> quote_char CHR ''}''" "\<not> quote_char CHR ''(''" "\<not> quote_char CHR '')''"
  "\<not> quote_char CHR '',''" "\<not> quote_char CHR ''=''"
  "\<not> lex_blank CHR ''{''" "\<not> lex_blank CHR ''}''" "\<not> lex_blank CHR ''(''" "\<not> lex_blank CHR '')''"
  "\<not> lex_blank CHR '',''" "\<not> lex_blank CHR ''=''"
  by (simp_all add: quote_char_def lex_blank_def code_in_def)

lemma lex_go_brace:
  "lex_go cur key depth out (CHR ''{'' # s) =
     (case brace_end 1 s of
        None \<Rightarrow> Inl (LexText (''unclosed '' @ quoted ''{''))
      | Some k \<Rightarrow> lex_go (cur @ CHR ''{'' # take (Suc k) s) key depth out (drop (Suc k) s))"
  by (simp add: lex_go.simps(2) not_quote)

lemma lex_go_parens:
  "lex_go cur key depth out (CHR ''}'' # s) = Inl (LexText (''unbalanced '' @ quoted ''}''))"
  "lex_go cur key depth out (CHR ''('' # s) = lex_go (cur @ ''('') key (Suc depth) out s"
  "lex_go cur key depth out (CHR '')'' # s) =
     (if depth = 0 then Inl (LexText (''unbalanced '' @ quoted '')''))
      else lex_go (cur @ '')'') key (depth - 1) out s)"
  by (simp_all add: lex_go.simps(2) not_quote)

lemma blank_not:
  "lex_blank c \<Longrightarrow> re_space c \<and> \<not> quote_char c \<and> c \<noteq> CHR ''{'' \<and> c \<noteq> CHR ''}'' \<and> c \<noteq> CHR ''('' \<and> c \<noteq> CHR '')''"
  by (auto simp: lex_blank_def re_space_def quote_char_def code_in_def)

lemma lex_go_blank:
  "lex_blank c \<Longrightarrow> lex_go cur key depth out (c # s) =
     (if depth \<noteq> 0 then lex_go (cur @ '' '') key depth out (dropWhile re_space s)
      else lex_go [] (fst (end_field cur key out)) depth (snd (end_field cur key out)) (dropWhile re_space s))"
  using blank_not [of c] by (simp add: lex_go.simps(2) split_beta)

lemma lex_go_comma:
  "lex_go cur key depth out (CHR '','' # s) =
     (if depth \<noteq> 0 then lex_go (cur @ '','') key depth out s
      else lex_go [] (fst (end_field cur key out)) depth (snd (end_field cur key out)) s)"
  by (simp add: lex_go.simps(2) not_quote split_beta)

lemma lex_go_equals:
  "lex_go cur key depth out (CHR ''='' # s) =
     (case lex_equals cur key depth out s of
        Inl e \<Rightarrow> Inl e
      | Inr (cur', key', out') \<Rightarrow> lex_go cur' key' depth out' s)"
  by (simp add: lex_go.simps(2) not_quote)

lemma plain_char_not:
  "plain_field_char c \<Longrightarrow> \<not> quote_char c \<and> \<not> lex_blank c \<and> c \<noteq> CHR ''{'' \<and> c \<noteq> CHR ''}'' \<and> c \<noteq> CHR ''('' \<and>
     c \<noteq> CHR '')'' \<and> c \<noteq> CHR '','' \<and> c \<noteq> CHR ''=''"
  using blank_not by (auto simp: plain_field_char_def)

lemma lex_go_plain:
  "plain_field_char c \<Longrightarrow> lex_go cur key depth out (c # s) =
     lex_go (cur @ c # takeWhile plain_field_char s) key depth out (dropWhile plain_field_char s)"
  using plain_char_not [of c] by (simp add: lex_go.simps(2))

text \<open>What is left are the blanks that \<open>\s\<close> knows and the test of \<open>_lex\<close> does not.\<close>

lemma lex_go_odd:
  "re_space c \<Longrightarrow> \<not> lex_blank c \<Longrightarrow> lex_go cur key depth out (c # s) = Inl NoMatch"
  using space_not [of c] by (simp add: lex_go.simps(2))

lemmas lex_go_steps = lex_go_brace lex_go_parens lex_go_comma lex_go_equals

lemma char_kinds:
  obtains (quote) "quote_char c" | (blank) "lex_blank c" | (plain) "plain_field_char c"
  | (odd) "re_space c" "\<not> lex_blank c" | (open_brace) "c = CHR ''{''" | (close_brace) "c = CHR ''}''"
  | (open_paren) "c = CHR ''(''" | (close_paren) "c = CHR '')''" | (comma) "c = CHR '',''"
  | (equals) "c = CHR ''=''"
proof -
  have "quote_char c \<or> lex_blank c \<or> plain_field_char c \<or> (re_space c \<and> \<not> lex_blank c) \<or> c = CHR ''{'' \<or>
      c = CHR ''}'' \<or> c = CHR ''('' \<or> c = CHR '')'' \<or> c = CHR '','' \<or> c = CHR ''=''"
    unfolding plain_field_char_def by (cases "quote_char c"; cases "lex_blank c"; cases "re_space c") auto
  then show thesis by - (elim disjE conjE; (rule that; assumption))
qed

section \<open>Fields keep the text\<close>

definition field_src :: "field \<Rightarrow> string" where
  "field_src f = (case fst f of Some k \<Rightarrow> k @ ''='' @ snd f | None \<Rightarrow> snd f)"

lemma field_src_simps [simp]:
  "field_src (None, t) = t"
  "field_src (Some k, t) = k @ CHR ''='' # t"
  by (simp_all add: field_src_def)

text \<open>The characters that separate fields.\<close>

definition field_text_char :: "char \<Rightarrow> bool" where
  "field_text_char c \<longleftrightarrow> \<not> re_space c \<and> c \<noteq> CHR '',''"

definition inked :: "string \<Rightarrow> string" where
  "inked s = filter field_text_char s"

lemma inked_simps [simp]: "inked [] = []" "inked (s @ t) = inked s @ inked t"
  by (simp_all add: inked_def)

lemma inked_Cons: "inked (c # s) = (if field_text_char c then c # inked s else inked s)"
  by (simp add: inked_def)

lemma inked_skip [simp]: "inked (dropWhile re_space s) = inked s"
  by (induction s) (auto simp: inked_def field_text_char_def)

lemma inked_comma [simp]: "inked (CHR '','' # s) = inked s"
  by (simp add: inked_def field_text_char_def)

lemma inked_space: "re_space c \<Longrightarrow> inked (c # s) = inked s"
  by (simp add: inked_def field_text_char_def)

lemma inked_blank [simp]: "inked (CHR '' '' # s) = inked s"
  by (simp add: inked_def field_text_char_def re_space_def code_in_def)

lemma lex_blank_space: "lex_blank c \<Longrightarrow> re_space c"
  by (auto simp: lex_blank_def re_space_def code_in_def)

definition pending :: "string option \<Rightarrow> string \<Rightarrow> string" where
  "pending key cur = (case key of Some k \<Rightarrow> k @ ''='' | None \<Rightarrow> []) @ cur"

definition fields_src :: "field list \<Rightarrow> string" where
  "fields_src fs = concat (map field_src fs)"

lemma fields_src_simps [simp]:
  "fields_src [] = []" "fields_src (fs @ gs) = fields_src fs @ fields_src gs"
  "fields_src (f # fs) = field_src f @ fields_src fs"
  by (simp_all add: fields_src_def)

lemma pending_simps [simp]:
  "pending None cur = cur" "pending (Some k) cur = k @ CHR ''='' # cur"
  by (simp_all add: pending_def)

lemma end_field_src: "end_field cur key out = (k, o') \<Longrightarrow> fields_src o' @ pending k [] = fields_src out @ pending key cur"
  by (cases key) (auto simp: end_field_def split: if_splits)

lemma lex_equals_src:
  "lex_equals cur key depth out s = Inr (c', k', o') \<Longrightarrow>
   fields_src o' @ pending k' c' = fields_src out @ pending key cur @ ''=''"
  by (cases key; cases out rule: rev_cases)
    (auto simp: lex_equals_def split: if_splits option.splits list.splits prod.splits)

lemma inked_cut: "inked (take k s @ drop k s @ t) = inked (s @ t)"
  by (metis append.assoc append_take_drop_id)

lemma lex_go_src: "lex_go cur key depth out s = Inr fs \<Longrightarrow>
   inked (fields_src fs) = inked (fields_src out @ pending key cur @ s)"
proof (induction cur key depth out s rule: lex_go.induct)
  case (1 cur key depth out)
  then show ?case by (cases key) (auto simp: lex_go.simps split: if_splits)
next
  case (2 cur key depth out c s)
  note ih = "2.IH" and res = "2.prems"
  have key: "pending key (cur @ x) = pending key cur @ x" for x by (cases key) simp_all
  have ended: "inked (fields_src (snd (end_field cur key out)) @ pending (fst (end_field cur key out)) []) =
      inked (fields_src out @ pending key cur)"
    by (cases "end_field cur key out") (simp add: end_field_src)
  show ?case
  proof (cases c rule: char_kinds)
    case quote
    then obtain k where k: "find_char c s = Some k"
      using res by (cases "find_char c s") (simp_all add: lex_go_quote)
    then have "lex_go (cur @ c # take (Suc k) s) key depth out (drop (Suc k) s) = Inr fs"
      using quote res by (simp add: lex_go_quote)
    from ih(1) [OF quote k this] show ?thesis by (simp add: key inked_Cons flip: inked_simps(2))
  next
    case blank
    have sp: "re_space c" using blank by (rule lex_blank_space)
    show ?thesis
    proof (cases "depth = 0")
      case True
      have "inked (fields_src fs) =
          inked (fields_src (snd (end_field cur key out)) @ pending (fst (end_field cur key out)) [] @ dropWhile re_space s)"
        using res blank True sp blank_not [OF blank] by (intro ih(6)) (simp_all add: lex_go_blank)
      then show ?thesis using ended sp by (simp add: inked_space flip: append_assoc)
    next
      case False
      then have "inked (fields_src fs) = inked (fields_src out @ pending key (cur @ '' '') @ dropWhile re_space s)"
        using res blank sp blank_not [OF blank] by (intro ih(5)) (simp_all add: lex_go_blank)
      then show ?thesis using sp by (simp add: key inked_space)
    qed
  next
    case plain
    have "inked (fields_src fs) =
        inked (fields_src out @ pending key (cur @ c # takeWhile plain_field_char s) @ dropWhile plain_field_char s)"
      using res plain plain_char_not [OF plain] by (intro ih(10)) (simp_all add: lex_go_plain)
    then show ?thesis by (simp add: key inked_Cons flip: inked_simps(2))
  next
    case odd
    then show ?thesis using res by (simp add: lex_go_odd)
  next
    case open_brace
    then obtain k where k: "brace_end 1 s = Some k"
      using res by (cases "brace_end 1 s") (simp_all add: lex_go_brace)
    have "inked (fields_src fs) = inked (fields_src out @ pending key (cur @ c # take (Suc k) s) @ drop (Suc k) s)"
      using res open_brace k by (intro ih(2)) (simp_all add: lex_go_brace not_quote)
    then show ?thesis by (simp add: key inked_Cons flip: inked_simps(2))
  next
    case close_brace
    then show ?thesis using res by (simp add: lex_go_parens)
  next
    case open_paren
    then show ?thesis using res ih(3) by (simp add: lex_go_parens not_quote key)
  next
    case close_paren
    then show ?thesis using res ih(4) by (simp add: lex_go_parens not_quote key split: if_splits)
  next
    case comma
    show ?thesis
    proof (cases "depth = 0")
      case True
      have "inked (fields_src fs) =
          inked (fields_src (snd (end_field cur key out)) @ pending (fst (end_field cur key out)) [] @ s)"
        using res comma True by (intro ih(8)) (simp_all add: lex_go_comma not_quote)
      then show ?thesis using ended comma by (simp flip: append_assoc)
    next
      case False
      then have "inked (fields_src fs) = inked (fields_src out @ pending key (cur @ [c]) @ s)"
        using res comma by (intro ih(7)) (simp_all add: lex_go_comma not_quote)
      then show ?thesis using comma by (simp add: key)
    qed
  next
    case equals
    then obtain c' k' o' where e: "lex_equals cur key depth out s = Inr (c', k', o')"
      using res by (cases "lex_equals cur key depth out s") (auto simp: lex_go_equals)
    have "inked (fields_src fs) = inked (fields_src o' @ pending k' c' @ s)"
      using res equals e by (intro ih(9)) (simp_all add: lex_go_equals not_quote)
    moreover have "inked (fields_src o' @ pending k' c') = inked (fields_src out @ pending key cur @ ''='')"
      by (simp add: lex_equals_src [OF e])
    moreover have "inked (CHR ''='' # s) = inked ''='' @ inked s" by (simp add: inked_Cons)
    ultimately show ?thesis using equals by (simp flip: append_assoc)
  qed
qed

section \<open>Written statements\<close>

text \<open>
  The fields that are written: words without blanks, quotes, brackets, separators and semicolons, and
  quoted texts. A field does not start as a comment does.
\<close>

definition good_word :: "string \<Rightarrow> bool" where
  "good_word w \<longleftrightarrow> w \<noteq> [] \<and> list_all (\<lambda>c. plain_field_char c \<and> c \<noteq> CHR '';'') w \<and> last w \<noteq> backslash"

definition quoted_text :: "string \<Rightarrow> bool" where
  "quoted_text t \<longleftrightarrow> 2 \<le> length t \<and> quote_char (hd t) \<and> last t = hd t \<and> hd t \<notin> set (butlast (tl t))"

definition good_text :: "string \<Rightarrow> bool" where
  "good_text t \<longleftrightarrow> good_word t \<or> quoted_text t"

definition comment_head :: "char \<Rightarrow> bool" where
  "comment_head c \<longleftrightarrow> c = CHR ''$'' \<or> c = CHR ''/''"

definition good_field :: "field \<Rightarrow> bool" where
  "good_field f \<longleftrightarrow> good_text (snd f) \<and>
     (case fst f of
        None \<Rightarrow> \<not> comment_head (hd (snd f))
      | Some k \<Rightarrow> good_word k \<and> \<not> comment_head (hd k) \<and> last k \<notin> {CHR ''<'', CHR ''>'', CHR ''!''})"

lemma quoted_textE:
  assumes "quoted_text t"
  obtains q w where "t = q # w @ [q]" "quote_char q" "q \<notin> set w"
proof -
  obtain q r where t: "t = q # r" using assms by (cases t) (auto simp: quoted_text_def)
  then obtain w x where "r = w @ [x]" using assms by (cases r rule: rev_cases) (auto simp: quoted_text_def)
  with t assms that show thesis by (auto simp: quoted_text_def)
qed

lemma quote_ne: "quote_char q \<Longrightarrow> q \<noteq> CHR '';'' \<and> q \<noteq> CHR ''$'' \<and> q \<noteq> CHR ''/'' \<and> \<not> tab_blank q \<and> q \<noteq> backslash \<and> \<not> re_space q"
  by (auto simp: quote_char_def tab_blank_def backslash_def re_space_def code_in_def)

lemma tab_blank_space: "tab_blank c \<Longrightarrow> re_space c"
  by (elim tab_blank_def [THEN iffD1, THEN disjE]) (simp_all add: re_space_def code_in_def)

lemma plain_blank: "plain_field_char c \<Longrightarrow> \<not> tab_blank c"
  using tab_blank_space [of c] by (simp add: plain_field_char_def) blast

lemma plain_comment_free:
  "plain_field_char c \<Longrightarrow> c \<noteq> CHR '';'' \<Longrightarrow> \<not> (b \<and> comment_head c) \<Longrightarrow>
   strip_from None b (c # s) = apfst ((#) c) (strip_from None False s)"
  using plain_char_not [of c] plain_blank [of c] by (cases b) (simp_all add: comment_head_def)

lemma strip_word:
  "list_all (\<lambda>c. plain_field_char c \<and> c \<noteq> CHR '';'') w \<Longrightarrow> w \<noteq> [] \<Longrightarrow> \<not> (b \<and> comment_head (hd w)) \<Longrightarrow>
   strip_from None b (w @ t) = apfst (append w) (strip_from None False t)"
proof (induction w arbitrary: b)
  case (Cons c w)
  then have s: "strip_from None b ((c # w) @ t) = apfst ((#) c) (strip_from None False (w @ t))"
    using plain_comment_free [of c b "w @ t"] by simp
  show ?case
  proof (cases w)
    case Nil
    then show ?thesis using s by (simp add: apfst_def map_prod_def split_beta)
  next
    case c': (Cons x xs)
    have "strip_from None False (w @ t) = apfst (append w) (strip_from None False t)"
      using Cons.prems c' by (intro Cons.IH) auto
    then show ?thesis using s by (simp add: apfst_def map_prod_def split_beta)
  qed
qed simp

lemma strip_quote:
  "q \<notin> set w \<Longrightarrow> quote_char q \<Longrightarrow>
   strip_from (Some q) b (w @ q # t) = apfst (append (w @ [q])) (strip_from None False t)"
  using quote_ne [of q] by (induction w arbitrary: b) (auto simp: apfst_def map_prod_def split_beta)

lemma strip_text:
  assumes "good_text x" "\<not> (b \<and> comment_head (hd x))"
  shows "strip_from None b (x @ t) = apfst (append x) (strip_from None False t)"
proof (cases "good_word x")
  case True
  then show ?thesis using assms by (intro strip_word) (auto simp: good_word_def)
next
  case False
  then obtain q w where "x = q # w @ [q]" "quote_char q" "q \<notin> set w"
    using assms(1) by (auto simp: good_text_def elim: quoted_textE)
  then show ?thesis using strip_quote [of q w _ t] by (simp add: apfst_def map_prod_def split_beta)
qed

lemma strip_field:
  assumes "good_field f"
  shows "strip_from None b (field_src f @ t) = apfst (append (field_src f)) (strip_from None False t)"
proof (cases f)
  case (Pair key x)
  show ?thesis
  proof (cases key)
    case None
    then show ?thesis using assms Pair strip_text [of x b t] by (simp add: good_field_def)
  next
    case (Some k)
    have "strip_from None b (k @ CHR ''='' # x @ t) = apfst (append k) (strip_from None False (CHR ''='' # x @ t))"
      using assms Pair Some by (intro strip_word) (auto simp: good_field_def good_word_def)
    moreover have "strip_from None False (CHR ''='' # x @ t) = apfst ((#) CHR ''='') (strip_from None False (x @ t))"
      by (simp add: quote_char_def tab_blank_def)
    moreover have "strip_from None False (x @ t) = apfst (append x) (strip_from None False t)"
      using assms Pair by (intro strip_text) (auto simp: good_field_def)
    ultimately show ?thesis using Pair Some by (simp add: apfst_def map_prod_def split_beta)
  qed
qed

text \<open>A text of fields with blanks between them.\<close>

inductive spaced :: "field list \<Rightarrow> string \<Rightarrow> bool" where
  "spaced [f] (field_src f)"
| "spaced fs t \<Longrightarrow> spaced (f # fs) (field_src f @ replicate (Suc n) CHR '' '' @ t)"

lemma strip_blanks: "strip_from None b (replicate (Suc n) CHR '' '' @ t) =
    apfst (append (replicate (Suc n) CHR '' '')) (strip_from None True t)"
proof (induction n arbitrary: b)
  case (Suc n)
  have "strip_from None b (replicate (Suc (Suc n)) CHR '' '' @ t) =
      apfst ((#) CHR '' '') (strip_from None True (replicate (Suc n) CHR '' '' @ t))"
    by (simp add: quote_char_def tab_blank_def)
  then show ?case unfolding Suc by (simp add: apfst_def map_prod_def split_beta)
qed (simp add: quote_char_def tab_blank_def apfst_def map_prod_def split_beta)

lemma strip_spaced: "spaced fs t \<Longrightarrow> list_all good_field fs \<Longrightarrow> strip_from None b t = (t, None)"
proof (induction arbitrary: b rule: spaced.induct)
  case (1 f)
  then show ?case using strip_field [of f b "[]"] by simp
next
  case (2 fs t f n)
  then have "strip_from None True t = (t, None)" by simp
  then show ?case using 2(3) strip_field [of f b] strip_blanks [of False n t] by simp
qed

text \<open>The fields of such a text.\<close>

lemma lex_word:
  assumes "good_word w" "t = [] \<or> \<not> plain_field_char (hd t)"
  shows "lex_go [] key 0 out (w @ t) = lex_go w key 0 out t"
proof -
  obtain c r where w: "w = c # r" using assms by (cases w) (auto simp: good_word_def)
  have p: "\<forall>x \<in> set w. plain_field_char x" using assms by (auto simp: good_word_def list_all_iff)
  have "takeWhile plain_field_char (r @ t) = r" "dropWhile plain_field_char (r @ t) = t"
    using p w assms(2) by (cases t; simp)+
  then show ?thesis using w p by (simp add: lex_go_plain)
qed

lemma lex_text:
  assumes "good_text x" "t = [] \<or> \<not> plain_field_char (hd t)"
  shows "lex_go [] key 0 out (x @ t) = lex_go x key 0 out t"
proof (cases "good_word x")
  case True
  then show ?thesis using assms by (intro lex_word) auto
next
  case False
  then obtain q w where x: "x = q # w @ [q]" "quote_char q" "q \<notin> set w"
    using assms(1) by (auto simp: good_text_def elim: quoted_textE)
  then show ?thesis using find_char_append [of q w t] by (simp add: lex_go_quote)
qed

lemma good_text_ne: "good_text x \<Longrightarrow> x \<noteq> []"
  by (auto simp: good_text_def good_word_def quoted_text_def)

lemma lex_field:
  assumes "good_field f" "t = [] \<or> \<not> plain_field_char (hd t)"
  shows "lex_go [] None 0 out (field_src f @ t) = lex_go (snd f) (fst f) 0 out t"
proof (cases f)
  case (Pair key x)
  show ?thesis
  proof (cases key)
    case None
    then show ?thesis using assms Pair lex_text [of x t] by (simp add: good_field_def)
  next
    case (Some k)
    have k: "good_word k" "last k \<notin> {CHR ''<'', CHR ''>'', CHR ''!'', CHR ''=''}"
    proof -
      show "good_word k" using assms Pair Some by (simp add: good_field_def)
      then have "plain_field_char (last k)" by (auto simp: good_word_def list_all_iff)
      then have "last k \<noteq> CHR ''=''" using plain_char_not by blast
      then show "last k \<notin> {CHR ''<'', CHR ''>'', CHR ''!'', CHR ''=''}"
        using assms Pair Some by (simp add: good_field_def)
    qed
    have x: "good_text x" using assms Pair Some by (simp add: good_field_def)
    have ne: "\<not> py_startswith (x @ t) ''=''"
    proof (cases x)
      case (Cons c r)
      have "c \<noteq> CHR ''=''"
        using x Cons not_quote plain_char_not [of c] by (auto simp: good_text_def good_word_def quoted_text_def)
      then show ?thesis using Cons by simp
    qed (use good_text_ne [OF x] in simp)
    have e: "lex_equals k None 0 out (x @ t) = Inr ([], Some k, out)"
      using ne k by (simp add: lex_equals_def good_word_def)
    have "lex_go [] None 0 out (k @ CHR ''='' # x @ t) = lex_go k None 0 out (CHR ''='' # x @ t)"
      using k by (intro lex_word) (auto simp: plain_field_char_def)
    also have "\<dots> = lex_go [] (Some k) 0 out (x @ t)" by (simp add: lex_go_equals e)
    also have "\<dots> = lex_go x (Some k) 0 out t" using x assms(2) by (rule lex_text)
    finally show ?thesis using Pair Some by simp
  qed
qed

lemma good_field_ne: "good_field f \<Longrightarrow> snd f \<noteq> []"
  by (auto simp: good_field_def dest: good_text_ne)

text \<open>The text begins and ends with a character that is neither a blank nor, at its end, a backslash.\<close>

definition solid :: "string \<Rightarrow> bool" where
  "solid t \<longleftrightarrow> t \<noteq> [] \<and> \<not> re_space (hd t) \<and> \<not> re_space (last t) \<and> last t \<noteq> backslash"

lemma solid_join: "solid s \<Longrightarrow> solid t \<Longrightarrow> solid (s @ u @ t)"
  by (auto simp: solid_def)

lemma good_word_solid:
  assumes "good_word w"
  shows "solid w"
proof -
  have "hd w \<in> set w" "last w \<in> set w" using assms by (auto simp: good_word_def)
  then have "plain_field_char (hd w)" "plain_field_char (last w)"
    using assms by (auto simp: good_word_def list_all_iff)
  then show ?thesis using assms by (auto simp: solid_def good_word_def plain_field_char_def)
qed

lemma good_text_solid: "good_text t \<Longrightarrow> solid t"
proof (cases "good_word t")
  case False
  assume "good_text t"
  then obtain q w where "t = q # w @ [q]" "quote_char q"
    using False by (auto simp: good_text_def elim: quoted_textE)
  then show ?thesis using quote_ne [of q] by (simp add: solid_def)
qed (rule good_word_solid)

lemma good_field_solid:
  assumes "good_field f"
  shows "solid (field_src f)"
proof (cases f)
  case (Pair key x)
  then show ?thesis
    using assms good_text_solid [of x] good_word_solid [of "the key"] solid_join [of "the key" x "''=''"]
    by (cases key) (auto simp: good_field_def)
qed

lemma spaced_solid: "spaced fs t \<Longrightarrow> list_all good_field fs \<Longrightarrow> solid t"
proof (induction rule: spaced.induct)
  case (2 fs t f n)
  then show ?case using solid_join [of "field_src f" t "replicate (Suc n) CHR '' ''"] good_field_solid [of f] by simp
qed (simp add: good_field_solid)

lemma spaced_ne: "spaced fs t \<Longrightarrow> list_all good_field fs \<Longrightarrow> t \<noteq> [] \<and> \<not> re_space (hd t)"
  using spaced_solid by (auto simp: solid_def)

lemma lex_spaced: "spaced fs t \<Longrightarrow> list_all good_field fs \<Longrightarrow> lex_go [] None 0 out t = Inr (out @ fs)"
proof (induction arbitrary: out rule: spaced.induct)
  case (1 f)
  then show ?case using lex_field [of f "[]" out] good_field_ne [of f] by (simp add: lex_go.simps)
next
  case (2 fs t f n)
  have b: "lex_blank CHR '' ''" "re_space CHR '' ''" by (simp_all add: lex_blank_def re_space_def code_in_def)
  have d: "dropWhile re_space (replicate n CHR '' '' @ t) = t"
    using spaced_ne [OF 2(1)] 2(3) b by (induction n) (cases t; simp)+
  have "lex_go [] None 0 out (field_src f @ replicate (Suc n) CHR '' '' @ t) =
      lex_go (snd f) (fst f) 0 out (replicate (Suc n) CHR '' '' @ t)"
    using 2(3) b by (intro lex_field) (auto simp: plain_field_char_def)
  also have "\<dots> = lex_go [] None 0 (out @ [f]) t"
    using b d good_field_ne [of f] 2(3) by (simp add: lex_go_blank end_field_def)
  finally show ?case using 2 by simp
qed

lemma spaced_append: "spaced fs s \<Longrightarrow> spaced gs t \<Longrightarrow> spaced (fs @ gs) (s @ replicate (Suc n) CHR '' '' @ t)"
proof (induction rule: spaced.induct)
  case (1 f)
  then show ?case using spaced.intros(2) [of gs t f n] by simp
next
  case (2 fs s f m)
  then show ?case using spaced.intros(2) [of "fs @ gs" "s @ replicate (Suc n) CHR '' '' @ t" f m] by simp
qed

section \<open>Written lines\<close>

text \<open>
  A netlist as it is written: the first line of a statement, a line that continues it, and the lines in
  between that say nothing.
\<close>

datatype out_line = Start "field list" | More "field list" | Filler string

definition fields_text :: "field list \<Rightarrow> string" where
  "fields_text fs = py_join '' '' (map field_src fs)"

fun write_line :: "out_line \<Rightarrow> string" where
  "write_line (Start fs) = fields_text fs"
| "write_line (More fs) = ''+ '' @ fields_text fs"
| "write_line (Filler t) = t"

definition is_filler :: "string \<Rightarrow> bool" where
  "is_filler t \<longleftrightarrow> py_lstrip t = [] \<or> hd (py_lstrip t) = CHR ''*''"

fun good_line :: "out_line \<Rightarrow> bool" where
  "good_line (Start fs) \<longleftrightarrow> fs \<noteq> [] \<and> list_all good_field fs \<and> hd (fields_text fs) \<notin> {CHR ''*'', CHR ''+''}"
| "good_line (More fs) \<longleftrightarrow> fs \<noteq> [] \<and> list_all good_field fs"
| "good_line (Filler t) \<longleftrightarrow> is_filler t"

fun group_line :: "(field list \<times> string) list \<Rightarrow> out_line \<times> string \<Rightarrow> (field list \<times> string) list" where
  "group_line acc (Start fs, orig) = acc @ [(fs, orig)]"
| "group_line acc (More fs, orig) = butlast acc @ [(fst (last acc) @ fs, snd (last acc))]"
| "group_line acc (Filler t, orig) = acc"

definition statements :: "(out_line \<times> string) list \<Rightarrow> (field list \<times> string) list" where
  "statements ls = foldl group_line [] ls"

fun starts :: "(out_line \<times> string) list \<Rightarrow> bool" where
  "starts [] = True"
| "starts ((Start fs, orig) # ls) = True"
| "starts ((More fs, orig) # ls) = False"
| "starts ((Filler t, orig) # ls) = starts ls"

lemma spaced_text: "fs \<noteq> [] \<Longrightarrow> spaced fs (fields_text fs)"
proof (induction fs)
  case (Cons f fs)
  show ?case
  proof (cases fs)
    case Nil
    then show ?thesis using spaced.intros(1) [of f] by (simp add: fields_text_def)
  next
    case (Cons g gs)
    with Cons.IH have "spaced fs (fields_text fs)" by simp
    from spaced.intros(2) [OF this, of f 0] show ?thesis using Cons by (simp add: fields_text_def)
  qed
qed simp

lemma solid_ends:
  assumes "solid t"
  shows "py_lstrip t = t" "py_rstrip t = t" "py_strip t = t" "rstrip_crlf t = t" "\<not> py_endswith t [backslash]"
proof -
  obtain u c where u: "t = u @ [c]" "\<not> re_space c" "c \<noteq> backslash"
    using assms by (cases t rule: rev_cases) (auto simp: solid_def)
  obtain d v where v: "t = d # v" "\<not> re_space d" using assms by (cases t) (auto simp: solid_def)
  show l: "py_lstrip t = t" using v by (simp add: py_lstrip_def)
  show r: "py_rstrip t = t" using u by (simp add: py_rstrip_def)
  show "py_strip t = t" using l r by (simp add: py_strip_def py_lstrip_def py_rstrip_def)
  show "rstrip_crlf t = t"
    using u by (intro rstrip_crlf_plain) (auto simp: re_space_def code_in_def)
  show "\<not> py_endswith t [backslash]" using u by (simp add: py_endswith_def)
qed

lemma join_back_solid: "solid t \<Longrightarrow> join_back sp q orig t rest = (t, rest, [])"
  by (cases rest) (auto simp: solid_ends Let_def)

lemma strip_comment_spaced:
  assumes "spaced fs t" "list_all good_field fs"
  shows "strip_comment t None = (t, None)" "strip_comment (CHR '' '' # t) None = (CHR '' '' # t, None)"
proof -
  have f: "strip_from None b t = (t, None)" for b using assms by (rule strip_spaced)
  then show "strip_comment t None = (t, None)" by (simp add: strip_comment_def)
  have "strip_from None True (CHR '' '' # t) = (CHR '' '' # t, None)"
    using f by (simp add: quote_char_def tab_blank_def)
  then show "strip_comment (CHR '' '' # t) None = (CHR '' '' # t, None)" by (simp add: strip_comment_def)
qed

text \<open>Lines between the statements change nothing.\<close>

lemma filler_cases:
  assumes "is_filler t"
  obtains "list_all re_space t" | u v where "t = u @ CHR ''*'' # v" "list_all re_space u"
proof (cases "py_lstrip t = []")
  case True
  then have "list_all re_space t" by (simp add: py_lstrip_def list_all_iff)
  then show thesis by (rule that(1))
next
  case False
  then have "py_lstrip t = CHR ''*'' # tl (py_lstrip t)" using assms by (metis is_filler_def list.collapse)
  then have "t = takeWhile re_space t @ CHR ''*'' # tl (py_lstrip t)"
    by (metis py_lstrip_def takeWhile_dropWhile_id)
  moreover have "list_all re_space (takeWhile re_space t)" by (auto simp: list_all_iff dest: set_takeWhileD)
  ultimately show thesis by (rule that(2))
qed

lemma rev_drop_star:
  assumes "\<not> P CHR ''*''"
  shows "rev (dropWhile P (rev (u @ CHR ''*'' # v))) = u @ CHR ''*'' # rev (dropWhile P (rev v))"
proof (cases "\<forall>c \<in> set v. P c")
  case True
  then have "dropWhile P (rev v @ CHR ''*'' # rev u) = CHR ''*'' # rev u" using assms by (subst dropWhile_append2) auto
  moreover have "dropWhile P (rev v) = []" using True by simp
  ultimately show ?thesis by simp
next
  case False
  then obtain x where "x \<in> set (rev v)" "\<not> P x" by auto
  then show ?thesis by (simp add: dropWhile_append1)
qed

lemma rev_drop_spaces: "list_all re_space t \<Longrightarrow> list_all re_space (rev (dropWhile P (rev t)))"
  by (auto simp: list_all_iff dest: set_dropWhileD)

lemma star_not_space: "\<not> re_space CHR ''*''"
  by (simp add: re_space_def code_in_def)

lemma filler_line:
  assumes "is_filler t"
  shows "join_back sp q orig (rstrip_crlf t) rest = (rstrip_crlf t, rest, [])" (is ?J)
    and "is_filler (rstrip_crlf t)" (is ?F)
proof -
  have star: "py_lstrip (u @ CHR ''*'' # v) = CHR ''*'' # v" if "list_all re_space u" for u v
    using that star_not_space by (simp add: py_lstrip_def dropWhile_append2 list_all_iff)
  have "?J \<and> ?F"
    using assms
  proof (cases rule: filler_cases)
    case 1
    then have b: "list_all re_space (rstrip_crlf t)" unfolding rstrip_crlf_def by (rule rev_drop_spaces)
    then have "py_rstrip (rstrip_crlf t) = []" "py_lstrip (rstrip_crlf t) = []"
      by (auto simp: py_rstrip_def py_lstrip_def list_all_iff)
    then show ?thesis by (cases rest) (auto simp: is_filler_def py_endswith_def)
  next
    case (2 u v)
    define w where "w = rev (dropWhile (\<lambda>c. c = CHR 0x0D \<or> c = CHR ''\<newline>'') (rev v))"
    have r: "rstrip_crlf t = u @ CHR ''*'' # w"
      unfolding rstrip_crlf_def 2(1) w_def by (rule rev_drop_star) simp
    have "py_rstrip (rstrip_crlf t) = u @ CHR ''*'' # py_rstrip w"
      unfolding py_rstrip_def r using star_not_space by (rule rev_drop_star)
    then show ?thesis using r star [OF 2(2)] by (cases rest) (auto simp: is_filler_def Let_def)
  qed
  then show ?J ?F by blast+
qed

text \<open>The state of the loop stands for the statements so far.\<close>

definition stands :: "sp_stmt \<Rightarrow> field list \<times> string \<Rightarrow> bool" where
  "stands s g \<longleftrightarrow> list_all good_field (fst g) \<and> (\<exists>t. spaced (fst g) t \<and> s = mk_stmt t (snd g))"

definition holds :: "lines_state \<Rightarrow> (field list \<times> string) list \<Rightarrow> bool" where
  "holds st acc \<longleftrightarrow> ls_notes st = [] \<and> ls_quote st = None \<and>
     (case rev acc of
        [] \<Rightarrow> ls_parts st = None \<and> ls_stmts st = []
      | g # r \<Rightarrow> ls_first st = snd g \<and> list_all good_field (fst g) \<and> list_all2 stands (ls_stmts st) (rev r) \<and>
          (\<exists>ps. ls_parts st = Some ps \<and> ps \<noteq> [] \<and> spaced (fst g) (py_join '' '' ps)))"

lemma holds_init: "holds lines_init []"
  by (simp add: holds_def lines_init_def)

lemma flush_holds: "holds st acc \<Longrightarrow> list_all2 stands (ls_stmts (flush_parts st)) acc \<and> ls_notes (flush_parts st) = []"
proof (cases acc rule: rev_cases)
  case (snoc r g)
  assume h: "holds st acc"
  then obtain ps where "ls_parts st = Some ps" "spaced (fst g) (py_join '' '' ps)" "list_all good_field (fst g)"
      "ls_first st = snd g" "list_all2 stands (ls_stmts st) r" "ls_notes st = []"
    using snoc by (auto simp: holds_def)
  then show ?thesis using snoc by (auto simp: flush_parts_def stands_def intro!: list_all2_appendI)
qed (simp add: holds_def flush_parts_def)

lemma parts_snoc: "ps \<noteq> [] \<Longrightarrow> py_join sep (ps @ [x]) = py_join sep ps @ sep @ x"
  by (cases ps) (simp_all add: py_join_def)

lemma start_step:
  assumes "good_line (Start fs)" "holds st acc"
  shows "\<exists>st'. logical_line False orig (fields_text fs) st = Inr st' \<and> holds st' (acc @ [(fs, orig)])"
proof -
  let ?t = "fields_text fs"
  have g: "fs \<noteq> []" "list_all good_field fs" "hd ?t \<noteq> CHR ''*''" "hd ?t \<noteq> CHR ''+''" using assms(1) by auto
  have sp: "spaced fs ?t" using g(1) by (rule spaced_text)
  have so: "solid ?t" using sp g(2) by (rule spaced_solid)
  let ?st = "(flush_parts st)\<lparr>ls_parts := Some [?t], ls_first := orig, ls_quote := None\<rparr>"
  have "logical_line False orig ?t st = Inr ?st"
    using so g strip_comment_spaced [OF sp g(2)]
    by (simp add: logical_line_def solid_ends start_line_hspice solid_def [of ?t])
  moreover have "holds ?st (acc @ [(fs, orig)])"
    using flush_holds [OF assms(2)] sp g by (auto simp: holds_def)
  ultimately show ?thesis by blast
qed

lemma more_step:
  assumes "good_line (More fs)" "holds st acc" "acc \<noteq> []"
  shows "\<exists>st'. logical_line False orig (''+ '' @ fields_text fs) st = Inr st' \<and>
               holds st' (butlast acc @ [(fst (last acc) @ fs, snd (last acc))])"
proof -
  let ?t = "fields_text fs"
  have g: "fs \<noteq> []" "list_all good_field fs" using assms(1) by auto
  have sp: "spaced fs ?t" using g(1) by (rule spaced_text)
  obtain r h where acc: "acc = r @ [h]" using assms(3) by (cases acc rule: rev_cases) auto
  obtain ps where h: "ls_notes st = []" "ls_quote st = None" "ls_first st = snd h" "list_all good_field (fst h)"
      "list_all2 stands (ls_stmts st) r" "ls_parts st = Some ps" "ps \<noteq> []" "spaced (fst h) (py_join '' '' ps)"
    using assms(2) acc by (auto simp: holds_def)
  let ?st = "st\<lparr>ls_quote := None, ls_parts := Some (ps @ [CHR '' '' # ?t])\<rparr>"
  have l: "py_lstrip (CHR ''+'' # x) = CHR ''+'' # x" for x
    by (simp add: py_lstrip_def re_space_def code_in_def)
  have "logical_line False orig (''+ '' @ ?t) st = Inr ?st"
    using strip_comment_spaced(2) [OF sp g(2)] h by (simp add: logical_line_def l continue_line_def)
  moreover have "spaced (fst h @ fs) (py_join '' '' ps @ '' '' @ '' '' @ ?t)"
    using spaced_append [OF h(8) sp, of 1] by simp
  then have "spaced (fst h @ fs) (py_join '' '' (ps @ [CHR '' '' # ?t]))" using h(7) by (simp add: parts_snoc)
  then have "holds ?st (r @ [(fst h @ fs, snd h)])" using h g by (auto simp: holds_def)
  ultimately show ?thesis using acc by auto
qed

lemma line_step:
  assumes "good_line l" "holds st acc" "acc = [] \<Longrightarrow> starts ((l, orig) # ls)"
  shows "\<exists>x st'. join_back False None orig (rstrip_crlf (write_line l)) rest = (x, rest, []) \<and>
     logical_line False orig x st = Inr st' \<and> holds st' (group_line acc (l, orig))"
proof (cases l)
  case (Start fs)
  then have so: "solid (fields_text fs)" using assms(1) spaced_solid [OF spaced_text] by auto
  obtain st' where "logical_line False orig (fields_text fs) st = Inr st'" "holds st' (acc @ [(fs, orig)])"
    using start_step [of fs st acc orig] assms Start by blast
  then show ?thesis using Start so by (simp add: solid_ends join_back_solid)
next
  case (More fs)
  then have "acc \<noteq> []" using assms(3) by auto
  have so: "solid (''+ '' @ fields_text fs)"
    using assms(1) More spaced_solid [OF spaced_text, of fs]
    by (auto simp: solid_def re_space_def code_in_def)
  obtain st' where "logical_line False orig (''+ '' @ fields_text fs) st = Inr st'"
      "holds st' (butlast acc @ [(fst (last acc) @ fs, snd (last acc))])"
    using more_step [of fs st acc orig] assms More \<open>acc \<noteq> []\<close> by blast
  then show ?thesis using More so join_back_solid [OF so] by (simp add: solid_ends)
next
  case (Filler t)
  then have f: "is_filler t" using assms(1) by simp
  have "logical_line False orig (rstrip_crlf t) st = Inr st"
    using filler_line(2) [OF f] by (auto simp: logical_line_def is_filler_def comment_line_def Let_def)
  then show ?thesis using Filler filler_line(1) [OF f] assms(2) by simp
qed

lemma starts_after: "starts ((l, orig) # ls) \<Longrightarrow> group_line [] (l, orig) = [] \<Longrightarrow> starts ls"
  by (cases l) auto

lemma lines_read:
  assumes "list_all (good_line \<circ> fst) ls" "holds st acc" "acc = [] \<Longrightarrow> starts ls"
  shows "\<exists>st'. logical_loop False (map (apfst write_line) ls) st = Inr st' \<and> holds st' (foldl group_line acc ls)"
  using assms
proof (induction ls arbitrary: st acc)
  case Nil
  then show ?case by (simp add: logical_loop.simps)
next
  case (Cons p ls)
  obtain l orig where p: "p = (l, orig)" by (cases p)
  let ?rest = "map (apfst write_line) ls"
  obtain x st1 where s: "join_back False None orig (rstrip_crlf (write_line l)) ?rest = (x, ?rest, [])"
      "logical_line False orig x st = Inr st1" "holds st1 (group_line acc (l, orig))"
    using line_step [of l st acc orig ls ?rest] Cons.prems p by auto
  have q: "ls_quote st = None" using Cons.prems(2) by (simp add: holds_def)
  have "starts ls" if e: "group_line acc (l, orig) = []"
  proof -
    have "acc = []" using e by (cases l) auto
    then show ?thesis using Cons.prems(3) p e starts_after by auto
  qed
  then obtain st' where "logical_loop False ?rest st1 = Inr st'" "holds st' (foldl group_line (group_line acc p) ls)"
    using Cons.IH [OF _ s(3)] Cons.prems(1) p by auto
  then show ?case using s p q by (simp add: logical_loop.simps)
qed

lemma stands_read:
  assumes "stands s g"
  shows "st_text s \<noteq> []" "lex_fields (st_text s) = Inr (fst g)" "st_origin s = snd g"
proof -
  obtain t where t: "spaced (fst g) t" "list_all good_field (fst g)" "s = mk_stmt t (snd g)"
    using assms by (auto simp: stands_def)
  have so: "solid t" using t by (auto intro: spaced_solid)
  then have x: "st_text s = t" using t by (simp add: mk_stmt_def solid_ends)
  then show "st_text s \<noteq> []" using so by (simp add: solid_def)
  show "lex_fields (st_text s) = Inr (fst g)" using x lex_spaced [OF t(1, 2), of "[]"] by (simp add: lex_fields_def)
  show "st_origin s = snd g" using t by (simp add: mk_stmt_def)
qed

lemma written_lines_read:
  assumes "list_all (good_line \<circ> fst) ls" "starts ls"
  shows "\<exists>ss. logical False (map (apfst write_line) ls) = Inr (ss, []) \<and> list_all2 stands ss (statements ls)"
proof -
  obtain st where s: "logical_loop False (map (apfst write_line) ls) lines_init = Inr st" "holds st (statements ls)"
    using lines_read [OF assms(1) holds_init] assms(2) by (auto simp: statements_def)
  let ?ss = "ls_stmts (flush_parts st)"
  have h: "list_all2 stands ?ss (statements ls)" using flush_holds [OF s(2)] by simp
  have "filter (\<lambda>s. st_text s \<noteq> []) ?ss = ?ss"
    using h by (induction rule: list_all2_induct) (simp_all add: stands_read(1))
  then show ?thesis using s h by (auto simp: logical_def holds_def)
qed

section \<open>The shortcut for lines without comments\<close>

lemma strip_plain_line:
  "list_all (\<lambda>c. c \<noteq> CHR ''$'' \<and> c \<noteq> CHR '';'' \<and> c \<noteq> CHR ''/'' \<and> \<not> quote_char c) s \<Longrightarrow>
   strip_from None b s = (s, None)"
  by (induction s arbitrary: b) auto

lemma strip_comment_eq: "strip_comment s q = strip_from q True s"
  by (simp add: strip_comment_def strip_plain_line)

lemma strip_from_prefix: "strip_from q b s = (t, q') \<Longrightarrow> \<exists>r. s = t @ r"
proof (induction q b s arbitrary: t q' rule: strip_from.induct)
  case (2 q b c s)
  have "t = [] \<or> (\<exists>q0 b0 t0. strip_from q0 b0 s = (t0, q') \<and> t = c # t0 \<and> (\<exists>r. s = t0 @ r))"
    using 2 by (cases q) (auto simp: apfst_def map_prod_def split: if_splits prod.splits)
  then show ?case by auto
qed simp

section \<open>Sections\<close>

text \<open>
  The intervals of a file: each starts at a \<open>.lib\<close> statement and ends at an \<open>.endl\<close> or at the end of the
  file, they do not overlap, and the sections by name are among them.
\<close>

definition interval_ok :: "sp_stmt list \<Rightarrow> nat \<times> nat \<Rightarrow> bool" where
  "interval_ok ss = (\<lambda>(i, j). i < j \<and> j \<le> length ss \<and> st_kw (ss ! i) = ''.lib'' \<and>
     (j < length ss \<longrightarrow> st_kw (ss ! j) = ''.endl'') \<and> (\<forall>k. i < k \<and> k < j \<longrightarrow> st_kw (ss ! k) \<noteq> ''.endl''))"

definition index_ok :: "sp_file \<Rightarrow> nat \<Rightarrow> bool" where
  "index_ok f n \<longleftrightarrow> (\<forall>iv \<in> set (fl_skip f). interval_ok (fl_stmts f) iv \<and> snd iv < n) \<and>
     sorted_wrt (\<lambda>a b. snd a < fst b) (fl_skip f) \<and>
     (\<forall>(name, first, end, orig) \<in> set (fl_sections f). 0 < first \<and> (first - 1, end) \<in> set (fl_skip f)) \<and>
     distinct (map fst (fl_sections f))"

lemma dict_set_new: "k \<notin> fst ` set d \<Longrightarrow> dict_set k v d = d @ [(k, v)]"
  by (induction d) auto

text \<open>A section that is open: its \<open>.lib\<close> comes after every interval, and no \<open>.endl\<close> since.\<close>

definition open_ok :: "sp_file \<Rightarrow> nat \<Rightarrow> opened \<Rightarrow> bool" where
  "open_ok f n op = (case op of
     None \<Rightarrow> True
   | Some (name, i, orig) \<Rightarrow> i < n \<and> st_kw (fl_stmts f ! i) = ''.lib'' \<and> (\<forall>iv \<in> set (fl_skip f). snd iv < i) \<and>
       (\<forall>k. i < k \<and> k < n \<longrightarrow> st_kw (fl_stmts f ! k) \<noteq> ''.endl''))"

lemma close_section_ok:
  assumes "index_ok f n" "open_ok f n (Some (name, i, orig))" "n \<le> length (fl_stmts f)"
    "n < length (fl_stmts f) \<longrightarrow> st_kw (fl_stmts f ! n) = ''.endl''"
  shows "index_ok (close_section (name, i, orig) n f) (Suc n)" "fl_stmts (close_section (name, i, orig) n f) = fl_stmts f"
proof -
  have new: "i \<notin> fst ` set (fl_skip f)"
  proof
    assume "i \<in> fst ` set (fl_skip f)"
    then obtain j where "(i, j) \<in> set (fl_skip f)" by auto
    moreover have "i < j" using assms(1) calculation by (auto simp: index_ok_def interval_ok_def)
    ultimately show False using assms(2) by (auto simp: open_ok_def)
  qed
  have iv: "interval_ok (fl_stmts f) (i, n)" using assms by (auto simp: interval_ok_def open_ok_def)
  let ?skip = "fl_skip f @ [(i, n)]"
  have sk: "dict_set i n (fl_skip f) = ?skip" using new by (rule dict_set_new)
  have base: "(\<forall>v \<in> set ?skip. interval_ok (fl_stmts f) v \<and> snd v < Suc n) \<and> sorted_wrt (\<lambda>a b. snd a < fst b) ?skip"
    using assms iv by (auto simp: index_ok_def open_ok_def sorted_wrt_append)
  have cs: "close_section (name, i, orig) n f =
      (case map_of (fl_sections f) name of
        Some (_, _, o') \<Rightarrow> f\<lparr>fl_skip := ?skip, fl_notes := fl_notes f @
          [mk_note orig (''section '' @ name @ '' is defined again (first at '' @ o' @ ''); the first definition is used'')]\<rparr>
      | None \<Rightarrow> f\<lparr>fl_skip := ?skip, fl_sections := dict_set name (Suc i, n, orig) (fl_sections f)\<rparr>)"
    by (simp add: close_section_def sk split: option.splits)
  show "fl_stmts (close_section (name, i, orig) n f) = fl_stmts f"
    by (cases "map_of (fl_sections f) name") (auto simp: cs)
  show "index_ok (close_section (name, i, orig) n f) (Suc n)"
  proof (cases "map_of (fl_sections f) name")
    case None
    then have "name \<notin> fst ` set (fl_sections f)" by (simp add: map_of_eq_None_iff)
    from dict_set_new [OF this] this None base assms(1) show ?thesis by (auto simp: cs index_ok_def)
  next
    case (Some x)
    then show ?thesis using base assms(1) by (cases x) (auto simp: cs index_ok_def)
  qed
qed

lemma index_step:
  assumes "index_ok f n" "open_ok f n op" "n < length (fl_stmts f)"
    and "index_stmt (n, fl_stmts f ! n) (op, f) = (op', f')"
  shows "index_ok f' (Suc n) \<and> open_ok f' (Suc n) op' \<and> fl_stmts f' = fl_stmts f"
proof -
  have mono: "index_ok f (Suc n)" using assms(1) by (auto simp: index_ok_def)
  have lt: "\<And>iv. iv \<in> set (fl_skip f) \<Longrightarrow> snd iv < n" using assms(1) by (auto simp: index_ok_def)
  have keep: "open_ok f (Suc n) op" if "st_kw (fl_stmts f ! n) \<noteq> ''.endl''"
    using assms(2) that by (auto simp: open_ok_def less_Suc_eq split: option.splits)
  show ?thesis
  proof (cases "st_kw (fl_stmts f ! n) = ''.lib''")
    case True
    then have "f' = f" "op' = op \<or> (\<exists>name orig. op' = Some (name, n, orig))"
      using assms(4) by (auto simp: index_stmt_def split: sum.splits if_splits)
    then show ?thesis using mono keep True lt by (auto simp: open_ok_def)
  next
    case l: False
    show ?thesis
    proof (cases "st_kw (fl_stmts f ! n) = ''.endl'' \<and> op \<noteq> None")
      case True
      then obtain name i orig where op: "op = Some (name, i, orig)" by (metis prod_cases3 not_None_eq)
      then have "op' = None" "f' = close_section (name, i, orig) n f"
        using assms(4) l True by (auto simp: index_stmt_def)
      then show ?thesis
        using close_section_ok [of f n name i orig] assms True op by (auto simp: open_ok_def)
    next
      case False
      then have "op' = op" "f' = f" using assms(4) l by (auto simp: index_stmt_def split: if_splits option.splits)
      then show ?thesis using mono keep False by (cases op) (auto simp: open_ok_def)
    qed
  qed
qed

lemma index_fold:
  assumes "index_ok f n" "open_ok f n op" "fl_stmts f = pre @ ss" "length pre = n"
  shows "\<exists>op' f'. fold index_stmt (enumerate n ss) (op, f) = (op', f') \<and> index_ok f' (n + length ss) \<and>
           open_ok f' (n + length ss) op' \<and> fl_stmts f' = fl_stmts f"
  using assms
proof (induction ss arbitrary: n f op pre)
  case (Cons s ss)
  obtain op1 f1 where s: "index_stmt (n, s) (op, f) = (op1, f1)" by (cases "index_stmt (n, s) (op, f)")
  have at: "fl_stmts f ! n = s" "n < length (fl_stmts f)" using Cons.prems by auto
  have "index_ok f1 (Suc n) \<and> open_ok f1 (Suc n) op1 \<and> fl_stmts f1 = fl_stmts f"
    using index_step [OF Cons.prems(1, 2) at(2)] s at by simp
  then show ?case using Cons.IH [of f1 "Suc n" op1 "pre @ [s]"] Cons.prems s by simp
qed simp

theorem file_index:
  "index_ok (mk_file path stmts) (Suc (length stmts)) \<and> fl_stmts (mk_file path stmts) = stmts"
proof -
  let ?f = "\<lparr>fl_path = path, fl_stmts = stmts, fl_sections = [], fl_skip = [], fl_notes = []\<rparr>"
  obtain op f where f: "fold index_stmt (enumerate 0 stmts) (None, ?f) = (op, f)"
      "index_ok f (length stmts)" "open_ok f (length stmts) op" "fl_stmts f = stmts"
    using index_fold [of ?f 0 None "[]" stmts] by (auto simp: index_ok_def open_ok_def)
  show ?thesis
  proof (cases op)
    case None
    then show ?thesis using f by (auto simp: mk_file_def index_ok_def)
  next
    case (Some o')
    obtain name i orig where o': "o' = (name, i, orig)" by (cases o')
    let ?g = "f\<lparr>fl_notes := fl_notes f @ [error orig (''.lib '' @ name @ '' has no .endl'')]\<rparr>"
    have "index_ok ?g (length stmts)" "open_ok ?g (length stmts) (Some (name, i, orig))"
      using f Some o' by (simp_all add: index_ok_def open_ok_def)
    then show ?thesis using close_section_ok [of ?g "length stmts" name i orig] f Some o'
      by (simp add: mk_file_def)
  qed
qed

end
