(* ===== verification/SpiceReadProps.thy ===== *)
theory SpiceReadProps
  imports SpiceRead SpiceLexProps
begin

text \<open>
  Pass 1: the scopes form a tree whatever is read, reading returns where the guard against repeated
  files is enough, and a file that includes itself in a subcircuit is where it is not.
\<close>

section \<open>What operations leave alone\<close>

text \<open>The part of the state that decides what is read: the scopes, the files and what was expanded.\<close>

definition core where
  "core ss = (ss_scopes ss, ss_scope ss, ss_files ss, ss_expanded ss)"

named_theorems core_simps \<open>operations that leave the core alone\<close>

lemma update_core [core_simps]:
  "core (ss_controls_update g ss) = core ss" "core (ss_title_update h ss) = core ss"
  by (simp_all add: core_def)

lemma ss_note_core [core_simps]: "core (ss_note d ss) = core ss"
  by (simp add: core_def ss_note_def)

lemma spell_core [core_simps]: "core (spell n orig d ss) = core ss"
  by (simp add: core_def spell_def)

lemma check_title_core [core_simps]: "core (check_title path ss) = core ss"
  by (simp add: check_title_def core_simps)

lemma resolve_core: "resolve_ref cf txt base orig what ss = (r, ss') \<Longrightarrow> core ss' = core ss"
  by (auto simp: resolve_ref_def Let_def core_simps split: list.splits if_splits)

lemma option_field_core: "core (option_field cf orig base fld ss) = core ss"
  by (cases fld) (auto simp: option_field_def add_search_def Let_def ss_note_def core_def split: option.splits)

lemma global_field_core: "core (global_field orig fld ss) = core ss"
  by (cases fld) (auto simp: global_field_def ss_note_def core_def split: option.splits)

lemma add_module_core: "core (add_module m ss) = core ss"
  by (cases m) (simp add: add_module_def core_def)

lemma fold_core: "(\<And>x ss. core (f x ss) = core ss) \<Longrightarrow> core (fold f xs ss) = core ss"
  by (induction xs arbitrary: ss) simp_all

lemma load_modules_core [core_simps]: "core (load_modules cf orig path ss) = core ss"
  by (auto simp: load_modules_def Let_def core_simps fold_core add_module_core split: prod.splits)
    (simp_all add: core_def)

lemma hdl_args_core [core_simps]: "core (hdl_args cf orig base args ss) = core ss"
  by (auto simp: hdl_args_def Let_def core_simps resolve_core split: list.splits prod.splits option.splits
      dest: resolve_core)

text \<open>The state that an outcome carries.\<close>

fun outcome_state :: "outcome \<Rightarrow> sp_state option" where
  "outcome_state (Go ss) = Some ss"
| "outcome_state (Enter f sec ss) = Some ss"
| "outcome_state (Crash e) = None"

text \<open>An outcome that reads no file and leaves the core.\<close>

fun silent :: "sp_state \<Rightarrow> outcome \<Rightarrow> bool" where
  "silent ss (Go ss') \<longleftrightarrow> core ss' = core ss"
| "silent ss (Enter f sec ss') \<longleftrightarrow> False"
| "silent ss (Crash e) \<longleftrightarrow> True"

lemma fields_silent: "(\<And>fs. core (k fs) = core ss) \<Longrightarrow> silent ss (with_fields st label k ss)"
  by (auto simp: with_fields_def core_simps split: sum.splits field_err.splits)

lemma option_silent: "silent ss (d_option cf st base ss)"
  unfolding d_option_def by (intro fields_silent fold_core option_field_core)

lemma global_silent: "silent ss (d_global st ss)"
  unfolding d_global_def by (intro fields_silent fold_core global_field_core)

lemma hdl_silent: "silent ss (d_hdl cf st base ss)"
  by (auto simp: d_hdl_def with_args_def core_simps split: sum.splits field_err.splits)

lemma sp_control_core [core_simps]: "core (sp_control st ss) = core ss"
  by (simp add: sp_control_def Let_def core_simps)

section \<open>Files that are read\<close>

definition fresh_file :: "sp_conf \<Rightarrow> string \<Rightarrow> bool \<Rightarrow> sp_file" where
  "fresh_file cf path title =
     mk_file path (case os_open (cf_os cf) path of Inl _ \<Rightarrow> [] | Inr s \<Rightarrow> fst (text_stmts path title s))"

definition file_key :: "string \<Rightarrow> bool \<Rightarrow> string" where
  "file_key path title = path @ (if title then CHR 0x00 # ''title'' else [])"

lemma load_fileE:
  assumes "load_file cf path title ss = (f, ss')"
  obtains "f = fresh_file cf path title \<or> ss_files ss (file_key path title) = Some f"
    "ss_scopes ss' = ss_scopes ss" "ss_scope ss' = ss_scope ss" "ss_expanded ss' = ss_expanded ss"
    "ss_files ss' = (ss_files ss)(file_key path title \<mapsto> f)"
proof (cases "ss_files ss (file_key path title)")
  case (Some g)
  then show thesis using assms by (intro that) (auto simp: load_file_def file_key_def Let_def)
next
  case None
  have c: "ss_scopes (check_title path s) = ss_scopes s \<and> ss_scope (check_title path s) = ss_scope s \<and>
      ss_expanded (check_title path s) = ss_expanded s" for s
    using check_title_core [of path s] by (simp add: core_def)
  show thesis
  proof (cases "os_open (cf_os cf) path")
    case (Inl why)
    then show ?thesis using assms None
      by (intro that) (auto simp: load_file_def file_key_def Let_def fresh_file_def ss_note_def)
  next
    case (Inr s)
    then show ?thesis using assms None c
      by (intro that) (auto simp: load_file_def file_key_def Let_def fresh_file_def split_beta)
  qed
qed

text \<open>
  A file statement leaves the core, or it takes a key that was not taken, and then the file of the key is
  read, or it has no such section.
\<close>

definition takes_key :: "sp_conf \<Rightarrow> sp_file \<Rightarrow> sp_state \<Rightarrow> outcome \<Rightarrow> bool" where
  "takes_key cf f ss oc \<longleftrightarrow>
     (\<exists>path sec g ss1 ss2 orig.
        ss_expanded ss (os_realpath (cf_os cf) path, sec, ss_scope ss) = None \<and>
        ss_scopes ss1 = ss_scopes ss \<and> ss_scope ss1 = ss_scope ss \<and> ss_files ss1 = ss_files ss \<and>
        ss_expanded ss1 = (ss_expanded ss)((os_realpath (cf_os cf) path, sec, ss_scope ss) \<mapsto> orig) \<and>
        ((\<exists>p. os_isfile (cf_os cf) p \<and> path = abspath (cf_os cf) p) \<and> load_file cf path False ss1 = (g, ss2) \<or>
         path = fl_path f \<and> sec \<noteq> None \<and> g = f \<and> ss2 = ss1) \<and>
        (if sec = None \<or> the sec \<in> fst ` set (fl_sections g) then oc = Enter g sec ss2
         else \<exists>ss'. oc = Go ss' \<and> core ss' = core ss2))"

lemma resolve_isfile:
  assumes "resolve_ref cf txt base orig what ss = (Some path, ss')"
  shows "\<exists>p. os_isfile (cf_os cf) p \<and> path = abspath (cf_os cf) p"
proof (cases "filter (os_isfile (cf_os cf)) (candidates cf (ss_search ss) txt base)")
  case Nil
  then show ?thesis using assms by (simp add: resolve_ref_def Let_def)
next
  case (Cons u us)
  then have "u \<in> set (filter (os_isfile (cf_os cf)) (candidates cf (ss_search ss) txt base))" by simp
  moreover have "path = abspath (cf_os cf) u" using assms Cons by (simp add: resolve_ref_def Let_def)
  ultimately show ?thesis by auto
qed

lemma expand_cases: "silent ss (expand_file cf st name sec base ss) \<or> takes_key cf f ss (expand_file cf st name sec base ss)"
proof -
  let ?what = "if sec \<noteq> None \<and> sec \<noteq> Some [] then ''.lib file'' else ''include file''"
  obtain found ss1 where r: "resolve_ref cf name base (st_origin st) ?what ss = (found, ss1)"
    by (cases "resolve_ref cf name base (st_origin st) ?what ss")
  have c: "core ss1 = core ss" using r by (rule resolve_core)
  show ?thesis
  proof (cases found)
    case None
    then show ?thesis using c r by (simp add: expand_file_def Let_def)
  next
    case (Some path)
    obtain p where p: "os_isfile (cf_os cf) p" "path = abspath (cf_os cf) p"
      using resolve_isfile r Some by blast
    let ?key = "(os_realpath (cf_os cf) path, sec, ss_scope ss1)"
    show ?thesis
    proof (cases "ss_expanded ss1 ?key")
      case e: (Some o')
      then show ?thesis using c r Some by (simp add: expand_file_def Let_def core_simps)
    next
      case e: None
      let ?ss = "ss1\<lparr>ss_expanded := (ss_expanded ss1)(?key \<mapsto> st_origin st)\<rparr>"
      obtain g ss2 where l: "load_file cf path False ?ss = (g, ss2)" by (cases "load_file cf path False ?ss")
      have k: "ss_scopes ?ss = ss_scopes ss" "ss_scope ?ss = ss_scope ss" "ss_files ?ss = ss_files ss"
          "ss_expanded ?ss = (ss_expanded ss)((os_realpath (cf_os cf) path, sec, ss_scope ss) \<mapsto> st_origin st)"
          "ss_expanded ss (os_realpath (cf_os cf) path, sec, ss_scope ss) = None"
        using c e by (simp_all add: core_def)
      let ?oc = "expand_file cf st name sec base ss"
      have "if sec = None \<or> the sec \<in> fst ` set (fl_sections g) then ?oc = Enter g sec ss2
            else \<exists>ss'. ?oc = Go ss' \<and> core ss' = core ss2"
        using r Some e l by (cases sec) (auto simp: expand_file_def Let_def core_simps)
      then have "takes_key cf f ss ?oc" unfolding takes_key_def using k p l by blast
      then show ?thesis ..
    qed
  qed
qed

lemma args_cases:
  "(\<And>args. silent ss (k args) \<or> takes_key cf f ss (k args)) \<Longrightarrow>
   silent ss (with_args st n label k ss) \<or> takes_key cf f ss (with_args st n label k ss)"
  by (auto simp: with_args_def core_simps split: sum.splits field_err.splits)

lemma include_cases: "silent ss (d_include cf st base ss) \<or> takes_key cf f ss (d_include cf st base ss)"
  unfolding d_include_def by (rule args_cases) (simp add: expand_cases core_simps)

lemma own_section_cases:
  "silent ss (own_section cf orig f a ss) \<or> takes_key cf f ss (own_section cf orig f a ss)"
proof -
  let ?s = "py_lower a"
  let ?key = "(os_realpath (cf_os cf) (fl_path f), Some ?s, ss_scope ss)"
  let ?ss = "ss\<lparr>ss_expanded := (ss_expanded ss)(?key \<mapsto> orig)\<rparr>"
  show ?thesis
  proof (cases "?s \<in> fst ` set (fl_sections f) \<and> ss_expanded ss ?key = None")
    case True
    then have "own_section cf orig f a ss = Enter f (Some ?s) ?ss" by (simp add: own_section_def Let_def)
    moreover have "takes_key cf f ss (Enter f (Some ?s) ?ss)"
      unfolding takes_key_def
      by (rule exI [of _ "fl_path f"], rule exI [of _ "Some ?s"], rule exI [of _ f], rule exI [of _ ?ss],
          rule exI [of _ ?ss], rule exI [of _ orig]) (use True in simp)
    ultimately show ?thesis by simp
  next
    case False
    then have "silent ss (own_section cf orig f a ss)"
      by (cases "ss_expanded ss ?key") (simp_all add: own_section_def Let_def core_simps)
    then show ?thesis ..
  qed
qed

lemma lib_cases: "silent ss (d_lib cf st f base section ss) \<or> takes_key cf f ss (d_lib cf st f base section ss)"
  unfolding d_lib_def
  by (rule args_cases) (simp add: lib_args_def expand_cases own_section_cases core_simps)

text \<open>What a statement does to the core: nothing, one of the three scope operations, or a key is taken.\<close>

lemma statement_cases:
  "silent ss (statement cf st f base section ss) \<or> takes_key cf f ss (statement cf st f base section ss) \<or>
   statement cf st f base section ss \<in> {Go (add_item (StmtItem st) ss), Go (d_ends cf st ss)} \<or>
   (dot_canon (st_kw st) = Some ''.subckt'' \<and> statement cf st f base section ss = Go (d_subckt cf st ss))"
proof -
  let ?oc = "statement cf st f base section ss"
  show ?thesis
  proof (cases "dot_canon (st_kw st)")
    case None
    then show ?thesis by (simp add: statement_def Let_def core_simps)
  next
    case (Some c)
    show ?thesis
    proof (cases "c = ''.inc''")
      case True
      then show ?thesis using Some include_cases [of ss cf st base f]
        by (simp add: statement_def Let_def core_simps CONTROLS_TOP_ONLY_def) blast
    next
      case i: False
      show ?thesis
      proof (cases "c = ''.lib''")
        case True
        then show ?thesis using Some lib_cases [of ss cf st f base "section"]
          by (simp add: statement_def Let_def core_simps CONTROLS_TOP_ONLY_def) blast
      next
        case False
        then show ?thesis
          using Some i option_silent [of ss cf st base] global_silent [of ss st] hdl_silent [of ss cf st base]
          by (simp add: statement_def Let_def core_simps)
      qed
    qed
  qed
qed

lemma skip_to_core: "skip_to f i n closers openers ss = (j, ss') \<Longrightarrow> core ss' = core ss"
  by (auto simp: skip_to_def core_simps split: option.splits)

lemma end_turn_core [core_simps]: "core (end_turn cf st rest section ss) = core ss"
  by (simp add: end_turn_def Let_def core_simps)

section \<open>The tree of scopes\<close>

text \<open>
  Every scope but the first has a parent that was opened before it, and the scopes among the items of a
  scope are its children in the order in which they were opened.
\<close>

definition child_of :: "sc_item \<Rightarrow> nat option" where
  "child_of it = (case it of ScopeItem c \<Rightarrow> Some c | StmtItem _ \<Rightarrow> None)"

definition children :: "sp_scope \<Rightarrow> nat list" where
  "children s = List.map_filter child_of (sc_items s)"

definition older_parent :: "sp_scope list \<Rightarrow> nat \<Rightarrow> bool" where
  "older_parent scs c \<longleftrightarrow> (case sc_parent (scs ! c) of Some p \<Rightarrow> p < c | None \<Rightarrow> False)"

definition scope_list_ok :: "sp_scope list \<Rightarrow> bool" where
  "scope_list_ok scs \<longleftrightarrow> scs \<noteq> [] \<and> sc_parent (scs ! 0) = None \<and> list_all (older_parent scs) [1..<length scs] \<and>
     list_all (\<lambda>p. children (scs ! p) = filter (\<lambda>c. sc_parent (scs ! c) = Some p) [1..<length scs]) [0..<length scs]"

definition scope_tree :: "sp_state \<Rightarrow> bool" where
  "scope_tree ss \<longleftrightarrow> ss_scope ss < length (ss_scopes ss) \<and> scope_list_ok (ss_scopes ss)"

lemma children_simps [simp]:
  "children (s\<lparr>sc_items := its @ [StmtItem st]\<rparr>) = List.map_filter child_of its"
  "children (s\<lparr>sc_items := its @ [ScopeItem c]\<rparr>) = List.map_filter child_of its @ [c]"
  by (simp_all add: children_def List.map_filter_def child_of_def)

lemma tree_core: "core ss' = core ss \<Longrightarrow> scope_tree ss' = scope_tree ss"
  by (simp add: core_def scope_tree_def)

lemma scope_list_update:
  assumes "scope_list_ok scs" "i < length scs" "sc_parent s = sc_parent (scs ! i)" "children s = children (scs ! i)"
  shows "scope_list_ok (scs[i := s])"
proof -
  have par: "sc_parent (scs[i := s] ! c) = sc_parent (scs ! c)" for c
    using assms by (cases "c = i") auto
  have ch: "children (scs[i := s] ! c) = children (scs ! c)" for c
    using assms by (cases "c = i") auto
  show ?thesis using assms(1, 2) unfolding scope_list_ok_def older_parent_def par ch by auto
qed

lemma add_stmt_tree: "scope_tree ss \<Longrightarrow> scope_tree (add_item (StmtItem st) ss)"
  by (auto simp: scope_tree_def add_item_def Let_def intro!: scope_list_update) (simp add: children_def)

lemma new_scope_ok:
  assumes ok: "scope_list_ok scs" and i: "i < length scs"
    and s: "sc_parent s = Some i" "sc_items s = []" and t: "sc_parent t = sc_parent (scs ! i)"
      "children t = children (scs ! i) @ [length scs]"
  shows "scope_list_ok (scs[i := t] @ [s])"
proof -
  let ?n = "length scs"
  let ?u = "scs[i := t] @ [s]"
  have par: "sc_parent (?u ! c) = (if c < ?n then sc_parent (scs ! c) else Some i)" if "c \<le> ?n" for c
    using that i s t by (cases "c = i") (auto simp: nth_append)
  have old: "older_parent scs c" if "c \<in> {1..<?n}" for c
    using ok that by (auto simp: scope_list_ok_def list_all_iff)
  have ch: "children (?u ! p) = filter (\<lambda>c. sc_parent (?u ! c) = Some p) [1..<Suc ?n]" if p: "p < Suc ?n" for p
  proof -
    have f: "filter (\<lambda>c. sc_parent (?u ! c) = Some p) [1..<Suc ?n] =
        filter (\<lambda>c. sc_parent (scs ! c) = Some p) [1..<?n] @ (if p = i then [?n] else [])"
    proof -
      have "[1..<Suc ?n] = [1..<?n] @ [?n]" using i by (subst upt_Suc_append) auto
      moreover have "filter (\<lambda>c. sc_parent (?u ! c) = Some p) [1..<?n] =
          filter (\<lambda>c. sc_parent (scs ! c) = Some p) [1..<?n]"
        by (rule filter_cong) (auto simp: par)
      ultimately show ?thesis using par [of ?n] by auto
    qed
    show ?thesis
    proof (cases "p < ?n")
      case True
      then have "children (scs ! p) = filter (\<lambda>c. sc_parent (scs ! c) = Some p) [1..<?n]"
        using ok by (auto simp: scope_list_ok_def list_all_iff)
      moreover have "children (?u ! p) = children (scs ! p) @ (if p = i then [?n] else [])"
        using True t i by (cases "p = i") (auto simp: nth_append)
      ultimately show ?thesis using f by simp
    next
      case False
      then have "p = ?n" using p by simp
      moreover have "filter (\<lambda>c. sc_parent (scs ! c) = Some ?n) [1..<?n] = []"
      proof -
        have "sc_parent (scs ! c) \<noteq> Some ?n" if "c \<in> {1..<?n}" for c
          using old [OF that] that by (auto simp: older_parent_def)
        then show ?thesis by (auto simp: filter_empty_conv)
      qed
      ultimately show ?thesis using f i s by (simp add: nth_append children_def List.map_filter_def)
    qed
  qed
  have "older_parent ?u c" if c: "c \<in> {1..<Suc ?n}" for c
    using old [of c] par [of c] c i by (cases "c = ?n") (auto simp: older_parent_def)
  moreover have "sc_parent (?u ! 0) = None" using par [of 0] ok by (cases scs) (auto simp: scope_list_ok_def)
  ultimately show ?thesis using ch by (auto simp: scope_list_ok_def list_all_iff)
qed

lemma subckt_tree:
  assumes "scope_tree ss"
  shows "scope_tree (d_subckt cf st ss)"
proof -
  let ?words = "py_words (st_text st)"
  obtain name ss1 where n: "(if length ?words < 2 then (''?'', ss_err (st_origin st) (st_kw st @ '' needs a name'') ss)
       else (sp_fold cf (?words ! 1), spell (sp_fold cf (?words ! 1)) (?words ! 1) True ss)) = (name, ss1)"
    by (cases "length ?words < 2") auto
  then have c: "core ss1 = core ss" by (auto simp: core_simps split: if_splits)
  let ?i = "ss_scope ss"
  let ?t = "(ss_scopes ss ! ?i)\<lparr>sc_items := sc_items (ss_scopes ss ! ?i) @ [ScopeItem (length (ss_scopes ss))]\<rparr>"
  let ?s = "\<lparr>sc_name = Some name, sc_parent = Some ?i, sc_stmt = Some st, sc_items = []\<rparr>"
  have "ss_scopes (d_subckt cf st ss) = (ss_scopes ss)[?i := ?t] @ [?s]"
       "ss_scope (d_subckt cf st ss) = length (ss_scopes ss)"
    using c n by (simp_all add: d_subckt_def Let_def add_item_def core_def)
  moreover have "scope_list_ok ((ss_scopes ss)[?i := ?t] @ [?s])"
    using assms by (intro new_scope_ok) (auto simp: scope_tree_def children_def List.map_filter_def child_of_def)
  ultimately show ?thesis using assms by (simp add: scope_tree_def)
qed

lemma parent_less: "scope_tree ss \<Longrightarrow> ss_scope ss \<noteq> 0 \<Longrightarrow> scope_parent ss (ss_scope ss) < ss_scope ss"
  by (auto simp: scope_tree_def scope_list_ok_def older_parent_def scope_parent_def list_all_iff split: option.splits)

lemma tree_up: "scope_tree ss \<Longrightarrow> core ss1 = core ss \<Longrightarrow> ss_scope ss \<noteq> 0 \<Longrightarrow>
    scope_tree (ss1\<lparr>ss_scope := scope_parent ss (ss_scope ss)\<rparr>)"
  using parent_less [of ss] by (auto simp: scope_tree_def core_def)

lemma ends_tree:
  assumes "scope_tree ss"
  shows "scope_tree (d_ends cf st ss)"
proof (cases "ss_scope ss = 0")
  case True
  then show ?thesis using assms tree_core [OF ss_note_core] by (simp add: d_ends_def)
next
  case False
  let ?words = "py_words (st_text st)"
  define ss1 where "ss1 = (if 1 < length ?words \<and> sp_fold cf (?words ! 1) \<noteq> scope_name ss (ss_scope ss)
      then ss_err (st_origin st) (st_kw st @ '' '' @ ?words ! 1 @ '' closes .subckt '' @ scope_name ss (ss_scope ss) @
             '' ('' @ scope_origin ss (ss_scope ss) @ '')'') ss
      else ss)"
  have "core ss1 = core ss" "d_ends cf st ss = ss1\<lparr>ss_scope := scope_parent ss1 (ss_scope ss1)\<rparr>"
    using False by (simp_all add: d_ends_def Let_def core_simps ss1_def)
  moreover from this have "scope_parent ss1 (ss_scope ss1) = scope_parent ss (ss_scope ss)"
    by (simp add: core_def scope_parent_def)
  ultimately show ?thesis using tree_up [OF assms _ False] by simp
qed

lemma key_scopes: "takes_key cf f ss oc \<Longrightarrow> outcome_state oc = Some ss' \<Longrightarrow> scope_tree ss' = scope_tree ss"
proof -
  assume "takes_key cf f ss oc" and o: "outcome_state oc = Some ss'"
  then obtain path sec g ss1 ss2 where s1: "ss_scopes ss1 = ss_scopes ss" "ss_scope ss1 = ss_scope ss"
      and l: "load_file cf path False ss1 = (g, ss2) \<or> ss2 = ss1"
      and e: "if sec = None \<or> the sec \<in> fst ` set (fl_sections g) then oc = Enter g sec ss2
              else \<exists>ss'. oc = Go ss' \<and> core ss' = core ss2"
    unfolding takes_key_def by blast
  have "ss_scopes ss2 = ss_scopes ss" "ss_scope ss2 = ss_scope ss"
    using l s1 by (auto elim: load_fileE)
  moreover have "ss_scopes ss' = ss_scopes ss2" "ss_scope ss' = ss_scope ss2"
    using e o by (auto simp: core_def split: if_splits)
  ultimately show ?thesis by (simp add: scope_tree_def)
qed

lemma statement_tree:
  assumes "scope_tree ss" "outcome_state (statement cf st f base section ss) = Some ss'"
  shows "scope_tree ss'"
proof -
  let ?oc = "statement cf st f base section ss"
  consider "silent ss ?oc" | "takes_key cf f ss ?oc" | "?oc = Go (add_item (StmtItem st) ss)"
    | "?oc = Go (d_ends cf st ss)" | "?oc = Go (d_subckt cf st ss)"
    using statement_cases [of ss cf st f base "section"] by blast
  then show ?thesis
  proof cases
    case 1
    then have "core ss' = core ss" using assms(2) by (cases ?oc) auto
    then show ?thesis using assms(1) tree_core by blast
  next
    case 2
    then show ?thesis using assms key_scopes by blast
  qed (use assms add_stmt_tree ends_tree subckt_tree in auto)
qed

fun turn_state :: "turn \<Rightarrow> sp_state option" where
  "turn_state (Stop ss) = Some ss"
| "turn_state (Jump j ss) = Some ss"
| "turn_state (Read f sec ss) = Some ss"
| "turn_state (Fails e) = None"

text \<open>A turn of the loop leaves the core, or does what the statement does.\<close>

definition statement_turn :: "sp_conf \<Rightarrow> sp_file \<Rightarrow> string option \<Rightarrow> string option \<Rightarrow> nat \<Rightarrow> sp_state \<Rightarrow> turn" where
  "statement_turn cf f base section i ss =
     (case statement cf (fl_stmts f ! i) f base section ss of
        Go ss' \<Rightarrow> Jump (Suc i) ss' | Enter g sec ss' \<Rightarrow> Read g sec ss' | Crash e \<Rightarrow> Fails e)"

lemma skip_to_less: "skip_to f i n closers openers ss = (j, ss') \<Longrightarrow> i < n \<Longrightarrow> i < j"
  by (auto simp: skip_to_def split: option.splits)

lemma turn_cases:
  assumes "i < n"
  obtains (stop) ss' where "run_turn cf f section i n ss = Stop ss'" "core ss' = core ss"
  | (skip) j where "run_turn cf f section i n ss = Jump (Suc j) ss" "section = None" "map_of (fl_skip f) i = Some j"
  | (jump) j ss' where "run_turn cf f section i n ss = Jump j ss'" "core ss' = core ss" "i < j"
  | (stmt) base where "run_turn cf f section i n ss = statement_turn cf f base section i ss"
proof (cases "if section = None then map_of (fl_skip f) i else None")
  case (Some j)
  then show thesis by (intro skip [of j]) (auto simp: run_turn_def split: if_splits)
next
  case None
  let ?st = "fl_stmts f ! i"
  let ?kw = "st_kw ?st"
  let ?canon = "dot_canon ?kw"
  note d = run_turn_def [of cf f "section" i n ss] None
  consider (wo) "(?canon = Some ''.if'' \<or> ?canon = Some ''.data'' \<or> ?canon = Some ''.enddata'') \<and> ?kw \<noteq> ''.if'' \<and> ?kw \<noteq> ''.data''"
    | (en) "\<not> ((?canon = Some ''.if'' \<or> ?canon = Some ''.data'' \<or> ?canon = Some ''.enddata'') \<and> ?kw \<noteq> ''.if'' \<and> ?kw \<noteq> ''.data'')"
        "?kw = ''.end'' \<or> ?kw = ''.alter''"
    | (da) "?kw = ''.data''" | (if') "?kw = ''.if''"
    | (el) "?kw = ''.endl''" "\<not> ((?canon = Some ''.if'' \<or> ?canon = Some ''.data'' \<or> ?canon = Some ''.enddata'') \<and> ?kw \<noteq> ''.if'' \<and> ?kw \<noteq> ''.data'')"
    | (ot) "\<not> ((?canon = Some ''.if'' \<or> ?canon = Some ''.data'' \<or> ?canon = Some ''.enddata'') \<and> ?kw \<noteq> ''.if'' \<and> ?kw \<noteq> ''.data'')"
        "\<not> (?kw = ''.end'' \<or> ?kw = ''.alter'')" "?kw \<noteq> ''.data''" "?kw \<noteq> ''.if''" "?kw \<noteq> ''.endl''"
    by blast
  then show thesis
  proof cases
    case wo
    then have "run_turn cf f section i n ss = Jump (Suc i) (ss_err (st_origin ?st)
        (?kw @ '' without '' @ (if ?canon = Some ''.if'' then ''.if'' else ''.data'')) ss)"
      by (simp add: d Let_def)
    then show ?thesis by (rule jump) (simp_all add: core_simps)
  next
    case en
    then have "run_turn cf f section i n ss = Stop (end_turn cf ?st (drop (Suc i) (take n (fl_stmts f))) section ss)"
      by (simp add: d Let_def)
    then show ?thesis by (rule stop) (simp add: core_simps)
  next
    case da
    obtain j ss' where s: "skip_to f i n [''.enddata''] [] (ss_err (st_origin ?st) ''.data is not supported'' ss) = (j, ss')"
      by (cases "skip_to f i n [''.enddata''] [] (ss_err (st_origin ?st) ''.data is not supported'' ss)")
    then have "run_turn cf f section i n ss = Jump j ss'" using da by (simp add: d Let_def)
    then show ?thesis using skip_to_core [OF s] skip_to_less [OF s assms] by (intro jump [of j ss']) (simp_all add: core_simps)
  next
    case if'
    let ?ss = "ss_err (st_origin ?st) (head_word ?st @ '' is not supported (conditional netlists, .if binning)'') ss"
    obtain j ss' where s: "skip_to f i n [''.endif''] [''.if''] ?ss = (j, ss')"
      by (cases "skip_to f i n [''.endif''] [''.if''] ?ss")
    then have "run_turn cf f section i n ss = Jump j ss'" using if' by (simp add: d Let_def)
    then show ?thesis using skip_to_core [OF s] skip_to_less [OF s assms] by (intro jump [of j ss']) (simp_all add: core_simps)
  next
    case el
    then have "run_turn cf f section i n ss = Jump (Suc i) (ss_err (st_origin ?st) ''.endl without a .lib section'' ss)"
      by (simp add: d Let_def)
    then show ?thesis by (rule jump) (simp_all add: core_simps)
  next
    case ot
    have "run_turn cf f section i n ss =
        statement_turn cf f (if fl_path f \<noteq> [] then Some (dirname (fl_path f)) else origin_dir cf (st_origin ?st)) section i ss"
      unfolding d statement_turn_def using None ot by (simp only: Let_def option.case if_False if_True)
    then show ?thesis by (rule stmt)
  qed
qed

lemma turn_tree:
  assumes "scope_tree ss" "i < n" "turn_state (run_turn cf f section i n ss) = Some ss'"
  shows "scope_tree ss'"
  using assms(2)
proof (cases rule: turn_cases [of i n cf f "section" ss])
  case (stmt base)
  then have "outcome_state (statement cf (fl_stmts f ! i) f base section ss) = Some ss'"
    using assms(3) by (cases "statement cf (fl_stmts f ! i) f base section ss") (auto simp: statement_turn_def)
  then show ?thesis using assms(1) statement_tree by blast
next
  case (stop ss'')
  then have "ss' = ss''" using assms(3) by simp
  then show ?thesis using stop(2) assms(1) tree_core by blast
next
  case (skip j)
  then show ?thesis using assms(1, 3) by simp
next
  case (jump j ss'')
  then have "ss' = ss''" using assms(3) by simp
  then show ?thesis using jump(2) assms(1) tree_core by blast
qed

lemma run_tree:
  "run_from cf f section i n ss = Some (Inr ss') \<Longrightarrow> scope_tree ss \<Longrightarrow> scope_tree ss'"
proof -
  have "run_from cf f section i n ss = Some r \<Longrightarrow> scope_tree ss \<longrightarrow> (\<forall>ss'. r = Inr ss' \<longrightarrow> scope_tree ss')" for r
  proof (rule run_from.raw_induct
      [where P = "\<lambda>cf f section i n ss r. scope_tree ss \<longrightarrow> (\<forall>ss'. r = Inr ss' \<longrightarrow> scope_tree ss')"])
    fix run cf f i n ss r and sec :: "string option"
    assume ih: "\<And>cf f sec i n ss r. run cf f sec i n ss = Some r \<Longrightarrow>
        scope_tree ss \<longrightarrow> (\<forall>ss'. r = Inr ss' \<longrightarrow> scope_tree ss')"
      and eq: "(if n \<le> i then Some (Inr ss)
          else case run_turn cf f sec i n ss of
            Stop ss' \<Rightarrow> Some (Inr ss')
          | Jump j ss' \<Rightarrow> run cf f sec j n ss'
          | Read g sec' ss' \<Rightarrow>
              Option.bind (run cf g sec' (fst (section_range g sec')) (snd (section_range g sec')) ss')
                (\<lambda>r. case r of Inl e \<Rightarrow> Some (Inl e) | Inr ss'' \<Rightarrow> run cf f sec (Suc i) n ss'')
          | Fails e \<Rightarrow> Some (Inl e)) = Some r"
    show "scope_tree ss \<longrightarrow> (\<forall>ss'. r = Inr ss' \<longrightarrow> scope_tree ss')"
    proof (intro impI allI)
      fix ss'
      assume t: "scope_tree ss" and r: "r = Inr ss'"
      show "scope_tree ss'"
      proof (cases "n \<le> i")
        case True
        then show ?thesis using eq t r by simp
      next
        case False
        then have tt: "turn_state (run_turn cf f sec i n ss) = Some u \<Longrightarrow> scope_tree u" for u
          using turn_tree [OF t, of i n cf f sec u] by simp
        show ?thesis
        proof (cases "run_turn cf f sec i n ss")
          case (Stop u)
          then show ?thesis using eq False r tt by simp
        next
          case (Jump j u)
          then have "run cf f sec j n u = Some r" using eq False by simp
          then show ?thesis using ih r tt Jump by simp
        next
          case (Read g sec' u)
          let ?m = "run cf g sec' (fst (section_range g sec')) (snd (section_range g sec')) u"
          obtain v where v: "?m = Some (Inr v)" "run cf f sec (Suc i) n v = Some r"
            using eq False r Read by (cases ?m) (auto split: sum.splits)
          have "scope_tree v" using ih [OF v(1)] tt Read by simp
          then show ?thesis using ih [OF v(2)] r by simp
        next
          case (Fails e)
          then show ?thesis using eq False r by simp
        qed
      qed
    qed
  qed
  then show "run_from cf f section i n ss = Some (Inr ss') \<Longrightarrow> scope_tree ss \<Longrightarrow> scope_tree ss'" by blast
qed

text \<open>Scopes that are still open at the end of a file are closed.\<close>

lemma close_scopes_done:
  "scope_tree ss \<Longrightarrow> ss_scope ss \<le> fuel \<Longrightarrow> scope_tree (close_scopes fuel w ss) \<and> ss_scope (close_scopes fuel w ss) = 0"
proof (induction fuel w ss rule: close_scopes.induct)
  case (2 fuel w ss)
  show ?case
  proof (cases "ss_scope ss = 0")
    case False
    let ?msg = "''.subckt '' @ scope_name ss (ss_scope ss) @ '' has no .ends (end of '' @ w @ '')''"
    let ?ss = "(ss_err (scope_origin ss (ss_scope ss)) ?msg ss)\<lparr>ss_scope := scope_parent ss (ss_scope ss)\<rparr>"
    have "scope_tree ?ss" using "2.prems"(1) ss_note_core False by (rule tree_up)
    moreover have "ss_scope ?ss \<le> fuel" using parent_less [OF "2.prems"(1) False] "2.prems"(2) by simp
    ultimately have "scope_tree (close_scopes fuel w ?ss) \<and> ss_scope (close_scopes fuel w ?ss) = 0"
      by (rule "2.IH" [OF False])
    then show ?thesis using False by simp
  qed (use 2 in simp)
qed simp

lemma close_all_done: "scope_tree ss \<Longrightarrow> scope_tree (close_all w ss) \<and> ss_scope (close_all w ss) = 0"
  unfolding close_all_def by (rule close_scopes_done) (simp_all add: scope_tree_def)

lemma and_then_Inr: "and_then m k = Some (Inr ss') \<longleftrightarrow> (\<exists>ss. m = Some (Inr ss) \<and> k ss = Some (Inr ss'))"
  by (cases m) (auto simp: and_then_def split: sum.splits)

definition at_top :: "sp_state \<Rightarrow> bool" where
  "at_top ss \<longleftrightarrow> scope_tree ss \<and> ss_scope ss = 0"

lemma at_top_core: "core ss' = core ss \<Longrightarrow> at_top ss' = at_top ss"
  using tree_core [of ss' ss] by (auto simp: at_top_def core_def)

lemma at_top_load:
  assumes "load_file cf path title ss = (f, ss')" "at_top ss"
  shows "at_top ss'"
  using assms by (auto simp: at_top_def scope_tree_def elim!: load_fileE)

lemma at_top_run: "run_file cf f section ss = Some (Inr ss1) \<Longrightarrow> at_top ss \<Longrightarrow> at_top (close_all w ss1)"
  using run_tree [of cf f "section"] close_all_done by (auto simp: run_file_def at_top_def)

lemma read_netlist_top: "read_netlist cf r ss = Some (Inr ss') \<Longrightarrow> at_top ss \<Longrightarrow> at_top ss'"
proof -
  assume a: "read_netlist cf r ss = Some (Inr ss')" and t: "at_top ss"
  obtain k p orig where r: "r = (k, p, orig)" by (cases r)
  obtain found ss1 where f: "resolve_ref cf p (origin_dir cf orig) orig ''netlist'' ss = (found, ss1)"
    by (cases "resolve_ref cf p (origin_dir cf orig) orig ''netlist'' ss")
  have t1: "at_top ss1" using resolve_core [OF f] t at_top_core by blast
  show ?thesis
  proof (cases found)
    case None
    then show ?thesis using a r f t1 by (simp add: read_netlist_def)
  next
    case (Some path)
    let ?key = "(os_realpath (cf_os cf) path, None, 0)"
    show ?thesis
    proof (cases "ss_expanded ss1 ?key")
      case e: (Some o')
      then show ?thesis using a r f Some t1 at_top_core [OF ss_note_core] by (auto simp: read_netlist_def Let_def)
    next
      case e: None
      let ?ss = "ss1\<lparr>ss_expanded := (ss_expanded ss1)(?key \<mapsto> path)\<rparr>"
      obtain g ss2 where l: "load_file cf path (k = 0) ?ss = (g, ss2)" by (cases "load_file cf path (k = 0) ?ss")
      have "at_top ?ss" using t1 by (auto simp: at_top_def scope_tree_def)
      then have "at_top ss2" using at_top_load [OF l] by simp
      then show ?thesis using a r f Some e l at_top_run by (auto simp: read_netlist_def Let_def and_then_Inr)
    qed
  qed
qed

lemma read_netlists_top: "read_netlists cf rs ss = Some (Inr ss') \<Longrightarrow> at_top ss \<Longrightarrow> at_top ss'"
  by (induction rs arbitrary: ss) (auto simp: and_then_Inr dest: read_netlist_top)

lemma read_extra_top: "read_extra cf extra ss = Some (Inr ss') \<Longrightarrow> at_top ss \<Longrightarrow> at_top ss'"
proof (cases "extra = []")
  case False
  assume a: "read_extra cf extra ss = Some (Inr ss')" and t: "at_top ss"
  obtain stmts ns where l: "logical (cf_sp cf) extra = Inr (stmts, ns)"
    using a False by (cases "logical (cf_sp cf) extra") (auto simp: read_extra_def)
  let ?f = "mk_file [] stmts"
  let ?ss = "ss\<lparr>ss_notes := ss_notes ss @ ns @ fl_notes ?f\<rparr>"
  have "at_top ?ss" using t by (auto simp: at_top_def scope_tree_def)
  then show ?thesis using a l False at_top_run [of cf ?f None ?ss]
    by (auto simp: read_extra_def and_then_Inr Let_def)
qed (simp add: read_extra_def)

lemma init_top: "at_top (sp_init cf search)"
  by (simp add: at_top_def sp_init_def scope_tree_def scope_list_ok_def children_def List.map_filter_def)

lemma read_spice_top: "read_spice cf paths extra (sp_init cf search) = Some (Inr ss) \<Longrightarrow> at_top ss"
  by (auto simp: read_spice_def and_then_Inr init_top dest: read_netlists_top read_extra_top)

end
