(* ===== verification/SpiceReturn.thy ===== *)
theory SpiceReturn
  imports SpiceReadProps
begin

text \<open>
  When pass 1 returns. The guard of \<open>expanded\<close> makes a key of a file, a section and a scope; where no file
  opens a subcircuit there is one scope, the keys are finitely many, and every file that is read uses up
  one. A subcircuit is a new scope, so a file that includes itself inside one is read for ever.
\<close>

section \<open>Files without subcircuits\<close>

definition no_subckt :: "sp_file \<Rightarrow> bool" where
  "no_subckt f \<longleftrightarrow> list_all (\<lambda>st. dot_canon (st_kw st) \<noteq> Some ''.subckt'') (fl_stmts f)"

text \<open>A set of files that is closed under reading.\<close>

definition file_system :: "sp_conf \<Rightarrow> sp_file set \<Rightarrow> bool" where
  "file_system cf FS \<longleftrightarrow> finite {p. os_isfile (cf_os cf) p} \<and> finite FS \<and>
     (\<forall>p t. os_isfile (cf_os cf) p \<longrightarrow> fresh_file cf (abspath (cf_os cf) p) t \<in> FS) \<and>
     (\<forall>f \<in> FS. no_subckt f \<and> (\<exists>path stmts. f = mk_file path stmts))"

definition reading :: "sp_file set \<Rightarrow> sp_state \<Rightarrow> bool" where
  "reading FS ss \<longleftrightarrow> ss_scope ss = 0 \<and> (\<forall>k f. ss_files ss k = Some f \<longrightarrow> f \<in> FS)"

definition section_names :: "sp_file set \<Rightarrow> string option set" where
  "section_names FS = insert None (\<Union>f \<in> FS. (\<lambda>s. Some (fst s)) ` set (fl_sections f))"

definition all_keys :: "sp_conf \<Rightarrow> sp_file set \<Rightarrow> (string \<times> string option \<times> nat) set" where
  "all_keys cf FS =
     (\<lambda>(path, sec). (os_realpath (cf_os cf) path, sec, 0)) `
       ((abspath (cf_os cf) ` {p. os_isfile (cf_os cf) p} \<union> fl_path ` FS) \<times> section_names FS)"

definition keys_left :: "sp_conf \<Rightarrow> sp_file set \<Rightarrow> sp_state \<Rightarrow> nat" where
  "keys_left cf FS ss = card (all_keys cf FS - dom (ss_expanded ss))"

lemma finite_keys: "file_system cf FS \<Longrightarrow> finite (all_keys cf FS)"
  by (auto simp: all_keys_def section_names_def file_system_def)

lemma keys_left_mono:
  "file_system cf FS \<Longrightarrow> dom (ss_expanded ss) \<subseteq> dom (ss_expanded ss') \<Longrightarrow> keys_left cf FS ss' \<le> keys_left cf FS ss"
  unfolding keys_left_def by (rule card_mono) (auto intro: finite_keys)

lemma keys_left_less:
  assumes "file_system cf FS" "dom (ss_expanded ss') = insert k (dom (ss_expanded ss))" "k \<in> all_keys cf FS"
    "k \<notin> dom (ss_expanded ss)"
  shows "keys_left cf FS ss' < keys_left cf FS ss"
  unfolding keys_left_def using assms by (intro psubset_card_mono) (auto intro: finite_keys)

lemma core_reading: "core ss' = core ss \<Longrightarrow> reading FS ss' = reading FS ss \<and> ss_expanded ss' = ss_expanded ss"
  by (simp add: core_def reading_def)

text \<open>One turn goes forward in the file, or reads another one and uses up a key.\<close>

definition forward :: "sp_conf \<Rightarrow> sp_file set \<Rightarrow> nat \<Rightarrow> sp_state \<Rightarrow> turn \<Rightarrow> bool" where
  "forward cf FS i ss t = (case t of
     Stop ss' \<Rightarrow> reading FS ss' \<and> dom (ss_expanded ss) \<subseteq> dom (ss_expanded ss')
   | Jump j ss' \<Rightarrow> i < j \<and> reading FS ss' \<and> dom (ss_expanded ss) \<subseteq> dom (ss_expanded ss')
   | Read g sec ss' \<Rightarrow> g \<in> FS \<and> reading FS ss' \<and> dom (ss_expanded ss) \<subseteq> dom (ss_expanded ss') \<and>
       keys_left cf FS ss' < keys_left cf FS ss
   | Fails e \<Rightarrow> True)"

lemma load_reading:
  assumes "load_file cf path t ss = (g, ss')" "reading FS ss" "fresh_file cf path t \<in> FS"
  shows "g \<in> FS \<and> reading FS ss' \<and> ss_expanded ss' = ss_expanded ss"
  using assms(1)
proof (rule load_fileE)
  assume g: "g = fresh_file cf path t \<or> ss_files ss (file_key path t) = Some g"
    and s: "ss_scope ss' = ss_scope ss" "ss_expanded ss' = ss_expanded ss"
      "ss_files ss' = (ss_files ss)(file_key path t \<mapsto> g)"
  have "g \<in> FS" using g assms(2, 3) by (auto simp: reading_def)
  then show ?thesis using s assms(2) by (auto simp: reading_def)
qed

lemma key_forward:
  assumes fs: "file_system cf FS" and r: "reading FS ss" and f: "f \<in> FS"
    and k: "takes_key cf f ss (statement cf st f base section ss)" (is "takes_key cf f ss ?oc")
  shows "case ?oc of Go ss' \<Rightarrow> reading FS ss' \<and> dom (ss_expanded ss) \<subseteq> dom (ss_expanded ss')
    | Enter g sec ss' \<Rightarrow> g \<in> FS \<and> reading FS ss' \<and> dom (ss_expanded ss) \<subseteq> dom (ss_expanded ss') \<and>
        keys_left cf FS ss' < keys_left cf FS ss
    | Crash e \<Rightarrow> True"
proof -
  obtain path sec g ss1 ss2 orig where new: "ss_expanded ss (os_realpath (cf_os cf) path, sec, ss_scope ss) = None"
    and s1: "ss_scope ss1 = ss_scope ss" "ss_files ss1 = ss_files ss"
      "ss_expanded ss1 = (ss_expanded ss)((os_realpath (cf_os cf) path, sec, ss_scope ss) \<mapsto> orig)"
    and l: "(\<exists>p. os_isfile (cf_os cf) p \<and> path = abspath (cf_os cf) p) \<and> load_file cf path False ss1 = (g, ss2) \<or>
         path = fl_path f \<and> sec \<noteq> None \<and> g = f \<and> ss2 = ss1"
    and e: "if sec = None \<or> the sec \<in> fst ` set (fl_sections g) then ?oc = Enter g sec ss2
         else \<exists>ss'. ?oc = Go ss' \<and> core ss' = core ss2"
    using k unfolding takes_key_def by blast
  have r1: "reading FS ss1" using r s1 by (simp add: reading_def)
  have z: "ss_scope ss = 0" using r by (simp add: reading_def)
  have g: "g \<in> FS" and r2: "reading FS ss2" and x2: "ss_expanded ss2 = ss_expanded ss1"
    and path: "path \<in> abspath (cf_os cf) ` {p. os_isfile (cf_os cf) p} \<union> fl_path ` FS"
  proof -
    have "g \<in> FS \<and> reading FS ss2 \<and> ss_expanded ss2 = ss_expanded ss1 \<and>
        path \<in> abspath (cf_os cf) ` {p. os_isfile (cf_os cf) p} \<union> fl_path ` FS"
      using l
    proof (elim disjE conjE exE)
      fix p
      assume p: "os_isfile (cf_os cf) p" "path = abspath (cf_os cf) p" and ld: "load_file cf path False ss1 = (g, ss2)"
      have "fresh_file cf path False \<in> FS" using fs p by (auto simp: file_system_def)
      then show ?thesis using load_reading [OF ld r1] p by auto
    next
      assume "path = fl_path f" "g = f" "ss2 = ss1"
      then show ?thesis using f r1 by auto
    qed
    then show "g \<in> FS" "reading FS ss2" "ss_expanded ss2 = ss_expanded ss1"
      "path \<in> abspath (cf_os cf) ` {p. os_isfile (cf_os cf) p} \<union> fl_path ` FS" by blast+
  qed
  have d: "dom (ss_expanded ss2) = insert (os_realpath (cf_os cf) path, sec, ss_scope ss) (dom (ss_expanded ss))"
    using x2 s1 by simp
  show ?thesis
  proof (cases "sec = None \<or> the sec \<in> fst ` set (fl_sections g)")
    case True
    then have "sec \<in> section_names FS" using g by (cases sec) (force simp: section_names_def)+
    then have "(os_realpath (cf_os cf) path, sec, ss_scope ss) \<in> all_keys cf FS"
      using path z unfolding all_keys_def by (intro image_eqI [where x = "(path, sec)"]) auto
    then have "keys_left cf FS ss2 < keys_left cf FS ss"
      using keys_left_less [OF fs d] new by (simp add: domIff)
    then show ?thesis using True e g r2 d by auto
  next
    case False
    then obtain ss' where "?oc = Go ss'" "core ss' = core ss2" using e by auto
    then show ?thesis using core_reading [of ss' ss2 FS] r2 d by auto
  qed
qed

lemma turn_forward:
  assumes fs: "file_system cf FS" and r: "reading FS ss" and f: "f \<in> FS" and i: "i < n" "n \<le> length (fl_stmts f)"
  shows "forward cf FS i ss (run_turn cf f section i n ss)"
  using i(1)
proof (cases rule: turn_cases [of i n cf f "section" ss])
  case (stop ss')
  then show ?thesis using core_reading [of ss' ss FS] r by (simp add: forward_def)
next
  case (skip j)
  obtain path stmts where m: "f = mk_file path stmts" using fs f by (auto simp: file_system_def)
  have "(i, j) \<in> set (fl_skip f)" using skip(3) by (rule map_of_SomeD)
  then have "i < j" using file_index [of path stmts] m by (fastforce simp: index_ok_def interval_ok_def)
  then show ?thesis using skip r by (simp add: forward_def)
next
  case (jump j ss')
  then show ?thesis using core_reading [of ss' ss FS] r by (simp add: forward_def)
next
  case (stmt base)
  let ?st = "fl_stmts f ! i"
  let ?oc = "statement cf ?st f base section ss"
  have ns: "dot_canon (st_kw ?st) \<noteq> Some ''.subckt''"
    using fs f i by (auto simp: file_system_def no_subckt_def list_all_length)
  have z: "ss_scope ss = 0" using r by (simp add: reading_def)
  consider "silent ss ?oc" | "takes_key cf f ss ?oc" | "?oc = Go (add_item (StmtItem ?st) ss)" | "?oc = Go (d_ends cf ?st ss)"
    using statement_cases [of ss cf ?st f base "section"] ns by blast
  then have "case ?oc of Go ss' \<Rightarrow> reading FS ss' \<and> dom (ss_expanded ss) \<subseteq> dom (ss_expanded ss')
    | Enter g sec ss' \<Rightarrow> g \<in> FS \<and> reading FS ss' \<and> dom (ss_expanded ss) \<subseteq> dom (ss_expanded ss') \<and>
        keys_left cf FS ss' < keys_left cf FS ss
    | Crash e \<Rightarrow> True"
  proof cases
    case 1
    then show ?thesis using r core_reading [of "the (outcome_state ?oc)" ss FS] by (cases ?oc) simp_all
  next
    case 2
    then show ?thesis using key_forward [OF fs r f] by blast
  next
    case 3
    then show ?thesis using r by (simp add: reading_def add_item_def Let_def)
  next
    case 4
    then show ?thesis using r z core_reading [OF ss_note_core] by (simp add: d_ends_def)
  qed
  then show ?thesis unfolding stmt statement_turn_def forward_def by (cases ?oc) simp_all
qed

lemma range_bound:
  assumes "file_system cf FS" "f \<in> FS"
  shows "snd (section_range f section) \<le> length (fl_stmts f)"
proof (cases "section")
  case (Some s)
  obtain path stmts where m: "f = mk_file path stmts" using assms by (auto simp: file_system_def)
  show ?thesis
  proof (cases "map_of (fl_sections f) s")
    case sec: (Some x)
    obtain a b c where x: "x = (a, b, c)" by (cases x)
    have "(s, a, b, c) \<in> set (fl_sections f)" using sec x by (auto dest: map_of_SomeD)
    then have "(a - 1, b) \<in> set (fl_skip f)" using file_index [of path stmts] m by (fastforce simp: index_ok_def)
    then have "b \<le> length (fl_stmts f)" using file_index [of path stmts] m by (fastforce simp: index_ok_def interval_ok_def)
    then show ?thesis using Some sec x by (simp add: section_range_def)
  qed (simp add: section_range_def Some)
qed (simp add: section_range_def)

definition returns :: "sp_file set \<Rightarrow> sp_state \<Rightarrow> run_result option \<Rightarrow> bool" where
  "returns FS ss r \<longleftrightarrow> (\<exists>x. r = Some x \<and> (case x of Inl e \<Rightarrow> True
     | Inr ss' \<Rightarrow> reading FS ss' \<and> dom (ss_expanded ss) \<subseteq> dom (ss_expanded ss')))"

lemma returns_mono: "returns FS ss' r \<Longrightarrow> dom (ss_expanded ss) \<subseteq> dom (ss_expanded ss') \<Longrightarrow> returns FS ss r"
  unfolding returns_def by (elim exE) (case_tac x; auto)

lemma run_returns:
  assumes "file_system cf FS"
  shows "reading FS ss \<Longrightarrow> f \<in> FS \<Longrightarrow> n \<le> length (fl_stmts f) \<Longrightarrow> returns FS ss (run_from cf f section i n ss)"
proof (induction "(keys_left cf FS ss, n - i)" arbitrary: f "section" i n ss
    rule: wf_induct_rule [OF wf_lex_prod [OF wf_less_than wf_less_than]])
  case (1 i n ss f sec)
  note ih = "1.hyps" and prems = "1.prems"
  show ?case
  proof (cases "n \<le> i")
    case True
    then show ?thesis using prems by (simp add: run_from.simps [of cf f sec i n ss] returns_def)
  next
    case False
    then have fw: "forward cf FS i ss (run_turn cf f sec i n ss)"
      using turn_forward [OF assms] prems by simp
    have step: "returns FS ss (run_from cf f sec j n ss')"
      if "i < j" "reading FS ss'" "dom (ss_expanded ss) \<subseteq> dom (ss_expanded ss')" for j ss'
    proof -
      have "keys_left cf FS ss' \<le> keys_left cf FS ss" using keys_left_mono [OF assms that(3)] .
      then have "((keys_left cf FS ss', n - j), (keys_left cf FS ss, n - i)) \<in> less_than <*lex*> less_than"
        using that(1) False by auto
      then have "returns FS ss' (run_from cf f sec j n ss')" using that(2) prems by (intro ih)
      then show ?thesis using that(3) by (rule returns_mono)
    qed
    show ?thesis
    proof (cases "run_turn cf f sec i n ss")
      case (Stop ss')
      then show ?thesis using fw False by (simp add: run_from.simps [of cf f sec i n ss] returns_def forward_def)
    next
      case (Jump j ss')
      then show ?thesis using fw False step by (simp add: run_from.simps [of cf f sec i n ss] forward_def)
    next
      case (Fails e)
      then show ?thesis using False by (simp add: run_from.simps [of cf f sec i n ss] returns_def)
    next
      case (Read g sec' ss')
      then have g: "g \<in> FS" "reading FS ss'" "dom (ss_expanded ss) \<subseteq> dom (ss_expanded ss')"
          "keys_left cf FS ss' < keys_left cf FS ss"
        using fw by (simp_all add: forward_def)
      let ?m = "run_from cf g sec' (fst (section_range g sec')) (snd (section_range g sec')) ss'"
      have "returns FS ss' ?m" using g range_bound [OF assms g(1)] by (intro ih) auto
      then obtain x where x: "?m = Some x" "case x of Inl e \<Rightarrow> True
          | Inr ss' \<Rightarrow> reading FS ss' \<and> dom (ss_expanded ss) \<subseteq> dom (ss_expanded ss')"
        using returns_mono [OF _ g(3)] unfolding returns_def by blast
      show ?thesis
      proof (cases x)
        case (Inl e)
        then show ?thesis using False Read x by (simp add: run_from.simps [of cf f sec i n ss] returns_def)
      next
        case (Inr ss2)
        then have "returns FS ss (run_from cf f sec (Suc i) n ss2)" using x by (intro step) auto
        then show ?thesis using False Read x Inr by (simp add: run_from.simps [of cf f sec i n ss])
      qed
    qed
  qed
qed

section \<open>Reading returns\<close>

lemma file_returns:
  "file_system cf FS \<Longrightarrow> reading FS ss \<Longrightarrow> f \<in> FS \<Longrightarrow> returns FS ss (run_file cf f section ss)"
  unfolding run_file_def by (rule run_returns) (simp_all add: range_bound)

text \<open>What is enough of a result to go on: it returns, and the state is one of the file system's.\<close>

definition goes_on :: "sp_file set \<Rightarrow> run_result option \<Rightarrow> bool" where
  "goes_on FS r = (case r of None \<Rightarrow> False | Some (Inl e) \<Rightarrow> True | Some (Inr ss) \<Rightarrow> reading FS ss)"

lemma goes_on_simps [simp]:
  "goes_on FS (Some (Inr ss)) = reading FS ss" "goes_on FS (Some (Inl e))" "\<not> goes_on FS None"
  by (simp_all add: goes_on_def)

lemma goes_on_then: "goes_on FS m \<Longrightarrow> (\<And>ss. reading FS ss \<Longrightarrow> goes_on FS (k ss)) \<Longrightarrow> goes_on FS (and_then m k)"
proof (cases m)
  case (Some x)
  assume "goes_on FS m" "\<And>ss. reading FS ss \<Longrightarrow> goes_on FS (k ss)"
  then show ?thesis using Some by (cases x) (simp_all add: and_then_def)
qed simp

lemma returns_goes: "returns FS ss r \<Longrightarrow> goes_on FS r"
  unfolding returns_def by (elim exE) (case_tac x; auto)

lemma file_goes_on:
  "file_system cf FS \<Longrightarrow> reading FS ss \<Longrightarrow> f \<in> FS \<Longrightarrow> goes_on FS (run_file cf f section ss)"
  using file_returns returns_goes by blast

lemma close_reading: "reading FS ss \<Longrightarrow> close_all w ss = ss"
  by (cases "length (ss_scopes ss)") (simp_all add: close_all_def reading_def)

lemma netlist_goes_on:
  assumes fs: "file_system cf FS" and r: "reading FS ss"
  shows "goes_on FS (read_netlist cf x ss)"
proof -
  obtain k p orig where x: "x = (k, p, orig)" by (cases x)
  obtain found ss1 where f: "resolve_ref cf p (origin_dir cf orig) orig ''netlist'' ss = (found, ss1)"
    by (cases "resolve_ref cf p (origin_dir cf orig) orig ''netlist'' ss")
  have r1: "reading FS ss1" using core_reading resolve_core [OF f] r by blast
  show ?thesis
  proof (cases found)
    case None
    then show ?thesis using x f r1 by (simp add: read_netlist_def)
  next
    case (Some path)
    let ?key = "(os_realpath (cf_os cf) path, None, 0)"
    show ?thesis
    proof (cases "ss_expanded ss1 ?key")
      case e: (Some o')
      then show ?thesis using x f Some r1 core_reading [OF ss_note_core] by (simp add: read_netlist_def Let_def)
    next
      case e: None
      let ?ss = "ss1\<lparr>ss_expanded := (ss_expanded ss1)(?key \<mapsto> path)\<rparr>"
      obtain g ss2 where l: "load_file cf path (k = 0) ?ss = (g, ss2)" by (cases "load_file cf path (k = 0) ?ss")
      have "reading FS ?ss" using r1 by (simp add: reading_def)
      moreover have "fresh_file cf path (k = 0) \<in> FS"
        using fs resolve_isfile [OF f [unfolded Some]] by (auto simp: file_system_def)
      ultimately have "g \<in> FS" "reading FS ss2" using load_reading [OF l] by blast+
      then have "goes_on FS (and_then (run_file cf g None ss2) (\<lambda>ss3. Some (Inr (close_all path ss3))))"
        using file_goes_on [OF fs] by (intro goes_on_then) (auto simp: close_reading)
      then show ?thesis using x f Some e l by (simp add: read_netlist_def Let_def)
    qed
  qed
qed

lemma netlists_go_on: "file_system cf FS \<Longrightarrow> reading FS ss \<Longrightarrow> goes_on FS (read_netlists cf xs ss)"
proof (induction xs arbitrary: ss)
  case (Cons x xs)
  then show ?case using netlist_goes_on [of cf FS ss x] by (auto intro: goes_on_then)
qed simp

lemma extra_goes_on:
  assumes fs: "file_system cf FS" and r: "reading FS ss"
    and e: "\<And>stmts ns. logical (cf_sp cf) extra = Inr (stmts, ns) \<Longrightarrow> mk_file [] stmts \<in> FS"
  shows "goes_on FS (read_extra cf extra ss)"
proof (cases "logical (cf_sp cf) extra")
  case (Inl er)
  then show ?thesis using r by (simp add: read_extra_def)
next
  case (Inr rr)
  obtain stmts ns where rr: "rr = (stmts, ns)" by (cases rr)
  let ?f = "mk_file [] stmts"
  let ?ss = "ss\<lparr>ss_notes := ss_notes ss @ ns @ fl_notes ?f\<rparr>"
  have "reading FS ?ss" using r by (simp add: reading_def)
  then have "goes_on FS (and_then (run_file cf ?f None ?ss) (\<lambda>ss'. Some (Inr (close_all (snd (hd extra)) ss'))))"
    using file_goes_on [OF fs _ e] Inr rr by (intro goes_on_then) (auto simp: close_reading)
  then show ?thesis using r Inr rr by (simp add: read_extra_def Let_def)
qed

text \<open>The fragment opens no subcircuit.\<close>

definition fragment_flat :: "sp_conf \<Rightarrow> phys \<Rightarrow> bool" where
  "fragment_flat cf extra = (case logical (cf_sp cf) extra of Inl _ \<Rightarrow> True | Inr (stmts, _) \<Rightarrow> no_subckt (mk_file [] stmts))"

lemma flat_read_returns:
  assumes fin: "finite {p. os_isfile (cf_os cf) p}"
    and flat: "\<And>p t. os_isfile (cf_os cf) p \<Longrightarrow> no_subckt (fresh_file cf (abspath (cf_os cf) p) t)"
    and extra: "fragment_flat cf extra"
  shows "\<exists>r. read_spice cf paths extra (sp_init cf search) = Some r"
proof -
  let ?P = "{p. os_isfile (cf_os cf) p}"
  let ?E = "case logical (cf_sp cf) extra of Inl _ \<Rightarrow> {} | Inr (stmts, _) \<Rightarrow> {mk_file [] stmts}"
  define FS where "FS = (\<lambda>(p, t). fresh_file cf (abspath (cf_os cf) p) t) ` (?P \<times> UNIV) \<union> ?E"
  have E: "finite ?E" "f \<in> ?E \<Longrightarrow> no_subckt f \<and> (\<exists>path stmts. f = mk_file path stmts)" for f
    using extra by (auto simp: fragment_flat_def split: sum.splits)
  have fs: "file_system cf FS"
    unfolding file_system_def
  proof (intro conjI allI impI ballI)
    show "finite FS" using fin E(1) by (simp add: FS_def)
    show "fresh_file cf (abspath (cf_os cf) p) t \<in> FS" if "os_isfile (cf_os cf) p" for p t
      using that by (auto simp: FS_def)
    show "no_subckt f" "\<exists>path stmts. f = mk_file path stmts" if "f \<in> FS" for f
      using that flat E(2) [of f] by (auto simp: FS_def fresh_file_def)
  qed (rule fin)
  have "reading FS (sp_init cf search)" by (simp add: reading_def sp_init_def)
  then have "goes_on FS (read_netlists cf (enumerate 0 paths) (sp_init cf search))" by (rule netlists_go_on [OF fs])
  then have "goes_on FS (read_spice cf paths extra (sp_init cf search))"
    unfolding read_spice_def
    by (rule goes_on_then) (rule extra_goes_on [OF fs], auto simp: FS_def)
  then show ?thesis by (cases "read_spice cf paths extra (sp_init cf search)") simp_all
qed

end
