(* ===== verification/SpiceLoop.thy ===== *)
theory SpiceLoop
  imports SpiceReturn
begin

text \<open>
  A file that includes itself inside a subcircuit. The guard takes the scope into account, and every
  reading of the file opens a new one, so the file is read again and again: \<open>run\<close> has no value.
\<close>

section \<open>The file\<close>

definition LOOP_PATH :: string where "LOOP_PATH = ''/n.sp''"

definition LOOP_TEXT :: string where
  "LOOP_TEXT = ''t'' @ [CHR ''\<newline>''] @ ''.subckt s'' @ [CHR ''\<newline>''] @ ''.include /n.sp''"

definition loop_stmts :: "sp_stmt list" where
  "loop_stmts = [mk_stmt ''t'' ''/n.sp:1'', mk_stmt ''.subckt s'' ''/n.sp:2'', mk_stmt ''.include /n.sp'' ''/n.sp:3'']"

definition loop_file :: "bool \<Rightarrow> sp_file" where
  "loop_file title = \<lparr>fl_path = LOOP_PATH, fl_stmts = (if title then tl loop_stmts else loop_stmts), fl_sections = [],
     fl_skip = [], fl_notes = []\<rparr>"

lemma loop_kws:
  "mk_stmt ''t'' o' = \<lparr>st_text = ''t'', st_origin = o', st_kw = ''t''\<rparr>"
  "mk_stmt ''.subckt s'' o' = \<lparr>st_text = ''.subckt s'', st_origin = o', st_kw = ''.subckt''\<rparr>"
  "mk_stmt ''.include /n.sp'' o' = \<lparr>st_text = ''.include /n.sp'', st_origin = o', st_kw = ''.include''\<rparr>"
  by (simp_all add: mk_stmt_def, code_simp+)

lemma loop_lines:
  "text_stmts LOOP_PATH True LOOP_TEXT = (tl loop_stmts, [])"
  "text_stmts LOOP_PATH False LOOP_TEXT = (loop_stmts, [])"
  by code_simp+

lemma loop_files: "mk_file LOOP_PATH (tl loop_stmts) = loop_file True" "mk_file LOOP_PATH loop_stmts = loop_file False"
  by code_simp+

text \<open>An environment in which the file exists. Nothing else of it matters.\<close>

definition loop_env :: "sp_conf \<Rightarrow> bool" where
  "loop_env cf \<longleftrightarrow> \<not> cf_sp cf \<and> os_isfile (cf_os cf) LOOP_PATH \<and> os_open (cf_os cf) LOOP_PATH = Inr LOOP_TEXT \<and>
     os_expanduser (cf_os cf) LOOP_PATH = LOOP_PATH"

lemma fresh_loop: "loop_env cf \<Longrightarrow> fresh_file cf LOOP_PATH t = loop_file t"
  by (cases t) (simp_all add: fresh_file_def loop_env_def loop_lines loop_files)

section \<open>The states in the loop\<close>

definition loop_key :: "sp_conf \<Rightarrow> nat \<Rightarrow> string \<times> string option \<times> nat" where
  "loop_key cf c = (os_realpath (cf_os cf) LOOP_PATH, None, c)"

definition looping :: "sp_conf \<Rightarrow> sp_state \<Rightarrow> bool" where
  "looping cf ss \<longleftrightarrow> ss_scope ss < length (ss_scopes ss) \<and> ss_files ss LOOP_PATH \<in> {None, Some (loop_file False)} \<and>
     (\<forall>c \<ge> length (ss_scopes ss). ss_expanded ss (loop_key cf c) = None)"

definition stuck :: "sp_conf \<Rightarrow> sp_file \<Rightarrow> nat \<Rightarrow> nat \<Rightarrow> sp_state \<Rightarrow> bool" where
  "stuck cf f i n ss \<longleftrightarrow> looping cf ss \<and> (\<exists>t. f = loop_file t \<and> n = length (fl_stmts f) \<and>
     (let k = i + (if t then 1 else 0) in
      k < 2 \<or> (k = 2 \<and> ss_expanded ss (loop_key cf (ss_scope ss)) = None)))"

lemma stmt_turn:
  assumes "i + (if t then 1 else 0) = k" "k < 3"
  shows "run_turn cf (loop_file t) None i n ss =
    (case statement cf (loop_stmts ! k) (loop_file t) (Some ''/'') None ss of
       Go ss' \<Rightarrow> Jump (Suc i) ss' | Enter g sec ss' \<Rightarrow> Read g sec ss' | Crash e \<Rightarrow> Fails e)"
proof -
  have n: "fl_stmts (loop_file t) ! i = loop_stmts ! k"
    using assms by (cases t) (auto simp: loop_file_def nth_tl loop_stmts_def)
  have kw: "st_kw (loop_stmts ! k) \<in> {''t'', ''.subckt'', ''.include''}"
    using assms(2) by (auto simp: loop_stmts_def loop_kws less_Suc_eq numeral_3_eq_3)
  have dots: "dot_canon ''t'' = None" "dot_canon ''.subckt'' = Some ''.subckt''" "dot_canon ''.include'' = Some ''.inc''"
    by (simp_all add: dot_canon_def DOT_def)
  have p: "fl_path (loop_file t) \<noteq> []" "dirname (fl_path (loop_file t)) = ''/''"
    by (simp_all add: loop_file_def LOOP_PATH_def, code_simp)
  have s: "fl_skip (loop_file t) = []" by (simp add: loop_file_def)
  show ?thesis using kw dots by (auto simp: run_turn_def Let_def n p s)
qed

lemma turn_first:
  assumes "loop_env cf" "looping cf ss"
  shows "\<exists>ss'. run_turn cf (loop_file False) None 0 n ss = Jump 1 ss' \<and> looping cf ss'"
proof -
  have "statement cf (loop_stmts ! 0) f b s ss = Go (add_item (StmtItem (loop_stmts ! 0)) ss)" for f b s
    by (simp add: statement_def Let_def loop_stmts_def loop_kws)
  moreover have "looping cf (add_item it ss)" for it
    using assms(2) by (auto simp: looping_def add_item_def Let_def)
  ultimately show ?thesis using stmt_turn [of 0 False 0 cf n ss] by simp
qed

lemma turn_subckt:
  assumes "loop_env cf" "looping cf ss" "i + (if t then 1 else 0) = 1"
  shows "\<exists>ss'. run_turn cf (loop_file t) None i n ss = Jump (Suc i) ss' \<and> looping cf ss' \<and>
    ss_expanded ss' (loop_key cf (ss_scope ss')) = None"
proof -
  let ?st = "loop_stmts ! 1"
  have "statement cf ?st f b s ss = Go (d_subckt cf ?st ss)" for f b s
    using assms(1) by (simp add: statement_def loop_stmts_def loop_kws dot_canon_def DOT_def loop_env_def CONTROLS_TOP_ONLY_def)
  moreover have "looping cf (d_subckt cf ?st ss) \<and>
      ss_expanded (d_subckt cf ?st ss) (loop_key cf (ss_scope (d_subckt cf ?st ss))) = None"
    using assms(2) by (auto simp: looping_def d_subckt_def Let_def add_item_def spell_def ss_note_def split: prod.splits if_splits)
  ultimately show ?thesis using stmt_turn [OF assms(3), of cf n ss] by simp
qed

lemma loop_path:
  assumes "loop_env cf"
  shows "resolve_ref cf LOOP_PATH base orig what ss = (Some LOOP_PATH, ss)"
proof -
  have e: "expandvars env LOOP_PATH = LOOP_PATH" for env by (simp add: LOOP_PATH_def expandvars.simps)
  have a: "isabs LOOP_PATH" "normpath LOOP_PATH = LOOP_PATH" by code_simp+
  have "candidates cf (ss_search ss) LOOP_PATH base = [LOOP_PATH]"
    using assms by (simp add: candidates_def e a loop_env_def once_each_def)
  then show ?thesis using assms by (simp add: resolve_ref_def loop_env_def abspath_def a)
qed

lemma turn_include:
  assumes "loop_env cf" "looping cf ss" "i + (if t then 1 else 0) = 2" "ss_expanded ss (loop_key cf (ss_scope ss)) = None"
  shows "\<exists>ss'. run_turn cf (loop_file t) None i n ss = Read (loop_file False) None ss' \<and> looping cf ss'"
proof -
  let ?st = "loop_stmts ! 2"
  have st: "?st = \<lparr>st_text = ''.include /n.sp'', st_origin = ''/n.sp:3'', st_kw = ''.include''\<rparr>"
    by (simp add: loop_stmts_def loop_kws)
  have args: "path_args (drop 8 ''.include /n.sp'') = Inr [LOOP_PATH]" by code_simp
  let ?ss = "ss\<lparr>ss_expanded := (ss_expanded ss)(loop_key cf (ss_scope ss) \<mapsto> ''/n.sp:3'')\<rparr>"
  obtain g ss' where l: "load_file cf LOOP_PATH False ?ss = (g, ss')" by (cases "load_file cf LOOP_PATH False ?ss")
  have g: "g = loop_file False \<and> looping cf ss'"
    using l
  proof (rule load_fileE)
    assume d: "g = fresh_file cf LOOP_PATH False \<or> ss_files ?ss (file_key LOOP_PATH False) = Some g"
      and s: "ss_scopes ss' = ss_scopes ?ss" "ss_scope ss' = ss_scope ?ss" "ss_expanded ss' = ss_expanded ?ss"
        "ss_files ss' = (ss_files ?ss)(file_key LOOP_PATH False \<mapsto> g)"
    have "g = loop_file False"
      using d assms(2) by (auto simp: fresh_loop [OF assms(1)] file_key_def looping_def)
    then show ?thesis using s assms(2) by (auto simp: looping_def file_key_def loop_key_def)
  qed
  have "statement cf ?st f b s ss = d_include cf ?st b ss" for f b s
    using assms(1) by (simp add: statement_def st dot_canon_def DOT_def loop_env_def CONTROLS_TOP_ONLY_def)
  moreover have "d_include cf ?st b ss = Enter g None ss'" for b
    using args l loop_path [OF assms(1)] assms(4)
    by (simp add: d_include_def with_args_def st expand_file_def Let_def loop_key_def)
  ultimately show ?thesis using stmt_turn [OF assms(3), of cf n ss] g by simp
qed

lemma stuck_turn:
  assumes "loop_env cf" "stuck cf f i n ss"
  shows "i < n \<and> ((\<exists>j ss'. run_turn cf f None i n ss = Jump j ss' \<and> stuck cf f j n ss') \<or>
     (\<exists>g ss'. run_turn cf f None i n ss = Read g None ss' \<and> stuck cf g 0 (length (fl_stmts g)) ss'))"
proof -
  obtain t where t: "f = loop_file t" "n = length (fl_stmts f)" and l: "looping cf ss"
    and k: "i + (if t then 1 else 0) < 2 \<or> (i + (if t then 1 else 0) = 2 \<and> ss_expanded ss (loop_key cf (ss_scope ss)) = None)"
    using assms(2) by (auto simp: stuck_def Let_def)
  have len: "n = (if t then 2 else 3)" using t by (simp add: loop_file_def loop_stmts_def)
  consider (a) "i = 0" "\<not> t" | (b) "i + (if t then 1 else 0) = 1" | (c) "i + (if t then 1 else 0) = 2" "ss_expanded ss (loop_key cf (ss_scope ss)) = None"
    using k by (cases t) (auto simp: less_2_cases_iff)
  then show ?thesis
  proof cases
    case a
    then show ?thesis using turn_first [OF assms(1) l, of n] t len by (auto simp: stuck_def)
  next
    case b
    then show ?thesis using turn_subckt [OF assms(1) l b, of n] t len by (auto simp: stuck_def split: if_splits)
  next
    case c
    then have "i < n" using len by (cases t) auto
    then show ?thesis using turn_include [OF assms(1) l c, of n] t by (auto simp: stuck_def intro!: exI [of _ False])
  qed
qed

lemma stuck_none: "run_from cf f sec i n ss = Some r \<Longrightarrow> sec = None \<longrightarrow> loop_env cf \<longrightarrow> \<not> stuck cf f i n ss"
proof (rule run_from.raw_induct
      [where P = "\<lambda>cf f sec i n ss r. sec = None \<longrightarrow> loop_env cf \<longrightarrow> \<not> stuck cf f i n ss"])
    fix run cf f i n ss r and sec :: "string option"
    assume ih: "\<And>cf f sec i n ss r. run cf f sec i n ss = Some r \<Longrightarrow> sec = None \<longrightarrow> loop_env cf \<longrightarrow> \<not> stuck cf f i n ss"
      and eq: "(if n \<le> i then Some (Inr ss)
          else case run_turn cf f sec i n ss of
            Stop ss' \<Rightarrow> Some (Inr ss')
          | Jump j ss' \<Rightarrow> run cf f sec j n ss'
          | Read g sec' ss' \<Rightarrow>
              Option.bind (run cf g sec' (fst (section_range g sec')) (snd (section_range g sec')) ss')
                (\<lambda>r. case r of Inl e \<Rightarrow> Some (Inl e) | Inr ss'' \<Rightarrow> run cf f sec (Suc i) n ss'')
          | Fails e \<Rightarrow> Some (Inl e)) = Some r"
    show "sec = None \<longrightarrow> loop_env cf \<longrightarrow> \<not> stuck cf f i n ss"
    proof (intro impI notI)
      assume s: "sec = None" and env: "loop_env cf" and "stuck cf f i n ss"
      then have t: "i < n \<and> ((\<exists>j ss'. run_turn cf f None i n ss = Jump j ss' \<and> stuck cf f j n ss') \<or>
          (\<exists>g ss'. run_turn cf f None i n ss = Read g None ss' \<and> stuck cf g 0 (length (fl_stmts g)) ss'))"
        by (intro stuck_turn)
      then consider j ss' where "run_turn cf f None i n ss = Jump j ss'" "stuck cf f j n ss'"
        | g ss' where "run_turn cf f None i n ss = Read g None ss'" "stuck cf g 0 (length (fl_stmts g)) ss'"
        by blast
      then show False
      proof cases
        case 1
        then have "run cf f sec j n ss' = Some r" using eq s t by simp
        then show False using ih 1 s env by blast
      next
        case 2
        then obtain x where "run cf g None 0 (length (fl_stmts g)) ss' = Some x"
          using eq s t by (cases "run cf g None 0 (length (fl_stmts g)) ss'") (auto simp: section_range_def)
        then show False using ih 2 env by blast
      qed
    qed
qed

lemma stuck_runs: "loop_env cf \<Longrightarrow> stuck cf f i n ss \<Longrightarrow> run_from cf f None i n ss = None"
  using stuck_none [of cf f None i n ss] by (cases "run_from cf f None i n ss") simp_all

lemma loop_never_returns:
  assumes "loop_env cf"
  shows "read_spice cf ((LOOP_PATH, orig) # paths) extra (sp_init cf search) = None"
proof -
  let ?s0 = "sp_init cf search"
  let ?key = "(os_realpath (cf_os cf) LOOP_PATH, None, 0)"
  let ?ss = "?s0\<lparr>ss_expanded := (ss_expanded ?s0)(?key \<mapsto> LOOP_PATH)\<rparr>"
  obtain g ss1 where l: "load_file cf LOOP_PATH True ?ss = (g, ss1)" by (cases "load_file cf LOOP_PATH True ?ss")
  have "stuck cf g 0 (length (fl_stmts g)) ss1"
    using l
  proof (rule load_fileE)
    assume d: "g = fresh_file cf LOOP_PATH True \<or> ss_files ?ss (file_key LOOP_PATH True) = Some g"
      and s: "ss_scopes ss1 = ss_scopes ?ss" "ss_scope ss1 = ss_scope ?ss" "ss_expanded ss1 = ss_expanded ?ss"
        "ss_files ss1 = (ss_files ?ss)(file_key LOOP_PATH True \<mapsto> g)"
    have "g = loop_file True" using d by (simp add: fresh_loop [OF assms] sp_init_def)
    moreover have "looping cf ss1" using s by (auto simp: looping_def sp_init_def file_key_def loop_key_def)
    ultimately show ?thesis by (auto simp: stuck_def intro!: exI [of _ True])
  qed
  then have "run_file cf g None ss1 = None"
    using stuck_runs [OF assms] by (simp add: run_file_def section_range_def)
  moreover have "ss_expanded ?s0 = (\<lambda>_. None)" by (simp add: sp_init_def)
  ultimately have "read_netlist cf (0, LOOP_PATH, orig) ?s0 = None"
    using loop_path [OF assms] l by (simp add: read_netlist_def Let_def and_then_def)
  then show ?thesis by (simp add: read_spice_def and_then_def)
qed

end
