(* ===== verification/VaPreProps.thy ===== *)
theory VaPreProps
  imports VaPre
begin

text \<open>
  The preprocessor against a reference: a text as a tree of plain lines, definitions and conditionals
  with their branches, where the lines that count are those of the first branch whose condition holds.
\<close>

section \<open>Structured texts\<close>

datatype va_block =
    Plain string
  | Def string
  | Undef string
  | Branch bool string "va_block list" va_arms
and va_arms =
    NoElse
  | Else "va_block list"
  | Elsif string "va_block list" va_arms

fun render :: "va_block \<Rightarrow> string list"
  and renders :: "va_block list \<Rightarrow> string list"
  and render_arms :: "va_arms \<Rightarrow> string list" where
  "render (Plain l) = [l]"
| "render (Def r) = [''`define'' @ r]"
| "render (Undef n) = [''`undef '' @ n]"
| "render (Branch pos n bs arms) = ((if pos then ''`ifdef '' else ''`ifndef '') @ n) # renders bs @ render_arms arms"
| "renders [] = []"
| "renders (b # bs) = render b @ renders bs"
| "render_arms NoElse = [''`endif'']"
| "render_arms (Else bs) = ''`else'' # renders bs @ [''`endif'']"
| "render_arms (Elsif n bs arms) = (''`elsif '' @ n) # renders bs @ render_arms arms"

text \<open>The names are words; a definition is one line.\<close>

definition good_name :: "string \<Rightarrow> bool" where
  "good_name n \<longleftrightarrow> n \<noteq> [] \<and> list_all (\<lambda>c. \<not> re_space c) n"

fun good_block :: "va_block \<Rightarrow> bool"
  and good_blocks :: "va_block list \<Rightarrow> bool"
  and good_arms :: "va_arms \<Rightarrow> bool" where
  "good_block (Plain l) \<longleftrightarrow> va_directive l = None"
| "good_block (Def r) \<longleftrightarrow> r \<noteq> [] \<and> hd r = CHR '' '' \<and> \<not> py_endswith (py_rstrip r) [backslash]"
| "good_block (Undef n) \<longleftrightarrow> good_name n"
| "good_block (Branch pos n bs arms) \<longleftrightarrow> good_name n \<and> good_blocks bs \<and> good_arms arms"
| "good_blocks [] \<longleftrightarrow> True"
| "good_blocks (b # bs) \<longleftrightarrow> good_block b \<and> good_blocks bs"
| "good_arms NoElse \<longleftrightarrow> True"
| "good_arms (Else bs) \<longleftrightarrow> good_blocks bs"
| "good_arms (Elsif n bs arms) \<longleftrightarrow> good_name n \<and> good_blocks bs \<and> good_arms arms"

text \<open>The reference: what a block does to the macros and the text.\<close>

fun run :: "string \<Rightarrow> va_block \<Rightarrow> va_state \<Rightarrow> va_state"
  and runs :: "string \<Rightarrow> va_block list \<Rightarrow> va_state \<Rightarrow> va_state"
  and run_arms :: "string \<Rightarrow> va_arms \<Rightarrow> va_state \<Rightarrow> va_state" where
  "run path (Plain l) st = st\<lparr>va_out := va_out st @ [l]\<rparr>"
| "run path (Def r) st = va_define r path st"
| "run path (Undef n) st = st\<lparr>va_macros := (va_macros st)(n := None)\<rparr>"
| "run path (Branch pos n bs arms) st =
     (if (n \<in> dom (va_macros st)) = pos then runs path bs st else run_arms path arms st)"
| "runs path [] st = st"
| "runs path (b # bs) st = runs path bs (run path b st)"
| "run_arms path NoElse st = st"
| "run_arms path (Else bs) st = runs path bs st"
| "run_arms path (Elsif n bs arms) st =
     (if n \<in> dom (va_macros st) then runs path bs st else run_arms path arms st)"

section \<open>Directives\<close>

lemma space_not_word: "\<not> word_char CHR '' ''"
  by (simp add: word_char_def char_simps)

lemma directive_words: "list_all (list_all word_char) VA_DIRECTIVES"
  by code_simp

lemma directive:
  assumes "w \<in> set VA_DIRECTIVES" "r = [] \<or> hd r = CHR '' ''"
  shows "va_directive (backtick # w @ r) = Some (w, r)"
proof -
  have w: "\<forall>c \<in> set w. word_char c"
    using assms(1) directive_words by (auto simp: list_all_iff)
  then have "py_span word_char (w @ r) = (w, r)"
    using assms(2) space_not_word by (intro py_span_append) auto
  then show ?thesis using assms(1) by (simp add: va_directive_def backtick_def re_space_def code_in_def)
qed

lemma first_word_name:
  assumes "good_name n"
  shows "first_word (CHR '' '' # n) = n"
proof -
  have "dropWhile re_space (CHR '' '' # n) = n"
    using assms by (cases n) (auto simp: good_name_def re_space_def code_in_def)
  moreover have "takeWhile (\<lambda>c. \<not> re_space c) n = n"
    using assms by (auto simp: good_name_def takeWhile_eq_all_conv list_all_iff)
  moreover have "n \<noteq> []" using assms by (simp add: good_name_def)
  ultimately show ?thesis
    unfolding first_word_def by (subst py_words.simps) (simp add: Let_def)
qed

lemma directives:
  "va_directive (CHR 0x60 # ''ifdef '' @ n) = Some (''ifdef'', CHR '' '' # n)"
  "va_directive (CHR 0x60 # ''ifndef '' @ n) = Some (''ifndef'', CHR '' '' # n)"
  "va_directive (CHR 0x60 # ''elsif '' @ n) = Some (''elsif'', CHR '' '' # n)"
  "va_directive (CHR 0x60 # ''undef '' @ n) = Some (''undef'', CHR '' '' # n)"
  "va_directive ''`else'' = Some (''else'', [])"
  "va_directive ''`endif'' = Some (''endif'', [])"
  using directive [of "''ifdef''" "CHR '' '' # n"] directive [of "''ifndef''" "CHR '' '' # n"]
    directive [of "''elsif''" "CHR '' '' # n"] directive [of "''undef''" "CHR '' '' # n"]
    directive [of "''else''" "[]"] directive [of "''endif''" "[]"]
  by (simp_all add: VA_DIRECTIVES_def backtick_def)

lemma directive_define: "r \<noteq> [] \<Longrightarrow> hd r = CHR '' '' \<Longrightarrow> va_directive (''`define'' @ r) = Some (''define'', r)"
  using directive [of "''define''" r] by (simp add: VA_DIRECTIVES_def backtick_def)

lemma define_text_one: "\<not> py_endswith (py_rstrip r) [backslash] \<Longrightarrow> define_text r ls = (r, ls)"
  by (cases ls) simp_all

lemmas line_simps = va_lines.simps(2) directives [simplified] first_word_name va_cond_def Let_def

lemma active_Cons [simp]: "active ((a, t) # cond) \<longleftrightarrow> a \<and> active cond"
  by (simp add: active_def)

section \<open>The lines of a structured text\<close>

text \<open>Lines in a branch that is not taken, and the branches after the one that is.\<close>

lemma skipped:
  shows "good_block b \<Longrightarrow> \<not> active cond \<Longrightarrow>
      va_lines os search path depth (render b @ rest) cond st = va_lines os search path depth rest cond st"
    and "good_blocks bs \<Longrightarrow> \<not> active cond \<Longrightarrow>
      va_lines os search path depth (renders bs @ rest) cond st = va_lines os search path depth rest cond st"
    and "good_arms arms \<Longrightarrow> t \<or> \<not> active cond \<Longrightarrow>
      va_lines os search path depth (render_arms arms @ rest) ((a, t) # cond) st = va_lines os search path depth rest cond st"
proof (induction b and bs and arms arbitrary: cond rest and cond rest and cond rest a t
    rule: render_renders_render_arms.induct)
  case (2 r)
  then show ?case by (simp add: line_simps directive_define [simplified])
qed (auto simp: line_simps)

lemma taken:
  shows "good_block b \<Longrightarrow> active cond \<Longrightarrow>
      va_lines os search path depth (render b @ rest) cond st = va_lines os search path depth rest cond (run path b st)"
    and "good_blocks bs \<Longrightarrow> active cond \<Longrightarrow>
      va_lines os search path depth (renders bs @ rest) cond st = va_lines os search path depth rest cond (runs path bs st)"
    and "good_arms arms \<Longrightarrow> active cond \<Longrightarrow>
      va_lines os search path depth (render_arms arms @ rest) ((a, False) # cond) st =
      va_lines os search path depth rest cond (run_arms path arms st)"
proof (induction b and bs and arms arbitrary: cond rest st and cond rest st and cond rest a st
    rule: render_renders_render_arms.induct)
  case (2 r)
  then show ?case by (simp add: line_simps directive_define [simplified] define_text_one)
qed (auto simp: line_simps skipped)

lemma lines_of_blocks:
  "good_blocks bs \<Longrightarrow> va_lines os search path depth (renders bs) [] st = runs path bs st"
  using taken(2) [of bs "[]" os search path depth "[]" st] by (simp add: va_lines.simps(1) active_def)

section \<open>Files\<close>

text \<open>No file is read twice, and a text that was read stays.\<close>

lemma va_open_files:
  "distinct (va_files st) \<Longrightarrow> va_open os p st = (r, st') \<Longrightarrow>
   distinct (va_files st') \<and> set (va_files st) \<subseteq> set (va_files st')"
  by (auto simp: va_open_def va_trouble_add_def Let_def split: if_splits sum.splits)

lemma va_include_files:
  "distinct (va_files st) \<Longrightarrow> va_include os search path depth rest st = (r, st') \<Longrightarrow>
   distinct (va_files st') \<and> set (va_files st) \<subseteq> set (va_files st')"
  by (auto simp: va_include_def va_trouble_add_def Let_def va_open_files split: option.splits if_splits)

lemma va_cond_files: "va_cond what rest path cond st = (c, st') \<Longrightarrow> va_files st' = va_files st"
  by (auto simp: va_cond_def va_trouble_add_def Let_def split: list.splits if_splits)

lemma va_define_files: "va_files (va_define r path st) = va_files st"
  by (auto simp: va_define_def va_trouble_add_def split: option.splits list.splits)

end
