(* ===== verification/SpiceProps.thy ===== *)
theory SpiceProps
  imports SpiceLoop VaPreProps
begin

text \<open>
  The properties of the HSPICE reader: statements, fields, the preprocessor of Verilog-A, scopes, and when
  reading returns.
\<close>

declare run_from.simps [code]

section \<open>Statements and fields\<close>

text \<open>C34: A netlist that is written one statement after the other, each broken over continuation lines between
  its fields, with comments and blank lines anywhere, is read without a note as these statements: the
  fields of each are the fields that were written, and its origin is that of its first line.\<close>

theorem continuations_round_trip:
  assumes "list_all (\<lambda>l. good_line (fst l)) ls" "starts ls"
  shows "\<exists>ss. logical False (map (apfst write_line) ls) = Inr (ss, []) \<and>
    map (\<lambda>s. (lex_fields (st_text s), st_origin s)) ss = map (\<lambda>(fs, orig). (Inr fs, orig)) (statements ls)"
proof -
  have "list_all (good_line \<circ> fst) ls" using assms(1) by (simp add: comp_def)
  then obtain ss where l: "logical False (map (apfst write_line) ls) = Inr (ss, [])" "list_all2 stands ss (statements ls)"
    using written_lines_read assms(2) by blast
  from l(2) have "map (\<lambda>s. (lex_fields (st_text s), st_origin s)) ss = map (\<lambda>(fs, orig). (Inr fs, orig)) (statements ls)"
    by (induction rule: list_all2_induct) (simp_all add: stands_read split_beta)
  then show ?thesis using l(1) by blast
qed

definition written_example :: "(out_line \<times> string) list" where
  "written_example =
    [(Filler ''* title'', ''f:1''), (Start [(None, ''r1''), (None, ''a''), (None, ''b'')], ''f:2''),
     (Filler ''  '', ''f:3''), (More [(Some ''r'', CHR 0x27 # ''2 * x; $'' @ [CHR 0x27])], ''f:4''),
     (Start [(None, ''.ends'')], ''f:5'')]"

theorem continuations_round_trip_witness:
  "list_all (\<lambda>l. good_line (fst l)) written_example \<and> starts written_example \<and>
   (\<exists>ss. logical False (map (apfst write_line) written_example) = Inr (ss, []) \<and>
    map (\<lambda>s. (lex_fields (st_text s), st_origin s)) ss = map (\<lambda>(fs, orig). (Inr fs, orig)) (statements written_example))"
proof -
  have h: "list_all (\<lambda>l. good_line (fst l)) written_example" "starts written_example" by code_simp+
  then show ?thesis using continuations_round_trip [OF h] by blast
qed





section \<open>The Verilog-A preprocessor\<close>

definition empty_os :: os_env where
  "empty_os = \<lparr>os_realpath = (\<lambda>p. p), os_isfile = (\<lambda>_. False), os_open = (\<lambda>_. Inl ''no file''), os_expanduser = (\<lambda>p. p), os_getcwd = ''/''\<rparr>"

text \<open>C37: The lines of a text of plain lines, definitions and nested conditionals do to the macros and the
  output what the reference does: of each conditional only the first branch counts whose name is defined
  (or, for \<open>ifndef\<close>, is not) at that point, and otherwise the \<open>else\<close> branch.\<close>

theorem preprocessor_selects:
  assumes "good_blocks bs"
  shows "va_lines os search path depth (renders bs) [] st = runs path bs st"
  using assms by (rule lines_of_blocks)

theorem preprocessor_selects_witness:
  "good_blocks [Def '' A 1'', Branch True ''B'' [Plain ''x''] (Elsif ''A'' [Plain ''y'', Branch False ''A'' [Plain ''u''] NoElse] (Else [Plain ''z'']))] \<and>
   va_out (va_lines empty_os [] ''f'' 0
     (renders [Def '' A 1'', Branch True ''B'' [Plain ''x''] (Elsif ''A'' [Plain ''y'', Branch False ''A'' [Plain ''u''] NoElse] (Else [Plain ''z'']))])
     [] (va_init [])) = [''y'']"
  (is "?G \<and> va_out ?L = ?o")
proof -
  have g: ?G by code_simp
  have "va_out (runs ''f'' [Def '' A 1'', Branch True ''B'' [Plain ''x''] (Elsif ''A'' [Plain ''y'', Branch False ''A'' [Plain ''u''] NoElse] (Else [Plain ''z'']))]
     (va_init [])) = [''y'']"
    by (simp add: va_define_def va_init_def va_ident_def re_space_def code_in_def name_start_def ascii_letter_def
        dollar_char_def name_char_def re_digit_def)
  then show ?thesis using g preprocessor_selects [OF g, of empty_os "[]" "''f''" 0 "va_init []"] by simp
qed

section \<open>Scopes and termination\<close>

text \<open>C38: Whatever netlists and fragment are read: when reading returns, every subcircuit is closed, every scope
  but the top one has a parent that was opened before it, and the scopes among the items of a scope are its
  children in the order in which they were opened.\<close>

theorem scopes_form_a_tree:
  assumes "read_spice cf paths extra (sp_init cf search) = Some (Inr ss)"
  shows "ss_scope ss = 0 \<and> scope_list_ok (ss_scopes ss)"
  using read_spice_top [OF assms] by (simp add: at_top_def scope_tree_def)

definition conf_of :: "os_env \<Rightarrow> sp_conf" where
  "conf_of os = \<lparr>cf_os = os, cf_isdir = (\<lambda>_. False), cf_environ = (\<lambda>_. None), cf_cwd = ''/'', cf_case = ''lower'', cf_sp = False\<rparr>"

definition open_lines :: phys where
  "open_lines = [(''.subckt s a'', ''f:1''), (''r1 a 0 1k'', ''f:2''), (''.subckt t b'', ''f:3''), (''.ends'', ''f:4'')]"

theorem scopes_form_a_tree_witness:
  "\<exists>ss. read_spice (conf_of empty_os) [] open_lines (sp_init (conf_of empty_os) []) = Some (Inr ss) \<and>
     ss_scope ss = 0 \<and> scope_list_ok (ss_scopes ss)"
proof -
  have "case read_spice (conf_of empty_os) [] open_lines (sp_init (conf_of empty_os) []) of Some (Inr _) \<Rightarrow> True | _ \<Rightarrow> False"
    by code_simp
  then obtain ss where "read_spice (conf_of empty_os) [] open_lines (sp_init (conf_of empty_os) []) = Some (Inr ss)"
    by (auto split: option.splits sum.splits)
  then show ?thesis using scopes_form_a_tree by blast
qed

text \<open>C39: Where the file system is finite and no file and no line of the fragment opens a subcircuit, reading
  returns, however the files include each other: no file or section is read twice.\<close>

theorem flat_netlists_return:
  assumes "finite {p. os_isfile (cf_os cf) p}"
    and "\<And>p title. os_isfile (cf_os cf) p \<Longrightarrow> no_subckt (fresh_file cf (abspath (cf_os cf) p) title)"
    and "fragment_flat cf extra"
  shows "\<exists>r. read_spice cf paths extra (sp_init cf search) = Some r"
  using assms by (rule flat_read_returns)

definition ring_os :: os_env where
  "ring_os = \<lparr>os_realpath = (\<lambda>p. p), os_isfile = (\<lambda>p. p = ''/a'' \<or> p = ''/b''),
     os_open = (\<lambda>p. if p = ''/a'' then Inr (''t'' @ CHR ''\<newline>'' # ''.include b'') else Inr ''.include a''),
     os_expanduser = (\<lambda>p. p), os_getcwd = ''/''\<rparr>"

theorem flat_netlists_return_witness:
  "finite {p. os_isfile ring_os p} \<and> (\<exists>r. read_spice (conf_of ring_os) [(''a'', ''x:1'')] [] (sp_init (conf_of ring_os) []) = Some r)"
proof -
  have s: "{p. os_isfile ring_os p} = {''/a'', ''/b''}" by (auto simp: ring_os_def)
  have f: "no_subckt (fresh_file (conf_of ring_os) (abspath ring_os ''/a'') True)"
    "no_subckt (fresh_file (conf_of ring_os) (abspath ring_os ''/a'') False)"
    "no_subckt (fresh_file (conf_of ring_os) (abspath ring_os ''/b'') True)"
    "no_subckt (fresh_file (conf_of ring_os) (abspath ring_os ''/b'') False)"
    by code_simp+
  have c: "cf_os (conf_of ring_os) = ring_os" by (simp add: conf_of_def)
  have e: "fragment_flat (conf_of ring_os) []" by code_simp
  have h: "no_subckt (fresh_file (conf_of ring_os) (abspath ring_os p) t)" if "os_isfile ring_os p" for p t
  proof -
    have "p = ''/a'' \<or> p = ''/b''" using that by (simp add: ring_os_def)
    then show ?thesis
    proof
      assume "p = ''/a''" then show ?thesis using f(1,2) by (cases t) (simp_all only:)
    next
      assume "p = ''/b''" then show ?thesis using f(3,4) by (cases t) (simp_all only:)
    qed
  qed
  have n: "finite {p. os_isfile ring_os p}" by (simp only: s finite.intros)
  have "\<exists>r. read_spice (conf_of ring_os) [(''a'', ''x:1'')] [] (sp_init (conf_of ring_os) []) = Some r"
  proof (rule flat_netlists_return)
    show "finite {p. os_isfile (cf_os (conf_of ring_os)) p}" unfolding c by (rule n)
    show "no_subckt (fresh_file (conf_of ring_os) (abspath (cf_os (conf_of ring_os)) p) t)"
      if "os_isfile (cf_os (conf_of ring_os)) p" for p t using that unfolding c by (rule h)
  qed (rule e)
  then show ?thesis using n by simp
qed




end
