(* ===== verification/Spec2Isabelle.thy ===== *)
theory Spec2Isabelle
  imports ExprProps ToolProps AmsProps IeProps SupplyProps RawProps SpiceProps
begin

text \<open>
  A verification development for \<open>vamos\<close>, the Python front end under \<open>src/vamos/\<close> that takes the
  command line, netlist expressions and mixed-signal control files of commercial analog simulators
  and runs open engines (VACASK, Xyce) instead.

  \<^bold>\<open>Parts of the program and the theories that model them.\<close>
  \<^item> Netlist expressions (\<open>netlist/expr.py\<close>, \<open>netlist/expr_ast.py\<close>, \<open>netlist/numbers.py\<close>): a lexer and a
    Pratt parser with an HSPICE, a Spectre and a SPICE dialect build a tree; the tree is rewritten,
    evaluated, folded, and printed for the engines. \<open>ExprAst\<close> has the tree and its rewriting,
    \<open>Numbers\<close> the literals, \<open>ExprLex\<close>, \<open>ExprParse\<close>, \<open>ExprText\<close>, \<open>ExprEval\<close>, \<open>ExprFold\<close> and
    \<open>ExprPrint\<close> the steps in this order. \<open>PyFloat\<close> is Python's \<open>float\<close>: rationals rounded to 53 bits,
    with signed zeros, infinities and not-a-number, and its \<open>repr\<close>.
  \<^item> Command lines (\<open>argscan.py\<close>, \<open>optable.py\<close>, \<open>spectre/args.py\<close>, \<open>spectre/job.py\<close>, \<open>job.py\<close>): option
    files are expanded (\<open>ArgScan\<close>), a table of options is applied to a job (\<open>OptTable\<close>, \<open>JobIr\<close>), and
    Spectre's own scan and settings are \<open>SpectreArgs\<close>. \<open>Percent\<close>, \<open>Escape\<close>, \<open>StopSignals\<close> and
    \<open>PosixPath\<close> are the percent codes, the escaped names, the signals and \<open>posixpath\<close>.
  \<^item> The mixed-signal control file (\<open>ams/initfile.py\<close>, \<open>ams/config.py\<close>): \<open>InitLex\<close> splits a file into
    statements, \<open>InitTokens\<close> a statement into words, \<open>InitParse\<close> and \<open>InitRules\<close> are the commands (one
    definition per \<open>cmd_\<close> method, from a statement and a configuration to a configuration), and
    \<open>InitFile\<close> is the dispatch, the include files, the mined XA files and \<open>parse_control\<close>. The record
    \<open>ams_config\<close> of \<open>IeConfig\<close> is the class \<open>AmsConfig\<close>, field by field.
  \<^item> Interface elements (\<open>ams/rules.py\<close>, \<open>ams/globs.py\<close>): the check of a rule is \<open>IeCheck\<close>, the
    resolution of a node with its counters and notes \<open>IeResolve\<close>, the report lines and the
    diagnostics of selectors that matched nothing \<open>IeReport\<close>; \<open>Globs\<close> are the name patterns and
    \<open>PyText\<close> the pieces of Python's text library that they use.
  \<^item> The cut between the digital and the analog side (\<open>ams/model.py\<close>, \<open>ams/names.py\<close>,
    \<open>ams/portmap.py\<close>): \<open>AmsModel\<close> has the data, \<open>DeckNames\<close> the names of the deck and of the bridges,
    \<open>PortMapping\<close> the map of ports to SPICE ports.
  \<^item> The netlist as the tools hold it (\<open>netlist/ir.py\<close>) is \<open>NetlistIr\<close>. \<open>Supply\<close> is the tracing of supply
    nets (\<open>ams/supply.py\<close>): the graph of a deck flattened into nodes with a scope, and the search for
    the sources that drive a node, stage by stage, first over closed connections and then through
    gates.
  \<^item> Raw files of waveforms (\<open>netlist/rawfile.py\<close>): \<open>RawFile\<close> reads headers and binary or text rows and
    writes them, \<open>RawLook\<close> looks up signals and reads printed tables, \<open>RawScan\<close> finds the plots of a
    file without their data, streams rows and repairs a file whose writer died.

  \<^bold>\<open>How the code is translated.\<close> A class is a record with the same fields; a function with local
  variables that a loop changes is a fold or a recursive function over a record of these variables;
  an exception is the left side of a sum, a diagnostic is a value in the list that the code appends
  it to. An index into a text is the text from there on. A regular expression is a function on
  characters that says what the expression matches, greedily where the expression is. A dictionary
  whose order is visible is an association list under \<open>dict_set\<close>; one that is only looked up is a
  partial function. What the code calls outside itself is an argument: \<open>libm\<close> is the \<open>math\<close> module,
  \<open>os_env\<close> and \<open>files\<close> the file system, \<open>dc_of\<close> the supplies of a deck, and the hash of long names.

  \<^bold>\<open>What the lemmas show.\<close>
  \<^item> \<open>ExprEvalProps\<close>, \<open>ExprReads\<close>, \<open>ExprParseProps\<close>, \<open>ExprProps\<close>: rewriting and folding keep the value of an
    expression, the parser returns within its fuel and builds only what the evaluator and the printer
    accept, number texts of the dialects agree, printed names never collide.
  \<^item> \<open>FloatText\<close>: the shortest decimal text of a double reads back as the double. It is the base of
    \<open>fmt_round_trip\<close> and of the report lines.
  \<^item> \<open>ToolProps\<close>: option files are expanded in place, no option is lost or invented by a scan, jobs and
    escaped names survive being written and read.
  \<^item> \<open>AmsProps\<close>: names of the deck never collide, the port map is one to one.
  \<^item> \<open>IeResolveProps\<close>, \<open>InitProps\<close>: the merged values of a node are those of the last rule that sets
    each key; every rule that \<open>parse_control\<close> keeps passed its check, and checked rules never fail
    when a node is resolved.
  \<^item> \<open>IePaste\<close>, \<open>PasteLevels\<close>, \<open>PasteRead\<close>: a file with one command a line lexes into these commands in
    order, the words of a report line are its keys, and resolving with the rules of the lines gives
    the levels that were written. \<open>IeProps\<close> states the properties of the whole.
  \<^item> \<open>SupplyProps\<close>: the search of a supply returns what the first stage that reaches a source finds and
    misses only nodes that no stage reaches; the walk over scopes ends and lists each scope once.
  \<^item> \<open>RawSim\<close> relates the cursor of the scan to the reader's: both see the same plots, so the counts of
    the scan are the reader's, which \<open>RawProps\<close> states, with the streamed rows and the split tables.
  \<^item> Contracts that clients rely on are locales, each interpreted on the model's own operations: the
    order of results and the rewriting step in \<open>ExprEvalProps\<close>, the sub-parser in \<open>ExprParseProps\<close>, the
    binding powers in \<open>ExprReads\<close>, the supply of names in \<open>DeckNames\<close>, the job's record of options in
    \<open>OptTable\<close>.

  \<^bold>\<open>Fuel and bounds.\<close> The expression parser is a function with fuel, and \<open>parse_returns\<close> proves that the
  fuel that \<open>parse_toks\<close> starts with is enough for every token list. The search for free names is a
  partial function that is proved to return. All other loops are total functions with a measure;
  include files end by \<open>MAX_INCLUDE_DEPTH\<close>, as in the code. Characters are the codes up to 255.

  \<^bold>\<open>Not modelled.\<close> The netlist readers and planners (\<open>netlist/spice.py\<close>, \<open>netlist/spectre.py\<close>,
  \<open>netlist/plan.py\<close>), the writers of engine decks (\<open>netlist/vacask.py\<close>, \<open>netlist/xyce.py\<close>,
  \<open>netlist/tables.py\<close>), the cut of elaborated VHDL (\<open>ams/cut.py\<close> and the files around it), logs, and the
  flows that start processes: the first two groups are large and not reached yet, the others are
  input and output of other tools' formats. Of the raw files, complex values in the look-up of a
  value at a point and of crossings are left out, and the caches of the supply graph, which change no
  answer. A \<open>RecursionError\<close>, characters beyond code 255, and undecodable bytes are outside the model.
\<close>

end
